(* ===== verification/Prelude.thy ===== *)
theory Prelude
  imports Main "HOL-Library.Char_ord" "HOL-Library.List_Lexorder"
begin

text \<open>
  Shared vocabulary of the development: the parts of the Rust standard library the modelled
  code calls on strings and machine integers, and the generic lemmas about them.

  A Rust \<open>String\<close>/\<open>&str\<close> is the list of its UTF-8 bytes (\<open>string\<close>, where a \<open>char\<close> is one byte), so
  \<open>len()\<close> is \<open>length\<close>, the derived order is the byte order, and a search for an ASCII pattern is
  a search for bytes.  The Unicode white space that \<open>trim\<close> and \<open>char::is_whitespace\<close> recognise is
  decoded from its byte sequences by \<open>ws_len\<close>.

  Unsigned integers of the code are \<open>nat\<close>; the saturating and truncating operations are written
  out with their width.
\<close>

section \<open>Collections of simplification rules\<close>

named_theorems str_simps \<open>equations of the string operations\<close>
named_theorems map_simps \<open>lookup laws of the ordered maps\<close>
named_theorems inv_intros \<open>introduction rules of the component invariants\<close>

section \<open>Unsigned machine integers\<close>

definition u32_max :: nat where
  "u32_max = 4294967295"

definition u32_sat_add :: "nat \<Rightarrow> nat \<Rightarrow> nat" where
  "u32_sat_add a b = min (a + b) u32_max"

definition u32_cast :: "nat \<Rightarrow> nat" where
  \<comment> \<open>\<open>n as u32\<close>\<close>
  "u32_cast n = n mod 4294967296"

definition u32_try :: "nat \<Rightarrow> nat" where
  \<comment> \<open>\<open>u32::try_from(n).unwrap_or(u32::MAX)\<close>\<close>
  "u32_try n = min n u32_max"

lemma u32_sat_add_le: "u32_sat_add a b \<le> u32_max"
  by (simp add: u32_sat_add_def)

lemma u32_sat_add_exact: "a + b \<le> u32_max \<Longrightarrow> u32_sat_add a b = a + b"
  by (simp add: u32_sat_add_def)

lemma u32_sat_add_mono: "a \<le> u32_max \<Longrightarrow> a \<le> u32_sat_add a b"
  by (simp add: u32_sat_add_def)

lemma u32_sat_add_grows: "a < u32_max \<Longrightarrow> a < u32_sat_add a 1"
  by (simp add: u32_sat_add_def)

lemma u32_cast_id: "n \<le> u32_max \<Longrightarrow> u32_cast n = n"
  by (simp add: u32_cast_def u32_max_def)

section \<open>Results\<close>

text \<open>
  \<open>Result<T, E>\<close> is \<open>'e + 'a\<close> with \<open>Inl\<close> the error; the \<open>?\<close> operator is \<open>res_bind\<close>, and
  \<open>ensure!(c, e)\<close> followed by the rest of the function is \<open>res_ensure c e rest\<close>.
\<close>

fun res_bind :: "'e + 'a \<Rightarrow> ('a \<Rightarrow> 'e + 'b) \<Rightarrow> 'e + 'b" where
  "res_bind (Inl e) f = Inl e"
| "res_bind (Inr x) f = f x"

definition res_ensure :: "bool \<Rightarrow> 'e \<Rightarrow> 'e + 'a \<Rightarrow> 'e + 'a" where
  "res_ensure c e k = (if c then k else Inl e)"

definition ok_or :: "'a option \<Rightarrow> 'e \<Rightarrow> 'e + 'a" where
  "ok_or x e = (case x of None \<Rightarrow> Inl e | Some v \<Rightarrow> Inr v)"

definition is_ok :: "'e + 'a \<Rightarrow> bool" where
  "is_ok r = (case r of Inl _ \<Rightarrow> False | Inr _ \<Rightarrow> True)"

lemma res_bind_Inr_iff: "res_bind r f = Inr y \<longleftrightarrow> (\<exists>x. r = Inr x \<and> f x = Inr y)"
  by (cases r) auto

lemma res_ensure_Inr_iff: "res_ensure c e k = Inr y \<longleftrightarrow> c \<and> k = Inr y"
  by (simp add: res_ensure_def)

lemma ok_or_Inr_iff: "ok_or x e = Inr v \<longleftrightarrow> x = Some v"
  by (auto simp: ok_or_def split: option.splits)

fun map_err :: "('e \<Rightarrow> 'f) \<Rightarrow> 'e + 'a \<Rightarrow> 'f + 'a" where
  "map_err f (Inl e) = Inl (f e)"
| "map_err f (Inr x) = Inr x"

lemma map_err_Inr_iff [simp]: "map_err f r = Inr x \<longleftrightarrow> r = Inr x"
  by (cases r) auto

lemmas res_Inr_iffs = res_bind_Inr_iff res_ensure_Inr_iff ok_or_Inr_iff

section \<open>ASCII classes of a byte\<close>

abbreviation byte :: "char \<Rightarrow> nat" where
  "byte c \<equiv> of_char c"

definition is_ascii_digit :: "char \<Rightarrow> bool" where
  "is_ascii_digit c \<longleftrightarrow> 48 \<le> byte c \<and> byte c \<le> 57"

definition is_ascii_alphanumeric :: "char \<Rightarrow> bool" where
  "is_ascii_alphanumeric c \<longleftrightarrow>
     is_ascii_digit c \<or> (65 \<le> byte c \<and> byte c \<le> 90) \<or> (97 \<le> byte c \<and> byte c \<le> 122)"

definition ascii_lower :: "char \<Rightarrow> char" where
  "ascii_lower c = (if 65 \<le> byte c \<and> byte c \<le> 90 then char_of (byte c + 32) else c)"

definition to_ascii_lowercase :: "string \<Rightarrow> string" where
  "to_ascii_lowercase s = map ascii_lower s"

definition eq_ignore_ascii_case :: "string \<Rightarrow> string \<Rightarrow> bool" where
  "eq_ignore_ascii_case a b \<longleftrightarrow> to_ascii_lowercase a = to_ascii_lowercase b"

lemma byte_ascii_lower:
  "byte (ascii_lower c) = (if 65 \<le> byte c \<and> byte c \<le> 90 then byte c + 32 else byte c)"
  by (simp add: ascii_lower_def)

lemma ascii_lower_idem [simp]: "ascii_lower (ascii_lower c) = ascii_lower c"
proof -
  have "\<not> (65 \<le> byte (ascii_lower c) \<and> byte (ascii_lower c) \<le> 90)"
    by (auto simp: byte_ascii_lower)
  then show ?thesis by (simp only: ascii_lower_def [of "ascii_lower c"] if_False)
qed

lemma to_ascii_lowercase_idem [simp]:
  "to_ascii_lowercase (to_ascii_lowercase s) = to_ascii_lowercase s"
  by (simp add: to_ascii_lowercase_def comp_def)

lemma length_to_ascii_lowercase [simp]: "length (to_ascii_lowercase s) = length s"
  by (simp add: to_ascii_lowercase_def)

section \<open>White space\<close>

definition is_ascii_ws :: "char \<Rightarrow> bool" where
  "is_ascii_ws c \<longleftrightarrow> (9 \<le> byte c \<and> byte c \<le> 13) \<or> byte c = 32"

definition wide_ws :: "nat \<Rightarrow> nat \<Rightarrow> nat \<Rightarrow> bool" where
  \<comment> \<open>U+1680, U+2000 to U+200A, U+2028, U+2029, U+202F, U+205F and U+3000 in UTF-8\<close>
  "wide_ws a b c \<longleftrightarrow>
     (a = 0xE1 \<and> b = 0x9A \<and> c = 0x80) \<or>
     (a = 0xE2 \<and> b = 0x80 \<and> (0x80 \<le> c \<and> c \<le> 0x8A \<or> c = 0xA8 \<or> c = 0xA9 \<or> c = 0xAF)) \<or>
     (a = 0xE2 \<and> b = 0x81 \<and> c = 0x9F) \<or>
     (a = 0xE3 \<and> b = 0x80 \<and> c = 0x80)"

text \<open>The number of bytes of the white-space character a text starts with, 0 for none.\<close>

fun ws_len :: "string \<Rightarrow> nat" where
  "ws_len [] = 0"
| "ws_len (a # s) =
     (if is_ascii_ws a then 1
      else case s of
        [] \<Rightarrow> 0
      | b # s' \<Rightarrow>
          if byte a = 0xC2 \<and> (byte b = 0x85 \<or> byte b = 0xA0) then 2
          else case s' of
            [] \<Rightarrow> 0
          | c # _ \<Rightarrow> if wide_ws (byte a) (byte b) (byte c) then 3 else 0)"

text \<open>The same for the end of a text, which is given reversed.\<close>

fun ws_rlen :: "string \<Rightarrow> nat" where
  "ws_rlen [] = 0"
| "ws_rlen (a # s) =
     (if is_ascii_ws a then 1
      else case s of
        [] \<Rightarrow> 0
      | b # s' \<Rightarrow>
          if byte b = 0xC2 \<and> (byte a = 0x85 \<or> byte a = 0xA0) then 2
          else case s' of
            [] \<Rightarrow> 0
          | c # _ \<Rightarrow> if wide_ws (byte c) (byte b) (byte a) then 3 else 0)"

lemma ws_len_le: "ws_len s \<le> length s"
  by (cases s) (auto split: list.splits)

lemma ws_len_pos_nonempty: "0 < ws_len s \<Longrightarrow> s \<noteq> []"
  by (cases s) auto

lemma ws_rlen_pos_nonempty: "0 < ws_rlen s \<Longrightarrow> s \<noteq> []"
  by (cases s) auto

lemma drop_ws_less: "0 < n \<Longrightarrow> s \<noteq> [] \<Longrightarrow> length (drop n s) < length s"
  by (simp add: diff_less)

function trim_start :: "string \<Rightarrow> string" where
  "trim_start s = (if 0 < ws_len s then trim_start (drop (ws_len s) s) else s)"
  by pat_completeness auto
termination
  by (relation "measure length") (auto intro: drop_ws_less [simplified] dest: ws_len_pos_nonempty)

declare trim_start.simps [simp del]

function trim_rev :: "string \<Rightarrow> string" where
  "trim_rev s = (if 0 < ws_rlen s then trim_rev (drop (ws_rlen s) s) else s)"
  by pat_completeness auto
termination
  by (relation "measure length") (auto intro: drop_ws_less [simplified] dest: ws_rlen_pos_nonempty)

declare trim_rev.simps [simp del]

definition trim_end :: "string \<Rightarrow> string" where
  "trim_end s = rev (trim_rev (rev s))"

definition trim :: "string \<Rightarrow> string" where
  "trim s = trim_end (trim_start s)"

lemma trim_start_no_ws: "ws_len (trim_start s) = 0"
proof (induction s rule: trim_start.induct)
  case (1 s)
  then show ?case
    by (cases "0 < ws_len s") (simp_all add: trim_start.simps [of s])
qed

lemma trim_start_suffix: "\<exists>pre. s = pre @ trim_start s"
proof (induction s rule: trim_start.induct)
  case (1 s)
  show ?case
  proof (cases "0 < ws_len s")
    case True
    with 1 obtain pre where "drop (ws_len s) s = pre @ trim_start (drop (ws_len s) s)" by blast
    then have "s = (take (ws_len s) s @ pre) @ trim_start (drop (ws_len s) s)"
      by (metis append.assoc append_take_drop_id)
    with True have "s = (take (ws_len s) s @ pre) @ trim_start s"
      by (simp add: trim_start.simps [of s])
    then show ?thesis ..
  next
    case False
    then show ?thesis by (simp add: trim_start.simps [of s])
  qed
qed

lemma trim_start_Nil [simp]: "trim_start [] = []"
  by (simp add: trim_start.simps)

lemma trim_rev_Nil [simp]: "trim_rev [] = []"
  by (simp add: trim_rev.simps)

lemma trim_Nil [simp]: "trim [] = []"
  by (simp add: trim_def trim_end_def)

lemma trim_rev_no_ws: "ws_rlen (trim_rev s) = 0"
proof (induction s rule: trim_rev.induct)
  case (1 s)
  then show ?case
    by (cases "0 < ws_rlen s") (simp_all add: trim_rev.simps [of s])
qed

lemma trim_rev_suffix: "\<exists>pre. s = pre @ trim_rev s"
proof (induction s rule: trim_rev.induct)
  case (1 s)
  show ?case
  proof (cases "0 < ws_rlen s")
    case True
    with 1 obtain pre where "drop (ws_rlen s) s = pre @ trim_rev (drop (ws_rlen s) s)" by blast
    then have "s = (take (ws_rlen s) s @ pre) @ trim_rev (drop (ws_rlen s) s)"
      by (metis append.assoc append_take_drop_id)
    with True have "s = (take (ws_rlen s) s @ pre) @ trim_rev s"
      by (simp add: trim_rev.simps [of s])
    then show ?thesis ..
  next
    case False
    then show ?thesis by (simp add: trim_rev.simps [of s])
  qed
qed

lemma ws_len_append: "0 < ws_len s \<Longrightarrow> 0 < ws_len (s @ t)"
  by (cases s) (auto split: list.splits if_splits)

lemma trim_idem [simp]: "trim (trim s) = trim s"
proof -
  let ?t = "trim_start s"
  obtain q where "rev ?t = q @ trim_rev (rev ?t)" using trim_rev_suffix by blast
  then have "?t = trim_end ?t @ rev q"
    unfolding trim_end_def by (metis rev_append rev_rev_ident)
  then have "ws_len (trim_end ?t) = 0"
    using trim_start_no_ws [of s] ws_len_append by (metis gr0I less_irrefl)
  then have "trim_start (trim_end ?t) = trim_end ?t" by (simp add: trim_start.simps)
  moreover have "trim_end (trim_end ?t) = trim_end ?t"
    using trim_rev_no_ws [of "rev ?t"] by (simp add: trim_end_def trim_rev.simps [of "trim_rev (rev ?t)"])
  ultimately show ?thesis by (simp add: trim_def)
qed

section \<open>Searching and splitting\<close>

definition starts_with :: "string \<Rightarrow> string \<Rightarrow> bool" where
  "starts_with s pre \<longleftrightarrow> take (length pre) s = pre"

definition ends_with :: "string \<Rightarrow> string \<Rightarrow> bool" where
  "ends_with s suf \<longleftrightarrow> starts_with (rev s) (rev suf)"

definition strip_prefix :: "string \<Rightarrow> string \<Rightarrow> string option" where
  "strip_prefix s pre = (if starts_with s pre then Some (drop (length pre) s) else None)"

definition strip_suffix :: "string \<Rightarrow> string \<Rightarrow> string option" where
  "strip_suffix s suf =
     (if ends_with s suf then Some (take (length s - length suf) s) else None)"

text \<open>\<open>s.find(pat)\<close>: the byte offset of the first occurrence.\<close>

fun find_str :: "string \<Rightarrow> string \<Rightarrow> nat option" where
  "find_str [] pat = (if pat = [] then Some 0 else None)"
| "find_str (x # xs) pat =
     (if starts_with (x # xs) pat then Some 0 else map_option Suc (find_str xs pat))"

definition contains_str :: "string \<Rightarrow> string \<Rightarrow> bool" where
  "contains_str s pat \<longleftrightarrow> find_str s pat \<noteq> None"

text \<open>\<open>s.find(|c| p(c))\<close> for an ASCII class \<open>p\<close>, and \<open>iter().position(p)\<close> for any list.\<close>

fun position :: "('a \<Rightarrow> bool) \<Rightarrow> 'a list \<Rightarrow> nat option" where
  "position p [] = None"
| "position p (x # xs) = (if p x then Some 0 else map_option Suc (position p xs))"

definition rposition :: "('a \<Rightarrow> bool) \<Rightarrow> 'a list \<Rightarrow> nat option" where
  "rposition p xs = map_option (\<lambda>i. length xs - 1 - i) (position p (rev xs))"

definition split_once :: "string \<Rightarrow> string \<Rightarrow> (string \<times> string) option" where
  "split_once s sep =
     map_option (\<lambda>i. (take i s, drop (i + length sep) s)) (find_str s sep)"

definition rsplit_once_char :: "string \<Rightarrow> char \<Rightarrow> (string \<times> string) option" where
  "rsplit_once_char s c =
     map_option (\<lambda>i. (take i s, drop (Suc i) s)) (rposition (\<lambda>x. x = c) s)"

text \<open>\<open>s.split(p)\<close> for a class of ASCII separators: always at least one piece.\<close>

fun split_by :: "(char \<Rightarrow> bool) \<Rightarrow> string \<Rightarrow> string list" where
  "split_by p [] = [[]]"
| "split_by p (x # xs) =
     (if p x then [] # split_by p xs
      else case split_by p xs of [] \<Rightarrow> [[x]] | y # ys \<Rightarrow> (x # y) # ys)"

definition split_char :: "char \<Rightarrow> string \<Rightarrow> string list" where
  "split_char c s = split_by (\<lambda>x. x = c) s"

text \<open>\<open>s.trim_start_matches(pat)\<close> for a non-empty \<open>pat\<close>.\<close>

function trim_start_matches :: "string \<Rightarrow> string \<Rightarrow> string" where
  "trim_start_matches s pat =
     (if pat \<noteq> [] \<and> starts_with s pat then trim_start_matches (drop (length pat) s) pat else s)"
  by pat_completeness auto
termination
proof (relation "measure (\<lambda>(s, pat). length s)", goal_cases)
  case (2 s pat)
  then have "s \<noteq> []" by (auto simp: starts_with_def)
  with 2 show ?case by auto
qed simp

declare trim_start_matches.simps [simp del]

text \<open>\<open>s.replace(pat, by)\<close> for a non-empty \<open>pat\<close>: left to right, without overlap.\<close>

function replace_str :: "string \<Rightarrow> string \<Rightarrow> string \<Rightarrow> string" where
  "replace_str s pat by =
     (if pat \<noteq> [] \<and> starts_with s pat then by @ replace_str (drop (length pat) s) pat by
      else case s of [] \<Rightarrow> [] | x # xs \<Rightarrow> x # replace_str xs pat by)"
  by pat_completeness auto
termination
proof (relation "measure (\<lambda>(s, pat, by). length s)", goal_cases)
  case (2 s pat)
  then have "s \<noteq> []" by (auto simp: starts_with_def)
  with 2 show ?case by auto
qed simp_all

declare replace_str.simps [simp del]

fun join_str :: "string \<Rightarrow> string list \<Rightarrow> string" where
  "join_str sep [] = []"
| "join_str sep [x] = x"
| "join_str sep (x # y # ys) = x @ sep @ join_str sep (y # ys)"

text \<open>The decimal form of an unsigned integer.\<close>

fun show_nat :: "nat \<Rightarrow> string" where
  "show_nat n =
     (if n < 10 then [char_of (48 + n)] else show_nat (n div 10) @ [char_of (48 + n mod 10)])"

declare show_nat.simps [simp del]

lemma starts_with_Nil [simp]: "starts_with s []"
  by (simp add: starts_with_def)

lemma starts_with_append [simp]: "starts_with (p @ s) p"
  by (simp add: starts_with_def)

lemma starts_with_iff: "starts_with s p \<longleftrightarrow> (\<exists>t. s = p @ t)"
  by (metis append_eq_conv_conj append_take_drop_id starts_with_def)

lemma strip_prefix_Some_iff: "strip_prefix s p = Some t \<longleftrightarrow> s = p @ t"
  by (auto simp: strip_prefix_def starts_with_iff)

lemma position_Some: "position p xs = Some i \<Longrightarrow> i < length xs \<and> p (xs ! i)"
  by (induction xs arbitrary: i) (auto split: if_splits)

lemma position_Some_take: "position p xs = Some i \<Longrightarrow> \<forall>x \<in> set (take i xs). \<not> p x"
  by (induction xs arbitrary: i) (auto split: if_splits)

lemma position_None: "position p xs = None \<longleftrightarrow> (\<forall>x \<in> set xs. \<not> p x)"
  by (induction xs) auto

lemma split_by_nonempty [simp]: "split_by p s \<noteq> []"
  by (induction s) (auto split: list.splits)

lemma split_by_clean: "piece \<in> set (split_by p s) \<Longrightarrow> c \<in> set piece \<Longrightarrow> \<not> p c"
proof (induction s arbitrary: piece)
  case (Cons x xs)
  then obtain y ys where "split_by p xs = y # ys" by (cases "split_by p xs") auto
  with Cons show ?case by (fastforce split: if_splits)
qed simp

section \<open>Lists\<close>

text \<open>\<open>iter_mut().find(p)\<close> followed by an assignment: the first element that satisfies \<open>p\<close>.\<close>

fun update_first :: "('a \<Rightarrow> bool) \<Rightarrow> ('a \<Rightarrow> 'a) \<Rightarrow> 'a list \<Rightarrow> 'a list" where
  "update_first p f [] = []"
| "update_first p f (x # xs) = (if p x then f x # xs else x # update_first p f xs)"

text \<open>\<open>iter().find_map(f)\<close>.\<close>

fun find_map :: "('a \<Rightarrow> 'b option) \<Rightarrow> 'a list \<Rightarrow> 'b option" where
  "find_map f [] = None"
| "find_map f (x # xs) = (case f x of None \<Rightarrow> find_map f xs | Some y \<Rightarrow> Some y)"

lemma find_map_Some: "find_map f xs = Some y \<Longrightarrow> \<exists>x \<in> set xs. f x = Some y"
  by (induction xs) (auto split: option.splits)

lemma find_map_None: "find_map f xs = None \<longleftrightarrow> (\<forall>x \<in> set xs. f x = None)"
  by (induction xs) (auto split: option.splits)

lemma length_update_first [simp]: "length (update_first p f xs) = length xs"
  by (induction xs) auto

lemma map_update_first: "(\<And>x. g (f x) = g x) \<Longrightarrow> map g (update_first p f xs) = map g xs"
  by (induction xs) auto

lemma set_update_first: "set (update_first p f xs) \<subseteq> set xs \<union> f ` {x \<in> set xs. p x}"
  by (induction xs) auto

lemma update_first_none: "(\<And>x. x \<in> set xs \<Longrightarrow> \<not> p x) \<Longrightarrow> update_first p f xs = xs"
  by (induction xs) auto

lemma find_Some_in: "find p xs = Some x \<Longrightarrow> x \<in> set xs \<and> p x"
  by (induction xs) (auto split: if_splits)

end
