(* ===== verification/Json.thy ===== *)
theory Json
  imports Prelude
begin

text \<open>
  The data the workflow and policy code exchanges: \<open>serde_json::Value\<close>, and \<open>BTreeMap\<close>, which is also
  the representation of a JSON object (the workspace builds \<open>serde_json\<close> without \<open>preserve_order\<close>).

  A \<open>BTreeMap<K, V>\<close> is the list of its entries in key order, without repeated keys; iteration is the
  list itself.  The laws its clients use are the locale \<open>ordered_map\<close>, interpreted on the lists.

  Numbers are \<open>serde_json::Number\<close>: a non-negative integer, a negative integer or a finite double
  \<open>m * 2 ^ e\<close> (in lowest terms).  Parsing and typed deserialisation belong to \<open>serde_json\<close> and are
  arguments of the definitions that use them.
\<close>

section \<open>Ordered maps\<close>

type_synonym ('k, 'v) btree = "('k \<times> 'v) list"

fun bt_get :: "('k, 'v) btree \<Rightarrow> 'k \<Rightarrow> 'v option" where
  "bt_get [] k = None"
| "bt_get ((k', v) # m) k = (if k' = k then Some v else bt_get m k)"

fun bt_insert :: "'k::linorder \<Rightarrow> 'v \<Rightarrow> ('k, 'v) btree \<Rightarrow> ('k, 'v) btree" where
  "bt_insert k v [] = [(k, v)]"
| "bt_insert k v ((k', v') # m) =
     (if k < k' then (k, v) # (k', v') # m
      else if k = k' then (k, v) # m
      else (k', v') # bt_insert k v m)"

definition bt_remove :: "'k \<Rightarrow> ('k, 'v) btree \<Rightarrow> ('k, 'v) btree" where
  "bt_remove k m = filter (\<lambda>(k', _). k' \<noteq> k) m"

definition bt_contains :: "('k, 'v) btree \<Rightarrow> 'k \<Rightarrow> bool" where
  "bt_contains m k \<longleftrightarrow> bt_get m k \<noteq> None"

definition bt_keys :: "('k, 'v) btree \<Rightarrow> 'k list" where
  "bt_keys m = map fst m"

definition bt_inv :: "('k::linorder, 'v) btree \<Rightarrow> bool" where
  "bt_inv m \<longleftrightarrow> sorted_wrt (<) (map fst m)"

text \<open>\<open>for (key, value) in entries { map.insert(key, value) }\<close>.\<close>

definition bt_extend :: "('k::linorder \<times> 'v) list \<Rightarrow> ('k, 'v) btree \<Rightarrow> ('k, 'v) btree" where
  "bt_extend entries m = fold (\<lambda>(k, v). bt_insert k v) entries m"

text \<open>The contract of a map with ordered iteration.\<close>

locale ordered_map =
  fixes empty :: 'm
    and get :: "'m \<Rightarrow> 'k \<Rightarrow> 'v option"
    and insert :: "'k \<Rightarrow> 'v \<Rightarrow> 'm \<Rightarrow> 'm"
    and remove :: "'k \<Rightarrow> 'm \<Rightarrow> 'm"
    and inv :: "'m \<Rightarrow> bool"
  assumes get_empty: "get empty k = None"
    and get_insert: "get (insert k v m) k' = (if k' = k then Some v else get m k')"
    and get_remove: "get (remove k m) k' = (if k' = k then None else get m k')"
    and inv_empty: "inv empty"
    and inv_insert: "inv m \<Longrightarrow> inv (insert k v m)"
    and inv_remove: "inv m \<Longrightarrow> inv (remove k m)"
    and ext: "inv m \<Longrightarrow> inv m' \<Longrightarrow> (\<And>k. get m k = get m' k) \<Longrightarrow> m = m'"
begin

lemma insert_swap:
  "inv m \<Longrightarrow> k \<noteq> k' \<Longrightarrow> insert k v (insert k' v' m) = insert k' v' (insert k v m)"
  by (rule ext) (auto simp: get_insert inv_insert)

lemma insert_twice: "inv m \<Longrightarrow> insert k v (insert k v' m) = insert k v m"
  by (rule ext) (auto simp: get_insert inv_insert)

lemma inv_fold_insert: "inv m \<Longrightarrow> inv (fold (\<lambda>(k, v). insert k v) entries m)"
  by (induction entries arbitrary: m) (auto simp: inv_insert)

lemma get_fold_insert:
  "get (fold (\<lambda>(k, v). insert k v) entries m) k =
     (case map_of (rev entries) k of Some v \<Rightarrow> Some v | None \<Rightarrow> get m k)"
  by (induction entries arbitrary: m)
     (auto simp: get_insert map_add_def split: option.splits)

lemma remove_insert: "inv m \<Longrightarrow> get m k = None \<Longrightarrow> remove k (insert k v m) = m"
  by (rule ext) (auto simp: get_insert get_remove inv_insert inv_remove)

end

lemma bt_get_map_of: "bt_get m k = map_of m k"
  by (induction m) auto

lemma bt_get_insert [map_simps]: "bt_get (bt_insert k v m) k' = (if k' = k then Some v else bt_get m k')"
  by (induction m) auto

lemma bt_get_remove [map_simps]: "bt_get (bt_remove k m) k' = (if k' = k then None else bt_get m k')"
  by (induction m) (auto simp: bt_remove_def)

lemma set_keys_bt_insert: "fst ` set (bt_insert k v m) = insert k (fst ` set m)"
proof (induction m)
  case (Cons p m)
  then show ?case by (cases p) (auto simp: insert_commute)
qed simp

lemma bt_inv_insert: "bt_inv m \<Longrightarrow> bt_inv (bt_insert k v m)"
proof (induction m)
  case (Cons p m)
  obtain k' v' where p: "p = (k', v')" by (cases p)
  have "x \<in> set (map fst (bt_insert k v m)) \<Longrightarrow> x = k \<or> x \<in> fst ` set m" for x
    using set_keys_bt_insert [of k v m] by auto
  with Cons p show ?case
    by (auto simp: bt_inv_def set_keys_bt_insert)
qed (simp add: bt_inv_def)

lemma bt_inv_remove: "bt_inv m \<Longrightarrow> bt_inv (bt_remove k m)"
  by (induction m) (auto simp: bt_inv_def bt_remove_def)

lemma bt_inv_distinct: "bt_inv m \<Longrightarrow> distinct (map fst m)"
  by (simp add: bt_inv_def strict_sorted_iff)

lemma bt_ext:
  assumes "bt_inv m" "bt_inv m'" "\<And>k. bt_get m k = bt_get m' k"
  shows "m = m'"
proof -
  have mem: "p \<in> set n \<longleftrightarrow> bt_get n (fst p) = Some (snd p)" if "bt_inv n" for n p
    using map_of_eq_Some_iff [OF bt_inv_distinct [OF that], of "fst p" "snd p"]
    by (simp add: bt_get_map_of)
  have "set m = set m'"
    using mem [OF assms(1)] mem [OF assms(2)] assms(3) by (simp add: set_eq_iff)
  moreover have "inj_on fst (set m)" using bt_inv_distinct [OF assms(1)] by (simp add: distinct_map)
  ultimately show ?thesis
    using assms(1,2) bt_inv_distinct
    by (intro map_sorted_distinct_set_unique [of fst]) (simp_all add: bt_inv_def strict_sorted_iff)
qed

interpretation bt: ordered_map "[]" bt_get bt_insert bt_remove bt_inv
proof
  show "bt_inv []" by (simp add: bt_inv_def)
qed (auto simp: map_simps intro: bt_inv_insert bt_inv_remove bt_ext)

lemma bt_inv_extend: "bt_inv m \<Longrightarrow> bt_inv (bt_extend entries m)"
  unfolding bt_extend_def by (rule bt.inv_fold_insert)

lemma bt_get_extend:
  "bt_get (bt_extend entries m) k =
     (case map_of (rev entries) k of Some v \<Rightarrow> Some v | None \<Rightarrow> bt_get m k)"
  unfolding bt_extend_def by (rule bt.get_fold_insert)

section \<open>JSON values\<close>

datatype json_number = PosInt nat | NegInt int | FloatNum int int

datatype json =
    JNull
  | JBool bool
  | JNumber json_number
  | JString string
  | JArray "json list"
  | JObject "(string \<times> json) list"

definition json_get :: "json \<Rightarrow> string \<Rightarrow> json option" where
  "json_get v key = (case v of JObject m \<Rightarrow> bt_get m key | _ \<Rightarrow> None)"

definition as_bool :: "json \<Rightarrow> bool option" where
  "as_bool v = (case v of JBool b \<Rightarrow> Some b | _ \<Rightarrow> None)"

definition as_str :: "json \<Rightarrow> string option" where
  "as_str v = (case v of JString s \<Rightarrow> Some s | _ \<Rightarrow> None)"

definition as_array :: "json \<Rightarrow> json list option" where
  "as_array v = (case v of JArray vs \<Rightarrow> Some vs | _ \<Rightarrow> None)"

definition as_object :: "json \<Rightarrow> (string \<times> json) list option" where
  "as_object v = (case v of JObject m \<Rightarrow> Some m | _ \<Rightarrow> None)"

definition as_u64 :: "json \<Rightarrow> nat option" where
  "as_u64 v = (case v of JNumber (PosInt n) \<Rightarrow> Some n | _ \<Rightarrow> None)"

definition json_of_map :: "(string \<times> json) list \<Rightarrow> json" where
  \<comment> \<open>\<open>json!({ ... })\<close>: the fields inserted one by one\<close>
  "json_of_map fields = JObject (bt_extend fields [])"

text \<open>\<open>path.split('.').try_fold(value, |v, segment| v.as_object()?.get(segment))\<close>.\<close>

fun json_walk :: "json \<Rightarrow> string list \<Rightarrow> json option" where
  "json_walk v [] = Some v"
| "json_walk v (segment # rest) =
     (case json_get v segment of None \<Rightarrow> None | Some w \<Rightarrow> json_walk w rest)"

lemma json_get_insert:
  "json_get (JObject (bt_insert k v m)) k' = (if k' = k then Some v else json_get (JObject m) k')"
  by (simp add: json_get_def map_simps)

end
