(* ===== verification/Shell_Lexer.thy ===== *)
theory Shell_Lexer
  imports Prelude "HOL-Library.Sublist"
begin

text \<open>
  The lexical layer of the shell analyser (\<open>crates/opentopia-core/src/shell_analysis.rs\<close>): the
  scanners that skip quoted text and comments, the search for the executable regions nested in
  braces, parentheses and \<open>$(...)\<close>, and the lexer that turns a command into words and operators.

  The Rust scanners walk a character vector with an index.  Here a scanner is given the text
  \<^emph>\<open>after\<close> the character that started it and returns how many bytes it consumes, so the index of
  the code is the start plus that count.  Every branch on a character is a branch on an ASCII
  character (or on white space, see \<open>ws_len\<close>), so walking bytes and walking characters agree.
\<close>

section \<open>Characters the scanners name\<close>

abbreviation sq_char :: char where "sq_char \<equiv> CHR 0x27"
abbreviation dq_char :: char where "dq_char \<equiv> CHR 0x22"
abbreviation tick_char :: char where "tick_char \<equiv> CHR 0x60"
abbreviation backslash_char :: char where "backslash_char \<equiv> CHR 0x5C"
abbreviation lf_char :: char where "lf_char \<equiv> CHR 0x0A"
abbreviation cr_char :: char where "cr_char \<equiv> CHR 0x0D"

definition is_newline :: "char \<Rightarrow> bool" where
  "is_newline c \<longleftrightarrow> c = cr_char \<or> c = lf_char"

definition is_wildcard_char :: "char \<Rightarrow> bool" where
  "is_wildcard_char c \<longleftrightarrow> c \<in> {CHR ''*'', CHR ''?'', CHR ''['', CHR '']''}"

definition next_is :: "string \<Rightarrow> char \<Rightarrow> bool" where
  \<comment> \<open>\<open>chars.get(index + 1) == Some(&c)\<close>\<close>
  "next_is s c \<longleftrightarrow> (case s of [] \<Rightarrow> False | x # _ \<Rightarrow> x = c)"

section \<open>Skipping quoted text and comments\<close>

fun skip_single_quoted :: "string \<Rightarrow> nat" where
  "skip_single_quoted [] = 0"
| "skip_single_quoted (c # s) =
     (if c = sq_char then
        (case s of
           [] \<Rightarrow> 1
         | d # s' \<Rightarrow> if d = sq_char then 2 + skip_single_quoted s' else 1)
      else Suc (skip_single_quoted s))"

definition skip_line_comment :: "string \<Rightarrow> nat" where
  "skip_line_comment s =
     (case position is_newline s of None \<Rightarrow> length s | Some offset \<Rightarrow> Suc offset)"

fun skip_block_comment :: "string \<Rightarrow> nat" where
  "skip_block_comment [] = 0"
| "skip_block_comment [c] = 1"
| "skip_block_comment (c # d # s) =
     (if c = CHR ''#'' \<and> d = CHR ''>'' then 2 else Suc (skip_block_comment (d # s)))"

section \<open>Matching groups and nested regions\<close>

text \<open>
  \<open>find_matching_group opn cls depth s\<close> is the offset in \<open>s\<close> of the closing character that brings
  \<open>depth\<close> to zero; \<open>scan_double_quoted s\<close> is the number of bytes up to and including the closing
  quote together with the bodies of the \<open>$(...)\<close> groups it met.
\<close>

function find_matching_group :: "char \<Rightarrow> char \<Rightarrow> nat \<Rightarrow> string \<Rightarrow> nat option"
  and scan_double_quoted :: "string \<Rightarrow> nat \<times> string list" where
  "find_matching_group opn cls depth [] = None"
| "find_matching_group opn cls depth (c # s) =
     (let skipped =
        (if c = sq_char then Some (skip_single_quoted s)
         else if c = dq_char then Some (fst (scan_double_quoted s))
         else if c = CHR ''#'' then Some (skip_line_comment s)
         else if c = CHR ''<'' \<and> next_is s (CHR ''#'') then Some (Suc (skip_block_comment (tl s)))
         else if c = tick_char then Some (min 1 (length s))
         else None)
      in case skipped of
        Some k \<Rightarrow> map_option (\<lambda>i. Suc (k + i)) (find_matching_group opn cls depth (drop k s))
      | None \<Rightarrow>
          if c = opn then map_option Suc (find_matching_group opn cls (Suc depth) s)
          else if c = cls then
            (if depth - 1 = 0 then Some 0
             else map_option Suc (find_matching_group opn cls (depth - 1) s))
          else map_option Suc (find_matching_group opn cls depth s))"
| "scan_double_quoted [] = (0, [])"
| "scan_double_quoted (c # s) =
     (if c = tick_char then
        (case scan_double_quoted (drop 1 s) of (n, rs) \<Rightarrow> (Suc (min 1 (length s)) + n, rs))
      else if c = dq_char then (1, [])
      else if c = CHR ''$'' \<and> next_is s (CHR ''('') then
        (case find_matching_group (CHR ''('') (CHR '')'') 1 (tl s) of
           Some e \<Rightarrow>
             (case scan_double_quoted (drop (Suc e) (tl s)) of
                (n, rs) \<Rightarrow> (3 + e + n, take e (tl s) # rs))
         | None \<Rightarrow> (case scan_double_quoted (tl s) of (n, rs) \<Rightarrow> (2 + n, rs)))
      else (case scan_double_quoted s of (n, rs) \<Rightarrow> (Suc n, rs)))"
  by pat_completeness auto
termination
  by (relation "measure (\<lambda>x. case x of Inl (opn, cls, depth, s) \<Rightarrow> length s | Inr s \<Rightarrow> length s)")
     auto

function nested_executable_regions :: "string \<Rightarrow> string list" where
  "nested_executable_regions [] = []"
| "nested_executable_regions (c # s) =
     (if c = sq_char then nested_executable_regions (drop (skip_single_quoted s) s)
      else if c = dq_char then
        (case scan_double_quoted s of (n, rs) \<Rightarrow> rs @ nested_executable_regions (drop n s))
      else if c = CHR ''#'' then nested_executable_regions (drop (skip_line_comment s) s)
      else if c = CHR ''<'' \<and> next_is s (CHR ''#'') then
        nested_executable_regions (drop (Suc (skip_block_comment (tl s))) s)
      else if c = CHR ''{'' then
        (case find_matching_group (CHR ''{'') (CHR ''}'') 1 s of
           Some e \<Rightarrow> take e s # nested_executable_regions (drop (Suc e) s)
         | None \<Rightarrow> nested_executable_regions s)
      else if c = CHR ''('' then
        (case find_matching_group (CHR ''('') (CHR '')'') 1 s of
           Some e \<Rightarrow> take e s # nested_executable_regions (drop (Suc e) s)
         | None \<Rightarrow> nested_executable_regions s)
      else if c = tick_char then nested_executable_regions (drop 1 s)
      else nested_executable_regions s)"
  by pat_completeness auto
termination
  by (relation "measure length") auto

section \<open>The lexer\<close>

record shell_word =
  w_value :: string
  w_dynamic :: bool
  w_wildcard :: bool

datatype operator = Sequence | Pipeline | Redirection | Background

datatype lexeme = LWord shell_word | LOperator operator

fun percent_name :: "bool \<Rightarrow> string \<Rightarrow> bool" where
  "percent_name saw_name [] = False"
| "percent_name saw_name (c # s) =
     (if c = CHR ''%'' then saw_name
      else if \<not> (is_ascii_alphanumeric c \<or> c = CHR ''_'') then False
      else percent_name True s)"

definition percent_expansion_at :: "string \<Rightarrow> bool" where
  "percent_expansion_at s =
     (case s of [] \<Rightarrow> False | c # s' \<Rightarrow> c = CHR ''%'' \<and> percent_name False s')"

definition expands_at :: "char \<Rightarrow> string \<Rightarrow> bool" where
  \<comment> \<open>the test that sets \<open>word_dynamic\<close>\<close>
  "expands_at c s \<longleftrightarrow>
     c = CHR ''$'' \<or> c = tick_char \<or> (c = CHR ''%'' \<and> percent_expansion_at (c # s))"

definition operator_at :: "char \<Rightarrow> string \<Rightarrow> (operator \<times> nat) option" where
  "operator_at c s =
     (if c = CHR '';'' then Some (Sequence, 1)
      else if c = CHR ''|'' then
        (if next_is s (CHR ''|'') then Some (Sequence, 2) else Some (Pipeline, 1))
      else if c = CHR ''&'' then
        (if next_is s (CHR ''&'') then Some (Sequence, 2) else Some (Background, 1))
      else if c = CHR ''>'' \<or> c = CHR ''<'' then
        Some (Redirection, (if next_is s c then 1 else 0) + 1)
      else None)"

definition flush_word :: "string \<Rightarrow> bool \<Rightarrow> bool \<Rightarrow> lexeme list" where
  "flush_word w dyn wild =
     (if w = [] then []
      else [LWord \<lparr>w_value = w, w_dynamic = dyn, w_wildcard = wild\<rparr>])"

function lex_from :: "char option \<Rightarrow> string \<Rightarrow> bool \<Rightarrow> bool \<Rightarrow> string \<Rightarrow> lexeme list" where
  "lex_from quote w dyn wild [] = flush_word w dyn wild"
| "lex_from quote w dyn wild (c # s) =
     (case quote of
        Some q \<Rightarrow>
          if q = sq_char then
            (if c = sq_char then lex_from None w dyn wild s
             else lex_from quote (w @ [c]) dyn wild s)
          else if c = dq_char then lex_from None w dyn wild s
          else lex_from quote (w @ [c]) (dyn \<or> expands_at c s) (wild \<or> is_wildcard_char c) s
      | None \<Rightarrow>
          if c = sq_char \<or> c = dq_char then lex_from (Some c) w dyn wild s
          else if 0 < ws_len (c # s) then
            flush_word w dyn wild
            @ (if is_newline c then [LOperator Sequence] else [])
            @ lex_from None [] (w = [] \<and> dyn) (w = [] \<and> wild) (drop (ws_len (c # s) - 1) s)
          else
            (case operator_at c s of
               Some (opr, consumed) \<Rightarrow>
                 flush_word w dyn wild
                 @ LOperator opr
                 # lex_from None [] (w = [] \<and> dyn) (w = [] \<and> wild) (drop (consumed - 1) s)
             | None \<Rightarrow>
                 lex_from None (w @ [c]) (dyn \<or> expands_at c s) (wild \<or> is_wildcard_char c) s))"
  by pat_completeness auto
termination
  by (relation "measure (\<lambda>(quote, w, dyn, wild, s). length s)") auto

definition lex :: "string \<Rightarrow> lexeme list" where
  "lex command = lex_from None [] False False command"

section \<open>Properties\<close>

text \<open>Every word the lexer produces has a non-empty text.\<close>

lemma flush_word_nonempty: "LWord x \<in> set (flush_word w dyn wild) \<Longrightarrow> w_value x \<noteq> []"
  by (auto simp: flush_word_def split: if_splits)

lemma lex_from_words_nonempty:
  "LWord x \<in> set (lex_from quote w dyn wild s) \<Longrightarrow> w_value x \<noteq> []"
proof (induction quote w dyn wild s rule: lex_from.induct)
  case (1 quote w dyn wild)
  then show ?case by (simp add: flush_word_nonempty)
next
  case (2 quote w dyn wild c s)
  show ?case
  proof (cases quote)
    case None
    with 2 show ?thesis
      by (auto split: if_splits option.splits dest: flush_word_nonempty)
  next
    case (Some q)
    with 2 show ?thesis by (auto split: if_splits)
  qed
qed

lemma find_matching_group_bound:
  "find_matching_group opn cls depth s = Some e \<Longrightarrow> e < length s"
proof (induction s arbitrary: depth e rule: length_induct)
  case (1 xs)
  show ?case
  proof (cases xs)
    case Nil
    with 1 show ?thesis by simp
  next
    case (Cons c s)
    have skip: "Suc (k + i) < length (c # s)"
      if "find_matching_group opn cls d (drop k s) = Some i" for d k i
      using "1.IH" [rule_format, of "drop k s" d i] that Cons by (simp add: less_diff_conv add.commute)
    have step: "Suc i < length (c # s)" if "find_matching_group opn cls d s = Some i" for d i
      using skip [of d 0 i] that by simp
    show ?thesis using "1.prems" unfolding Cons
      by (auto simp: Let_def split: if_splits dest: skip step)
  qed
qed

text \<open>A region is a piece of the text it was found in, and strictly shorter.\<close>

definition inner_piece :: "string \<Rightarrow> string \<Rightarrow> bool" where
  "inner_piece r s \<longleftrightarrow> sublist r s \<and> length r < length s"

lemma inner_piece_suffix: "suffix t s \<Longrightarrow> inner_piece r t \<Longrightarrow> inner_piece r (c # s)"
  unfolding inner_piece_def suffix_def sublist_def
  by (elim exE conjE, intro conjI) (metis append.assoc append_Cons, simp)

lemma inner_piece_take: "suffix t s \<Longrightarrow> inner_piece (take e t) (c # s)"
  unfolding inner_piece_def suffix_def sublist_def
  by (elim exE) (intro conjI exI [of _ "c # _"] exI [of _ "drop e t"], auto)

lemma suffix_tl [simp]: "suffix (tl s) s"
  by (metis drop_0 drop_Suc suffix_drop)

lemma suffix_drop_tl [simp]: "suffix (drop k (tl s)) s"
  by (meson suffix_drop suffix_order.order_trans suffix_tl)

lemma scan_double_quoted_regions:
  "r \<in> set (snd (scan_double_quoted s)) \<Longrightarrow> inner_piece r s"
proof (induction s rule: length_induct)
  case (1 xs)
  show ?case
  proof (cases xs)
    case Nil
    with 1 show ?thesis by simp
  next
    case (Cons c s)
    have step: "inner_piece r (c' # s)"
      if "scan_double_quoted t = (n, rs)" and "r \<in> set rs" and "suffix t s" for t n rs c'
    proof -
      from that(3) have "length t < length xs" using suffix_length_le Cons by fastforce
      with "1.IH" that(1,2) have "inner_piece r t" by simp
      with that(3) show ?thesis by (rule inner_piece_suffix)
    qed
    show ?thesis using "1.prems" unfolding Cons
      by (auto split: if_splits option.splits prod.splits
          intro: inner_piece_take suffix_drop step)
  qed
qed

lemma nested_executable_regions_inner:
  "r \<in> set (nested_executable_regions s) \<Longrightarrow> inner_piece r s"
proof (induction s rule: length_induct)
  case (1 xs)
  show ?case
  proof (cases xs)
    case Nil
    with 1 show ?thesis by simp
  next
    case (Cons c s)
    have step: "inner_piece r (c' # s)"
      if "r \<in> set (nested_executable_regions t)" and "suffix t s" for t c'
    proof -
      from that(2) have "length t < length xs" using suffix_length_le Cons by fastforce
      with "1.IH" that(1) have "inner_piece r t" by simp
      with that(2) show ?thesis by (rule inner_piece_suffix)
    qed
    have quoted: "inner_piece r (c' # s)" if "(n, rs) = scan_double_quoted s" "r \<in> set rs" for n rs c'
      using scan_double_quoted_regions [of r s] that(2) inner_piece_suffix [of s s r c'] that(1) [symmetric] by simp
    show ?thesis using "1.prems" unfolding Cons
      by (auto split: if_splits option.splits prod.splits
          intro: inner_piece_take suffix_drop step quoted)
  qed
qed
text \<open>Inside single quotes nothing is special: the text is taken literally.\<close>

lemma lex_from_single_quoted:
  "sq_char \<notin> set s \<Longrightarrow>
     lex_from (Some sq_char) w dyn wild (s @ sq_char # t) = lex_from None (w @ s) dyn wild t"
  by (induction s arbitrary: w) auto

lemma lex_single_quoted:
  assumes "sq_char \<notin> set s" and "s \<noteq> []"
  shows "lex (sq_char # s @ [sq_char])
    = [LWord \<lparr>w_value = s, w_dynamic = False, w_wildcard = False\<rparr>]"
  using assms by (simp add: lex_def lex_from_single_quoted flush_word_def)

text \<open>An operator in the lexeme list comes from an operator character of the command.\<close>

definition operator_chars :: "operator \<Rightarrow> char set" where
  "operator_chars opr =
     (case opr of
        Sequence \<Rightarrow> {CHR '';'', CHR ''|'', CHR ''&'', lf_char, cr_char}
      | Pipeline \<Rightarrow> {CHR ''|''}
      | Redirection \<Rightarrow> {CHR ''>'', CHR ''<''}
      | Background \<Rightarrow> {CHR ''&''})"

lemma operator_at_char: "operator_at c s = Some (opr, n) \<Longrightarrow> c \<in> operator_chars opr"
  by (auto simp: operator_at_def operator_chars_def split: if_splits)

lemma newline_operator_char: "is_newline c \<Longrightarrow> c \<in> operator_chars Sequence"
  by (auto simp: is_newline_def operator_chars_def)

lemma flush_word_no_operator [simp]: "LOperator opr \<notin> set (flush_word w dyn wild)"
  by (simp add: flush_word_def)

lemma lex_from_operator_char:
  "LOperator opr \<in> set (lex_from quote w dyn wild s) \<Longrightarrow> \<exists>c \<in> set s. c \<in> operator_chars opr"
proof (induction quote w dyn wild s rule: lex_from.induct)
  case (1 quote w dyn wild)
  then show ?case by simp
next
  case (2 quote w dyn wild c s)
  show ?case
  proof (cases quote)
    case None
    with 2 show ?thesis
      by (auto simp del: ws_len.simps split: if_splits option.splits
          intro: newline_operator_char dest: operator_at_char) (blast dest: in_set_dropD)+
  next
    case (Some q)
    with 2 show ?thesis by (auto split: if_splits)
  qed
qed

end
