(* ===== verification/Shell_Analysis.thy ===== *)
theory Shell_Analysis
  imports Shell_Lexer
begin

text \<open>
  The shell-command analyser (\<open>crates/opentopia-core/src/shell_analysis.rs\<close>): classification of
  the segments of a command into capabilities, the resolution of static string assignments, and
  the compositional analysis of nested regions that ends in a \<open>ShellCommandAnalysis\<close>.

  An \<open>Aggregate\<close> that the Rust code updates in place is the record \<open>aggregate\<close>, passed as the last
  argument and returned; \<open>HashMap<String, Word>\<close> is a map \<open>string \<rightharpoonup> shell_word\<close>.
\<close>

section \<open>Data\<close>

datatype shell_capability =
    Observation | ReadFiles | WorkspaceWrite | DeleteFiles | GitRead | GitMutation
  | NetworkCap | StartProcess | BackgroundProcess | DynamicExecution | UnknownCap

text \<open>The derived \<open>Ord\<close> of the enum: the order of its variants.\<close>

fun capability_rank :: "shell_capability \<Rightarrow> nat" where
  "capability_rank Observation = 0"
| "capability_rank ReadFiles = 1"
| "capability_rank WorkspaceWrite = 2"
| "capability_rank DeleteFiles = 3"
| "capability_rank GitRead = 4"
| "capability_rank GitMutation = 5"
| "capability_rank NetworkCap = 6"
| "capability_rank StartProcess = 7"
| "capability_rank BackgroundProcess = 8"
| "capability_rank DynamicExecution = 9"
| "capability_rank UnknownCap = 10"

lemma capability_rank_inj: "capability_rank a = capability_rank b \<Longrightarrow> a = b"
  by (cases a; cases b) simp_all

instantiation shell_capability :: linorder
begin

definition less_eq_shell_capability :: "shell_capability \<Rightarrow> shell_capability \<Rightarrow> bool" where
  "less_eq_shell_capability a b \<longleftrightarrow> capability_rank a \<le> capability_rank b"

definition less_shell_capability :: "shell_capability \<Rightarrow> shell_capability \<Rightarrow> bool" where
  "less_shell_capability a b \<longleftrightarrow> capability_rank a < capability_rank b"

instance
  by standard
    (auto simp: less_eq_shell_capability_def less_shell_capability_def capability_rank_inj)

end

datatype shell_confidence = HighConfidence | MediumConfidence | LowConfidence

record shell_command_analysis =
  sa_capabilities :: "shell_capability list"
  sa_destructive :: bool
  sa_dynamic :: bool
  sa_concrete_targets :: "string list"
  sa_targets_concrete :: bool
  sa_confidence :: shell_confidence
  sa_has_pipeline :: bool
  sa_has_redirection :: bool
  sa_has_background_operator :: bool
  sa_destructive_targets_concrete :: bool
  sa_has_destructive_target :: bool
  sa_strictly_read_only :: bool

definition is_strictly_read_only :: "shell_command_analysis \<Rightarrow> bool" where
  "is_strictly_read_only a \<longleftrightarrow> sa_strictly_read_only a"

definition is_unreviewable_destructive_action :: "shell_command_analysis \<Rightarrow> bool" where
  "is_unreviewable_destructive_action a \<longleftrightarrow>
     sa_destructive a \<and> (\<not> sa_destructive_targets_concrete a \<or> \<not> sa_has_destructive_target a)"

datatype command_family =
    FRipgrep | FPowerShellRead | FGit | FDelete | FSetContent | FOutFile | FNetwork
  | FDynamicRuntime | FPackageManager | FCargo | FFormat

definition command_families :: "(string \<times> command_family) list" where
  "command_families =
     [(''rg'', FRipgrep), (''ripgrep'', FRipgrep),
      (''select-string'', FPowerShellRead), (''sls'', FPowerShellRead),
      (''get-content'', FPowerShellRead), (''gc'', FPowerShellRead),
      (''cat'', FPowerShellRead), (''type'', FPowerShellRead),
      (''get-childitem'', FPowerShellRead), (''get-child-item'', FPowerShellRead),
      (''gci'', FPowerShellRead), (''dir'', FPowerShellRead), (''ls'', FPowerShellRead),
      (''get-item'', FPowerShellRead), (''gi'', FPowerShellRead),
      (''import-csv'', FPowerShellRead), (''ipcsv'', FPowerShellRead),
      (''test-path'', FPowerShellRead), (''resolve-path'', FPowerShellRead),
      (''get-acl'', FPowerShellRead), (''get-filehash'', FPowerShellRead),
      (''git'', FGit),
      (''remove-item'', FDelete), (''rm'', FDelete), (''del'', FDelete), (''erase'', FDelete),
      (''rmdir'', FDelete), (''rd'', FDelete),
      (''set-content'', FSetContent), (''out-file'', FOutFile),
      (''curl'', FNetwork), (''invoke-webrequest'', FNetwork),
      (''invoke-restmethod'', FNetwork), (''wget'', FNetwork),
      (''python'', FDynamicRuntime), (''python3'', FDynamicRuntime), (''py'', FDynamicRuntime),
      (''node'', FDynamicRuntime), (''pwsh'', FDynamicRuntime),
      (''powershell'', FDynamicRuntime), (''powershell_ise'', FDynamicRuntime),
      (''pnpm'', FPackageManager), (''npm'', FPackageManager), (''npx'', FPackageManager),
      (''pnpx'', FPackageManager),
      (''cargo'', FCargo), (''format'', FFormat)]"

definition git_read_subcommands :: "string list" where
  "git_read_subcommands =
     [''status'', ''diff'', ''log'', ''show'', ''rev-parse'', ''branch'', ''worktree'', ''blame'',
      ''ls-files'', ''ls-tree'', ''cat-file'', ''describe'', ''remote'', ''tag'']"

definition git_mutation_subcommands :: "string list" where
  "git_mutation_subcommands =
     [''add'', ''commit'', ''checkout'', ''switch'', ''restore'', ''merge'', ''rebase'',
      ''cherry-pick'', ''revert'', ''stash'', ''apply'', ''am'', ''mv'', ''rm'', ''init'',
      ''clone'', ''fetch'', ''pull'', ''push'']"

definition package_write_subcommands :: "string list" where
  "package_write_subcommands =
     [''add'', ''install'', ''i'', ''remove'', ''rm'', ''uninstall'', ''update'', ''upgrade'',
      ''publish'', ''link'', ''unlink'']"

definition cargo_write_subcommands :: "string list" where
  "cargo_write_subcommands =
     [''add'', ''remove'', ''install'', ''uninstall'', ''update'', ''publish'', ''login'',
      ''logout'']"

definition dotnet_read_invocations :: "string list" where
  "dotnet_read_invocations =
     [''[system.io.file]::readallbytes('', ''[io.file]::readallbytes('',
      ''[system.io.file]::readalltext('', ''[io.file]::readalltext('',
      ''[system.io.file]::readalllines('', ''[io.file]::readalllines('',
      ''[system.io.file]::openread('', ''[io.file]::openread('',
      ''[system.io.file]::opentext('', ''[io.file]::opentext('',
      ''[system.io.directory]::enumeratefiles('', ''[io.directory]::enumeratefiles('',
      ''[system.io.directory]::enumeratedirectories('', ''[io.directory]::enumeratedirectories('',
      ''[system.io.directory]::enumeratefilesystementries('',
      ''[io.directory]::enumeratefilesystementries('',
      ''[system.io.directory]::getfiles('', ''[io.directory]::getfiles('',
      ''[system.io.directory]::getdirectories('', ''[io.directory]::getdirectories('',
      ''[system.io.directory]::getfilesystementries('',
      ''[io.directory]::getfilesystementries('',
      ''[system.io.streamreader]::new('', ''[io.streamreader]::new('',
      ''[microsoft.visualbasic.fileio.textfieldparser]::new('']"

section \<open>Words and values\<close>

definition variable_reference :: "string \<Rightarrow> string option" where
  "variable_reference text =
     (let value = trim text;
          name =
            (case Option.bind (strip_prefix value ''${'') (\<lambda>v. strip_suffix v ''}'') of
               Some n \<Rightarrow> Some n
             | None \<Rightarrow> strip_prefix value ''$'')
      in case name of
        None \<Rightarrow> None
      | Some n \<Rightarrow>
          if n = [] \<or> \<not> list_all (\<lambda>c. is_ascii_alphanumeric c \<or> c = CHR ''_'') n then None
          else Some (to_ascii_lowercase n))"

definition resolve_static_word ::
    "(string \<rightharpoonup> shell_word) \<Rightarrow> shell_word \<Rightarrow> shell_word" where
  "resolve_static_word static_values word =
     (case Option.bind (variable_reference (w_value word)) static_values of
        None \<Rightarrow> word
      | Some w \<Rightarrow> w)"

definition looks_like_dynamic_target :: "string \<Rightarrow> bool" where
  "looks_like_dynamic_target text \<longleftrightarrow>
     (let value = trim_start text in
        starts_with value ''('' \<or> starts_with value ''@('' \<or> starts_with value ''${''
        \<or> starts_with value ''$('' \<or> starts_with value ''{'')"

definition looks_like_static_path_literal :: "string \<Rightarrow> bool" where
  "looks_like_static_path_literal value \<longleftrightarrow>
     CHR ''/'' \<in> set value \<or> backslash_char \<in> set value
     \<or> starts_with value ''.''
     \<or> (1 < length value \<and> value ! 1 = CHR '':'')
     \<or> (case rsplit_once_char value (CHR ''.'') of
          None \<Rightarrow> False
        | Some (stem, extension) \<Rightarrow>
            stem \<noteq> [] \<and> extension \<noteq> []
            \<and> list_all (\<lambda>c. is_ascii_alphanumeric c \<or> c = CHR ''_'' \<or> c = CHR ''-'') extension)"

definition literal_is_dynamic :: "string \<Rightarrow> bool" where
  "literal_is_dynamic value \<longleftrightarrow>
     CHR ''$'' \<in> set value \<or> tick_char \<in> set value
     \<or> starts_with value ''('' \<or> starts_with value ''{''"

definition assignment_parts :: "shell_word list \<Rightarrow> (string \<times> shell_word) option" where
  \<comment> \<open>the \<open>match words\<close> of \<open>static_string_assignment\<close>\<close>
  "assignment_parts words =
     (case words of
        [name, equals, value] \<Rightarrow>
          if w_value equals = ''=''
          then map_option (\<lambda>n. (n, value)) (variable_reference (w_value name))
          else None
      | [assignment] \<Rightarrow>
          (case split_once (w_value assignment) ''='' of
             None \<Rightarrow> None
           | Some (name, raw) \<Rightarrow>
               (case variable_reference name of
                  None \<Rightarrow> None
                | Some n \<Rightarrow>
                    (let value = trim raw in
                       if value = [] then None
                       else Some (n, \<lparr>w_value = value,
                                      w_dynamic = literal_is_dynamic value,
                                      w_wildcard = list_ex is_wildcard_char value\<rparr>))))
      | _ \<Rightarrow> None)"

definition static_string_assignment :: "shell_word list \<Rightarrow> (string \<times> shell_word) option" where
  "static_string_assignment words =
     (case assignment_parts words of
        None \<Rightarrow> None
      | Some (name, value) \<Rightarrow>
          if w_dynamic value \<or> contains_str (w_value value) ''::''
             \<or> \<not> looks_like_static_path_literal (w_value value)
             \<or> looks_like_dynamic_target (w_value value)
          then None else Some (name, value))"

definition assigned_variable_name :: "shell_word list \<Rightarrow> string option" where
  "assigned_variable_name words =
     (case words of
        name # equals # rest \<Rightarrow>
          if w_value equals = ''='' then variable_reference (w_value name)
          else Option.bind (split_once (w_value name) ''='') (\<lambda>(n, _). variable_reference n)
      | [assignment] \<Rightarrow>
          Option.bind (split_once (w_value assignment) ''='') (\<lambda>(n, _). variable_reference n)
      | [] \<Rightarrow> None)"

definition strip_quotes :: "char \<Rightarrow> string \<Rightarrow> string option" where
  "strip_quotes q value = Option.bind (strip_prefix value [q]) (\<lambda>v. strip_suffix v [q])"

definition inline_argument_word :: "string \<Rightarrow> shell_word" where
  "inline_argument_word text =
     (let value = trim (case strip_quotes sq_char text of
                          Some v \<Rightarrow> v
                        | None \<Rightarrow> (case strip_quotes dq_char text of Some v \<Rightarrow> v | None \<Rightarrow> text))
      in \<lparr>w_value = value, w_dynamic = literal_is_dynamic value, w_wildcard = False\<rparr>)"

fun dotnet_read_from :: "string list \<Rightarrow> string \<Rightarrow> string \<Rightarrow> shell_word option" where
  "dotnet_read_from [] value lower = None"
| "dotnet_read_from (invocation # rest) value lower =
     (case find_str lower invocation of
        None \<Rightarrow> dotnet_read_from rest value lower
      | Some i \<Rightarrow>
          (let tail = drop (i + length invocation) value in
             case position (\<lambda>c. c = CHR '')'') tail of
               None \<Rightarrow> None
             | Some e \<Rightarrow>
                 (let argument = trim (hd (split_char (CHR '','') (take e tail))) in
                    if argument = [] then None else Some (inline_argument_word argument))))"

definition dotnet_read_argument :: "string \<Rightarrow> shell_word option" where
  "dotnet_read_argument value =
     dotnet_read_from dotnet_read_invocations value (to_ascii_lowercase value)"

definition direct_dotnet_read_argument :: "shell_word list \<Rightarrow> shell_word option" where
  "direct_dotnet_read_argument words =
     (case (case words of [] \<Rightarrow> None | w # _ \<Rightarrow> dotnet_read_argument (w_value w)) of
        Some argument \<Rightarrow> Some argument
      | None \<Rightarrow>
          (case words of
             name # equals # expression # _ \<Rightarrow>
               if w_value equals = ''='' \<and> variable_reference (w_value name) \<noteq> None
               then dotnet_read_argument (w_value expression) else None
           | _ \<Rightarrow> None))"

definition normalize_command_name :: "string \<Rightarrow> string" where
  "normalize_command_name value =
     (let name = to_ascii_lowercase
                   (last (split_by (\<lambda>c. c = CHR ''/'' \<or> c = backslash_char) value))
      in case strip_suffix name ''.exe'' of
        Some n \<Rightarrow> n
      | None \<Rightarrow> (case strip_suffix name ''.com'' of Some n \<Rightarrow> n | None \<Rightarrow> name))"

definition nth_word :: "shell_word list \<Rightarrow> nat \<Rightarrow> shell_word option" where
  "nth_word words i = (if i < length words then Some (words ! i) else None)"

definition new_object_reader_argument :: "shell_word list \<Rightarrow> shell_word option" where
  "new_object_reader_argument words =
     (case words of
        [] \<Rightarrow> None
      | command # _ \<Rightarrow>
          if normalize_command_name (w_value command) \<noteq> ''new-object'' then None
          else
            (case position (\<lambda>w. to_ascii_lowercase (w_value w) \<in>
                      {''system.io.streamreader'', ''io.streamreader'',
                       ''microsoft.visualbasic.fileio.textfieldparser''}) words of
               None \<Rightarrow> None
             | Some type_index \<Rightarrow>
                 nth_word words
                   (case position (\<lambda>w. eq_ignore_ascii_case (w_value w) ''-argumentlist'') words of
                      Some i \<Rightarrow> i + 1
                    | None \<Rightarrow> type_index + 1)))"

definition wildcard_read_scope :: "string \<Rightarrow> string option" where
  "wildcard_read_scope value =
     (case position is_wildcard_char value of
        None \<Rightarrow> None
      | Some w \<Rightarrow>
          (let prefix = take w value;
               scope =
                 (case rposition (\<lambda>c. c = CHR ''/'' \<or> c = backslash_char) prefix of
                    None \<Rightarrow> ''.''
                  | Some i \<Rightarrow>
                      if i = 0 then take 1 prefix
                      else if i = 2 \<and> prefix ! 1 = CHR '':'' then take 3 prefix
                      else take i prefix)
           in if scope = [] then None else Some scope))"

section \<open>The aggregate of a command\<close>

record aggregate =
  ag_capabilities :: "shell_capability list"
  ag_destructive :: bool
  ag_dynamic :: bool
  ag_concrete_targets :: "string list"
  ag_targets_concrete :: bool
  ag_saw_unknown :: bool
  ag_all_read_only :: bool
  ag_destructive_targets_concrete :: bool
  ag_saw_destructive_target :: bool

definition aggregate_default :: aggregate where
  "aggregate_default =
     \<lparr>ag_capabilities = [], ag_destructive = False, ag_dynamic = False, ag_concrete_targets = [],
      ag_targets_concrete = False, ag_saw_unknown = False, ag_all_read_only = False,
      ag_destructive_targets_concrete = False, ag_saw_destructive_target = False\<rparr>"

definition add_caps :: "shell_capability list \<Rightarrow> aggregate \<Rightarrow> aggregate" where
  "add_caps cs a = a\<lparr>ag_capabilities := ag_capabilities a @ cs\<rparr>"

definition not_read_only :: "aggregate \<Rightarrow> aggregate" where
  "not_read_only a = a\<lparr>ag_all_read_only := False\<rparr>"

definition or_dynamic :: "bool \<Rightarrow> aggregate \<Rightarrow> aggregate" where
  "or_dynamic b a = a\<lparr>ag_dynamic := ag_dynamic a \<or> b\<rparr>"

definition push_target :: "string \<Rightarrow> aggregate \<Rightarrow> aggregate" where
  "push_target t a = a\<lparr>ag_concrete_targets := ag_concrete_targets a @ [t]\<rparr>"

definition init_if_needed :: "aggregate \<Rightarrow> aggregate" where
  "init_if_needed a =
     (if ag_capabilities a = [] then
        a\<lparr>ag_targets_concrete := True, ag_all_read_only := True,
          ag_destructive_targets_concrete := True\<rparr>
      else a)"

definition unresolved_word :: "shell_word \<Rightarrow> bool" where
  "unresolved_word w \<longleftrightarrow>
     w_dynamic w \<or> w_wildcard w \<or> trim (w_value w) = [] \<or> looks_like_dynamic_target (w_value w)"

definition add_target :: "shell_word \<Rightarrow> aggregate \<Rightarrow> aggregate" where
  "add_target w a =
     (if unresolved_word w then a\<lparr>ag_targets_concrete := False\<rparr>
      else push_target (w_value w) a)"

definition add_targets :: "shell_word list \<Rightarrow> aggregate \<Rightarrow> aggregate" where
  "add_targets words a =
     (let a' = fold add_target words a in
        if words = [] then a'\<lparr>ag_targets_concrete := False\<rparr> else a')"

definition add_resolved_targets ::
    "shell_word list \<Rightarrow> (string \<rightharpoonup> shell_word) \<Rightarrow> aggregate \<Rightarrow> aggregate" where
  "add_resolved_targets words static_values a =
     add_targets (map (resolve_static_word static_values) words) a"

definition add_read_target :: "shell_word \<Rightarrow> aggregate \<Rightarrow> aggregate" where
  "add_read_target w a =
     (if w_wildcard w \<and> \<not> w_dynamic w then
        (let a' = a\<lparr>ag_targets_concrete := False\<rparr> in
           case wildcard_read_scope (w_value w) of
             None \<Rightarrow> a'
           | Some scope \<Rightarrow> push_target scope a')
      else add_targets [w] a)"

definition add_read_targets :: "shell_word list \<Rightarrow> aggregate \<Rightarrow> aggregate" where
  "add_read_targets words a = fold add_read_target words a"

definition add_destructive_targets :: "shell_word list \<Rightarrow> aggregate \<Rightarrow> aggregate" where
  "add_destructive_targets words a =
     (let a1 = a\<lparr>ag_saw_destructive_target := ag_saw_destructive_target a \<or> words \<noteq> []\<rparr>;
          a2 = (if list_ex unresolved_word words
                then a1\<lparr>ag_destructive_targets_concrete := False\<rparr> else a1)
      in add_targets words a2)"

definition add_resolved_destructive_targets ::
    "shell_word list \<Rightarrow> (string \<rightharpoonup> shell_word) \<Rightarrow> aggregate \<Rightarrow> aggregate" where
  "add_resolved_destructive_targets words static_values a =
     add_destructive_targets (map (resolve_static_word static_values) words) a"

definition merge_nested :: "shell_command_analysis \<Rightarrow> aggregate \<Rightarrow> aggregate" where
  "merge_nested nested a =
     (if \<not> list_ex (\<lambda>c. c \<noteq> Observation \<and> c \<noteq> UnknownCap) (sa_capabilities nested)
         \<and> \<not> sa_destructive nested
      then a
      else
        (let b = init_if_needed a in
           b\<lparr>ag_capabilities := ag_capabilities b @ sa_capabilities nested,
             ag_destructive := ag_destructive b \<or> sa_destructive nested,
             ag_dynamic := ag_dynamic b \<or> sa_dynamic nested,
             ag_concrete_targets := ag_concrete_targets b @ sa_concrete_targets nested,
             ag_targets_concrete := ag_targets_concrete b \<and> sa_targets_concrete nested,
             ag_saw_unknown := ag_saw_unknown b \<or> UnknownCap \<in> set (sa_capabilities nested),
             ag_all_read_only := ag_all_read_only b \<and> is_strictly_read_only nested,
             ag_destructive_targets_concrete :=
               ag_destructive_targets_concrete b \<and> sa_destructive_targets_concrete nested,
             ag_saw_destructive_target :=
               ag_saw_destructive_target b \<or> sa_has_destructive_target nested\<rparr>))"

definition mark_unknown :: "aggregate \<Rightarrow> aggregate" where
  "mark_unknown a = not_read_only ((add_caps [UnknownCap] a)\<lparr>ag_saw_unknown := True\<rparr>)"

definition mark_unknown_dynamic :: "aggregate \<Rightarrow> aggregate" where
  "mark_unknown_dynamic a = or_dynamic True (add_caps [DynamicExecution] (mark_unknown a))"

section \<open>Arguments of a command\<close>

fun git_subcommand_from :: "nat \<Rightarrow> shell_word list \<Rightarrow> (nat \<times> string) option" where
  "git_subcommand_from index [] = None"
| "git_subcommand_from index (w # ws) =
     (let value = w_value w; lower = to_ascii_lowercase value in
        if lower \<in> {''-c'', ''--git-dir'', ''--work-tree'', ''--namespace''} then
          (case ws of [] \<Rightarrow> None | _ # ws' \<Rightarrow> git_subcommand_from (index + 2) ws')
        else if starts_with lower ''-c='' \<or> starts_with lower ''--git-dir=''
             \<or> starts_with lower ''--work-tree='' \<or> starts_with lower ''--namespace=''
             \<or> lower = ''--no-pager'' \<or> lower = ''--paginate'' \<or> lower = ''--literal-pathspecs''
          then git_subcommand_from (index + 1) ws
        else if starts_with value ''-'' then git_subcommand_from (index + 1) ws
        else Some (index, lower))"

definition git_subcommand :: "shell_word list \<Rightarrow> (nat \<times> string) option" where
  "git_subcommand words = git_subcommand_from 1 (drop 1 words)"

definition git_workdir :: "shell_word list \<Rightarrow> shell_word option" where
  "git_workdir words =
     (case position (\<lambda>w. w_value w = ''-C'') words of
        None \<Rightarrow> None
      | Some i \<Rightarrow> nth_word words (i + 1))"

definition powershell_parameter_takes_value :: "string \<Rightarrow> bool" where
  "powershell_parameter_takes_value value \<longleftrightarrow>
     to_ascii_lowercase value \<in>
       {''-algorithm'', ''-credential'', ''-delimiter'', ''-depth'', ''-encoding'',
        ''-erroraction'', ''-errorvariable'', ''-exclude'', ''-filter'', ''-header'',
        ''-include'', ''-informationaction'', ''-informationvariable'', ''-newerthan'',
        ''-olderthan'', ''-outbuffer'', ''-outvariable'', ''-parameter'', ''-pathtype'',
        ''-pattern'', ''-pipelinevariable'', ''-readcount'', ''-relativebasepath'', ''-stream'',
        ''-tail'', ''-totalcount'', ''-warningaction'', ''-warningvariable''}"

fun powershell_positionals_from :: "shell_word list \<Rightarrow> shell_word list" where
  "powershell_positionals_from [] = []"
| "powershell_positionals_from (w # ws) =
     (if powershell_parameter_takes_value (w_value w) then
        (case ws of [] \<Rightarrow> [] | _ # ws' \<Rightarrow> powershell_positionals_from ws')
      else if starts_with (w_value w) ''-'' then powershell_positionals_from ws
      else w # powershell_positionals_from ws)"

definition powershell_positional_arguments :: "shell_word list \<Rightarrow> shell_word list" where
  "powershell_positional_arguments words = powershell_positionals_from (drop 1 words)"

fun named_targets_from :: "string list \<Rightarrow> shell_word list \<Rightarrow> shell_word list" where
  "named_targets_from named [] = []"
| "named_targets_from named (w # ws) =
     (if to_ascii_lowercase (w_value w) \<in> set named then
        (case ws of [] \<Rightarrow> [] | target # ws' \<Rightarrow> target # named_targets_from named ws')
      else named_targets_from named ws)"

definition extract_powershell_paths :: "shell_word list \<Rightarrow> string list \<Rightarrow> shell_word list" where
  "extract_powershell_paths words named =
     (let targets = named_targets_from named (drop 1 words) in
        if targets \<noteq> [] then targets
        else
          (let command_name =
                 (case words of [] \<Rightarrow> [] | w # _ \<Rightarrow> normalize_command_name (w_value w));
               positionals = powershell_positional_arguments words;
               select_string = (command_name = ''select-string'' \<or> command_name = ''sls'');
               pattern_is_named =
                 list_ex (\<lambda>w. eq_ignore_ascii_case (w_value w) ''-pattern'') words;
               positional_index = (if select_string \<and> \<not> pattern_is_named then 1 else 0)
           in case nth_word positionals positional_index of None \<Rightarrow> [] | Some w \<Rightarrow> [w]))"

definition is_cmd_switch :: "string \<Rightarrow> bool" where
  "is_cmd_switch value \<longleftrightarrow> to_ascii_lowercase value \<in> {''/s'', ''/q'', ''/f'', ''/a'', ''/p''}"

definition positional_arguments :: "shell_word list \<Rightarrow> nat \<Rightarrow> shell_word list" where
  "positional_arguments words start =
     filter (\<lambda>w. w_value w = ''-'' \<or> (\<not> starts_with (w_value w) ''-'' \<and> \<not> is_cmd_switch (w_value w)))
       (drop start words)"

section \<open>Classification of one segment\<close>

definition classify_known_dotnet_read ::
    "shell_word list \<Rightarrow> (string \<rightharpoonup> shell_word) \<Rightarrow> aggregate \<Rightarrow> aggregate option" where
  \<comment> \<open>\<open>None\<close> where the code returns \<open>false\<close> and leaves the aggregate alone\<close>
  "classify_known_dotnet_read words static_values a =
     (case (case direct_dotnet_read_argument words of
              Some w \<Rightarrow> Some w
            | None \<Rightarrow> new_object_reader_argument words) of
        None \<Rightarrow> None
      | Some found \<Rightarrow>
          (let argument = (resolve_static_word static_values found)\<lparr>w_wildcard := False\<rparr>;
               a1 = or_dynamic (w_dynamic argument) (add_caps [Observation, ReadFiles] a);
               a2 = (if w_dynamic argument then not_read_only a1 else a1)
           in Some (add_read_targets [argument] a2)))"

definition classify_ripgrep :: "shell_word list \<Rightarrow> aggregate \<Rightarrow> aggregate" where
  "classify_ripgrep words a =
     (let a1 = add_caps [Observation, ReadFiles] a;
          runs_helper = list_ex (\<lambda>w. let lower = to_ascii_lowercase (w_value w) in
             lower = ''--pre'' \<or> lower = ''--hostname-bin''
             \<or> starts_with lower ''--pre='' \<or> starts_with lower ''--hostname-bin='') words;
          a2 = (if runs_helper
                then not_read_only (or_dynamic True (add_caps [DynamicExecution] a1)) else a1);
          a3 = or_dynamic (list_ex w_dynamic words) a2;
          a4 = (if ag_dynamic a3 then not_read_only a3 else a3)
      in push_target ''workspace:command-scope'' a4)"

definition classify_read_command ::
    "shell_word list \<Rightarrow> (string \<rightharpoonup> shell_word) \<Rightarrow> aggregate \<Rightarrow> aggregate" where
  "classify_read_command words static_values a =
     (let a1 = add_caps [Observation, ReadFiles] a;
          paths = extract_powershell_paths words [''-path'', ''-literalpath''];
          literal_path =
            list_ex (\<lambda>w. eq_ignore_ascii_case (w_value w) ''-literalpath'') words;
          resolved = map (resolve_static_word static_values) paths;
          resolved_paths =
            (if literal_path then resolved
             else map (\<lambda>w. w\<lparr>w_wildcard := w_wildcard w \<or> list_ex is_wildcard_char (w_value w)\<rparr>)
                    resolved);
          unresolved_dynamic = list_ex w_dynamic resolved_paths;
          a2 = or_dynamic unresolved_dynamic a1;
          a3 = (if unresolved_dynamic then not_read_only a2 else a2)
      in if resolved_paths \<noteq> [] then add_read_targets resolved_paths a3 else a3)"

definition lists_only :: "string list \<Rightarrow> shell_word list \<Rightarrow> bool" where
  "lists_only allowed tail \<longleftrightarrow>
     list_all (\<lambda>w. starts_with (w_value w) ''-'' \<or> w_value w \<in> set allowed) tail"

definition git_ambiguous_mutator :: "string \<Rightarrow> shell_word list \<Rightarrow> bool" where
  "git_ambiguous_mutator subcommand tail \<longleftrightarrow>
     (if subcommand = ''branch'' then
        list_ex (\<lambda>w. w_value w \<in> {''-d'', ''-D'', ''-m'', ''-M'', ''-c'', ''-C'', ''--delete'',
             ''--move'', ''--copy'', ''--edit-description'', ''--set-upstream-to'',
             ''--unset-upstream''}) tail
        \<or> (tail \<noteq> [] \<and> \<not> lists_only [''list'', ''show''] tail)
      else if subcommand = ''tag'' then
        list_ex (\<lambda>w. w_value w \<in> {''-d'', ''--delete'', ''-a'', ''--annotate'', ''-s'', ''--sign'',
             ''-f'', ''--force''}) tail
        \<or> (tail \<noteq> [] \<and> \<not> lists_only [''list'', ''show''] tail)
      else if subcommand = ''remote'' then
        (case tail of
           [] \<Rightarrow> False
         | w # _ \<Rightarrow> to_ascii_lowercase (w_value w) \<in>
             {''add'', ''remove'', ''rm'', ''rename'', ''set-head'', ''set-branches'',
              ''set-url'', ''prune'', ''update''})
        \<or> (tail \<noteq> [] \<and> \<not> lists_only [''list'', ''show'', ''get-url''] tail)
      else if subcommand = ''worktree'' then
        (case tail of [] \<Rightarrow> False | w # _ \<Rightarrow> \<not> eq_ignore_ascii_case (w_value w) ''list'')
      else False)"

definition classify_git ::
    "shell_word list \<Rightarrow> (string \<rightharpoonup> shell_word) \<Rightarrow> aggregate \<Rightarrow> aggregate" where
  "classify_git words static_values a =
     (case git_subcommand words of
        None \<Rightarrow> mark_unknown a
      | Some (subcommand_index, subcommand) \<Rightarrow>
          (let a1 = (case git_workdir words of
                       Some workdir \<Rightarrow> add_resolved_targets [workdir] static_values a
                     | None \<Rightarrow> push_target ''repository:current-workdir'' a);
               a2 =
                 (if subcommand \<in> set git_read_subcommands then
                    (let tail = drop (subcommand_index + 1) words;
                         writes_output = list_ex (\<lambda>w. let lower = to_ascii_lowercase (w_value w) in
                            lower = ''--output'' \<or> starts_with lower ''--output='') tail
                     in if writes_output
                          then not_read_only (add_caps [GitRead, WorkspaceWrite] a1)
                        else if git_ambiguous_mutator subcommand tail
                          then not_read_only (add_caps [GitMutation] a1)
                        else add_caps [Observation, GitRead] a1)
                  else if subcommand = ''reset'' \<or> subcommand = ''clean'' then
                    (push_target ''repository:index-and-worktree''
                      (not_read_only
                        ((add_caps [GitMutation, DeleteFiles] a1)\<lparr>ag_destructive := True\<rparr>)))
                      \<lparr>ag_saw_destructive_target := True\<rparr>
                  else if subcommand \<in> set git_mutation_subcommands then
                    not_read_only (add_caps [GitMutation] a1)
                  else mark_unknown a1);
               a3 = or_dynamic (list_ex w_dynamic words) a2
           in if ag_dynamic a3 then not_read_only a3 else a3))"

definition classify_delete ::
    "shell_word list \<Rightarrow> string \<Rightarrow> (string \<rightharpoonup> shell_word) \<Rightarrow> aggregate \<Rightarrow> aggregate" where
  "classify_delete words command_name static_values a =
     (let a1 = not_read_only
                 ((add_caps [WorkspaceWrite, DeleteFiles] a)\<lparr>ag_destructive := True\<rparr>);
          targets = (if command_name = ''remove-item''
                     then extract_powershell_paths words [''-path'', ''-literalpath'']
                     else positional_arguments words 1)
      in add_resolved_destructive_targets targets static_values a1)"

definition classify_network :: "shell_word list \<Rightarrow> aggregate \<Rightarrow> aggregate" where
  "classify_network words a =
     (let a1 = not_read_only (add_caps [NetworkCap, StartProcess] a);
          writes_file = list_ex (\<lambda>w. to_ascii_lowercase (w_value w) \<in>
             {''-o'', ''--output'', ''--output-dir'', ''-outfile''}) words;
          a2 = (if writes_file then add_caps [WorkspaceWrite] a1 else a1)
      in or_dynamic (list_ex w_dynamic words) a2)"

definition classify_dynamic_runtime :: "shell_word list \<Rightarrow> aggregate \<Rightarrow> aggregate" where
  "classify_dynamic_runtime words a =
     (let a1 = not_read_only (or_dynamic True (add_caps [StartProcess, DynamicExecution] a)) in
        case find (\<lambda>w. \<not> starts_with (w_value w) ''-''
                    \<and> to_ascii_lowercase (w_value w) \<notin> {''-c'', ''-command'', ''/c''})
               (drop 1 words) of
          None \<Rightarrow> a1
        | Some script \<Rightarrow> add_targets [script] a1)"

definition classify_with_subcommands ::
    "string list \<Rightarrow> shell_word list \<Rightarrow> aggregate \<Rightarrow> aggregate" where
  "classify_with_subcommands write_subcommands words a =
     (let a1 = not_read_only (or_dynamic True (add_caps [StartProcess, DynamicExecution] a)) in
        case nth_word words 1 of
          None \<Rightarrow> a1
        | Some w \<Rightarrow>
            if to_ascii_lowercase (w_value w) \<in> set write_subcommands
            then add_caps [WorkspaceWrite, NetworkCap] a1 else a1)"

definition classify_package_manager :: "shell_word list \<Rightarrow> aggregate \<Rightarrow> aggregate" where
  "classify_package_manager words a = classify_with_subcommands package_write_subcommands words a"

definition classify_cargo :: "shell_word list \<Rightarrow> aggregate \<Rightarrow> aggregate" where
  "classify_cargo words a = classify_with_subcommands cargo_write_subcommands words a"

definition classify_family ::
    "command_family \<Rightarrow> shell_word list \<Rightarrow> string \<Rightarrow> (string \<rightharpoonup> shell_word) \<Rightarrow> aggregate \<Rightarrow> aggregate"
  where
  "classify_family family words command_name static_values a =
     (case family of
        FRipgrep \<Rightarrow> classify_ripgrep words a
      | FPowerShellRead \<Rightarrow> classify_read_command words static_values a
      | FGit \<Rightarrow> classify_git words static_values a
      | FDelete \<Rightarrow> classify_delete words command_name static_values a
      | FSetContent \<Rightarrow>
          add_resolved_targets
            (extract_powershell_paths words [''-path'', ''-literalpath'', ''-filepath''])
            static_values (not_read_only (add_caps [WorkspaceWrite] a))
      | FOutFile \<Rightarrow>
          add_resolved_targets
            (extract_powershell_paths words [''-path'', ''-literalpath'', ''-filepath''])
            static_values (not_read_only (add_caps [WorkspaceWrite] a))
      | FNetwork \<Rightarrow> classify_network words a
      | FDynamicRuntime \<Rightarrow> classify_dynamic_runtime words a
      | FPackageManager \<Rightarrow> classify_package_manager words a
      | FCargo \<Rightarrow> classify_cargo words a
      | FFormat \<Rightarrow>
          add_resolved_destructive_targets (positional_arguments words 1) static_values
            (not_read_only ((add_caps [DeleteFiles] a)\<lparr>ag_destructive := True\<rparr>)))"

definition classify_segment ::
    "shell_word list \<Rightarrow> (string \<rightharpoonup> shell_word) \<Rightarrow> aggregate \<Rightarrow> aggregate" where
  "classify_segment words static_values a0 =
     (let a = init_if_needed a0 in
        case classify_known_dotnet_read words static_values a of
          Some a' \<Rightarrow> a'
        | None \<Rightarrow>
            (case words of
               [] \<Rightarrow> a
             | command_word # _ \<Rightarrow>
                 if w_dynamic command_word then mark_unknown_dynamic a
                 else
                   (let command_name = normalize_command_name (w_value command_word) in
                      if ends_with command_name ''.ps1'' \<or> ends_with command_name ''.sh''
                         \<or> ends_with command_name ''.bat'' \<or> ends_with command_name ''.cmd''
                      then
                        add_resolved_targets [command_word] static_values
                          (not_read_only
                            (or_dynamic True (add_caps [StartProcess, DynamicExecution] a)))
                      else
                        (case map_of command_families command_name of
                           None \<Rightarrow> mark_unknown a
                         | Some family \<Rightarrow>
                             classify_family family words command_name static_values a))))"

section \<open>The analysis of a command\<close>

fun split_segments :: "shell_word list \<Rightarrow> lexeme list \<Rightarrow> shell_word list list" where
  "split_segments current [] = (if current = [] then [] else [current])"
| "split_segments current (LWord w # ls) = split_segments (current @ [w]) ls"
| "split_segments current (LOperator opr # ls) =
     (if current = [] then [] else [current]) @ split_segments [] ls"

fun classify_segments ::
    "shell_word list list \<Rightarrow> (string \<rightharpoonup> shell_word) \<Rightarrow> aggregate \<Rightarrow> aggregate" where
  "classify_segments [] static_values a = a"
| "classify_segments (segment # rest) static_values a =
     (case static_string_assignment segment of
        Some (name, value) \<Rightarrow>
          classify_segments rest (static_values(name \<mapsto> value))
            (add_caps [Observation] (init_if_needed a))
      | None \<Rightarrow>
          (let sv = (case assigned_variable_name segment of
                       None \<Rightarrow> static_values
                     | Some name \<Rightarrow> static_values(name := None))
           in classify_segments rest sv (classify_segment segment sv a)))"

definition analysis_of :: "bool \<Rightarrow> bool \<Rightarrow> bool \<Rightarrow> bool \<Rightarrow> aggregate \<Rightarrow> shell_command_analysis" where
  \<comment> \<open>everything after the nested regions have been merged\<close>
  "analysis_of no_segments pipeline redirection background a0 =
     (let a1 = (if redirection then not_read_only (add_caps [WorkspaceWrite] a0) else a0);
          a2 = (if background then not_read_only (add_caps [BackgroundProcess] a1) else a1);
          a3 = (if no_segments then mark_unknown a2 else a2)
      in \<lparr>sa_capabilities = remdups_adj (sort (ag_capabilities a3)),
          sa_destructive = ag_destructive a3,
          sa_dynamic = ag_dynamic a3,
          sa_concrete_targets = remdups_adj (sort (ag_concrete_targets a3)),
          sa_targets_concrete = ag_targets_concrete a3,
          sa_confidence =
            (if ag_saw_unknown a3 then LowConfidence
             else if ag_dynamic a3 \<or> \<not> ag_targets_concrete a3 then MediumConfidence
             else HighConfidence),
          sa_has_pipeline = pipeline,
          sa_has_redirection = redirection,
          sa_has_background_operator = background,
          sa_destructive_targets_concrete = ag_destructive_targets_concrete a3,
          sa_has_destructive_target = ag_saw_destructive_target a3,
          sa_strictly_read_only =
            ag_all_read_only a3 \<and> \<not> ag_dynamic a3 \<and> \<not> pipeline \<and> \<not> redirection
            \<and> \<not> background \<and> \<not> ag_saw_unknown a3 \<and> \<not> ag_destructive a3\<rparr>)"

function analyze_shell_command_nested :: "string \<Rightarrow> nat \<Rightarrow> shell_command_analysis"
  and analyze_regions :: "string list \<Rightarrow> nat \<Rightarrow> shell_command_analysis list" where
  "analyze_shell_command_nested command nesting =
     (let lexemes = lex command;
          segments = split_segments [] lexemes;
          a = classify_segments segments Map.empty aggregate_default;
          nested = (if nesting < 32
                    then analyze_regions (nested_executable_regions command) (nesting + 1)
                    else [])
      in analysis_of (segments = [])
           (LOperator Pipeline \<in> set lexemes \<or> list_ex sa_has_pipeline nested)
           (LOperator Redirection \<in> set lexemes \<or> list_ex sa_has_redirection nested)
           (LOperator Background \<in> set lexemes \<or> list_ex sa_has_background_operator nested)
           (fold merge_nested nested a))"
| "analyze_regions [] nesting = []"
| "analyze_regions (region # regions) nesting =
     analyze_shell_command_nested region nesting # analyze_regions regions nesting"
  by pat_completeness auto
termination
  by (relation "measures
        [\<lambda>x. case x of Inl (command, nesting) \<Rightarrow> 33 - nesting | Inr (regions, nesting) \<Rightarrow> 33 - nesting,
         \<lambda>x. case x of Inl _ \<Rightarrow> 0 | Inr (regions, nesting) \<Rightarrow> Suc (length regions)]") auto

declare analyze_shell_command_nested.simps [simp del]

definition analyze_shell_command :: "string \<Rightarrow> shell_command_analysis" where
  "analyze_shell_command command = analyze_shell_command_nested command 0"

end
