(* ===== verification/Shell_Safety.thy ===== *)
theory Shell_Safety
  imports Shell_Analysis
begin

text \<open>
  What the analysis of a shell command promises to its callers, \<open>policy.rs\<close> above all: the invariant
  of the aggregate and of an analysis, that a deletion found anywhere in a command (a segment or a
  nested region) makes the whole command destructive, and that a command is strictly read-only only
  if every one of its segments is on the read-only list.
\<close>

section \<open>What target bookkeeping leaves alone\<close>

definition same_class :: "aggregate \<Rightarrow> aggregate \<Rightarrow> bool" where
  "same_class a b \<longleftrightarrow>
     ag_capabilities a = ag_capabilities b \<and> ag_destructive a = ag_destructive b
     \<and> ag_dynamic a = ag_dynamic b \<and> ag_saw_unknown a = ag_saw_unknown b
     \<and> ag_all_read_only a = ag_all_read_only b"

lemma same_class_refl [simp]: "same_class a a"
  by (simp add: same_class_def)

lemma same_class_trans: "same_class a b \<Longrightarrow> same_class b c \<Longrightarrow> same_class a c"
  by (simp add: same_class_def)

lemma same_class_push_target [simp]: "same_class (push_target t a) a"
  by (simp add: same_class_def push_target_def)

lemma same_class_add_target: "same_class (add_target w a) a"
  by (simp add: same_class_def add_target_def push_target_def)

lemma same_class_fold: "(\<And>w a. same_class (f w a) a) \<Longrightarrow> same_class (fold f ws a) a"
  by (induction ws arbitrary: a) (auto intro: same_class_trans)

lemma same_class_add_targets [simp]: "same_class (add_targets ws a) a"
  using same_class_fold [of add_target ws a, OF same_class_add_target]
  by (auto simp: add_targets_def Let_def same_class_def)

lemma same_class_add_read_targets [simp]: "same_class (add_read_targets ws a) a"
proof -
  have "same_class (add_read_target w b) b" for w b
    using same_class_add_targets [of "[w]" b]
    by (auto simp: add_read_target_def Let_def same_class_def push_target_def split: option.splits)
  then show ?thesis unfolding add_read_targets_def by (rule same_class_fold)
qed

lemma same_class_add_destructive_targets [simp]: "same_class (add_destructive_targets ws a) a"
  unfolding add_destructive_targets_def Let_def
  by (rule same_class_trans [OF same_class_add_targets]) (simp add: same_class_def)

lemma same_class_resolved [simp]:
  "same_class (add_resolved_targets ws sv a) a"
  "same_class (add_resolved_destructive_targets ws sv a) a"
  by (simp_all add: add_resolved_targets_def add_resolved_destructive_targets_def)

lemmas same_classD = same_class_add_targets [unfolded same_class_def]
  same_class_add_read_targets [unfolded same_class_def]
  same_class_add_destructive_targets [unfolded same_class_def]
  same_class_resolved [unfolded same_class_def]

lemmas class_updates = add_caps_def not_read_only_def or_dynamic_def push_target_def
  mark_unknown_def mark_unknown_dynamic_def

section \<open>The invariant of the aggregate\<close>

definition read_capabilities :: "shell_capability set" where
  "read_capabilities = {Observation, ReadFiles, GitRead}"

definition aggregate_inv :: "aggregate \<Rightarrow> bool" where
  "aggregate_inv a \<longleftrightarrow>
     (ag_all_read_only a \<longrightarrow> set (ag_capabilities a) \<subseteq> read_capabilities) \<and>
     (ag_destructive a \<longrightarrow> DeleteFiles \<in> set (ag_capabilities a)) \<and>
     (UnknownCap \<in> set (ag_capabilities a) \<longleftrightarrow> ag_saw_unknown a) \<and>
     (DynamicExecution \<in> set (ag_capabilities a) \<longrightarrow> ag_dynamic a)"

lemma aggregate_inv_default [inv_intros]: "aggregate_inv aggregate_default"
  by (simp add: aggregate_inv_def aggregate_default_def)

lemma aggregate_inv_init [inv_intros]: "aggregate_inv a \<Longrightarrow> aggregate_inv (init_if_needed a)"
  by (auto simp: aggregate_inv_def init_if_needed_def)

lemma aggregate_inv_same_class: "same_class a b \<Longrightarrow> aggregate_inv b \<Longrightarrow> aggregate_inv a"
  by (simp add: aggregate_inv_def same_class_def)

lemma aggregate_inv_mark_unknown [inv_intros]: "aggregate_inv a \<Longrightarrow> aggregate_inv (mark_unknown a)"
  by (auto simp: aggregate_inv_def class_updates)

lemma aggregate_inv_mark_unknown_dynamic [inv_intros]:
  "aggregate_inv a \<Longrightarrow> aggregate_inv (mark_unknown_dynamic a)"
  by (auto simp: aggregate_inv_def class_updates)

lemma aggregate_inv_dotnet:
  "classify_known_dotnet_read words sv a = Some a' \<Longrightarrow> aggregate_inv a \<Longrightarrow> aggregate_inv a'"
  by (auto simp: classify_known_dotnet_read_def Let_def split: option.splits
      intro!: aggregate_inv_same_class [OF same_class_add_read_targets])
     (auto simp: aggregate_inv_def class_updates read_capabilities_def)

lemma aggregate_inv_ripgrep: "aggregate_inv a \<Longrightarrow> aggregate_inv (classify_ripgrep words a)"
  unfolding classify_ripgrep_def Let_def
  by (intro aggregate_inv_same_class [OF same_class_push_target])
     (auto simp: aggregate_inv_def class_updates read_capabilities_def)

lemma aggregate_inv_read: "aggregate_inv a \<Longrightarrow> aggregate_inv (classify_read_command words sv a)"
  by (auto simp: classify_read_command_def Let_def
      intro!: aggregate_inv_same_class [OF same_class_add_read_targets])
     (auto simp: aggregate_inv_def class_updates read_capabilities_def)

lemma aggregate_inv_git: "aggregate_inv a \<Longrightarrow> aggregate_inv (classify_git words sv a)"
proof -
  assume inv: "aggregate_inv a"
  have base: "aggregate_inv (case git_workdir words of
      Some workdir \<Rightarrow> add_resolved_targets [workdir] sv a
    | None \<Rightarrow> push_target ''repository:current-workdir'' a)" (is "aggregate_inv ?b")
    using inv by (auto split: option.splits
        intro: aggregate_inv_same_class [OF same_class_push_target]
          aggregate_inv_same_class [OF same_class_resolved(1)])
  show ?thesis
  proof (cases "git_subcommand words")
    case None
    with inv show ?thesis by (simp add: classify_git_def aggregate_inv_mark_unknown)
  next
    case (Some found)
    obtain i sub where found: "found = (i, sub)" by (cases found)
    from base show ?thesis unfolding classify_git_def Some found
      by (simp only: option.case prod.case Let_def)
         (auto simp: aggregate_inv_def class_updates read_capabilities_def)
  qed
qed

lemma aggregate_inv_family:
  "aggregate_inv a \<Longrightarrow> aggregate_inv (classify_family family words name sv a)"
  by (cases family)
     (auto simp: classify_family_def classify_delete_def classify_network_def
        classify_dynamic_runtime_def classify_package_manager_def classify_cargo_def
        classify_with_subcommands_def Let_def aggregate_inv_ripgrep aggregate_inv_read
        aggregate_inv_git
      split: option.splits
      intro!: aggregate_inv_same_class [OF same_class_resolved(1)]
        aggregate_inv_same_class [OF same_class_resolved(2)]
        aggregate_inv_same_class [OF same_class_add_targets],
      auto simp: aggregate_inv_def class_updates)

lemma aggregate_inv_segment:
  assumes "aggregate_inv a"
  shows "aggregate_inv (classify_segment words sv a)"
proof -
  have inv: "aggregate_inv (init_if_needed a)" using assms by (rule aggregate_inv_init)
  have script: "aggregate_inv (add_resolved_targets ws sv
      (not_read_only (or_dynamic True (add_caps [StartProcess, DynamicExecution] (init_if_needed a)))))"
    for ws
    by (rule aggregate_inv_same_class [OF same_class_resolved(1)])
       (use inv in \<open>auto simp: aggregate_inv_def class_updates\<close>)
  show ?thesis
    using inv script
    by (auto simp: classify_segment_def Let_def aggregate_inv_family
        split: option.splits list.splits if_splits
        intro: aggregate_inv_dotnet inv_intros)
qed

lemma classify_segments_keeps:
  assumes "\<And>b. P b \<Longrightarrow> P (add_caps [Observation] (init_if_needed b))"
    and "\<And>segment sv b. P b \<Longrightarrow> P (classify_segment segment sv b)"
  shows "P a \<Longrightarrow> P (classify_segments segments sv a)"
  by (induction segments arbitrary: sv a) (auto simp: Let_def assms split: option.splits)

lemma aggregate_inv_segments:
  "aggregate_inv a \<Longrightarrow> aggregate_inv (classify_segments segments sv a)"
proof (rule classify_segments_keeps)
  fix b assume "aggregate_inv b"
  from aggregate_inv_init [OF this] show "aggregate_inv (add_caps [Observation] (init_if_needed b))"
    by (auto simp: aggregate_inv_def add_caps_def read_capabilities_def)
qed (simp_all add: aggregate_inv_segment)

section \<open>The invariant of an analysis\<close>

definition analysis_inv :: "shell_command_analysis \<Rightarrow> bool" where
  "analysis_inv r \<longleftrightarrow>
     (is_strictly_read_only r \<longrightarrow> set (sa_capabilities r) \<subseteq> read_capabilities) \<and>
     (sa_destructive r \<longrightarrow> DeleteFiles \<in> set (sa_capabilities r)) \<and>
     (DynamicExecution \<in> set (sa_capabilities r) \<longrightarrow> sa_dynamic r)"

lemma aggregate_inv_merge:
  "analysis_inv r \<Longrightarrow> aggregate_inv a \<Longrightarrow> aggregate_inv (merge_nested r a)"
  using aggregate_inv_init [of a]
  by (auto simp: merge_nested_def Let_def aggregate_inv_def analysis_inv_def)

lemma aggregate_inv_fold_merge:
  "list_all analysis_inv rs \<Longrightarrow> aggregate_inv a \<Longrightarrow> aggregate_inv (fold merge_nested rs a)"
  by (induction rs arbitrary: a) (auto simp: aggregate_inv_merge)

lemma analysis_inv_analysis_of:
  "aggregate_inv a \<Longrightarrow> analysis_inv (analysis_of no_segments p r b a)"
  by (auto simp: analysis_of_def Let_def analysis_inv_def is_strictly_read_only_def
      aggregate_inv_def class_updates)

lemma analysis_inv_nested:
  "analysis_inv (analyze_shell_command_nested command nesting)"
  "list_all analysis_inv (analyze_regions regions nesting)"
proof (induction command nesting and regions nesting
    rule: analyze_shell_command_nested_analyze_regions.induct)
  case (1 command nesting)
  have "aggregate_inv (classify_segments (split_segments [] (lex command)) Map.empty aggregate_default)"
    by (intro aggregate_inv_segments aggregate_inv_default)
  with 1 show ?case
    by (subst analyze_shell_command_nested.simps)
       (auto simp: Let_def intro!: analysis_inv_analysis_of aggregate_inv_fold_merge)
qed simp_all

lemma strictly_read_only_flags:
  "is_strictly_read_only (analyze_shell_command_nested command nesting) \<Longrightarrow>
     \<not> sa_destructive (analyze_shell_command_nested command nesting)
     \<and> \<not> sa_dynamic (analyze_shell_command_nested command nesting)
     \<and> \<not> sa_has_pipeline (analyze_shell_command_nested command nesting)
     \<and> \<not> sa_has_redirection (analyze_shell_command_nested command nesting)
     \<and> \<not> sa_has_background_operator (analyze_shell_command_nested command nesting)"
  by (simp add: analyze_shell_command_nested.simps [of command] Let_def analysis_of_def
      is_strictly_read_only_def)

section \<open>Destructive commands stay destructive\<close>

lemma dotnet_keeps_destructive:
  "classify_known_dotnet_read words sv a = Some a' \<Longrightarrow> ag_destructive a \<Longrightarrow> ag_destructive a'"
  by (auto simp: classify_known_dotnet_read_def Let_def same_classD class_updates
      split: option.splits)

lemma git_keeps_destructive: "ag_destructive a \<Longrightarrow> ag_destructive (classify_git words sv a)"
  by (auto simp: classify_git_def Let_def same_classD class_updates
      split: option.splits prod.splits)

lemma family_keeps_destructive:
  "ag_destructive a \<Longrightarrow> ag_destructive (classify_family family words name sv a)"
  by (cases family)
     (auto simp: classify_family_def classify_ripgrep_def classify_read_command_def
        classify_delete_def classify_network_def classify_dynamic_runtime_def
        classify_package_manager_def classify_cargo_def classify_with_subcommands_def
        Let_def same_classD class_updates git_keeps_destructive split: option.splits)

lemma segment_keeps_destructive:
  "ag_destructive a \<Longrightarrow> ag_destructive (classify_segment words sv a)"
proof -
  assume "ag_destructive a"
  then have "ag_destructive (init_if_needed a)" by (simp add: init_if_needed_def)
  then show ?thesis
    by (auto simp: classify_segment_def Let_def same_classD class_updates
        intro: family_keeps_destructive dotnet_keeps_destructive split: option.splits list.splits)
qed

lemma segments_keep_destructive:
  "ag_destructive a \<Longrightarrow> ag_destructive (classify_segments segments sv a)"
  by (rule classify_segments_keeps)
     (simp_all add: segment_keeps_destructive init_if_needed_def add_caps_def)

lemma merge_keeps_destructive: "ag_destructive a \<Longrightarrow> ag_destructive (merge_nested r a)"
  by (auto simp: merge_nested_def Let_def init_if_needed_def)

lemma fold_merge_keeps_destructive:
  "ag_destructive a \<Longrightarrow> ag_destructive (fold merge_nested rs a)"
  by (induction rs arbitrary: a) (auto simp: merge_keeps_destructive)

lemma merge_destructive: "sa_destructive r \<Longrightarrow> analysis_inv r \<Longrightarrow> ag_destructive (merge_nested r a)"
  by (auto simp: merge_nested_def Let_def analysis_inv_def)

lemma fold_merge_destructive:
  "r \<in> set rs \<Longrightarrow> sa_destructive r \<Longrightarrow> analysis_inv r \<Longrightarrow> ag_destructive (fold merge_nested rs a)"
  by (induction rs arbitrary: a) (auto intro: fold_merge_keeps_destructive merge_destructive)

lemma sa_destructive_analysis_of [simp]:
  "sa_destructive (analysis_of n p r b a) = ag_destructive a"
  by (simp add: analysis_of_def Let_def class_updates)

text \<open>A segment whose command word deletes: a command of the delete or the format family, or
  \<open>git reset\<close> and \<open>git clean\<close>.\<close>

definition command_family_of :: "shell_word list \<Rightarrow> command_family option" where
  "command_family_of segment =
     (case segment of
        [] \<Rightarrow> None
      | w # _ \<Rightarrow>
          if w_dynamic w then None
          else map_of command_families (normalize_command_name (w_value w)))"

definition is_dotnet_read :: "shell_word list \<Rightarrow> bool" where
  "is_dotnet_read segment \<longleftrightarrow>
     direct_dotnet_read_argument segment \<noteq> None \<or> new_object_reader_argument segment \<noteq> None"

definition deletes_files :: "shell_word list \<Rightarrow> bool" where
  "deletes_files segment \<longleftrightarrow>
     (case command_family_of segment of
        Some FDelete \<Rightarrow> True
      | Some FFormat \<Rightarrow> True
      | Some FGit \<Rightarrow>
          (case git_subcommand segment of
             Some (_, sub) \<Rightarrow> sub = ''reset'' \<or> sub = ''clean''
           | None \<Rightarrow> False)
      | _ \<Rightarrow> False)"

lemma family_names_are_no_scripts:
  "map_of command_families name = Some family \<Longrightarrow>
     \<not> ends_with name ''.ps1'' \<and> \<not> ends_with name ''.sh'' \<and> \<not> ends_with name ''.bat''
     \<and> \<not> ends_with name ''.cmd''"
proof -
  have "list_all (\<lambda>(n, _). \<not> ends_with n ''.ps1'' \<and> \<not> ends_with n ''.sh'' \<and> \<not> ends_with n ''.bat''
      \<and> \<not> ends_with n ''.cmd'') command_families"
    by code_simp
  moreover assume "map_of command_families name = Some family"
  then have "(name, family) \<in> set command_families" by (rule map_of_SomeD)
  ultimately show ?thesis by (auto simp: list_all_iff)
qed

lemma classify_segment_family:
  assumes "command_family_of segment = Some family" and "\<not> is_dotnet_read segment"
  obtains name where
    "classify_segment segment sv a = classify_family family segment name sv (init_if_needed a)"
proof -
  from assms(1) obtain w ws where seg: "segment = w # ws" "\<not> w_dynamic w"
    and fam: "map_of command_families (normalize_command_name (w_value w)) = Some family"
    by (auto simp: command_family_of_def split: list.splits if_splits)
  have "classify_known_dotnet_read segment sv (init_if_needed a) = None"
    using assms(2) by (simp add: is_dotnet_read_def classify_known_dotnet_read_def)
  with seg fam family_names_are_no_scripts [OF fam]
  have "classify_segment segment sv a
      = classify_family family segment (normalize_command_name (w_value w)) sv (init_if_needed a)"
    by (simp add: classify_segment_def Let_def)
  then show thesis by (rule that)
qed

lemma deleting_segment_destructive:
  assumes "deletes_files segment" and "\<not> is_dotnet_read segment"
  shows "ag_destructive (classify_segment segment sv a)"
proof -
  from assms(1) obtain family where fam: "command_family_of segment = Some family"
    by (auto simp: deletes_files_def split: option.splits)
  then obtain name where eq:
      "classify_segment segment sv a = classify_family family segment name sv (init_if_needed a)"
    using assms(2) by (rule classify_segment_family)
  from assms(1) fam consider "family = FDelete" | "family = FFormat"
    | i sub where "family = FGit" "git_subcommand segment = Some (i, sub)"
        "sub = ''reset'' \<or> sub = ''clean''"
    by (auto simp: deletes_files_def split: command_family.splits option.splits)
  then show ?thesis
  proof cases
    case 3
    then show ?thesis
      by (auto simp: eq classify_family_def classify_git_def Let_def class_updates
          git_read_subcommands_def)
  qed (simp_all add: eq classify_family_def classify_delete_def Let_def same_classD class_updates)
qed

lemma deleting_segments_destructive:
  assumes "deletes_files segment" "\<not> is_dotnet_read segment"
    and "static_string_assignment segment = None"
  shows "segment \<in> set segments \<Longrightarrow> ag_destructive (classify_segments segments sv a)"
proof (induction segments arbitrary: sv a)
  case (Cons s rest)
  show ?case
  proof (cases "s = segment")
    case True
    then show ?thesis
      using assms by (auto simp: Let_def deleting_segment_destructive
          intro: segments_keep_destructive)
  next
    case False
    with Cons show ?thesis by (auto simp: Let_def split: option.splits)
  qed
qed simp

section \<open>Only listed commands are read-only\<close>

definition reading_segment :: "shell_word list \<Rightarrow> bool" where
  "reading_segment segment \<longleftrightarrow>
     static_string_assignment segment \<noteq> None \<or> is_dotnet_read segment
     \<or> (case command_family_of segment of
          Some FRipgrep \<Rightarrow> True
        | Some FPowerShellRead \<Rightarrow> True
        | Some FGit \<Rightarrow>
            (case git_subcommand segment of
               Some (i, sub) \<Rightarrow>
                 sub \<in> set git_read_subcommands
                 \<and> \<not> git_ambiguous_mutator sub (drop (i + 1) segment)
             | None \<Rightarrow> False)
        | _ \<Rightarrow> False)"

text \<open>An aggregate that can no longer become read-only.\<close>

definition tainted :: "aggregate \<Rightarrow> bool" where
  "tainted a \<longleftrightarrow> ag_capabilities a \<noteq> [] \<and> \<not> ag_all_read_only a"

lemma tainted_init: "tainted a \<Longrightarrow> tainted (init_if_needed a)"
  by (simp add: tainted_def init_if_needed_def)

lemma tainted_same_class: "same_class a b \<Longrightarrow> tainted b \<Longrightarrow> tainted a"
  by (simp add: tainted_def same_class_def)

lemma tainted_updates [inv_intros]:
  "tainted a \<Longrightarrow> tainted (add_caps cs a)"
  "tainted a \<Longrightarrow> tainted (not_read_only a)"
  "tainted a \<Longrightarrow> tainted (or_dynamic d a)"
  "tainted a \<Longrightarrow> tainted (push_target t a)"
  "tainted a \<Longrightarrow> tainted (add_targets ws a)"
  "tainted a \<Longrightarrow> tainted (add_read_targets ws a)"
  "tainted a \<Longrightarrow> tainted (add_resolved_targets ws sv a)"
  "tainted a \<Longrightarrow> tainted (add_resolved_destructive_targets ws sv a)"
  "tainted a \<Longrightarrow> tainted (a\<lparr>ag_destructive := b\<rparr>)"
  "tainted a \<Longrightarrow> tainted (a\<lparr>ag_saw_destructive_target := b\<rparr>)"
  "tainted a \<Longrightarrow> tainted (a\<lparr>ag_saw_unknown := b\<rparr>)"
  by (auto simp: tainted_def class_updates same_classD)

lemma not_read_only_taints:
  "ag_capabilities a \<noteq> [] \<Longrightarrow> tainted (not_read_only a)"
  by (simp add: tainted_def not_read_only_def)

lemma add_caps_nonempty:
  "ag_capabilities (add_caps (c # cs) a) \<noteq> []"
  "ag_capabilities (or_dynamic d (add_caps (c # cs) a)) \<noteq> []"
  "ag_capabilities ((add_caps (c # cs) a)\<lparr>ag_destructive := b\<rparr>) \<noteq> []"
  by (simp_all add: add_caps_def or_dynamic_def)

lemmas taint_rules = tainted_updates not_read_only_taints add_caps_nonempty

lemma mark_unknown_taints: "tainted (mark_unknown a)" "tainted (mark_unknown_dynamic a)"
  by (simp_all add: tainted_def class_updates)

lemma dotnet_keeps_tainted:
  "classify_known_dotnet_read words sv a = Some a' \<Longrightarrow> tainted a \<Longrightarrow> tainted a'"
  by (auto simp: classify_known_dotnet_read_def Let_def tainted_updates split: option.splits)

lemma git_keeps_tainted: "tainted a \<Longrightarrow> tainted (classify_git words sv a)"
  by (auto simp: classify_git_def Let_def tainted_updates mark_unknown_taints
      split: option.split)

lemma family_keeps_tainted: "tainted a \<Longrightarrow> tainted (classify_family family words name sv a)"
  by (cases family)
     (auto simp: classify_family_def classify_ripgrep_def classify_read_command_def
        classify_delete_def classify_network_def classify_dynamic_runtime_def
        classify_package_manager_def classify_cargo_def classify_with_subcommands_def
        Let_def tainted_updates git_keeps_tainted split: option.split)

lemma segment_keeps_tainted: "tainted a \<Longrightarrow> tainted (classify_segment words sv a)"
  by (auto simp: classify_segment_def Let_def tainted_updates tainted_init family_keeps_tainted
      mark_unknown_taints split: option.split list.split
      dest: dotnet_keeps_tainted [OF _ tainted_init])

lemma segments_keep_tainted: "tainted a \<Longrightarrow> tainted (classify_segments segments sv a)"
  by (rule classify_segments_keeps) (simp_all add: segment_keeps_tainted tainted_updates tainted_init)

lemma merge_keeps_tainted: "tainted a \<Longrightarrow> tainted (merge_nested r a)"
  by (auto simp: merge_nested_def Let_def tainted_def init_if_needed_def)

lemma fold_merge_keeps_tainted: "tainted a \<Longrightarrow> tainted (fold merge_nested rs a)"
  by (induction rs arbitrary: a) (auto simp: merge_keeps_tainted)

lemma git_taints:
  assumes "\<not> (case git_subcommand words of
      Some (i, sub) \<Rightarrow> sub \<in> set git_read_subcommands
        \<and> \<not> git_ambiguous_mutator sub (drop (i + 1) words)
    | None \<Rightarrow> False)"
  shows "tainted (classify_git words sv a)"
  using assms
  by (auto simp: classify_git_def Let_def tainted_def class_updates split: option.split)

lemma unlisted_segment_taints:
  assumes "\<not> reading_segment segment" "segment \<noteq> []"
  shows "tainted (classify_segment segment sv a)"
proof -
  from assms(1) have no_dotnet: "\<not> is_dotnet_read segment" by (simp add: reading_segment_def)
  then have none: "classify_known_dotnet_read segment sv b = None" for b
    by (simp add: is_dotnet_read_def classify_known_dotnet_read_def)
  show ?thesis
  proof (cases "command_family_of segment")
    case None
    with none assms(2) show ?thesis
      by (auto simp: classify_segment_def command_family_of_def Let_def mark_unknown_taints
          taint_rules split: list.split)
  next
    case (Some family)
    then obtain name where eq:
        "classify_segment segment sv a = classify_family family segment name sv (init_if_needed a)"
      using no_dotnet by (rule classify_segment_family)
    show ?thesis
    proof (cases "family = FGit")
      case True
      with assms(1) Some have "tainted (classify_git segment sv b)" for b
        by (intro git_taints) (simp add: reading_segment_def)
      with True show ?thesis by (simp add: eq classify_family_def)
    next
      case False
      with assms(1) Some show ?thesis
        by (cases family)
           (auto simp: eq reading_segment_def classify_family_def classify_delete_def
             classify_network_def classify_dynamic_runtime_def classify_package_manager_def
             classify_cargo_def classify_with_subcommands_def Let_def taint_rules
             split: option.split)
    qed
  qed
qed

lemma unlisted_segments_taint:
  assumes "\<not> reading_segment segment" "segment \<noteq> []"
  shows "segment \<in> set segments \<Longrightarrow> tainted (classify_segments segments sv a)"
proof (induction segments arbitrary: sv a)
  case (Cons s rest)
  show ?case
  proof (cases "s = segment")
    case True
    moreover have "static_string_assignment segment = None"
      using assms(1) by (cases "static_string_assignment segment") (auto simp: reading_segment_def)
    ultimately show ?thesis
      using unlisted_segment_taints [OF assms] by (simp add: Let_def segments_keep_tainted)
  next
    case False
    with Cons show ?thesis by (auto simp: Let_def split: option.splits)
  qed
qed simp

lemma split_segments_nonempty: "segment \<in> set (split_segments current ls) \<Longrightarrow> segment \<noteq> []"
  by (induction current ls rule: split_segments.induct) (auto split: if_splits)

lemma tainted_not_strictly_read_only:
  "tainted a \<Longrightarrow> \<not> is_strictly_read_only (analysis_of n p r b a)"
  by (auto simp: analysis_of_def Let_def is_strictly_read_only_def tainted_def class_updates)

lemma analyze_regions_map: "analyze_regions regions n = map (\<lambda>r. analyze_shell_command_nested r n) regions"
  by (induction regions) simp_all

section \<open>Properties\<close>

text \<open>
  C11: No deletion is overlooked.  If one of the segments of a command (the words between two
  operators) starts with a deleting command (\<open>rm\<close>, \<open>Remove-Item\<close>, \<open>del\<close>, \<open>format\<close>, \<open>git reset\<close>, \<open>git clean\<close>,
  \<open>...\<close>) and is neither a static string assignment nor a recognised .NET read, then the analysis of
  the whole command is destructive and lists the delete capability, whatever the other segments
  and the nested regions are.
\<close>
theorem deleting_command_is_destructive:
  assumes "segment \<in> set (split_segments [] (lex command))"
    and "deletes_files segment" and "\<not> is_dotnet_read segment"
    and "static_string_assignment segment = None"
  shows "sa_destructive (analyze_shell_command command)
    \<and> DeleteFiles \<in> set (sa_capabilities (analyze_shell_command command))"
proof -
  have "ag_destructive (classify_segments (split_segments [] (lex command)) Map.empty
      aggregate_default)"
    using assms(2-4,1) by (rule deleting_segments_destructive)
  then have "sa_destructive (analyze_shell_command command)"
    by (simp add: analyze_shell_command_def analyze_shell_command_nested.simps [of command] Let_def
        fold_merge_keeps_destructive del: fold_simps)
  with analysis_inv_nested(1) [of command 0] show ?thesis
    by (simp add: analyze_shell_command_def analysis_inv_def)
qed

lemma deleting_command_is_destructive_witness:
  "sa_destructive (analyze_shell_command ''ls; Remove-Item ./build'')
    \<and> DeleteFiles \<in> set (sa_capabilities (analyze_shell_command ''ls; Remove-Item ./build''))"
proof (rule deleting_command_is_destructive)
  show "[\<lparr>w_value = ''Remove-Item'', w_dynamic = False, w_wildcard = False\<rparr>,
         \<lparr>w_value = ''./build'', w_dynamic = False, w_wildcard = False\<rparr>]
      \<in> set (split_segments [] (lex ''ls; Remove-Item ./build''))"
    by code_simp
qed code_simp+

text \<open>
  A deletion is found inside a nested region too.  If the command has a nested executable region
  (a group in parentheses or braces, or an expansion inside double quotes) whose own analysis is
  destructive, then the analysis of the enclosing command is destructive; the bound 32 on the nesting
  depth is the one at which the code stops descending.
\<close>
theorem nested_deletion_is_destructive:
  assumes "region \<in> set (nested_executable_regions command)" and "nesting < 32"
    and "sa_destructive (analyze_shell_command_nested region (nesting + 1))"
  shows "sa_destructive (analyze_shell_command_nested command nesting)"
proof -
  let ?rs = "analyze_regions (nested_executable_regions command) (nesting + 1)"
  have "analyze_shell_command_nested region (nesting + 1) \<in> set ?rs"
    using assms(1) by (simp add: analyze_regions_map)
  from fold_merge_destructive [OF this assms(3) analysis_inv_nested(1)] assms(2) show ?thesis
    by (simp add: analyze_shell_command_nested.simps [of command] Let_def)
qed

lemma nested_deletion_is_destructive_witness:
  "sa_destructive (analyze_shell_command_nested ''ls (rm x)'' 0)"
proof (rule nested_deletion_is_destructive)
  show "''rm x'' \<in> set (nested_executable_regions ''ls (rm x)'')" by code_simp
qed code_simp+



text \<open>
  C39: The verdict about the segments does not extend to nested regions: a nested region that only
  runs unknown commands is not merged, so \<open>ls (foo)\<close> is strictly read-only although the analysis of
  its region \<open>foo\<close> alone is not.
\<close>
theorem unknown_nested_command_is_read_only:
  "is_strictly_read_only (analyze_shell_command ''ls (foo)'')
    \<and> nested_executable_regions ''ls (foo)'' = [''foo'']
    \<and> \<not> is_strictly_read_only (analyze_shell_command ''foo'')"
  by code_simp

text \<open>
  C40: A hash sign inside a word hides the rest of the line from the search for nested regions but not
  from the lexer: \<open>ls a#b $(rm x)\<close> is analysed as strictly read-only and not destructive, while the
  same command without the hash sign is destructive.
\<close>
theorem hash_in_word_hides_nested_deletion:
  "is_strictly_read_only (analyze_shell_command ''ls a#b $(rm x)'')
    \<and> \<not> sa_destructive (analyze_shell_command ''ls a#b $(rm x)'')
    \<and> sa_destructive (analyze_shell_command ''ls ab $(rm x)'')"
  by code_simp

end
