(* ===== verification/Paths.thy ===== *)
theory Paths
  imports Prelude "HOL-Library.Sublist"
begin

text \<open>
  Paths of the standard library on Unix, and the path helpers of \<open>policy.rs\<close> and
  \<open>sandbox/path_policy.rs\<close>.

  A \<open>Path\<close> is the list of its \<open>components()\<close>: this is what its equality, \<open>starts_with\<close>, \<open>parent\<close> and
  \<open>file_name\<close> look at.  The spelling of separators (\<open>a//b\<close> for \<open>a/b\<close>) is not kept, so \<open>display\<close> shows
  the path with single separators.  The file system is an argument: its answers to \<open>canonicalize\<close>,
  \<open>is_dir\<close>, \<open>is_file\<close> and \<open>exists\<close> and the current directory.  The definitions are the ones compiled
  with \<open>cfg(not(windows))\<close>.
\<close>

section \<open>Paths\<close>

datatype component = RootDir | CurDir | ParentDir | Normal string

type_synonym path = "component list"

record filesystem =
  fs_canonicalize :: "path \<Rightarrow> path option"
  fs_is_dir :: "path \<Rightarrow> bool"
  fs_is_file :: "path \<Rightarrow> bool"
  fs_exists :: "path \<Rightarrow> bool"
  fs_current_dir :: "path option"

fun component_of :: "string \<Rightarrow> component option" where
  "component_of s = (if s = [] \<or> s = ''.'' then None else if s = ''..'' then Some ParentDir else Some (Normal s))"

definition path_of_string :: "string \<Rightarrow> path" where
  "path_of_string s =
     (let pieces = split_char (CHR ''/'') s;
          front = (if starts_with s ''/'' then [RootDir]
                   else if hd pieces = ''.'' then [CurDir] else [])
      in front @ List.map_filter component_of pieces)"

fun show_component :: "component \<Rightarrow> string" where
  "show_component RootDir = []"
| "show_component CurDir = ''.''"
| "show_component ParentDir = ''..''"
| "show_component (Normal s) = s"

definition path_to_string :: "path \<Rightarrow> string" where
  "path_to_string p = (if p = [RootDir] then ''/'' else join_str ''/'' (map show_component p))"

definition is_absolute :: "path \<Rightarrow> bool" where
  "is_absolute p \<longleftrightarrow> (case p of RootDir # _ \<Rightarrow> True | _ \<Rightarrow> False)"

definition path_join :: "path \<Rightarrow> path \<Rightarrow> path" where
  "path_join p q =
     (if is_absolute q then q
      else if p = [] then q
      else p @ (case q of CurDir # rest \<Rightarrow> rest | _ \<Rightarrow> q))"

definition parent :: "path \<Rightarrow> path option" where
  "parent p = (if p = [] \<or> last p = RootDir then None else Some (butlast p))"

definition file_name :: "path \<Rightarrow> string option" where
  "file_name p = (if p = [] then None else case last p of Normal s \<Rightarrow> Some s | _ \<Rightarrow> None)"

definition path_starts_with :: "path \<Rightarrow> path \<Rightarrow> bool" where
  "path_starts_with candidate root \<longleftrightarrow> take (length root) candidate = root"

definition has_parent_dir :: "path \<Rightarrow> bool" where
  "has_parent_dir p \<longleftrightarrow> ParentDir \<in> set p"

lemma path_starts_with_iff: "path_starts_with p r \<longleftrightarrow> prefix r p"
  by (auto simp: path_starts_with_def prefix_def) (metis append_take_drop_id)

lemma path_starts_with_refl [simp]: "path_starts_with p p"
  by (simp add: path_starts_with_iff)

lemma path_starts_with_antisym: "path_starts_with p q \<Longrightarrow> path_starts_with q p \<Longrightarrow> p = q"
  by (simp add: path_starts_with_iff prefix_order.antisym)

section \<open>Normalisation against the file system\<close>

text \<open>The loop of \<open>canonicalize_existing_ancestor\<close>: \<open>missing\<close> holds the names already cut off, the last
  one of the path first.\<close>

function canonicalize_ancestors :: "filesystem \<Rightarrow> path \<Rightarrow> string list \<Rightarrow> path option" where
  "canonicalize_ancestors fs cursor missing =
     (case parent cursor of
        None \<Rightarrow> None
      | Some up \<Rightarrow>
          (let missing' = (case file_name cursor of
                             Some name \<Rightarrow> missing @ [name]
                           | None \<Rightarrow> missing)
           in case fs_canonicalize fs up of
                Some canonical \<Rightarrow> Some (canonical @ map Normal (rev missing'))
              | None \<Rightarrow> canonicalize_ancestors fs up missing'))"
  by pat_completeness auto
termination
  by (relation "measure (\<lambda>(fs, cursor, missing). length cursor)")
     (auto simp: parent_def split: if_splits)

declare canonicalize_ancestors.simps [simp del]

definition canonicalize_existing_ancestor :: "filesystem \<Rightarrow> path \<Rightarrow> path" where
  "canonicalize_existing_ancestor fs p =
     (case fs_canonicalize fs p of
        Some canonical \<Rightarrow> canonical
      | None \<Rightarrow>
          (case canonicalize_ancestors fs p [] of
             Some canonical \<Rightarrow> canonical
           | None \<Rightarrow> p))"

definition absolute_path :: "filesystem \<Rightarrow> path \<Rightarrow> path" where
  "absolute_path fs p =
     (if is_absolute p then p
      else path_join (case fs_current_dir fs of Some d \<Rightarrow> d | None \<Rightarrow> [CurDir]) p)"

fun dedup_paths_from :: "filesystem \<Rightarrow> path list \<Rightarrow> path list \<Rightarrow> path list" where
  "dedup_paths_from fs result [] = result"
| "dedup_paths_from fs result (p # ps) =
     (let q = absolute_path fs p in
        dedup_paths_from fs (if q \<in> set result then result else result @ [q]) ps)"

definition dedup_paths :: "filesystem \<Rightarrow> path list \<Rightarrow> path list" where
  "dedup_paths fs ps = dedup_paths_from fs [] ps"

lemma dedup_paths_from_set:
  "set (dedup_paths_from fs result ps) = set result \<union> absolute_path fs ` set ps"
  by (induction fs result ps rule: dedup_paths_from.induct) (auto simp: Let_def)

lemma dedup_paths_from_distinct:
  "distinct result \<Longrightarrow> distinct (dedup_paths_from fs result ps)"
  by (induction fs result ps rule: dedup_paths_from.induct) (auto simp: Let_def)

lemma set_dedup_paths [simp]: "set (dedup_paths fs ps) = absolute_path fs ` set ps"
  by (simp add: dedup_paths_def dedup_paths_from_set)

lemma distinct_dedup_paths [simp]: "distinct (dedup_paths fs ps)"
  by (simp add: dedup_paths_def dedup_paths_from_distinct)

lemma absolute_path_absolute [simp]: "is_absolute p \<Longrightarrow> absolute_path fs p = p"
  by (simp add: absolute_path_def)

text \<open>A path whose names are all missing keeps the names: normalisation only replaces an existing
  ancestor by its canonical form.\<close>

lemma canonicalize_ancestors_Some:
  assumes "canonicalize_ancestors fs cursor missing = Some result"
    and "\<not> has_parent_dir cursor" "CurDir \<notin> set cursor"
  shows "\<exists>up canonical rest. cursor = up @ map Normal rest \<and> rest \<noteq> []
    \<and> fs_canonicalize fs up = Some canonical
    \<and> result = canonical @ map Normal rest @ map Normal (rev missing)"
  using assms
proof (induction fs cursor missing rule: canonicalize_ancestors.induct)
  case (1 fs cursor missing)
  from "1.prems"(1) obtain up where up: "parent cursor = Some up"
    by (auto simp: canonicalize_ancestors.simps [of fs cursor] split: option.splits)
  then have "cursor = up @ [last cursor]" "last cursor \<noteq> RootDir"
    by (auto simp: parent_def split: if_splits)
  then obtain c where c: "cursor = up @ [c]" "c \<noteq> RootDir" by blast
  with "1.prems"(2,3) obtain name where cursor: "cursor = up @ [Normal name]"
    by (cases c) (auto simp: has_parent_dir_def)
  then have fn: "file_name cursor = Some name" by (simp add: file_name_def)
  show ?case
  proof (cases "fs_canonicalize fs up")
    case (Some canonical)
    with up fn "1.prems"(1) have "result = canonical @ map Normal [name] @ map Normal (rev missing)"
      by (simp add: canonicalize_ancestors.simps [of fs cursor])
    moreover have "cursor = up @ map Normal [name]" using cursor by simp
    ultimately show ?thesis using Some by blast
  next
    case None
    with up fn "1.prems"(1) have rec: "canonicalize_ancestors fs up (missing @ [name]) = Some result"
      by (simp add: canonicalize_ancestors.simps [of fs cursor])
    have "\<not> has_parent_dir up" "CurDir \<notin> set up"
      using "1.prems"(2,3) cursor by (auto simp: has_parent_dir_def)
    with "1.IH" [OF up refl] fn None rec obtain up' canonical rest where
      "up = up' @ map Normal rest" "fs_canonicalize fs up' = Some canonical"
      "result = canonical @ map Normal rest @ map Normal (rev (missing @ [name]))"
      by auto
    then have "cursor = up' @ map Normal (rest @ [name])
        \<and> result = canonical @ map Normal (rest @ [name]) @ map Normal (rev missing)"
      using cursor by simp
    then show ?thesis using \<open>fs_canonicalize fs up' = Some canonical\<close> by blast
  qed
qed

end
