(* ===== verification/Sandbox.thy ===== *)
theory Sandbox
  imports Paths
begin

text \<open>
  The sandbox contract (\<open>sandbox/contract.rs\<close>), the scope rules on paths (\<open>sandbox/path_policy.rs\<close>) and
  the construction of the confined command line for Linux and macOS (\<open>sandbox/command.rs\<close>).

  The environment is a function from variable names to values; \<open>host\<close> is
  \<open>OsSandboxPlatform::current()\<close>, fixed when the program is compiled.  The command line of the Windows
  helper is not modelled: \<open>build_local_sandbox_command\<close> takes the result of that branch as an argument.
\<close>

section \<open>Data\<close>

datatype windows_sandbox_backend = WindowsAuto | DedicatedUser | Unelevated

datatype os_sandbox_mode = OsDisabled | OsBestEffort | OsEnforce

datatype network_policy = NetInherit | NetAllow | NetDeny

datatype sandbox_mode = SandboxReadOnly | SandboxWorkspaceWrite | SandboxDangerFullAccess

datatype os_sandbox_platform = Linux | Macos | Windows | Unsupported

record sandbox_backend_capabilities =
  recursive_read_allowlist :: bool
  recursive_write_allowlist :: bool
  deny_read :: bool
  deny_write :: bool
  network_offline :: bool
  network_online :: bool
  private_desktop :: bool
  native_subprocess_ipc :: bool

definition for_platform ::
    "os_sandbox_platform \<Rightarrow> windows_sandbox_backend \<Rightarrow> sandbox_backend_capabilities" where
  "for_platform platform backend =
     (case platform of
        Windows \<Rightarrow>
          (case backend of
             DedicatedUser \<Rightarrow>
               \<lparr>recursive_read_allowlist = False, recursive_write_allowlist = False,
                deny_read = True, deny_write = True, network_offline = True, network_online = True,
                private_desktop = False, native_subprocess_ipc = True\<rparr>
           | _ \<Rightarrow>
               \<lparr>recursive_read_allowlist = False, recursive_write_allowlist = True,
                deny_read = False, deny_write = True, network_offline = False,
                network_online = True, private_desktop = False, native_subprocess_ipc = False\<rparr>)
      | Unsupported \<Rightarrow>
          \<lparr>recursive_read_allowlist = False, recursive_write_allowlist = False,
           deny_read = False, deny_write = False, network_offline = False, network_online = False,
           private_desktop = False, native_subprocess_ipc = False\<rparr>
      | _ \<Rightarrow>
          \<lparr>recursive_read_allowlist = True, recursive_write_allowlist = True,
           deny_read = False, deny_write = True, network_offline = True, network_online = True,
           private_desktop = False, native_subprocess_ipc = True\<rparr>)"

fun sandbox_mode_str :: "sandbox_mode \<Rightarrow> string" where
  "sandbox_mode_str SandboxReadOnly = ''read-only''"
| "sandbox_mode_str SandboxWorkspaceWrite = ''workspace-write''"
| "sandbox_mode_str SandboxDangerFullAccess = ''danger-full-access''"

fun sandbox_rank :: "sandbox_mode \<Rightarrow> nat" where
  "sandbox_rank SandboxReadOnly = 0"
| "sandbox_rank SandboxWorkspaceWrite = 1"
| "sandbox_rank SandboxDangerFullAccess = 2"

definition is_attenuation_of :: "sandbox_mode \<Rightarrow> sandbox_mode \<Rightarrow> bool" where
  "is_attenuation_of m parent_mode \<longleftrightarrow> sandbox_rank m \<le> sandbox_rank parent_mode"

fun platform_str :: "os_sandbox_platform \<Rightarrow> string" where
  "platform_str Linux = ''linux''"
| "platform_str Macos = ''macos''"
| "platform_str Windows = ''windows''"
| "platform_str Unsupported = ''unsupported''"

record local_sandbox_config =
  lc_enabled :: bool
  lc_mode :: os_sandbox_mode
  lc_network :: network_policy
  lc_read_paths :: "path list"
  lc_write_paths :: "path list"
  lc_sandbox_mode :: sandbox_mode
  lc_writable_roots :: "path list"
  lc_sandbox_home :: "path option"
  lc_windows_backend :: windows_sandbox_backend
  lc_approved_read_paths :: "path list"
  lc_approved_write_paths :: "path list"

definition sandbox_default :: local_sandbox_config where
  "sandbox_default =
     \<lparr>lc_enabled = False, lc_mode = OsDisabled, lc_network = NetDeny, lc_read_paths = [],
      lc_write_paths = [], lc_sandbox_mode = SandboxWorkspaceWrite, lc_writable_roots = [],
      lc_sandbox_home = None, lc_windows_backend = WindowsAuto, lc_approved_read_paths = [],
      lc_approved_write_paths = []\<rparr>"

definition best_effort :: local_sandbox_config where
  "best_effort =
     sandbox_default\<lparr>lc_enabled := True, lc_mode := OsBestEffort,
       lc_sandbox_mode := SandboxWorkspaceWrite\<rparr>"

definition enforce :: local_sandbox_config where
  "enforce =
     sandbox_default\<lparr>lc_enabled := True, lc_mode := OsEnforce,
       lc_sandbox_mode := SandboxWorkspaceWrite\<rparr>"

definition danger_full_access :: local_sandbox_config where
  "danger_full_access =
     sandbox_default\<lparr>lc_enabled := False, lc_mode := OsDisabled, lc_network := NetAllow,
       lc_sandbox_mode := SandboxDangerFullAccess\<rparr>"

definition effective_windows_backend :: "local_sandbox_config \<Rightarrow> windows_sandbox_backend" where
  "effective_windows_backend c =
     (case (lc_windows_backend c, lc_mode c) of
        (WindowsAuto, OsEnforce) \<Rightarrow> DedicatedUser
      | (WindowsAuto, OsBestEffort) \<Rightarrow> WindowsAuto
      | (backend, _) \<Rightarrow> backend)"

definition with_sandbox_mode :: "sandbox_mode \<Rightarrow> local_sandbox_config \<Rightarrow> local_sandbox_config" where
  "with_sandbox_mode m c =
     (let c' = c\<lparr>lc_sandbox_mode := m\<rparr> in
        if m = SandboxDangerFullAccess
        then c'\<lparr>lc_enabled := False, lc_mode := OsDisabled, lc_network := NetAllow\<rparr>
        else c')"

definition is_enabled :: "local_sandbox_config \<Rightarrow> bool" where
  "is_enabled c \<longleftrightarrow> lc_enabled c \<and> lc_mode c \<noteq> OsDisabled"

definition is_enforced :: "local_sandbox_config \<Rightarrow> bool" where
  "is_enforced c \<longleftrightarrow> lc_enabled c \<and> lc_mode c = OsEnforce"

section \<open>Scopes\<close>

definition paths_equal :: "filesystem \<Rightarrow> path \<Rightarrow> path \<Rightarrow> bool" where
  "paths_equal fs left right \<longleftrightarrow>
     canonicalize_existing_ancestor fs (absolute_path fs left)
       = canonicalize_existing_ancestor fs (absolute_path fs right)"

definition path_is_within_approved_scope :: "filesystem \<Rightarrow> path \<Rightarrow> path \<Rightarrow> bool" where
  "path_is_within_approved_scope fs p approved \<longleftrightarrow>
     (let p' = canonicalize_existing_ancestor fs (absolute_path fs p);
          approved' = canonicalize_existing_ancestor fs (absolute_path fs approved);
          within_directory = (fs_is_dir fs approved' \<and> path_starts_with p' approved')
      in paths_equal fs p' approved' \<or> within_directory)"

definition grant_read_path :: "filesystem \<Rightarrow> path \<Rightarrow> local_sandbox_config \<Rightarrow> local_sandbox_config"
  where
  "grant_read_path fs p c =
     (if \<not> list_ex (paths_equal fs p) (lc_approved_read_paths c)
      then c\<lparr>lc_approved_read_paths := lc_approved_read_paths c @ [p]\<rparr> else c)"

definition grant_write_path :: "filesystem \<Rightarrow> path \<Rightarrow> local_sandbox_config \<Rightarrow> local_sandbox_config"
  where
  "grant_write_path fs p c =
     (if \<not> list_ex (paths_equal fs p) (lc_approved_write_paths c)
      then c\<lparr>lc_approved_write_paths := lc_approved_write_paths c @ [p]\<rparr> else c)"

definition is_within_approved_read_scope :: "filesystem \<Rightarrow> local_sandbox_config \<Rightarrow> path \<Rightarrow> bool"
  where
  "is_within_approved_read_scope fs c p \<longleftrightarrow>
     list_ex (path_is_within_approved_scope fs p) (lc_approved_read_paths c)"

definition is_within_approved_write_scope :: "filesystem \<Rightarrow> local_sandbox_config \<Rightarrow> path \<Rightarrow> bool"
  where
  "is_within_approved_write_scope fs c p \<longleftrightarrow>
     list_ex (path_is_within_approved_scope fs p) (lc_approved_write_paths c)"

definition is_approved_write_path :: "filesystem \<Rightarrow> local_sandbox_config \<Rightarrow> path \<Rightarrow> bool" where
  "is_approved_write_path fs c p \<longleftrightarrow> list_ex (paths_equal fs p) (lc_approved_write_paths c)"

definition has_approved_write_within :: "filesystem \<Rightarrow> local_sandbox_config \<Rightarrow> path \<Rightarrow> bool" where
  "has_approved_write_within fs c root \<longleftrightarrow>
     (let root' = canonicalize_existing_ancestor fs (absolute_path fs root) in
        list_ex (\<lambda>approved. path_starts_with
             (canonicalize_existing_ancestor fs (absolute_path fs approved)) root')
          (lc_approved_write_paths c))"

definition effective_writable_roots :: "filesystem \<Rightarrow> local_sandbox_config \<Rightarrow> path \<Rightarrow> path list" where
  "effective_writable_roots fs c workspace_root =
     (if lc_sandbox_mode c \<noteq> SandboxWorkspaceWrite then []
      else dedup_paths fs
             (workspace_root # lc_write_paths c @ lc_writable_roots c
               @ List.map_filter parent (lc_approved_write_paths c)))"

definition configured_writable_roots :: "filesystem \<Rightarrow> local_sandbox_config \<Rightarrow> path \<Rightarrow> path list"
  where
  "configured_writable_roots fs c workspace_root =
     (if lc_sandbox_mode c \<noteq> SandboxWorkspaceWrite then []
      else dedup_paths fs (workspace_root # lc_write_paths c @ lc_writable_roots c))"

definition effective_readable_roots :: "filesystem \<Rightarrow> local_sandbox_config \<Rightarrow> path \<Rightarrow> path list" where
  "effective_readable_roots fs c workspace_root =
     (if lc_sandbox_mode c = SandboxDangerFullAccess then []
      else dedup_paths fs
             (workspace_root # lc_read_paths c @ lc_approved_read_paths c
               @ lc_approved_write_paths c @ effective_writable_roots fs c workspace_root))"

section \<open>Configuration from the environment\<close>

definition parse_enforcement_mode :: "string \<Rightarrow> os_sandbox_mode option" where
  "parse_enforcement_mode value =
     (let v = replace_str (to_ascii_lowercase value) ''_'' ''-'' in
        if v = ''disabled'' then Some OsDisabled
        else if v = ''best-effort'' then Some OsBestEffort
        else if v = ''enforce'' \<or> v = ''strict'' then Some OsEnforce
        else None)"

definition env_path_list :: "(string \<Rightarrow> string option) \<Rightarrow> string \<Rightarrow> path list" where
  "env_path_list env name =
     (case env name of
        None \<Rightarrow> []
      | Some value \<Rightarrow> map path_of_string (split_char (CHR '':'') value))"

definition env_mode_table :: "string \<Rightarrow> os_sandbox_mode option \<times> sandbox_mode" where
  "env_mode_table v =
     (if v = ''enforce'' \<or> v = ''strict'' then (Some OsEnforce, SandboxWorkspaceWrite)
      else if v = ''best-effort'' then (Some OsBestEffort, SandboxWorkspaceWrite)
      else if v = ''disabled'' then (Some OsDisabled, SandboxDangerFullAccess)
      else if v = ''read-only'' then (None, SandboxReadOnly)
      else if v = ''workspace-write'' then (None, SandboxWorkspaceWrite)
      else if v = ''danger-full-access'' then (None, SandboxDangerFullAccess)
      else (Some OsEnforce, SandboxReadOnly))"

definition env_or :: "(string \<Rightarrow> string option) \<Rightarrow> string \<Rightarrow> string \<Rightarrow> string" where
  "env_or env name fallback = (case env name of Some v \<Rightarrow> v | None \<Rightarrow> fallback)"

definition env_windows_backend :: "string option \<Rightarrow> windows_sandbox_backend" where
  "env_windows_backend value =
     (case value of
        None \<Rightarrow> WindowsAuto
      | Some v \<Rightarrow>
          (let l = to_ascii_lowercase v in
             if l = ''auto'' then WindowsAuto
             else if l = ''unelevated'' \<or> l = ''legacy'' then Unelevated
             else DedicatedUser))"

definition from_env :: "(string \<Rightarrow> string option) \<Rightarrow> local_sandbox_config" where
  "from_env env =
     (let mode_value =
            replace_str (to_ascii_lowercase (env_or env ''OPENTOPIA_SANDBOX_MODE'' ''workspace-write''))
              ''_'' ''-'';
          (legacy_enforcement, sandbox_mode) = env_mode_table mode_value;
          mode =
            (case Option.bind (env ''OPENTOPIA_SANDBOX_ENFORCEMENT'') parse_enforcement_mode of
               Some m \<Rightarrow> m
             | None \<Rightarrow>
                 (case legacy_enforcement of
                    Some m \<Rightarrow> m
                  | None \<Rightarrow> if sandbox_mode = SandboxDangerFullAccess then OsDisabled else OsEnforce));
          network_value = to_ascii_lowercase (env_or env ''OPENTOPIA_SANDBOX_NETWORK'' ''deny'');
          configured_network = (if network_value = ''allow'' then NetAllow
                                else if network_value = ''inherit'' then NetInherit else NetDeny);
          network = (if sandbox_mode = SandboxDangerFullAccess then NetAllow else configured_network)
      in \<lparr>lc_enabled = (mode \<noteq> OsDisabled \<and> sandbox_mode \<noteq> SandboxDangerFullAccess),
          lc_mode = mode,
          lc_network = network,
          lc_read_paths = env_path_list env ''OPENTOPIA_SANDBOX_READ_PATHS'',
          lc_write_paths = env_path_list env ''OPENTOPIA_SANDBOX_WRITE_PATHS'',
          lc_sandbox_mode = sandbox_mode,
          lc_writable_roots = env_path_list env ''OPENTOPIA_SANDBOX_WRITABLE_ROOTS'',
          lc_sandbox_home = map_option path_of_string (env ''OPENTOPIA_SANDBOX_HOME''),
          lc_windows_backend = env_windows_backend (env ''OPENTOPIA_WINDOWS_SANDBOX''),
          lc_approved_read_paths = [],
          lc_approved_write_paths = []\<rparr>)"

section \<open>Protected metadata\<close>

definition protected_metadata_names :: "string list" where
  "protected_metadata_names = [''.git'', ''.agents'', ''.codex'']"

definition is_protected_metadata_path :: "filesystem \<Rightarrow> path \<Rightarrow> path \<Rightarrow> bool" where
  "is_protected_metadata_path fs p writable_root \<longleftrightarrow>
     (let candidate = absolute_path fs p; root = absolute_path fs writable_root in
        path_starts_with candidate root
        \<and> (case drop (length root) candidate of
             [] \<Rightarrow> False
           | c # _ \<Rightarrow> list_ex (eq_ignore_ascii_case (show_component c)) protected_metadata_names))"

definition protected_paths :: "filesystem \<Rightarrow> path \<Rightarrow> local_sandbox_config \<Rightarrow> path list" where
  "protected_paths fs workspace_root c =
     (if lc_sandbox_mode c = SandboxReadOnly then [absolute_path fs workspace_root]
      else if lc_sandbox_mode c = SandboxDangerFullAccess then []
      else dedup_paths fs
             (concat (map (\<lambda>root. map (\<lambda>name. path_join root [Normal name]) protected_metadata_names)
                (effective_writable_roots fs c workspace_root))))"

section \<open>The confined command line\<close>

datatype sandbox_command_status =
    Disabled
  | UnrestrictedCommand
  | Wrapped os_sandbox_platform string
  | BestEffortPassthrough os_sandbox_platform string

record sandbox_preparation_plan =
  prep_key :: string
  prep_program :: string
  prep_args :: "string list"
  prep_env :: "(string \<times> string) list"

record sandbox_command_plan =
  plan_program :: string
  plan_args :: "string list"
  plan_env :: "(string \<times> string) list"
  plan_baseline_preparation :: "sandbox_preparation_plan option"
  plan_preparation :: "sandbox_preparation_plan option"
  plan_status :: sandbox_command_status

definition plan_of :: "string \<Rightarrow> string list \<Rightarrow> sandbox_command_status \<Rightarrow> sandbox_command_plan" where
  \<comment> \<open>a plan without environment and preparation, the only kind built outside Windows\<close>
  "plan_of program args status =
     \<lparr>plan_program = program, plan_args = args, plan_env = [], plan_baseline_preparation = None,
      plan_preparation = None, plan_status = status\<rparr>"

datatype sandbox_error = BackendUnavailable string | UnsupportedPlatform string

definition plan_disabled :: "string \<Rightarrow> string list \<Rightarrow> sandbox_command_plan" where
  "plan_disabled program args = (plan_of program args Disabled)"

definition plan_unrestricted :: "string \<Rightarrow> string list \<Rightarrow> sandbox_command_plan" where
  "plan_unrestricted program args =
     (plan_of program args UnrestrictedCommand)"

definition unavailable_backend ::
    "os_sandbox_platform \<Rightarrow> string \<Rightarrow> string \<Rightarrow> string list \<Rightarrow> local_sandbox_config
      \<Rightarrow> sandbox_error + sandbox_command_plan" where
  "unavailable_backend platform reason program args c =
     (if is_enforced c then Inl (BackendUnavailable reason)
      else Inr (plan_of program args (BestEffortPassthrough platform reason)))"

definition build_unsupported_sandbox_command ::
    "os_sandbox_platform \<Rightarrow> string \<Rightarrow> string list \<Rightarrow> local_sandbox_config
      \<Rightarrow> sandbox_error + sandbox_command_plan" where
  "build_unsupported_sandbox_command platform program args c =
     (let reason = ''OS-level local sandboxing is unsupported on platform '' @ [CHR 0x27]
                     @ platform_str platform @ [CHR 0x27] @ ''.''
      in case lc_mode c of
           OsDisabled \<Rightarrow> Inr (plan_disabled program args)
         | OsBestEffort \<Rightarrow>
             Inr (plan_of program args (BestEffortPassthrough platform reason))
         | OsEnforce \<Rightarrow> Inl (UnsupportedPlatform reason))"

definition first_existing_executable :: "filesystem \<Rightarrow> path list \<Rightarrow> path option" where
  "first_existing_executable fs candidates = find (fs_is_file fs) candidates"

definition bind_args :: "string \<Rightarrow> path \<Rightarrow> string list" where
  "bind_args flag p = [flag, path_to_string p, path_to_string p]"

definition bubblewrap_args ::
    "filesystem \<Rightarrow> string \<Rightarrow> string list \<Rightarrow> path \<Rightarrow> path \<Rightarrow> local_sandbox_config \<Rightarrow> string list" where
  \<comment> \<open>\<open>workspace_root\<close> and \<open>cwd\<close> are absolute here\<close>
  "bubblewrap_args fs program original_args cwd workspace_root c =
     [''--die-with-parent'', ''--unshare-pid'', ''--unshare-ipc'', ''--unshare-uts'',
      ''--ro-bind'', ''/'', ''/'', ''--proc'', ''/proc'', ''--dev'', ''/dev'', ''--tmpfs'', ''/tmp'']
     @ (if lc_network c = NetDeny then [''--unshare-net''] else [])
     @ concat (map (\<lambda>p. bind_args ''--bind'' (absolute_path fs p))
         (effective_writable_roots fs c workspace_root))
     @ concat (map (\<lambda>p. bind_args ''--ro-bind'' (absolute_path fs p))
         (filter (fs_exists fs) (protected_paths fs workspace_root c)))
     @ [''--chdir'', path_to_string cwd, ''--'', program] @ original_args"

definition build_bubblewrap_command ::
    "filesystem \<Rightarrow> os_sandbox_platform \<Rightarrow> string \<Rightarrow> string list \<Rightarrow> path \<Rightarrow> path \<Rightarrow> local_sandbox_config
      \<Rightarrow> sandbox_error + sandbox_command_plan" where
  "build_bubblewrap_command fs host program original_args cwd workspace_root c =
     (case (if host = Linux
            then first_existing_executable fs
                   [path_of_string ''/usr/bin/bwrap'', path_of_string ''/bin/bwrap'']
            else Some (path_of_string ''/usr/bin/bwrap'')) of
        None \<Rightarrow>
          unavailable_backend Linux ''bubblewrap was not found at /usr/bin/bwrap or /bin/bwrap''
            program original_args c
      | Some backend \<Rightarrow>
          Inr (plan_of (path_to_string backend)
                 (bubblewrap_args fs program original_args (absolute_path fs cwd)
                    (absolute_path fs workspace_root) c)
                 (Wrapped Linux ''bubblewrap'')))"

definition seatbelt_escape :: "path \<Rightarrow> string" where
  "seatbelt_escape p =
     replace_str (replace_str (path_to_string p) [CHR 0x5C] [CHR 0x5C, CHR 0x5C])
       [CHR 0x22] [CHR 0x5C, CHR 0x22]"

definition seatbelt_subpath :: "path \<Rightarrow> string" where
  "seatbelt_subpath p = ''(subpath '' @ [CHR 0x22] @ seatbelt_escape p @ [CHR 0x22] @ '')''"

definition seatbelt_profile :: "filesystem \<Rightarrow> path \<Rightarrow> local_sandbox_config \<Rightarrow> string" where
  "seatbelt_profile fs workspace_root0 c =
     (let workspace_root = absolute_path fs workspace_root0;
          writes =
            (if lc_sandbox_mode c = SandboxWorkspaceWrite then
               [''(allow file-write*'']
               @ map (\<lambda>p. ''  '' @ seatbelt_subpath (absolute_path fs p))
                   (effective_writable_roots fs c workspace_root)
               @ [''  '' @ seatbelt_subpath (path_of_string ''/tmp''),
                  ''  '' @ seatbelt_subpath (path_of_string ''/private/tmp''), '')'']
               @ map (\<lambda>p. ''(deny file-write* '' @ seatbelt_subpath (absolute_path fs p) @ '')'')
                   (protected_paths fs workspace_root c)
             else []);
          network = (if lc_network c = NetAllow \<or> lc_network c = NetInherit
                     then [''(allow network*)''] else [])
      in join_str [CHR 0x0A]
           ([''(version 1)'', ''(deny default)'', ''(allow process*)'',
             ''(allow signal (target self))'', ''(allow sysctl-read)'',
             ''(allow file-read-metadata)'', ''(allow file-read*)''] @ writes @ network))"

definition build_sandbox_exec_command ::
    "filesystem \<Rightarrow> os_sandbox_platform \<Rightarrow> string \<Rightarrow> string list \<Rightarrow> path \<Rightarrow> local_sandbox_config
      \<Rightarrow> sandbox_error + sandbox_command_plan" where
  "build_sandbox_exec_command fs host program original_args workspace_root c =
     (let backend = path_of_string ''/usr/bin/sandbox-exec'' in
        if host = Macos \<and> \<not> fs_is_file fs backend then
          unavailable_backend Macos ''/usr/bin/sandbox-exec is unavailable'' program original_args c
        else
          Inr (plan_of (path_to_string backend)
                 ([''-p'', seatbelt_profile fs workspace_root c, program] @ original_args)
                 (Wrapped Macos ''seatbelt'')))"

definition build_local_sandbox_command ::
    "filesystem \<Rightarrow> os_sandbox_platform \<Rightarrow> (sandbox_error + sandbox_command_plan)
      \<Rightarrow> os_sandbox_platform \<Rightarrow> string \<Rightarrow> string list \<Rightarrow> path \<Rightarrow> path \<Rightarrow> local_sandbox_config
      \<Rightarrow> sandbox_error + sandbox_command_plan" where
  "build_local_sandbox_command fs host windows_plan platform program args cwd workspace_root c =
     (if lc_sandbox_mode c = SandboxDangerFullAccess then Inr (plan_unrestricted program args)
      else if \<not> is_enabled c then Inr (plan_disabled program args)
      else
        (case platform of
           Linux \<Rightarrow> build_bubblewrap_command fs host program args cwd workspace_root c
         | Macos \<Rightarrow> build_sandbox_exec_command fs host program args workspace_root c
         | Windows \<Rightarrow> windows_plan
         | Unsupported \<Rightarrow> build_unsupported_sandbox_command platform program args c))"

section \<open>What a command line mounts\<close>

text \<open>The positional reading of the options of \<open>bwrap\<close>: the mounts in the order in which they are made,
  up to the separator of the confined command.\<close>

datatype mount_op = MountReadOnly string string | MountWritable string string

fun mounts_of :: "string list \<Rightarrow> mount_op list" where
  "mounts_of [] = []"
| "mounts_of (flag # rest) =
     (if flag = ''--'' then []
      else if flag = ''--ro-bind'' then
        (case rest of src # dst # rest' \<Rightarrow> MountReadOnly src dst # mounts_of rest' | _ \<Rightarrow> [])
      else if flag = ''--bind'' then
        (case rest of src # dst # rest' \<Rightarrow> MountWritable src dst # mounts_of rest' | _ \<Rightarrow> [])
      else if flag \<in> {''--proc'', ''--dev'', ''--tmpfs'', ''--chdir''} then
        (case rest of _ # rest' \<Rightarrow> mounts_of rest' | _ \<Rightarrow> [])
      else mounts_of rest)"

lemma mounts_of_bind:
  "mounts_of (concat (map (\<lambda>p. bind_args ''--bind'' (f p)) ps) @ rest) =
     map (\<lambda>p. MountWritable (path_to_string (f p)) (path_to_string (f p))) ps @ mounts_of rest"
  by (induction ps) (simp_all add: bind_args_def)

lemma mounts_of_ro_bind:
  "mounts_of (concat (map (\<lambda>p. bind_args ''--ro-bind'' (f p)) ps) @ rest) =
     map (\<lambda>p. MountReadOnly (path_to_string (f p)) (path_to_string (f p))) ps @ mounts_of rest"
  by (induction ps) (simp_all add: bind_args_def)

section \<open>Properties\<close>


definition example_fs :: filesystem where
  \<comment> \<open>a file system in which every path is its own canonical form and every file exists\<close>
  "example_fs = \<lparr>fs_canonicalize = Some, fs_is_dir = (\<lambda>_. True), fs_is_file = (\<lambda>_. True),
     fs_exists = (\<lambda>_. True), fs_current_dir = Some [RootDir]\<rparr>"


text \<open>
  The mounts of a confined Linux command.  Read option by option, the command line mounts the host
  root read-only first, then makes exactly the effective writable roots writable, and only after that
  mounts the existing protected metadata paths read-only again; in read-only mode nothing is mounted
  writable.  What follows the separator is the program with its arguments, unchanged.
\<close>
theorem bubblewrap_mounts:
  "mounts_of (bubblewrap_args fs program args cwd workspace_root c) =
      MountReadOnly ''/'' ''/''
      # map (\<lambda>p. MountWritable (path_to_string (absolute_path fs p)) (path_to_string (absolute_path fs p)))
          (effective_writable_roots fs c workspace_root)
      @ map (\<lambda>p. MountReadOnly (path_to_string (absolute_path fs p)) (path_to_string (absolute_path fs p)))
          (filter (fs_exists fs) (protected_paths fs workspace_root c))
    \<and> (lc_sandbox_mode c = SandboxReadOnly \<longrightarrow> effective_writable_roots fs c workspace_root = [])
    \<and> (\<exists>options. bubblewrap_args fs program args cwd workspace_root c
          = options @ ''--'' # program # args)"
  by (simp add: bubblewrap_args_def mounts_of_bind mounts_of_ro_bind effective_writable_roots_def)

lemma bubblewrap_mounts_witness:
  "mounts_of (bubblewrap_args example_fs ''ls'' [] [RootDir] [RootDir, Normal ''w'']
      (enforce\<lparr>lc_sandbox_mode := SandboxReadOnly\<rparr>))
    = [MountReadOnly ''/'' ''/'', MountReadOnly ''/w'' ''/w'']"
  using bubblewrap_mounts [of example_fs "''ls''" "[]" "[RootDir]" "[RootDir, Normal ''w'']"
      "enforce\<lparr>lc_sandbox_mode := SandboxReadOnly\<rparr>"]
  by (simp add: protected_paths_def effective_writable_roots_def is_absolute_def
      path_to_string_def example_fs_def)

text \<open>
  C37: An unknown sandbox mode fails closed.  When \<open>OPENTOPIA_SANDBOX_MODE\<close> holds a value that is none of
  the six known ones and no enforcement override is set, the configuration is read-only and enforced,
  and the network is denied unless it is explicitly configured.
\<close>
theorem unknown_mode_fails_closed:
  assumes "env ''OPENTOPIA_SANDBOX_MODE'' = Some value"
    and "replace_str (to_ascii_lowercase value) ''_'' ''-'' \<notin>
      {''enforce'', ''strict'', ''best-effort'', ''disabled'', ''read-only'', ''workspace-write'',
       ''danger-full-access''}"
    and "Option.bind (env ''OPENTOPIA_SANDBOX_ENFORCEMENT'') parse_enforcement_mode = None"
  shows "lc_sandbox_mode (from_env env) = SandboxReadOnly \<and> is_enforced (from_env env)
    \<and> (env ''OPENTOPIA_SANDBOX_NETWORK'' = None \<longrightarrow> lc_network (from_env env) = NetDeny)
    \<and> effective_writable_roots fs (from_env env) workspace_root = []"
proof -
  have "env_mode_table (replace_str (to_ascii_lowercase value) ''_'' ''-'')
      = (Some OsEnforce, SandboxReadOnly)"
    using assms(2) by (simp add: env_mode_table_def)
  then show ?thesis
    using assms(1,3)
    by (simp add: from_env_def Let_def env_or_def is_enforced_def effective_writable_roots_def
        to_ascii_lowercase_def ascii_lower_def)
qed

lemma unknown_mode_fails_closed_witness:
  "lc_sandbox_mode (from_env [''OPENTOPIA_SANDBOX_MODE'' \<mapsto> ''yolo'']) = SandboxReadOnly
    \<and> is_enforced (from_env [''OPENTOPIA_SANDBOX_MODE'' \<mapsto> ''yolo''])
    \<and> lc_network (from_env [''OPENTOPIA_SANDBOX_MODE'' \<mapsto> ''yolo'']) = NetDeny"
proof -
  let ?env = "[''OPENTOPIA_SANDBOX_MODE'' \<mapsto> ''yolo'']"
  have "replace_str (to_ascii_lowercase ''yolo'') ''_'' ''-'' = ''yolo''" by code_simp
  then show ?thesis
    using unknown_mode_fails_closed [of ?env "''yolo''" example_fs "[RootDir]"] by simp
qed

end
