(* ===== verification/Execution_Grant.thy ===== *)
theory Execution_Grant
  imports Sandbox
begin

text \<open>
  The authority of one tool call (\<open>execution_authorization.rs\<close>): the intent a tool declares and
  \<open>ExecutionGrant::resolve\<close>, which turns the session's sandbox into the sandbox of the call.

  The properties say that without an approval a call never gets more than the session has, that the
  writes it gets beyond the session's roots are exact paths it asked for, and when resolution fails.
\<close>

section \<open>Data\<close>

datatype filesystem_access = FsNone | FsReadWorkspace | FsWriteWorkspace | FsInheritSession

datatype network_access = NetPreferDeny | NetAccessDeny | NetInheritSession | NetRequired

datatype process_lifetime = NoProcess | OneShot | BackgroundLifetime | PersistentService

datatype approval_escalation = NoEscalation | ExactPaths | CommandScopedHostAccess

record tool_execution_intent =
  ti_filesystem :: filesystem_access
  ti_network :: network_access
  ti_process_lifetime :: process_lifetime
  ti_approval_escalation :: approval_escalation
  ti_requested_read_paths :: "path list"
  ti_requested_write_paths :: "path list"

definition does_not_require_network :: "network_access \<Rightarrow> bool" where
  "does_not_require_network n \<longleftrightarrow> n = NetPreferDeny \<or> n = NetAccessDeny"

definition observation :: "path list \<Rightarrow> tool_execution_intent" where
  "observation read_paths =
     \<lparr>ti_filesystem = FsReadWorkspace, ti_network = NetPreferDeny, ti_process_lifetime = NoProcess,
      ti_approval_escalation = ExactPaths, ti_requested_read_paths = read_paths,
      ti_requested_write_paths = []\<rparr>"

definition workspace_mutation :: "path list \<Rightarrow> tool_execution_intent" where
  "workspace_mutation write_paths =
     \<lparr>ti_filesystem = FsWriteWorkspace, ti_network = NetPreferDeny, ti_process_lifetime = NoProcess,
      ti_approval_escalation = ExactPaths, ti_requested_read_paths = [],
      ti_requested_write_paths = write_paths\<rparr>"

definition session_process :: "process_lifetime \<Rightarrow> tool_execution_intent" where
  "session_process lifetime =
     \<lparr>ti_filesystem = FsInheritSession, ti_network = NetInheritSession,
      ti_process_lifetime = lifetime, ti_approval_escalation = CommandScopedHostAccess,
      ti_requested_read_paths = [], ti_requested_write_paths = []\<rparr>"

definition external :: tool_execution_intent where
  "external =
     \<lparr>ti_filesystem = FsNone, ti_network = NetInheritSession, ti_process_lifetime = NoProcess,
      ti_approval_escalation = NoEscalation, ti_requested_read_paths = [],
      ti_requested_write_paths = []\<rparr>"

definition with_read_paths :: "path list \<Rightarrow> tool_execution_intent \<Rightarrow> tool_execution_intent" where
  "with_read_paths ps i = i\<lparr>ti_requested_read_paths := ti_requested_read_paths i @ ps\<rparr>"

definition with_write_paths :: "path list \<Rightarrow> tool_execution_intent \<Rightarrow> tool_execution_intent" where
  "with_write_paths ps i = i\<lparr>ti_requested_write_paths := ti_requested_write_paths i @ ps\<rparr>"

record execution_grant =
  eg_sandbox :: local_sandbox_config
  eg_process_lifetime :: process_lifetime

datatype grant_error = PathContainsParentDir path

section \<open>Resolution\<close>

definition resolve_requested_path :: "path \<Rightarrow> path \<Rightarrow> grant_error + path" where
  "resolve_requested_path workspace_root p =
     res_ensure (\<not> has_parent_dir p) (PathContainsParentDir p)
       (Inr (if is_absolute p then p else path_join workspace_root p))"

fun resolve_requested_paths :: "path \<Rightarrow> path list \<Rightarrow> grant_error + path list" where
  "resolve_requested_paths workspace_root [] = Inr []"
| "resolve_requested_paths workspace_root (p # ps) =
     res_bind (resolve_requested_path workspace_root p) (\<lambda>q.
       res_bind (resolve_requested_paths workspace_root ps) (\<lambda>qs. Inr (q # qs)))"

definition call_sandbox :: "local_sandbox_config \<Rightarrow> filesystem_access \<Rightarrow> local_sandbox_config" where
  "call_sandbox base filesystem =
     (case filesystem of
        FsNone \<Rightarrow> with_sandbox_mode SandboxReadOnly base
      | FsReadWorkspace \<Rightarrow> with_sandbox_mode SandboxReadOnly base
      | FsWriteWorkspace \<Rightarrow>
          (case lc_sandbox_mode base of
             SandboxReadOnly \<Rightarrow> with_sandbox_mode SandboxReadOnly base
           | _ \<Rightarrow> with_sandbox_mode SandboxWorkspaceWrite base)
      | FsInheritSession \<Rightarrow> base)"

definition call_network :: "local_sandbox_config \<Rightarrow> network_access \<Rightarrow> bool \<Rightarrow> bool \<Rightarrow> network_policy" where
  "call_network base network approval_granted offline =
     (case network of
        NetPreferDeny \<Rightarrow> if offline then NetDeny else lc_network base
      | NetAccessDeny \<Rightarrow> NetDeny
      | NetInheritSession \<Rightarrow> lc_network base
      | NetRequired \<Rightarrow> if approval_granted then NetAllow else lc_network base)"

definition resolve_with_capabilities ::
    "filesystem \<Rightarrow> local_sandbox_config \<Rightarrow> path \<Rightarrow> tool_execution_intent \<Rightarrow> bool
      \<Rightarrow> sandbox_backend_capabilities \<Rightarrow> grant_error + execution_grant" where
  "resolve_with_capabilities fs base workspace_root intent approval_granted capabilities =
     (let sandbox0 = (call_sandbox base (ti_filesystem intent))
            \<lparr>lc_network := call_network base (ti_network intent) approval_granted
               (network_offline capabilities)\<rparr>
      in
      res_bind (resolve_requested_paths workspace_root (ti_requested_read_paths intent)) (\<lambda>read_paths.
      res_bind (resolve_requested_paths workspace_root (ti_requested_write_paths intent)) (\<lambda>write_paths.
        (let leased = filter (is_within_approved_write_scope fs base) write_paths;
             sandbox1 = sandbox0\<lparr>lc_approved_read_paths := [], lc_approved_write_paths := []\<rparr>;
             sandbox2 = fold (grant_read_path fs) read_paths sandbox1;
             sandbox3 = (if ti_approval_escalation intent = ExactPaths
                         then fold (grant_write_path fs) leased sandbox2 else sandbox2);
             sandbox4 =
               (case ti_approval_escalation intent of
                  ExactPaths \<Rightarrow>
                    if approval_granted \<or> lc_sandbox_mode base = SandboxDangerFullAccess
                    then fold (grant_write_path fs) write_paths sandbox3 else sandbox3
                | CommandScopedHostAccess \<Rightarrow>
                    if approval_granted then danger_full_access else sandbox3
                | NoEscalation \<Rightarrow> sandbox3)
         in Inr \<lparr>eg_sandbox = sandbox4, eg_process_lifetime = ti_process_lifetime intent\<rparr>))))"

definition resolve ::
    "filesystem \<Rightarrow> os_sandbox_platform \<Rightarrow> local_sandbox_config \<Rightarrow> path \<Rightarrow> tool_execution_intent \<Rightarrow> bool
      \<Rightarrow> grant_error + execution_grant" where
  "resolve fs host base workspace_root intent approval_granted =
     resolve_with_capabilities fs base workspace_root intent approval_granted
       (for_platform host (effective_windows_backend base))"

section \<open>Lemmas\<close>

text \<open>Granting paths changes nothing but the approved paths.\<close>

definition same_boundary :: "local_sandbox_config \<Rightarrow> local_sandbox_config \<Rightarrow> bool" where
  "same_boundary a b \<longleftrightarrow>
     lc_sandbox_mode a = lc_sandbox_mode b \<and> lc_network a = lc_network b
     \<and> lc_enabled a = lc_enabled b \<and> lc_mode a = lc_mode b
     \<and> lc_write_paths a = lc_write_paths b \<and> lc_writable_roots a = lc_writable_roots b"

lemma fold_grant_read [simp]:
  "same_boundary (fold (grant_read_path fs) ps c) c"
  "lc_approved_write_paths (fold (grant_read_path fs) ps c) = lc_approved_write_paths c"
  by (induction ps arbitrary: c) (auto simp: same_boundary_def grant_read_path_def)

lemma fold_grant_write [simp]: "same_boundary (fold (grant_write_path fs) ps c) c"
  by (induction ps arbitrary: c) (auto simp: same_boundary_def grant_write_path_def)

lemma fold_grant_write_subset:
  "q \<in> set (lc_approved_write_paths (fold (grant_write_path fs) ps c)) \<Longrightarrow>
     q \<in> set (lc_approved_write_paths c) \<or> q \<in> set ps"
proof (induction ps arbitrary: c)
  case (Cons p ps)
  then have "q \<in> set (lc_approved_write_paths (grant_write_path fs p c)) \<or> q \<in> set ps" by simp
  then show ?case by (auto simp: grant_write_path_def split: if_splits)
qed simp

lemmas grant_fields = fold_grant_read(1) [unfolded same_boundary_def]
  fold_grant_write [unfolded same_boundary_def]

lemma fold_grant_writes_cover:
  "p \<in> set ps \<Longrightarrow>
     list_ex (paths_equal fs p) (lc_approved_write_paths (fold (grant_write_path fs) ps c))"
proof (induction ps arbitrary: c)
  case (Cons q ps)
  have keep: "list_ex (paths_equal fs p) (lc_approved_write_paths d) \<Longrightarrow>
      list_ex (paths_equal fs p) (lc_approved_write_paths (fold (grant_write_path fs) qs d))" for qs d
    by (induction qs arbitrary: d) (auto simp: grant_write_path_def)
  show ?case
  proof (cases "p = q")
    case True
    have "list_ex (paths_equal fs p) (lc_approved_write_paths (grant_write_path fs p c))"
      by (auto simp: grant_write_path_def paths_equal_def)
    with True keep show ?thesis by simp
  next
    case False
    with Cons show ?thesis by simp
  qed
qed simp

lemma call_sandbox_attenuates:
  "is_attenuation_of (lc_sandbox_mode (call_sandbox base a)) (lc_sandbox_mode base)"
  "lc_write_paths (call_sandbox base a) = lc_write_paths base"
  "lc_writable_roots (call_sandbox base a) = lc_writable_roots base"
  by (cases a; cases "lc_sandbox_mode base";
      simp add: call_sandbox_def with_sandbox_mode_def is_attenuation_of_def Let_def)+

lemma resolve_requested_paths_Inr:
  "resolve_requested_paths root ps = Inr qs \<longleftrightarrow>
     list_all (\<lambda>p. \<not> has_parent_dir p) ps
     \<and> qs = map (\<lambda>p. if is_absolute p then p else path_join root p) ps"
  by (induction ps arbitrary: qs) (auto simp: resolve_requested_path_def res_Inr_iffs)

lemma resolved_grant:
  assumes "resolve_with_capabilities fs base root intent approved caps = Inr g"
    and "\<not> (approved \<and> ti_approval_escalation intent = CommandScopedHostAccess)"
  shows "lc_sandbox_mode (eg_sandbox g) = lc_sandbox_mode (call_sandbox base (ti_filesystem intent))
    \<and> lc_network (eg_sandbox g)
        = call_network base (ti_network intent) approved (network_offline caps)
    \<and> lc_write_paths (eg_sandbox g) = lc_write_paths base
    \<and> lc_writable_roots (eg_sandbox g) = lc_writable_roots base"
  using assms
  by (cases "ti_approval_escalation intent")
     (auto simp: resolve_with_capabilities_def Let_def res_Inr_iffs grant_fields
        call_sandbox_attenuates(2,3))

lemma resolved_approved_writes:
  assumes "resolve_with_capabilities fs base root intent approved caps = Inr g"
  shows "set (lc_approved_write_paths (eg_sandbox g)) \<subseteq>
    {q. q \<in> (\<lambda>p. if is_absolute p then p else path_join root p) ` set (ti_requested_write_paths intent)
      \<and> (approved \<or> lc_sandbox_mode base = SandboxDangerFullAccess
         \<or> is_within_approved_write_scope fs base q)}"
  using assms
  by (cases "ti_approval_escalation intent")
     (auto simp: resolve_with_capabilities_def Let_def res_Inr_iffs resolve_requested_paths_Inr
        danger_full_access_def sandbox_default_def
       split: if_splits
       dest!: fold_grant_write_subset)

section \<open>Properties\<close>


definition example_lease :: local_sandbox_config where
  \<comment> \<open>an enforced session with one approved write path outside its workspace\<close>
  "example_lease = enforce\<lparr>lc_approved_write_paths := [[RootDir, Normal ''x'', Normal ''a'']]\<rparr>"


text \<open>
  Full host access needs an approval and a command-scoped intent.  If the grant of a call has the
  full-access sandbox although the session has not, then the call was approved and its intent declares
  command-scoped host access; in that case the sandbox is exactly the full-access preset.
\<close>
theorem full_access_needs_approval:
  assumes "resolve fs host base workspace_root intent approved = Inr g"
    and "lc_sandbox_mode (eg_sandbox g) = SandboxDangerFullAccess"
    and "lc_sandbox_mode base \<noteq> SandboxDangerFullAccess"
  shows "approved \<and> ti_approval_escalation intent = CommandScopedHostAccess
    \<and> eg_sandbox g = danger_full_access"
proof -
  have res: "resolve_with_capabilities fs base workspace_root intent approved
      (for_platform host (effective_windows_backend base)) = Inr g"
    using assms(1) by (simp add: resolve_def)
  have "approved \<and> ti_approval_escalation intent = CommandScopedHostAccess"
  proof (rule ccontr)
    assume "\<not> ?thesis"
    with resolved_grant [OF res] call_sandbox_attenuates(1) [of base "ti_filesystem intent"] assms
    show False by (cases "lc_sandbox_mode base") (auto simp: is_attenuation_of_def)
  qed
  with res show ?thesis
    by (auto simp: resolve_with_capabilities_def Let_def res_Inr_iffs)
qed

lemma full_access_needs_approval_witness:
  "\<exists>g. resolve example_fs Linux enforce [RootDir] (session_process OneShot) True = Inr g
    \<and> eg_sandbox g = danger_full_access"
proof -
  let ?r = "resolve example_fs Linux enforce [RootDir] (session_process OneShot) True"
  obtain g where g: "?r = Inr g" "lc_sandbox_mode (eg_sandbox g) = SandboxDangerFullAccess"
    by (simp add: resolve_def resolve_with_capabilities_def session_process_def
        danger_full_access_def)
  from full_access_needs_approval [OF g] g(1) show ?thesis
    by (simp add: enforce_def sandbox_default_def)
qed

text \<open>
  Resolution fails exactly when a requested read or write path contains a parent-directory
  component; every other intent gets a grant.
\<close>
theorem resolve_fails_iff_parent_dir:
  "(\<exists>e. resolve fs host base workspace_root intent approved = Inl e) \<longleftrightarrow>
     list_ex has_parent_dir (ti_requested_read_paths intent @ ti_requested_write_paths intent)"
proof -
  have ok: "(\<exists>qs. resolve_requested_paths root ps = Inr qs) \<longleftrightarrow> \<not> list_ex has_parent_dir ps" for root ps
    by (auto simp: resolve_requested_paths_Inr list_all_iff list_ex_iff)
  have bind: "(\<exists>e. res_bind r f = Inl e) \<longleftrightarrow> (\<nexists>x. r = Inr x) \<or> (\<exists>x e. r = Inr x \<and> f x = Inl e)"
    for r :: "grant_error + path list" and f :: "path list \<Rightarrow> grant_error + execution_grant"
    by (cases r) auto
  show ?thesis
    unfolding resolve_def resolve_with_capabilities_def Let_def
    by (auto simp: bind ok [of workspace_root])
qed

end
