(* ===== verification/Policy.thy ===== *)
theory Policy
  imports Json Shell_Safety Execution_Grant
begin

text \<open>
  The permission policy (\<open>policy.rs\<close>): the six permission modes, how decisions combine, the command
  rules, and the \<open>BasicPolicyEngine\<close> that decides about reads, writes, shell commands, MCP tools and the
  network.

  The trait \<open>PolicyEngine\<close> is the locale \<open>policy_engine\<close>; its provided method
  \<open>inspect_execution_intent\<close> is a function of the methods it calls, and the lemmas about it are proved
  in the locale and obtained for \<open>BasicPolicyEngine\<close> by interpretation.
\<close>

section \<open>Modes and decisions\<close>

datatype permission_mode = Chat | ReadOnly | Auto | Approve | FullAccess | Unrestricted

datatype approval_policy = OnRequest | Never

datatype approvals_reviewer = User | AutoReview

datatype policy_decision = Allow | Deny string | Ask string

fun mode_approval_policy :: "permission_mode \<Rightarrow> approval_policy" where
  "mode_approval_policy Auto = OnRequest"
| "mode_approval_policy Approve = OnRequest"
| "mode_approval_policy FullAccess = OnRequest"
| "mode_approval_policy Chat = Never"
| "mode_approval_policy ReadOnly = Never"
| "mode_approval_policy Unrestricted = Never"

fun mode_approvals_reviewer :: "permission_mode \<Rightarrow> approvals_reviewer" where
  "mode_approvals_reviewer Auto = AutoReview"
| "mode_approvals_reviewer _ = User"

fun resolve_policy_decision :: "permission_mode \<Rightarrow> policy_decision \<Rightarrow> policy_decision" where
  "resolve_policy_decision Unrestricted (Ask reason) = Allow"
| "resolve_policy_decision mode decision = decision"

definition permission_mode_from_str :: "string \<Rightarrow> string + permission_mode" where
  "permission_mode_from_str value =
     (let v = to_ascii_lowercase value in
        if v = ''chat'' then Inr Chat
        else if v \<in> {''readonly'', ''read_only'', ''read-only''} then Inr ReadOnly
        else if v = ''auto'' then Inr Auto
        else if v = ''approve'' then Inr Approve
        else if v \<in> {''fullaccess'', ''full_access'', ''full-access''} then Inr FullAccess
        else if v \<in> {''unrestricted'', ''no_approvals'', ''no-approvals''} then Inr Unrestricted
        else Inl (''unknown permission mode: '' @ v))"

text \<open>\<open>combine\<close>: \<open>asks\<close> are the reasons collected so far.\<close>

fun combine_from :: "string list \<Rightarrow> policy_decision list \<Rightarrow> policy_decision" where
  "combine_from asks [] = (if asks = [] then Allow else Ask (join_str ''; '' asks))"
| "combine_from asks (decision # rest) =
     (case decision of
        Deny reason \<Rightarrow> Deny reason
      | Ask reason \<Rightarrow> combine_from (if reason \<in> set asks then asks else asks @ [reason]) rest
      | Allow \<Rightarrow> combine_from asks rest)"

definition combine :: "policy_decision list \<Rightarrow> policy_decision" where
  "combine decisions = combine_from [] decisions"

section \<open>Rules and configuration\<close>

datatype policy_rule_effect = EffectAllow | EffectAsk | EffectDeny

fun to_decision :: "policy_rule_effect \<Rightarrow> string \<Rightarrow> policy_decision" where
  "to_decision EffectAllow reason = Allow"
| "to_decision EffectAsk reason = Ask reason"
| "to_decision EffectDeny reason = Deny reason"

datatype command_rule_match = Prefix | Contains

record command_policy_rule =
  cr_pattern :: string
  cr_match_kind :: command_rule_match
  cr_effect :: policy_rule_effect
  cr_reason :: string
  cr_case_sensitive :: bool

definition rule_prefix :: "string \<Rightarrow> policy_rule_effect \<Rightarrow> string \<Rightarrow> command_policy_rule" where
  "rule_prefix pattern effect reason =
     \<lparr>cr_pattern = pattern, cr_match_kind = Prefix, cr_effect = effect, cr_reason = reason,
      cr_case_sensitive = False\<rparr>"

definition rule_contains :: "string \<Rightarrow> policy_rule_effect \<Rightarrow> string \<Rightarrow> command_policy_rule" where
  "rule_contains pattern effect reason =
     \<lparr>cr_pattern = pattern, cr_match_kind = Contains, cr_effect = effect, cr_reason = reason,
      cr_case_sensitive = False\<rparr>"

definition rule_matches :: "command_policy_rule \<Rightarrow> string \<Rightarrow> bool" where
  "rule_matches rule command \<longleftrightarrow>
     (let (command', pattern) =
            (if cr_case_sensitive rule then (command, cr_pattern rule)
             else (to_ascii_lowercase command, to_ascii_lowercase (cr_pattern rule)))
      in case cr_match_kind rule of
           Prefix \<Rightarrow> starts_with (trim_start command') pattern
         | Contains \<Rightarrow> contains_str command' pattern)"

definition rule_decision :: "command_policy_rule \<Rightarrow> string \<Rightarrow> policy_decision" where
  "rule_decision rule command =
     to_decision (cr_effect rule) (replace_str (cr_reason rule) ''{command}'' command)"

record network_policy_config =
  np_default_effect :: policy_rule_effect
  np_allowed_hosts :: "string list"

record policy_config =
  pc_command_rules :: "command_policy_rule list"
  pc_network :: network_policy_config

definition network_policy_default :: network_policy_config where
  "network_policy_default = \<lparr>np_default_effect = EffectAsk, np_allowed_hosts = []\<rparr>"

definition policy_config_default :: policy_config where
  "policy_config_default =
     (let destructive_reason = ''Potentially destructive command: {command}'' in
        \<lparr>pc_command_rules =
           [rule_contains ''rm -rf'' EffectAsk destructive_reason,
            rule_contains ''del /s'' EffectAsk destructive_reason,
            rule_contains ''format '' EffectAsk destructive_reason,
            rule_contains ''git reset --hard'' EffectAsk destructive_reason,
            rule_contains ''sudo '' EffectAsk destructive_reason],
         pc_network = network_policy_default\<rparr>)"

section \<open>MCP tool descriptors\<close>

record tool_permission_descriptor =
  td_source :: string
  td_name :: string
  td_permission_labels :: "string list"
  td_annotations :: json

definition descriptor_new ::
    "string \<Rightarrow> string \<Rightarrow> string list \<Rightarrow> json \<Rightarrow> tool_permission_descriptor" where
  "descriptor_new source name labels annotations =
     \<lparr>td_source = source, td_name = name,
      td_permission_labels =
        filter (\<lambda>l. l \<noteq> []) (map (\<lambda>l. to_ascii_lowercase (trim l)) labels),
      td_annotations = annotations\<rparr>"

definition has_label :: "tool_permission_descriptor \<Rightarrow> string list \<Rightarrow> bool" where
  "has_label d candidates \<longleftrightarrow>
     list_ex (\<lambda>label. list_ex (eq_ignore_ascii_case label) candidates) (td_permission_labels d)"

definition annotation_bool :: "tool_permission_descriptor \<Rightarrow> string \<Rightarrow> bool" where
  "annotation_bool d key \<longleftrightarrow>
     (case Option.bind (json_get (td_annotations d) key) as_bool of Some b \<Rightarrow> b | None \<Rightarrow> False)"

definition labels_display :: "tool_permission_descriptor \<Rightarrow> string" where
  "labels_display d =
     (if td_permission_labels d = [] then ''unknown'' else join_str '', '' (td_permission_labels d))"

datatype mcp_tool_risk =
  RiskReadOnly | RiskWrite | RiskNetwork | RiskSecret | RiskDestructive | RiskUnknown

fun risk_str :: "mcp_tool_risk \<Rightarrow> string" where
  "risk_str RiskReadOnly = ''read-only''"
| "risk_str RiskWrite = ''write''"
| "risk_str RiskNetwork = ''network''"
| "risk_str RiskSecret = ''secret''"
| "risk_str RiskDestructive = ''destructive''"
| "risk_str RiskUnknown = ''unknown''"

definition classify_mcp_tool :: "tool_permission_descriptor \<Rightarrow> mcp_tool_risk" where
  "classify_mcp_tool d =
     (let has_read = has_label d [''read'', ''readonly'', ''read_only'']
                       \<or> annotation_bool d ''readOnlyHint'';
          has_write = has_label d [''write'', ''modify'', ''mutation''];
          has_network = has_label d [''network'', ''open_world'', ''openworld'']
                          \<or> annotation_bool d ''openWorldHint'';
          has_secret = has_label d [''secret'', ''secrets'', ''credential'', ''credentials''];
          has_destructive = has_label d [''destructive'', ''delete'', ''dangerous'']
                              \<or> annotation_bool d ''destructiveHint'';
          explicit_unknown = has_label d [''unknown'']
      in if has_destructive then RiskDestructive
         else if has_secret then RiskSecret
         else if has_network then RiskNetwork
         else if has_write then RiskWrite
         else if has_read \<and> \<not> explicit_unknown then RiskReadOnly
         else RiskUnknown)"

definition mcp_approval_reason :: "tool_permission_descriptor \<Rightarrow> mcp_tool_risk \<Rightarrow> string" where
  "mcp_approval_reason d risk =
     ''MCP tool requires approval: '' @ td_name d @ '' ('' @ risk_str risk @ '') ['' @ labels_display d
     @ '']''"

section \<open>The basic policy engine\<close>

record basic_policy_engine =
  pe_workspace_root :: path
  pe_writable_roots :: "path list"
  pe_approved_write_paths :: "path list"
  pe_unrestricted_file_access :: bool
  pe_mode :: permission_mode
  pe_config :: policy_config

definition new_with_config_and_sandbox ::
    "filesystem \<Rightarrow> path \<Rightarrow> permission_mode \<Rightarrow> policy_config \<Rightarrow> local_sandbox_config
      \<Rightarrow> basic_policy_engine" where
  "new_with_config_and_sandbox fs workspace_root mode config sandbox =
     \<lparr>pe_workspace_root = workspace_root,
      pe_writable_roots = configured_writable_roots fs sandbox workspace_root,
      pe_approved_write_paths = lc_approved_write_paths sandbox,
      pe_unrestricted_file_access =
        (mode = FullAccess \<or> mode = Unrestricted
         \<or> lc_sandbox_mode sandbox = SandboxDangerFullAccess),
      pe_mode = mode,
      pe_config = config\<rparr>"

definition policy_new :: "filesystem \<Rightarrow> path \<Rightarrow> permission_mode \<Rightarrow> basic_policy_engine" where
  "policy_new fs workspace_root mode =
     new_with_config_and_sandbox fs workspace_root mode policy_config_default sandbox_default"

definition candidate_path :: "filesystem \<Rightarrow> basic_policy_engine \<Rightarrow> path \<Rightarrow> path" where
  \<comment> \<open>the normalised path the two scope tests compare\<close>
  "candidate_path fs e p =
     (let workspace_root = (case fs_canonicalize fs (pe_workspace_root e) of
                              Some r \<Rightarrow> r
                            | None \<Rightarrow> pe_workspace_root e)
      in canonicalize_existing_ancestor fs
           (if is_absolute p then p else path_join workspace_root p))"

definition inside_roots :: "filesystem \<Rightarrow> basic_policy_engine \<Rightarrow> path \<Rightarrow> path list \<Rightarrow> bool" where
  "inside_roots fs e p roots \<longleftrightarrow>
     \<not> has_parent_dir p
     \<and> list_ex (\<lambda>root. path_starts_with (candidate_path fs e p)
                        (canonicalize_existing_ancestor fs root)) roots"

definition policy_paths_equal :: "path \<Rightarrow> path \<Rightarrow> bool" where
  "policy_paths_equal left right \<longleftrightarrow> path_starts_with left right \<and> path_starts_with right left"

definition inside_approved_scope ::
    "filesystem \<Rightarrow> basic_policy_engine \<Rightarrow> path \<Rightarrow> path list \<Rightarrow> bool" where
  "inside_approved_scope fs e p approved_paths \<longleftrightarrow>
     \<not> has_parent_dir p
     \<and> list_ex (\<lambda>a. let approved = canonicalize_existing_ancestor fs a in
            path_starts_with (candidate_path fs e p) approved
            \<and> (policy_paths_equal (candidate_path fs e p) approved \<or> fs_is_dir fs approved))
         approved_paths"

definition inspect_read :: "basic_policy_engine \<Rightarrow> path \<Rightarrow> policy_decision" where
  "inspect_read e p =
     (if pe_mode e = Chat then Deny ''Chat mode does not allow file access.''
      else if has_parent_dir p then
        Deny (''Read path cannot contain '' @ [CHR 0x27] @ ''..'' @ [CHR 0x27] @ '': ''
              @ path_to_string p)
      else Allow)"

definition inspect_write :: "filesystem \<Rightarrow> basic_policy_engine \<Rightarrow> path \<Rightarrow> policy_decision" where
  "inspect_write fs e p =
     (if pe_mode e = Chat \<or> pe_mode e = ReadOnly then
        Deny ''Current permission mode does not allow writes.''
      else if pe_mode e = FullAccess \<or> pe_mode e = Unrestricted then Allow
      else if pe_unrestricted_file_access e then Allow
      else if inside_roots fs e p (pe_writable_roots e) then Allow
      else if inside_approved_scope fs e p (pe_approved_write_paths e) then Allow
      else Ask (''Writing outside authorized roots: '' @ path_to_string p))"

definition destructive_reason :: "string \<Rightarrow> string" where
  "destructive_reason command = ''Potentially destructive shell action: '' @ command"

definition inspect_command :: "basic_policy_engine \<Rightarrow> string \<Rightarrow> policy_decision" where
  "inspect_command e command =
     (let analysis = analyze_shell_command command in
        if pe_mode e = Chat then Deny ''Chat mode does not allow shell commands.''
        else if pe_mode e = ReadOnly then
          (if is_strictly_read_only analysis then Allow
           else Deny ''Read-only mode only allows shell commands classified as strict observations.'')
        else
          (case find (\<lambda>rule. rule_matches rule command) (pc_command_rules (pe_config e)) of
             Some rule \<Rightarrow>
               (let decision = rule_decision rule command in
                  if sa_destructive analysis \<and> decision = Allow
                  then Ask (destructive_reason command) else decision)
           | None \<Rightarrow>
               if sa_destructive analysis then Ask (destructive_reason command)
               else if NetworkCap \<in> set (sa_capabilities analysis) then
                 (if pe_mode e = FullAccess \<or> pe_mode e = Unrestricted then Allow
                  else to_decision (np_default_effect (pc_network (pe_config e)))
                         (''Shell command requires network access: '' @ command))
               else Allow))"

definition inspect_mcp_tool_call ::
    "basic_policy_engine \<Rightarrow> tool_permission_descriptor \<Rightarrow> policy_decision" where
  "inspect_mcp_tool_call e d =
     (let risk = classify_mcp_tool d in
        case pe_mode e of
          Chat \<Rightarrow> Deny ''Chat mode does not allow MCP tool calls.''
        | ReadOnly \<Rightarrow>
            if risk = RiskReadOnly then Allow
            else Deny (''Read-only mode only allows MCP tools annotated as read-only: '' @ td_name d
                       @ '' ('' @ risk_str risk @ '') ['' @ labels_display d @ '']'')
        | Approve \<Rightarrow> if risk = RiskReadOnly then Allow else Ask (mcp_approval_reason d risk)
        | Auto \<Rightarrow> if risk = RiskReadOnly then Allow else Ask (mcp_approval_reason d risk)
        | FullAccess \<Rightarrow>
            if risk = RiskDestructive then Ask (mcp_approval_reason d risk) else Allow
        | Unrestricted \<Rightarrow> Allow)"

definition inspect_network :: "basic_policy_engine \<Rightarrow> string \<Rightarrow> policy_decision" where
  "inspect_network e host0 =
     (let host = trim host0 in
        if host = [] then Deny ''Network host cannot be empty.''
        else if list_ex (\<lambda>allowed. eq_ignore_ascii_case allowed host)
                  (np_allowed_hosts (pc_network (pe_config e)))
        then Allow
        else if pe_mode e = Chat then Deny ''Chat mode does not allow network access.''
        else if pe_mode e = FullAccess \<or> pe_mode e = Unrestricted then Allow
        else to_decision (np_default_effect (pc_network (pe_config e)))
               (''Network access requires approval: '' @ host))"

section \<open>The behaviour gateway\<close>

definition resolve_intent_path :: "path \<Rightarrow> path \<Rightarrow> path" where
  "resolve_intent_path workspace_root p =
     (if is_absolute p then p else path_join workspace_root p)"

text \<open>The provided method of the trait, as a function of the three methods it calls.\<close>

definition inspect_execution_intent ::
    "(path \<Rightarrow> policy_decision) \<Rightarrow> (path \<Rightarrow> policy_decision) \<Rightarrow> (string \<Rightarrow> policy_decision)
      \<Rightarrow> tool_execution_intent \<Rightarrow> path \<Rightarrow> policy_decision" where
  "inspect_execution_intent ins_read ins_write ins_network intent workspace_root =
     combine
       (map (\<lambda>p. ins_read (resolve_intent_path workspace_root p)) (ti_requested_read_paths intent)
        @ map (\<lambda>p. ins_write (resolve_intent_path workspace_root p)) (ti_requested_write_paths intent)
        @ (if ti_requested_write_paths intent = [] \<and> ti_filesystem intent = FsWriteWorkspace
           then [ins_write workspace_root] else [])
        @ (if ti_network intent = NetRequired then [ins_network ''tool-execution''] else []))"

section \<open>Combination\<close>

fun is_deny :: "policy_decision \<Rightarrow> bool" where
  "is_deny (Deny reason) = True"
| "is_deny d = False"

lemma combine_from_Allow: "combine_from asks ds = Allow \<longleftrightarrow> asks = [] \<and> (\<forall>d \<in> set ds. d = Allow)"
  by (induction ds arbitrary: asks) (auto split: policy_decision.splits)

lemma combine_from_Deny: "is_deny (combine_from asks ds) \<longleftrightarrow> (\<exists>d \<in> set ds. is_deny d)"
  by (induction ds arbitrary: asks) (auto split: policy_decision.split)

lemma combine_Allow: "combine ds = Allow \<longleftrightarrow> (\<forall>d \<in> set ds. d = Allow)"
  by (simp add: combine_def combine_from_Allow)

lemma combine_Deny: "is_deny (combine ds) \<longleftrightarrow> (\<exists>d \<in> set ds. is_deny d)"
  by (simp add: combine_def combine_from_Deny)

section \<open>The contract of a policy engine\<close>

text \<open>What every engine promises to the gateway: paths with a parent-directory component are never
  readable, and a blank host is never reachable.\<close>

locale policy_engine =
  fixes ins_read :: "path \<Rightarrow> policy_decision"
    and ins_write :: "path \<Rightarrow> policy_decision"
    and ins_network :: "string \<Rightarrow> policy_decision"
  assumes read_parent_dir: "has_parent_dir p \<Longrightarrow> is_deny (ins_read p)"
    and blank_host: "trim host = [] \<Longrightarrow> is_deny (ins_network host)"
begin

abbreviation intent_decision :: "tool_execution_intent \<Rightarrow> path \<Rightarrow> policy_decision" where
  "intent_decision \<equiv> inspect_execution_intent ins_read ins_write ins_network"

lemma intent_allowed_iff:
  "intent_decision intent root = Allow \<longleftrightarrow>
     (\<forall>p \<in> set (ti_requested_read_paths intent). ins_read (resolve_intent_path root p) = Allow)
     \<and> (\<forall>p \<in> set (ti_requested_write_paths intent). ins_write (resolve_intent_path root p) = Allow)
     \<and> (ti_requested_write_paths intent = [] \<and> ti_filesystem intent = FsWriteWorkspace \<longrightarrow>
          ins_write root = Allow)
     \<and> (ti_network intent = NetRequired \<longrightarrow> ins_network ''tool-execution'' = Allow)"
  by (auto simp: inspect_execution_intent_def combine_Allow)

lemma parent_dir_read_denied:
  assumes "p \<in> set (ti_requested_read_paths intent)" "has_parent_dir p"
  shows "is_deny (intent_decision intent root)"
proof -
  have "has_parent_dir (resolve_intent_path root p)"
    using assms(2)
    by (auto simp: resolve_intent_path_def path_join_def has_parent_dir_def
        split: list.splits component.splits)
  with assms(1) show ?thesis
    by (auto simp: inspect_execution_intent_def combine_Deny dest: read_parent_dir)
qed

end

text \<open>An engine that denies every write denies every intent with a write effect.\<close>

locale write_denying_engine = policy_engine +
  assumes write_denied: "is_deny (ins_write p)"
begin

lemma write_intent_denied:
  assumes "ti_requested_write_paths intent \<noteq> [] \<or> ti_filesystem intent = FsWriteWorkspace"
  shows "is_deny (intent_decision intent root)"
  using assms write_denied
  by (cases "ti_requested_write_paths intent") (auto simp: inspect_execution_intent_def combine_Deny)

end

interpretation basic: policy_engine "inspect_read e" "inspect_write fs e" "inspect_network e" for fs e
  by unfold_locales (auto simp: inspect_read_def inspect_network_def)

definition observing :: "permission_mode \<Rightarrow> bool" where
  "observing mode \<longleftrightarrow> mode = Chat \<or> mode = ReadOnly"

text \<open>The engine of an observing mode: any engine, with its mode forced to be one of the two.\<close>

definition force_observing :: "basic_policy_engine \<Rightarrow> basic_policy_engine" where
  "force_observing e = (if observing (pe_mode e) then e else e\<lparr>pe_mode := ReadOnly\<rparr>)"

interpretation observer: write_denying_engine
  "inspect_read (force_observing e)" "inspect_write fs (force_observing e)"
  "inspect_network (force_observing e)" for fs e
  by unfold_locales
     (auto simp: force_observing_def observing_def inspect_write_def)

section \<open>Properties\<close>

text \<open>
  A denial is authoritative and permission is unanimous.  A combination of decisions is a denial
  exactly if one of them is, permission exactly if all of them are, and otherwise asks for approval.
\<close>
theorem combine_is_strictest:
  "(is_deny (combine ds) \<longleftrightarrow> list_ex is_deny ds)
    \<and> (combine ds = Allow \<longleftrightarrow> list_all (\<lambda>d. d = Allow) ds)
    \<and> ((\<exists>reason. combine ds = Ask reason) \<longleftrightarrow>
        \<not> list_ex is_deny ds \<and> \<not> list_all (\<lambda>d. d = Allow) ds)"
proof -
  have "(\<exists>reason. combine ds = Ask reason) \<longleftrightarrow> \<not> is_deny (combine ds) \<and> combine ds \<noteq> Allow"
    by (cases "combine ds") auto
  then show ?thesis by (simp add: combine_Allow combine_Deny list_ex_iff list_all_iff)
qed

text \<open>
  Observing modes cannot write.  In chat and read-only mode the behaviour gateway denies every
  intent that declares a write: one that names write paths, and one that declares a workspace write
  without naming any path.
\<close>
theorem observing_modes_deny_write_intents:
  assumes "pe_mode e \<in> {Chat, ReadOnly}"
    and "ti_requested_write_paths intent \<noteq> [] \<or> ti_filesystem intent = FsWriteWorkspace"
  shows "is_deny (inspect_execution_intent (inspect_read e) (inspect_write fs e) (inspect_network e)
    intent workspace_root)"
  using observer.write_intent_denied [OF assms(2), of e fs workspace_root] assms(1)
  by (auto simp: force_observing_def observing_def)

lemma observing_modes_deny_write_intents_witness:
  "is_deny (inspect_execution_intent (inspect_read (policy_new example_fs [RootDir] ReadOnly))
    (inspect_write example_fs (policy_new example_fs [RootDir] ReadOnly))
    (inspect_network (policy_new example_fs [RootDir] ReadOnly)) (workspace_mutation []) [RootDir])"
  by (rule observing_modes_deny_write_intents)
     (simp_all add: policy_new_def new_with_config_and_sandbox_def workspace_mutation_def)

text \<open>
  An intent is permitted exactly when every effect it declares is permitted: each read path, each
  write path, the workspace itself for a workspace write without paths, and the network if required;
  and an intent that reads through a parent-directory component is denied in every mode.
\<close>
theorem intent_allowed_iff_all_effects:
  "(inspect_execution_intent (inspect_read e) (inspect_write fs e) (inspect_network e)
      intent root = Allow \<longleftrightarrow>
      list_all (\<lambda>p. inspect_read e (resolve_intent_path root p) = Allow)
        (ti_requested_read_paths intent)
      \<and> list_all (\<lambda>p. inspect_write fs e (resolve_intent_path root p) = Allow)
        (ti_requested_write_paths intent)
      \<and> \<not> (ti_requested_write_paths intent = [] \<and> ti_filesystem intent = FsWriteWorkspace
             \<and> inspect_write fs e root \<noteq> Allow)
      \<and> \<not> (ti_network intent = NetRequired \<and> inspect_network e ''tool-execution'' \<noteq> Allow))
    \<and> \<not> (list_ex has_parent_dir (ti_requested_read_paths intent)
         \<and> \<not> is_deny (inspect_execution_intent (inspect_read e) (inspect_write fs e)
              (inspect_network e) intent root))"
  using basic.intent_allowed_iff [of e fs intent root]
    basic.parent_dir_read_denied [of _ intent e fs root]
  by (auto simp: list_all_iff list_ex_iff)


definition allow_all_engine :: basic_policy_engine where
  \<comment> \<open>full access with a rule that allows every command\<close>
  "allow_all_engine =
     (new_with_config_and_sandbox example_fs [RootDir] FullAccess
        \<lparr>pc_command_rules = [rule_contains [] EffectAllow []], pc_network = network_policy_default\<rparr>
        sandbox_default)"




text \<open>
  C38: The read-only mode does not consult the command rules: with a rule that denies every \<open>git\<close> command
  configured, \<open>git status\<close> is denied in the auto mode but permitted in the read-only mode.
\<close>
theorem read_only_mode_ignores_deny_rules:
  "inspect_command
      (new_with_config_and_sandbox example_fs [RootDir] ReadOnly
        \<lparr>pc_command_rules = [rule_prefix ''git'' EffectDeny ''no git''],
         pc_network = network_policy_default\<rparr> sandbox_default) ''git status'' = Allow
    \<and> inspect_command
      (new_with_config_and_sandbox example_fs [RootDir] Auto
        \<lparr>pc_command_rules = [rule_prefix ''git'' EffectDeny ''no git''],
         pc_network = network_policy_default\<rparr> sandbox_default) ''git status'' = Deny ''no git''"
  by code_simp

text \<open>
  An MCP tool is called without review only if it is read-only.  Outside the full-access and
  unrestricted modes a permitted tool has no label or hint of a destructive, secret, network or write
  effect; and a tool labelled or annotated as destructive is permitted in the unrestricted mode only.
\<close>
theorem permitted_mcp_tool_is_read_only:
  assumes "inspect_mcp_tool_call e d = Allow"
  shows "(pe_mode e \<notin> {FullAccess, Unrestricted} \<longrightarrow>
      pe_mode e \<noteq> Chat
      \<and> \<not> has_label d [''write'', ''modify'', ''mutation'']
      \<and> \<not> has_label d [''secret'', ''secrets'', ''credential'', ''credentials'']
      \<and> \<not> annotation_bool d ''openWorldHint'' \<and> \<not> annotation_bool d ''destructiveHint'')
    \<and> (has_label d [''destructive'', ''delete'', ''dangerous''] \<or> annotation_bool d ''destructiveHint''
        \<longrightarrow> pe_mode e = Unrestricted)"
  using assms
  by (cases "pe_mode e")
     (auto simp: inspect_mcp_tool_call_def classify_mcp_tool_def Let_def split: if_splits)

lemma permitted_mcp_tool_is_read_only_witness:
  "\<not> has_label (descriptor_new ''srv'' ''list'' [''READ''] JNull)
     [''write'', ''modify'', ''mutation'']"
proof -
  let ?e = "policy_new example_fs [RootDir] Auto"
  let ?d = "descriptor_new ''srv'' ''list'' [''READ''] JNull"
  have "inspect_mcp_tool_call ?e ?d = Allow" by code_simp
  from permitted_mcp_tool_is_read_only [OF this] show ?thesis
    by (simp add: policy_new_def new_with_config_and_sandbox_def)
qed

end
