(* ===== verification/Flow_Graph.thy ===== *)
theory Flow_Graph
  imports Json
begin

text \<open>
  The graph of a flow (the types of \<open>flow.rs\<close>) and the activation of its nodes by triggers
  (\<open>flow_activation.rs\<close>, \<open>WorkflowTriggerSpecV1\<close> of \<open>workflow_automation.rs\<close>).

  A \<open>Uuid\<close> is its hyphenated text, a \<open>DateTime<Utc>\<close> the number of nanoseconds since the epoch, and a
  \<open>BTreeSet<String>\<close> a sorted list.  \<open>decode\<close> is the deserialisation of a \<open>FlowNodeActivationV1\<close> by
  \<open>serde_json::from_value\<close>.
\<close>

type_synonym uuid = string
type_synonym timestamp = int

section \<open>Graphs\<close>

datatype node_kind =
    AgentNode | SkillNode | ToolNode | ConditionNode | ValidatorNode | ApprovalNode | JoinNode
  | LoopNode | OutputNode

record graph_node =
  gn_id :: string
  gn_label :: string
  gn_kind :: node_kind
  gn_config :: json
  gn_input_schema :: json
  gn_output_schema :: json

datatype loop_exhaustion_action = RequireHuman | ReturnPartial | FailLoop

record graph_loop_policy =
  lp_max_iterations :: nat
  lp_continue_condition :: string
  lp_on_exhausted :: loop_exhaustion_action

datatype data_classification = Public | Internal | Confidential | Restricted

record graph_edge =
  ge_from :: string
  ge_to :: string
  ge_condition :: "string option"
  ge_allowed_fields :: "string list"
  ge_data_classification :: data_classification
  ge_on_error :: "string option"
  ge_loop_policy :: "graph_loop_policy option"

record graph_definition =
  gd_schema_version :: nat
  gd_entry_node_id :: string
  gd_nodes :: "graph_node list"
  gd_edges :: "graph_edge list"

record flow_budget =
  fb_max_node_executions :: nat
  fb_max_tool_calls :: nat
  fb_max_duration_seconds :: nat
  fb_max_loop_iterations :: nat

definition flow_budget_default :: flow_budget where
  "flow_budget_default =
     \<lparr>fb_max_node_executions = 100, fb_max_tool_calls = 60, fb_max_duration_seconds = 3600,
      fb_max_loop_iterations = 10\<rparr>"

definition find_node :: "graph_definition \<Rightarrow> string \<Rightarrow> graph_node option" where
  \<comment> \<open>\<open>graph.nodes.iter().find(|node| node.id == id)\<close>\<close>
  "find_node g i = find (\<lambda>n. gn_id n = i) (gd_nodes g)"

section \<open>Triggers\<close>

datatype workflow_trigger =
    ManualTrigger
  | WebhookTrigger uuid string
  | ScheduleTrigger uuid nat timestamp
  | EventTrigger uuid string string

datatype ingress_policy = Immediate | RequireReview

definition trigger_id :: "workflow_trigger \<Rightarrow> uuid option" where
  "trigger_id t =
     (case t of
        ManualTrigger \<Rightarrow> None
      | WebhookTrigger i _ \<Rightarrow> Some i
      | ScheduleTrigger i _ _ \<Rightarrow> Some i
      | EventTrigger i _ _ \<Rightarrow> Some i)"

datatype trigger_error =
    BadCredentialRef | CredentialRefTooLong | BadInterval | LabelEmpty string | LabelTooLong string
  | AgentFinalWithoutNode | TooFewInputs | ActivationNotDecodable

definition char_count :: "string \<Rightarrow> nat" where
  \<comment> \<open>\<open>chars().count()\<close>: the bytes that are not UTF-8 continuation bytes\<close>
  "char_count s = length (filter (\<lambda>c. \<not> (0x80 \<le> byte c \<and> byte c < 0xC0)) s)"

definition validate_credential_ref :: "string \<Rightarrow> trigger_error + unit" where
  "validate_credential_ref reference0 =
     (let reference = trim reference0 in
        res_ensure (case strip_prefix reference ''env:'' of Some name \<Rightarrow> trim name \<noteq> [] | None \<Rightarrow> False)
          BadCredentialRef
       (res_ensure (length reference \<le> 256) CredentialRefTooLong (Inr ())))"

definition validate_bounded_label :: "string \<Rightarrow> string \<Rightarrow> trigger_error + unit" where
  "validate_bounded_label value name =
     res_ensure (trim value \<noteq> []) (LabelEmpty name)
       (res_ensure (char_count value \<le> 128) (LabelTooLong name) (Inr ()))"

definition validate_trigger :: "workflow_trigger \<Rightarrow> trigger_error + unit" where
  "validate_trigger t =
     (case t of
        ManualTrigger \<Rightarrow> Inr ()
      | WebhookTrigger _ token_ref \<Rightarrow> validate_credential_ref token_ref
      | ScheduleTrigger _ interval _ \<Rightarrow>
          res_ensure (60 \<le> interval \<and> interval \<le> 31536000) BadInterval (Inr ())
      | EventTrigger _ source event_type \<Rightarrow>
          res_bind (validate_bounded_label source ''event source'')
            (\<lambda>_. validate_bounded_label event_type ''event type''))"

text \<open>\<open>schedule_due_key_and_advance\<close>: the loop adds the interval until the next fire time is in the
  future.  With an interval of zero, which validation excludes, the loop of the code does not end.\<close>

function advance_schedule :: "timestamp \<Rightarrow> timestamp \<Rightarrow> timestamp \<Rightarrow> timestamp" where
  "advance_schedule interval next now =
     (if 0 < interval \<and> next \<le> now then advance_schedule interval (next + interval) now else next)"
  by pat_completeness auto
termination
  by (relation "measure (\<lambda>(interval, next, now). nat (now - next + 1))") auto

declare advance_schedule.simps [simp del]

definition schedule_due_key_and_advance ::
    "(timestamp \<Rightarrow> string) \<Rightarrow> timestamp \<Rightarrow> workflow_trigger \<Rightarrow> string option \<times> workflow_trigger" where
  \<comment> \<open>\<open>rfc3339\<close> is the formatting of a time stamp\<close>
  "schedule_due_key_and_advance rfc3339 now t =
     (case t of
        ScheduleTrigger i interval next \<Rightarrow>
          if now < next then (None, t)
          else (Some (''schedule:'' @ rfc3339 next),
                ScheduleTrigger i interval
                  (advance_schedule (int interval * 1000000000) next now))
      | _ \<Rightarrow> (None, t))"

section \<open>Trigger expressions of a node\<close>

datatype trigger_source =
    FlowInput
  | AgentFinal string
  | ManualSource
  | WebhookSource uuid string
  | ScheduleSource uuid nat timestamp
  | EventSource uuid string string

fun as_workflow_trigger :: "trigger_source \<Rightarrow> workflow_trigger option" where
  "as_workflow_trigger FlowInput = None"
| "as_workflow_trigger (AgentFinal _) = None"
| "as_workflow_trigger ManualSource = Some ManualTrigger"
| "as_workflow_trigger (WebhookSource i token) = Some (WebhookTrigger i token)"
| "as_workflow_trigger (ScheduleSource i interval next) = Some (ScheduleTrigger i interval next)"
| "as_workflow_trigger (EventSource i source event_type) = Some (EventTrigger i source event_type)"

definition matches_ingress :: "trigger_source \<Rightarrow> workflow_trigger option \<Rightarrow> bool" where
  "matches_ingress s trigger \<longleftrightarrow>
     (case s of
        FlowInput \<Rightarrow> True
      | AgentFinal _ \<Rightarrow> False
      | ManualSource \<Rightarrow> (case trigger of None \<Rightarrow> True | Some ManualTrigger \<Rightarrow> True | _ \<Rightarrow> False)
      | WebhookSource i _ \<Rightarrow>
          (case trigger of Some (WebhookTrigger current _) \<Rightarrow> current = i | _ \<Rightarrow> False)
      | ScheduleSource i _ _ \<Rightarrow>
          (case trigger of Some (ScheduleTrigger current _ _) \<Rightarrow> current = i | _ \<Rightarrow> False)
      | EventSource i _ _ \<Rightarrow>
          (case trigger of Some (EventTrigger current _ _) \<Rightarrow> current = i | _ \<Rightarrow> False))"

datatype trigger_expression =
    Source trigger_source
  | AndExpr "trigger_expression list"
  | OrExpr "trigger_expression list"
  | NotExpr trigger_expression

definition source_fires :: "workflow_trigger option \<Rightarrow> string list \<Rightarrow> trigger_source \<Rightarrow> bool" where
  "source_fires trigger completed s \<longleftrightarrow>
     (case s of AgentFinal node_id \<Rightarrow> node_id \<in> set completed | _ \<Rightarrow> matches_ingress s trigger)"

fun evaluate :: "workflow_trigger option \<Rightarrow> string list \<Rightarrow> trigger_expression \<Rightarrow> bool"
  and evaluate_all :: "workflow_trigger option \<Rightarrow> string list \<Rightarrow> trigger_expression list \<Rightarrow> bool"
  and evaluate_any :: "workflow_trigger option \<Rightarrow> string list \<Rightarrow> trigger_expression list \<Rightarrow> bool" where
  "evaluate trigger completed (Source s) = source_fires trigger completed s"
| "evaluate trigger completed (AndExpr inputs) =
     (inputs \<noteq> [] \<and> evaluate_all trigger completed inputs)"
| "evaluate trigger completed (OrExpr inputs) = evaluate_any trigger completed inputs"
| "evaluate trigger completed (NotExpr input) = (\<not> evaluate trigger completed input)"
| "evaluate_all trigger completed [] = True"
| "evaluate_all trigger completed (e # es) =
     (evaluate trigger completed e \<and> evaluate_all trigger completed es)"
| "evaluate_any trigger completed [] = False"
| "evaluate_any trigger completed (e # es) =
     (evaluate trigger completed e \<or> evaluate_any trigger completed es)"

fun has_positive_ingress :: "bool \<Rightarrow> trigger_expression \<Rightarrow> bool"
  and any_positive_ingress :: "bool \<Rightarrow> trigger_expression list \<Rightarrow> bool" where
  "has_positive_ingress negated (Source s) =
     (\<not> negated \<and> (case s of AgentFinal _ \<Rightarrow> False | _ \<Rightarrow> True))"
| "has_positive_ingress negated (AndExpr inputs) = any_positive_ingress negated inputs"
| "has_positive_ingress negated (OrExpr inputs) = any_positive_ingress negated inputs"
| "has_positive_ingress negated (NotExpr input) = has_positive_ingress (\<not> negated) input"
| "any_positive_ingress negated [] = False"
| "any_positive_ingress negated (e # es) =
     (has_positive_ingress negated e \<or> any_positive_ingress negated es)"

fun first_external_trigger :: "bool \<Rightarrow> trigger_expression \<Rightarrow> workflow_trigger option"
  and first_external_of :: "bool \<Rightarrow> trigger_expression list \<Rightarrow> workflow_trigger option" where
  "first_external_trigger negated (Source s) = (if negated then None else as_workflow_trigger s)"
| "first_external_trigger negated (AndExpr inputs) = first_external_of negated inputs"
| "first_external_trigger negated (OrExpr inputs) = first_external_of negated inputs"
| "first_external_trigger negated (NotExpr input) = first_external_trigger (\<not> negated) input"
| "first_external_of negated [] = None"
| "first_external_of negated (e # es) =
     (case first_external_trigger negated e of
        Some t \<Rightarrow> Some t
      | None \<Rightarrow> first_external_of negated es)"

fun contains_external_trigger :: "workflow_trigger \<Rightarrow> bool \<Rightarrow> trigger_expression \<Rightarrow> bool"
  and any_contains_external :: "workflow_trigger \<Rightarrow> bool \<Rightarrow> trigger_expression list \<Rightarrow> bool" where
  "contains_external_trigger t negated (Source s) =
     (\<not> negated \<and> (case s of FlowInput \<Rightarrow> False | AgentFinal _ \<Rightarrow> False | _ \<Rightarrow> True)
      \<and> matches_ingress s (Some t))"
| "contains_external_trigger t negated (AndExpr inputs) = any_contains_external t negated inputs"
| "contains_external_trigger t negated (OrExpr inputs) = any_contains_external t negated inputs"
| "contains_external_trigger t negated (NotExpr input) = contains_external_trigger t (\<not> negated) input"
| "any_contains_external t negated [] = False"
| "any_contains_external t negated (e # es) =
     (contains_external_trigger t negated e \<or> any_contains_external t negated es)"

text \<open>Insertion into a \<open>BTreeSet<String>\<close>.\<close>

definition bs_insert :: "string \<Rightarrow> string list \<Rightarrow> string list" where
  "bs_insert x xs = (if x \<in> set xs then xs else insort x xs)"

fun collect_agent_final_sources :: "trigger_expression \<Rightarrow> string list \<Rightarrow> string list"
  and collect_sources_of :: "trigger_expression list \<Rightarrow> string list \<Rightarrow> string list" where
  "collect_agent_final_sources (Source s) target =
     (case s of AgentFinal node_id \<Rightarrow> bs_insert node_id target | _ \<Rightarrow> target)"
| "collect_agent_final_sources (AndExpr inputs) target = collect_sources_of inputs target"
| "collect_agent_final_sources (OrExpr inputs) target = collect_sources_of inputs target"
| "collect_agent_final_sources (NotExpr input) target = collect_agent_final_sources input target"
| "collect_sources_of [] target = target"
| "collect_sources_of (e # es) target =
     collect_sources_of es (collect_agent_final_sources e target)"

fun validate_expression :: "trigger_expression \<Rightarrow> trigger_error + unit"
  and validate_expressions :: "trigger_expression list \<Rightarrow> trigger_error + unit" where
  "validate_expression (Source s) =
     res_bind (case as_workflow_trigger s of Some t \<Rightarrow> validate_trigger t | None \<Rightarrow> Inr ()) (\<lambda>_.
       (case s of
          AgentFinal node_id \<Rightarrow> res_ensure (trim node_id \<noteq> []) AgentFinalWithoutNode (Inr ())
        | _ \<Rightarrow> Inr ()))"
| "validate_expression (AndExpr inputs) =
     res_ensure (2 \<le> length inputs) TooFewInputs (validate_expressions inputs)"
| "validate_expression (OrExpr inputs) =
     res_ensure (2 \<le> length inputs) TooFewInputs (validate_expressions inputs)"
| "validate_expression (NotExpr input) = validate_expression input"
| "validate_expressions [] = Inr ()"
| "validate_expressions (e # es) = res_bind (validate_expression e) (\<lambda>_. validate_expressions es)"

section \<open>Activation of the nodes of a graph\<close>

record node_activation =
  na_expression :: trigger_expression
  na_ingress_policy :: ingress_policy

type_synonym activation_decoder = "json \<Rightarrow> node_activation option"

definition parse_node_activation ::
    "activation_decoder \<Rightarrow> graph_node \<Rightarrow> trigger_error + node_activation option" where
  "parse_node_activation decode n =
     (case json_get (gn_config n) ''activation'' of
        None \<Rightarrow> Inr None
      | Some value \<Rightarrow>
          res_bind (ok_or (decode value) ActivationNotDecodable) (\<lambda>activation.
          res_bind (validate_expression (na_expression activation)) (\<lambda>_. Inr (Some activation))))"

definition activation_agent_final_sources ::
    "activation_decoder \<Rightarrow> graph_node \<Rightarrow> trigger_error + string list" where
  "activation_agent_final_sources decode n =
     res_bind (parse_node_activation decode n) (\<lambda>parsed.
       Inr (case parsed of
              None \<Rightarrow> []
            | Some activation \<Rightarrow> collect_agent_final_sources (na_expression activation) []))"

definition valid_activation :: "activation_decoder \<Rightarrow> graph_node \<Rightarrow> node_activation option" where
  \<comment> \<open>\<open>parse_node_activation(node).ok().flatten()\<close>\<close>
  "valid_activation decode n =
     (case parse_node_activation decode n of Inr a \<Rightarrow> a | Inl _ \<Rightarrow> None)"

definition is_activation_root :: "activation_decoder \<Rightarrow> graph_node \<Rightarrow> bool" where
  "is_activation_root decode n \<longleftrightarrow>
     (case valid_activation decode n of
        None \<Rightarrow> False
      | Some a \<Rightarrow> has_positive_ingress False (na_expression a))"

definition activation_root_node_ids :: "activation_decoder \<Rightarrow> graph_definition \<Rightarrow> string list" where
  "activation_root_node_ids decode g =
     fold bs_insert (map gn_id (filter (is_activation_root decode) (gd_nodes g))) []"

definition node_external_trigger :: "activation_decoder \<Rightarrow> graph_node \<Rightarrow> workflow_trigger option" where
  "node_external_trigger decode n =
     Option.bind (valid_activation decode n) (\<lambda>a. first_external_trigger False (na_expression a))"

definition default_graph_trigger :: "activation_decoder \<Rightarrow> graph_definition \<Rightarrow> workflow_trigger" where
  "default_graph_trigger decode g =
     (case Option.bind (find_node g (gd_entry_node_id g)) (node_external_trigger decode) of
        Some t \<Rightarrow> t
      | None \<Rightarrow>
          (case find_map (node_external_trigger decode) (gd_nodes g) of
             Some t \<Rightarrow> t
           | None \<Rightarrow> ManualTrigger))"

definition default_graph_ingress_policy ::
    "activation_decoder \<Rightarrow> graph_definition \<Rightarrow> ingress_policy" where
  "default_graph_ingress_policy decode g =
     (case Option.bind (find_node g (gd_entry_node_id g)) (valid_activation decode) of
        Some a \<Rightarrow> na_ingress_policy a
      | None \<Rightarrow> Immediate)"

definition graph_ingress_policy_for_trigger ::
    "activation_decoder \<Rightarrow> graph_definition \<Rightarrow> workflow_trigger \<Rightarrow> ingress_policy" where
  "graph_ingress_policy_for_trigger decode g t =
     (case find (\<lambda>a. contains_external_trigger t False (na_expression a))
             (List.map_filter (valid_activation decode) (gd_nodes g)) of
        Some a \<Rightarrow> na_ingress_policy a
      | None \<Rightarrow> Immediate)"

definition initially_ready :: "activation_decoder \<Rightarrow> workflow_trigger option \<Rightarrow> graph_node \<Rightarrow> bool" where
  "initially_ready decode trigger n \<longleftrightarrow>
     (case valid_activation decode n of
        None \<Rightarrow> False
      | Some a \<Rightarrow> has_positive_ingress False (na_expression a)
                  \<and> evaluate trigger [] (na_expression a))"

definition initial_ready_nodes ::
    "activation_decoder \<Rightarrow> graph_definition \<Rightarrow> workflow_trigger option \<Rightarrow> string list" where
  "initial_ready_nodes decode g trigger =
     (let matched = map gn_id (filter (initially_ready decode trigger) (gd_nodes g));
          entry_has_activation =
            (case find_node g (gd_entry_node_id g) of
               None \<Rightarrow> False
             | Some n \<Rightarrow> valid_activation decode n \<noteq> None)
      in if matched = [] \<and> \<not> entry_has_activation then [gd_entry_node_id g] else matched)"

definition node_activation_ready ::
    "activation_decoder \<Rightarrow> graph_node \<Rightarrow> workflow_trigger option \<Rightarrow> string list
      \<Rightarrow> trigger_error + bool option" where
  "node_activation_ready decode n trigger completed_nodes =
     res_bind (parse_node_activation decode n) (\<lambda>parsed.
       Inr (map_option (\<lambda>a. evaluate trigger completed_nodes (na_expression a)) parsed))"

datatype activation_issue =
    BadActivation string trigger_error
  | MissingAgentFinal string string
  | NoMatchingEdge string string

definition node_activation_issues ::
    "activation_decoder \<Rightarrow> graph_definition \<Rightarrow> graph_node \<Rightarrow> activation_issue list" where
  "node_activation_issues decode g n =
     (case parse_node_activation decode n of
        Inl e \<Rightarrow> [BadActivation (gn_id n) e]
      | Inr None \<Rightarrow> []
      | Inr (Some a) \<Rightarrow>
          concat (map (\<lambda>source.
            if source \<notin> set (map gn_id (gd_nodes g)) then [MissingAgentFinal (gn_id n) source]
            else if (source, gn_id n) \<notin> set (map (\<lambda>e. (ge_from e, ge_to e)) (gd_edges g))
              then [NoMatchingEdge (gn_id n) source]
            else []) (collect_agent_final_sources (na_expression a) [])))"

definition validate_graph_activations ::
    "activation_decoder \<Rightarrow> graph_definition \<Rightarrow> activation_issue list" where
  "validate_graph_activations decode g = concat (map (node_activation_issues decode g) (gd_nodes g))"

section \<open>Lemmas\<close>

lemma set_bs_insert [simp]: "set (bs_insert x xs) = insert x (set xs)"
  by (auto simp: bs_insert_def set_insort_key)

text \<open>The agents an expression listens to.\<close>

fun expression_agents :: "trigger_expression \<Rightarrow> string set"
  and expressions_agents :: "trigger_expression list \<Rightarrow> string set" where
  "expression_agents (Source s) = (case s of AgentFinal n \<Rightarrow> {n} | _ \<Rightarrow> {})"
| "expression_agents (AndExpr es) = expressions_agents es"
| "expression_agents (OrExpr es) = expressions_agents es"
| "expression_agents (NotExpr e) = expression_agents e"
| "expressions_agents [] = {}"
| "expressions_agents (e # es) = expression_agents e \<union> expressions_agents es"

lemma set_collect:
  "set (collect_agent_final_sources e target) = expression_agents e \<union> set target"
  "set (collect_sources_of es target) = expressions_agents es \<union> set target"
  by (induction e target and es target
      rule: collect_agent_final_sources_collect_sources_of.induct)
     (auto split: trigger_source.split)

lemma evaluate_local:
  "(\<And>n. n \<in> expression_agents e \<Longrightarrow> n \<in> set c \<longleftrightarrow> n \<in> set c') \<Longrightarrow> evaluate t c e = evaluate t c' e"
  "(\<And>n. n \<in> expressions_agents es \<Longrightarrow> n \<in> set c \<longleftrightarrow> n \<in> set c') \<Longrightarrow>
     evaluate_all t c es = evaluate_all t c' es"
  "(\<And>n. n \<in> expressions_agents es \<Longrightarrow> n \<in> set c \<longleftrightarrow> n \<in> set c') \<Longrightarrow>
     evaluate_any t c es = evaluate_any t c' es"
  by (induction t c e and t c es and t c es rule: evaluate_evaluate_all_evaluate_any.induct)
     (auto simp: source_fires_def split: trigger_source.splits)

lemma validated_node_clean:
  "validate_graph_activations decode g = [] \<Longrightarrow> n \<in> set (gd_nodes g) \<Longrightarrow>
     node_activation_issues decode g n = []"
  by (simp add: validate_graph_activations_def)

lemma validated_agents_are_predecessors:
  assumes "validate_graph_activations decode g = []" "n \<in> set (gd_nodes g)"
    and "parse_node_activation decode n = Inr (Some a)"
    and "source \<in> expression_agents (na_expression a)"
  shows "\<exists>e \<in> set (gd_edges g). ge_from e = source \<and> ge_to e = gn_id n"
proof -
  let ?edge = "(source, gn_id n) \<in> set (map (\<lambda>e. (ge_from e, ge_to e)) (gd_edges g))"
  have mem: "source \<in> set (collect_agent_final_sources (na_expression a) [])"
    using assms(4) by (simp add: set_collect)
  have none: "concat (map f xs) = [] \<Longrightarrow> x \<in> set xs \<Longrightarrow> f x = []"
    for f :: "string \<Rightarrow> activation_issue list" and xs x
    by simp
  note clean = validated_node_clean [OF assms(1,2), unfolded node_activation_issues_def assms(3)
      sum.case option.case]
  from none [OF clean mem] have ?edge
    by (simp del: set_map split: if_split_asm)
  then show ?thesis by auto
qed

lemma validated_activation_parses:
  assumes "validate_graph_activations decode g = []" "n \<in> set (gd_nodes g)"
  shows "\<exists>a. parse_node_activation decode n = Inr a"
  using validated_node_clean [OF assms]
  by (cases "parse_node_activation decode n") (auto simp: node_activation_issues_def)

lemma advance_schedule_spec:
  "0 < interval \<Longrightarrow> next \<le> now \<Longrightarrow>
     now < advance_schedule interval next now \<and> advance_schedule interval next now \<le> now + interval
     \<and> interval dvd (advance_schedule interval next now - next)"
proof (induction interval "next" now rule: advance_schedule.induct)
  case (1 interval nxt now)
  show ?case
  proof (cases "nxt + interval \<le> now")
    case True
    then have "now < advance_schedule interval (nxt + interval) now
        \<and> advance_schedule interval (nxt + interval) now \<le> now + interval
        \<and> interval dvd (advance_schedule interval (nxt + interval) now - (nxt + interval))"
      using 1 by simp
    moreover have "interval dvd (x - nxt)" if "interval dvd (x - (nxt + interval))" for x
      using dvd_add [OF that dvd_refl] by simp
    ultimately show ?thesis
      using "1.prems" by (simp add: advance_schedule.simps [of interval nxt])
  next
    case False
    then have "advance_schedule interval (nxt + interval) now = nxt + interval"
      by (simp add: advance_schedule.simps [of interval "nxt + interval"])
    with False "1.prems" show ?thesis by (simp add: advance_schedule.simps [of interval nxt])
  qed
qed

section \<open>Properties\<close>

text \<open>
  In a graph without activation issues the readiness of a node depends on its predecessors only.
  Every node's activation is well formed, and two sets of completed nodes that agree on the sources of
  the edges into the node give the same answer.
\<close>
theorem activation_depends_on_predecessors:
  assumes "validate_graph_activations decode g = []" and "n \<in> set (gd_nodes g)"
    and "\<And>e. e \<in> set (gd_edges g) \<Longrightarrow> ge_to e = gn_id n \<Longrightarrow>
      ge_from e \<in> set completed \<longleftrightarrow> ge_from e \<in> set completed'"
  shows "node_activation_ready decode n trigger completed
      = node_activation_ready decode n trigger completed'
    \<and> is_ok (node_activation_ready decode n trigger completed)"
proof -
  obtain parsed where parsed: "parse_node_activation decode n = Inr parsed"
    using validated_activation_parses [OF assms(1,2)] by blast
  have "evaluate trigger completed (na_expression a) = evaluate trigger completed' (na_expression a)"
    if "parsed = Some a" for a
  proof (rule evaluate_local(1))
    fix m assume "m \<in> expression_agents (na_expression a)"
    with validated_agents_are_predecessors [OF assms(1,2)] parsed that
    obtain e where "e \<in> set (gd_edges g)" "ge_from e = m" "ge_to e = gn_id n" by blast
    with assms(3) show "m \<in> set completed \<longleftrightarrow> m \<in> set completed'" by blast
  qed
  with parsed show ?thesis
    by (cases parsed) (simp_all add: node_activation_ready_def is_ok_def)
qed

definition example_edge :: "string \<Rightarrow> string \<Rightarrow> graph_edge" where
  "example_edge a b =
     \<lparr>ge_from = a, ge_to = b, ge_condition = None, ge_allowed_fields = [],
      ge_data_classification = Internal, ge_on_error = None, ge_loop_policy = None\<rparr>"

definition example_node :: "string \<Rightarrow> node_kind \<Rightarrow> json \<Rightarrow> graph_node" where
  "example_node i kind config =
     \<lparr>gn_id = i, gn_label = i, gn_kind = kind, gn_config = config, gn_input_schema = JNull,
      gn_output_schema = JNull\<rparr>"

definition example_activation_decoder :: activation_decoder where
  \<comment> \<open>reads a text as the name of the agent to wait for\<close>
  "example_activation_decoder v =
     (case v of
        JString s \<Rightarrow> Some \<lparr>na_expression = Source (AgentFinal s), na_ingress_policy = Immediate\<rparr>
      | _ \<Rightarrow> None)"

definition example_graph :: graph_definition where
  "example_graph =
     \<lparr>gd_schema_version = 1, gd_entry_node_id = ''a'',
      gd_nodes = [example_node ''a'' AgentNode JNull,
        example_node ''b'' AgentNode (json_of_map [(''activation'', JString ''a'')])],
      gd_edges = [example_edge ''a'' ''b'']\<rparr>"

lemma activation_depends_on_predecessors_witness:
  "node_activation_ready example_activation_decoder
      (example_node ''b'' AgentNode (json_of_map [(''activation'', JString ''a'')])) None [''a'', ''x'']
    = node_activation_ready example_activation_decoder
      (example_node ''b'' AgentNode (json_of_map [(''activation'', JString ''a'')])) None [''a'']
    \<and> is_ok (node_activation_ready example_activation_decoder
      (example_node ''b'' AgentNode (json_of_map [(''activation'', JString ''a'')])) None [''a'', ''x''])"
proof (rule activation_depends_on_predecessors [where g = example_graph])
  show "validate_graph_activations example_activation_decoder example_graph = []" by code_simp
  show "example_node ''b'' AgentNode (json_of_map [(''activation'', JString ''a'')])
      \<in> set (gd_nodes example_graph)"
    by (simp add: example_graph_def)
qed (auto simp: example_graph_def example_edge_def)

text \<open>
  C38: A due schedule fires once and moves past the present.  For a trigger that passes validation, the
  due key is produced exactly if the fire time has come; then the next fire time is later than now by
  at most one interval, and differs from the old one by a whole number of intervals, so missed firings
  are merged into one and the phase of the schedule is kept.
\<close>
theorem due_schedule_advances:
  assumes "validate_trigger (ScheduleTrigger i interval next_fire) = Inr ()"
    and "schedule_due_key_and_advance rfc3339 now (ScheduleTrigger i interval next_fire)
      = (key, ScheduleTrigger i' interval' next_fire')"
  shows "i' = i \<and> interval' = interval
    \<and> (key = None \<longleftrightarrow> now < next_fire) \<and> (key = None \<longrightarrow> next_fire' = next_fire)
    \<and> (key \<noteq> None \<longrightarrow> now < next_fire' \<and> next_fire' \<le> now + int interval * 1000000000
        \<and> (int interval * 1000000000) dvd (next_fire' - next_fire))"
proof -
  have "0 < int interval * 1000000000"
    using assms(1) by (simp add: validate_trigger_def res_Inr_iffs)
  from advance_schedule_spec [OF this, of next_fire now] assms(2) show ?thesis
    by (auto simp: schedule_due_key_and_advance_def split: if_splits)
qed

lemma due_schedule_advances_witness:
  "\<exists>n. schedule_due_key_and_advance (\<lambda>_. ''t'') 100 (ScheduleTrigger ''i'' 60 40)
      = (Some ''schedule:t'', ScheduleTrigger ''i'' 60 n) \<and> 100 < n"
proof -
  let ?n = "advance_schedule 60000000000 40 100"
  have "validate_trigger (ScheduleTrigger ''i'' 60 40) = Inr ()"
    by (simp add: validate_trigger_def res_ensure_def)
  moreover have eq: "schedule_due_key_and_advance (\<lambda>_. ''t'') 100 (ScheduleTrigger ''i'' 60 40)
      = (Some ''schedule:t'', ScheduleTrigger ''i'' 60 ?n)"
    by (simp add: schedule_due_key_and_advance_def)
  ultimately have "100 < ?n" using due_schedule_advances by fastforce
  with eq show ?thesis by blast
qed

end
