(* ===== verification/Workflow_State.thy ===== *)
theory Workflow_State
  imports Json
begin

text \<open>
  State channels of a workflow run (\<open>workflow_state.rs\<close>): the writes a node declares, their
  validation over a graph, and their application when a superstep commits.

  \<open>decode\<close> is the deserialisation of a \<open>WorkflowStateWriteV1\<close> by \<open>serde_json::from_value\<close>.
\<close>

section \<open>Data\<close>

definition max_state_writes_per_node :: nat where
  "max_state_writes_per_node = 32"

definition max_state_channel_length :: nat where
  "max_state_channel_length = 128"

datatype state_reducer = Replace | Append | MergeObject

record state_write =
  sw_channel :: string
  sw_reducer :: state_reducer
  sw_value_path :: "string option"

datatype state_error =
    StateWritesNotArray
  | TooManyStateWrites
  | InvalidStateWrite json
  | InvalidChannelName string
  | ValuePathTooLong
  | UnresolvedValuePath string string
  | ChannelNotArray string
  | ChannelNotObject string
  | MergeRequiresObject string

datatype state_issue =
    InvalidWrites string state_error
  | ConflictingReducers string string
  | SecondReplaceWriter string string string

definition quoted :: "string \<Rightarrow> string" where
  "quoted s = [CHR 0x27] @ s @ [CHR 0x27]"

text \<open>The messages; that of a write which cannot be decoded ends with the text of the decoder.\<close>

fun state_error_str :: "state_error \<Rightarrow> string" where
  "state_error_str StateWritesNotArray = ''config.stateWrites must be an array''"
| "state_error_str TooManyStateWrites =
     ''config.stateWrites cannot contain more than '' @ show_nat max_state_writes_per_node
     @ '' entries''"
| "state_error_str (InvalidStateWrite raw) = ''invalid state write: ''"
| "state_error_str (InvalidChannelName c) =
     ''state channel '' @ quoted c @ '' must use 1-'' @ show_nat max_state_channel_length
     @ '' letters, digits, dots, underscores, or hyphens''"
| "state_error_str ValuePathTooLong = ''state write valuePath cannot exceed 256 characters''"
| "state_error_str (UnresolvedValuePath c path) =
     ''state write for '' @ quoted c @ '' could not resolve valuePath '' @ quoted path"
| "state_error_str (ChannelNotArray c) = ''state channel '' @ quoted c @ '' is not an array''"
| "state_error_str (ChannelNotObject c) = ''state channel '' @ quoted c @ '' is not an object''"
| "state_error_str (MergeRequiresObject c) =
     ''merge_object state write for '' @ quoted c @ '' requires an object''"

section \<open>Parsing\<close>

definition validate_channel_name :: "string \<Rightarrow> state_error + unit" where
  "validate_channel_name channel =
     (if channel = [] \<or> max_state_channel_length < length channel
         \<or> \<not> list_all (\<lambda>c. is_ascii_alphanumeric c \<or> c \<in> {CHR ''_'', CHR ''-'', CHR ''.''}) channel
      then Inl (InvalidChannelName channel) else Inr ())"

fun parse_writes :: "(json \<Rightarrow> state_write option) \<Rightarrow> json list \<Rightarrow> state_error + state_write list" where
  "parse_writes decode [] = Inr []"
| "parse_writes decode (raw # raws) =
     res_bind (ok_or (decode raw) (InvalidStateWrite raw)) (\<lambda>write.
     res_bind (validate_channel_name (sw_channel write)) (\<lambda>_.
     res_ensure (case sw_value_path write of Some path \<Rightarrow> length path \<le> 256 | None \<Rightarrow> True)
       ValuePathTooLong
     (res_bind (parse_writes decode raws) (\<lambda>rest. Inr (write # rest)))))"

definition parse_state_writes ::
    "(json \<Rightarrow> state_write option) \<Rightarrow> json \<Rightarrow> state_error + state_write list" where
  "parse_state_writes decode config =
     (case json_get config ''stateWrites'' of
        None \<Rightarrow> Inr []
      | Some raw \<Rightarrow>
          res_bind (ok_or (as_array raw) StateWritesNotArray) (\<lambda>writes.
          res_ensure (length writes \<le> max_state_writes_per_node) TooManyStateWrites
            (parse_writes decode writes)))"

section \<open>Validation over a graph\<close>

record validation_state =
  vs_issues :: "state_issue list"
  vs_reducers :: "(string, state_reducer) btree"
  vs_replace_writers :: "(string, string) btree"

definition validate_write :: "string \<Rightarrow> state_write \<Rightarrow> validation_state \<Rightarrow> validation_state" where
  "validate_write node_id write s =
     (let channel = sw_channel write;
          s1 = s\<lparr>vs_reducers := bt_insert channel (sw_reducer write) (vs_reducers s),
                vs_issues := vs_issues s @
                  (case bt_get (vs_reducers s) channel of
                     Some existing \<Rightarrow>
                       if existing \<noteq> sw_reducer write then [ConflictingReducers node_id channel]
                       else []
                   | None \<Rightarrow> [])\<rparr>
      in if sw_reducer write = Replace then
           s1\<lparr>vs_replace_writers := bt_insert channel node_id (vs_replace_writers s1),
              vs_issues := vs_issues s1 @
                (case bt_get (vs_replace_writers s1) channel of
                   Some existing \<Rightarrow>
                     if existing \<noteq> node_id then [SecondReplaceWriter node_id channel existing] else []
                 | None \<Rightarrow> [])\<rparr>
         else s1)"

definition validate_node ::
    "(json \<Rightarrow> state_write option) \<Rightarrow> string \<times> json \<Rightarrow> validation_state \<Rightarrow> validation_state" where
  "validate_node decode entry s =
     (let (node_id, config) = entry in
        case parse_state_writes decode config of
          Inl message \<Rightarrow> s\<lparr>vs_issues := vs_issues s @ [InvalidWrites node_id message]\<rparr>
        | Inr writes \<Rightarrow> fold (validate_write node_id) writes s)"

definition validate_graph_state_writes ::
    "(json \<Rightarrow> state_write option) \<Rightarrow> (string \<times> json) list \<Rightarrow> state_issue list" where
  "validate_graph_state_writes decode nodes =
     vs_issues (fold (validate_node decode) nodes
       \<lparr>vs_issues = [], vs_reducers = [], vs_replace_writers = []\<rparr>)"

section \<open>Application\<close>

definition state_value_at_path :: "json \<Rightarrow> string \<Rightarrow> json option" where
  "state_value_at_path value path0 =
     (let path = trim_start_matches (trim path0) ''$.'' in
        if path = [] \<or> path = ''$'' then Some value
        else json_walk value (split_char (CHR ''.'') path))"

definition apply_reducer ::
    "string \<Rightarrow> state_reducer \<Rightarrow> json \<Rightarrow> (string, json) btree \<Rightarrow> state_error + (string, json) btree" where
  "apply_reducer channel reducer value state =
     (case reducer of
        Replace \<Rightarrow> Inr (bt_insert channel value state)
      | Append \<Rightarrow>
          (let target = (case bt_get state channel of Some t \<Rightarrow> t | None \<Rightarrow> JArray []) in
             res_bind (ok_or (as_array target) (ChannelNotArray channel)) (\<lambda>items.
               Inr (bt_insert channel
                 (JArray (case value of JArray values \<Rightarrow> items @ values | v \<Rightarrow> items @ [v])) state)))
      | MergeObject \<Rightarrow>
          (let target = (case bt_get state channel of Some t \<Rightarrow> t | None \<Rightarrow> JObject []) in
             res_bind (ok_or (as_object target) (ChannelNotObject channel)) (\<lambda>fields.
             res_bind (ok_or (as_object value) (MergeRequiresObject channel)) (\<lambda>new_fields.
               Inr (bt_insert channel (JObject (bt_extend new_fields fields)) state)))))"

fun apply_state_writes ::
    "(string, json) btree \<Rightarrow> state_write list \<Rightarrow> json \<Rightarrow> state_error + (string, json) btree" where
  "apply_state_writes state [] output = Inr state"
| "apply_state_writes state (write # writes) output =
     res_bind
       (case sw_value_path write of
          Some path \<Rightarrow>
            ok_or (state_value_at_path output path) (UnresolvedValuePath (sw_channel write) path)
        | None \<Rightarrow> Inr output)
       (\<lambda>value.
     res_bind (apply_reducer (sw_channel write) (sw_reducer write) value state) (\<lambda>state'.
       apply_state_writes state' writes output))"

section \<open>Lemmas\<close>

lemma parse_writes_Inr:
  "parse_writes decode raws = Inr writes \<Longrightarrow>
     length writes = length raws \<and> list_all (\<lambda>w. validate_channel_name (sw_channel w) = Inr ()) writes"
  by (induction raws arbitrary: writes) (auto simp: res_Inr_iffs)

lemma apply_reducer_frame:
  "apply_reducer channel reducer value state = Inr state' \<Longrightarrow> other \<noteq> channel \<Longrightarrow>
     bt_get state' other = bt_get state other"
  by (cases reducer) (auto simp: apply_reducer_def Let_def res_Inr_iffs map_simps)

lemma apply_reducer_inv:
  "apply_reducer channel reducer value state = Inr state' \<Longrightarrow> bt_inv state \<Longrightarrow> bt_inv state'"
  by (cases reducer) (auto simp: apply_reducer_def Let_def res_Inr_iffs bt_inv_insert)

lemma validate_write_issues: "\<exists>new. vs_issues (validate_write n w s) = vs_issues s @ new"
  by (auto simp: validate_write_def Let_def)

lemma fold_validate_write_issues:
  "\<exists>new. vs_issues (fold (validate_write n) ws s) = vs_issues s @ new"
proof (induction ws arbitrary: s)
  case (Cons w ws)
  obtain a b where "vs_issues (fold (validate_write n) ws (validate_write n w s))
      = vs_issues (validate_write n w s) @ a" "vs_issues (validate_write n w s) = vs_issues s @ b"
    using Cons [of "validate_write n w s"] validate_write_issues [of n w s] by blast
  then show ?case by simp
qed simp

lemma validate_node_issues: "\<exists>new. vs_issues (validate_node decode e s) = vs_issues s @ new"
  by (cases e) (auto simp: validate_node_def fold_validate_write_issues split: sum.split)

text \<open>While no issue has been found, the two maps describe the writes seen so far.\<close>

definition validation_inv :: "(string \<times> state_write) list \<Rightarrow> validation_state \<Rightarrow> bool" where
  "validation_inv seen s \<longleftrightarrow>
     (vs_issues s = [] \<longrightarrow>
        (\<forall>(n, w) \<in> set seen. bt_get (vs_reducers s) (sw_channel w) = Some (sw_reducer w)
           \<and> (sw_reducer w = Replace \<longrightarrow> bt_get (vs_replace_writers s) (sw_channel w) = Some n)))"

lemma validate_write_maps:
  "vs_reducers (validate_write n w s) = bt_insert (sw_channel w) (sw_reducer w) (vs_reducers s)"
  "vs_replace_writers (validate_write n w s) =
     (if sw_reducer w = Replace then bt_insert (sw_channel w) n (vs_replace_writers s)
      else vs_replace_writers s)"
  by (simp_all add: validate_write_def Let_def)

lemma validate_write_clean:
  assumes "vs_issues (validate_write n w s) = []"
  shows "vs_issues s = []"
    and "bt_get (vs_reducers s) (sw_channel w) = Some r \<Longrightarrow> r = sw_reducer w"
    and "sw_reducer w = Replace \<Longrightarrow> bt_get (vs_replace_writers s) (sw_channel w) = Some n' \<Longrightarrow> n' = n"
  using assms by (auto simp: validate_write_def Let_def split: if_splits)

lemma validation_inv_write:
  assumes "validation_inv seen s"
  shows "validation_inv (seen @ [(n, w)]) (validate_write n w s)"
  unfolding validation_inv_def
proof (intro impI ballI, clarify)
  fix n' w'
  assume clean: "vs_issues (validate_write n w s) = []"
    and mem: "(n', w') \<in> set (seen @ [(n, w)])"
  note facts = validate_write_clean [OF clean]
  show "bt_get (vs_reducers (validate_write n w s)) (sw_channel w') = Some (sw_reducer w')
    \<and> (sw_reducer w' = Replace \<longrightarrow>
        bt_get (vs_replace_writers (validate_write n w s)) (sw_channel w') = Some n')"
  proof (cases "(n', w') \<in> set seen")
    case True
    with assms facts(1) have
      "bt_get (vs_reducers s) (sw_channel w') = Some (sw_reducer w')"
      "sw_reducer w' = Replace \<Longrightarrow> bt_get (vs_replace_writers s) (sw_channel w') = Some n'"
      by (auto simp: validation_inv_def)
    with facts(2,3) show ?thesis by (auto simp: validate_write_maps map_simps)
  next
    case False
    with mem show ?thesis by (auto simp: validate_write_maps map_simps)
  qed
qed

lemma validation_inv_writes:
  "validation_inv seen s \<Longrightarrow>
     validation_inv (seen @ map (Pair n) ws) (fold (validate_write n) ws s)"
proof (induction ws arbitrary: seen s)
  case (Cons w ws)
  from Cons.IH [OF validation_inv_write [OF Cons.prems]] show ?case by simp
qed simp

definition graph_writes ::
    "(json \<Rightarrow> state_write option) \<Rightarrow> (string \<times> json) list \<Rightarrow> (string \<times> state_write) list" where
  "graph_writes decode nodes =
     concat (map (\<lambda>(n, config). case parse_state_writes decode config of
                                   Inl _ \<Rightarrow> [] | Inr ws \<Rightarrow> map (Pair n) ws) nodes)"

lemma validation_inv_node:
  "validation_inv seen s \<Longrightarrow>
     validation_inv (seen @ graph_writes decode [e]) (validate_node decode e s)"
  by (cases e) (auto simp: validate_node_def graph_writes_def validation_inv_writes
      split: sum.split, simp add: validation_inv_def)

lemma validation_inv_nodes:
  "validation_inv seen s \<Longrightarrow>
     validation_inv (seen @ graph_writes decode nodes) (fold (validate_node decode) nodes s)"
proof (induction nodes arbitrary: seen s)
  case (Cons e nodes)
  from Cons.IH [OF validation_inv_node [OF Cons.prems]]
  show ?case by (simp add: graph_writes_def)
qed (simp add: graph_writes_def)

section \<open>Properties\<close>

text \<open>
  A graph without state-write issues has one meaning per channel: any two writes of any two nodes to
  the same channel use the same reducer, and a channel that is replaced is written by one node only.
\<close>
theorem valid_channels_are_consistent:
  assumes "validate_graph_state_writes decode nodes = []"
    and "(n, w) \<in> set (graph_writes decode nodes)" "(n', w') \<in> set (graph_writes decode nodes)"
    and "sw_channel w = sw_channel w'"
  shows "sw_reducer w = sw_reducer w' \<and> (sw_reducer w = Replace \<longrightarrow> n = n')"
proof -
  let ?s = "fold (validate_node decode) nodes
      \<lparr>vs_issues = [], vs_reducers = [], vs_replace_writers = []\<rparr>"
  have "validation_inv ([] @ graph_writes decode nodes) ?s"
    by (rule validation_inv_nodes) (simp add: validation_inv_def)
  then have "validation_inv (graph_writes decode nodes) ?s" by simp
  moreover have "vs_issues ?s = []" using assms(1) by (simp add: validate_graph_state_writes_def)
  ultimately have "bt_get (vs_reducers ?s) (sw_channel v) = Some (sw_reducer v)
      \<and> (sw_reducer v = Replace \<longrightarrow> bt_get (vs_replace_writers ?s) (sw_channel v) = Some m)"
    if "(m, v) \<in> set (graph_writes decode nodes)" for m v
    using that by (auto simp: validation_inv_def)
  from this [OF assms(2)] this [OF assms(3)] assms(4) show ?thesis by auto
qed

definition example_decode :: "json \<Rightarrow> state_write option" where
  \<comment> \<open>the documented reading of an object with a channel and a reducer name\<close>
  "example_decode v =
     (case (Option.bind (json_get v ''channel'') as_str, Option.bind (json_get v ''reducer'') as_str) of
        (Some channel, Some reducer) \<Rightarrow>
          if reducer = ''replace'' then Some \<lparr>sw_channel = channel, sw_reducer = Replace, sw_value_path = None\<rparr>
          else if reducer = ''append'' then Some \<lparr>sw_channel = channel, sw_reducer = Append, sw_value_path = None\<rparr>
          else if reducer = ''merge_object'' then Some \<lparr>sw_channel = channel, sw_reducer = MergeObject, sw_value_path = None\<rparr>
          else None
      | _ \<Rightarrow> None)"

definition example_write_config :: "string \<Rightarrow> string \<Rightarrow> json" where
  "example_write_config channel reducer =
     json_of_map [(''stateWrites'', JArray [json_of_map [(''channel'', JString channel),
       (''reducer'', JString reducer)]])]"

definition example_append :: state_write where
  "example_append = \<lparr>sw_channel = ''log'', sw_reducer = Append, sw_value_path = None\<rparr>"

lemma valid_channels_are_consistent_witness:
  "validate_graph_state_writes example_decode
     [(''a'', example_write_config ''log'' ''append''), (''b'', example_write_config ''log'' ''append'')] = []
   \<and> sw_reducer example_append = sw_reducer example_append \<and> sw_reducer example_append \<noteq> Replace"
proof -
  let ?nodes = "[(''a'', example_write_config ''log'' ''append''),
                 (''b'', example_write_config ''log'' ''append'')]"
  have valid: "validate_graph_state_writes example_decode ?nodes = []" by code_simp
  moreover have "(''a'', example_append) \<in> set (graph_writes example_decode ?nodes)" by code_simp
  moreover have "(''b'', example_append) \<in> set (graph_writes example_decode ?nodes)" by code_simp
  ultimately have "sw_reducer example_append = Replace \<longrightarrow> ''a'' = ''b''"
    using valid_channels_are_consistent [of example_decode ?nodes "''a''" example_append "''b''" example_append]
    by simp
  with valid show ?thesis by simp
qed

text \<open>
  A commit touches only the declared channels.  If applying the writes of a node succeeds, the state
  stays an ordered map and every channel that no write names keeps its value.
\<close>
theorem apply_state_writes_frame:
  assumes "apply_state_writes state writes result_value = Inr state'" and "bt_inv state"
  shows "bt_inv state'
    \<and> (\<forall>channel. channel \<notin> sw_channel ` set writes \<longrightarrow> bt_get state' channel = bt_get state channel)"
  using assms
proof (induction writes arbitrary: state)
  case (Cons w ws)
  from "Cons.prems"(1) obtain v state1 where
    s1: "apply_reducer (sw_channel w) (sw_reducer w) v state = Inr state1"
      "apply_state_writes state1 ws result_value = Inr state'"
    and v: "(case sw_value_path w of
        Some path \<Rightarrow> ok_or (state_value_at_path result_value path) (UnresolvedValuePath (sw_channel w) path)
      | None \<Rightarrow> Inr result_value) = Inr v"
    by (auto simp: res_Inr_iffs)
  have "bt_inv state1" using s1(1) "Cons.prems"(2) by (rule apply_reducer_inv)
  with "Cons.IH" [OF s1(2)] have "bt_inv state'
      \<and> (\<forall>c. c \<notin> sw_channel ` set ws \<longrightarrow> bt_get state' c = bt_get state1 c)"
    by simp
  with apply_reducer_frame [OF s1(1)] show ?case by simp
qed simp

lemma apply_state_writes_frame_witness:
  "bt_get (bt_insert ''a'' (JBool True) (bt_insert ''b'' JNull [])) ''b'' = Some JNull"
proof -
  let ?w = "\<lparr>sw_channel = ''a'', sw_reducer = Replace, sw_value_path = None\<rparr>"
  have "apply_state_writes (bt_insert ''b'' JNull []) [?w] (JBool True)
      = Inr (bt_insert ''a'' (JBool True) (bt_insert ''b'' JNull []))"
    by (simp add: apply_reducer_def)
  from apply_state_writes_frame [OF this] show ?thesis by (simp add: bt_inv_def)
qed

text \<open>
  Appending loses nothing.  An append write to a channel that holds an array succeeds, and the new
  array is the old one followed by the written values (the elements of a written array, or the written
  value itself); to a channel that holds anything else it fails.
\<close>
theorem append_extends_channel:
  "apply_reducer channel Append value state =
     (case bt_get state channel of
        Some (JArray items) \<Rightarrow>
          Inr (bt_insert channel
            (JArray (items @ (case value of JArray values \<Rightarrow> values | v \<Rightarrow> [v]))) state)
      | None \<Rightarrow>
          Inr (bt_insert channel (JArray (case value of JArray values \<Rightarrow> values | v \<Rightarrow> [v])) state)
      | Some _ \<Rightarrow> Inl (ChannelNotArray channel))"
  by (auto simp: apply_reducer_def as_array_def ok_or_def split: option.split json.split)

end
