(* ===== verification/Fingerprint.thy ===== *)
theory Fingerprint
  imports Prelude "HOL-Library.Word"
begin

unbundle bit_operations_syntax

text \<open>
  \<open>content_fingerprint\<close> of \<open>model_context.rs\<close>: the 64-bit FNV-1a hash of a byte sequence, in sixteen
  hexadecimal digits.  It guards the persisted continuation of an interrupted agent node.
\<close>

type_synonym u64 = "64 word"

definition fnv_step :: "char \<Rightarrow> u64 \<Rightarrow> u64" where
  "fnv_step b h = (h XOR word_of_nat (byte b)) * 0x100000001b3"

definition fnv_hash :: "string \<Rightarrow> u64" where
  "fnv_hash bytes = fold fnv_step bytes 0xcbf29ce484222325"

definition hex_digit :: "nat \<Rightarrow> char" where
  "hex_digit d = char_of (if d < 10 then 48 + d else 87 + d)"

fun hex_digits :: "nat \<Rightarrow> nat \<Rightarrow> string" where
  "hex_digits 0 n = []"
| "hex_digits (Suc k) n = hex_digits k (n div 16) @ [hex_digit (n mod 16)]"

definition content_fingerprint :: "string \<Rightarrow> string" where
  "content_fingerprint bytes = hex_digits 16 (unat (fnv_hash bytes))"

section \<open>Lemmas\<close>

lemma fnv_prime_invertible: "(0x100000001b3 :: u64) * 0xce965057aff6957b = 1"
  by simp

lemma fnv_mult_inject:
  fixes x y :: u64
  assumes "x * 0x100000001b3 = y * 0x100000001b3"
  shows "x = y"
proof -
  from assms have "x * (0x100000001b3 * 0xce965057aff6957b)
      = y * (0x100000001b3 * 0xce965057aff6957b)"
    by (simp only: mult.assoc [symmetric])
  then show ?thesis by (simp only: fnv_prime_invertible mult_1_right)
qed

lemma xor_cancel: "(x XOR b = y XOR b) \<longleftrightarrow> x = (y :: u64)"
proof
  assume "x XOR b = y XOR b"
  then have "(x XOR b) XOR b = (y XOR b) XOR b" by simp
  then show "x = y" by (simp only: xor.assoc xor_self_eq xor.right_neutral)
qed simp

lemma fnv_step_inject_state: "fnv_step b x = fnv_step b y \<Longrightarrow> x = y"
  by (auto simp: fnv_step_def xor_cancel dest!: fnv_mult_inject)

lemma byte_word_inject: "(word_of_nat (byte a) :: u64) = word_of_nat (byte b) \<Longrightarrow> a = b"
proof -
  assume "(word_of_nat (byte a) :: u64) = word_of_nat (byte b)"
  then have "(of_char a :: nat) mod 2 ^ 64 = of_char b mod 2 ^ 64"
    by (simp add: word_of_nat_eq_iff take_bit_eq_mod)
  moreover have "(of_char c :: nat) mod 2 ^ 64 = of_char c" for c
    by (rule mod_less) (rule less_le_trans [of _ 256], simp_all)
  ultimately show "a = b" by simp
qed

lemma fnv_step_inject_byte: "fnv_step a x = fnv_step b x \<Longrightarrow> a = b"
  by (auto simp: fnv_step_def xor_cancel xor.commute [of x] dest!: fnv_mult_inject byte_word_inject)

lemma fold_fnv_inject: "fold fnv_step bs x = fold fnv_step bs y \<Longrightarrow> x = y"
  by (induction bs arbitrary: x y) (auto dest: fnv_step_inject_state)

lemma hex_digit_inject: "a < 16 \<Longrightarrow> b < 16 \<Longrightarrow> hex_digit a = hex_digit b \<Longrightarrow> a = b"
  by (auto simp: hex_digit_def split: if_splits dest!: arg_cong [of _ _ "of_char :: char \<Rightarrow> nat"])

lemma hex_digits_inject:
  "m < 16 ^ k \<Longrightarrow> n < 16 ^ k \<Longrightarrow> hex_digits k m = hex_digits k n \<Longrightarrow> m = n"
proof (induction k arbitrary: m n)
  case (Suc k)
  have "m mod 16 = n mod 16" using Suc.prems(3) hex_digit_inject [of "m mod 16" "n mod 16"] by simp
  moreover have "m div 16 = n div 16"
    using Suc by (intro Suc.IH) (simp_all add: less_mult_imp_div_less)
  ultimately show ?case by (metis div_mult_mod_eq)
qed simp

lemma length_hex_digits: "length (hex_digits k n) = k"
  by (induction k arbitrary: n) auto

lemma fnv_hash_one_byte:
  "b \<noteq> b' \<Longrightarrow> fnv_hash (before @ b # after) \<noteq> fnv_hash (before @ b' # after)"
  by (auto simp: fnv_hash_def dest!: fold_fnv_inject fnv_step_inject_byte)

lemma content_fingerprint_inject:
  "content_fingerprint xs = content_fingerprint ys \<Longrightarrow> fnv_hash xs = fnv_hash ys"
proof -
  have bound: "unat w < 16 ^ 16" for w :: u64
    using unsigned_less [where 'a = nat, of w] by simp
  show "content_fingerprint xs = content_fingerprint ys \<Longrightarrow> fnv_hash xs = fnv_hash ys"
    unfolding content_fingerprint_def
    using unsigned_word_eqI [OF hex_digits_inject [OF bound bound]] by blast
qed

section \<open>Properties\<close>

text \<open>
  The fingerprint has sixteen digits and detects every corruption of a single byte: two sequences
  that differ in exactly one byte have different fingerprints, whatever comes before and after it.
\<close>
theorem fingerprint_detects_byte_change:
  assumes "b \<noteq> b'"
  shows "content_fingerprint (before @ b # after) \<noteq> content_fingerprint (before @ b' # after)
    \<and> length (content_fingerprint (before @ b # after)) = 16"
proof -
  have "content_fingerprint (before @ b # after) \<noteq> content_fingerprint (before @ b' # after)"
    using content_fingerprint_inject fnv_hash_one_byte [OF assms] by blast
  then show ?thesis by (simp only: content_fingerprint_def length_hex_digits simp_thms)
qed

lemma fingerprint_detects_byte_change_witness:
  "content_fingerprint (''{a'' @ CHR ''1'' # ''}'') \<noteq> content_fingerprint (''{a'' @ CHR ''2'' # ''}'')
    \<and> length (content_fingerprint (''{a'' @ CHR ''1'' # ''}'')) = 16"
  by (rule fingerprint_detects_byte_change) simp

end
