(* ===== verification/Workflow_Interrupt.thy ===== *)
theory Workflow_Interrupt
  imports Flow_Graph Workflow_State Fingerprint
begin

text \<open>
  The protocol by which an agent node waits for a human (\<open>workflow_interrupt.rs\<close>): the sealed
  continuation, the interrupt of a checkpoint, and the resume command that answers one revision of it;
  and the transcript entries of \<open>flow_runtime.rs\<close> that travel with them.

  What the code obtains from outside is the record \<open>runtime_env\<close>: the time and the random identifiers
  of the running operation (\<open>env_uuid i\<close> is what the \<open>i\<close>-th call of \<open>Uuid::new_v4\<close> returns; all calls of
  \<open>Utc::now\<close> in one operation give \<open>env_now\<close>), the derived identifiers \<open>Uuid::new_v5\<close>, and the parsers and
  typed deserialisations of \<open>uuid\<close> and \<open>serde_json\<close>.  The continuation itself belongs to the agent core; its encoding is a pair of
  functions.
\<close>

section \<open>The environment of an operation\<close>

record runtime_env =
  env_now :: timestamp
  env_uuid :: "nat \<Rightarrow> uuid"
  env_uuid_v5 :: "uuid \<Rightarrow> string \<Rightarrow> uuid"
  env_parse_uuid :: "string \<Rightarrow> uuid option"
  env_parse_json :: "string \<Rightarrow> json option"
  env_decode_response :: "json \<Rightarrow> json option"
  env_decode_write :: "json \<Rightarrow> state_write option"
  env_decode_activation :: activation_decoder

section \<open>Transcripts\<close>

datatype transcript_kind = TInput | TToolCall | TToolResult | TOutput | TApproval | TError

record transcript_entry =
  te_id :: uuid
  te_kind :: transcript_kind
  te_title :: string
  te_content :: json
  te_tool_name :: "string option"
  te_call_id :: "uuid option"
  te_is_error :: bool
  te_created_at :: timestamp

definition transcript_new :: "runtime_env \<Rightarrow> nat \<Rightarrow> transcript_kind \<Rightarrow> string \<Rightarrow> json \<Rightarrow> transcript_entry" where
  \<comment> \<open>\<open>k\<close> is the index of the identifier the entry gets\<close>
  "transcript_new env k kind title content =
     \<lparr>te_id = env_uuid env k, te_kind = kind, te_title = title, te_content = content,
      te_tool_name = None, te_call_id = None, te_is_error = False, te_created_at = env_now env\<rparr>"

definition transcript_tool ::
    "runtime_env \<Rightarrow> nat \<Rightarrow> transcript_kind \<Rightarrow> string \<Rightarrow> uuid \<Rightarrow> json \<Rightarrow> bool \<Rightarrow> transcript_entry" where
  "transcript_tool env k kind tool_name call_id content is_error =
     \<lparr>te_id = env_uuid env k, te_kind = kind, te_title = tool_name, te_content = content,
      te_tool_name = Some tool_name, te_call_id = Some call_id, te_is_error = is_error,
      te_created_at = env_now env\<rparr>"

definition extend_transcript_unique ::
    "transcript_entry list \<Rightarrow> transcript_entry list \<Rightarrow> transcript_entry list" where
  "extend_transcript_unique target additions =
     target @ filter (\<lambda>e. te_id e \<notin> te_id ` set target) additions"

section \<open>Continuations\<close>

definition interrupt_schema_version :: nat where
  "interrupt_schema_version = 1"

record continuation_envelope =
  ce_schema_version :: nat
  ce_id :: uuid
  ce_content_hash :: string
  ce_payload :: json

datatype continuation_error = UnsupportedEnvelope nat | HashMismatch | Undecodable

text \<open>\<open>bytes\<close> is \<open>serde_json::to_vec\<close>; \<open>to_value\<close> and \<open>from_value\<close> are the serialisation of the continuation.\<close>

definition continuation_payload_hash :: "(json \<Rightarrow> string) \<Rightarrow> json \<Rightarrow> string" where
  "continuation_payload_hash bytes payload = content_fingerprint (bytes payload)"

definition envelope_encode ::
    "(json \<Rightarrow> string) \<Rightarrow> ('c \<Rightarrow> json) \<Rightarrow> uuid \<Rightarrow> 'c \<Rightarrow> continuation_envelope" where
  "envelope_encode bytes to_value fresh continuation =
     (let payload = to_value continuation in
        \<lparr>ce_schema_version = interrupt_schema_version, ce_id = fresh,
         ce_content_hash = continuation_payload_hash bytes payload, ce_payload = payload\<rparr>)"

definition envelope_decode ::
    "(json \<Rightarrow> string) \<Rightarrow> (json \<Rightarrow> 'c option) \<Rightarrow> continuation_envelope \<Rightarrow> continuation_error + 'c" where
  "envelope_decode bytes from_value e =
     res_ensure (ce_schema_version e = interrupt_schema_version)
       (UnsupportedEnvelope (ce_schema_version e))
    (res_ensure (continuation_payload_hash bytes (ce_payload e) = ce_content_hash e) HashMismatch
      (ok_or (from_value (ce_payload e)) Undecodable))"

section \<open>Interrupts\<close>

datatype interrupt_kind =
  KApproval | KInputRequest | KExternalAction | KEffectReconciliation | KResumeRetry

record node_interrupt =
  ni_id :: uuid
  ni_revision :: nat
  ni_kind :: interrupt_kind
  ni_title :: string
  ni_description :: string
  ni_payload :: json
  ni_continuation :: continuation_envelope
  ni_tool_calls :: nat
  ni_transcript :: "transcript_entry list"
  ni_created_at :: timestamp

record interrupt_request =
  ir_schema_version :: nat
  ir_id :: uuid
  ir_revision :: nat
  ir_checkpoint_id :: uuid
  ir_superstep :: nat
  ir_node_id :: string
  ir_node_run_id :: uuid
  ir_kind :: interrupt_kind
  ir_title :: string
  ir_description :: string
  ir_payload :: json
  ir_continuation :: continuation_envelope
  ir_tool_calls :: nat
  ir_transcript :: "transcript_entry list"
  ir_created_at :: timestamp

definition at_checkpoint ::
    "uuid \<Rightarrow> nat \<Rightarrow> string \<Rightarrow> uuid \<Rightarrow> node_interrupt \<Rightarrow> interrupt_request" where
  "at_checkpoint checkpoint_id superstep node_id node_run_id i =
     \<lparr>ir_schema_version = interrupt_schema_version, ir_id = ni_id i, ir_revision = ni_revision i,
      ir_checkpoint_id = checkpoint_id, ir_superstep = superstep, ir_node_id = node_id,
      ir_node_run_id = node_run_id, ir_kind = ni_kind i, ir_title = ni_title i,
      ir_description = ni_description i, ir_payload = ni_payload i,
      ir_continuation = ni_continuation i, ir_tool_calls = ni_tool_calls i,
      ir_transcript = ni_transcript i, ir_created_at = ni_created_at i\<rparr>"

section \<open>Resume commands\<close>

datatype resume_signal =
    ApprovalSignal "uuid option" bool
  | UserInputSignal uuid json
  | ExternalActionSignal string

definition resume_signal_json :: "resume_signal \<Rightarrow> json" where
  "resume_signal_json s =
     (case s of
        ApprovalSignal approval_id approved \<Rightarrow>
          json_of_map ([(''kind'', JString ''approval''), (''approved'', JBool approved)]
            @ (case approval_id of Some i \<Rightarrow> [(''approval_id'', JString i)] | None \<Rightarrow> []))
      | UserInputSignal request_id response \<Rightarrow>
          json_of_map [(''kind'', JString ''user_input''), (''request_id'', JString request_id),
            (''response'', response)]
      | ExternalActionSignal observation \<Rightarrow>
          json_of_map [(''kind'', JString ''external_action''), (''observation'', JString observation)])"

record resume_command =
  rc_schema_version :: nat
  rc_id :: uuid
  rc_idempotency_key :: string
  rc_interrupt_id :: uuid
  rc_expected_interrupt_revision :: nat
  rc_signal :: resume_signal
  rc_note :: "string option"
  rc_issued_by :: string
  rc_issued_at :: timestamp

definition nonblank :: "string option \<Rightarrow> string option" where
  \<comment> \<open>\<open>.map(str::trim).filter(|value| !value.is_empty())\<close>\<close>
  "nonblank s = (case map_option trim s of Some [] \<Rightarrow> None | t \<Rightarrow> t)"

datatype resume_error = EmptyIdempotencyKey

definition resume_command_new ::
    "runtime_env \<Rightarrow> uuid \<Rightarrow> string \<Rightarrow> interrupt_request \<Rightarrow> resume_signal \<Rightarrow> string option \<Rightarrow> string
      \<Rightarrow> resume_error + resume_command" where
  "resume_command_new env task_id idempotency_key interrupt signal note issued_by =
     res_ensure (trim idempotency_key \<noteq> []) EmptyIdempotencyKey
       (Inr \<lparr>rc_schema_version = interrupt_schema_version,
             rc_id = env_uuid_v5 env task_id idempotency_key,
             rc_idempotency_key = idempotency_key,
             rc_interrupt_id = ir_id interrupt,
             rc_expected_interrupt_revision = ir_revision interrupt,
             rc_signal = signal,
             rc_note = nonblank note,
             rc_issued_by = issued_by,
             rc_issued_at = env_now env\<rparr>)"

definition validates :: "resume_command \<Rightarrow> interrupt_request \<Rightarrow> bool" where
  "validates c i \<longleftrightarrow>
     rc_interrupt_id c = ir_id i \<and> rc_expected_interrupt_revision c = ir_revision i"

definition resume_retry ::
    "runtime_env \<Rightarrow> nat \<Rightarrow> interrupt_request \<Rightarrow> resume_command \<Rightarrow> string \<Rightarrow> interrupt_request" where
  "resume_retry env k previous command error =
     \<lparr>ir_schema_version = interrupt_schema_version,
      ir_id = env_uuid env k,
      ir_revision = 1,
      ir_checkpoint_id = ir_checkpoint_id previous,
      ir_superstep = ir_superstep previous,
      ir_node_id = ir_node_id previous,
      ir_node_run_id = ir_node_run_id previous,
      ir_kind = KResumeRetry,
      ir_title = map char_of [0xE6, 0x81, 0xA2, 0xE5, 0xA4, 0x8D, 0xE4, 0xB8, 0xAD, 0xE6, 0x96, 0xAD, 0xEF, 0xBC,
        0x8C, 0xE9, 0x9C, 0x80, 0xE8, 0xA6, 0x81, 0xE4, 0xBA, 0xBA, 0xE5, 0xB7, 0xA5, 0xE9,
        0x87, 0x8D, 0xE8, 0xAF, 0x95 :: nat],
      ir_description = map char_of [0x41, 0x67, 0x65, 0x6E, 0x74, 0x20, 0x63, 0x6F, 0x6E, 0x74, 0x69, 0x6E, 0x75, 0x61,
        0x74, 0x69, 0x6F, 0x6E, 0x20, 0xE5, 0x9C, 0xA8, 0xE6, 0x81, 0xA2, 0xE5, 0xA4, 0x8D,
        0xE6, 0x9C, 0x9F, 0xE9, 0x97, 0xB4, 0xE9, 0x81, 0x87, 0xE5, 0x88, 0xB0, 0xE5, 0x8F,
        0xAF, 0xE4, 0xB8, 0xAD, 0xE6, 0x96, 0xAD, 0xE9, 0x94, 0x99, 0xE8, 0xAF, 0xAF, 0xE3,
        0x80, 0x82, 0xE7, 0xA1, 0xAE, 0xE8, 0xAE, 0xA4, 0xE5, 0x90, 0x8E, 0xE5, 0xB0, 0x86,
        0xE5, 0x86, 0x8D, 0xE6, 0xAC, 0xA1, 0xE6, 0x81, 0xA2, 0xE5, 0xA4, 0x8D, 0xE5, 0x90,
        0x8C, 0xE4, 0xB8, 0x80, 0x20, 0x63, 0x6F, 0x6E, 0x74, 0x69, 0x6E, 0x75, 0x61, 0x74,
        0x69, 0x6F, 0x6E, 0xEF, 0xBC, 0x8C, 0xE4, 0xB8, 0x8D, 0xE4, 0xBC, 0x9A, 0xE9, 0x87,
        0x8D, 0xE6, 0x96, 0xB0, 0xE6, 0x89, 0xA7, 0xE8, 0xA1, 0x8C, 0xE8, 0x8A, 0x82, 0xE7,
        0x82, 0xB9, 0xE3, 0x80, 0x82 :: nat],
      ir_payload = json_of_map [(''error'', JString error),
        (''previousResumeCommandId'', JString (rc_id command)),
        (''resumeSignal'', resume_signal_json (rc_signal command))],
      ir_continuation = ir_continuation previous,
      ir_tool_calls = ir_tool_calls previous,
      ir_transcript = ir_transcript previous,
      ir_created_at = env_now env\<rparr>"

section \<open>Lemmas\<close>

lemma extend_transcript_keeps: "\<exists>more. extend_transcript_unique target additions = target @ more"
  by (simp add: extend_transcript_unique_def)

lemma extend_transcript_distinct:
  "distinct (map te_id target) \<Longrightarrow> distinct (map te_id additions) \<Longrightarrow>
     distinct (map te_id (extend_transcript_unique target additions))"
  by (auto simp: extend_transcript_unique_def distinct_map_filter) (metis imageI)

lemma extend_transcript_idem:
  "extend_transcript_unique (extend_transcript_unique target additions) additions
     = extend_transcript_unique target additions"
  by (auto simp: extend_transcript_unique_def filter_empty_conv)

section \<open>Properties\<close>



text \<open>
  A resume command answers one revision of one interrupt.  It is created only with a non-blank
  idempotency key; it validates against exactly the interrupts with the identifier and revision it was
  created for, so not against the retry interrupt that a failed resumption leaves behind (if the new
  identifier is fresh); and repeating it with the same key gives the same command identifier.
\<close>
theorem resume_command_is_bound:
  assumes "resume_command_new env task key interrupt signal note actor = Inr c"
  shows "trim key \<noteq> [] \<and> validates c interrupt
    \<and> (validates c other \<longleftrightarrow> ir_id other = ir_id interrupt \<and> ir_revision other = ir_revision interrupt)
    \<and> (validates c (resume_retry env k interrupt c e) \<longrightarrow> env_uuid env k = ir_id interrupt)
    \<and> rc_id c = env_uuid_v5 env task key"
  using assms
  by (auto simp: resume_command_new_def res_Inr_iffs validates_def resume_retry_def)

definition example_env :: runtime_env where
  "example_env =
     \<lparr>env_now = 0, env_uuid = show_nat, env_uuid_v5 = (@), env_parse_uuid = Some,
      env_parse_json = (\<lambda>_. None), env_decode_response = Some, env_decode_write = example_decode,
      env_decode_activation = (\<lambda>_. None)\<rparr>"

definition example_interrupt :: interrupt_request where
  "example_interrupt =
     at_checkpoint ''c'' 1 ''n'' ''r''
       \<lparr>ni_id = ''i'', ni_revision = 1, ni_kind = KApproval, ni_title = [], ni_description = [],
        ni_payload = JNull, ni_continuation = envelope_encode (\<lambda>_. []) id ''e'' JNull,
        ni_tool_calls = 0, ni_transcript = [], ni_created_at = 0\<rparr>"

lemma resume_command_is_bound_witness:
  "\<exists>c. resume_command_new example_env ''t'' ''key'' example_interrupt (ApprovalSignal None True) None ''me''
      = Inr c \<and> validates c example_interrupt"
proof -
  let ?r = "resume_command_new example_env ''t'' ''key'' example_interrupt (ApprovalSignal None True)
      None ''me''"
  have "trim ''key'' \<noteq> []" by code_simp
  then have "is_ok ?r" by (simp add: resume_command_new_def res_ensure_def is_ok_def)
  then obtain c where "?r = Inr c" by (cases ?r) (auto simp: is_ok_def)
  with resume_command_is_bound [OF this] show ?thesis by blast
qed

end
