(* ===== verification/Human_Task.thy ===== *)
theory Human_Task
  imports Workflow_Interrupt
begin

text \<open>
  Human tasks (\<open>human_task.rs\<close>): the tasks a flow run or a delivery creates for an operator, and the
  operations that claim, assign, resolve and cancel them.  A failed \<open>ensure!\<close> is an error value.
\<close>

section \<open>Data\<close>

definition human_task_schema_version :: nat where
  "human_task_schema_version = 1"

datatype human_task_type =
    TaskApproval | TaskInputRequest | TaskOutputReview | TaskRecovery | TaskReconnect
  | TaskDataCorrection | TaskReconciliation | TaskManual

fun human_task_type_str :: "human_task_type \<Rightarrow> string" where
  "human_task_type_str TaskApproval = ''approval''"
| "human_task_type_str TaskInputRequest = ''input_request''"
| "human_task_type_str TaskOutputReview = ''output_review''"
| "human_task_type_str TaskRecovery = ''recovery''"
| "human_task_type_str TaskReconnect = ''reconnect''"
| "human_task_type_str TaskDataCorrection = ''data_correction''"
| "human_task_type_str TaskReconciliation = ''recovery''"
| "human_task_type_str TaskManual = ''manual''"

datatype human_task_status = TaskPending | TaskCompleted | TaskCancelled

datatype human_task_source_kind = FromFlowRun | FromDeliveryReceipt

datatype human_task_action =
    ApproveAction | RejectAction | RetryAction | ResumeAction | SubmitAction | ReconnectAction
  | AcknowledgeAction | CancelAction

record human_task_resolution =
  hr_action :: human_task_action
  hr_note :: "string option"
  hr_resolved_by :: string
  hr_resolved_at :: timestamp
  hr_command_id :: "uuid option"
  hr_idempotency_key :: "string option"
  hr_response :: "json option"

record human_task =
  ht_schema_version :: nat
  ht_id :: uuid
  ht_revision :: nat
  ht_thread_id :: uuid
  ht_source_kind :: human_task_source_kind
  ht_source_id :: uuid
  ht_source_node_run_id :: "uuid option"
  ht_source_node_id :: "string option"
  ht_task_type :: human_task_type
  ht_status :: human_task_status
  ht_title :: string
  ht_description :: string
  ht_allowed_actions :: "human_task_action list"
  ht_payload :: json
  ht_action_schema :: "json option"
  ht_assigned_to :: "string option"
  ht_claimed_by :: "string option"
  ht_claimed_at :: "timestamp option"
  ht_due_at :: "timestamp option"
  ht_checkpoint_id :: "uuid option"
  ht_continuation_id :: "uuid option"
  ht_resolution :: "human_task_resolution option"
  ht_created_at :: timestamp
  ht_updated_at :: timestamp
  ht_resolved_at :: "timestamp option"

datatype human_task_error = NotPending | EmptyActor | ClaimedByOther | ActionNotAllowed

section \<open>Constructors\<close>

definition stable_task_id :: "runtime_env \<Rightarrow> uuid \<Rightarrow> string \<Rightarrow> string \<Rightarrow> uuid" where
  "stable_task_id env flow_run_id kind boundary_key =
     env_uuid_v5 env flow_run_id (''human-task:'' @ kind @ '':'' @ boundary_key)"

definition hours :: "nat \<Rightarrow> timestamp" where
  "hours n = int n * 3600 * 1000000000"

definition delivery_task ::
    "runtime_env \<Rightarrow> uuid \<Rightarrow> uuid \<Rightarrow> human_task_type \<Rightarrow> string \<Rightarrow> string \<Rightarrow> human_task_action list
      \<Rightarrow> string option \<Rightarrow> json \<Rightarrow> nat \<Rightarrow> human_task" where
  "delivery_task env thread_id receipt_id task_type title description allowed assigned_to payload
       due_hours =
     \<lparr>ht_schema_version = human_task_schema_version,
      ht_id = stable_task_id env receipt_id (human_task_type_str task_type) ''delivery'',
      ht_revision = 1, ht_thread_id = thread_id, ht_source_kind = FromDeliveryReceipt,
      ht_source_id = receipt_id, ht_source_node_run_id = None, ht_source_node_id = None,
      ht_task_type = task_type, ht_status = TaskPending, ht_title = title,
      ht_description = description, ht_allowed_actions = allowed, ht_payload = payload,
      ht_action_schema = None, ht_assigned_to = assigned_to, ht_claimed_by = None,
      ht_claimed_at = None, ht_due_at = Some (env_now env + hours due_hours),
      ht_checkpoint_id = None, ht_continuation_id = None, ht_resolution = None,
      ht_created_at = env_now env, ht_updated_at = env_now env, ht_resolved_at = None\<rparr>"

definition delivery_handoff ::
    "runtime_env \<Rightarrow> uuid \<Rightarrow> uuid \<Rightarrow> string \<Rightarrow> string \<Rightarrow> string option \<Rightarrow> json \<Rightarrow> human_task" where
  "delivery_handoff env thread_id receipt_id title description assigned_to payload =
     delivery_task env thread_id receipt_id TaskManual title description
       [AcknowledgeAction, CancelAction] assigned_to payload 24"

definition delivery_recovery :: "runtime_env \<Rightarrow> uuid \<Rightarrow> uuid \<Rightarrow> string \<Rightarrow> json \<Rightarrow> human_task" where
  "delivery_recovery env thread_id receipt_id description payload =
     delivery_task env thread_id receipt_id TaskRecovery
       (map char_of [0xE6, 0x81, 0xA2, 0xE5, 0xA4, 0x8D, 0x20, 0x46, 0x6C, 0x6F, 0x77, 0x20, 0xE8, 0xBE,
        0x93, 0xE5, 0x87, 0xBA, 0xE6, 0x8A, 0x95, 0xE9, 0x80, 0x92 :: nat]) description
       [RetryAction, CancelAction] None payload 4"

text \<open>The fields the constructors for flow runs share.\<close>

definition flow_task ::
    "runtime_env \<Rightarrow> uuid \<Rightarrow> uuid \<Rightarrow> uuid \<Rightarrow> uuid option \<Rightarrow> string option \<Rightarrow> human_task_type
      \<Rightarrow> string \<Rightarrow> string \<Rightarrow> human_task_action list \<Rightarrow> json \<Rightarrow> json option \<Rightarrow> nat \<Rightarrow> uuid option
      \<Rightarrow> uuid option \<Rightarrow> human_task" where
  "flow_task env task_id thread_id flow_run_id node_run_id node_id task_type title description
       allowed payload action_schema due_hours checkpoint_id continuation_id =
     \<lparr>ht_schema_version = human_task_schema_version, ht_id = task_id, ht_revision = 1,
      ht_thread_id = thread_id, ht_source_kind = FromFlowRun, ht_source_id = flow_run_id,
      ht_source_node_run_id = node_run_id, ht_source_node_id = node_id, ht_task_type = task_type,
      ht_status = TaskPending, ht_title = title, ht_description = description,
      ht_allowed_actions = allowed, ht_payload = payload, ht_action_schema = action_schema,
      ht_assigned_to = None, ht_claimed_by = None, ht_claimed_at = None,
      ht_due_at = Some (env_now env + hours due_hours), ht_checkpoint_id = checkpoint_id,
      ht_continuation_id = continuation_id, ht_resolution = None, ht_created_at = env_now env,
      ht_updated_at = env_now env, ht_resolved_at = None\<rparr>"

definition flow_approval ::
    "runtime_env \<Rightarrow> uuid \<Rightarrow> uuid \<Rightarrow> uuid \<Rightarrow> string \<Rightarrow> string \<Rightarrow> json \<Rightarrow> human_task" where
  "flow_approval env thread_id flow_run_id node_run_id node_id node_label payload =
     flow_task env (stable_task_id env flow_run_id ''approval'' node_run_id) thread_id flow_run_id
       (Some node_run_id) (Some node_id) TaskApproval
       (map char_of [0xE5, 0xAE, 0xA1, 0xE6, 0x89, 0xB9, 0xEF, 0xBC, 0x9A :: nat] @ node_label)
       (map char_of [0x46, 0x6C, 0x6F, 0x77, 0x20, 0xE5, 0xB7, 0xB2, 0xE5, 0x9C, 0xA8, 0xE8, 0x8A, 0x82,
        0xE7, 0x82, 0xB9, 0xE8, 0xBE, 0xB9, 0xE7, 0x95, 0x8C, 0xE6, 0x9A, 0x82, 0xE5, 0x81,
        0x9C, 0xEF, 0xBC, 0x8C, 0xE7, 0xAD, 0x89, 0xE5, 0xBE, 0x85, 0xE4, 0xBA, 0xBA, 0xE5,
        0xB7, 0xA5, 0xE5, 0x86, 0xB3, 0xE5, 0xAE, 0x9A, 0xE5, 0x90, 0x8E, 0xE5, 0x86, 0x8D,
        0xE7, 0xBB, 0xA7, 0xE7, 0xBB, 0xAD, 0xE6, 0x89, 0xA7, 0xE8, 0xA1, 0x8C, 0xE3, 0x80,
        0x82 :: nat])
       [ApproveAction, RejectAction] payload None 24 None None"

definition flow_recovery ::
    "runtime_env \<Rightarrow> uuid \<Rightarrow> uuid \<Rightarrow> uuid option \<Rightarrow> string option \<Rightarrow> string \<Rightarrow> string \<Rightarrow> json \<Rightarrow> human_task" where
  "flow_recovery env thread_id flow_run_id node_run_id node_id boundary_key description payload =
     flow_task env (stable_task_id env flow_run_id ''recovery'' boundary_key) thread_id flow_run_id
       node_run_id node_id TaskRecovery
       (map char_of [0xE6, 0xA3, 0x80, 0xE6, 0x9F, 0xA5, 0xE5, 0xB9, 0xB6, 0xE6, 0x81, 0xA2, 0xE5, 0xA4,
        0x8D, 0x20, 0x46, 0x6C, 0x6F, 0x77 :: nat]) description
       [RetryAction, CancelAction] payload None 4 None None"

definition flow_output_review ::
    "runtime_env \<Rightarrow> uuid \<Rightarrow> uuid \<Rightarrow> uuid option \<Rightarrow> string option \<Rightarrow> uuid \<Rightarrow> json \<Rightarrow> human_task" where
  "flow_output_review env thread_id flow_run_id node_run_id node_id checkpoint_id payload =
     flow_task env (stable_task_id env flow_run_id ''output-review'' checkpoint_id) thread_id
       flow_run_id node_run_id node_id TaskOutputReview
       (map char_of [0xE5, 0xAE, 0xA1, 0xE9, 0x98, 0x85, 0x20, 0x46, 0x6C, 0x6F, 0x77, 0x20, 0xE8, 0xBE,
        0x93, 0xE5, 0x87, 0xBA :: nat])
       (map char_of [0xE8, 0xBE, 0x93, 0xE5, 0x87, 0xBA, 0xE5, 0xB7, 0xB2, 0xE7, 0xBB, 0x8F, 0xE5, 0x9C,
        0xA8, 0xE4, 0xB8, 0x80, 0xE8, 0x87, 0xB4, 0x20, 0x43, 0x68, 0x65, 0x63, 0x6B, 0x70,
        0x6F, 0x69, 0x6E, 0x74, 0x20, 0xE6, 0x8F, 0x90, 0xE4, 0xBA, 0xA4, 0xE3, 0x80, 0x82,
        0xE9, 0x80, 0x9A, 0xE8, 0xBF, 0x87, 0xE5, 0x90, 0x8E, 0x20, 0x52, 0x75, 0x6E, 0x20,
        0xE6, 0x89, 0x8D, 0xE4, 0xBC, 0x9A, 0xE6, 0xA0, 0x87, 0xE8, 0xAE, 0xB0, 0xE4, 0xB8,
        0xBA, 0xE6, 0x88, 0x90, 0xE5, 0x8A, 0x9F, 0xE3, 0x80, 0x82 :: nat])
       [ApproveAction, RejectAction] payload
       (Some (json_of_map [(''type'', JString ''output_review''),
                           (''required'', JArray [JString ''decision''])]))
       24 (Some checkpoint_id) None"

definition json_or_null :: "json option \<Rightarrow> json" where
  "json_or_null v = (case v of Some j \<Rightarrow> j | None \<Rightarrow> JNull)"

definition interrupt_action_schema :: "interrupt_request \<Rightarrow> json" where
  "interrupt_action_schema i =
     (case ir_kind i of
        KApproval \<Rightarrow>
          json_of_map [(''type'', JString ''approval''), (''required'', JArray [JString ''decision''])]
      | KInputRequest \<Rightarrow>
          json_of_map [(''type'', JString ''user_input_response''),
            (''request'', json_or_null (json_get (ir_payload i) ''request''))]
      | KExternalAction \<Rightarrow>
          json_of_map [(''type'', JString ''external_observation''),
            (''required'', JArray [JString ''observation''])]
      | KEffectReconciliation \<Rightarrow>
          json_of_map [(''type'', JString ''effect_reconciliation''),
            (''required'', JArray [JString ''observation'']),
            (''effectId'', json_or_null (json_get (ir_payload i) ''effectId''))]
      | KResumeRetry \<Rightarrow>
          json_of_map [(''type'', JString ''resume_retry''),
            (''required'', JArray [JString ''retry''])])"

fun interrupt_task_kind :: "interrupt_kind \<Rightarrow> human_task_type \<times> human_task_action list \<times> nat" where
  "interrupt_task_kind KApproval = (TaskApproval, [ApproveAction, RejectAction], 24)"
| "interrupt_task_kind KInputRequest = (TaskInputRequest, [SubmitAction, CancelAction], 24)"
| "interrupt_task_kind KExternalAction = (TaskReconnect, [ResumeAction, CancelAction], 8)"
| "interrupt_task_kind KEffectReconciliation =
     (TaskReconciliation, [AcknowledgeAction, CancelAction], 4)"
| "interrupt_task_kind KResumeRetry = (TaskRecovery, [RetryAction, CancelAction], 4)"

definition flow_interrupt :: "runtime_env \<Rightarrow> uuid \<Rightarrow> uuid \<Rightarrow> interrupt_request \<Rightarrow> json \<Rightarrow> human_task" where
  "flow_interrupt env thread_id flow_run_id i payload =
     (let (task_type, allowed, due_hours) = interrupt_task_kind (ir_kind i) in
        flow_task env (stable_task_id env flow_run_id ''interrupt'' (ir_id i)) thread_id flow_run_id
          (Some (ir_node_run_id i)) (Some (ir_node_id i)) task_type (ir_title i) (ir_description i)
          allowed payload (Some (interrupt_action_schema i)) due_hours (Some (ir_checkpoint_id i))
          (Some (ce_id (ir_continuation i))))"

section \<open>Operations\<close>

definition bump_task :: "runtime_env \<Rightarrow> human_task \<Rightarrow> human_task" where
  \<comment> \<open>\<open>updated_at = now; revision = revision.saturating_add(1)\<close>\<close>
  "bump_task env t = t\<lparr>ht_updated_at := env_now env, ht_revision := u32_sat_add (ht_revision t) 1\<rparr>"

definition claim :: "runtime_env \<Rightarrow> string \<Rightarrow> human_task \<Rightarrow> human_task_error + human_task" where
  "claim env actor t =
     res_ensure (ht_status t = TaskPending) NotPending
    (res_ensure (trim actor \<noteq> []) EmptyActor
    (res_ensure (case ht_claimed_by t of None \<Rightarrow> True | Some c \<Rightarrow> c = actor) ClaimedByOther
    (if ht_claimed_by t = Some actor then Inr t
     else Inr (bump_task env
            (t\<lparr>ht_claimed_by := Some actor, ht_claimed_at := Some (env_now env)\<rparr>)))))"

definition assign :: "runtime_env \<Rightarrow> string option \<Rightarrow> human_task \<Rightarrow> human_task_error + human_task" where
  "assign env assignee t =
     res_ensure (ht_status t = TaskPending) NotPending
       (Inr (bump_task env (t\<lparr>ht_assigned_to := nonblank assignee\<rparr>)))"

definition settle ::
    "runtime_env \<Rightarrow> human_task_status \<Rightarrow> human_task_action \<Rightarrow> string option \<Rightarrow> string \<Rightarrow> uuid option
      \<Rightarrow> string option \<Rightarrow> json option \<Rightarrow> human_task \<Rightarrow> human_task" where
  "settle env status action note resolved_by command_id key response t =
     bump_task env
       (t\<lparr>ht_status := status,
          ht_resolution := Some
            \<lparr>hr_action = action, hr_note = nonblank note, hr_resolved_by = resolved_by,
             hr_resolved_at = env_now env, hr_command_id = command_id,
             hr_idempotency_key = nonblank key, hr_response = response\<rparr>,
          ht_resolved_at := Some (env_now env)\<rparr>)"

definition resolve_with_command ::
    "runtime_env \<Rightarrow> human_task_action \<Rightarrow> string option \<Rightarrow> string \<Rightarrow> uuid option \<Rightarrow> string option
      \<Rightarrow> json option \<Rightarrow> human_task \<Rightarrow> human_task_error + human_task" where
  "resolve_with_command env action note resolved_by command_id key response t =
     res_ensure (ht_status t = TaskPending) NotPending
    (res_ensure (action \<in> set (ht_allowed_actions t)) ActionNotAllowed
      (Inr (settle env (if action = CancelAction then TaskCancelled else TaskCompleted) action note
              resolved_by command_id key response t)))"

definition resolve_task ::
    "runtime_env \<Rightarrow> human_task_action \<Rightarrow> string option \<Rightarrow> string \<Rightarrow> human_task
      \<Rightarrow> human_task_error + human_task" where
  "resolve_task env action note resolved_by t =
     resolve_with_command env action note resolved_by None None None t"

definition cancel_task ::
    "runtime_env \<Rightarrow> string option \<Rightarrow> string \<Rightarrow> human_task \<Rightarrow> human_task_error + human_task" where
  "cancel_task env note resolved_by t =
     res_ensure (ht_status t = TaskPending) NotPending
       (Inr (settle env TaskCancelled CancelAction note resolved_by None None None t))"

section \<open>The life of a task\<close>

text \<open>One successful operation on a task, by any operator at any time.\<close>

inductive task_step :: "human_task \<Rightarrow> human_task \<Rightarrow> bool" where
  step_claim: "claim env actor t = Inr t' \<Longrightarrow> task_step t t'"
| step_assign: "assign env assignee t = Inr t' \<Longrightarrow> task_step t t'"
| step_resolve: "resolve_with_command env action note by_whom command_id key response t = Inr t' \<Longrightarrow>
    task_step t t'"
| step_cancel: "cancel_task env note by_whom t = Inr t' \<Longrightarrow> task_step t t'"

inductive_cases task_stepE: "task_step t t'"

definition human_task_inv :: "human_task \<Rightarrow> bool" where
  "human_task_inv t \<longleftrightarrow>
     (ht_status t = TaskPending \<longleftrightarrow> ht_resolution t = None)
     \<and> (ht_resolution t = None \<longleftrightarrow> ht_resolved_at t = None)
     \<and> (\<forall>r. ht_resolution t = Some r \<longrightarrow>
          (ht_status t = TaskCancelled \<longleftrightarrow> hr_action r = CancelAction))"

lemmas task_ops = claim_def assign_def resolve_with_command_def cancel_task_def settle_def
  bump_task_def

lemma task_step_from_pending: "task_step t t' \<Longrightarrow> ht_status t = TaskPending"
  by (erule task_stepE) (auto simp: task_ops res_Inr_iffs)

lemma task_step_inv: "task_step t t' \<Longrightarrow> human_task_inv t \<Longrightarrow> human_task_inv t'"
  by (erule task_stepE) (auto simp: task_ops res_Inr_iffs human_task_inv_def split: if_splits)

lemma task_step_identity:
  "task_step t t' \<Longrightarrow> ht_id t' = ht_id t \<and> ht_source_id t' = ht_source_id t
     \<and> ht_allowed_actions t' = ht_allowed_actions t \<and> ht_payload t' = ht_payload t"
  by (erule task_stepE) (auto simp: task_ops res_Inr_iffs split: if_splits)

lemma task_step_revision:
  "task_step t t' \<Longrightarrow> ht_revision t < u32_max \<Longrightarrow> t' \<noteq> t \<longrightarrow> ht_revision t < ht_revision t'"
  by (erule task_stepE)
     (auto simp: task_ops res_Inr_iffs u32_sat_add_grows [unfolded One_nat_def]
       split: if_splits)

lemma resolved_no_step: "ht_status t \<noteq> TaskPending \<Longrightarrow> \<not> task_step t t'"
  using task_step_from_pending by blast

lemma task_steps_resolved: "task_step\<^sup>*\<^sup>* t t' \<Longrightarrow> ht_status t \<noteq> TaskPending \<Longrightarrow> t' = t"
  by (erule converse_rtranclpE) (auto simp: resolved_no_step)

lemma flow_task_inv:
  "human_task_inv (flow_approval env th run nr n l p)"
  "human_task_inv (flow_recovery env th run onr onn bk d p)"
  "human_task_inv (flow_output_review env th run onr onn c p)"
  "human_task_inv (flow_interrupt env th run i p)"
  "human_task_inv (delivery_handoff env th r ti d asg p)"
  "human_task_inv (delivery_recovery env th r d p)"
  by (simp_all add: human_task_inv_def flow_approval_def flow_recovery_def flow_output_review_def
      flow_interrupt_def delivery_handoff_def delivery_recovery_def delivery_task_def flow_task_def
      case_prod_beta)

section \<open>Properties\<close>

text \<open>
  C37: A human task is settled once.  In every life of a task that starts consistent (as all constructors
  make it), the task stays consistent and keeps its identity and payload; once it is completed or
  cancelled no operation succeeds any more, and the decision recorded then is the one that stays.
\<close>
theorem human_task_settles_once:
  assumes "human_task_inv t" and "task_step\<^sup>*\<^sup>* t t'"
  shows "human_task_inv t' \<and> ht_id t' = ht_id t \<and> ht_payload t' = ht_payload t
    \<and> (ht_status t' \<noteq> TaskPending \<longrightarrow> (\<forall>t''. task_step\<^sup>*\<^sup>* t' t'' \<longrightarrow> t'' = t'))"
  using assms(2,1)
proof (induction rule: rtranclp_induct)
  case base
  then show ?case by (auto dest: task_steps_resolved)
next
  case (step y z)
  then show ?case
    by (auto dest: task_step_inv task_step_identity task_steps_resolved)
qed

definition example_task :: human_task where
  "example_task = flow_approval example_env ''th'' ''run'' ''nr'' ''n'' ''Deploy'' JNull"

lemma human_task_settles_once_witness:
  "\<exists>t'. resolve_task example_env ApproveAction None ''me'' example_task = Inr t'
     \<and> ht_status t' = TaskCompleted \<and> (\<forall>t''. task_step\<^sup>*\<^sup>* t' t'' \<longrightarrow> t'' = t')"
proof -
  let ?t = "settle example_env TaskCompleted ApproveAction None ''me'' None None None example_task"
  have res: "resolve_task example_env ApproveAction None ''me'' example_task = Inr ?t"
    by (simp add: resolve_task_def resolve_with_command_def res_ensure_def example_task_def
        flow_approval_def flow_task_def)
  then have "task_step\<^sup>*\<^sup>* example_task ?t"
    unfolding resolve_task_def by (blast intro: step_resolve)
  moreover have "human_task_inv example_task" by (simp add: example_task_def flow_task_inv)
  ultimately have "ht_status ?t \<noteq> TaskPending \<longrightarrow> (\<forall>t''. task_step\<^sup>*\<^sup>* ?t t'' \<longrightarrow> t'' = ?t)"
    using human_task_settles_once by blast
  moreover have "ht_status ?t = TaskCompleted" by (simp add: settle_def bump_task_def)
  ultimately show ?thesis using res by simp
qed

text \<open>
  Only the holder of a claim keeps it.  Claiming a pending task with a blank name fails; claiming a
  task that another operator holds fails; the holder may claim again and changes nothing; a free task
  goes to the claimant and its revision grows (below the maximal 32-bit revision).
\<close>
lemma claim_is_exclusive:
  assumes "ht_status t = TaskPending" and "trim actor \<noteq> []" and "ht_revision t < u32_max"
  shows "claim env actor t =
      (case ht_claimed_by t of
         Some holder \<Rightarrow> if holder = actor then Inr t else Inl ClaimedByOther
       | None \<Rightarrow> Inr (t\<lparr>ht_claimed_by := Some actor, ht_claimed_at := Some (env_now env),
                       ht_updated_at := env_now env, ht_revision := ht_revision t + 1\<rparr>))
    \<and> claim env [] t = Inl EmptyActor"
  using assms
  by (auto simp: claim_def res_ensure_def bump_task_def u32_sat_add_def split: option.split)

end
