(* ===== verification/Flow_Run.thy ===== *)
theory Flow_Run
  imports Human_Task
begin

text \<open>
  The state of a flow run and the pure parts of its runtime (\<open>flow_runtime.rs\<close>): statuses, node runs,
  checkpoints, edge conditions, the input of a node, routing with loop budgets, the deterministic nodes
  and the run budget.

  Of \<open>FlowRunV1\<close> the model keeps what the runtime reads or writes; identifiers of drafts and
  definitions and the capability snapshot, which it only carries along, are left out, and of the flow
  revision only its trigger is kept.  An error of \<open>anyhow\<close> is its message, except for the two errors of
  the store that the runtime tells apart.
\<close>

section \<open>Data\<close>

datatype flow_run_status =
    Queued | Running | PauseRequested | Paused | WaitingApproval | WaitingHuman | Resuming
  | Succeeded | Failed | CancelRequested | Cancelled

definition is_terminal :: "flow_run_status \<Rightarrow> bool" where
  "is_terminal s \<longleftrightarrow> s \<in> {Succeeded, Failed, Cancelled}"

fun flow_run_status_str :: "flow_run_status \<Rightarrow> string" where
  "flow_run_status_str Queued = ''queued''"
| "flow_run_status_str Running = ''running''"
| "flow_run_status_str PauseRequested = ''pause_requested''"
| "flow_run_status_str Paused = ''paused''"
| "flow_run_status_str WaitingApproval = ''waiting_approval''"
| "flow_run_status_str WaitingHuman = ''waiting_approval''"
| "flow_run_status_str Resuming = ''running''"
| "flow_run_status_str Succeeded = ''succeeded''"
| "flow_run_status_str Failed = ''failed''"
| "flow_run_status_str CancelRequested = ''cancel_requested''"
| "flow_run_status_str Cancelled = ''cancelled''"

datatype node_run_status =
    NodeRunning | NodeWaitingApproval | NodeWaitingHuman | NodeResuming | NodeSucceeded | NodeFailed
  | NodeCancelled

record node_run =
  nr_id :: uuid
  nr_node_id :: string
  nr_attempt :: nat
  nr_status :: node_run_status
  nr_input :: json
  nr_output :: "json option"
  nr_error :: "string option"
  nr_tool_calls :: nat
  nr_transcript :: "transcript_entry list"
  nr_started_at :: timestamp
  nr_completed_at :: "timestamp option"

datatype checkpoint_status = CheckpointRunning | Committed | CheckpointFailed | CheckpointCancelled

record superstep_node =
  sn_node_id :: string
  sn_node_run_id :: uuid
  sn_attempt :: nat
  sn_input :: json

record execution_result =
  er_output :: json
  er_tool_calls :: nat
  er_transcript :: "transcript_entry list"

datatype execution_outcome = Completed execution_result | Interrupted node_interrupt

record pending_write =
  pw_node_id :: string
  pw_node_run_id :: uuid
  pw_result :: "execution_result option"
  pw_error :: "string option"
  pw_interrupt :: "interrupt_request option"
  pw_resume_command :: "resume_command option"
  pw_completed_at :: timestamp

record checkpoint =
  cp_id :: uuid
  cp_superstep :: nat
  cp_status :: checkpoint_status
  cp_nodes :: "superstep_node list"
  cp_pending_writes :: "pending_write list"
  cp_created_at :: timestamp
  cp_completed_at :: "timestamp option"

record checkpoint_summary =
  cs_id :: uuid
  cs_superstep :: nat
  cs_status :: checkpoint_status
  cs_node_ids :: "string list"
  cs_pending_write_count :: nat
  cs_created_at :: timestamp
  cs_completed_at :: timestamp

record flow_run =
  fr_id :: uuid
  fr_thread_id :: uuid
  fr_flow_id :: string
  fr_flow_version :: nat
  fr_revision :: nat
  fr_status :: flow_run_status
  fr_input :: json
  fr_ingress_trigger :: "workflow_trigger option"
  fr_revision_trigger :: "workflow_trigger option"
  fr_output :: "json option"
  fr_graph :: graph_definition
  fr_budget :: flow_budget
  fr_ready_nodes :: "string list"
  fr_node_runs :: "node_run list"
  fr_node_outputs :: "(string, json) btree"
  fr_state :: "(string, json) btree"
  fr_superstep :: nat
  fr_active_checkpoint :: "checkpoint option"
  fr_checkpoint_history :: "checkpoint_summary list"
  fr_loop_counts :: "(string, nat) btree"
  fr_node_executions :: nat
  fr_tool_calls :: nat
  fr_output_review_required :: bool
  fr_output_reviewed :: bool
  fr_waiting_node_id :: "string option"
  fr_active_human_task_id :: "uuid option"
  fr_error :: "string option"
  fr_created_at :: timestamp
  fr_started_at :: "timestamp option"
  fr_completed_at :: "timestamp option"
  fr_updated_at :: timestamp

datatype flow_error = Message string | RunRevisionConflict nat | RunNotFound uuid

fun flow_error_str :: "flow_error \<Rightarrow> string" where
  "flow_error_str (Message m) = m"
| "flow_error_str (RunRevisionConflict n) =
     ''Flow run revision conflict; current revision is '' @ show_nat n"
| "flow_error_str (RunNotFound i) = ''Flow run not found: '' @ i"

section \<open>A new run\<close>

definition enterprise_schema_version :: nat where
  "enterprise_schema_version = 1"

datatype output_review_policy = ExplicitNodesOnly | AlwaysReviewOutput

record compiled_workflow =
  cw_schema_version :: nat
  cw_flow_id :: string
  cw_flow_version :: nat
  cw_graph :: graph_definition
  cw_budget :: flow_budget

record flow_revision =
  rv_schema_version :: nat
  rv_workflow :: compiled_workflow
  rv_trigger :: workflow_trigger
  rv_output_review_policy :: output_review_policy

definition new_from_revision ::
    "runtime_env \<Rightarrow> uuid \<Rightarrow> flow_revision \<Rightarrow> json \<Rightarrow> workflow_trigger \<Rightarrow> flow_error + flow_run" where
  "new_from_revision env thread_id revision v trigger =
     (let workflow = rv_workflow revision in
      res_ensure (cw_schema_version workflow = enterprise_schema_version
                  \<and> rv_schema_version revision = enterprise_schema_version)
        (Message ''Flow revision uses an unsupported schema version'')
        (Inr \<lparr>fr_id = env_uuid env 0, fr_thread_id = thread_id, fr_flow_id = cw_flow_id workflow,
              fr_flow_version = cw_flow_version workflow, fr_revision = 1, fr_status = Queued,
              fr_input = v, fr_ingress_trigger = Some trigger,
              fr_revision_trigger = Some (rv_trigger revision), fr_output = None,
              fr_graph = cw_graph workflow, fr_budget = cw_budget workflow,
              fr_ready_nodes = initial_ready_nodes (env_decode_activation env) (cw_graph workflow)
                (Some trigger),
              fr_node_runs = [], fr_node_outputs = [], fr_state = [], fr_superstep = 0,
              fr_active_checkpoint = None, fr_checkpoint_history = [], fr_loop_counts = [],
              fr_node_executions = 0, fr_tool_calls = 0,
              fr_output_review_required = (rv_output_review_policy revision = AlwaysReviewOutput),
              fr_output_reviewed = False, fr_waiting_node_id = None, fr_active_human_task_id = None,
              fr_error = None, fr_created_at = env_now env, fr_started_at = None,
              fr_completed_at = None, fr_updated_at = env_now env\<rparr>))"

section \<open>Small operations on a run\<close>

definition touch :: "runtime_env \<Rightarrow> flow_run \<Rightarrow> flow_run" where
  "touch env r = r\<lparr>fr_revision := u32_sat_add (fr_revision r) 1, fr_updated_at := env_now env\<rparr>"

definition fail_run :: "runtime_env \<Rightarrow> string \<Rightarrow> flow_run \<Rightarrow> flow_run" where
  "fail_run env message r =
     touch env (r\<lparr>fr_status := Failed, fr_error := Some message,
                  fr_completed_at := Some (env_now env)\<rparr>)"

definition next_attempt :: "flow_run \<Rightarrow> string \<Rightarrow> nat" where
  "next_attempt r node_id =
     u32_cast (length (filter (\<lambda>n. nr_node_id n = node_id) (fr_node_runs r)) + 1)"

definition update_last :: "('a \<Rightarrow> bool) \<Rightarrow> ('a \<Rightarrow> 'a) \<Rightarrow> 'a list \<Rightarrow> 'a list" where
  \<comment> \<open>\<open>iter_mut().rev().find(p)\<close> followed by an assignment\<close>
  "update_last p f xs = rev (update_first p f (rev xs))"

definition is_active_node_run :: "string \<Rightarrow> node_run \<Rightarrow> bool" where
  "is_active_node_run node_id n \<longleftrightarrow> nr_node_id n = node_id \<and> nr_completed_at n = None"

definition active_node_run :: "flow_run \<Rightarrow> string \<Rightarrow> node_run option" where
  "active_node_run r node_id = find (is_active_node_run node_id) (rev (fr_node_runs r))"

definition pending_resume_command_id :: "flow_run \<Rightarrow> uuid option" where
  "pending_resume_command_id r =
     Option.bind (fr_active_checkpoint r) (\<lambda>c.
       find_map (\<lambda>w. case (pw_interrupt w, pw_resume_command w) of
           (Some i, Some command) \<Rightarrow> if validates command i then Some (rc_id command) else None
         | _ \<Rightarrow> None) (cp_pending_writes c))"

definition enqueue_unique :: "string \<Rightarrow> string list \<Rightarrow> string list" where
  "enqueue_unique node_id queue = (if node_id \<in> set queue then queue else queue @ [node_id])"

definition terminal_output :: "flow_run \<Rightarrow> json option" where
  "terminal_output r =
     (case find_map nr_output (rev (fr_node_runs r)) of
        Some out \<Rightarrow> Some out
      | None \<Rightarrow> Some (fr_input r))"

definition error_route :: "graph_definition \<Rightarrow> string \<Rightarrow> string option" where
  "error_route g node_id =
     Option.bind (find (\<lambda>e. ge_from e = node_id \<and> ge_on_error e \<noteq> None) (gd_edges g)) ge_on_error"

section \<open>Conditions\<close>

definition value_at_path :: "json \<Rightarrow> string \<Rightarrow> json option" where
  "value_at_path v path0 =
     (let path = trim_start_matches (trim_start_matches (trim path0) ''$.'') ''output.'' in
        if path = [] \<or> path = ''$'' \<or> path = ''output'' then Some v
        else json_walk v (split_char (CHR ''.'') path))"

definition value_truthy :: "json \<Rightarrow> bool" where
  "value_truthy v \<longleftrightarrow>
     (case v of
        JNull \<Rightarrow> False
      | JBool b \<Rightarrow> b
      | JNumber n \<Rightarrow> (case n of PosInt k \<Rightarrow> k \<noteq> 0 | NegInt k \<Rightarrow> k \<noteq> 0 | FloatNum m e \<Rightarrow> m \<noteq> 0)
      | JString s \<Rightarrow> s \<noteq> []
      | JArray vs \<Rightarrow> vs \<noteq> []
      | JObject m \<Rightarrow> m \<noteq> [])"

definition is_quote :: "char \<Rightarrow> bool" where
  "is_quote c \<longleftrightarrow> c = CHR 0x27 \<or> c = CHR 0x22"

definition trim_quotes :: "string \<Rightarrow> string" where
  \<comment> \<open>\<open>trim_matches\<close> with both quote characters\<close>
  "trim_quotes s = rev (dropWhile is_quote (rev (dropWhile is_quote s)))"

definition parse_condition_literal :: "runtime_env \<Rightarrow> string \<Rightarrow> json" where
  "parse_condition_literal env s =
     (case env_parse_json env s of Some v \<Rightarrow> v | None \<Rightarrow> JString (trim_quotes s))"

definition evaluate_condition :: "runtime_env \<Rightarrow> string \<Rightarrow> json \<Rightarrow> bool" where
  "evaluate_condition env expression0 v =
     (let expression = trim expression0;
          at = (\<lambda>path. case value_at_path v (trim path) of Some w \<Rightarrow> w | None \<Rightarrow> JNull)
      in if eq_ignore_ascii_case expression ''true'' then True
         else if eq_ignore_ascii_case expression ''false'' then False
         else
           (case strip_prefix expression ''!'' of
              Some path \<Rightarrow> \<not> value_truthy (at path)
            | None \<Rightarrow>
                (case split_once expression ''=='' of
                   Some (left, right) \<Rightarrow> at left = parse_condition_literal env (trim right)
                 | None \<Rightarrow>
                     (case split_once expression ''!='' of
                        Some (left, right) \<Rightarrow> at left \<noteq> parse_condition_literal env (trim right)
                      | None \<Rightarrow>
                          (case value_at_path v expression of
                             Some w \<Rightarrow> value_truthy w
                           | None \<Rightarrow> False)))))"

section \<open>Inputs of a node\<close>

definition join_ready :: "flow_run \<Rightarrow> string \<Rightarrow> bool" where
  "join_ready r node_id \<longleftrightarrow>
     list_all (\<lambda>e. bt_contains (fr_node_outputs r) (ge_from e))
       (filter (\<lambda>e. ge_to e = node_id \<and> ge_loop_policy e = None) (gd_edges (fr_graph r)))"

definition project_edge_value :: "json \<Rightarrow> graph_edge \<Rightarrow> json" where
  "project_edge_value v e =
     (if ge_allowed_fields e = [] then v
      else
        (case as_object v of
           None \<Rightarrow> v
         | Some m \<Rightarrow> JObject (filter (\<lambda>(key, _). key \<in> set (ge_allowed_fields e)) m)))"

definition incoming_values :: "flow_run \<Rightarrow> string \<Rightarrow> (string \<times> json) list" where
  "incoming_values r node_id =
     List.map_filter (\<lambda>e. map_option (\<lambda>v. (ge_from e, project_edge_value v e))
         (bt_get (fr_node_outputs r) (ge_from e)))
       (filter (\<lambda>e. ge_to e = node_id) (gd_edges (fr_graph r)))"

definition node_input :: "flow_run \<Rightarrow> string \<Rightarrow> json" where
  "node_input r node_id =
     (case incoming_values r node_id of
        [] \<Rightarrow> fr_input r
      | [(_, v)] \<Rightarrow> v
      | incoming \<Rightarrow> json_of_map incoming)"

section \<open>Readiness\<close>

definition ready_superstep_nodes :: "runtime_env \<Rightarrow> flow_run \<Rightarrow> string list" where
  "ready_superstep_nodes env r =
     (let ingress = (case fr_ingress_trigger r of
                       Some t \<Rightarrow> Some t
                     | None \<Rightarrow> fr_revision_trigger r)
      in filter (\<lambda>node_id.
           case find_node (fr_graph r) node_id of
             None \<Rightarrow> False
           | Some n \<Rightarrow>
               (case node_activation_ready (env_decode_activation env) n ingress
                       (bt_keys (fr_node_outputs r)) of
                  Inr (Some ready) \<Rightarrow> ready
                | _ \<Rightarrow> gn_kind n \<noteq> JoinNode \<or> join_ready r node_id)) (fr_ready_nodes r))"

definition node_is_parallel_safe :: "graph_node \<Rightarrow> bool" where
  "node_is_parallel_safe n \<longleftrightarrow>
     gn_kind n \<in> {ConditionNode, ValidatorNode, JoinNode, LoopNode, OutputNode}
     \<or> Option.bind (json_get (gn_config n) ''parallelSafe'') as_bool = Some True"

section \<open>Routing\<close>

definition consume_loop_budget ::
    "runtime_env \<Rightarrow> nat \<Rightarrow> graph_loop_policy \<Rightarrow> flow_run \<Rightarrow> flow_error + (bool \<times> flow_run)" where
  "consume_loop_budget env edge_index policy r =
     (let key = show_nat edge_index;
          count = (case bt_get (fr_loop_counts r) key of Some c \<Rightarrow> c | None \<Rightarrow> 0);
          r0 = r\<lparr>fr_loop_counts := bt_insert key count (fr_loop_counts r)\<rparr>;
          maximum = min (lp_max_iterations policy) (fb_max_loop_iterations (fr_budget r))
      in if count < maximum then
           Inr (True, r0\<lparr>fr_loop_counts := bt_insert key (u32_sat_add count 1) (fr_loop_counts r0)\<rparr>)
         else
           (case lp_on_exhausted policy of
              FailLoop \<Rightarrow>
                Inl (Message (''Flow loop budget exhausted after '' @ show_nat maximum
                              @ '' iteration(s)''))
            | RequireHuman \<Rightarrow>
                Inr (False, r0\<lparr>fr_status := Paused,
                  fr_error := Some (''loop budget exhausted after '' @ show_nat maximum
                                    @ '' iteration(s); human decision required'')\<rparr>)
            | ReturnPartial \<Rightarrow>
                Inr (False, r0\<lparr>fr_status := Succeeded, fr_output := terminal_output r0,
                  fr_completed_at := Some (env_now env)\<rparr>)))"

fun route_edges ::
    "runtime_env \<Rightarrow> json \<Rightarrow> (nat \<times> graph_edge) list \<Rightarrow> flow_run \<Rightarrow> flow_error + flow_run" where
  "route_edges env out [] r = Inr r"
| "route_edges env out ((index, e) # rest) r =
     (if \<not> (case ge_condition e of None \<Rightarrow> True | Some c \<Rightarrow> evaluate_condition env c out) then
        route_edges env out rest r
      else
        (case ge_loop_policy e of
           None \<Rightarrow>
             route_edges env out rest
               (r\<lparr>fr_ready_nodes := enqueue_unique (ge_to e) (fr_ready_nodes r)\<rparr>)
         | Some policy \<Rightarrow>
             if \<not> evaluate_condition env (lp_continue_condition policy) out then
               route_edges env out rest r
             else
               res_bind (consume_loop_budget env index policy r) (\<lambda>(continue, r').
                 route_edges env out rest
                   (if continue
                    then r'\<lparr>fr_ready_nodes := enqueue_unique (ge_to e) (fr_ready_nodes r')\<rparr>
                    else r'))))"

definition outgoing_edges :: "graph_definition \<Rightarrow> string \<Rightarrow> (nat \<times> graph_edge) list" where
  "outgoing_edges g node_id =
     filter (\<lambda>(_, e). ge_from e = node_id) (List.enumerate 0 (gd_edges g))"

definition route_after_node ::
    "runtime_env \<Rightarrow> string \<Rightarrow> json \<Rightarrow> flow_run \<Rightarrow> flow_error + flow_run" where
  "route_after_node env node_id out r = route_edges env out (outgoing_edges (fr_graph r) node_id) r"

section \<open>Deterministic nodes\<close>

definition node_expression_holds :: "runtime_env \<Rightarrow> graph_node \<Rightarrow> json \<Rightarrow> bool" where
  "node_expression_holds env n v \<longleftrightarrow>
     (case Option.bind (json_get (gn_config n) ''expression'') as_str of
        Some expression \<Rightarrow> evaluate_condition env expression v
      | None \<Rightarrow> True)"

fun node_kind_debug :: "node_kind \<Rightarrow> string" where
  "node_kind_debug AgentNode = ''Agent''"
| "node_kind_debug SkillNode = ''Skill''"
| "node_kind_debug ToolNode = ''Tool''"
| "node_kind_debug ConditionNode = ''Condition''"
| "node_kind_debug ValidatorNode = ''Validator''"
| "node_kind_debug ApprovalNode = ''Approval''"
| "node_kind_debug JoinNode = ''Join''"
| "node_kind_debug LoopNode = ''Loop''"
| "node_kind_debug OutputNode = ''Output''"

definition execute_runtime_node ::
    "runtime_env \<Rightarrow> graph_node \<Rightarrow> json \<Rightarrow> flow_error + execution_result" where
  "execute_runtime_node env n v =
     res_bind
       (case gn_kind n of
          ValidatorNode \<Rightarrow>
            (let required = (case Option.bind (json_get (gn_config n) ''requiredFields'') as_array of
                               Some listed \<Rightarrow> listed
                             | None \<Rightarrow> []);
                 missing = filter (\<lambda>field. value_at_path v field = None)
                             (List.map_filter as_str required)
             in Inr (json_of_map
                  [(''passed'', JBool (missing = [] \<and> node_expression_holds env n v)),
                   (''missingFields'', JArray (map JString missing)), (''value'', v)]))
        | ConditionNode \<Rightarrow>
            Inr (json_of_map [(''matched'', JBool (node_expression_holds env n v)), (''value'', v)])
        | JoinNode \<Rightarrow> Inr v
        | LoopNode \<Rightarrow> Inr v
        | OutputNode \<Rightarrow> Inr v
        | _ \<Rightarrow> Inl (Message (''node kind '' @ node_kind_debug (gn_kind n)
                             @ '' is not a deterministic runtime node'')))
       (\<lambda>out. Inr \<lparr>er_output = out, er_tool_calls = 0, er_transcript = []\<rparr>)"

section \<open>The budget of a run\<close>

definition node_budget_exhausted :: "flow_run \<Rightarrow> flow_error" where
  "node_budget_exhausted r =
     Message (''Flow node execution budget exhausted ('' @ show_nat (fb_max_node_executions (fr_budget r))
              @ '')'')"

definition tool_budget_message :: "flow_run \<Rightarrow> string" where
  "tool_budget_message r =
     ''Flow tool-call budget exhausted ('' @ show_nat (fb_max_tool_calls (fr_budget r)) @ '')''"

definition elapsed_seconds :: "runtime_env \<Rightarrow> flow_run \<Rightarrow> nat" where
  "elapsed_seconds env r =
     nat (env_now env - (case fr_started_at r of Some t \<Rightarrow> t | None \<Rightarrow> fr_created_at r))
       div 1000000000"

definition enforce_run_budget :: "runtime_env \<Rightarrow> flow_run \<Rightarrow> flow_error + unit" where
  "enforce_run_budget env r =
     res_ensure (fr_node_executions r < fb_max_node_executions (fr_budget r))
       (node_budget_exhausted r)
    (res_ensure (fr_tool_calls r \<le> fb_max_tool_calls (fr_budget r)) (Message (tool_budget_message r))
    (res_ensure (elapsed_seconds env r \<le> fb_max_duration_seconds (fr_budget r))
       (Message (''Flow duration budget exhausted (''
          @ show_nat (fb_max_duration_seconds (fr_budget r)) @ '' seconds)''))
       (Inr ())))"

end
