(* ===== verification/Flow_Steps.thy ===== *)
theory Flow_Steps
  imports Flow_Run
begin

text \<open>
  The steps of the flow runtime that change a run (\<open>flow_runtime.rs\<close>): beginning a superstep, executing
  its nodes, recording and replacing their results, committing the checkpoint, waiting for and resuming
  after a human decision, cancelling and recovering.

  Each step is the part between reading the run from the store and writing it back; the writing, with
  its revision check, is the theory \<open>Flow_Store\<close>.  A step that creates a human task returns it beside the
  run.  \<open>harness\<close> is the agent harness that runs an agent, skill or tool node (\<open>FlowNodeHarness\<close>, with the
  restriction of the connection context that precedes the call).
\<close>

section \<open>Beginning a superstep\<close>

definition remove_first :: "string \<Rightarrow> string list \<Rightarrow> string list" where
  "remove_first node_id queue = remove1 node_id queue"

definition fresh_node_run ::
    "runtime_env \<Rightarrow> uuid \<Rightarrow> string \<Rightarrow> nat \<Rightarrow> node_run_status \<Rightarrow> json \<Rightarrow> transcript_entry list \<Rightarrow> node_run"
  where
  "fresh_node_run env i node_id attempt status v transcript =
     \<lparr>nr_id = i, nr_node_id = node_id, nr_attempt = attempt, nr_status = status, nr_input = v,
      nr_output = None, nr_error = None, nr_tool_calls = 0, nr_transcript = transcript,
      nr_started_at = env_now env, nr_completed_at = None\<rparr>"

definition begin_node :: "runtime_env \<Rightarrow> nat \<Rightarrow> string \<Rightarrow> flow_run \<Rightarrow> superstep_node \<times> flow_run" where
  "begin_node env k node_id r =
     (let v = node_input r node_id;
          node_run_id = env_uuid env k;
          attempt = next_attempt r node_id
      in (\<lparr>sn_node_id = node_id, sn_node_run_id = node_run_id, sn_attempt = attempt, sn_input = v\<rparr>,
          r\<lparr>fr_node_runs := fr_node_runs r @
               [fresh_node_run env node_run_id node_id attempt NodeRunning v
                  [transcript_new env (k + 1) TInput ''Node input'' v]],
            fr_ready_nodes := remove_first node_id (fr_ready_nodes r)\<rparr>))"

fun begin_nodes ::
    "runtime_env \<Rightarrow> nat \<Rightarrow> string list \<Rightarrow> flow_run \<Rightarrow> superstep_node list \<times> flow_run" where
  "begin_nodes env k [] r = ([], r)"
| "begin_nodes env k (node_id # rest) r =
     (let (item, r1) = begin_node env k node_id r;
          (items, r2) = begin_nodes env (k + 2) rest r1
      in (item # items, r2))"

definition begin_superstep :: "runtime_env \<Rightarrow> string list \<Rightarrow> flow_run \<Rightarrow> flow_error + flow_run" where
  "begin_superstep env node_ids r =
     res_ensure (node_ids \<noteq> []) (Message ''cannot begin an empty superstep'')
    (res_ensure (u32_sat_add (fr_node_executions r) (u32_cast (length node_ids))
                   \<le> fb_max_node_executions (fr_budget r)) (node_budget_exhausted r)
    (let (items, r1) = begin_nodes env 0 node_ids r in
       Inr (touch env
         (r1\<lparr>fr_node_executions := u32_sat_add (fr_node_executions r1) (u32_try (length items)),
             fr_status := Running,
             fr_started_at := (case fr_started_at r1 of Some t \<Rightarrow> Some t | None \<Rightarrow> Some (env_now env)),
             fr_active_checkpoint := Some
               \<lparr>cp_id = env_uuid env (2 * length node_ids),
                cp_superstep = u32_sat_add (fr_superstep r1) 1,
                cp_status = CheckpointRunning, cp_nodes = items, cp_pending_writes = [],
                cp_created_at = env_now env, cp_completed_at = None\<rparr>\<rparr>))))"

section \<open>Executing the nodes of a superstep\<close>

type_synonym harness = "flow_run \<Rightarrow> superstep_node \<Rightarrow> graph_node \<Rightarrow> string + execution_outcome"

definition execute_node ::
    "runtime_env \<Rightarrow> harness \<Rightarrow> flow_run \<Rightarrow> superstep_node \<Rightarrow> string + execution_outcome" where
  "execute_node env harness r item =
     (case find_node (fr_graph r) (sn_node_id item) of
        None \<Rightarrow> Inl (''Flow node disappeared from checkpoint: '' @ sn_node_id item)
      | Some n \<Rightarrow>
          if gn_kind n \<in> {ConditionNode, ValidatorNode, JoinNode, LoopNode, OutputNode} then
            (case execute_runtime_node env n (sn_input item) of
               Inl e \<Rightarrow> Inl (flow_error_str e)
             | Inr result \<Rightarrow> Inr (Completed result))
          else if gn_kind n = ApprovalNode then
            Inl ''approval nodes cannot execute inside a superstep''
          else harness r item n)"

definition execute_checkpoint_node ::
    "runtime_env \<Rightarrow> harness \<Rightarrow> flow_run \<Rightarrow> checkpoint \<Rightarrow> superstep_node \<Rightarrow> pending_write" where
  \<comment> \<open>the checkpoint is the active one of the run\<close>
  "execute_checkpoint_node env harness r c item =
     (let outcome = execute_node env harness r item in
        \<lparr>pw_node_id = sn_node_id item, pw_node_run_id = sn_node_run_id item,
         pw_result = (case outcome of Inr (Completed result) \<Rightarrow> Some result | _ \<Rightarrow> None),
         pw_error = (case outcome of Inl e \<Rightarrow> Some e | _ \<Rightarrow> None),
         pw_interrupt = (case outcome of
             Inr (Interrupted i) \<Rightarrow>
               Some (at_checkpoint (cp_id c) (cp_superstep c) (sn_node_id item) (sn_node_run_id item) i)
           | _ \<Rightarrow> None),
         pw_resume_command = None, pw_completed_at = env_now env\<rparr>)"

type_synonym resume_harness =
  "flow_run \<Rightarrow> json \<Rightarrow> graph_node \<Rightarrow> interrupt_request \<Rightarrow> resume_command \<Rightarrow> string + execution_outcome"

definition resume_node ::
    "resume_harness \<Rightarrow> flow_run \<Rightarrow> pending_write \<Rightarrow> interrupt_request \<Rightarrow> resume_command
      \<Rightarrow> string + execution_outcome" where
  "resume_node harness r previous interrupt command =
     (if \<not> validates command interrupt then
        Inl ''ResumeCommand does not match the active interrupt revision''
      else
        (case find_node (fr_graph r) (pw_node_id previous) of
           None \<Rightarrow> Inl ''resuming Flow node disappeared from the graph''
         | Some n \<Rightarrow>
             if gn_kind n \<notin> {AgentNode, SkillNode} then
               Inl ''only Agent and Skill nodes have resumable continuations''
             else
               harness r
                 (case Option.bind (fr_active_checkpoint r) (\<lambda>c.
                         find (\<lambda>item. sn_node_run_id item = pw_node_run_id previous) (cp_nodes c)) of
                    Some item \<Rightarrow> sn_input item
                  | None \<Rightarrow> JNull)
                 n interrupt command))"

definition execute_resume_checkpoint_node ::
    "runtime_env \<Rightarrow> resume_harness \<Rightarrow> flow_run \<Rightarrow> pending_write \<Rightarrow> interrupt_request \<Rightarrow> resume_command
      \<Rightarrow> pending_write" where
  "execute_resume_checkpoint_node env harness r previous interrupt command =
     (let outcome = resume_node harness r previous interrupt command in
        previous\<lparr>
          pw_result := (case outcome of Inr (Completed result) \<Rightarrow> Some result | _ \<Rightarrow> None),
          pw_error := None,
          pw_interrupt := (case outcome of
              Inr (Completed _) \<Rightarrow> None
            | Inr (Interrupted next) \<Rightarrow>
                Some (at_checkpoint (ir_checkpoint_id interrupt) (ir_superstep interrupt)
                  (pw_node_id previous) (pw_node_run_id previous) next)
            | Inl e \<Rightarrow> Some (resume_retry env 0 interrupt command e)),
          pw_resume_command := Some command,
          pw_completed_at := env_now env\<rparr>)"

section \<open>Recording results\<close>

definition checkpoint_of :: "uuid \<Rightarrow> string \<Rightarrow> flow_run \<Rightarrow> flow_error + checkpoint" where
  \<comment> \<open>\<open>run.active_checkpoint.filter(|c| c.id == checkpoint_id).context(message)\<close>\<close>
  "checkpoint_of checkpoint_id message r =
     (case fr_active_checkpoint r of
        Some c \<Rightarrow> if cp_id c = checkpoint_id then Inr c else Inl (Message message)
      | None \<Rightarrow> Inl (Message message))"

definition record_pending_write ::
    "runtime_env \<Rightarrow> uuid \<Rightarrow> pending_write \<Rightarrow> flow_run \<Rightarrow> flow_error + flow_run option" where
  \<comment> \<open>one round of \<open>persist_pending_write\<close>; \<open>None\<close> when the node's result is already there\<close>
  "record_pending_write env checkpoint_id w r =
     res_bind (checkpoint_of checkpoint_id ''Flow checkpoint changed while a node was executing'' r)
       (\<lambda>c.
         if list_ex (\<lambda>existing. pw_node_id existing = pw_node_id w) (cp_pending_writes c) then Inr None
         else
           Inr (Some (touch env
             (r\<lparr>fr_active_checkpoint := Some
                  (c\<lparr>cp_pending_writes := sort_key pw_node_id (cp_pending_writes c @ [w])\<rparr>)\<rparr>))))"

definition replace_write ::
    "runtime_env \<Rightarrow> uuid \<Rightarrow> pending_write \<Rightarrow> flow_run \<Rightarrow> flow_error + flow_run" where
  \<comment> \<open>one round of \<open>replace_pending_write\<close>\<close>
  "replace_write env checkpoint_id replacement r =
     res_bind (checkpoint_of checkpoint_id
         ''Flow checkpoint changed while a node continuation was resuming'' r) (\<lambda>c.
     res_bind (ok_or (find (\<lambda>w. pw_node_run_id w = pw_node_run_id replacement) (cp_pending_writes c))
         (Message ''resumed Flow node pending write disappeared'')) (\<lambda>current.
     res_ensure (map_option rc_id (pw_resume_command current)
                   = map_option rc_id (pw_resume_command replacement))
       (Message ''resumed Flow node command changed while it was executing'')
     (Inr (touch env
       (r\<lparr>fr_active_checkpoint := Some (c\<lparr>cp_pending_writes :=
             update_first (\<lambda>w. pw_node_run_id w = pw_node_run_id replacement) (\<lambda>_. replacement)
               (cp_pending_writes c)\<rparr>),
          fr_status := Running, fr_active_human_task_id := None\<rparr>)))))"

section \<open>Cancelling\<close>

definition summarize ::
    "checkpoint \<Rightarrow> checkpoint_status \<Rightarrow> timestamp \<Rightarrow> checkpoint_summary" where
  "summarize c status completed_at =
     \<lparr>cs_id = cp_id c, cs_superstep = cp_superstep c, cs_status = status,
      cs_node_ids = map sn_node_id (cp_nodes c),
      cs_pending_write_count = u32_try (length (cp_pending_writes c)),
      cs_created_at = cp_created_at c, cs_completed_at = completed_at\<rparr>"

definition cancel_node_run :: "runtime_env \<Rightarrow> superstep_node \<Rightarrow> node_run list \<Rightarrow> node_run list" where
  "cancel_node_run env item runs =
     update_first (\<lambda>n. nr_id n = sn_node_run_id item \<and> nr_completed_at n = None)
       (\<lambda>n. n\<lparr>nr_status := NodeCancelled,
              nr_error := Some ''Flow run cancelled before superstep commit'',
              nr_completed_at := Some (env_now env)\<rparr>) runs"

definition cancel_active_checkpoint :: "runtime_env \<Rightarrow> flow_run \<Rightarrow> flow_run" where
  "cancel_active_checkpoint env r =
     (case fr_active_checkpoint r of
        None \<Rightarrow> r
      | Some c \<Rightarrow>
          r\<lparr>fr_active_checkpoint := None,
            fr_node_runs := fold (cancel_node_run env) (cp_nodes c) (fr_node_runs r),
            fr_checkpoint_history := fr_checkpoint_history r
              @ [summarize c CheckpointCancelled (env_now env)]\<rparr>)"

definition cancel_run :: "runtime_env \<Rightarrow> flow_run \<Rightarrow> flow_run" where
  \<comment> \<open>how a requested cancellation ends, in the driver and in a commit\<close>
  "cancel_run env r =
     touch env ((cancel_active_checkpoint env r)
       \<lparr>fr_status := Cancelled, fr_completed_at := Some (env_now env)\<rparr>)"

section \<open>Waiting for a human\<close>

definition as_payload_map :: "json \<Rightarrow> (string, json) btree" where
  "as_payload_map v = (case v of JObject m \<Rightarrow> m | _ \<Rightarrow> [(''value'', v)])"

definition nat_json :: "nat \<Rightarrow> json" where
  "nat_json n = JNumber (PosInt n)"

fun interrupt_kind_str :: "interrupt_kind \<Rightarrow> string" where
  "interrupt_kind_str KApproval = ''approval''"
| "interrupt_kind_str KInputRequest = ''input_request''"
| "interrupt_kind_str KExternalAction = ''external_action''"
| "interrupt_kind_str KEffectReconciliation = ''effect_reconciliation''"
| "interrupt_kind_str KResumeRetry = ''resume_retry''"

definition wait_for_interrupt :: "runtime_env \<Rightarrow> interrupt_request \<Rightarrow> node_run \<Rightarrow> node_run" where
  "wait_for_interrupt env i n =
     n\<lparr>nr_status := NodeWaitingHuman,
       nr_transcript := extend_transcript_unique (nr_transcript n) (ir_transcript i)
         @ [transcript_new env 0 (if ir_kind i = KApproval then TApproval else TInput)
              ''Waiting for human input''
              (json_of_map [(''interruptId'', JString (ir_id i)),
                 (''kind'', JString (interrupt_kind_str (ir_kind i))),
                 (''checkpointId'', JString (ir_checkpoint_id i)),
                 (''continuationId'', JString (ce_id (ir_continuation i)))])]\<rparr>"

definition interrupt_payload ::
    "runtime_env \<Rightarrow> (uuid \<Rightarrow> json option) \<Rightarrow> flow_run \<Rightarrow> interrupt_request \<Rightarrow> json" where
  \<comment> \<open>\<open>get_effect\<close> gives the stored receipt of an effect, as JSON\<close>
  "interrupt_payload env get_effect r i =
     (let payload = bt_extend
            [(''flowId'', JString (fr_flow_id r)), (''flowVersion'', nat_json (fr_flow_version r)),
             (''interruptId'', JString (ir_id i)), (''interruptRevision'', nat_json (ir_revision i)),
             (''checkpointId'', JString (ir_checkpoint_id i)),
             (''superstep'', nat_json (ir_superstep i)), (''nodeId'', JString (ir_node_id i)),
             (''continuationId'', JString (ce_id (ir_continuation i)))]
            (as_payload_map (ir_payload i));
          receipt = Option.bind (Option.bind (Option.bind (bt_get payload ''effectId'') as_str)
                      (env_parse_uuid env)) get_effect
      in JObject (case receipt of
                    Some v \<Rightarrow> bt_insert ''activityReceipt'' v payload
                  | None \<Rightarrow> payload))"

definition pause_for_interrupt ::
    "runtime_env \<Rightarrow> (uuid \<Rightarrow> json option) \<Rightarrow> checkpoint \<Rightarrow> interrupt_request \<Rightarrow> flow_run
      \<Rightarrow> flow_error + (flow_run \<times> human_task)" where
  "pause_for_interrupt env get_effect c i r =
     res_ensure (list_ex (\<lambda>n. nr_id n = ir_node_run_id i) (fr_node_runs r))
       (Message ''interrupted Flow node run disappeared'')
     (let r1 = r\<lparr>fr_node_runs := update_first (\<lambda>n. nr_id n = ir_node_run_id i)
                   (wait_for_interrupt env i) (fr_node_runs r)\<rparr>;
          task = flow_interrupt env (fr_thread_id r) (fr_id r) i (interrupt_payload env get_effect r i)
      in Inr (touch env
           (r1\<lparr>fr_status := WaitingHuman, fr_waiting_node_id := Some (ir_node_id i),
               fr_active_human_task_id := Some (ht_id task), fr_active_checkpoint := Some c\<rparr>), task))"

definition pause_for_approval :: "runtime_env \<Rightarrow> graph_node \<Rightarrow> flow_run \<Rightarrow> flow_run \<times> human_task" where
  "pause_for_approval env n r =
     (let node_id = gn_id n;
          v = node_input r node_id;
          r1 = r\<lparr>fr_ready_nodes := remove_first node_id (fr_ready_nodes r)\<rparr>;
          node_run_id = env_uuid env 0;
          task = flow_approval env (fr_thread_id r) (fr_id r) node_run_id node_id (gn_label n)
            (json_of_map [(''flowId'', JString (fr_flow_id r)),
               (''flowVersion'', nat_json (fr_flow_version r)), (''nodeId'', JString node_id),
               (''nodeLabel'', JString (gn_label n)), (''input'', v)])
      in (touch env
            (r1\<lparr>fr_node_runs := fr_node_runs r1 @
                  [fresh_node_run env node_run_id node_id (next_attempt r1 node_id)
                     NodeWaitingApproval v
                     [transcript_new env 1 TInput ''Node input'' v,
                      transcript_new env 2 TApproval ''Waiting for human approval''
                        (json_of_map [(''status'', JString ''pending'')])]],
                fr_node_executions := u32_sat_add (fr_node_executions r1) 1,
                fr_started_at := (case fr_started_at r1 of Some t \<Rightarrow> Some t | None \<Rightarrow> Some (env_now env)),
                fr_waiting_node_id := Some node_id,
                fr_status := WaitingApproval,
                fr_active_human_task_id := Some (ht_id task)\<rparr>), task))"

section \<open>Committing a checkpoint\<close>

record commit_state =
  cm_run :: flow_run
  cm_succeeded :: "(graph_node \<times> json) list"
  cm_routed_errors :: "string list"
  cm_unhandled_error :: "string option"

definition complete_node_run :: "runtime_env \<Rightarrow> nat \<Rightarrow> pending_write \<Rightarrow> node_run \<Rightarrow> node_run" where
  "complete_node_run env k w n =
     (case pw_result w of
        Some result \<Rightarrow>
          n\<lparr>nr_completed_at := Some (pw_completed_at w), nr_status := NodeSucceeded,
            nr_output := Some (er_output result), nr_tool_calls := er_tool_calls result,
            nr_transcript := extend_transcript_unique (nr_transcript n) (er_transcript result)
              @ [transcript_new env k TOutput ''Node output'' (er_output result)]\<rparr>
      | None \<Rightarrow>
          (let error = (case pw_error w of Some e \<Rightarrow> e | None \<Rightarrow> ''node execution failed'') in
             n\<lparr>nr_completed_at := Some (pw_completed_at w), nr_status := NodeFailed,
               nr_error := Some error,
               nr_transcript := nr_transcript n
                 @ [transcript_new env k TError ''Node failed''
                      (json_of_map [(''message'', JString error)])]\<rparr>))"

definition commit_write ::
    "runtime_env \<Rightarrow> nat \<Rightarrow> pending_write \<Rightarrow> commit_state \<Rightarrow> flow_error + commit_state" where
  "commit_write env k w s =
     (let r = cm_run s in
      res_bind (ok_or (find_node (fr_graph r) (pw_node_id w))
          (Message ''Flow checkpoint references a missing graph node'')) (\<lambda>n.
      res_ensure (list_ex (\<lambda>x. nr_id x = pw_node_run_id w) (fr_node_runs r))
        (Message ''Flow checkpoint node run disappeared'')
      (let r1 = r\<lparr>fr_node_runs := update_first (\<lambda>x. nr_id x = pw_node_run_id w)
                    (complete_node_run env k w) (fr_node_runs r)\<rparr>
       in Inr
         (case pw_result w of
            Some result \<Rightarrow>
              s\<lparr>cm_run := r1\<lparr>fr_tool_calls := u32_sat_add (fr_tool_calls r1) (er_tool_calls result)\<rparr>,
                cm_succeeded := cm_succeeded s @ [(n, er_output result)]\<rparr>
          | None \<Rightarrow>
              (let error = (case pw_error w of Some e \<Rightarrow> e | None \<Rightarrow> ''node execution failed'') in
                 case error_route (fr_graph r1) (pw_node_id w) of
                   Some target \<Rightarrow>
                     s\<lparr>cm_run := r1, cm_routed_errors := cm_routed_errors s @ [target]\<rparr>
                 | None \<Rightarrow>
                     s\<lparr>cm_run := r1,
                       cm_unhandled_error :=
                         (case cm_unhandled_error s of
                            Some e \<Rightarrow> Some e
                          | None \<Rightarrow> Some (''node '' @ pw_node_id w @ '' failed: '' @ error))\<rparr>)))))"

fun commit_writes ::
    "runtime_env \<Rightarrow> nat \<Rightarrow> pending_write list \<Rightarrow> commit_state \<Rightarrow> flow_error + commit_state" where
  "commit_writes env k [] s = Inr s"
| "commit_writes env k (w # ws) s =
     res_bind (commit_write env k w s) (\<lambda>s'. commit_writes env (k + 1) ws s')"

fun commit_outputs ::
    "runtime_env \<Rightarrow> (graph_node \<times> json) list \<Rightarrow> flow_run \<Rightarrow> flow_error + flow_run" where
  "commit_outputs env [] r = Inr r"
| "commit_outputs env ((n, out) # rest) r =
     (case parse_state_writes (env_decode_write env) (gn_config n) of
        Inl e \<Rightarrow> Inl (Message (state_error_str e))
      | Inr writes \<Rightarrow>
          (case apply_state_writes (fr_state r) writes out of
             Inl e \<Rightarrow> Inl (Message (state_error_str e))
           | Inr state \<Rightarrow>
               commit_outputs env rest
                 (r\<lparr>fr_node_outputs := bt_insert (gn_id n) out (fr_node_outputs r),
                    fr_state := state\<rparr>)))"

fun commit_routes ::
    "runtime_env \<Rightarrow> (graph_node \<times> json) list \<Rightarrow> flow_run
      \<Rightarrow> flow_error + (flow_run \<times> (string \<times> json) list)" where
  "commit_routes env [] r = Inr (r, [])"
| "commit_routes env ((n, out) # rest) r =
     (if gn_kind n = OutputNode then
        res_bind (commit_routes env rest r) (\<lambda>(r', outs). Inr (r', (gn_id n, out) # outs))
      else
        res_bind (route_after_node env (gn_id n) out r) (\<lambda>r'. commit_routes env rest r'))"

definition max_checkpoint_history :: nat where
  "max_checkpoint_history = 100"

definition push_history :: "checkpoint_summary \<Rightarrow> checkpoint_summary list \<Rightarrow> checkpoint_summary list" where
  "push_history entry history =
     (let history' = history @ [entry] in
        drop (length history' - max_checkpoint_history) history')"

definition commit_output_value :: "(string \<times> json) list \<Rightarrow> json" where
  "commit_output_value outs = (case outs of [(_, v)] \<Rightarrow> v | _ \<Rightarrow> json_of_map outs)"

definition output_review_task :: "runtime_env \<Rightarrow> checkpoint \<Rightarrow> string \<Rightarrow> flow_run \<Rightarrow> human_task" where
  "output_review_task env c node_id r =
     flow_output_review env (fr_thread_id r) (fr_id r)
       (map_option nr_id (find (\<lambda>n. nr_node_id n = node_id) (rev (fr_node_runs r))))
       (Some node_id) (cp_id c)
       (json_of_map [(''flowId'', JString (fr_flow_id r)),
          (''flowVersion'', nat_json (fr_flow_version r)), (''checkpointId'', JString (cp_id c)),
          (''output'', json_or_null (fr_output r))])"

definition finish_commit ::
    "runtime_env \<Rightarrow> checkpoint \<Rightarrow> string option \<Rightarrow> (string \<times> json) list \<Rightarrow> flow_run
      \<Rightarrow> flow_run \<times> human_task option" where
  \<comment> \<open>from the end of the routing to the call of the store\<close>
  "finish_commit env c unhandled_error outs r =
     (let status = (if unhandled_error \<noteq> None then CheckpointFailed else Committed);
          r1 = r\<lparr>fr_superstep := cp_superstep c,
                fr_checkpoint_history :=
                  push_history (summarize c status (env_now env)) (fr_checkpoint_history r)\<rparr>
      in case unhandled_error of
           Some e \<Rightarrow>
             (touch env (r1\<lparr>fr_status := Failed, fr_error := Some e,
                            fr_completed_at := Some (env_now env)\<rparr>), None)
         | None \<Rightarrow>
             (case outs of
                (node_id, _) # _ \<Rightarrow>
                  (let r2 = r1\<lparr>fr_output := Some (commit_output_value outs)\<rparr> in
                     if fr_output_review_required r2 \<and> \<not> fr_output_reviewed r2 then
                       (let task = output_review_task env c node_id r2 in
                          (touch env (r2\<lparr>fr_status := WaitingHuman,
                                         fr_active_human_task_id := Some (ht_id task)\<rparr>), Some task))
                     else
                       (touch env (r2\<lparr>fr_status := Succeeded,
                                      fr_completed_at := Some (env_now env)\<rparr>), None))
              | [] \<Rightarrow>
                  (touch env (r1\<lparr>fr_status :=
                     (if fr_status r1 = PauseRequested then Paused else Running)\<rparr>), None)))"

definition commit_active_checkpoint ::
    "runtime_env \<Rightarrow> (uuid \<Rightarrow> json option) \<Rightarrow> uuid \<Rightarrow> flow_run
      \<Rightarrow> flow_error + (flow_run \<times> human_task option)" where
  "commit_active_checkpoint env get_effect checkpoint_id r =
     res_bind (checkpoint_of checkpoint_id ''Flow checkpoint changed before commit'' r) (\<lambda>c0.
       if fr_status r = CancelRequested then Inr (cancel_run env r, None)
       else
         res_ensure (length (cp_pending_writes c0) = length (cp_nodes c0))
           (Message ''Flow checkpoint has incomplete pending writes'')
         (let c = c0\<lparr>cp_pending_writes := sort_key pw_node_id (cp_pending_writes c0)\<rparr>;
              r0 = r\<lparr>fr_active_checkpoint := None\<rparr>
          in case find_map pw_interrupt (cp_pending_writes c) of
               Some i \<Rightarrow>
                 res_bind (pause_for_interrupt env get_effect c i r0) (\<lambda>(r', task).
                   Inr (r', Some task))
             | None \<Rightarrow>
                 res_bind (commit_writes env 0 (cp_pending_writes c)
                     \<lparr>cm_run = r0, cm_succeeded = [], cm_routed_errors = [],
                      cm_unhandled_error = None\<rparr>) (\<lambda>s.
                 (let r1 = cm_run s;
                      unhandled =
                        (if fb_max_tool_calls (fr_budget r1) < fr_tool_calls r1
                            \<and> cm_unhandled_error s = None
                         then Some (tool_budget_message r1) else cm_unhandled_error s)
                  in if unhandled \<noteq> None then Inr (finish_commit env c unhandled [] r1)
                     else
                       res_bind (commit_outputs env (cm_succeeded s) r1) (\<lambda>r2.
                       res_bind (commit_routes env (cm_succeeded s) r2) (\<lambda>(r3, outs).
                         Inr (finish_commit env c None outs
                           (r3\<lparr>fr_ready_nodes :=
                                 fold enqueue_unique (cm_routed_errors s) (fr_ready_nodes r3)\<rparr>))))))))"

end
