(* ===== verification/Flow_Resume.thy ===== *)
theory Flow_Resume
  imports Flow_Steps
begin

text \<open>
  How a waiting or interrupted run goes on (\<open>flow_runtime.rs\<close>): the decision about an approval node,
  the resumption of an agent continuation after a human task, and the recovery of a run whose process
  stopped in the middle of a superstep.
\<close>

section \<open>Approvals\<close>

definition approval_output :: "json \<Rightarrow> bool \<Rightarrow> string option \<Rightarrow> json" where
  "approval_output v approved note =
     JObject (bt_insert ''note'' (JString (case note of Some s \<Rightarrow> s | None \<Rightarrow> []))
       (bt_insert ''approved'' (JBool approved) (as_payload_map v)))"

definition decide_node_run :: "runtime_env \<Rightarrow> bool \<Rightarrow> string option \<Rightarrow> node_run \<Rightarrow> node_run" where
  "decide_node_run env approved note n =
     n\<lparr>nr_status := (if approved then NodeSucceeded else NodeCancelled),
       nr_output := Some (approval_output (nr_input n) approved note),
       nr_transcript := nr_transcript n
         @ [transcript_new env 0 TApproval
              (if approved then ''Approval granted'' else ''Approval rejected'')
              (json_of_map [(''approved'', JBool approved),
                 (''note'', JString (case note of Some s \<Rightarrow> s | None \<Rightarrow> []))])],
       nr_completed_at := Some (env_now env)\<rparr>"

definition resolve_flow_approval ::
    "runtime_env \<Rightarrow> bool \<Rightarrow> string option \<Rightarrow> flow_run \<Rightarrow> flow_error + flow_run" where
  "resolve_flow_approval env approved note r =
     res_ensure (fr_status r = WaitingApproval) (Message ''Flow run is not waiting for approval'')
    (res_bind (ok_or (fr_waiting_node_id r)
        (Message ''Flow run is missing its waiting approval node'')) (\<lambda>node_id.
     res_bind (ok_or (active_node_run r node_id) (Message ''Flow approval node run is missing''))
       (\<lambda>node_run.
     (let out = approval_output (nr_input node_run) approved note;
          r1 = r\<lparr>fr_node_runs := update_last (is_active_node_run node_id)
                   (decide_node_run env approved note) (fr_node_runs r),
                 fr_waiting_node_id := None, fr_active_human_task_id := None\<rparr>
      in if approved then
           res_bind (route_after_node env node_id out
               (r1\<lparr>fr_node_outputs := bt_insert node_id out (fr_node_outputs r1),
                   fr_status := Running, fr_error := None\<rparr>)) (\<lambda>r2. Inr (touch env r2))
         else
           Inr (touch env
             (r1\<lparr>fr_status := Cancelled,
                 fr_error := Some (case note of Some s \<Rightarrow> s | None \<Rightarrow> ''approval denied''),
                 fr_completed_at := Some (env_now env)\<rparr>))))))"

section \<open>Resuming a continuation\<close>

definition resume_signal_for ::
    "runtime_env \<Rightarrow> interrupt_request \<Rightarrow> resume_command option \<Rightarrow> human_task_action \<Rightarrow> json option
      \<Rightarrow> string option \<Rightarrow> flow_error + resume_signal" where
  "resume_signal_for env i previous action response note =
     (case ir_kind i of
        KApproval \<Rightarrow>
          res_ensure (action \<in> {ApproveAction, RejectAction})
            (Message ''approval interrupt only accepts approve or reject'')
            (Inr (ApprovalSignal
              (Option.bind (Option.bind (json_get (ir_payload i) ''approvalId'') as_str)
                (env_parse_uuid env))
              (action = ApproveAction)))
      | KInputRequest \<Rightarrow>
          res_ensure (action = SubmitAction) (Message ''input interrupt only accepts submit'')
         (res_bind (ok_or response (Message ''input interrupt requires a structured response'')) (\<lambda>raw.
          res_bind (ok_or (env_decode_response env raw) (Message ''invalid user input response'')) (\<lambda>answer.
          res_bind (ok_or
              (Option.bind (Option.bind (Option.bind (json_get (ir_payload i) ''request'')
                (\<lambda>request. json_get request ''requestId'')) as_str) (env_parse_uuid env))
              (Message ''input interrupt is missing requestId'')) (\<lambda>request_id.
            Inr (UserInputSignal request_id answer)))))
      | KResumeRetry \<Rightarrow>
          res_ensure (action = RetryAction) (Message ''resume retry interrupt only accepts retry'')
         (res_bind (ok_or previous
              (Message ''resume retry interrupt is missing its previous command'')) (\<lambda>command.
            Inr (rc_signal command)))
      | _ \<Rightarrow>
          res_ensure (action \<in> {ResumeAction, ReconnectAction, AcknowledgeAction})
            (Message ''external interrupt requires resume, reconnect, or acknowledge'')
         (res_bind (ok_or
              (nonblank (case Option.bind (Option.bind response (\<lambda>v. json_get v ''observation'')) as_str of
                           Some s \<Rightarrow> Some s
                         | None \<Rightarrow> note))
              (Message ''external action requires an observation'')) (\<lambda>observation.
            Inr (ExternalActionSignal observation))))"

definition has_continuation :: "uuid \<Rightarrow> pending_write \<Rightarrow> bool" where
  "has_continuation continuation_id w \<longleftrightarrow>
     (case pw_interrupt w of
        Some i \<Rightarrow> ce_id (ir_continuation i) = continuation_id
      | None \<Rightarrow> False)"

definition prepare_flow_interrupt_resume ::
    "runtime_env \<Rightarrow> human_task \<Rightarrow> human_task_action \<Rightarrow> json option \<Rightarrow> string option \<Rightarrow> string \<Rightarrow> string
      \<Rightarrow> flow_run \<Rightarrow> flow_error + (resume_command \<times> flow_run)" where
  "prepare_flow_interrupt_resume env task action response note actor key r =
     res_ensure (fr_status r = WaitingHuman)
       (Message ''Flow run is not waiting on an Agent continuation'')
    (res_ensure (fr_active_human_task_id r = Some (ht_id task))
       (Message ''Flow run is no longer waiting on this Human task'')
    (res_bind (ok_or (ht_continuation_id task)
        (Message ''Human task is missing its Agent continuation identity'')) (\<lambda>continuation_id.
     res_bind (ok_or (fr_active_checkpoint r)
        (Message ''waiting Flow run is missing its checkpoint'')) (\<lambda>c.
     res_bind (ok_or (find (has_continuation continuation_id) (cp_pending_writes c))
        (Message ''Human task continuation is no longer present in the checkpoint'')) (\<lambda>w.
     res_bind (ok_or (pw_interrupt w) (Message ''checkpoint write is missing its interrupt'')) (\<lambda>i.
     res_bind (resume_signal_for env i (pw_resume_command w) action response note) (\<lambda>signal.
       (case resume_command_new env (ht_id task) key i signal note actor of
          Inl EmptyIdempotencyKey \<Rightarrow> Inl (Message ''resume idempotency key cannot be empty'')
        | Inr command \<Rightarrow>
            Inr (command, touch env
              (r\<lparr>fr_active_checkpoint := Some (c\<lparr>cp_pending_writes :=
                    update_first (has_continuation continuation_id)
                      (\<lambda>w. w\<lparr>pw_resume_command := Some command\<rparr>) (cp_pending_writes c)\<rparr>),
                 fr_node_runs := update_first (\<lambda>n. nr_id n = ir_node_run_id i)
                   (\<lambda>n. n\<lparr>nr_status := NodeResuming\<rparr>) (fr_node_runs r),
                 fr_status := Resuming, fr_waiting_node_id := None, fr_active_human_task_id := None,
                 fr_error := None\<rparr>))))))))))"

section \<open>Recovery after a stopped process\<close>

definition retry_item ::
    "runtime_env \<Rightarrow> nat \<Rightarrow> superstep_node \<Rightarrow> flow_run \<Rightarrow> superstep_node \<times> flow_run" where
  "retry_item env k item r =
     (let item' = item\<lparr>sn_node_run_id := env_uuid env k,
                       sn_attempt := u32_sat_add (sn_attempt item) 1\<rparr>
      in (item',
          r\<lparr>fr_node_runs :=
               update_first (\<lambda>n. nr_id n = sn_node_run_id item)
                 (\<lambda>n. n\<lparr>nr_status := NodeCancelled,
                        nr_error := Some ''process stopped during superstep execution; operator explicitly requested a fresh attempt'',
                        nr_completed_at := Some (env_now env)\<rparr>) (fr_node_runs r)
               @ [fresh_node_run env (sn_node_run_id item') (sn_node_id item) (sn_attempt item')
                    NodeRunning (sn_input item)
                    [transcript_new env (k + 1) TInput ''Node input'' (sn_input item)]],
            fr_node_executions := u32_sat_add (fr_node_executions r) 1\<rparr>))"

fun retry_items ::
    "runtime_env \<Rightarrow> nat \<Rightarrow> string list \<Rightarrow> superstep_node list \<Rightarrow> flow_run
      \<Rightarrow> superstep_node list \<times> flow_run" where
  "retry_items env k completed [] r = ([], r)"
| "retry_items env k completed (item # items) r =
     (if sn_node_id item \<in> set completed then
        (let (items', r') = retry_items env k completed items r in (item # items', r'))
      else
        (let (item', r1) = retry_item env k item r;
             (items', r2) = retry_items env (k + 2) completed items r1
         in (item' # items', r2)))"

definition completed_nodes :: "checkpoint \<Rightarrow> string list" where
  "completed_nodes c =
     map pw_node_id (filter (\<lambda>w. pw_result w \<noteq> None) (cp_pending_writes c))"

definition retry_count :: "checkpoint \<Rightarrow> nat" where
  "retry_count c =
     u32_cast (length (filter (\<lambda>item. sn_node_id item \<notin> set (completed_nodes c)) (cp_nodes c)))"

definition prepare_flow_resume :: "runtime_env \<Rightarrow> bool \<Rightarrow> flow_run \<Rightarrow> flow_error + flow_run" where
  "prepare_flow_resume env retry_interrupted_node r =
     (case fr_active_checkpoint r of
        Some c \<Rightarrow>
          res_ensure retry_interrupted_node
            (Message (''superstep '' @ show_nat (cp_superstep c) @ '' was interrupted; inspect external state, then explicitly set retryInterruptedNode or cancel the Run''))
         (res_ensure (u32_sat_add (fr_node_executions r) (retry_count c)
                        \<le> fb_max_node_executions (fr_budget r)) (node_budget_exhausted r)
         (let completed = completed_nodes c;
              (items, r1) = retry_items env 0 completed (cp_nodes c) r
          in Inr (r1\<lparr>fr_active_checkpoint := Some (c\<lparr>cp_nodes := items,
                       cp_pending_writes :=
                         filter (\<lambda>w. pw_node_id w \<in> set completed) (cp_pending_writes c)\<rparr>),
                     fr_active_human_task_id := None\<rparr>)))
      | None \<Rightarrow>
          (case rposition (\<lambda>n. nr_status n = NodeRunning) (fr_node_runs r) of
             None \<Rightarrow> Inr r
           | Some index \<Rightarrow>
               (let n = fr_node_runs r ! index; node_id = nr_node_id n in
                  res_ensure retry_interrupted_node
                    (Message (''the previous process stopped during node '' @ node_id @ ''; inspect external state, then explicitly set retryInterruptedNode or cancel the Run''))
                    (Inr (r\<lparr>fr_node_runs := (fr_node_runs r)[index :=
                              n\<lparr>nr_status := NodeCancelled,
                                nr_error := Some ''process stopped during execution; operator explicitly requested a fresh attempt'',
                                nr_completed_at := Some (env_now env)\<rparr>],
                            fr_ready_nodes := node_id # remove_first node_id (fr_ready_nodes r),
                            fr_active_human_task_id := None\<rparr>)))))"

end
