(* ===== verification/Flow_Control.thy ===== *)
theory Flow_Control
  imports Flow_Resume
begin

text \<open>
  What is asked of a run from outside its driver: pausing, resuming and cancelling it by an operator
  (\<open>flows_api.rs\<close>) or by an agent's tool call (\<open>flow_tools.rs\<close>), the settlement of its human task
  (\<open>human_tasks_api.rs\<close>), and the recovery when the server starts again (\<open>store/sqlite_runtime.rs\<close>).

  Each request is the part between reading the run and the task and the call of the store.  Checks of
  the session and of the connection runtime, which do not depend on the run, are left out.
\<close>

section \<open>Operators\<close>

definition pause_flow_run :: "runtime_env \<Rightarrow> flow_run \<Rightarrow> flow_error + flow_run" where
  "pause_flow_run env r =
     res_ensure (fr_status r \<in> {Queued, Running, Resuming})
       (Message ''only a queued or running Flow can be paused'')
       (Inr (touch env (r\<lparr>fr_status := PauseRequested\<rparr>)))"

definition resume_flow_run ::
    "runtime_env \<Rightarrow> bool \<Rightarrow> bool option \<Rightarrow> string option \<Rightarrow> human_task option \<Rightarrow> flow_run
      \<Rightarrow> flow_error + (flow_run \<times> human_task option)" where
  \<comment> \<open>\<open>pending\<close> is the pending task of the run; the result has the settled task, if there is one\<close>
  "resume_flow_run env retry_interrupted approved note pending r =
     res_bind
       (case fr_status r of
          Paused \<Rightarrow>
            res_ensure (approved = None)
              (Message ''approved is only valid while a Flow is waiting for approval'')
              (res_bind (prepare_flow_resume env retry_interrupted r) (\<lambda>r'.
                 Inr (RetryAction, touch env (r'\<lparr>fr_status := Running, fr_error := None\<rparr>))))
        | WaitingApproval \<Rightarrow>
            res_bind (ok_or approved (Message ''approved is required'')) (\<lambda>decision.
            res_bind (resolve_flow_approval env decision note r) (\<lambda>r'.
              Inr (if decision then ApproveAction else RejectAction, r')))
        | _ \<Rightarrow> Inl (Message ''Flow run is not paused or waiting for approval''))
       (\<lambda>(action, r').
          case pending of
            None \<Rightarrow> Inr (r', None)
          | Some task \<Rightarrow>
              (case resolve_task env action note ''local_operator'' task of
                 Inl _ \<Rightarrow> Inl (Message ''action is not allowed for this Human task'')
               | Inr task' \<Rightarrow> Inr (r', Some task')))"

definition request_cancel :: "runtime_env \<Rightarrow> flow_run_status set \<Rightarrow> flow_run \<Rightarrow> flow_run" where
  \<comment> \<open>\<open>immediate\<close> are the statuses from which the run is cancelled at once\<close>
  "request_cancel env immediate r =
     touch env
       ((if fr_status r \<in> immediate
         then r\<lparr>fr_status := Cancelled, fr_completed_at := Some (env_now env)\<rparr>
         else r\<lparr>fr_status := CancelRequested\<rparr>)\<lparr>fr_active_human_task_id := None\<rparr>)"

definition cancel_pending_task ::
    "runtime_env \<Rightarrow> string \<Rightarrow> string \<Rightarrow> human_task option \<Rightarrow> flow_error + human_task option" where
  "cancel_pending_task env note by_whom pending =
     (case pending of
        None \<Rightarrow> Inr None
      | Some task \<Rightarrow>
          (case cancel_task env (Some note) by_whom task of
             Inl _ \<Rightarrow> Inl (Message ''Human task is no longer pending'')
           | Inr task' \<Rightarrow> Inr (Some task')))"

definition cancel_flow_run ::
    "runtime_env \<Rightarrow> human_task option \<Rightarrow> flow_run \<Rightarrow> flow_error + (flow_run \<times> human_task option)" where
  "cancel_flow_run env pending r =
     res_ensure (\<not> is_terminal (fr_status r)) (Message ''Flow run is already terminal'')
       (res_bind (cancel_pending_task env ''Flow run cancelled by operator'' ''local_operator'' pending)
         (\<lambda>task. Inr (request_cancel env {Paused, WaitingApproval, WaitingHuman} r, task)))"

section \<open>The flow tools of an agent\<close>

definition tool_pause :: "runtime_env \<Rightarrow> flow_run \<Rightarrow> flow_error + flow_run" where
  "tool_pause env r =
     res_ensure (fr_status r \<in> {Queued, Running})
       (Message ''only a queued or running Flow can be paused'')
       (Inr (touch env (r\<lparr>fr_status := PauseRequested\<rparr>)))"

definition tool_resume ::
    "runtime_env \<Rightarrow> bool \<Rightarrow> human_task option \<Rightarrow> flow_run \<Rightarrow> flow_error + flow_run" where
  "tool_resume env retry_interrupted pending r =
     (case fr_status r of
        Paused \<Rightarrow>
          res_ensure (pending = None)
            (Message ''Flow recovery requires a person to resolve the Human task'')
            (res_bind (prepare_flow_resume env retry_interrupted r) (\<lambda>r'.
               Inr (touch env (r'\<lparr>fr_status := Running, fr_error := None\<rparr>))))
      | WaitingApproval \<Rightarrow>
          Inl (Message ''Flow approval requires a person to resolve the Human task'')
      | _ \<Rightarrow> Inl (Message ''Flow run is not paused or waiting for approval''))"

definition tool_cancel ::
    "runtime_env \<Rightarrow> human_task option \<Rightarrow> flow_run \<Rightarrow> flow_error + (flow_run \<times> human_task option)" where
  "tool_cancel env pending r =
     res_ensure (\<not> is_terminal (fr_status r)) (Message ''Flow run is already terminal'')
       (res_bind (cancel_pending_task env ''Flow run cancelled'' ''flow_control'' pending)
         (\<lambda>task. Inr (request_cancel env {Paused, WaitingApproval} r, task)))"

section \<open>Settling the human task of a run\<close>

record resolve_request =
  rq_expected_revision :: nat
  rq_action :: human_task_action
  rq_note :: "string option"
  rq_response :: "json option"

definition end_run ::
    "runtime_env \<Rightarrow> flow_run_status \<Rightarrow> string option \<Rightarrow> flow_run \<Rightarrow> flow_run" where
  "end_run env status error r =
     touch env (r\<lparr>fr_status := status, fr_error := error, fr_active_human_task_id := None,
                  fr_completed_at := Some (env_now env)\<rparr>)"

definition note_or :: "string option \<Rightarrow> string \<Rightarrow> string option" where
  "note_or note fallback = (case note of Some s \<Rightarrow> Some s | None \<Rightarrow> Some fallback)"

definition resume_or_cancel ::
    "runtime_env \<Rightarrow> string \<Rightarrow> resolve_request \<Rightarrow> string \<Rightarrow> human_task \<Rightarrow> flow_run
      \<Rightarrow> flow_error + (uuid option \<times> flow_run)" where
  "resume_or_cancel env cancelled_text q key task r =
     (if rq_action q = CancelAction then
        Inr (None, end_run env Cancelled (note_or (rq_note q) cancelled_text) r)
      else
        res_bind (prepare_flow_interrupt_resume env task (rq_action q) (rq_response q) (rq_note q)
            ''local_operator'' key r) (\<lambda>(command, r'). Inr (Some (rc_id command), r')))"

definition recovery_retry :: "runtime_env \<Rightarrow> flow_run \<Rightarrow> flow_error + flow_run" where
  "recovery_retry env r =
     res_bind
       (if pending_resume_command_id r \<noteq> None then
          Inr (r\<lparr>fr_status := Resuming,
                 fr_node_runs := map (\<lambda>n. if nr_status n = NodeResuming then n\<lparr>nr_error := None\<rparr> else n)
                   (fr_node_runs r)\<rparr>)
        else
          res_bind (prepare_flow_resume env True r) (\<lambda>r'. Inr (r'\<lparr>fr_status := Running\<rparr>)))
       (\<lambda>r'. Inr (touch env (r'\<lparr>fr_error := None, fr_active_human_task_id := None\<rparr>)))"

definition settle_run ::
    "runtime_env \<Rightarrow> resolve_request \<Rightarrow> string \<Rightarrow> human_task \<Rightarrow> flow_run
      \<Rightarrow> flow_error + (uuid option \<times> flow_run)" where
  \<comment> \<open>the \<open>match task.task_type\<close>\<close>
  "settle_run env q key task r =
     (let action = rq_action q in
      case ht_task_type task of
        TaskApproval \<Rightarrow>
          if ht_continuation_id task = None then
            res_ensure (action \<in> {ApproveAction, RejectAction})
              (Message ''approval tasks only accept approve or reject'')
              (res_bind (resolve_flow_approval env (action = ApproveAction) (rq_note q) r)
                (\<lambda>r'. Inr (None, r')))
          else resume_or_cancel env ''Human task cancelled by operator'' q key task r
      | TaskInputRequest \<Rightarrow> resume_or_cancel env ''Human task cancelled by operator'' q key task r
      | TaskReconnect \<Rightarrow> resume_or_cancel env ''Human task cancelled by operator'' q key task r
      | TaskReconciliation \<Rightarrow> resume_or_cancel env ''Human task cancelled by operator'' q key task r
      | TaskRecovery \<Rightarrow>
          if ht_continuation_id task \<noteq> None then
            resume_or_cancel env ''Agent continuation retry cancelled'' q key task r
          else if action = RetryAction then
            res_bind (recovery_retry env r) (\<lambda>r'. Inr (None, r'))
          else if action = CancelAction then
            Inr (None, end_run env Cancelled (note_or (rq_note q) ''recovery cancelled by operator'') r)
          else Inl (Message ''recovery tasks only accept retry or cancel'')
      | TaskOutputReview \<Rightarrow>
          if action = ApproveAction then
            Inr (None, end_run env Succeeded None (r\<lparr>fr_output_reviewed := True\<rparr>))
          else if action = RejectAction then
            Inr (None, end_run env Cancelled (note_or (rq_note q) ''Flow output rejected by operator'') r)
          else Inl (Message ''output review only accepts approve or reject'')
      | _ \<Rightarrow> Inl (Message ''Human task kind is not supported yet''))"

definition resolve_human_task ::
    "runtime_env \<Rightarrow> resolve_request \<Rightarrow> string \<Rightarrow> human_task \<Rightarrow> flow_run
      \<Rightarrow> flow_error + (flow_run \<times> human_task)" where
  \<comment> \<open>for a pending task of a flow run, with the idempotency key of the request\<close>
  "resolve_human_task env q key task r =
     res_ensure (ht_status task = TaskPending) (Message ''Human task is no longer pending'')
    (res_ensure (ht_revision task = rq_expected_revision q)
       (Message (''Human task revision conflict; current revision is '' @ show_nat (ht_revision task)))
    (res_ensure (fr_active_human_task_id r = Some (ht_id task))
       (Message ''Flow run is no longer waiting on this Human task'')
    (res_ensure (case ht_claimed_by task of None \<Rightarrow> True | Some holder \<Rightarrow> holder = ''local_operator'')
       (Message (''Human task is claimed by '' @ (case ht_claimed_by task of Some h \<Rightarrow> h | None \<Rightarrow> [])))
    (res_bind (settle_run env q key task r) (\<lambda>(command_id, r').
       case resolve_with_command env (rq_action q) (rq_note q) ''local_operator''
              (Some (case command_id of Some i \<Rightarrow> i | None \<Rightarrow> env_uuid_v5 env (ht_id task) key))
              (Some key) (rq_response q) task of
         Inl _ \<Rightarrow> Inl (Message ''action is not allowed for this Human task'')
       | Inr task' \<Rightarrow> Inr (r', task'))))))"

section \<open>Starting the server again\<close>

definition restart_message :: string where
  "restart_message = ''server restarted at a node boundary; resume after inspection''"

definition mark_interrupted :: "runtime_env \<Rightarrow> flow_run \<Rightarrow> flow_run" where
  \<comment> \<open>the SQL statement: it selects the statuses stored as queued, running or pause\_requested\<close>
  "mark_interrupted env r =
     (if flow_run_status_str (fr_status r) \<in> {''queued'', ''running'', ''pause_requested''}
      then r\<lparr>fr_status := Paused, fr_error := Some restart_message,
             fr_revision := fr_revision r + 1, fr_updated_at := env_now env\<rparr>
      else r)"

definition checkpoint_payload :: "checkpoint \<Rightarrow> json" where
  "checkpoint_payload c =
     json_of_map [(''checkpointId'', JString (cp_id c)), (''superstep'', nat_json (cp_superstep c)),
       (''nodeIds'', JArray (map (JString \<circ> sn_node_id) (cp_nodes c))),
       (''completedPendingWrites'',
          nat_json (length (filter (\<lambda>w. pw_result w \<noteq> None) (cp_pending_writes c)))),
       (''pendingWriteCount'', nat_json (length (cp_pending_writes c)))]"

definition recovery_task :: "runtime_env \<Rightarrow> node_run \<Rightarrow> flow_run \<Rightarrow> human_task" where
  "recovery_task env n r =
     flow_recovery env (fr_thread_id r) (fr_id r) (Some (nr_id n)) (Some (nr_node_id n)) (nr_id n)
       (map char_of [0xE6, 0x9C, 0x8D, 0xE5, 0x8A, 0xA1, 0xE5, 0x9C, 0xA8, 0xE8, 0x8A, 0x82, 0xE7, 0x82,
        0xB9, 0xE6, 0x89, 0xA7, 0xE8, 0xA1, 0x8C, 0xE6, 0x9C, 0x9F, 0xE9, 0x97, 0xB4, 0xE4,
        0xB8, 0xAD, 0xE6, 0x96, 0xAD, 0xE3, 0x80, 0x82, 0xE8, 0xAF, 0xB7, 0xE5, 0x85, 0x88,
        0xE6, 0xA0, 0xB8, 0xE5, 0xAF, 0xB9, 0xE5, 0xA4, 0x96, 0xE9, 0x83, 0xA8, 0xE7, 0xB3,
        0xBB, 0xE7, 0xBB, 0x9F, 0xE6, 0x98, 0xAF, 0xE5, 0x90, 0xA6, 0xE5, 0xB7, 0xB2, 0xE4,
        0xBA, 0xA7, 0xE7, 0x94, 0x9F, 0xE5, 0x89, 0xAF, 0xE4, 0xBD, 0x9C, 0xE7, 0x94, 0xA8,
        0xEF, 0xBC, 0x8C, 0xE5, 0x86, 0x8D, 0xE5, 0x86, 0xB3, 0xE5, 0xAE, 0x9A, 0xE9, 0x87,
        0x8D, 0xE8, 0xAF, 0x95, 0xE6, 0x88, 0x96, 0xE5, 0x8F, 0x96, 0xE6, 0xB6, 0x88, 0xE3,
        0x80, 0x82 :: nat])
       (json_of_map [(''flowId'', JString (fr_flow_id r)),
          (''flowVersion'', nat_json (fr_flow_version r)), (''nodeId'', JString (nr_node_id n)),
          (''sideEffectState'', JString ''unknown''),
          (''resumeCommandId'', json_or_null (map_option JString (pending_resume_command_id r))),
          (''resumableContinuation'', JBool (pending_resume_command_id r \<noteq> None)),
          (''checkpoint'', json_or_null (map_option checkpoint_payload (fr_active_checkpoint r)))])"

definition attach_recovery_task :: "runtime_env \<Rightarrow> flow_run \<Rightarrow> flow_run \<times> human_task option" where
  "attach_recovery_task env r =
     (if fr_status r = Paused \<and> fr_error r = Some restart_message \<and> fr_active_human_task_id r = None then
        (case find (\<lambda>n. nr_status n \<in> {NodeRunning, NodeResuming}) (rev (fr_node_runs r)) of
           None \<Rightarrow> (r, None)
         | Some n \<Rightarrow>
             (let task = recovery_task env n r in
                (touch env (r\<lparr>fr_active_human_task_id := Some (ht_id task)\<rparr>), Some task)))
      else (r, None))"

definition attach_approval_task :: "runtime_env \<Rightarrow> flow_run \<Rightarrow> flow_run \<times> human_task option" where
  \<comment> \<open>for the runs of an older version, which waited for an approval without a human task\<close>
  "attach_approval_task env r =
     (if flow_run_status_str (fr_status r) = ''waiting_approval'' \<and> fr_active_human_task_id r = None then
        (case find (\<lambda>n. nr_status n = NodeWaitingApproval) (rev (fr_node_runs r)) of
           None \<Rightarrow> (r, None)
         | Some n \<Rightarrow>
             (let label = (case find_node (fr_graph r) (nr_node_id n) of
                             Some node \<Rightarrow> gn_label node
                           | None \<Rightarrow> nr_node_id n);
                  task = flow_approval env (fr_thread_id r) (fr_id r) (nr_id n) (nr_node_id n) label
                    (json_of_map [(''flowId'', JString (fr_flow_id r)),
                       (''flowVersion'', nat_json (fr_flow_version r)),
                       (''nodeId'', JString (nr_node_id n)), (''nodeLabel'', JString label),
                       (''input'', nr_input n)])
              in (touch env (r\<lparr>fr_active_human_task_id := Some (ht_id task)\<rparr>), Some task)))
      else (r, None))"

definition recover_run :: "runtime_env \<Rightarrow> flow_run \<Rightarrow> flow_run \<times> human_task option" where
  \<comment> \<open>a run that gets a recovery task is paused, so the second loop leaves it alone\<close>
  "recover_run env r =
     (case attach_recovery_task env (mark_interrupted env r) of
        (r1, Some task) \<Rightarrow> (r1, Some task)
      | (r1, None) \<Rightarrow> attach_approval_task env r1)"

end
