(* ===== verification/Flow_Store.thy ===== *)
theory Flow_Store
  imports Flow_Control
begin

text \<open>
  The rows of flow runs and human tasks in the session store (\<open>store.rs\<close>, \<open>store/flow_runtime_repository.rs\<close>)
  and the writers that go through their revision check: an update names the revision it was computed
  from and is refused when the row has moved on.

  A table is the map from the primary key to the stored document; the columns that repeat fields of the
  document are not kept twice.  The time stamp of the thread, which every write to a task refreshes, is
  left out.  Failures of SQLite itself are not modelled, except for its uniqueness constraints.

  The contract of such a table is the locale \<open>cas_table\<close>, interpreted on both tables.
\<close>

section \<open>Tables\<close>

record flow_store =
  st_runs :: "(uuid, flow_run) btree"
  st_tasks :: "(uuid, human_task) btree"

definition update_flow_run_row ::
    "flow_run \<Rightarrow> nat \<Rightarrow> (uuid, flow_run) btree \<Rightarrow> flow_error + (uuid, flow_run) btree" where
  "update_flow_run_row r expected_revision rows =
     (case bt_get rows (fr_id r) of
        Some current \<Rightarrow>
          if fr_revision current = expected_revision then Inr (bt_insert (fr_id r) r rows)
          else Inl (RunRevisionConflict (u32_try (fr_revision current)))
      | None \<Rightarrow> Inl (RunNotFound (fr_id r)))"

definition same_task_boundary :: "human_task \<Rightarrow> human_task \<Rightarrow> bool" where
  \<comment> \<open>the unique index over the pending tasks; a missing node run is NULL, which equals nothing\<close>
  "same_task_boundary t t' \<longleftrightarrow>
     ht_status t = TaskPending \<and> ht_status t' = TaskPending
     \<and> ht_source_kind t = ht_source_kind t' \<and> ht_source_id t = ht_source_id t'
     \<and> ht_source_node_run_id t \<noteq> None \<and> ht_source_node_run_id t = ht_source_node_run_id t'
     \<and> human_task_type_str (ht_task_type t) = human_task_type_str (ht_task_type t')"

definition insert_human_task_row ::
    "human_task \<Rightarrow> (uuid, human_task) btree \<Rightarrow> flow_error + (uuid, human_task) btree" where
  "insert_human_task_row t rows =
     (if bt_contains rows (ht_id t) then Inl (Message ''UNIQUE constraint failed: human_tasks.id'')
      else if list_ex (\<lambda>(_, t'). same_task_boundary t t') rows then
        Inl (Message ''UNIQUE constraint failed: human_tasks.source_kind, human_tasks.source_id, human_tasks.source_node_run_id, human_tasks.task_type'')
      else Inr (bt_insert (ht_id t) t rows))"

definition update_human_task_row ::
    "human_task \<Rightarrow> nat \<Rightarrow> (uuid, human_task) btree \<Rightarrow> flow_error + (uuid, human_task) btree" where
  "update_human_task_row t expected_revision rows =
     (case bt_get rows (ht_id t) of
        Some current \<Rightarrow>
          if ht_revision current = expected_revision then Inr (bt_insert (ht_id t) t rows)
          else Inl (Message (''Human task revision conflict; current revision is ''
                             @ show_nat (u32_try (ht_revision current))))
      | None \<Rightarrow> Inl (Message (''Human task not found: '' @ ht_id t)))"

section \<open>Operations of the store\<close>

definition get_flow_run :: "flow_store \<Rightarrow> uuid \<Rightarrow> flow_run option" where
  "get_flow_run st run_id = bt_get (st_runs st) run_id"

definition get_human_task :: "flow_store \<Rightarrow> uuid \<Rightarrow> human_task option" where
  "get_human_task st task_id = bt_get (st_tasks st) task_id"

definition update_flow_run :: "flow_run \<Rightarrow> nat \<Rightarrow> flow_store \<Rightarrow> flow_error + flow_store" where
  "update_flow_run r expected_revision st =
     res_bind (update_flow_run_row r expected_revision (st_runs st))
       (\<lambda>rows. Inr (st\<lparr>st_runs := rows\<rparr>))"

definition update_human_task :: "human_task \<Rightarrow> nat \<Rightarrow> flow_store \<Rightarrow> flow_error + flow_store" where
  "update_human_task t expected_revision st =
     res_bind (update_human_task_row t expected_revision (st_tasks st))
       (\<lambda>rows. Inr (st\<lparr>st_tasks := rows\<rparr>))"

definition get_pending_human_task_for_flow_run :: "flow_store \<Rightarrow> uuid \<Rightarrow> human_task option" where
  \<comment> \<open>\<open>ORDER BY created_at LIMIT 1\<close>; of tasks created at the same time, the one with the least key\<close>
  "get_pending_human_task_for_flow_run st flow_run_id =
     (case sort_key ht_created_at
             (filter (\<lambda>t. ht_source_kind t = FromFlowRun \<and> ht_source_id t = flow_run_id
                        \<and> ht_status t = TaskPending) (map snd (st_tasks st))) of
        [] \<Rightarrow> None
      | t # _ \<Rightarrow> Some t)"

definition update_flow_run_and_human_task ::
    "flow_run \<Rightarrow> nat \<Rightarrow> human_task \<Rightarrow> nat option \<Rightarrow> flow_store \<Rightarrow> flow_error + flow_store" where
  \<comment> \<open>one transaction: an error leaves the store as it was\<close>
  "update_flow_run_and_human_task r expected_run t expected_task st =
     res_bind (update_flow_run_row r expected_run (st_runs st)) (\<lambda>runs.
     res_bind (case expected_task of
                 Some expected \<Rightarrow> update_human_task_row t expected (st_tasks st)
               | None \<Rightarrow> insert_human_task_row t (st_tasks st)) (\<lambda>tasks.
       Inr (st\<lparr>st_runs := runs, st_tasks := tasks\<rparr>)))"

definition attach_human_task_to_flow_run ::
    "flow_run \<Rightarrow> nat \<Rightarrow> human_task \<Rightarrow> flow_store \<Rightarrow> flow_error + flow_store" where
  "attach_human_task_to_flow_run r expected_run t st =
     res_bind (update_flow_run r expected_run st) (\<lambda>st1.
     res_bind (insert_human_task_row t (st_tasks st1)) (\<lambda>tasks. Inr (st1\<lparr>st_tasks := tasks\<rparr>)))"

section \<open>Writers that retry\<close>

text \<open>
  The two writers of node results read the run, change it and write it back, up to eight times while the
  write is refused because of its revision.  \<open>others n\<close> is what the rest of the system does to the store
  between the read and the write when \<open>n\<close> more rounds are left.
\<close>

definition write_rounds :: nat where
  "write_rounds = 8"

fun retry_write ::
    "string \<Rightarrow> string \<Rightarrow> (flow_run \<Rightarrow> flow_error + flow_run option) \<Rightarrow> (nat \<Rightarrow> flow_store \<Rightarrow> flow_store)
      \<Rightarrow> uuid \<Rightarrow> nat \<Rightarrow> flow_store \<Rightarrow> (flow_error + unit) \<times> flow_store" where
  "retry_write gone exhausted change others run_id 0 st = (Inl (Message exhausted), st)"
| "retry_write gone exhausted change others run_id (Suc n) st =
     (case get_flow_run st run_id of
        None \<Rightarrow> (Inl (Message gone), st)
      | Some r \<Rightarrow>
          (case change r of
             Inl e \<Rightarrow> (Inl e, st)
           | Inr None \<Rightarrow> (Inr (), st)
           | Inr (Some r') \<Rightarrow>
               (case update_flow_run r' (fr_revision r) (others n st) of
                  Inr st' \<Rightarrow> (Inr (), st')
                | Inl (RunRevisionConflict _) \<Rightarrow>
                    retry_write gone exhausted change others run_id n (others n st)
                | Inl e \<Rightarrow> (Inl e, others n st))))"

definition persist_pending_write ::
    "runtime_env \<Rightarrow> (nat \<Rightarrow> flow_store \<Rightarrow> flow_store) \<Rightarrow> uuid \<Rightarrow> uuid \<Rightarrow> pending_write \<Rightarrow> flow_store
      \<Rightarrow> (flow_error + unit) \<times> flow_store" where
  "persist_pending_write env others run_id checkpoint_id w st =
     retry_write ''Flow run disappeared while recording a pending write''
       ''Flow checkpoint could not persist a pending write after concurrent updates''
       (record_pending_write env checkpoint_id w) others run_id write_rounds st"

definition replace_pending_write ::
    "runtime_env \<Rightarrow> (nat \<Rightarrow> flow_store \<Rightarrow> flow_store) \<Rightarrow> uuid \<Rightarrow> uuid \<Rightarrow> pending_write \<Rightarrow> flow_store
      \<Rightarrow> (flow_error + unit) \<times> flow_store" where
  "replace_pending_write env others run_id checkpoint_id replacement st =
     retry_write ''Flow run disappeared while recording a resumed write''
       ''Flow continuation result could not be persisted after concurrent updates''
       (\<lambda>r. res_bind (replace_write env checkpoint_id replacement r) (\<lambda>r'. Inr (Some r')))
       others run_id write_rounds st"

section \<open>Recovery of the store\<close>

definition attach_tasks ::
    "(flow_run \<Rightarrow> flow_run \<times> human_task option) \<Rightarrow> flow_store \<Rightarrow> flow_error + flow_store" where
  \<comment> \<open>one of the two loops over the runs; \<open>attach\<close> leaves a run that is not selected alone\<close>
  "attach_tasks attach st =
     fold (\<lambda>(_, r) acc. res_bind acc (\<lambda>st.
         case attach r of
           (r', Some task) \<Rightarrow> attach_human_task_to_flow_run r' (fr_revision r) task st
         | (_, None) \<Rightarrow> Inr st)) (st_runs st) (Inr st)"

definition recover_interrupted_runtime_state ::
    "runtime_env \<Rightarrow> flow_store \<Rightarrow> flow_error + flow_store" where
  "recover_interrupted_runtime_state env st =
     res_bind (attach_tasks (attach_recovery_task env)
         (st\<lparr>st_runs := map (\<lambda>(i, r). (i, mark_interrupted env r)) (st_runs st)\<rparr>))
       (attach_tasks (attach_approval_task env))"

section \<open>The contract of a table with revisions\<close>

locale cas_table =
  fixes get :: "'s \<Rightarrow> 'k \<Rightarrow> 'v option"
    and put :: "'v \<Rightarrow> nat \<Rightarrow> 's \<Rightarrow> 'e + 's"
    and key :: "'v \<Rightarrow> 'k"
    and revision :: "'v \<Rightarrow> nat"
  assumes put_current: "put v expected s = Inr s' \<Longrightarrow>
      \<exists>current. get s (key v) = Some current \<and> revision current = expected"
    and get_put: "put v expected s = Inr s' \<Longrightarrow> get s' k = (if k = key v then Some v else get s k)"
    and put_accepted: "get s (key v) = Some current \<Longrightarrow> \<exists>s'. put v (revision current) s = Inr s'"
begin

definition attempt :: "'v \<times> nat \<Rightarrow> 's \<Rightarrow> 's" where
  "attempt w s = (case put (fst w) (snd w) s of Inr s' \<Rightarrow> s' | Inl _ \<Rightarrow> s)"

lemma attempt_grows:
  assumes "snd w < revision (fst w)" and "get s k = Some v"
  shows "\<exists>v'. get (attempt w s) k = Some v' \<and> (v' = v \<or> revision v < revision v')"
proof (cases "put (fst w) (snd w) s")
  case (Inr s')
  then show ?thesis
    using put_current [OF Inr] get_put [OF Inr, of k] assms by (auto simp: attempt_def)
qed (use assms in \<open>simp add: attempt_def\<close>)

lemma attempts_grow:
  assumes "\<forall>w \<in> set ws. snd w < revision (fst w)" and "get s k = Some v"
  shows "\<exists>v'. get (fold attempt ws s) k = Some v' \<and> (v' = v \<or> revision v < revision v')"
  using assms
proof (induction ws arbitrary: s v)
  case (Cons w ws)
  obtain v1 where v1: "get (attempt w s) k = Some v1" "v1 = v \<or> revision v < revision v1"
    using attempt_grows [of w s k v] Cons.prems by auto
  show ?case using Cons.IH [OF _ v1(1)] Cons.prems(1) v1(2) by fastforce
qed simp

text \<open>A write computed from the version \<open>v\<close> is accepted only while \<open>v\<close> is still the stored version.\<close>

lemma no_lost_update:
  assumes "\<forall>w \<in> set ws. snd w < revision (fst w)" and "get s (key w') = Some v"
    and "put w' (revision v) (fold attempt ws s) = Inr s'"
  shows "get (fold attempt ws s) (key w') = Some v \<and> get s' (key w') = Some w'"
  using attempts_grow [OF assms(1,2)] put_current [OF assms(3)] get_put [OF assms(3)] by auto

end

lemma update_flow_run_Inr:
  "update_flow_run r expected st = Inr st' \<longleftrightarrow>
     (\<exists>current. get_flow_run st (fr_id r) = Some current \<and> fr_revision current = expected)
     \<and> st' = st\<lparr>st_runs := bt_insert (fr_id r) r (st_runs st)\<rparr>"
  by (auto simp: update_flow_run_def update_flow_run_row_def get_flow_run_def res_Inr_iffs
      split: option.splits if_splits)

lemma update_human_task_Inr:
  "update_human_task t expected st = Inr st' \<longleftrightarrow>
     (\<exists>current. get_human_task st (ht_id t) = Some current \<and> ht_revision current = expected)
     \<and> st' = st\<lparr>st_tasks := bt_insert (ht_id t) t (st_tasks st)\<rparr>"
  by (auto simp: update_human_task_def update_human_task_row_def get_human_task_def res_Inr_iffs
      split: option.splits if_splits)

interpretation run_table: cas_table get_flow_run update_flow_run fr_id fr_revision
  by unfold_locales (auto simp: update_flow_run_Inr get_flow_run_def map_simps)

interpretation task_table: cas_table get_human_task update_human_task ht_id ht_revision
  by unfold_locales (auto simp: update_human_task_Inr get_human_task_def map_simps)

section \<open>Lemmas\<close>

lemma get_flow_run_insert:
  "get_flow_run (st\<lparr>st_runs := bt_insert i r (st_runs st)\<rparr>) k = (if k = i then Some r else get_flow_run st k)"
  by (simp add: get_flow_run_def map_simps)

lemma update_flow_run_conflict:
  assumes "get_flow_run st (fr_id r) = Some current" and "fr_revision current \<noteq> expected"
  shows "update_flow_run r expected st = Inl (RunRevisionConflict (u32_try (fr_revision current)))"
  using assms by (simp add: update_flow_run_def update_flow_run_row_def get_flow_run_def)

lemma retry_write_succeeds:
  assumes "P st" and "k < n" and "\<And>s. others k s = s" and "\<And>m s. P s \<Longrightarrow> P (others m s)"
    and change: "\<And>s. P s \<Longrightarrow> \<exists>r. get_flow_run s i = Some r \<and> fr_id r = i
      \<and> (change r = Inr None \<and> Q r \<or> (\<exists>r'. change r = Inr (Some r') \<and> fr_id r' = i \<and> Q r'))"
  shows "\<exists>st' r. retry_write gone exhausted change others i n st = (Inr (), st')
    \<and> get_flow_run st' i = Some r \<and> Q r"
  using assms(1,2)
proof (induction n arbitrary: st)
  case (Suc n)
  obtain r where r: "get_flow_run st i = Some r" "fr_id r = i"
    and or: "change r = Inr None \<and> Q r \<or> (\<exists>r'. change r = Inr (Some r') \<and> fr_id r' = i \<and> Q r')"
    using change [OF Suc.prems(1)] by blast
  have P': "P (others n st)" using assms(4) Suc.prems(1) .
  obtain r2 where r2: "get_flow_run (others n st) i = Some r2" "fr_id r2 = i"
    using change [OF P'] by blast
  show ?case
  proof (cases "change r = Inr None \<and> Q r")
    case True
    with r show ?thesis by auto
  next
    case False
    with or obtain r' where r': "change r = Inr (Some r')" "fr_id r' = i" "Q r'" by blast
    show ?thesis
    proof (cases "fr_revision r2 = fr_revision r")
      case True
      then have "update_flow_run r' (fr_revision r) (others n st)
          = Inr ((others n st)\<lparr>st_runs := bt_insert i r' (st_runs (others n st))\<rparr>)"
        using r' r2 by (simp add: update_flow_run_Inr)
      with r r' show ?thesis by (auto simp: get_flow_run_insert)
    next
      case False
      then have "k \<noteq> n" using assms(3) [of st] r(1) r2(1) by auto
      with Suc.prems have "k < n" by simp
      from Suc.IH [OF P' this] False r r' r2 show ?thesis
        by (simp add: update_flow_run_conflict)
    qed
  qed
qed simp

definition holds_checkpoint :: "uuid \<Rightarrow> uuid \<Rightarrow> flow_store \<Rightarrow> bool" where
  "holds_checkpoint run_id checkpoint_id st \<longleftrightarrow>
     (case get_flow_run st run_id of
        Some r \<Rightarrow> fr_id r = run_id
          \<and> (case fr_active_checkpoint r of Some c \<Rightarrow> cp_id c = checkpoint_id | None \<Rightarrow> False)
      | None \<Rightarrow> False)"

definition recorded :: "uuid \<Rightarrow> string \<Rightarrow> flow_run \<Rightarrow> bool" where
  "recorded checkpoint_id node_id r \<longleftrightarrow>
     (case fr_active_checkpoint r of
        Some c \<Rightarrow> cp_id c = checkpoint_id \<and> node_id \<in> pw_node_id ` set (cp_pending_writes c)
      | None \<Rightarrow> False)"

lemma record_pending_write_recorded:
  assumes "fr_active_checkpoint r = Some c" and "cp_id c = checkpoint_id" and "fr_id r = i"
  shows "record_pending_write env checkpoint_id w r = Inr None \<and> recorded checkpoint_id (pw_node_id w) r
    \<or> (\<exists>r'. record_pending_write env checkpoint_id w r = Inr (Some r') \<and> fr_id r' = i
         \<and> recorded checkpoint_id (pw_node_id w) r')"
  using assms
  by (auto simp: record_pending_write_def checkpoint_of_def recorded_def list_ex_iff touch_def
      intro: rev_image_eqI)

section \<open>Properties\<close>

definition concurrent_updates :: "(flow_run \<times> nat) list \<Rightarrow> flow_store \<Rightarrow> flow_store" where
  \<comment> \<open>writers with the revisions they expect, in the order in which they reach the store\<close>
  "concurrent_updates ws st =
     fold (\<lambda>w st. case update_flow_run (fst w) (snd w) st of Inr st' \<Rightarrow> st' | Inl _ \<Rightarrow> st) ws st"


definition example_revision :: flow_revision where
  "example_revision =
     \<lparr>rv_schema_version = 1,
      rv_workflow = \<lparr>cw_schema_version = 1, cw_flow_id = ''f'', cw_flow_version = 1,
        cw_graph = example_graph, cw_budget = flow_budget_default\<rparr>,
      rv_trigger = ManualTrigger, rv_output_review_policy = ExplicitNodesOnly\<rparr>"

definition example_run :: flow_run where
  "example_run =
     (case new_from_revision example_env ''th'' example_revision JNull ManualTrigger of
        Inr r \<Rightarrow> r
      | Inl _ \<Rightarrow> undefined)"

definition example_checkpoint :: checkpoint where
  "example_checkpoint =
     \<lparr>cp_id = ''c'', cp_superstep = 1, cp_status = CheckpointRunning,
      cp_nodes = [\<lparr>sn_node_id = ''a'', sn_node_run_id = ''r'', sn_attempt = 1, sn_input = JNull\<rparr>],
      cp_pending_writes = [], cp_created_at = 0, cp_completed_at = None\<rparr>"

definition example_write :: pending_write where
  "example_write =
     \<lparr>pw_node_id = ''a'', pw_node_run_id = ''r'', pw_result = None, pw_error = Some ''no'',
      pw_interrupt = None, pw_resume_command = None, pw_completed_at = 0\<rparr>"

lemma example_run_simps [simp]:
  "fr_revision example_run = 1" "fr_status example_run = Queued"
  "fr_active_human_task_id example_run = None" "fr_active_checkpoint example_run = None"
  "fr_node_runs example_run = []" "fr_budget example_run = flow_budget_default"
  "fr_graph example_run = example_graph" "fr_node_executions example_run = 0"
  "fr_loop_counts example_run = []"
  by (simp_all add: example_run_def new_from_revision_def example_revision_def res_ensure_def
      enterprise_schema_version_def Let_def)


text \<open>
  A node result survives concurrent writers.  If the other writers keep the run and its checkpoint in
  place, and in at least one of the eight rounds none of them interferes, recording the result returns
  without error, and the checkpoint then holds a result for the node.
\<close>
theorem pending_write_is_persisted:
  assumes "holds_checkpoint run_id checkpoint_id st"
    and "\<And>m s. holds_checkpoint run_id checkpoint_id s \<Longrightarrow> holds_checkpoint run_id checkpoint_id (others m s)"
    and "quiet < 8" and "\<And>s. others quiet s = s"
  shows "\<exists>st' r. persist_pending_write env others run_id checkpoint_id w st = (Inr (), st')
    \<and> get_flow_run st' run_id = Some r \<and> recorded checkpoint_id (pw_node_id w) r"
  unfolding persist_pending_write_def write_rounds_def
proof (rule retry_write_succeeds [where P = "holds_checkpoint run_id checkpoint_id" and k = quiet])
  fix s
  assume "holds_checkpoint run_id checkpoint_id s"
  then obtain r c where "get_flow_run s run_id = Some r" "fr_id r = run_id"
    "fr_active_checkpoint r = Some c" "cp_id c = checkpoint_id"
    by (auto simp: holds_checkpoint_def split: option.splits)
  with record_pending_write_recorded [of r c checkpoint_id run_id env w]
  show "\<exists>r. get_flow_run s run_id = Some r \<and> fr_id r = run_id
      \<and> (record_pending_write env checkpoint_id w r = Inr None \<and> recorded checkpoint_id (pw_node_id w) r
         \<or> (\<exists>r'. record_pending_write env checkpoint_id w r = Inr (Some r') \<and> fr_id r' = run_id
              \<and> recorded checkpoint_id (pw_node_id w) r'))"
    by auto
qed (use assms in auto)

lemma pending_write_is_persisted_witness:
  "\<exists>st' r. persist_pending_write example_env (\<lambda>_ s. s) ''x'' ''c'' example_write
      \<lparr>st_runs = [(''x'', example_run\<lparr>fr_id := ''x'', fr_active_checkpoint := Some example_checkpoint\<rparr>)],
       st_tasks = []\<rparr> = (Inr (), st')
    \<and> get_flow_run st' ''x'' = Some r \<and> recorded ''c'' (pw_node_id example_write) r"
  by (rule pending_write_is_persisted [where quiet = 0])
     (simp_all add: holds_checkpoint_def get_flow_run_def example_checkpoint_def)

text \<open>The recovery of a store whose rows it cannot all attach.\<close>

lemma attach_human_task_existing:
  "bt_contains (st_tasks st) (ht_id t) \<Longrightarrow> \<exists>e. attach_human_task_to_flow_run r expected t st = Inl e"
proof (cases "update_flow_run r expected st")
  case (Inr st1)
  then have "st_tasks st1 = st_tasks st" by (simp add: update_flow_run_Inr)
  moreover assume "bt_contains (st_tasks st) (ht_id t)"
  ultimately show ?thesis
    using Inr by (simp add: attach_human_task_to_flow_run_def insert_human_task_row_def)
qed (simp add: attach_human_task_to_flow_run_def)

lemma attach_human_task_keeps_tasks:
  "attach_human_task_to_flow_run r expected t st = Inr st' \<Longrightarrow> bt_contains (st_tasks st) k \<Longrightarrow>
     bt_contains (st_tasks st') k"
  by (auto simp: attach_human_task_to_flow_run_def update_flow_run_Inr insert_human_task_row_def
      res_Inr_iffs bt_contains_def map_simps split: if_splits)

definition attach_one ::
    "(flow_run \<Rightarrow> flow_run \<times> human_task option) \<Rightarrow> flow_run \<Rightarrow> flow_store \<Rightarrow> flow_error + flow_store" where
  "attach_one attach r st =
     (case attach r of
        (r', Some task) \<Rightarrow> attach_human_task_to_flow_run r' (fr_revision r) task st
      | (_, None) \<Rightarrow> Inr st)"

lemma attach_tasks_fold:
  "attach_tasks attach st = fold (\<lambda>(_, r) acc. res_bind acc (attach_one attach r)) (st_runs st) (Inr st)"
  by (simp add: attach_tasks_def attach_one_def [abs_def])

lemma fold_bind_Inl: "fold (\<lambda>(_, r) acc. res_bind acc (f r)) rows (Inl e) = Inl e"
  by (induction rows) auto

lemma fold_attach_existing:
  assumes "(i, r) \<in> set rows" and "attach r = (r', Some t)" and "bt_contains (st_tasks st) (ht_id t)"
  shows "\<exists>e. fold (\<lambda>(_, r) acc. res_bind acc (attach_one attach r)) rows (Inr st) = Inl e"
  using assms(1,3)
proof (induction rows arbitrary: st)
  case (Cons x rows)
  show ?case
  proof (cases "attach_one attach (snd x) st")
    case (Inl e)
    then show ?thesis by (simp add: case_prod_beta fold_bind_Inl [unfolded case_prod_beta])
  next
    case (Inr st')
    then have "x \<noteq> (i, r)"
      using attach_human_task_existing [OF Cons.prems(2), of r' "fr_revision r"] assms(2)
      by (auto simp: attach_one_def)
    moreover have "bt_contains (st_tasks st') (ht_id t)"
      using Inr Cons.prems(2)
      by (auto simp: attach_one_def intro: attach_human_task_keeps_tasks split: prod.splits option.splits)
    ultimately show ?thesis using Cons.IH [of st'] Cons.prems(1) Inr by (simp add: case_prod_beta)
  qed
qed simp

lemma attach_recovery_task_id:
  assumes "fr_status r \<in> {Queued, Running, Resuming, PauseRequested}"
    and "fr_active_human_task_id r = None"
    and "find (\<lambda>n. nr_status n \<in> {NodeRunning, NodeResuming}) (rev (fr_node_runs r)) = Some n"
  shows "\<exists>r' t. attach_recovery_task env (mark_interrupted env r) = (r', Some t)
    \<and> ht_id t = stable_task_id env (fr_id r) ''recovery'' (nr_id n)"
  using assms
  by (auto simp: attach_recovery_task_def mark_interrupted_def Let_def recovery_task_def
      flow_recovery_def flow_task_def)

lemma recovery_retry_resuming:
  assumes "pending_resume_command_id r \<noteq> None" and "recovery_retry env r = Inr r'"
    and "find (\<lambda>n. nr_status n \<in> {NodeRunning, NodeResuming}) (rev (fr_node_runs r)) = Some n"
  shows "fr_id r' = fr_id r \<and> fr_status r' = Resuming \<and> fr_active_human_task_id r' = None
    \<and> (\<exists>n'. find (\<lambda>n. nr_status n \<in> {NodeRunning, NodeResuming}) (rev (fr_node_runs r')) = Some n'
         \<and> nr_id n' = nr_id n)"
proof -
  let ?f = "\<lambda>n. if nr_status n = NodeResuming then n\<lparr>nr_error := None\<rparr> else n"
  have find_map: "find P (map ?f xs) = map_option ?f (find P xs)"
    if "\<And>x. P (?f x) = P x" for P and xs :: "node_run list"
    using that by (induction xs) auto
  have "r' = touch env (r\<lparr>fr_status := Resuming, fr_node_runs := map ?f (fr_node_runs r),
      fr_error := None, fr_active_human_task_id := None\<rparr>)"
    using assms(1,2) by (auto simp: recovery_retry_def)
  then show ?thesis using assms(3) by (auto simp: touch_def rev_map find_map)
qed

lemma recover_run_resuming:
  assumes "fr_status r = Resuming" and "fr_active_human_task_id r = None"
    and "find (\<lambda>n. nr_status n \<in> {NodeRunning, NodeResuming}) (rev (fr_node_runs r)) = Some n"
  shows "\<exists>r1 t1. recover_run env r = (r1, Some t1)
    \<and> ht_id t1 = stable_task_id env (fr_id r) ''recovery'' (nr_id n)
    \<and> fr_id r1 = fr_id r \<and> fr_node_runs r1 = fr_node_runs r
    \<and> fr_active_checkpoint r1 = fr_active_checkpoint r"
  using assms
  by (auto simp: recover_run_def attach_recovery_task_def mark_interrupted_def Let_def
      recovery_task_def flow_recovery_def flow_task_def touch_def)

text \<open>
  C40: The second restart during one resumption blocks the store.  The server stops while a run resumes an
  agent continuation; on its start the run gets a recovery task, and the operator answers it with a
  retry.  If the server stops again before the continuation has returned, the recovery of the whole
  store fails, as long as the answered task is still in it: the new recovery task of the run gets the
  identifier of the first.
\<close>
theorem repeated_recovery_fails:
  assumes "fr_status r = Resuming" and "fr_active_human_task_id r = None"
    and "pending_resume_command_id r \<noteq> None"
    and "find (\<lambda>n. nr_status n \<in> {NodeRunning, NodeResuming}) (rev (fr_node_runs r)) = Some n"
    and "recover_run env r = (r1, Some t1)" and "recovery_retry env' r1 = Inr r2"
    and "(i, r2) \<in> set (st_runs st)" and "bt_contains (st_tasks st) (ht_id t1)"
    and "env_uuid_v5 env'' = env_uuid_v5 env"
  shows "\<exists>e. recover_interrupted_runtime_state env'' st = Inl e"
proof -
  let ?st = "st\<lparr>st_runs := map (\<lambda>(i, r). (i, mark_interrupted env'' r)) (st_runs st)\<rparr>"
  have r1: "ht_id t1 = stable_task_id env (fr_id r) ''recovery'' (nr_id n)" "fr_id r1 = fr_id r"
      "fr_node_runs r1 = fr_node_runs r" "fr_active_checkpoint r1 = fr_active_checkpoint r"
    using recover_run_resuming [OF assms(1,2,4), of env] assms(5) by auto
  then have "pending_resume_command_id r1 \<noteq> None" using assms(3) by (simp add: pending_resume_command_id_def)
  then obtain n' where r2: "fr_id r2 = fr_id r" "fr_status r2 = Resuming"
      "fr_active_human_task_id r2 = None" "nr_id n' = nr_id n"
      "find (\<lambda>n. nr_status n \<in> {NodeRunning, NodeResuming}) (rev (fr_node_runs r2)) = Some n'"
    using recovery_retry_resuming [OF _ assms(6), of n] assms(4) r1 by auto
  then obtain r3 t3 where t3: "attach_recovery_task env'' (mark_interrupted env'' r2) = (r3, Some t3)"
      "ht_id t3 = ht_id t1"
    using attach_recovery_task_id [of r2 n' env''] r1(1) assms(9) by (auto simp: stable_task_id_def)
  have "(i, mark_interrupted env'' r2) \<in> set (st_runs ?st)" using assms(7) by force
  then have "\<exists>e. attach_tasks (attach_recovery_task env'') ?st = Inl e"
    unfolding attach_tasks_fold
    by (rule fold_attach_existing [where r' = r3 and t = t3]) (use t3 assms(8) in simp_all)
  then show ?thesis by (auto simp: recover_interrupted_runtime_state_def)
qed

definition example_resuming_run :: flow_run where
  "example_resuming_run =
     example_run\<lparr>fr_id := ''x'', fr_status := Resuming,
       fr_node_runs := [(fresh_node_run example_env ''r'' ''a'' 1 NodeResuming JNull [])],
       fr_active_checkpoint := Some (example_checkpoint\<lparr>cp_pending_writes :=
         [example_write\<lparr>pw_error := None, pw_interrupt := Some example_interrupt,
            pw_resume_command := Some
              \<lparr>rc_schema_version = 1, rc_id = ''cmd'', rc_idempotency_key = ''k'',
               rc_interrupt_id = ''i'', rc_expected_interrupt_revision = 1,
               rc_signal = ApprovalSignal None True, rc_note = None, rc_issued_by = ''me'',
               rc_issued_at = 0\<rparr>\<rparr>]\<rparr>)\<rparr>"

lemma repeated_recovery_fails_witness:
  "\<exists>r1 t1 r2 e. recover_run example_env example_resuming_run = (r1, Some t1)
     \<and> recovery_retry example_env r1 = Inr r2
     \<and> recover_interrupted_runtime_state example_env
         \<lparr>st_runs = [(''x'', r2)], st_tasks = [(ht_id t1, t1)]\<rparr> = Inl e"
proof -
  let ?r = "example_resuming_run" and ?n = "fresh_node_run example_env ''r'' ''a'' 1 NodeResuming JNull []"
  have run: "fr_status ?r = Resuming" "fr_active_human_task_id ?r = None"
      "pending_resume_command_id ?r \<noteq> None"
      "find (\<lambda>n. nr_status n \<in> {NodeRunning, NodeResuming}) (rev (fr_node_runs ?r)) = Some ?n"
    by (simp_all add: example_resuming_run_def pending_resume_command_id_def validates_def
        example_interrupt_def at_checkpoint_def example_write_def fresh_node_run_def)
  obtain r1 t1 where r1: "recover_run example_env ?r = (r1, Some t1)"
      "fr_active_checkpoint r1 = fr_active_checkpoint ?r"
    using recover_run_resuming [OF run(1,2,4), of example_env] by auto
  then have "pending_resume_command_id r1 \<noteq> None" using run(3) by (simp add: pending_resume_command_id_def)
  then obtain r2 where r2: "recovery_retry example_env r1 = Inr r2" by (auto simp: recovery_retry_def)
  let ?st = "\<lparr>st_runs = [(''x'', r2)], st_tasks = [(ht_id t1, t1)]\<rparr>"
  have "\<exists>e. recover_interrupted_runtime_state example_env ?st = Inl e"
    by (rule repeated_recovery_fails [OF run r1(1) r2]) (simp_all add: bt_contains_def)
  with r1 r2 show ?thesis by blast
qed

end
