(* ===== verification/Flow_Frame.thy ===== *)
theory Flow_Frame
  imports Flow_Control
begin

text \<open>
  What the operations on a flow run leave alone, and the bounds they keep: the identity, graph and budget of
  the run never change, the loop counters stay within the budget, the queue of ready nodes has no
  repetition, and the number of node executions grows only where a node run is created.  The theories
  of the driver and of the whole system rest on these lemmas.
\<close>

section \<open>Frames\<close>

definition counts_ok :: "flow_run \<Rightarrow> bool" where
  "counts_ok r \<longleftrightarrow>
     (\<forall>k c. bt_get (fr_loop_counts r) k = Some c \<longrightarrow> c \<le> fb_max_loop_iterations (fr_budget r))"

definition keeps :: "flow_run \<Rightarrow> flow_run \<Rightarrow> bool" where
  "keeps r r' \<longleftrightarrow>
     fr_id r' = fr_id r \<and> fr_graph r' = fr_graph r \<and> fr_budget r' = fr_budget r
     \<and> (counts_ok r \<longrightarrow> counts_ok r')
     \<and> (distinct (fr_ready_nodes r) \<longrightarrow> distinct (fr_ready_nodes r'))"

lemma keeps_refl [simp]: "keeps r r"
  by (simp add: keeps_def)

lemma keeps_trans [trans]: "keeps r r' \<Longrightarrow> keeps r' r'' \<Longrightarrow> keeps r r''"
  by (simp add: keeps_def)

lemma keepsI:
  assumes "fr_id r' = fr_id r" "fr_graph r' = fr_graph r" "fr_budget r' = fr_budget r"
    "fr_loop_counts r' = fr_loop_counts r"
    "distinct (fr_ready_nodes r) \<Longrightarrow> distinct (fr_ready_nodes r')"
  shows "keeps r r'"
  using assms by (simp add: keeps_def counts_ok_def)

lemma touch_frame [simp]:
  "fr_id (touch env r) = fr_id r" "fr_graph (touch env r) = fr_graph r"
  "fr_budget (touch env r) = fr_budget r" "fr_loop_counts (touch env r) = fr_loop_counts r"
  "fr_ready_nodes (touch env r) = fr_ready_nodes r" "fr_status (touch env r) = fr_status r"
  "fr_node_executions (touch env r) = fr_node_executions r"
  "fr_active_checkpoint (touch env r) = fr_active_checkpoint r"
  "fr_active_human_task_id (touch env r) = fr_active_human_task_id r"
  "fr_error (touch env r) = fr_error r" "fr_node_runs (touch env r) = fr_node_runs r"
  "fr_tool_calls (touch env r) = fr_tool_calls r" "fr_superstep (touch env r) = fr_superstep r"
  "fr_checkpoint_history (touch env r) = fr_checkpoint_history r"
  "fr_output (touch env r) = fr_output r" "fr_node_outputs (touch env r) = fr_node_outputs r"
  "fr_state (touch env r) = fr_state r" "fr_thread_id (touch env r) = fr_thread_id r"
  by (simp_all add: touch_def)

lemma distinct_enqueue_unique: "distinct q \<Longrightarrow> distinct (enqueue_unique x q)"
  by (simp add: enqueue_unique_def)

lemma distinct_fold_enqueue: "distinct q \<Longrightarrow> distinct (fold enqueue_unique xs q)"
  by (induction xs arbitrary: q) (simp_all add: distinct_enqueue_unique)

lemma fold_fixed: "(\<And>x y. g (f x y) = g y) \<Longrightarrow> g (fold f xs y) = g y"
  by (induction xs arbitrary: y) auto

section \<open>Routing\<close>

definition routed :: "flow_run \<Rightarrow> flow_run \<Rightarrow> bool" where
  \<comment> \<open>what routing may do to a run\<close>
  "routed r r' \<longleftrightarrow>
     keeps r r' \<and> fr_node_executions r' = fr_node_executions r
     \<and> fr_active_checkpoint r' = fr_active_checkpoint r
     \<and> fr_active_human_task_id r' = fr_active_human_task_id r
     \<and> fr_node_runs r' = fr_node_runs r \<and> fr_tool_calls r' = fr_tool_calls r
     \<and> fr_checkpoint_history r' = fr_checkpoint_history r
     \<and> fr_output_review_required r' = fr_output_review_required r
     \<and> fr_output_reviewed r' = fr_output_reviewed r
     \<and> fr_status r' \<in> {fr_status r, Paused, Succeeded}"

lemma routed_refl [simp]: "routed r r"
  by (simp add: routed_def)

lemma routed_trans [trans]: "routed r r' \<Longrightarrow> routed r' r'' \<Longrightarrow> routed r r''"
  by (auto simp: routed_def intro: keeps_trans)

lemma routed_enqueue: "routed r (r\<lparr>fr_ready_nodes := enqueue_unique x (fr_ready_nodes r)\<rparr>)"
  by (simp add: routed_def keeps_def counts_ok_def distinct_enqueue_unique)

lemma consume_loop_budget_routed:
  "consume_loop_budget env index policy r = Inr (continue, r') \<Longrightarrow> routed r r'"
  by (auto simp: consume_loop_budget_def Let_def routed_def keeps_def counts_ok_def map_simps
      u32_sat_add_def split: if_splits option.splits loop_exhaustion_action.splits)

lemma route_edges_routed: "route_edges env out es r = Inr r' \<Longrightarrow> routed r r'"
proof (induction env out es r rule: route_edges.induct)
  case (2 env out index e rest r)
  show ?case
  proof (cases "\<not> (case ge_condition e of None \<Rightarrow> True | Some c \<Rightarrow> evaluate_condition env c out)")
    case True
    with 2 show ?thesis by simp
  next
    case taken: False
    show ?thesis
    proof (cases "ge_loop_policy e")
      case None
      with 2(2,5) taken show ?thesis by (auto intro: routed_trans [OF routed_enqueue])
    next
      case (Some policy)
      show ?thesis
      proof (cases "evaluate_condition env (lp_continue_condition policy) out")
        case False
        with 2(3,5) taken Some show ?thesis by simp
      next
        case True
        with 2(5) taken Some obtain continue r1 where r1:
            "consume_loop_budget env index policy r = Inr (continue, r1)"
            "route_edges env out rest
               (if continue then r1\<lparr>fr_ready_nodes := enqueue_unique (ge_to e) (fr_ready_nodes r1)\<rparr> else r1)
             = Inr r'"
          by (auto simp: res_Inr_iffs)
        have "routed (if continue then r1\<lparr>fr_ready_nodes := enqueue_unique (ge_to e) (fr_ready_nodes r1)\<rparr>
            else r1) r'"
          using 2(4) [OF taken Some _ r1(2)] True by simp
        moreover have "routed r1 (if continue
            then r1\<lparr>fr_ready_nodes := enqueue_unique (ge_to e) (fr_ready_nodes r1)\<rparr> else r1)"
          by (simp add: routed_enqueue)
        ultimately show ?thesis
          using consume_loop_budget_routed [OF r1(1)] by (blast intro: routed_trans)
      qed
    qed
  qed
qed simp

lemma route_after_node_routed: "route_after_node env node_id out r = Inr r' \<Longrightarrow> routed r r'"
  unfolding route_after_node_def by (rule route_edges_routed)

section \<open>The steps of the driver\<close>

definition worked :: "flow_run \<Rightarrow> flow_run \<Rightarrow> bool" where
  \<comment> \<open>a step within a superstep\<close>
  "worked r r' \<longleftrightarrow>
     keeps r r' \<and> fr_node_executions r' = fr_node_executions r
     \<and> fr_active_checkpoint r' = fr_active_checkpoint r
     \<and> fr_active_human_task_id r' = fr_active_human_task_id r
     \<and> fr_output_review_required r' = fr_output_review_required r
     \<and> fr_output_reviewed r' = fr_output_reviewed r
     \<and> fr_status r' \<in> {fr_status r, Paused, Succeeded}"

lemma worked_refl [simp]: "worked r r"
  by (simp add: worked_def)

lemma worked_trans [trans]: "worked r r' \<Longrightarrow> worked r' r'' \<Longrightarrow> worked r r''"
  by (auto simp: worked_def intro: keeps_trans)

lemma routed_worked: "routed r r' \<Longrightarrow> worked r r'"
  by (simp add: routed_def worked_def)

lemma commit_write_worked: "commit_write env k w s = Inr s' \<Longrightarrow> worked (cm_run s) (cm_run s')"
  by (auto simp: commit_write_def Let_def res_Inr_iffs worked_def intro!: keepsI
      split: option.splits)

lemma commit_writes_worked: "commit_writes env k ws s = Inr s' \<Longrightarrow> worked (cm_run s) (cm_run s')"
  by (induction env k ws s rule: commit_writes.induct)
     (auto simp: res_Inr_iffs intro: commit_write_worked worked_trans)

lemma commit_outputs_worked: "commit_outputs env succeeded r = Inr r' \<Longrightarrow> worked r r'"
proof (induction env succeeded r rule: commit_outputs.induct)
  case (2 env n out rest r)
  then obtain writes state where "parse_state_writes (env_decode_write env) (gn_config n) = Inr writes"
      "apply_state_writes (fr_state r) writes out = Inr state"
    by (auto split: sum.splits)
  with 2 have "worked (r\<lparr>fr_node_outputs := bt_insert (gn_id n) out (fr_node_outputs r),
      fr_state := state\<rparr>) r'"
    by simp
  then show ?case by (auto simp: worked_def keeps_def counts_ok_def)
qed simp

lemma commit_routes_worked: "commit_routes env succeeded r = Inr (r', outs) \<Longrightarrow> worked r r'"
proof (induction env succeeded r arbitrary: r' outs rule: commit_routes.induct)
  case (2 env n out rest r)
  show ?case
  proof (cases "gn_kind n = OutputNode")
    case True
    with 2(1,3) show ?thesis by (auto simp: res_Inr_iffs)
  next
    case False
    with 2(3) obtain r1 where r1: "route_after_node env (gn_id n) out r = Inr r1"
        "commit_routes env rest r1 = Inr (r', outs)"
      by (auto simp: res_Inr_iffs)
    from 2(2) [OF False r1(2)] show ?thesis
      using routed_worked [OF route_after_node_routed [OF r1(1)]] by (rule worked_trans [rotated])
  qed
qed simp

lemma finish_commit_result:
  assumes "finish_commit env c unhandled outs r = (r', task)"
  shows "keeps r r' \<and> fr_node_executions r' = fr_node_executions r
    \<and> fr_active_checkpoint r' = fr_active_checkpoint r
    \<and> (fr_status r' \<in> {Failed, Succeeded, Paused, Running} \<and> task = None
         \<and> fr_active_human_task_id r' = fr_active_human_task_id r
       \<or> fr_status r' = WaitingHuman
         \<and> (\<exists>t. task = Some t \<and> fr_active_human_task_id r' = Some (ht_id t)))"
  using assms
  by (auto simp: finish_commit_def Let_def intro!: keepsI split: option.splits list.splits if_splits)

definition committed :: "flow_run \<Rightarrow> flow_run \<Rightarrow> human_task option \<Rightarrow> bool" where
  \<comment> \<open>how a run comes out of a commit\<close>
  "committed r r' task \<longleftrightarrow>
     keeps r r' \<and> fr_node_executions r' = fr_node_executions r
     \<and> (fr_status r' \<in> {Failed, Succeeded, Paused, Running, Cancelled} \<and> task = None
          \<and> fr_active_human_task_id r' = fr_active_human_task_id r \<and> fr_active_checkpoint r' = None
        \<or> fr_status r' = WaitingHuman
          \<and> (\<exists>t. task = Some t \<and> fr_active_human_task_id r' = Some (ht_id t))
          \<and> (\<forall>c'. fr_active_checkpoint r' = Some c' \<longrightarrow>
               (\<exists>c. fr_active_checkpoint r = Some c \<and> cp_nodes c' = cp_nodes c)))"

lemma cancel_run_result:
  "keeps r (cancel_run env r) \<and> fr_node_executions (cancel_run env r) = fr_node_executions r
   \<and> fr_status (cancel_run env r) = Cancelled \<and> fr_active_checkpoint (cancel_run env r) = None
   \<and> fr_active_human_task_id (cancel_run env r) = fr_active_human_task_id r"
  by (auto simp: cancel_run_def cancel_active_checkpoint_def intro!: keepsI split: option.splits)

lemma pause_for_interrupt_result:
  assumes "pause_for_interrupt env get_effect c i r = Inr (r', t)"
  shows "keeps r r' \<and> fr_node_executions r' = fr_node_executions r \<and> fr_status r' = WaitingHuman
    \<and> fr_active_checkpoint r' = Some c \<and> fr_active_human_task_id r' = Some (ht_id t)"
  using assms
  by (auto simp: pause_for_interrupt_def Let_def res_Inr_iffs intro!: keepsI)

lemma commit_active_checkpoint_cases:
  assumes "commit_active_checkpoint env get_effect checkpoint_id r = Inr (r', task)"
  obtains (cancel) "r' = cancel_run env r" "task = None"
    | (wait) c0 c i t where "fr_active_checkpoint r = Some c0" "cp_nodes c = cp_nodes c0"
        "pause_for_interrupt env get_effect c i (r\<lparr>fr_active_checkpoint := None\<rparr>) = Inr (r', t)"
        "task = Some t"
    | (finish) c unhandled outs r1 where "fr_active_checkpoint r \<noteq> None"
        "worked (r\<lparr>fr_active_checkpoint := None\<rparr>) r1"
        "finish_commit env c unhandled outs r1 = (r', task)"
proof -
  obtain c0 where c0: "fr_active_checkpoint r = Some c0" "cp_id c0 = checkpoint_id"
    using assms by (auto simp: commit_active_checkpoint_def res_Inr_iffs checkpoint_of_def
        split: option.splits if_splits)
  let ?c = "c0\<lparr>cp_pending_writes := sort_key pw_node_id (cp_pending_writes c0)\<rparr>"
  let ?r0 = "r\<lparr>fr_active_checkpoint := None\<rparr>"
  let ?s0 = "\<lparr>cm_run = ?r0, cm_succeeded = [], cm_routed_errors = [], cm_unhandled_error = None\<rparr>"
  show thesis
  proof (cases "fr_status r = CancelRequested")
    case True
    then show thesis using assms c0 that(1)
      by (simp add: commit_active_checkpoint_def checkpoint_of_def)
  next
    case False
    show thesis
    proof (cases "find_map pw_interrupt (cp_pending_writes ?c)")
      case (Some i)
      then show thesis using assms c0 False that(2) [OF c0(1), of ?c i]
        by (auto simp: commit_active_checkpoint_def checkpoint_of_def res_Inr_iffs Let_def)
    next
      case None
      with assms c0 False obtain s where s: "commit_writes env 0 (cp_pending_writes ?c) ?s0 = Inr s"
        by (auto simp: commit_active_checkpoint_def checkpoint_of_def res_Inr_iffs Let_def)
      have active: "fr_active_checkpoint r \<noteq> None" and w: "worked ?r0 (cm_run s)"
        using c0 commit_writes_worked [OF s] by simp_all
      show thesis
      proof (cases "fb_max_tool_calls (fr_budget (cm_run s)) < fr_tool_calls (cm_run s)
          \<or> cm_unhandled_error s \<noteq> None")
        case True
        then show thesis using assms c0 False None s that(3) [OF active w]
          by (auto simp: commit_active_checkpoint_def checkpoint_of_def res_Inr_iffs Let_def
              split: if_splits)
      next
        case ok: False
        with assms c0 False None s obtain r2 r3 outs where r2:
            "commit_outputs env (cm_succeeded s) (cm_run s) = Inr r2"
            "commit_routes env (cm_succeeded s) r2 = Inr (r3, outs)"
            "finish_commit env ?c None outs
              (r3\<lparr>fr_ready_nodes := fold enqueue_unique (cm_routed_errors s) (fr_ready_nodes r3)\<rparr>)
              = (r', task)"
          by (auto simp: commit_active_checkpoint_def checkpoint_of_def res_Inr_iffs Let_def)
        have "worked r3 (r3\<lparr>fr_ready_nodes := fold enqueue_unique (cm_routed_errors s) (fr_ready_nodes r3)\<rparr>)"
          by (simp add: worked_def keeps_def counts_ok_def distinct_fold_enqueue)
        with commit_outputs_worked [OF r2(1)] commit_routes_worked [OF r2(2)]
        have "worked (cm_run s) (r3\<lparr>fr_ready_nodes :=
            fold enqueue_unique (cm_routed_errors s) (fr_ready_nodes r3)\<rparr>)"
          by (blast intro: worked_trans)
        from that(3) [OF active worked_trans [OF w this] r2(3)] show thesis .
      qed
    qed
  qed
qed

lemma commit_active_checkpoint_committed:
  assumes "commit_active_checkpoint env get_effect checkpoint_id r = Inr (r', task)"
  shows "committed r r' task"
  using assms
proof (cases rule: commit_active_checkpoint_cases)
  case cancel
  then show ?thesis using cancel_run_result [of r env] by (simp add: committed_def)
next
  case (wait c0 c i t)
  have "keeps r (r\<lparr>fr_active_checkpoint := None\<rparr>)" by (auto intro: keepsI)
  with pause_for_interrupt_result [OF wait(3)] show ?thesis
    using wait(1,2,4) by (auto simp: committed_def intro: keeps_trans)
next
  case (finish c unhandled outs r1)
  have "keeps r (r\<lparr>fr_active_checkpoint := None\<rparr>)" by (auto intro: keepsI)
  with finish_commit_result [OF finish(3)] finish(2) show ?thesis
    by (auto simp: committed_def worked_def intro: keeps_trans)
qed

lemma begin_nodes_result:
  assumes "begin_nodes env k ids r = (items, r')"
  shows "length items = length ids \<and> map sn_node_id items = ids \<and> keeps r r'
    \<and> fr_node_executions r' = fr_node_executions r \<and> fr_status r' = fr_status r
    \<and> fr_active_human_task_id r' = fr_active_human_task_id r"
  using assms
proof (induction env k ids r arbitrary: items r' rule: begin_nodes.induct)
  case (2 env k node_id rest r)
  obtain item r1 where b: "begin_node env k node_id r = (item, r1)" by fastforce
  obtain items2 r2 where bs: "begin_nodes env (k + 2) rest r1 = (items2, r2)" by fastforce
  from b have "keeps r r1" "fr_node_executions r1 = fr_node_executions r" "fr_status r1 = fr_status r"
      "fr_active_human_task_id r1 = fr_active_human_task_id r" "sn_node_id item = node_id"
    by (auto simp: begin_node_def Let_def remove_first_def intro!: keepsI)
  with 2(1) [OF b [symmetric] refl bs] 2(2) b bs show ?case
    by (auto intro: keeps_trans)
qed simp

lemma begin_superstep_result:
  assumes "begin_superstep env ids r = Inr r'"
  shows "ids \<noteq> [] \<and> keeps r r' \<and> fr_status r' = Running
    \<and> fr_node_executions r' = u32_sat_add (fr_node_executions r) (u32_try (length ids))
    \<and> u32_sat_add (fr_node_executions r) (u32_cast (length ids)) \<le> fb_max_node_executions (fr_budget r)
    \<and> fr_active_human_task_id r' = fr_active_human_task_id r
    \<and> (\<exists>c. fr_active_checkpoint r' = Some c \<and> map sn_node_id (cp_nodes c) = ids
         \<and> cp_pending_writes c = [])"
proof -
  obtain items r1 where b: "begin_nodes env 0 ids r = (items, r1)" by fastforce
  let ?r2 = "r1\<lparr>fr_node_executions := u32_sat_add (fr_node_executions r1) (u32_try (length items)),
             fr_status := Running,
             fr_started_at := (case fr_started_at r1 of Some t \<Rightarrow> Some t | None \<Rightarrow> Some (env_now env)),
             fr_active_checkpoint := Some
               \<lparr>cp_id = env_uuid env (2 * length ids),
                cp_superstep = u32_sat_add (fr_superstep r1) 1,
                cp_status = CheckpointRunning, cp_nodes = items, cp_pending_writes = [],
                cp_created_at = env_now env, cp_completed_at = None\<rparr>\<rparr>"
  from assms b have r': "ids \<noteq> []" "r' = touch env ?r2"
      "u32_sat_add (fr_node_executions r) (u32_cast (length ids)) \<le> fb_max_node_executions (fr_budget r)"
    by (auto simp: begin_superstep_def res_Inr_iffs Let_def)
  have "keeps r1 r'" unfolding r'(2) by (rule keepsI) simp_all
  with begin_nodes_result [OF b] r' show ?thesis by (auto intro: keeps_trans)
qed

lemma pause_for_approval_result:
  assumes "pause_for_approval env n r = (r', t)"
  shows "keeps r r' \<and> fr_status r' = WaitingApproval
    \<and> fr_node_executions r' = u32_sat_add (fr_node_executions r) 1
    \<and> fr_active_human_task_id r' = Some (ht_id t)
    \<and> fr_active_checkpoint r' = fr_active_checkpoint r"
  using assms
  by (auto simp: pause_for_approval_def Let_def remove_first_def intro!: keepsI)

lemma record_pending_write_result:
  assumes "record_pending_write env checkpoint_id w r = Inr (Some r')"
  shows "keeps r r' \<and> fr_node_executions r' = fr_node_executions r \<and> fr_status r' = fr_status r
    \<and> fr_active_human_task_id r' = fr_active_human_task_id r
    \<and> (\<exists>c c'. fr_active_checkpoint r = Some c \<and> cp_id c = checkpoint_id
         \<and> fr_active_checkpoint r' = Some c' \<and> cp_id c' = checkpoint_id \<and> cp_nodes c' = cp_nodes c
         \<and> cp_pending_writes c' = sort_key pw_node_id (cp_pending_writes c @ [w]))"
  using assms
  by (auto simp: record_pending_write_def checkpoint_of_def res_Inr_iffs intro!: keepsI
      split: option.splits if_splits)

lemma replace_write_result:
  assumes "replace_write env checkpoint_id w r = Inr r'"
  shows "keeps r r' \<and> fr_node_executions r' = fr_node_executions r \<and> fr_status r' = Running
    \<and> fr_active_human_task_id r' = None
    \<and> (\<exists>c c'. fr_active_checkpoint r = Some c \<and> cp_id c = checkpoint_id
         \<and> fr_active_checkpoint r' = Some c' \<and> cp_id c' = checkpoint_id \<and> cp_nodes c' = cp_nodes c)"
  using assms
  by (auto simp: replace_write_def checkpoint_of_def res_Inr_iffs intro!: keepsI
      split: option.splits if_splits)

lemma fail_run_result:
  "keeps r (fail_run env e r) \<and> fr_node_executions (fail_run env e r) = fr_node_executions r
   \<and> fr_status (fail_run env e r) = Failed
   \<and> fr_active_checkpoint (fail_run env e r) = fr_active_checkpoint r
   \<and> fr_active_human_task_id (fail_run env e r) = fr_active_human_task_id r"
  by (auto simp: fail_run_def intro!: keepsI)

section \<open>Decisions and requests from outside\<close>

lemma resolve_flow_approval_result:
  assumes "resolve_flow_approval env approved note r = Inr r'"
  shows "keeps r r' \<and> fr_node_executions r' = fr_node_executions r
    \<and> fr_active_checkpoint r' = fr_active_checkpoint r \<and> fr_active_human_task_id r' = None
    \<and> fr_status r = WaitingApproval \<and> (\<not> approved \<longrightarrow> fr_status r' = Cancelled)"
proof -
  obtain node_id n where n: "fr_status r = WaitingApproval" "fr_waiting_node_id r = Some node_id"
      "active_node_run r node_id = Some n"
    using assms by (auto simp: resolve_flow_approval_def res_Inr_iffs)
  let ?out = "approval_output (nr_input n) approved note"
  let ?r1 = "r\<lparr>fr_node_runs := update_last (is_active_node_run node_id)
                   (decide_node_run env approved note) (fr_node_runs r),
                 fr_waiting_node_id := None, fr_active_human_task_id := None\<rparr>"
  show ?thesis
  proof (cases approved)
    case True
    with assms n obtain r2 where r2:
        "route_after_node env node_id ?out
           (?r1\<lparr>fr_node_outputs := bt_insert node_id ?out (fr_node_outputs ?r1),
               fr_status := Running, fr_error := None\<rparr>) = Inr r2" "r' = touch env r2"
      by (auto simp: resolve_flow_approval_def res_Inr_iffs Let_def)
    have "keeps r (?r1\<lparr>fr_node_outputs := bt_insert node_id ?out (fr_node_outputs ?r1),
               fr_status := Running, fr_error := None\<rparr>)" by (rule keepsI) simp_all
    moreover have "keeps r2 r'" unfolding r2(2) by (rule keepsI) simp_all
    ultimately show ?thesis
      using route_after_node_routed [OF r2(1)] r2(2) n True
      by (auto simp: routed_def intro: keeps_trans)
  next
    case False
    with assms n show ?thesis
      by (auto simp: resolve_flow_approval_def res_Inr_iffs Let_def intro!: keepsI)
  qed
qed

lemma resume_command_case_Inr:
  "(case x of Inl EmptyIdempotencyKey \<Rightarrow> Inl e | Inr c \<Rightarrow> f c) = Inr y \<longleftrightarrow> (\<exists>c. x = Inr c \<and> f c = Inr y)"
  by (auto split: sum.splits resume_error.splits)

lemma prepare_flow_interrupt_resume_result:
  assumes "prepare_flow_interrupt_resume env task action response note actor key r = Inr (command, r')"
  shows "keeps r r' \<and> fr_node_executions r' = fr_node_executions r \<and> fr_status r = WaitingHuman
    \<and> fr_status r' = Resuming \<and> fr_active_human_task_id r' = None
    \<and> (\<exists>c c'. fr_active_checkpoint r = Some c \<and> fr_active_checkpoint r' = Some c'
         \<and> cp_nodes c' = cp_nodes c)"
  using assms
  by (auto simp: prepare_flow_interrupt_resume_def res_Inr_iffs resume_command_case_Inr intro!: keepsI)

lemma retry_items_result:
  assumes "retry_items env k completed items r = (items', r')"
    and "fr_node_executions r \<le> u32_max"
  shows "keeps r r' \<and> fr_status r' = fr_status r \<and> map sn_node_id items' = map sn_node_id items
    \<and> fr_active_checkpoint r' = fr_active_checkpoint r
    \<and> fr_active_human_task_id r' = fr_active_human_task_id r
    \<and> fr_node_executions r' = u32_sat_add (fr_node_executions r)
         (length (filter (\<lambda>item. sn_node_id item \<notin> set completed) items))"
  using assms
proof (induction env k completed items r arbitrary: items' r' rule: retry_items.induct)
  case (2 env k completed item items r)
  show ?case
  proof (cases "sn_node_id item \<in> set completed")
    case True
    obtain items2 r2 where rest: "retry_items env k completed items r = (items2, r2)" by fastforce
    from 2(1) [OF True rest 2(4)] 2(3) rest True show ?thesis by auto
  next
    case False
    obtain item2 r1 where one: "retry_item env k item r = (item2, r1)" by fastforce
    obtain items2 r2 where rest: "retry_items env (k + 2) completed items r1 = (items2, r2)" by fastforce
    from one have r1: "keeps r r1" "fr_status r1 = fr_status r" "sn_node_id item2 = sn_node_id item"
        "fr_active_checkpoint r1 = fr_active_checkpoint r"
        "fr_active_human_task_id r1 = fr_active_human_task_id r"
        "fr_node_executions r1 = u32_sat_add (fr_node_executions r) 1"
      by (auto simp: retry_item_def Let_def intro!: keepsI)
    from 2(2) [OF False one [symmetric] refl rest] r1(6) u32_sat_add_le [of "fr_node_executions r" 1]
    have "keeps r1 r2" "fr_status r2 = fr_status r1" "map sn_node_id items2 = map sn_node_id items"
        "fr_active_checkpoint r2 = fr_active_checkpoint r1"
        "fr_active_human_task_id r2 = fr_active_human_task_id r1"
        "fr_node_executions r2 = u32_sat_add (fr_node_executions r1)
          (length (filter (\<lambda>item. sn_node_id item \<notin> set completed) items))" by auto
    with r1 2(3) False one rest show ?thesis
      by (auto simp: u32_sat_add_def intro: keeps_trans)
  qed
qed (simp add: u32_sat_add_def)

lemma rposition_Some: "rposition p xs = Some i \<Longrightarrow> i < length xs \<and> p (xs ! i)"
  by (auto simp: rposition_def rev_nth dest!: position_Some)

lemma prepare_flow_resume_result:
  assumes "prepare_flow_resume env retry r = Inr r'" and "fr_node_executions r \<le> u32_max"
  shows "keeps r r' \<and> fr_status r' = fr_status r
    \<and> (\<forall>c'. fr_active_checkpoint r' = Some c' \<longrightarrow>
         (\<exists>c. fr_active_checkpoint r = Some c \<and> map sn_node_id (cp_nodes c') = map sn_node_id (cp_nodes c)
            \<and> u32_sat_add (fr_node_executions r) (retry_count c) \<le> fb_max_node_executions (fr_budget r)
            \<and> fr_node_executions r' = u32_sat_add (fr_node_executions r)
                (length (filter (\<lambda>item. sn_node_id item \<notin> set (completed_nodes c)) (cp_nodes c)))))
    \<and> (fr_active_checkpoint r' = None \<longrightarrow> fr_node_executions r' = fr_node_executions r)"
proof (cases "fr_active_checkpoint r")
  case (Some c)
  obtain items r1 where items: "retry_items env 0 (completed_nodes c) (cp_nodes c) r = (items, r1)"
    by fastforce
  from assms(1) Some items have r': "retry"
      "u32_sat_add (fr_node_executions r) (retry_count c) \<le> fb_max_node_executions (fr_budget r)"
      "r' = r1\<lparr>fr_active_checkpoint := Some (c\<lparr>cp_nodes := items, cp_pending_writes :=
         filter (\<lambda>w. pw_node_id w \<in> set (completed_nodes c)) (cp_pending_writes c)\<rparr>),
         fr_active_human_task_id := None\<rparr>"
    by (auto simp: prepare_flow_resume_def res_Inr_iffs Let_def)
  have "keeps r1 r'" unfolding r'(3) by (rule keepsI) simp_all
  with retry_items_result [OF items assms(2)] r' Some show ?thesis by (auto intro: keeps_trans)
next
  case None
  have "distinct (x # remove1 x xs)" if "distinct xs" for x :: string and xs using that by simp
  with assms(1) None show ?thesis
    by (auto simp: prepare_flow_resume_def res_Inr_iffs Let_def remove_first_def intro!: keepsI
        split: option.splits)
qed

end
