(* ===== verification/Flow_Driver.thy ===== *)
theory Flow_Driver
  imports Flow_Store Flow_Frame
begin

text \<open>
  The driver of a flow run (\<open>drive_flow_run\<close> and \<open>spawn_flow_run\<close> of \<open>flow_runtime.rs\<close>).

  \<open>drive_action\<close> is what one turn of the driver's loop decides from the run it has read; \<open>drive_flow_run\<close> is the
  loop over the store while no one else writes, with fuel for the number of turns; \<open>spawn_flow_run\<close> is the
  spawned task, which marks the run as failed when the loop ends with an error.  The harness functions
  stand for the agent core and return, so a turn ends; \<open>order\<close> is the order in which the nodes that run
  in parallel finish (\<open>buffer_unordered\<close>).  The interleaving with other writers is the theory \<open>Flow_System\<close>.
\<close>

section \<open>One turn\<close>

datatype driver_action =
    DriveReturn
  | DriveUpdate flow_run
  | DriveAttach flow_run human_task
  | DriveBegin flow_run
  | DriveResume checkpoint pending_write interrupt_request resume_command
  | DriveExecute checkpoint "superstep_node list" "superstep_node list"

definition waits_for_human :: "flow_run_status \<Rightarrow> bool" where
  "waits_for_human s \<longleftrightarrow> s \<in> {WaitingApproval, WaitingHuman}"

definition resumable_write ::
    "pending_write \<Rightarrow> (pending_write \<times> interrupt_request \<times> resume_command) option" where
  "resumable_write w =
     (case (pw_interrupt w, pw_resume_command w) of
        (Some i, Some command) \<Rightarrow> if validates command i then Some (w, i, command) else None
      | _ \<Rightarrow> None)"

fun split_items ::
    "flow_run \<Rightarrow> superstep_node list \<Rightarrow> flow_error + (superstep_node list \<times> superstep_node list)" where
  \<comment> \<open>the nodes that may run in parallel, and the others\<close>
  "split_items r [] = Inr ([], [])"
| "split_items r (item # items) =
     res_bind (ok_or (find_node (fr_graph r) (sn_node_id item))
         (Message ''Flow checkpoint references a missing node'')) (\<lambda>n.
     res_bind (split_items r items) (\<lambda>(parallel, serial).
       Inr (if node_is_parallel_safe n then (item # parallel, serial) else (parallel, item # serial))))"

definition pending_items :: "checkpoint \<Rightarrow> superstep_node list" where
  "pending_items c =
     filter (\<lambda>item. sn_node_id item \<notin> pw_node_id ` set (cp_pending_writes c)) (cp_nodes c)"

definition finish_idle_run :: "runtime_env \<Rightarrow> flow_run \<Rightarrow> flow_run" where
  "finish_idle_run env r =
     touch env
       (if fr_ready_nodes r = [] then
          r\<lparr>fr_status := Succeeded, fr_output := terminal_output r,
            fr_completed_at := Some (env_now env)\<rparr>
        else
          r\<lparr>fr_status := Failed,
            fr_error := Some (''Flow graph is deadlocked; waiting nodes: ''
                              @ join_str '', '' (fr_ready_nodes r)),
            fr_completed_at := Some (env_now env)\<rparr>)"

definition ready_approval :: "flow_run \<Rightarrow> string list \<Rightarrow> graph_node option" where
  "ready_approval r ready =
     find_map (\<lambda>node_id. find (\<lambda>n. gn_id n = node_id \<and> gn_kind n = ApprovalNode) (gd_nodes (fr_graph r)))
       ready"

definition drive_ready :: "runtime_env \<Rightarrow> flow_run \<Rightarrow> flow_error + driver_action" where
  \<comment> \<open>a turn without an active checkpoint\<close>
  "drive_ready env r =
     (let ready = ready_superstep_nodes env r in
        if ready = [] then Inr (DriveUpdate (finish_idle_run env r))
        else
          (case ready_approval r ready of
             Some n \<Rightarrow> (let (r', task) = pause_for_approval env n r in Inr (DriveAttach r' task))
           | None \<Rightarrow> res_bind (begin_superstep env ready r) (\<lambda>r'. Inr (DriveBegin r'))))"

definition drive_checkpoint :: "checkpoint \<Rightarrow> flow_run \<Rightarrow> flow_error + driver_action" where
  "drive_checkpoint c r =
     (if fr_status r = Resuming then
        res_bind (ok_or (find_map resumable_write (cp_pending_writes c))
            (Message ''Flow run is resuming without a matching persisted ResumeCommand''))
          (\<lambda>(w, i, command). Inr (DriveResume c w i command))
      else
        res_bind (split_items r (pending_items c))
          (\<lambda>(parallel, serial). Inr (DriveExecute c parallel serial)))"

definition drive_action :: "runtime_env \<Rightarrow> flow_run \<Rightarrow> flow_error + driver_action" where
  "drive_action env r =
     (if is_terminal (fr_status r) \<or> waits_for_human (fr_status r) then Inr DriveReturn
      else if fr_status r = CancelRequested then Inr (DriveUpdate (cancel_run env r))
      else if fr_status r = PauseRequested \<and> fr_active_checkpoint r = None then
        Inr (DriveUpdate (touch env (r\<lparr>fr_status := Paused\<rparr>)))
      else if fr_status r = Paused then Inr DriveReturn
      else
        res_bind (enforce_run_budget env r) (\<lambda>_.
          case fr_active_checkpoint r of
            Some c \<Rightarrow> drive_checkpoint c r
          | None \<Rightarrow> drive_ready env r))"

section \<open>The loop\<close>

text \<open>The result of an operation on the store, which is unchanged when the operation fails.\<close>

definition stored :: "flow_error + flow_store \<Rightarrow> 'a \<Rightarrow> flow_store \<Rightarrow> (flow_error + 'a) \<times> flow_store" where
  "stored res x st = (case res of Inl e \<Rightarrow> (Inl e, st) | Inr st' \<Rightarrow> (Inr x, st'))"

definition and_then ::
    "(flow_error + unit) \<times> flow_store \<Rightarrow> (flow_store \<Rightarrow> (flow_error + 'a) \<times> flow_store)
      \<Rightarrow> (flow_error + 'a) \<times> flow_store" where
  "and_then res f = (case res of (Inl e, st) \<Rightarrow> (Inl e, st) | (Inr _, st) \<Rightarrow> f st)"

definition write_commit ::
    "flow_run \<Rightarrow> nat \<Rightarrow> human_task option \<Rightarrow> flow_store \<Rightarrow> flow_error + flow_store" where
  "write_commit r expected task st =
     (case task of
        None \<Rightarrow> update_flow_run r expected st
      | Some t \<Rightarrow> update_flow_run_and_human_task r expected t None st)"

definition commit_checkpoint ::
    "runtime_env \<Rightarrow> (uuid \<Rightarrow> json option) \<Rightarrow> uuid \<Rightarrow> uuid \<Rightarrow> flow_store \<Rightarrow> flow_error + flow_store" where
  \<comment> \<open>\<open>commit_active_checkpoint\<close> with its access to the store\<close>
  "commit_checkpoint env get_effect run_id checkpoint_id st =
     res_bind (ok_or (get_flow_run st run_id) (Message ''Flow run disappeared before checkpoint commit''))
       (\<lambda>r. res_bind (commit_active_checkpoint env get_effect checkpoint_id r)
         (\<lambda>(r', task). write_commit r' (fr_revision r) task st))"

fun persist_all ::
    "runtime_env \<Rightarrow> uuid \<Rightarrow> uuid \<Rightarrow> pending_write list \<Rightarrow> flow_store \<Rightarrow> (flow_error + unit) \<times> flow_store"
  where
  "persist_all env run_id checkpoint_id [] st = (Inr (), st)"
| "persist_all env run_id checkpoint_id (w # ws) st =
     and_then (persist_pending_write env (\<lambda>_ s. s) run_id checkpoint_id w st)
       (persist_all env run_id checkpoint_id ws)"

definition execute_superstep ::
    "runtime_env \<Rightarrow> harness \<Rightarrow> (uuid \<Rightarrow> json option) \<Rightarrow> (pending_write list \<Rightarrow> pending_write list)
      \<Rightarrow> flow_run \<Rightarrow> checkpoint \<Rightarrow> superstep_node list \<Rightarrow> superstep_node list \<Rightarrow> flow_store
      \<Rightarrow> (flow_error + bool) \<times> flow_store" where
  "execute_superstep env harness get_effect order r c parallel serial st =
     and_then (persist_all env (fr_id r) (cp_id c)
         (order (map (execute_checkpoint_node env harness r c) parallel)
          @ map (execute_checkpoint_node env harness r c) serial) st)
       (\<lambda>st'. stored (commit_checkpoint env get_effect (fr_id r) (cp_id c) st') True st')"

definition drive_turn ::
    "runtime_env \<Rightarrow> harness \<Rightarrow> resume_harness \<Rightarrow> (uuid \<Rightarrow> json option)
      \<Rightarrow> (pending_write list \<Rightarrow> pending_write list) \<Rightarrow> uuid \<Rightarrow> flow_store
      \<Rightarrow> (flow_error + bool) \<times> flow_store" where
  \<comment> \<open>one turn on the store; the result says whether the loop goes on\<close>
  "drive_turn env harness resume get_effect order run_id st =
     (case get_flow_run st run_id of
        None \<Rightarrow> (Inl (Message (''Flow run not found: '' @ run_id)), st)
      | Some r \<Rightarrow>
          (case drive_action env r of
             Inl e \<Rightarrow> (Inl e, st)
           | Inr action \<Rightarrow>
               (case action of
                  DriveReturn \<Rightarrow> (Inr False, st)
                | DriveUpdate r' \<Rightarrow> stored (update_flow_run r' (fr_revision r) st) False st
                | DriveAttach r' task \<Rightarrow>
                    stored (update_flow_run_and_human_task r' (fr_revision r) task None st) False st
                | DriveBegin r' \<Rightarrow> stored (update_flow_run r' (fr_revision r) st) True st
                | DriveResume c w i command \<Rightarrow>
                    and_then (replace_pending_write env (\<lambda>_ s. s) run_id (cp_id c)
                        (execute_resume_checkpoint_node env resume r w i command) st)
                      (\<lambda>st'. (Inr True, st'))
                | DriveExecute c parallel serial \<Rightarrow>
                    execute_superstep env harness get_effect order r c parallel serial st)))"

fun drive_flow_run ::
    "(nat \<Rightarrow> runtime_env) \<Rightarrow> harness \<Rightarrow> resume_harness \<Rightarrow> (uuid \<Rightarrow> json option)
      \<Rightarrow> (pending_write list \<Rightarrow> pending_write list) \<Rightarrow> uuid \<Rightarrow> nat \<Rightarrow> flow_store
      \<Rightarrow> ((flow_error + unit) \<times> flow_store) option" where
  \<comment> \<open>\<open>None\<close> when the fuel is used up; \<open>envs n\<close> is the environment of the turn with \<open>n\<close> turns of fuel left\<close>
  "drive_flow_run envs harness resume get_effect order run_id 0 st = None"
| "drive_flow_run envs harness resume get_effect order run_id (Suc n) st =
     (case drive_turn (envs n) harness resume get_effect order run_id st of
        (Inl e, st') \<Rightarrow> Some (Inl e, st')
      | (Inr False, st') \<Rightarrow> Some (Inr (), st')
      | (Inr True, st') \<Rightarrow> drive_flow_run envs harness resume get_effect order run_id n st')"

definition mark_failed :: "runtime_env \<Rightarrow> uuid \<Rightarrow> flow_error \<Rightarrow> flow_store \<Rightarrow> flow_store" where
  \<comment> \<open>the error handler of the spawned task\<close>
  "mark_failed env run_id e st =
     (case get_flow_run st run_id of
        None \<Rightarrow> st
      | Some r \<Rightarrow>
          if is_terminal (fr_status r) then st
          else
            (case update_flow_run (fail_run env (flow_error_str e) r) (fr_revision r) st of
               Inr st' \<Rightarrow> st'
             | Inl _ \<Rightarrow> st))"

definition spawn_flow_run ::
    "(nat \<Rightarrow> runtime_env) \<Rightarrow> harness \<Rightarrow> resume_harness \<Rightarrow> (uuid \<Rightarrow> json option)
      \<Rightarrow> (pending_write list \<Rightarrow> pending_write list) \<Rightarrow> uuid \<Rightarrow> nat \<Rightarrow> flow_store \<Rightarrow> flow_store option" where
  "spawn_flow_run envs harness resume get_effect order run_id fuel st =
     (case drive_flow_run envs harness resume get_effect order run_id fuel st of
        None \<Rightarrow> None
      | Some (Inr _, st') \<Rightarrow> Some st'
      | Some (Inl e, st') \<Rightarrow> Some (mark_failed (envs fuel) run_id e st'))"

section \<open>Progress of the loop\<close>

definition at_rest :: "flow_run_status \<Rightarrow> bool" where
  \<comment> \<open>nothing happens until someone outside the driver acts\<close>
  "at_rest s \<longleftrightarrow> is_terminal s \<or> waits_for_human s \<or> s = Paused"

definition turns_left :: "flow_run \<Rightarrow> nat" where
  "turns_left r =
     (if at_rest (fr_status r) then 0
      else 1 + 3 * (fb_max_node_executions (fr_budget r) - fr_node_executions r)
         + (if fr_active_checkpoint r = None then 0 else if fr_status r = Resuming then 2 else 1))"

definition holds_run :: "flow_store \<Rightarrow> uuid \<Rightarrow> flow_run \<Rightarrow> bool" where
  "holds_run st i r \<longleftrightarrow> get_flow_run st i = Some r \<and> fr_id r = i"

lemmas rest_defs = at_rest_def is_terminal_def waits_for_human_def

lemma holds_run_update:
  "update_flow_run r' expected st = Inr st' \<Longrightarrow> fr_id r' = i \<Longrightarrow> holds_run st' i r'"
  by (auto simp: update_flow_run_Inr holds_run_def get_flow_run_insert)

lemma update_both_Inr:
  assumes "update_flow_run_and_human_task r' expected t expected_task st = Inr st'"
  shows "\<exists>tasks. st' = st\<lparr>st_runs := bt_insert (fr_id r') r' (st_runs st), st_tasks := tasks\<rparr>"
  using assms
  by (auto simp: update_flow_run_and_human_task_def update_flow_run_row_def res_Inr_iffs
      split: option.splits if_splits)

lemma holds_run_update_both:
  "update_flow_run_and_human_task r' expected t expected_task st = Inr st' \<Longrightarrow> fr_id r' = i \<Longrightarrow>
     holds_run st' i r'"
  by (auto dest!: update_both_Inr simp: holds_run_def get_flow_run_def map_simps)

lemma retry_write_alone:
  assumes "holds_run st i r" and "\<And>r'. change r = Inr (Some r') \<Longrightarrow> fr_id r' = i"
  shows "retry_write gone exhausted change (\<lambda>_ s. s) i (Suc n) st =
    (case change r of
       Inl e \<Rightarrow> (Inl e, st)
     | Inr None \<Rightarrow> (Inr (), st)
     | Inr (Some r') \<Rightarrow> (Inr (), st\<lparr>st_runs := bt_insert i r' (st_runs st)\<rparr>))"
proof -
  have "update_flow_run r' (fr_revision r) st = Inr (st\<lparr>st_runs := bt_insert i r' (st_runs st)\<rparr>)"
    if "change r = Inr (Some r')" for r'
    using assms that by (simp add: update_flow_run_Inr holds_run_def)
  then show ?thesis using assms(1) by (auto simp: holds_run_def split: sum.split option.split)
qed

lemma persist_pending_write_alone:
  assumes "holds_run st i r" and "fr_active_checkpoint r = Some c" and "cp_id c = cid"
  shows "\<exists>st' r' c'. persist_pending_write env (\<lambda>_ s. s) i cid w st = (Inr (), st') \<and> holds_run st' i r'
    \<and> keeps r r' \<and> fr_node_executions r' = fr_node_executions r \<and> fr_status r' = fr_status r
    \<and> fr_active_checkpoint r' = Some c' \<and> cp_id c' = cid"
proof -
  have alone: "persist_pending_write env (\<lambda>_ s. s) i cid w st =
      (case record_pending_write env cid w r of
         Inl e \<Rightarrow> (Inl e, st)
       | Inr None \<Rightarrow> (Inr (), st)
       | Inr (Some r') \<Rightarrow> (Inr (), st\<lparr>st_runs := bt_insert i r' (st_runs st)\<rparr>))"
    unfolding persist_pending_write_def write_rounds_def numeral_nat
    by (rule retry_write_alone [OF assms(1)])
       (use assms(1) record_pending_write_result in \<open>fastforce simp: holds_run_def keeps_def\<close>)
  show ?thesis
  proof (cases "record_pending_write env cid w r = Inr None")
    case True
    then show ?thesis using assms alone by auto
  next
    case False
    then obtain r' where r': "record_pending_write env cid w r = Inr (Some r')"
      using record_pending_write_recorded [OF assms(2,3) refl, of env w] by auto
    from record_pending_write_result [OF this] assms(1)
    show ?thesis by (auto simp: alone r' holds_run_def get_flow_run_insert keeps_def)
  qed
qed

lemma persist_all_alone:
  assumes "holds_run st i r" and "fr_active_checkpoint r = Some c" and "cp_id c = cid"
  shows "\<exists>st' r' c'. persist_all env i cid ws st = (Inr (), st') \<and> holds_run st' i r'
    \<and> keeps r r' \<and> fr_node_executions r' = fr_node_executions r \<and> fr_status r' = fr_status r
    \<and> fr_active_checkpoint r' = Some c' \<and> cp_id c' = cid"
  using assms
proof (induction ws arbitrary: st r c)
  case (Cons w ws)
  from persist_pending_write_alone [OF Cons.prems, of env w] obtain st1 r1 c1
    where s1: "persist_pending_write env (\<lambda>_ s. s) i cid w st = (Inr (), st1)" "holds_run st1 i r1"
      "keeps r r1" "fr_node_executions r1 = fr_node_executions r" "fr_status r1 = fr_status r"
      "fr_active_checkpoint r1 = Some c1" "cp_id c1 = cid" by blast
  from Cons.IH [OF s1(2,6,7)] s1 show ?case
    by (auto simp: and_then_def intro: keeps_trans)
qed auto

lemma commit_checkpoint_result:
  assumes "holds_run st i r" and "commit_checkpoint env get_effect i cid st = Inr st'"
  shows "\<exists>r' task. holds_run st' i r' \<and> committed r r' task"
proof -
  obtain r' task where c: "commit_active_checkpoint env get_effect cid r = Inr (r', task)"
      "write_commit r' (fr_revision r) task st = Inr st'"
    using assms by (auto simp: commit_checkpoint_def holds_run_def res_Inr_iffs)
  have "committed r r' task" by (rule commit_active_checkpoint_committed [OF c(1)])
  moreover from this have "fr_id r' = i" using assms(1) by (simp add: committed_def keeps_def holds_run_def)
  ultimately show ?thesis using c(2)
    by (auto simp: write_commit_def intro: holds_run_update holds_run_update_both split: option.splits)
qed

section \<open>What a turn does\<close>

lemma drive_action_budget:
  assumes "drive_action env r = Inr a"
    and "a \<noteq> DriveReturn" and "\<forall>r'. a \<noteq> DriveUpdate r'"
  shows "fr_node_executions r < fb_max_node_executions (fr_budget r)
    \<and> fr_status r \<in> {Queued, Running, Resuming, PauseRequested}"
  using assms
  by (cases "fr_status r")
     (auto simp: drive_action_def rest_defs enforce_run_budget_def res_Inr_iffs split: if_splits)

lemma drive_action_return: "drive_action env r = Inr DriveReturn \<Longrightarrow> at_rest (fr_status r)"
  by (auto simp: drive_action_def rest_defs drive_checkpoint_def drive_ready_def Let_def res_Inr_iffs
      split: if_splits option.splits prod.splits)

lemma drive_action_update:
  assumes "drive_action env r = Inr (DriveUpdate r')"
  shows "keeps r r' \<and> fr_node_executions r' = fr_node_executions r
    \<and> \<not> at_rest (fr_status r) \<and> fr_status r' \<in> {Cancelled, Paused, Succeeded, Failed}
    \<and> fr_active_checkpoint r' = None \<and> fr_active_human_task_id r' = fr_active_human_task_id r"
proof -
  consider "fr_status r = CancelRequested" "r' = cancel_run env r"
    | "fr_status r = PauseRequested" "fr_active_checkpoint r = None" "r' = touch env (r\<lparr>fr_status := Paused\<rparr>)"
    | "\<not> at_rest (fr_status r)" "fr_active_checkpoint r = None" "r' = finish_idle_run env r"
    using assms
    by (cases "fr_active_checkpoint r")
       (auto simp: drive_action_def rest_defs drive_checkpoint_def drive_ready_def Let_def res_Inr_iffs
         split: if_splits option.splits prod.splits)
  then show ?thesis
  proof cases
    case 1
    then show ?thesis using cancel_run_result [of r env] by (simp add: rest_defs)
  next
    case 2
    then show ?thesis by (auto simp: rest_defs intro: keepsI)
  next
    case 3
    then show ?thesis by (auto simp: finish_idle_run_def intro!: keepsI)
  qed
qed

lemma drive_action_attach:
  assumes "drive_action env r = Inr (DriveAttach r' t)"
  shows "fr_active_checkpoint r = None \<and> (\<exists>n. pause_for_approval env n r = (r', t))"
  using assms
  by (auto simp: drive_action_def drive_checkpoint_def drive_ready_def Let_def res_Inr_iffs
      split: if_splits option.splits prod.splits)

lemma drive_action_begin:
  assumes "drive_action env r = Inr (DriveBegin r')"
  shows "fr_active_checkpoint r = None \<and> begin_superstep env (ready_superstep_nodes env r) r = Inr r'"
  using assms
  by (auto simp: drive_action_def drive_checkpoint_def drive_ready_def Let_def res_Inr_iffs
      split: if_splits option.splits prod.splits)

lemma drive_action_resume:
  assumes "drive_action env r = Inr (DriveResume c w i command)"
  shows "fr_active_checkpoint r = Some c \<and> fr_status r = Resuming \<and> w \<in> set (cp_pending_writes c)
    \<and> pw_interrupt w = Some i \<and> pw_resume_command w = Some command \<and> validates command i"
proof -
  have c: "fr_active_checkpoint r = Some c" "fr_status r = Resuming"
      "find_map resumable_write (cp_pending_writes c) = Some (w, i, command)"
    using assms
    by (auto simp: drive_action_def drive_checkpoint_def drive_ready_def Let_def res_Inr_iffs
        split: if_splits option.splits prod.splits)
  from find_map_Some [OF c(3)] c(1,2) show ?thesis
    by (auto simp: resumable_write_def split: option.splits if_splits)
qed

lemma drive_action_execute:
  assumes "drive_action env r = Inr (DriveExecute c parallel serial)"
  shows "fr_active_checkpoint r = Some c \<and> fr_status r \<in> {Queued, Running, PauseRequested}
    \<and> split_items r (pending_items c) = Inr (parallel, serial)"
  using assms drive_action_budget [OF assms]
  by (auto simp: drive_action_def drive_checkpoint_def drive_ready_def Let_def res_Inr_iffs
      split: if_splits option.splits prod.splits)

lemma replace_pending_write_alone:
  assumes "holds_run st i r"
  shows "replace_pending_write env (\<lambda>_ s. s) i cid w st =
      (case replace_write env cid w r of
         Inl e \<Rightarrow> (Inl e, st)
       | Inr r' \<Rightarrow> (Inr (), st\<lparr>st_runs := bt_insert i r' (st_runs st)\<rparr>))"
proof -
  have "replace_pending_write env (\<lambda>_ s. s) i cid w st =
      (case res_bind (replace_write env cid w r) (\<lambda>r'. Inr (Some r')) of
         Inl e \<Rightarrow> (Inl e, st)
       | Inr None \<Rightarrow> (Inr (), st)
       | Inr (Some r') \<Rightarrow> (Inr (), st\<lparr>st_runs := bt_insert i r' (st_runs st)\<rparr>))"
    unfolding replace_pending_write_def write_rounds_def numeral_nat
    by (rule retry_write_alone [OF assms])
       (use assms replace_write_result in \<open>fastforce simp: res_Inr_iffs holds_run_def keeps_def\<close>)
  then show ?thesis by (cases "replace_write env cid w r") auto
qed

definition turn_ok :: "flow_run \<Rightarrow> uuid \<Rightarrow> (flow_error + bool) \<times> flow_store \<Rightarrow> bool" where
  \<comment> \<open>a turn keeps the run in the store, and progresses, comes to rest or fails\<close>
  "turn_ok r i res \<longleftrightarrow>
     (\<exists>r'. holds_run (snd res) i r' \<and> fr_budget r' = fr_budget r \<and> fr_graph r' = fr_graph r
        \<and> (case fst res of
             Inl e \<Rightarrow> True
           | Inr True \<Rightarrow> turns_left r' < turns_left r
           | Inr False \<Rightarrow> at_rest (fr_status r')))"

lemma turn_ok_cong:
  assumes "turns_left r = turns_left r'" "fr_budget r = fr_budget r'" "fr_graph r = fr_graph r'"
  shows "turn_ok r i res = turn_ok r' i res"
  unfolding turn_ok_def assms ..

lemma turn_ok_stored:
  assumes "holds_run st i r"
    and "\<And>st'. res = Inr st' \<Longrightarrow> \<exists>r'. holds_run st' i r' \<and> keeps r r'
       \<and> (if b then turns_left r' < turns_left r else at_rest (fr_status r'))"
  shows "turn_ok r i (stored res b st)"
  using assms by (cases res; cases b) (fastforce simp: turn_ok_def stored_def keeps_def)+

lemma turn_ok_update:
  assumes "holds_run st i r" and "keeps r r'"
    and "if b then turns_left r' < turns_left r else at_rest (fr_status r')"
  shows "turn_ok r i (stored (update_flow_run r' expected st) b st)"
    and "turn_ok r i (stored (update_flow_run_and_human_task r' expected t None st) b st)"
  using assms
  by (auto simp: holds_run_def [of st] keeps_def intro!: turn_ok_stored [OF assms(1)]
      intro: assms(2) dest: holds_run_update holds_run_update_both)

lemma committed_progress:
  assumes "committed r r' task" and "fr_active_checkpoint r \<noteq> None"
    and "fr_status r \<in> {Queued, Running, PauseRequested}"
  shows "turns_left r' < turns_left r"
proof -
  have "\<not> at_rest (fr_status r)" "fr_status r \<noteq> Resuming" using assms(3) by (auto simp: rest_defs)
  then have left: "turns_left r = 2 + 3 * (fb_max_node_executions (fr_budget r) - fr_node_executions r)"
    using assms(2) by (simp add: turns_left_def)
  have "fr_budget r' = fr_budget r" "fr_node_executions r' = fr_node_executions r"
    using assms(1) by (simp_all add: committed_def keeps_def)
  moreover have "fr_active_checkpoint r' = None \<or> at_rest (fr_status r')"
    using assms(1) by (auto simp: committed_def rest_defs)
  ultimately show ?thesis using left by (auto simp: turns_left_def)
qed

lemma begin_progress:
  assumes "begin_superstep env ids r = Inr r'" and "fr_active_checkpoint r = None"
    and "fr_node_executions r < fb_max_node_executions (fr_budget r)"
    and "fb_max_node_executions (fr_budget r) \<le> u32_max" and "\<not> at_rest (fr_status r)"
  shows "turns_left r' < turns_left r"
proof -
  note b = begin_superstep_result [OF assms(1)]
  then have "1 \<le> u32_try (length ids)" by (cases ids) (auto simp: u32_try_def u32_max_def)
  then have "fr_node_executions r < fr_node_executions r'"
    using b assms(3,4) by (simp add: u32_sat_add_def)
  then have "3 * (fb_max_node_executions (fr_budget r) - fr_node_executions r') + 3
      \<le> 3 * (fb_max_node_executions (fr_budget r) - fr_node_executions r)"
    using assms(3) by simp
  then show ?thesis using b assms(2,5) by (auto simp: turns_left_def rest_defs keeps_def)
qed

lemma execute_superstep_ok:
  assumes "holds_run st i r" and "fr_active_checkpoint r = Some c"
    and "fr_status r \<in> {Queued, Running, PauseRequested}"
  shows "turn_ok r i (execute_superstep env harness get_effect order r c parallel serial st)"
proof -
  have i: "fr_id r = i" using assms(1) by (simp add: holds_run_def)
  let ?ws = "order (map (execute_checkpoint_node env harness r c) parallel)
          @ map (execute_checkpoint_node env harness r c) serial"
  from persist_all_alone [OF assms(1,2) refl, of env ?ws] obtain st1 r1 c1
    where p: "persist_all env i (cp_id c) ?ws st = (Inr (), st1)" "holds_run st1 i r1"
      "keeps r r1" "fr_node_executions r1 = fr_node_executions r" "fr_status r1 = fr_status r"
      "fr_active_checkpoint r1 = Some c1" by blast
  have left: "turns_left r1 = turns_left r"
    using p assms(2) by (simp add: turns_left_def keeps_def)
  have "turn_ok r1 i (stored (commit_checkpoint env get_effect i (cp_id c) st1) True st1)"
  proof (rule turn_ok_stored [OF p(2)])
    fix st'
    assume "commit_checkpoint env get_effect i (cp_id c) st1 = Inr st'"
    from commit_checkpoint_result [OF p(2) this]
    show "\<exists>r'. holds_run st' i r' \<and> keeps r1 r'
        \<and> (if True then turns_left r' < turns_left r1 else at_rest (fr_status r'))"
      using committed_progress [of r1] p(5,6) assms(3) by (auto simp: committed_def)
  qed
  then have "turn_ok r i (stored (commit_checkpoint env get_effect i (cp_id c) st1) True st1)"
    using p(3) left by (simp add: keeps_def turn_ok_cong [of r1 r])
  then show ?thesis by (simp add: execute_superstep_def i p(1) and_then_def)
qed

lemma drive_turn_ok:
  assumes "holds_run st i r" and "fb_max_node_executions (fr_budget r) \<le> u32_max"
  shows "turn_ok r i (drive_turn env harness resume get_effect order i st)"
proof (cases "drive_action env r")
  case (Inl e)
  with assms show ?thesis by (auto simp: drive_turn_def turn_ok_def holds_run_def)
next
  case (Inr action)
  have turn: "drive_turn env harness resume get_effect order i st =
      (case action of
         DriveReturn \<Rightarrow> (Inr False, st)
       | DriveUpdate r' \<Rightarrow> stored (update_flow_run r' (fr_revision r) st) False st
       | DriveAttach r' task \<Rightarrow>
           stored (update_flow_run_and_human_task r' (fr_revision r) task None st) False st
       | DriveBegin r' \<Rightarrow> stored (update_flow_run r' (fr_revision r) st) True st
       | DriveResume c w intr command \<Rightarrow>
           and_then (replace_pending_write env (\<lambda>_ s. s) i (cp_id c)
               (execute_resume_checkpoint_node env resume r w intr command) st) (\<lambda>st'. (Inr True, st'))
       | DriveExecute c parallel serial \<Rightarrow>
           execute_superstep env harness get_effect order r c parallel serial st)"
    using assms(1) Inr by (simp add: drive_turn_def holds_run_def)
  have i: "fr_id r = i" using assms(1) by (simp add: holds_run_def)
  show ?thesis
  proof (cases action)
    case DriveReturn
    with drive_action_return [of env r] Inr assms(1) turn show ?thesis by (auto simp: turn_ok_def)
  next
    case (DriveUpdate r')
    with drive_action_update [of env r r'] Inr turn show ?thesis
      by (auto simp: rest_defs intro!: turn_ok_update(1) [OF assms(1)])
  next
    case (DriveAttach r' task)
    then obtain n where "pause_for_approval env n r = (r', task)"
      using Inr drive_action_attach by blast
    from pause_for_approval_result [OF this] DriveAttach turn show ?thesis
      by (auto simp: rest_defs intro!: turn_ok_update(2) [OF assms(1)])
  next
    case (DriveBegin r')
    then have b: "fr_active_checkpoint r = None"
        "begin_superstep env (ready_superstep_nodes env r) r = Inr r'"
        "fr_node_executions r < fb_max_node_executions (fr_budget r)" "\<not> at_rest (fr_status r)"
      using Inr drive_action_begin [of env r r'] drive_action_budget [OF Inr]
      by (auto simp: rest_defs)
    from begin_progress [OF b(2,1,3) assms(2) b(4)] begin_superstep_result [OF b(2)] DriveBegin turn
    show ?thesis
      by (auto intro!: turn_ok_update(1) [OF assms(1)])
  next
    case (DriveResume c w intr command)
    then have c: "fr_active_checkpoint r = Some c" "fr_status r = Resuming"
      using Inr drive_action_resume by blast+
    let ?w = "execute_resume_checkpoint_node env resume r w intr command"
    show ?thesis
    proof (cases "replace_write env (cp_id c) ?w r")
      case (Inl e)
      then show ?thesis using DriveResume turn assms(1)
        by (auto simp: replace_pending_write_alone [OF assms(1)] and_then_def turn_ok_def)
    next
      case (Inr r')
      note res = replace_write_result [OF Inr]
      have "turns_left r' < turns_left r" using res c by (auto simp: turns_left_def rest_defs keeps_def)
      moreover have "holds_run (st\<lparr>st_runs := bt_insert i r' (st_runs st)\<rparr>) i r'"
        using res i by (simp add: holds_run_def get_flow_run_insert keeps_def)
      moreover have "fr_budget r' = fr_budget r" "fr_graph r' = fr_graph r"
        using res by (simp_all add: keeps_def)
      ultimately show ?thesis using DriveResume turn Inr
        by (auto simp: replace_pending_write_alone [OF assms(1)] and_then_def turn_ok_def)
    qed
  next
    case (DriveExecute c parallel serial)
    with drive_action_execute [of env r c parallel serial] Inr turn execute_superstep_ok [OF assms(1)]
    show ?thesis by auto
  qed
qed

lemma drive_flow_run_returns:
  assumes "holds_run st i r" and "fb_max_node_executions (fr_budget r) \<le> u32_max"
    and "turns_left r < fuel"
  shows "\<exists>res st' r'. drive_flow_run envs harness resume get_effect order i fuel st = Some (res, st')
    \<and> holds_run st' i r' \<and> fr_budget r' = fr_budget r \<and> fr_graph r' = fr_graph r
    \<and> (res = Inr () \<longrightarrow> at_rest (fr_status r'))"
  using assms
proof (induction fuel arbitrary: st r)
  case (Suc n)
  obtain res st1 where t: "drive_turn (envs n) harness resume get_effect order i st = (res, st1)"
    by fastforce
  from drive_turn_ok [OF Suc.prems(1,2), of "envs n" harness resume get_effect order] t
  obtain r1 where r1: "holds_run st1 i r1" "fr_budget r1 = fr_budget r" "fr_graph r1 = fr_graph r"
      "case res of Inl e \<Rightarrow> True | Inr True \<Rightarrow> turns_left r1 < turns_left r | Inr False \<Rightarrow> at_rest (fr_status r1)"
    by (auto simp: turn_ok_def)
  show ?case
  proof (cases "res = Inr True")
    case True
    with r1 Suc.prems(3) have "turns_left r1 < n" by simp
    from Suc.IH [OF r1(1) _ this] Suc.prems(2) r1(2,3) True t show ?thesis by simp
  next
    case False
    with r1 t show ?thesis by (cases res) auto
  qed
qed simp

lemma mark_failed_terminal:
  assumes "holds_run st i r"
  shows "\<exists>r'. holds_run (mark_failed env i e st) i r' \<and> is_terminal (fr_status r')
    \<and> fr_budget r' = fr_budget r \<and> fr_graph r' = fr_graph r"
proof (cases "is_terminal (fr_status r)")
  case True
  with assms show ?thesis by (auto simp: mark_failed_def holds_run_def)
next
  case False
  have "update_flow_run (fail_run env (flow_error_str e) r) (fr_revision r) st
      = Inr (st\<lparr>st_runs := bt_insert i (fail_run env (flow_error_str e) r) (st_runs st)\<rparr>)"
    using assms fail_run_result [of r env "flow_error_str e"]
    by (simp add: update_flow_run_Inr holds_run_def keeps_def)
  with False assms fail_run_result [of r env "flow_error_str e"] show ?thesis
    by (simp add: mark_failed_def holds_run_def get_flow_run_insert keeps_def is_terminal_def)
qed

section \<open>Properties\<close>

text \<open>
  C3: A driven run comes to rest.  While no one else writes to the run, and the harness answers every call,
  the driver ends after at most three turns for every node execution the budget allows and four more;
  the stored run is then terminal, paused or waiting for a human, under the same graph and budget.
\<close>
theorem driven_run_comes_to_rest:
  assumes "get_flow_run st run_id = Some r" and "fr_id r = run_id"
    and "fb_max_node_executions (fr_budget r) \<le> u32_max"
    and "3 * fb_max_node_executions (fr_budget r) + 4 \<le> fuel"
  shows "\<exists>st' r'. spawn_flow_run envs harness resume get_effect order run_id fuel st = Some st'
    \<and> get_flow_run st' run_id = Some r' \<and> at_rest (fr_status r')
    \<and> fr_budget r' = fr_budget r \<and> fr_graph r' = fr_graph r"
proof -
  have h: "holds_run st run_id r" using assms by (simp add: holds_run_def)
  have "3 * (fb_max_node_executions (fr_budget r) - fr_node_executions r)
      \<le> 3 * fb_max_node_executions (fr_budget r)" by simp
  then have "turns_left r < fuel" using assms(4) by (auto simp: turns_left_def)
  from drive_flow_run_returns [OF h assms(3) this, of envs harness resume get_effect order]
  obtain res st1 r1 where d:
      "drive_flow_run envs harness resume get_effect order run_id fuel st = Some (res, st1)"
      "holds_run st1 run_id r1" "fr_budget r1 = fr_budget r" "fr_graph r1 = fr_graph r"
      "res = Inr () \<longrightarrow> at_rest (fr_status r1)" by blast
  show ?thesis
  proof (cases res)
    case (Inl e)
    with d mark_failed_terminal [OF d(2), of "envs fuel" e] show ?thesis
      by (auto simp: spawn_flow_run_def holds_run_def at_rest_def)
  next
    case (Inr u)
    with d show ?thesis by (auto simp: spawn_flow_run_def holds_run_def)
  qed
qed

lemma driven_run_comes_to_rest_witness:
  "\<exists>st' r'. spawn_flow_run (\<lambda>_. example_env) (\<lambda>_ _ _. Inl ''no agent'') (\<lambda>_ _ _ _ _. Inl ''no agent'')
      (\<lambda>_. None) rev (fr_id example_run) 304 \<lparr>st_runs = [(fr_id example_run, example_run)], st_tasks = []\<rparr>
      = Some st'
    \<and> get_flow_run st' (fr_id example_run) = Some r' \<and> at_rest (fr_status r')
    \<and> fr_budget r' = fr_budget example_run \<and> fr_graph r' = fr_graph example_run"
  by (rule driven_run_comes_to_rest)
     (simp_all add: get_flow_run_def flow_budget_default_def u32_max_def)

end
