(* ===== verification/Flow_System.thy ===== *)
theory Flow_System
  imports Flow_Driver
begin

text \<open>
  A flow run with everyone who writes to it: its driver, operators and agents that pause, resume, cancel
  and settle tasks, and the recovery when the server starts again.  The step relation has one rule for
  each accepted write; by the revision check of the store an accepted write was computed from the run
  it replaces, and a refused write of the driver ends it with an error.

  The driver is at the head of its loop, executing the nodes of a checkpoint, or continuing an agent.
  The agent core is an arbitrary harness in every step.  There is one driver at a time: a resumption that
  is accepted while the previous driver has not yet returned is outside the model.
\<close>

section \<open>The step relation\<close>

datatype driver =
    AtLoop
  | Executing uuid
  | Continuing uuid pending_write interrupt_request resume_command

record flow_system =
  sy_run :: flow_run
  sy_driver :: "driver option"

definition spawned :: "flow_run \<Rightarrow> driver option" where
  "spawned r = (if is_terminal (fr_status r) then None else Some AtLoop)"

inductive flow_step :: "flow_system \<Rightarrow> flow_system \<Rightarrow> bool" where
  turn_update:
    "sy_driver s = Some AtLoop \<Longrightarrow> drive_action env (sy_run s) = Inr (DriveUpdate r') \<Longrightarrow>
     flow_step s \<lparr>sy_run = r', sy_driver = None\<rparr>"
| turn_attach:
    "sy_driver s = Some AtLoop \<Longrightarrow> drive_action env (sy_run s) = Inr (DriveAttach r' task) \<Longrightarrow>
     flow_step s \<lparr>sy_run = r', sy_driver = None\<rparr>"
| turn_begin:
    "sy_driver s = Some AtLoop \<Longrightarrow> drive_action env (sy_run s) = Inr (DriveBegin r') \<Longrightarrow>
     flow_step s \<lparr>sy_run = r', sy_driver = Some AtLoop\<rparr>"
| turn_execute:
    "sy_driver s = Some AtLoop \<Longrightarrow> drive_action env (sy_run s) = Inr (DriveExecute c parallel serial) \<Longrightarrow>
     flow_step s \<lparr>sy_run = sy_run s, sy_driver = Some (Executing (cp_id c))\<rparr>"
| turn_resume:
    "sy_driver s = Some AtLoop \<Longrightarrow> drive_action env (sy_run s) = Inr (DriveResume c w i command) \<Longrightarrow>
     flow_step s \<lparr>sy_run = sy_run s, sy_driver = Some (Continuing (cp_id c) w i command)\<rparr>"
| node_result:
    "sy_driver s = Some (Executing cid) \<Longrightarrow> fr_active_checkpoint (sy_run s) = Some c \<Longrightarrow>
     item \<in> set (cp_nodes c) \<Longrightarrow>
     record_pending_write env cid (execute_checkpoint_node env harness (sy_run s) c item) (sy_run s)
       = Inr (Some r') \<Longrightarrow>
     flow_step s \<lparr>sy_run = r', sy_driver = Some (Executing cid)\<rparr>"
| commit:
    "sy_driver s = Some (Executing cid) \<Longrightarrow>
     commit_active_checkpoint env get_effect cid (sy_run s) = Inr (r', task) \<Longrightarrow>
     flow_step s \<lparr>sy_run = r', sy_driver = Some AtLoop\<rparr>"
| continuation_result:
    "sy_driver s = Some (Continuing cid w i command) \<Longrightarrow>
     replace_write env cid (execute_resume_checkpoint_node env resume (sy_run s) w i command) (sy_run s)
       = Inr r' \<Longrightarrow>
     flow_step s \<lparr>sy_run = r', sy_driver = Some AtLoop\<rparr>"
| driver_error:
    \<comment> \<open>an error of the loop; a driver that finds the run at rest returns without one\<close>
    "sy_driver s \<noteq> None \<Longrightarrow> \<not> at_rest (fr_status (sy_run s)) \<Longrightarrow>
     flow_step s \<lparr>sy_run = fail_run env message (sy_run s), sy_driver = None\<rparr>"
| driver_ends:
    "flow_step s \<lparr>sy_run = sy_run s, sy_driver = None\<rparr>"
| pause:
    "pause_flow_run env (sy_run s) = Inr r' \<or> tool_pause env (sy_run s) = Inr r' \<Longrightarrow>
     flow_step s \<lparr>sy_run = r', sy_driver = sy_driver s\<rparr>"
| cancel:
    "cancel_flow_run env pending (sy_run s) = Inr (r', task)
       \<or> tool_cancel env pending (sy_run s) = Inr (r', task) \<Longrightarrow>
     flow_step s \<lparr>sy_run = r', sy_driver = sy_driver s\<rparr>"
| resume:
    "sy_driver s = None \<Longrightarrow>
     resume_flow_run env retry approved note pending (sy_run s) = Inr (r', task) \<Longrightarrow>
     flow_step s \<lparr>sy_run = r', sy_driver = spawned r'\<rparr>"
| resume_by_tool:
    "sy_driver s = None \<Longrightarrow> tool_resume env retry pending (sy_run s) = Inr r' \<Longrightarrow>
     flow_step s \<lparr>sy_run = r', sy_driver = spawned r'\<rparr>"
| settle:
    "sy_driver s = None \<Longrightarrow> resolve_human_task env q key task (sy_run s) = Inr (r', task') \<Longrightarrow>
     flow_step s \<lparr>sy_run = r', sy_driver = spawned r'\<rparr>"
| restart:
    "recover_run env (sy_run s) = (r', task) \<Longrightarrow> flow_step s \<lparr>sy_run = r', sy_driver = None\<rparr>"

inductive_cases flow_stepE: "flow_step s s'"

section \<open>The budget of a run\<close>

definition budget_ok :: "flow_run \<Rightarrow> bool" where
  \<comment> \<open>the counters are within the budget, and the sizes fit the 32-bit counters\<close>
  "budget_ok r \<longleftrightarrow>
     fr_node_executions r \<le> fb_max_node_executions (fr_budget r) \<and> counts_ok r
     \<and> fb_max_node_executions (fr_budget r) \<le> u32_max
     \<and> length (gd_nodes (fr_graph r)) \<le> u32_max \<and> distinct (fr_ready_nodes r)
     \<and> (\<forall>c. fr_active_checkpoint r = Some c \<longrightarrow> length (cp_nodes c) \<le> length (gd_nodes (fr_graph r)))"

lemma budget_ok_keeps:
  assumes "budget_ok r" and "keeps r r'"
    and "fr_node_executions r' \<le> fb_max_node_executions (fr_budget r)"
    and "\<And>c'. fr_active_checkpoint r' = Some c' \<Longrightarrow>
      \<exists>c. fr_active_checkpoint r = Some c \<and> length (cp_nodes c') = length (cp_nodes c)"
  shows "budget_ok r'"
proof -
  have "length (cp_nodes c') \<le> length (gd_nodes (fr_graph r))" if "fr_active_checkpoint r' = Some c'" for c'
    using assms(1) assms(4) [OF that] by (auto simp: budget_ok_def)
  then show ?thesis using assms(1-3) by (simp add: budget_ok_def keeps_def)
qed

lemma budget_ok_same:
  assumes "budget_ok r" and "keeps r r'" and "fr_node_executions r' = fr_node_executions r"
    and "fr_active_checkpoint r' = fr_active_checkpoint r \<or> fr_active_checkpoint r' = None"
  shows "budget_ok r'"
  using assms by (auto simp: budget_ok_def keeps_def)

lemma ready_superstep_nodes_length:
  assumes "distinct (fr_ready_nodes r)"
  shows "length (ready_superstep_nodes env r) \<le> length (gd_nodes (fr_graph r))"
proof -
  let ?ready = "ready_superstep_nodes env r"
  have "set ?ready \<subseteq> gn_id ` set (gd_nodes (fr_graph r))"
    by (auto simp: ready_superstep_nodes_def Let_def find_node_def split: option.splits
        dest!: find_Some_in)
  moreover have "distinct ?ready" using assms by (simp add: ready_superstep_nodes_def Let_def)
  ultimately have "length ?ready \<le> card (gn_id ` set (gd_nodes (fr_graph r)))"
    by (metis List.finite_set card_mono distinct_card finite_imageI)
  also have "\<dots> \<le> length (gd_nodes (fr_graph r))"
    by (meson List.finite_set card_image_le card_length le_trans)
  finally show ?thesis .
qed

lemma budget_ok_begin:
  assumes "budget_ok r" and "begin_superstep env (ready_superstep_nodes env r) r = Inr r'"
  shows "budget_ok r'"
proof -
  let ?ready = "ready_superstep_nodes env r"
  have len: "length ?ready \<le> length (gd_nodes (fr_graph r))" "length (gd_nodes (fr_graph r)) \<le> u32_max"
    using ready_superstep_nodes_length assms(1) by (auto simp: budget_ok_def)
  note b = begin_superstep_result [OF assms(2)]
  then obtain c where c: "fr_active_checkpoint r' = Some c" "map sn_node_id (cp_nodes c) = ?ready" by blast
  have "length (cp_nodes c) = length ?ready" using arg_cong [OF c(2), of length] by simp
  then show ?thesis using b c len assms(1)
    by (auto simp: budget_ok_def keeps_def u32_cast_id u32_try_def)
qed

lemma budget_ok_approval:
  assumes "budget_ok r" and "pause_for_approval env n r = (r', t)"
    and "fr_node_executions r < fb_max_node_executions (fr_budget r)"
  shows "budget_ok r'"
  using pause_for_approval_result [OF assms(2)] assms(1,3)
  by (auto simp: budget_ok_def keeps_def u32_sat_add_def)

lemma budget_ok_resume:
  assumes "budget_ok r" and "prepare_flow_resume env retry r = Inr r'"
  shows "budget_ok r'"
proof (rule budget_ok_keeps [OF assms(1)])
  have "fr_node_executions r \<le> u32_max" using assms(1) by (simp add: budget_ok_def)
  note res = prepare_flow_resume_result [OF assms(2) this]
  show "keeps r r'" using res by simp
  show "fr_node_executions r' \<le> fb_max_node_executions (fr_budget r)"
  proof (cases "fr_active_checkpoint r'")
    case None
    then show ?thesis using res assms(1) by (simp add: budget_ok_def)
  next
    case (Some c')
    with res obtain c where c: "fr_active_checkpoint r = Some c"
        "u32_sat_add (fr_node_executions r) (retry_count c) \<le> fb_max_node_executions (fr_budget r)"
        "fr_node_executions r' = u32_sat_add (fr_node_executions r)
           (length (filter (\<lambda>item. sn_node_id item \<notin> set (completed_nodes c)) (cp_nodes c)))"
      by blast
    have "length (filter (\<lambda>item. sn_node_id item \<notin> set (completed_nodes c)) (cp_nodes c)) \<le> u32_max"
      using assms(1) c(1) by (auto simp: budget_ok_def intro: le_trans [OF length_filter_le])
    then show ?thesis using c by (simp add: retry_count_def u32_cast_id)
  qed
  fix c'
  assume "fr_active_checkpoint r' = Some c'"
  with res show "\<exists>c. fr_active_checkpoint r = Some c \<and> length (cp_nodes c') = length (cp_nodes c)"
    by (metis length_map)
qed

text \<open>The requests from outside.\<close>

lemma pause_result:
  assumes "pause_flow_run env r = Inr r' \<or> tool_pause env r = Inr r'"
  shows "keeps r r' \<and> fr_node_executions r' = fr_node_executions r
    \<and> fr_active_checkpoint r' = fr_active_checkpoint r
    \<and> fr_active_human_task_id r' = fr_active_human_task_id r
    \<and> fr_status r \<in> {Queued, Running, Resuming} \<and> fr_status r' = PauseRequested"
  using assms by (auto simp: pause_flow_run_def tool_pause_def res_Inr_iffs intro!: keepsI)

lemma cancel_result:
  assumes "cancel_flow_run env pending r = Inr (r', task) \<or> tool_cancel env pending r = Inr (r', task)"
  shows "keeps r r' \<and> fr_node_executions r' = fr_node_executions r
    \<and> fr_active_checkpoint r' = fr_active_checkpoint r \<and> fr_active_human_task_id r' = None
    \<and> \<not> is_terminal (fr_status r) \<and> fr_status r' \<in> {Cancelled, CancelRequested}
    \<and> (fr_status r' = Cancelled \<longrightarrow> at_rest (fr_status r))"
  using assms
  by (auto simp: cancel_flow_run_def tool_cancel_def request_cancel_def res_Inr_iffs rest_defs
      intro!: keepsI split: if_splits)

lemma resolve_pending_Inr:
  "(case pending of None \<Rightarrow> Inr (x, None)
     | Some task \<Rightarrow> (case res task of Inl _ \<Rightarrow> Inl e | Inr task' \<Rightarrow> Inr (x, Some task'))) = Inr (y, t)
   \<Longrightarrow> x = y"
  by (auto split: option.splits sum.splits)

lemma resume_cases:
  assumes "resume_flow_run env retry approved note pending r = Inr (r', task)"
  shows "(\<exists>r1. fr_status r = Paused \<and> prepare_flow_resume env retry r = Inr r1
        \<and> r' = touch env (r1\<lparr>fr_status := Running, fr_error := None\<rparr>))
    \<or> (\<exists>decision. resolve_flow_approval env decision note r = Inr r')"
  using assms
  by (auto simp: resume_flow_run_def res_Inr_iffs dest!: resolve_pending_Inr
      split: flow_run_status.splits)

lemma tool_resume_cases:
  assumes "tool_resume env retry pending r = Inr r'"
  shows "\<exists>r1. fr_status r = Paused \<and> prepare_flow_resume env retry r = Inr r1
        \<and> r' = touch env (r1\<lparr>fr_status := Running, fr_error := None\<rparr>)"
  using assms by (auto simp: tool_resume_def res_Inr_iffs split: flow_run_status.splits)

lemma end_run_result:
  "keeps r (end_run env status error r) \<and> fr_node_executions (end_run env status error r) = fr_node_executions r
   \<and> fr_active_checkpoint (end_run env status error r) = fr_active_checkpoint r"
  by (auto simp: end_run_def intro!: keepsI)

lemma recovery_retry_cases:
  assumes "recovery_retry env r = Inr r'"
  shows "\<exists>r1. (r1 = r \<or> prepare_flow_resume env True r = Inr r1) \<and> keeps r1 r'
    \<and> fr_node_executions r' = fr_node_executions r1 \<and> fr_active_checkpoint r' = fr_active_checkpoint r1"
  using assms
  by (auto simp: recovery_retry_def res_Inr_iffs intro!: keepsI split: if_splits)

lemma recover_run_result:
  assumes "recover_run env r = (r', task)"
  shows "keeps r r' \<and> fr_node_executions r' = fr_node_executions r
    \<and> fr_active_checkpoint r' = fr_active_checkpoint r
    \<and> (is_terminal (fr_status r) \<longrightarrow> r' = r)"
proof -
  have mark: "keeps r (mark_interrupted env r)"
      "fr_node_executions (mark_interrupted env r) = fr_node_executions r"
      "fr_active_checkpoint (mark_interrupted env r) = fr_active_checkpoint r"
      "is_terminal (fr_status r) \<Longrightarrow> mark_interrupted env r = r"
    by (auto simp: mark_interrupted_def is_terminal_def intro: keepsI)
  have recovery: "keeps x x'" "fr_node_executions x' = fr_node_executions x"
      "fr_active_checkpoint x' = fr_active_checkpoint x" "is_terminal (fr_status x) \<longrightarrow> x' = x \<and> t = None"
    if "attach_recovery_task env x = (x', t)" for x x' t
    using that
    by (auto simp: attach_recovery_task_def Let_def is_terminal_def intro!: keepsI
        split: if_splits option.splits)
  have approval: "keeps x x'" "fr_node_executions x' = fr_node_executions x"
      "fr_active_checkpoint x' = fr_active_checkpoint x" "is_terminal (fr_status x) \<longrightarrow> x' = x"
    if "attach_approval_task env x = (x', t)" for x x' t
    using that
    by (auto simp: attach_approval_task_def Let_def is_terminal_def intro!: keepsI
        split: if_splits option.splits)
  obtain x t where x: "attach_recovery_task env (mark_interrupted env r) = (x, t)" by fastforce
  show ?thesis
  proof (cases t)
    case None
    with assms x have "attach_approval_task env x = (r', task)" by (simp add: recover_run_def)
    from approval [OF this] recovery [OF x] mark show ?thesis by (auto intro: keeps_trans)
  next
    case (Some t')
    with assms x have "r' = x" by (simp add: recover_run_def)
    with recovery [OF x] mark Some show ?thesis by (auto intro: keeps_trans)
  qed
qed

lemma budget_ok_paused_resume:
  assumes "budget_ok r" and "prepare_flow_resume env retry r = Inr r1"
    and "keeps r1 r'" and "fr_node_executions r' = fr_node_executions r1"
    and "fr_active_checkpoint r' = fr_active_checkpoint r1"
  shows "budget_ok r'"
  using budget_ok_same [OF budget_ok_resume [OF assms(1,2)]] assms(3-5) by blast

lemma settle_run_cases:
  assumes "settle_run env q key task r = Inr (command, r')"
  shows "(\<exists>approved note. resolve_flow_approval env approved note r = Inr r')
    \<or> (\<exists>command' action response note actor.
         prepare_flow_interrupt_resume env task action response note actor key r = Inr (command', r'))
    \<or> (\<exists>status error reviewed. r' = end_run env status error (r\<lparr>fr_output_reviewed := reviewed\<rparr>)
         \<and> is_terminal status)
    \<or> recovery_retry env r = Inr r'"
proof -
  have same: "r\<lparr>fr_output_reviewed := fr_output_reviewed r\<rparr> = r" by simp
  have ended: "\<exists>status' error' reviewed. end_run env status error r
      = end_run env status' error' (r\<lparr>fr_output_reviewed := reviewed\<rparr>) \<and> is_terminal status'"
    if "is_terminal status" for status error
    using that same by metis
  have roc: "(\<exists>command' action response note actor.
         prepare_flow_interrupt_resume env task action response note actor key r = Inr (command', r'))
    \<or> (\<exists>status error reviewed. r' = end_run env status error (r\<lparr>fr_output_reviewed := reviewed\<rparr>)
         \<and> is_terminal status)"
    if "resume_or_cancel env message q key task r = Inr (command, r')" for message
    using that ended [of Cancelled] by (fastforce simp: resume_or_cancel_def res_Inr_iffs is_terminal_def
        split: if_splits)
  show ?thesis
    using assms roc ended [of Cancelled]
    by (auto simp: settle_run_def Let_def res_Inr_iffs is_terminal_def
        split: human_task_type.splits if_splits)
qed

lemma budget_ok_settle:
  assumes "budget_ok r" and "settle_run env q key task r = Inr (command, r')"
  shows "budget_ok r'"
  using settle_run_cases [OF assms(2)]
proof (elim disjE exE conjE)
  fix approved nt
  assume "resolve_flow_approval env approved nt r = Inr r'"
  from resolve_flow_approval_result [OF this] show ?thesis by (auto intro: budget_ok_same [OF assms(1)])
next
  fix command' action response nt actor
  assume "prepare_flow_interrupt_resume env task action response nt actor key r = Inr (command', r')"
  from prepare_flow_interrupt_resume_result [OF this] assms(1) show ?thesis
    by (auto simp: budget_ok_def keeps_def)
next
  fix status error reviewed
  assume "r' = end_run env status error (r\<lparr>fr_output_reviewed := reviewed\<rparr>)"
  then show ?thesis using assms(1) by (simp add: end_run_def budget_ok_def counts_ok_def)
next
  assume "recovery_retry env r = Inr r'"
  from recovery_retry_cases [OF this]
  obtain r1 where r1: "r1 = r \<or> prepare_flow_resume env True r = Inr r1" "keeps r1 r'"
      "fr_node_executions r' = fr_node_executions r1" "fr_active_checkpoint r' = fr_active_checkpoint r1"
    by (elim exE conjE) (rule that)
  then have "budget_ok r1" using assms(1) budget_ok_resume by auto
  from budget_ok_same [OF this r1(2,3)] r1(4) show ?thesis by simp
qed

lemma keeps_touch_status:
  "keeps r r1 \<Longrightarrow> keeps r (touch env (r1\<lparr>fr_status := status, fr_error := error\<rparr>))"
  by (auto simp: keeps_def counts_ok_def)

lemma resolve_human_task_settles:
  assumes "resolve_human_task env q key task r = Inr (r', task')"
  shows "fr_active_human_task_id r = Some (ht_id task)
    \<and> (\<exists>command. settle_run env q key task r = Inr (command, r'))"
proof -
  obtain command r1 where r1: "settle_run env q key task r = Inr (command, r1)"
      "(case resolve_with_command env (rq_action q) (rq_note q) ''local_operator''
          (Some (case command of Some i \<Rightarrow> i | None \<Rightarrow> env_uuid_v5 env (ht_id task) key))
          (Some key) (rq_response q) task of
         Inl _ \<Rightarrow> Inl (Message ''action is not allowed for this Human task'')
       | Inr task' \<Rightarrow> Inr (r1, task')) = Inr (r', task')"
      "fr_active_human_task_id r = Some (ht_id task)"
    using assms by (auto simp: resolve_human_task_def res_bind_Inr_iff res_ensure_Inr_iff)
  from r1(2) have "r1 = r'" by (auto split: sum.splits)
  with r1 show ?thesis by blast
qed

lemma settle_run_keeps:
  assumes "settle_run env q key task r = Inr (command, r')" and "fr_node_executions r \<le> u32_max"
  shows "keeps r r'"
  using settle_run_cases [OF assms(1)]
proof (elim disjE exE conjE)
  fix status error reviewed
  assume "r' = end_run env status error (r\<lparr>fr_output_reviewed := reviewed\<rparr>)"
  then show ?thesis by (simp add: end_run_def keeps_def counts_ok_def)
next
  assume "recovery_retry env r = Inr r'"
  from recovery_retry_cases [OF this]
  obtain r1 where r1: "r1 = r \<or> prepare_flow_resume env True r = Inr r1" "keeps r1 r'"
    by (elim exE conjE) (rule that)
  then have "keeps r r1" using prepare_flow_resume_result [OF _ assms(2)] by auto
  then show ?thesis using r1(2) by (rule keeps_trans)
qed (auto dest: resolve_flow_approval_result prepare_flow_interrupt_resume_result)

lemma flow_step_budget:
  assumes "flow_step s s'" and "budget_ok (sy_run s)"
  shows "keeps (sy_run s) (sy_run s') \<and> budget_ok (sy_run s')"
proof -
  let ?r = "sy_run s" and ?r' = "sy_run s'"
  have small: "fr_node_executions ?r \<le> u32_max" using assms(2) by (simp add: budget_ok_def)
  note same = budget_ok_same [OF assms(2)]
  from assms(1) show ?thesis
  proof cases
    case (turn_update env r')
    with drive_action_update [OF turn_update(3)] same [of r'] show ?thesis by auto
  next
    case (turn_attach env r' task)
    with drive_action_attach [OF turn_attach(3)] drive_action_budget [OF turn_attach(3)] show ?thesis
      using pause_for_approval_result budget_ok_approval [OF assms(2)] by auto
  next
    case (turn_begin env r')
    with drive_action_begin [OF turn_begin(3)] begin_superstep_result budget_ok_begin [OF assms(2)]
    show ?thesis by auto
  next
    case (node_result cid c item env harness r')
    then obtain c' c'' where "keeps ?r r'" "fr_node_executions r' = fr_node_executions ?r"
        "fr_active_checkpoint ?r = Some c'" "fr_active_checkpoint r' = Some c''" "cp_nodes c'' = cp_nodes c'"
      using record_pending_write_result by blast
    with node_result assms(2) show ?thesis by (auto simp: budget_ok_def keeps_def)
  next
    case (commit cid env get_effect r' task)
    from commit_active_checkpoint_committed [OF commit(3)]
    have "keeps ?r r'" "fr_node_executions r' = fr_node_executions ?r"
        "\<forall>c'. fr_active_checkpoint r' = Some c' \<longrightarrow>
           (\<exists>c. fr_active_checkpoint ?r = Some c \<and> cp_nodes c' = cp_nodes c)"
      by (auto simp: committed_def)
    moreover from this assms(2) have "budget_ok r'" by (auto simp: budget_ok_def keeps_def)
    ultimately show ?thesis using commit by simp
  next
    case (continuation_result cid w i command env resume r')
    then obtain c' c'' where "keeps ?r r'" "fr_node_executions r' = fr_node_executions ?r"
        "fr_active_checkpoint ?r = Some c'" "fr_active_checkpoint r' = Some c''" "cp_nodes c'' = cp_nodes c'"
      using replace_write_result by blast
    with continuation_result assms(2) show ?thesis by (auto simp: budget_ok_def keeps_def)
  next
    case (driver_error env message)
    with fail_run_result same show ?thesis by simp
  next
    case (pause env r')
    with pause_result [OF pause(2)] same [of r'] show ?thesis by auto
  next
    case (cancel env pending r' task)
    with cancel_result [OF cancel(2)] same [of r'] show ?thesis by auto
  next
    case (resume env retry approved nt pending r' task)
    from resume_cases [OF resume(3)] show ?thesis
    proof (elim disjE exE conjE)
      fix r1
      assume r1: "prepare_flow_resume env retry ?r = Inr r1"
        "r' = touch env (r1\<lparr>fr_status := Running, fr_error := None\<rparr>)"
      with prepare_flow_resume_result [OF r1(1) small] budget_ok_paused_resume [OF assms(2) r1(1), of r']
      show ?thesis using resume(1) by (auto intro: keeps_touch_status keepsI)
    next
      fix decision
      assume "resolve_flow_approval env decision nt ?r = Inr r'"
      from resolve_flow_approval_result [OF this] same [of r'] show ?thesis using resume(1) by auto
    qed
  next
    case (resume_by_tool env retry pending r')
    from tool_resume_cases [OF resume_by_tool(3)] obtain r1 where
        r1: "prepare_flow_resume env retry ?r = Inr r1"
        "r' = touch env (r1\<lparr>fr_status := Running, fr_error := None\<rparr>)" by blast
    with prepare_flow_resume_result [OF r1(1) small] budget_ok_paused_resume [OF assms(2) r1(1), of r']
    show ?thesis using resume_by_tool(1) by (auto intro: keeps_touch_status keepsI)
  next
    case (settle env q key task r' task')
    then obtain command where "settle_run env q key task ?r = Inr (command, r')"
      using resolve_human_task_settles by blast
    with budget_ok_settle [OF assms(2) this] settle_run_keeps [OF this small] settle(1)
    show ?thesis by simp
  next
    case (restart env r' task)
    with recover_run_result [OF restart(2)] same [of r'] show ?thesis by auto
  qed (use assms in simp_all)
qed

section \<open>Runs that stay as they are\<close>

definition busy_ok :: "flow_system \<Rightarrow> bool" where
  \<comment> \<open>a driver works on a run only while the run is not at rest\<close>
  "busy_ok s \<longleftrightarrow> sy_driver s \<in> {None, Some AtLoop} \<or> \<not> at_rest (fr_status (sy_run s))"

lemma flow_step_busy:
  assumes "flow_step s s'" and "busy_ok s"
  shows "busy_ok s'"
  using assms(1)
proof cases
  case (turn_execute env c parallel serial)
  with drive_action_execute [OF turn_execute(3)] show ?thesis by (auto simp: busy_ok_def rest_defs)
next
  case (turn_resume env c w i command)
  with drive_action_resume [OF turn_resume(3)] show ?thesis by (auto simp: busy_ok_def rest_defs)
next
  case (node_result cid c item env harness r')
  with record_pending_write_result [OF node_result(5)] assms(2) show ?thesis by (simp add: busy_ok_def)
next
  case (pause env r')
  with pause_result [OF pause(2)] show ?thesis by (simp add: busy_ok_def rest_defs)
next
  case (cancel env pending r' task)
  with cancel_result [OF cancel(2)] assms(2) show ?thesis
    by (auto simp: busy_ok_def rest_defs)
qed (auto simp: busy_ok_def spawned_def)

lemma flow_steps_busy: "flow_step\<^sup>*\<^sup>* s s' \<Longrightarrow> busy_ok s \<Longrightarrow> busy_ok s'"
  by (induction rule: rtranclp_induct) (auto intro: flow_step_busy)

lemma settle_active: "resolve_human_task env q key task r = Inr res \<Longrightarrow> fr_active_human_task_id r \<noteq> None"
  using resolve_human_task_settles by (cases res) fastforce

lemma resume_waiting:
  "resume_flow_run env retry approved nt pending r = Inr (r', task) \<Longrightarrow>
     fr_status r \<in> {Paused, WaitingApproval}"
  by (auto dest!: resume_cases resolve_flow_approval_result)

lemma flow_step_terminal:
  assumes "flow_step s s'" and "busy_ok s" and "is_terminal (fr_status (sy_run s))"
    and "fr_active_human_task_id (sy_run s) = None"
  shows "sy_run s' = sy_run s"
proof -
  have rest: "at_rest (fr_status (sy_run s))" and idle: "sy_driver s \<in> {None, Some AtLoop}"
    using assms(2,3) by (auto simp: busy_ok_def at_rest_def)
  from assms(3) have return: "drive_action env (sy_run s) = Inr DriveReturn" for env
    by (simp add: drive_action_def)
  from assms(1) show ?thesis
  proof cases
    case (pause env r')
    with pause_result [OF pause(2)] assms(3) show ?thesis by (auto simp: is_terminal_def)
  next
    case (cancel env pending r' task)
    with cancel_result [OF cancel(2)] assms(3) show ?thesis by simp
  next
    case (resume env retry approved nt pending r' task)
    with resume_waiting [OF resume(3)] assms(3) show ?thesis by (auto simp: is_terminal_def)
  next
    case (resume_by_tool env retry pending r')
    with tool_resume_cases [OF resume_by_tool(3)] assms(3) show ?thesis by (auto simp: is_terminal_def)
  next
    case (settle env q key task r' task')
    with settle_active [OF settle(3)] assms(4) show ?thesis by simp
  next
    case (restart env r' task)
    with recover_run_result [OF restart(2)] assms(3) show ?thesis by simp
  qed (use rest idle return in auto)
qed

definition orphaned :: "flow_system \<Rightarrow> bool" where
  \<comment> \<open>a requested cancellation without a driver that could carry it out\<close>
  "orphaned s \<longleftrightarrow>
     fr_status (sy_run s) = CancelRequested \<and> sy_driver s = None
     \<and> fr_active_human_task_id (sy_run s) = None"

lemma recover_cancel_requested:
  "fr_status r = CancelRequested \<Longrightarrow> recover_run env r = (r, None)"
  by (simp add: recover_run_def mark_interrupted_def attach_recovery_task_def attach_approval_task_def)

lemma flow_step_orphaned:
  assumes "flow_step s s'" and "orphaned s"
  shows "orphaned s'"
proof -
  have st: "fr_status (sy_run s) = CancelRequested" "sy_driver s = None"
      "fr_active_human_task_id (sy_run s) = None"
    using assms(2) by (auto simp: orphaned_def)
  from assms(1) show ?thesis
  proof cases
    case (pause env r')
    with pause_result [OF pause(2)] st show ?thesis by simp
  next
    case (cancel env pending r' task)
    with cancel_result [OF cancel(2)] st show ?thesis by (auto simp: orphaned_def rest_defs)
  next
    case (resume env retry approved nt pending r' task)
    with resume_waiting [OF resume(3)] st show ?thesis by simp
  next
    case (resume_by_tool env retry pending r')
    with tool_resume_cases [OF resume_by_tool(3)] st show ?thesis by auto
  next
    case (settle env q key task r' task')
    with settle_active [OF settle(3)] st show ?thesis by simp
  next
    case (restart env r' task)
    with recover_cancel_requested [OF st(1), of env] st show ?thesis by (simp add: orphaned_def)
  qed (use st in \<open>auto simp: orphaned_def\<close>)
qed

section \<open>Properties\<close>

lemma initial_ready_distinct:
  "distinct (map gn_id (gd_nodes g)) \<Longrightarrow> distinct (initial_ready_nodes decode g trigger)"
  by (simp add: initial_ready_nodes_def Let_def distinct_map_filter)

lemma new_run_budget_ok:
  assumes "new_from_revision env thread_id revision v trigger = Inr r"
    and "fb_max_node_executions (fr_budget r) \<le> u32_max"
    and "length (gd_nodes (fr_graph r)) \<le> u32_max"
    and "distinct (map gn_id (gd_nodes (fr_graph r)))"
  shows "budget_ok r"
  using assms initial_ready_distinct
  by (auto simp: new_from_revision_def Let_def res_Inr_iffs budget_ok_def counts_ok_def)

lemma flow_steps_budget:
  assumes "flow_step\<^sup>*\<^sup>* s s'" and "budget_ok (sy_run s)"
  shows "keeps (sy_run s) (sy_run s') \<and> budget_ok (sy_run s')"
  using assms(1)
proof (induction rule: rtranclp_induct)
  case base
  then show ?case using assms(2) by simp
next
  case (step y z)
  then show ?case using flow_step_budget [of y z] by (auto intro: keeps_trans)
qed

text \<open>
  C2: A run never exceeds its budget.  Whatever its driver, the operators, the agents and restarts of the
  server do, in any order, a run that starts from a revision (with a graph whose nodes have different
  names and whose size fits a 32-bit counter) has at most as many node executions as its budget allows,
  and no edge of it has been followed as a loop more often than the budget allows; its graph and its
  budget stay what they were.
\<close>
theorem run_stays_within_budget:
  assumes "new_from_revision env thread_id revision v trigger = Inr r"
    and "fb_max_node_executions (fr_budget r) \<le> u32_max"
    and "length (gd_nodes (fr_graph r)) \<le> u32_max"
    and "distinct (map gn_id (gd_nodes (fr_graph r)))"
    and "flow_step\<^sup>*\<^sup>* \<lparr>sy_run = r, sy_driver = Some AtLoop\<rparr> s"
  shows "fr_node_executions (sy_run s) \<le> fb_max_node_executions (fr_budget r)
    \<and> (\<forall>edge count. bt_get (fr_loop_counts (sy_run s)) edge = Some count \<longrightarrow>
         count \<le> fb_max_loop_iterations (fr_budget r))
    \<and> fr_graph (sy_run s) = fr_graph r \<and> fr_budget (sy_run s) = fr_budget r"
  using flow_steps_budget [OF assms(5)] new_run_budget_ok [OF assms(1-4)]
  by (auto simp: budget_ok_def keeps_def counts_ok_def)

lemma example_run_new:
  "new_from_revision example_env ''th'' example_revision JNull ManualTrigger = Inr example_run"
  by (simp add: example_run_def new_from_revision_def example_revision_def res_ensure_def
      enterprise_schema_version_def Let_def)

lemma run_stays_within_budget_witness:
  "\<exists>s. flow_step\<^sup>*\<^sup>* \<lparr>sy_run = example_run, sy_driver = Some AtLoop\<rparr> s
     \<and> fr_status (sy_run s) = PauseRequested
     \<and> fr_node_executions (sy_run s) \<le> fb_max_node_executions (fr_budget example_run)"
proof -
  let ?r = "touch example_env (example_run\<lparr>fr_status := PauseRequested\<rparr>)"
  let ?s = "\<lparr>sy_run = ?r, sy_driver = Some AtLoop\<rparr>"
  have "pause_flow_run example_env example_run = Inr ?r" by (simp add: pause_flow_run_def res_ensure_def)
  then have steps: "flow_step\<^sup>*\<^sup>* \<lparr>sy_run = example_run, sy_driver = Some AtLoop\<rparr> ?s"
    using flow_step.pause [of example_env "\<lparr>sy_run = example_run, sy_driver = Some AtLoop\<rparr>" ?r] by simp
  have "fr_node_executions (sy_run ?s) \<le> fb_max_node_executions (fr_budget example_run)"
    using run_stays_within_budget [OF example_run_new _ _ _ steps]
    by (simp add: flow_budget_default_def u32_max_def example_graph_def example_node_def)
  with steps show ?thesis by (intro exI [of _ ?s]) simp
qed

text \<open>
  C5: A terminal run is final.  From the start of a run on, once it has succeeded, failed or been cancelled
  and no human task is attached to it, nothing that happens later changes it.
\<close>
theorem terminal_run_is_final:
  assumes "flow_step\<^sup>*\<^sup>* \<lparr>sy_run = r, sy_driver = Some AtLoop\<rparr> s"
    and "is_terminal (fr_status (sy_run s))" and "fr_active_human_task_id (sy_run s) = None"
    and "flow_step\<^sup>*\<^sup>* s s'"
  shows "sy_run s' = sy_run s"
proof -
  have busy: "busy_ok s" using flow_steps_busy [OF assms(1)] by (simp add: busy_ok_def)
  from assms(4) have "sy_run s' = sy_run s \<and> busy_ok s'"
  proof (induction rule: rtranclp_induct)
    case (step y z)
    then show ?case using flow_step_terminal [of y z] flow_step_busy [of y z] assms(2,3) by simp
  qed (use busy in simp)
  then show ?thesis by simp
qed

lemma terminal_run_is_final_witness:
  "\<exists>s. flow_step\<^sup>*\<^sup>* \<lparr>sy_run = example_run, sy_driver = Some AtLoop\<rparr> s
     \<and> fr_status (sy_run s) = Failed \<and> (\<forall>s'. flow_step\<^sup>*\<^sup>* s s' \<longrightarrow> sy_run s' = sy_run s)"
proof -
  let ?start = "\<lparr>sy_run = example_run, sy_driver = Some AtLoop\<rparr>"
  let ?s = "\<lparr>sy_run = fail_run example_env ''down'' example_run, sy_driver = None\<rparr>"
  have step: "flow_step\<^sup>*\<^sup>* ?start ?s"
    using flow_step.driver_error [of ?start example_env "''down''"] by (simp add: rest_defs)
  have failed: "fr_status (sy_run ?s) = Failed" "fr_active_human_task_id (sy_run ?s) = None"
    using fail_run_result [of example_run example_env "''down''"] by simp_all
  have "sy_run s' = sy_run ?s" if "flow_step\<^sup>*\<^sup>* ?s s'" for s'
    using terminal_run_is_final [OF step _ failed(2) that] failed(1) by (simp add: is_terminal_def)
  then show ?thesis using step failed by blast
qed

text \<open>
  A run waiting for a human cannot be cancelled by an agent.  The cancellation by the flow tool of a run
  that waits for a human task is only requested, although no driver runs that would carry it out; the run
  stays in that state whatever the operators, the agents and restarts of the server do.
\<close>
theorem cancellation_by_tool_never_ends:
  assumes "fr_status r = WaitingHuman" and "tool_cancel env pending r = Inr (r', task)"
    and "flow_step\<^sup>*\<^sup>* \<lparr>sy_run = r', sy_driver = None\<rparr> s"
  shows "fr_status (sy_run s) = CancelRequested \<and> sy_driver s = None"
proof -
  have "r' = request_cancel env {Paused, WaitingApproval} r"
    using assms(2) by (auto simp: tool_cancel_def res_Inr_iffs)
  then have "orphaned \<lparr>sy_run = r', sy_driver = None\<rparr>"
    using assms(1) by (simp add: orphaned_def request_cancel_def)
  with assms(3) have "orphaned s"
    by (induction rule: rtranclp_induct) (auto intro: flow_step_orphaned)
  then show ?thesis by (simp add: orphaned_def)
qed

lemma cancellation_by_tool_never_ends_witness:
  "\<exists>r'. tool_cancel example_env None (example_run\<lparr>fr_status := WaitingHuman\<rparr>) = Inr (r', None)
     \<and> (\<forall>s. flow_step\<^sup>*\<^sup>* \<lparr>sy_run = r', sy_driver = None\<rparr> s \<longrightarrow> fr_status (sy_run s) = CancelRequested)"
proof -
  let ?r = "example_run\<lparr>fr_status := WaitingHuman\<rparr>"
  let ?r' = "request_cancel example_env {Paused, WaitingApproval} ?r"
  have c: "tool_cancel example_env None ?r = Inr (?r', None)"
    by (simp add: tool_cancel_def cancel_pending_task_def res_ensure_def is_terminal_def)
  have "fr_status (sy_run s) = CancelRequested"
    if "flow_step\<^sup>*\<^sup>* \<lparr>sy_run = ?r', sy_driver = None\<rparr> s" for s
    using cancellation_by_tool_never_ends [OF _ c that] by simp
  with c show ?thesis by blast
qed

end
