(* ===== verification/Flow_Outcomes.thy ===== *)
theory Flow_Outcomes
  imports Flow_Driver "HOL-Library.Multiset"
begin

text \<open>
  Properties of single steps of the flow runtime: how the order in which the nodes of a superstep finish
  shows in the checkpoint, when a run may end without its output being reviewed, and where a status that
  was set for a reason is overwritten.
\<close>

section \<open>The order of node results\<close>

lemma sort_key_cong:
  assumes "mset xs = mset ys" and "distinct (map f xs)"
  shows "sort_key f xs = sort_key f ys"
  by (rule sort_key_inj_key_eq) (use assms in \<open>auto simp: distinct_map\<close>)

lemma sort_key_again:
  assumes "distinct (map f (xs @ ys))"
  shows "sort_key f (sort_key f xs @ ys) = sort_key f (xs @ ys)"
proof (rule sort_key_cong)
  have "mset (map f (sort_key f xs @ ys)) = mset (map f (xs @ ys))" by simp
  then show "distinct (map f (sort_key f xs @ ys))" using assms mset_eq_imp_distinct_iff by blast
qed simp

definition with_writes :: "flow_run \<Rightarrow> checkpoint \<Rightarrow> pending_write list \<Rightarrow> flow_run" where
  "with_writes r c ws = r\<lparr>fr_active_checkpoint := Some (c\<lparr>cp_pending_writes := ws\<rparr>)\<rparr>"

lemma touch_with_writes: "with_writes (touch env r) c ws = touch env (with_writes r c ws)"
  by (simp add: with_writes_def touch_def)

lemma record_fresh_write:
  assumes "fr_active_checkpoint r = Some c" and "cp_id c = cid"
    and "\<forall>x \<in> set (cp_pending_writes c). pw_node_id x \<noteq> pw_node_id w"
  shows "record_pending_write env cid w r
    = Inr (Some (touch env (with_writes r c (sort_key pw_node_id (cp_pending_writes c @ [w])))))"
  using assms by (auto simp: record_pending_write_def checkpoint_of_def with_writes_def list_ex_iff)

lemma persist_fresh_write:
  assumes "holds_run st i r" and "fr_active_checkpoint r = Some c" and "cp_id c = cid"
    and "\<forall>x \<in> set (cp_pending_writes c). pw_node_id x \<noteq> pw_node_id w"
  shows "\<exists>st'. persist_pending_write env (\<lambda>_ s. s) i cid w st = (Inr (), st')
    \<and> holds_run st' i (touch env (with_writes r c (sort_key pw_node_id (cp_pending_writes c @ [w]))))"
proof -
  let ?r = "touch env (with_writes r c (sort_key pw_node_id (cp_pending_writes c @ [w])))"
  have i: "fr_id ?r = i" using assms(1) by (simp add: with_writes_def holds_run_def)
  have "persist_pending_write env (\<lambda>_ s. s) i cid w st
      = (Inr (), st\<lparr>st_runs := bt_insert i ?r (st_runs st)\<rparr>)"
    unfolding persist_pending_write_def write_rounds_def numeral_nat
    by (subst retry_write_alone [OF assms(1)]) (use i in \<open>auto simp: record_fresh_write [OF assms(2-4)]\<close>)
  then show ?thesis using i by (auto simp: holds_run_def get_flow_run_insert)
qed

lemma persist_all_writes:
  assumes "holds_run st i r" and "fr_active_checkpoint r = Some c" and "cp_id c = cid"
    and "distinct (map pw_node_id (cp_pending_writes c @ ws))" and "ws \<noteq> []"
  shows "\<exists>st'. persist_all env i cid ws st = (Inr (), st')
    \<and> holds_run st' i ((touch env ^^ length ws)
        (with_writes r c (sort_key pw_node_id (cp_pending_writes c @ ws))))"
  using assms
proof (induction ws arbitrary: st r c)
  case (Cons w ws)
  let ?c = "c\<lparr>cp_pending_writes := sort_key pw_node_id (cp_pending_writes c @ [w])\<rparr>"
  let ?r = "touch env (with_writes r c (sort_key pw_node_id (cp_pending_writes c @ [w])))"
  have "pw_node_id w \<notin> pw_node_id ` set (cp_pending_writes c)" using Cons.prems(4) by simp
  then have "\<forall>x \<in> set (cp_pending_writes c). pw_node_id x \<noteq> pw_node_id w" by (metis imageI)
  from persist_fresh_write [OF Cons.prems(1-3) this, of env]
  obtain st1 where st1: "persist_pending_write env (\<lambda>_ s. s) i cid w st = (Inr (), st1)"
      "holds_run st1 i ?r" by blast
  show ?case
  proof (cases "ws = []")
    case True
    with st1 show ?thesis by (simp add: and_then_def)
  next
    case False
    have c: "fr_active_checkpoint ?r = Some ?c" "cp_id ?c = cid"
      using Cons.prems(3) by (simp_all add: with_writes_def)
    have "mset (map pw_node_id (cp_pending_writes ?c @ ws))
        = mset (map pw_node_id (cp_pending_writes c @ w # ws))" by simp
    then have d: "distinct (map pw_node_id (cp_pending_writes ?c @ ws))"
      using Cons.prems(4) mset_eq_imp_distinct_iff by blast
    have again: "sort_key pw_node_id (cp_pending_writes ?c @ ws)
        = sort_key pw_node_id (cp_pending_writes c @ w # ws)"
      using sort_key_again [of pw_node_id "cp_pending_writes c @ [w]" ws] Cons.prems(4) by simp
    have "with_writes ?r ?c xs = touch env (with_writes r c xs)" for xs
      by (simp add: touch_with_writes) (simp add: with_writes_def)
    with Cons.IH [OF st1(2) c d False] again st1(1) show ?thesis
      by (simp add: and_then_def funpow_swap1)
  qed
qed simp

text \<open>
  The order in which parallel nodes finish does not matter.  Recording the results of different nodes that
  the checkpoint does not hold yet succeeds in every order, and the run that is stored afterwards is the
  same: the results are kept sorted by node.
\<close>
theorem completion_order_is_irrelevant:
  assumes "get_flow_run st run_id = Some r" and "fr_id r = run_id"
    and "fr_active_checkpoint r = Some c" and "cp_id c = cid"
    and "distinct (map pw_node_id (cp_pending_writes c @ ws))" and "mset ws' = mset ws"
  shows "fst (persist_all env run_id cid ws st) = Inr () \<and> fst (persist_all env run_id cid ws' st) = Inr ()
    \<and> get_flow_run (snd (persist_all env run_id cid ws' st)) run_id
      = get_flow_run (snd (persist_all env run_id cid ws st)) run_id"
proof (cases "ws = []")
  case True
  with assms(6) show ?thesis by simp
next
  case False
  with assms(6) have "ws' \<noteq> []" by auto
  have h: "holds_run st run_id r" using assms(1,2) by (simp add: holds_run_def)
  have m: "mset (cp_pending_writes c @ ws) = mset (cp_pending_writes c @ ws')" using assms(6) by simp
  then have "mset (map pw_node_id (cp_pending_writes c @ ws))
      = mset (map pw_node_id (cp_pending_writes c @ ws'))" by (simp add: assms(6))
  then have d: "distinct (map pw_node_id (cp_pending_writes c @ ws'))"
    using assms(5) mset_eq_imp_distinct_iff by blast
  have "length ws' = length ws" using assms(6) by (metis size_mset)
  with sort_key_cong [OF m assms(5)]
    persist_all_writes [OF h assms(3,4,5) False, of env]
    persist_all_writes [OF h assms(3,4) d \<open>ws' \<noteq> []\<close>, of env]
  show ?thesis by (auto simp: holds_run_def)
qed

definition example_writes :: "pending_write list" where
  "example_writes = [example_write, example_write\<lparr>pw_node_id := ''b'', pw_node_run_id := ''r2''\<rparr>]"

lemma completion_order_is_irrelevant_witness:
  "get_flow_run (snd (persist_all example_env ''x'' ''c'' (rev example_writes)
      \<lparr>st_runs = [(''x'', example_run\<lparr>fr_id := ''x'', fr_active_checkpoint := Some example_checkpoint\<rparr>)],
       st_tasks = []\<rparr>)) ''x''
   = get_flow_run (snd (persist_all example_env ''x'' ''c'' example_writes
      \<lparr>st_runs = [(''x'', example_run\<lparr>fr_id := ''x'', fr_active_checkpoint := Some example_checkpoint\<rparr>)],
       st_tasks = []\<rparr>)) ''x''"
  by (rule completion_order_is_irrelevant
        [of _ "''x''" "example_run\<lparr>fr_id := ''x'', fr_active_checkpoint := Some example_checkpoint\<rparr>"
          example_checkpoint "''c''", THEN conjunct2, THEN conjunct2])
     (simp_all add: get_flow_run_def example_checkpoint_def example_writes_def example_write_def)

section \<open>Statuses after a step\<close>

lemma finish_commit_status:
  assumes "finish_commit env c unhandled outs r = (r', task)"
  shows "(fr_status r' = Paused \<longrightarrow> fr_status r = PauseRequested)
    \<and> (fr_status r' = Succeeded \<longrightarrow> outs \<noteq> [] \<and> (fr_output_review_required r \<longrightarrow> fr_output_reviewed r))"
  using assms
  by (auto simp: finish_commit_def Let_def split: option.splits list.splits if_splits)

text \<open>
  A commit never lets an output pass unreviewed.  If the outputs of a run have to be reviewed and have not
  been, committing a checkpoint does not end the run with success.
\<close>
theorem commit_waits_for_review:
  assumes "commit_active_checkpoint env get_effect checkpoint_id r = Inr (r', task)"
    and "fr_output_review_required r" and "\<not> fr_output_reviewed r"
  shows "fr_status r' \<noteq> Succeeded"
  using assms(1)
proof (cases rule: commit_active_checkpoint_cases)
  case cancel
  then show ?thesis using cancel_run_result [of r env] by simp
next
  case (wait c0 c i t)
  then show ?thesis using pause_for_interrupt_result [OF wait(3)] by simp
next
  case (finish c unhandled outs r1)
  then show ?thesis using finish_commit_status [OF finish(3)] assms(2,3) by (auto simp: worked_def)
qed

definition example_output_run :: flow_run where
  \<comment> \<open>one output node has returned; its result has to be reviewed\<close>
  "example_output_run =
     example_run\<lparr>fr_status := Running, fr_output_review_required := True,
       fr_graph := \<lparr>gd_schema_version = 1, gd_entry_node_id = ''a'',
         gd_nodes = [example_node ''a'' OutputNode JNull], gd_edges = []\<rparr>,
       fr_node_runs := [fresh_node_run example_env ''r'' ''a'' 1 NodeRunning JNull []],
       fr_active_checkpoint := Some (example_checkpoint\<lparr>cp_pending_writes :=
         [example_write\<lparr>pw_error := None, pw_result := Some
            \<lparr>er_output = JBool True, er_tool_calls = 0, er_transcript = []\<rparr>\<rparr>]\<rparr>)\<rparr>"

lemma commit_waits_for_review_witness:
  "\<exists>r' task. commit_active_checkpoint example_env (\<lambda>_. None) ''c'' example_output_run = Inr (r', task)
     \<and> fr_status r' \<noteq> Succeeded"
proof -
  have parse: "parse_state_writes d JNull = Inr []" for d by (simp add: parse_state_writes_def json_get_def)
  have "is_ok (commit_active_checkpoint example_env (\<lambda>_. None) ''c'' example_output_run)"
    by (simp add: commit_active_checkpoint_def checkpoint_of_def example_output_run_def
        example_checkpoint_def example_write_def res_ensure_def Let_def commit_write_def find_node_def
        example_node_def ok_or_def fresh_node_run_def is_ok_def parse flow_budget_default_def
        u32_sat_add_def example_run_def new_from_revision_def example_revision_def
        enterprise_schema_version_def)
  then obtain res where "commit_active_checkpoint example_env (\<lambda>_. None) ''c'' example_output_run = Inr res"
    by (auto simp: is_ok_def split: sum.splits)
  moreover obtain r' task where "res = (r', task)" by fastforce
  ultimately show ?thesis
    using commit_waits_for_review [of example_env "\<lambda>_. None" "''c''" example_output_run r' task]
    by (auto simp: example_output_run_def example_run_def new_from_revision_def example_revision_def
        enterprise_schema_version_def res_ensure_def Let_def)
qed

text \<open>
  A run that runs out of nodes ends unreviewed.  When no node is ready any more, the driver ends the run
  with success and the output of its last node, although its output has to be reviewed and has not been.
\<close>
theorem idle_run_ends_unreviewed:
  assumes "fr_status r \<in> {Queued, Running, Resuming}" and "fr_active_checkpoint r = None"
    and "fr_ready_nodes r = []" and "enforce_run_budget env r = Inr ()"
    and "fr_output_review_required r" and "\<not> fr_output_reviewed r"
  shows "\<exists>r'. drive_action env r = Inr (DriveUpdate r') \<and> fr_status r' = Succeeded
    \<and> fr_output r' = terminal_output r \<and> fr_output_review_required r' \<and> \<not> fr_output_reviewed r'"
  using assms
  by (auto simp: drive_action_def rest_defs drive_ready_def ready_superstep_nodes_def Let_def
      finish_idle_run_def touch_def)

lemma idle_run_ends_unreviewed_witness:
  "\<exists>r'. drive_action example_env (example_run\<lparr>fr_ready_nodes := [], fr_output_review_required := True\<rparr>)
      = Inr (DriveUpdate r') \<and> fr_status r' = Succeeded \<and> \<not> fr_output_reviewed r'"
  using idle_run_ends_unreviewed [of "example_run\<lparr>fr_ready_nodes := [], fr_output_review_required := True\<rparr>"
      example_env]
  by (auto simp: enforce_run_budget_def res_ensure_def flow_budget_default_def elapsed_seconds_def
      example_env_def example_run_def new_from_revision_def example_revision_def
      enterprise_schema_version_def Let_def)

text \<open>
  A commit pauses a run only on request.  Unless a pause was requested before, a run is not paused after a
  commit; so an exhausted loop whose policy requires a human, for which routing pauses the run and records
  that a decision is required, does not stop it.
\<close>
theorem commit_pauses_only_on_request:
  assumes "commit_active_checkpoint env get_effect checkpoint_id r = Inr (r', task)"
    and "fr_status r \<noteq> PauseRequested"
  shows "fr_status r' \<noteq> Paused"
  using assms(1)
proof (cases rule: commit_active_checkpoint_cases)
  case cancel
  then show ?thesis using cancel_run_result [of r env] by simp
next
  case (wait c0 c i t)
  then show ?thesis using pause_for_interrupt_result [OF wait(3)] by simp
next
  case (finish c unhandled outs r1)
  then show ?thesis using finish_commit_status [OF finish(3)] assms(2) by (auto simp: worked_def)
qed

definition example_loop_run :: flow_run where
  \<comment> \<open>a loop node has returned; its edge to itself may not be followed again without a human\<close>
  "example_loop_run =
     example_run\<lparr>fr_status := Running,
       fr_graph := \<lparr>gd_schema_version = 1, gd_entry_node_id = ''a'',
         gd_nodes = [example_node ''a'' LoopNode JNull],
         gd_edges = [(example_edge ''a'' ''a'')\<lparr>ge_loop_policy := Some
           \<lparr>lp_max_iterations = 0, lp_continue_condition = ''true'', lp_on_exhausted = RequireHuman\<rparr>\<rparr>]\<rparr>,
       fr_node_runs := [fresh_node_run example_env ''r'' ''a'' 1 NodeRunning JNull []],
       fr_active_checkpoint := Some (example_checkpoint\<lparr>cp_pending_writes :=
         [example_write\<lparr>pw_error := None, pw_result := Some
            \<lparr>er_output = JBool True, er_tool_calls = 0, er_transcript = []\<rparr>\<rparr>]\<rparr>)\<rparr>"

lemma true_condition: "eq_ignore_ascii_case (trim ''true'') ''true''"
  by code_simp

lemma commit_pauses_only_on_request_witness:
  "\<exists>r'. commit_active_checkpoint example_env (\<lambda>_. None) ''c'' example_loop_run = Inr (r', None)
     \<and> fr_error r' = Some (''loop budget exhausted after '' @ show_nat 0
                            @ '' iteration(s); human decision required'')
     \<and> fr_status r' = Running \<and> fr_status r' \<noteq> Paused"
proof -
  have "\<exists>r'. commit_active_checkpoint example_env (\<lambda>_. None) ''c'' example_loop_run = Inr (r', None)
     \<and> fr_error r' = Some (''loop budget exhausted after '' @ show_nat 0
                            @ '' iteration(s); human decision required'')
     \<and> fr_status r' = Running"
    by (simp add: commit_active_checkpoint_def checkpoint_of_def example_loop_run_def true_condition
        evaluate_condition_def example_checkpoint_def example_write_def res_ensure_def Let_def
        commit_write_def find_node_def example_node_def ok_or_def fresh_node_run_def
        parse_state_writes_def json_get_def flow_budget_default_def u32_sat_add_def
        route_after_node_def outgoing_edges_def example_edge_def consume_loop_budget_def
        finish_commit_def example_run_def new_from_revision_def example_revision_def
        enterprise_schema_version_def numeral_2_eq_2 touch_def)
  moreover have "fr_status example_loop_run \<noteq> PauseRequested" by (simp add: example_loop_run_def)
  ultimately show ?thesis using commit_pauses_only_on_request by blast
qed

text \<open>
  The last superstep the budget allows never executes.  A superstep whose node executions use up the
  budget exactly is begun, and the next turn of the driver refuses to execute it.
\<close>
theorem last_superstep_never_executes:
  assumes "begin_superstep env ids r = Inr r'"
    and "fr_node_executions r' = fb_max_node_executions (fr_budget r)"
  shows "drive_action env' r' = Inl (node_budget_exhausted r')"
  using begin_superstep_result [OF assms(1)] assms(2)
  by (auto simp: drive_action_def rest_defs enforce_run_budget_def res_ensure_def keeps_def)

lemma last_superstep_never_executes_witness:
  "\<exists>r'. begin_superstep example_env [''a'']
      (example_run\<lparr>fr_budget := flow_budget_default\<lparr>fb_max_node_executions := 1\<rparr>\<rparr>) = Inr r'
     \<and> drive_action example_env r' = Inl (node_budget_exhausted r')"
proof -
  let ?r = "example_run\<lparr>fr_budget := flow_budget_default\<lparr>fb_max_node_executions := 1\<rparr>\<rparr>"
  have "\<exists>r'. begin_superstep example_env [''a''] ?r = Inr r' \<and> fr_node_executions r' = 1"
    by (simp add: begin_superstep_def begin_node_def Let_def res_ensure_def u32_sat_add_def u32_cast_def
        u32_try_def u32_max_def)
  then obtain r' where "begin_superstep example_env [''a''] ?r = Inr r'" "fr_node_executions r' = 1" by blast
  with last_superstep_never_executes [of example_env "[''a'']" ?r r' example_env] show ?thesis by simp
qed

text \<open>
  The result of a resumed agent discards a cancellation.  Storing the result of a continuation sets the
  run to running, also when its cancellation or a pause was requested while the agent worked.
\<close>
theorem continuation_result_discards_requests:
  assumes "fr_status r \<in> {CancelRequested, PauseRequested}"
    and "replace_write env checkpoint_id w r = Inr r'"
  shows "fr_status r' = Running"
  using replace_write_result [OF assms(2)] by simp


lemma continuation_result_discards_requests_witness:
  "\<exists>r'. replace_write example_env ''c'' example_write
      (example_run\<lparr>fr_status := CancelRequested,
         fr_active_checkpoint := Some (example_checkpoint\<lparr>cp_pending_writes := [example_write]\<rparr>)\<rparr>) = Inr r'
     \<and> fr_status r' = Running"
proof -
  let ?r = "example_run\<lparr>fr_status := CancelRequested,
         fr_active_checkpoint := Some (example_checkpoint\<lparr>cp_pending_writes := [example_write]\<rparr>)\<rparr>"
  have "\<exists>r'. replace_write example_env ''c'' example_write ?r = Inr r'"
    by (simp add: replace_write_def checkpoint_of_def example_checkpoint_def ok_or_def res_ensure_def)
  then show ?thesis
    using continuation_result_discards_requests [of ?r example_env "''c''" example_write] by auto
qed

end
