(* ===== verification/Capabilities.thy ===== *)
theory Capabilities
  imports Paths Flow_Graph
begin

text \<open>
  Capability projections, model policies and execution routes (the first part of
  \<open>enterprise.rs\<close>).

  A \<open>BTreeSet\<close> whose order is not observed is a \<open>set\<close>.  The canonical form of a workspace root comes
  from the file system, which is an argument; what the code relies on is that a canonical path is
  its own canonical form (\<open>canonical_paths\<close>).  The definitions are the ones compiled with
  \<open>cfg(not(windows))\<close>.

  The locale \<open>scope\<close> is the contract of one scope of a projection: which entries the meet, the join
  and the subset test of two scopes cover.  The scopes of names implement it, and so does the scope
  of workspace roots on a file system with canonical paths.
\<close>

section \<open>Data classifications\<close>

definition classification_rank :: "data_classification \<Rightarrow> nat" where
  "classification_rank c =
     (case c of Public \<Rightarrow> 0 | Internal \<Rightarrow> 1 | Confidential \<Rightarrow> 2 | Restricted \<Rightarrow> 3)"

instantiation data_classification :: linorder
begin

definition less_eq_data_classification :: "data_classification \<Rightarrow> data_classification \<Rightarrow> bool" where
  "less_eq_data_classification a b \<longleftrightarrow> classification_rank a \<le> classification_rank b"

definition less_data_classification :: "data_classification \<Rightarrow> data_classification \<Rightarrow> bool" where
  "less_data_classification a b \<longleftrightarrow> classification_rank a < classification_rank b"

instance
proof
  fix a b :: data_classification
  assume "a \<le> b" "b \<le> a"
  then show "a = b"
    by (cases a; cases b)
       (simp_all add: less_eq_data_classification_def classification_rank_def)
qed (auto simp: less_eq_data_classification_def less_data_classification_def)

end

lemmas classification_order_defs =
  less_eq_data_classification_def less_data_classification_def classification_rank_def

section \<open>Scopes\<close>

definition intersect_scope :: "bool \<Rightarrow> 'a set \<Rightarrow> bool \<Rightarrow> 'a set \<Rightarrow> bool \<times> 'a set" where
  "intersect_scope left_all left right_all right =
     (case (left_all, right_all) of
        (True, True) \<Rightarrow> (True, {})
      | (True, False) \<Rightarrow> (False, right)
      | (False, True) \<Rightarrow> (False, left)
      | (False, False) \<Rightarrow> (False, left \<inter> right))"

definition union_scope :: "bool \<Rightarrow> 'a set \<Rightarrow> bool \<Rightarrow> 'a set \<Rightarrow> bool \<times> 'a set" where
  "union_scope left_all left right_all right =
     (if left_all \<or> right_all then (True, {}) else (False, left \<union> right))"

definition scope_is_subset :: "bool \<Rightarrow> 'a set \<Rightarrow> bool \<Rightarrow> 'a set \<Rightarrow> bool" where
  "scope_is_subset requested_all requested ceiling_all ceiling =
     (if requested_all then ceiling_all else ceiling_all \<or> requested \<subseteq> ceiling)"

definition workspace_root_identity :: "filesystem \<Rightarrow> path \<Rightarrow> path" where
  "workspace_root_identity fs p = (case fs_canonicalize fs p of Some q \<Rightarrow> q | None \<Rightarrow> p)"

definition workspace_roots_equal :: "filesystem \<Rightarrow> path \<Rightarrow> path \<Rightarrow> bool" where
  "workspace_roots_equal fs left right \<longleftrightarrow>
     workspace_root_identity fs left = workspace_root_identity fs right"

definition normalized_workspace_roots :: "filesystem \<Rightarrow> path set \<Rightarrow> path set" where
  "normalized_workspace_roots fs roots = workspace_root_identity fs ` roots"

definition intersect_workspace_scope ::
    "filesystem \<Rightarrow> bool \<Rightarrow> path set \<Rightarrow> bool \<Rightarrow> path set \<Rightarrow> bool \<times> path set" where
  "intersect_workspace_scope fs left_all left right_all right =
     (case (left_all, right_all) of
        (True, True) \<Rightarrow> (True, {})
      | (True, False) \<Rightarrow> (False, normalized_workspace_roots fs right)
      | (False, True) \<Rightarrow> (False, normalized_workspace_roots fs left)
      | (False, False) \<Rightarrow>
          (False, workspace_root_identity fs `
             {candidate \<in> left. \<exists>other \<in> right. workspace_roots_equal fs candidate other}))"

definition union_workspace_scope ::
    "filesystem \<Rightarrow> bool \<Rightarrow> path set \<Rightarrow> bool \<Rightarrow> path set \<Rightarrow> bool \<times> path set" where
  "union_workspace_scope fs left_all left right_all right =
     (if left_all \<or> right_all then (True, {})
      else (False, workspace_root_identity fs ` (left \<union> right)))"

definition workspace_scope_is_subset ::
    "filesystem \<Rightarrow> bool \<Rightarrow> path set \<Rightarrow> bool \<Rightarrow> path set \<Rightarrow> bool" where
  "workspace_scope_is_subset fs requested_all requested ceiling_all ceiling =
     (if requested_all then ceiling_all
      else ceiling_all
        \<or> (\<forall>root \<in> requested. \<exists>allowed \<in> ceiling. workspace_roots_equal fs root allowed))"

section \<open>Capability projections\<close>

record capability_projection =
  cap_allow_all_tools :: bool
  cap_tools :: "string set"
  cap_allow_all_skills :: bool
  cap_skills :: "string set"
  cap_allow_all_plugins :: bool
  cap_plugins :: "string set"
  cap_allow_all_mcp_servers :: bool
  cap_mcp_servers :: "string set"
  cap_allow_all_workspace_roots :: bool
  cap_workspace_roots :: "path set"

definition deny_all :: capability_projection where
  "deny_all =
     \<lparr>cap_allow_all_tools = False, cap_tools = {},
      cap_allow_all_skills = False, cap_skills = {},
      cap_allow_all_plugins = False, cap_plugins = {},
      cap_allow_all_mcp_servers = False, cap_mcp_servers = {},
      cap_allow_all_workspace_roots = False, cap_workspace_roots = {}\<rparr>"

definition unrestricted :: capability_projection where
  "unrestricted =
     deny_all\<lparr>cap_allow_all_tools := True, cap_allow_all_skills := True,
       cap_allow_all_plugins := True, cap_allow_all_mcp_servers := True,
       cap_allow_all_workspace_roots := True\<rparr>"

definition only_tools :: "string list \<Rightarrow> capability_projection" where
  "only_tools tools = unrestricted\<lparr>cap_allow_all_tools := False, cap_tools := set tools\<rparr>"

definition intersect ::
    "filesystem \<Rightarrow> capability_projection \<Rightarrow> capability_projection \<Rightarrow> capability_projection" where
  "intersect fs self other =
     (let (allow_all_tools, tools) =
            intersect_scope (cap_allow_all_tools self) (cap_tools self)
              (cap_allow_all_tools other) (cap_tools other);
          (allow_all_skills, skills) =
            intersect_scope (cap_allow_all_skills self) (cap_skills self)
              (cap_allow_all_skills other) (cap_skills other);
          (allow_all_plugins, plugins) =
            intersect_scope (cap_allow_all_plugins self) (cap_plugins self)
              (cap_allow_all_plugins other) (cap_plugins other);
          (allow_all_mcp_servers, mcp_servers) =
            intersect_scope (cap_allow_all_mcp_servers self) (cap_mcp_servers self)
              (cap_allow_all_mcp_servers other) (cap_mcp_servers other);
          (allow_all_workspace_roots, workspace_roots) =
            intersect_workspace_scope fs
              (cap_allow_all_workspace_roots self) (cap_workspace_roots self)
              (cap_allow_all_workspace_roots other) (cap_workspace_roots other)
      in \<lparr>cap_allow_all_tools = allow_all_tools, cap_tools = tools,
          cap_allow_all_skills = allow_all_skills, cap_skills = skills,
          cap_allow_all_plugins = allow_all_plugins, cap_plugins = plugins,
          cap_allow_all_mcp_servers = allow_all_mcp_servers, cap_mcp_servers = mcp_servers,
          cap_allow_all_workspace_roots = allow_all_workspace_roots,
          cap_workspace_roots = workspace_roots\<rparr>)"

definition union_projection ::
    "filesystem \<Rightarrow> capability_projection \<Rightarrow> capability_projection \<Rightarrow> capability_projection" where
  "union_projection fs self other =
     (let (allow_all_tools, tools) =
            union_scope (cap_allow_all_tools self) (cap_tools self)
              (cap_allow_all_tools other) (cap_tools other);
          (allow_all_skills, skills) =
            union_scope (cap_allow_all_skills self) (cap_skills self)
              (cap_allow_all_skills other) (cap_skills other);
          (allow_all_plugins, plugins) =
            union_scope (cap_allow_all_plugins self) (cap_plugins self)
              (cap_allow_all_plugins other) (cap_plugins other);
          (allow_all_mcp_servers, mcp_servers) =
            union_scope (cap_allow_all_mcp_servers self) (cap_mcp_servers self)
              (cap_allow_all_mcp_servers other) (cap_mcp_servers other);
          (allow_all_workspace_roots, workspace_roots) =
            union_workspace_scope fs
              (cap_allow_all_workspace_roots self) (cap_workspace_roots self)
              (cap_allow_all_workspace_roots other) (cap_workspace_roots other)
      in \<lparr>cap_allow_all_tools = allow_all_tools, cap_tools = tools,
          cap_allow_all_skills = allow_all_skills, cap_skills = skills,
          cap_allow_all_plugins = allow_all_plugins, cap_plugins = plugins,
          cap_allow_all_mcp_servers = allow_all_mcp_servers, cap_mcp_servers = mcp_servers,
          cap_allow_all_workspace_roots = allow_all_workspace_roots,
          cap_workspace_roots = workspace_roots\<rparr>)"

definition allows_tool :: "capability_projection \<Rightarrow> string \<Rightarrow> bool" where
  "allows_tool c name \<longleftrightarrow> cap_allow_all_tools c \<or> name \<in> cap_tools c"

definition allows_skill :: "capability_projection \<Rightarrow> string \<Rightarrow> bool" where
  "allows_skill c i \<longleftrightarrow> cap_allow_all_skills c \<or> i \<in> cap_skills c"

definition allows_plugin :: "capability_projection \<Rightarrow> string \<Rightarrow> bool" where
  "allows_plugin c id_or_name \<longleftrightarrow> cap_allow_all_plugins c \<or> id_or_name \<in> cap_plugins c"

definition allows_mcp_server :: "capability_projection \<Rightarrow> string \<Rightarrow> bool" where
  "allows_mcp_server c server_id \<longleftrightarrow> cap_allow_all_mcp_servers c \<or> server_id \<in> cap_mcp_servers c"

definition allows_workspace_root :: "filesystem \<Rightarrow> capability_projection \<Rightarrow> path \<Rightarrow> bool" where
  "allows_workspace_root fs c root \<longleftrightarrow>
     cap_allow_all_workspace_roots c
     \<or> (\<exists>allowed \<in> cap_workspace_roots c. workspace_roots_equal fs allowed root)"

definition is_subset_of :: "filesystem \<Rightarrow> capability_projection \<Rightarrow> capability_projection \<Rightarrow> bool" where
  "is_subset_of fs self ceiling \<longleftrightarrow>
     scope_is_subset (cap_allow_all_tools self) (cap_tools self)
       (cap_allow_all_tools ceiling) (cap_tools ceiling)
     \<and> scope_is_subset (cap_allow_all_skills self) (cap_skills self)
       (cap_allow_all_skills ceiling) (cap_skills ceiling)
     \<and> scope_is_subset (cap_allow_all_plugins self) (cap_plugins self)
       (cap_allow_all_plugins ceiling) (cap_plugins ceiling)
     \<and> scope_is_subset (cap_allow_all_mcp_servers self) (cap_mcp_servers self)
       (cap_allow_all_mcp_servers ceiling) (cap_mcp_servers ceiling)
     \<and> workspace_scope_is_subset fs
       (cap_allow_all_workspace_roots self) (cap_workspace_roots self)
       (cap_allow_all_workspace_roots ceiling) (cap_workspace_roots ceiling)"

section \<open>Experience surfaces\<close>

datatype experience_mode = CodeMode | WorkMode | FlowMode

record experience_surface_profile =
  es_mode :: experience_mode
  es_prompt_profile_id :: string
  es_enterprise_only :: bool
  es_capabilities :: capability_projection

definition flow_control_tools :: "string set" where
  "flow_control_tools =
     {''agent_search'', ''agent_create'', ''flow_search'', ''flow_create'', ''flow_update'',
      ''flow_inspect'', ''flow_validate'', ''flow_simulate'', ''flow_publish'', ''flow_run'',
      ''flow_status'', ''flow_pause'', ''flow_resume'', ''flow_cancel''}"

definition flow_runtime_baseline :: "path \<Rightarrow> capability_projection" where
  "flow_runtime_baseline workspace_root =
     deny_all\<lparr>cap_tools := flow_control_tools, cap_workspace_roots := {workspace_root}\<rparr>"

definition flow_harness_capabilities ::
    "filesystem \<Rightarrow> path \<Rightarrow> capability_projection \<Rightarrow> capability_projection" where
  "flow_harness_capabilities fs workspace_root node_ceiling =
     union_projection fs (flow_runtime_baseline workspace_root) node_ceiling"

definition for_mode :: "experience_mode \<Rightarrow> experience_surface_profile" where
  "for_mode mode =
     (case mode of
        CodeMode \<Rightarrow> \<lparr>es_mode = mode, es_prompt_profile_id = ''code.v1'', es_enterprise_only = False,
          es_capabilities = unrestricted\<rparr>
      | WorkMode \<Rightarrow> \<lparr>es_mode = mode, es_prompt_profile_id = ''work.v1'', es_enterprise_only = False,
          es_capabilities = unrestricted\<rparr>
      | FlowMode \<Rightarrow> \<lparr>es_mode = mode, es_prompt_profile_id = ''flow.v1'', es_enterprise_only = True,
          es_capabilities = unrestricted\<rparr>)"

section \<open>Execution routes\<close>

datatype resource_kind = FileResource | NetworkResource | DatabaseResource

record resource_grant =
  rg_binding_id :: string
  rg_kind :: resource_kind
  rg_resource :: string
  rg_can_read :: bool
  rg_can_write :: bool
  rg_max_data_classification :: data_classification

record identity_route =
  ir_grant :: resource_grant
  ir_credential_ref :: string

type_synonym identity_router = "(string, identity_route) btree"

definition router_new :: "identity_route list \<Rightarrow> identity_router" where
  "router_new routes = bt_extend (map (\<lambda>r. (rg_binding_id (ir_grant r), r)) routes) []"

datatype execution_boundary_error =
    UnknownBinding string
  | KindMismatch string resource_kind resource_kind
  | OperationDenied string string
  | ClassificationDenied string data_classification data_classification

definition resolve_route ::
    "identity_router \<Rightarrow> string \<Rightarrow> resource_kind \<Rightarrow> bool \<Rightarrow> data_classification
      \<Rightarrow> execution_boundary_error + identity_route" where
  "resolve_route routes binding_id kind writes classification =
     res_bind (ok_or (bt_get routes binding_id) (UnknownBinding binding_id)) (\<lambda>route.
     res_ensure (rg_kind (ir_grant route) = kind)
       (KindMismatch binding_id (rg_kind (ir_grant route)) kind)
    (res_ensure (if writes then rg_can_write (ir_grant route) else rg_can_read (ir_grant route))
       (OperationDenied binding_id (if writes then ''write'' else ''read''))
    (res_ensure (\<not> rg_max_data_classification (ir_grant route) < classification)
       (ClassificationDenied binding_id classification
          (rg_max_data_classification (ir_grant route)))
       (Inr route))))"

section \<open>Model policies\<close>

record model_binding =
  mb_provider_id :: string
  mb_model_id :: string

record model_policy =
  mp_allow_all_models :: bool
  mp_allowed_models :: "model_binding set"

definition model_deny_all :: model_policy where
  "model_deny_all = \<lparr>mp_allow_all_models = False, mp_allowed_models = {}\<rparr>"

definition model_unrestricted :: model_policy where
  "model_unrestricted = \<lparr>mp_allow_all_models = True, mp_allowed_models = {}\<rparr>"

definition model_only :: "model_binding list \<Rightarrow> model_policy" where
  "model_only bindings = \<lparr>mp_allow_all_models = False, mp_allowed_models = set bindings\<rparr>"

definition allows_model :: "model_policy \<Rightarrow> string \<Rightarrow> string \<Rightarrow> bool" where
  "allows_model p provider_id model_id \<longleftrightarrow>
     mp_allow_all_models p
     \<or> \<lparr>mb_provider_id = provider_id, mb_model_id = model_id\<rparr> \<in> mp_allowed_models p"

definition intersect_models :: "model_policy \<Rightarrow> model_policy \<Rightarrow> model_policy" where
  "intersect_models self other =
     (let (allow_all_models, allowed_models) =
            intersect_scope (mp_allow_all_models self) (mp_allowed_models self)
              (mp_allow_all_models other) (mp_allowed_models other)
      in \<lparr>mp_allow_all_models = allow_all_models, mp_allowed_models = allowed_models\<rparr>)"

section \<open>The contract of a scope\<close>

definition covers :: "('a \<Rightarrow> 'i) \<Rightarrow> bool \<times> 'a set \<Rightarrow> 'a \<Rightarrow> bool" where
  \<comment> \<open>an entry is in a scope up to the identity of entries\<close>
  "covers ident s x \<longleftrightarrow> fst s \<or> (\<exists>y \<in> snd s. ident y = ident x)"

locale scope =
  fixes ident :: "'a \<Rightarrow> 'i"
    and meet :: "bool \<Rightarrow> 'a set \<Rightarrow> bool \<Rightarrow> 'a set \<Rightarrow> bool \<times> 'a set"
    and join :: "bool \<Rightarrow> 'a set \<Rightarrow> bool \<Rightarrow> 'a set \<Rightarrow> bool \<times> 'a set"
    and below :: "bool \<Rightarrow> 'a set \<Rightarrow> bool \<Rightarrow> 'a set \<Rightarrow> bool"
  assumes meet_covers:
      "covers ident (meet la l ra r) x \<longleftrightarrow> covers ident (la, l) x \<and> covers ident (ra, r) x"
    and meet_all: "fst (meet la l ra r) \<longleftrightarrow> la \<and> ra"
    and join_covers:
      "covers ident (join la l ra r) x \<longleftrightarrow> covers ident (la, l) x \<or> covers ident (ra, r) x"
    and below_entries: "below la l ra r \<longleftrightarrow> ra \<or> \<not> la \<and> (\<forall>x \<in> l. covers ident (ra, r) x)"
begin

lemma below_coversD: "below la l ra r \<Longrightarrow> covers ident (la, l) x \<Longrightarrow> covers ident (ra, r) x"
  by (auto simp: below_entries covers_def)

lemma below_iff:
  "below la l ra r \<longleftrightarrow> (la \<longrightarrow> ra) \<and> (\<forall>x. covers ident (la, l) x \<longrightarrow> covers ident (ra, r) x)"
  unfolding below_entries covers_def by auto

lemma meet_below:
  "below xa x (fst (meet la l ra r)) (snd (meet la l ra r)) \<longleftrightarrow> below xa x la l \<and> below xa x ra r"
  unfolding below_iff prod.collapse meet_covers by (auto simp: meet_all)

lemma below_refl: "below la l la l"
  by (simp add: below_iff)

lemma below_trans: "below la l ra r \<Longrightarrow> below ra r ca c \<Longrightarrow> below la l ca c"
  by (auto simp: below_iff)

end

interpretation names: scope "\<lambda>x. x" intersect_scope union_scope scope_is_subset
  by unfold_locales
     (auto simp: covers_def intersect_scope_def union_scope_def scope_is_subset_def
        split: bool.splits)

definition canonical_paths :: "filesystem \<Rightarrow> bool" where
  \<comment> \<open>\<open>std::fs::canonicalize\<close>: the canonical form of a path is its own canonical form\<close>
  "canonical_paths fs \<longleftrightarrow> (\<forall>p q. fs_canonicalize fs p = Some q \<longrightarrow> fs_canonicalize fs q = Some q)"

lemma workspace_root_identity_idem:
  "canonical_paths fs \<Longrightarrow>
    workspace_root_identity fs (workspace_root_identity fs p) = workspace_root_identity fs p"
  by (auto simp: canonical_paths_def workspace_root_identity_def split: option.splits)

lemma workspace_scope:
  assumes "canonical_paths fs"
  shows "scope (workspace_root_identity fs) (intersect_workspace_scope fs)
           (union_workspace_scope fs) (workspace_scope_is_subset fs)"
  by unfold_locales
     (auto simp: covers_def intersect_workspace_scope_def union_workspace_scope_def
        workspace_scope_is_subset_def normalized_workspace_roots_def workspace_roots_equal_def
        workspace_root_identity_idem [OF assms] split: bool.splits; metis)+

section \<open>What a projection grants\<close>

text \<open>The abstract view of a projection: the set of the capabilities it grants.\<close>

datatype capability =
    ToolCapability string
  | SkillCapability string
  | PluginCapability string
  | McpServerCapability string
  | WorkspaceRootCapability path

fun grants :: "filesystem \<Rightarrow> capability_projection \<Rightarrow> capability \<Rightarrow> bool" where
  "grants fs c (ToolCapability x) = allows_tool c x"
| "grants fs c (SkillCapability x) = allows_skill c x"
| "grants fs c (PluginCapability x) = allows_plugin c x"
| "grants fs c (McpServerCapability x) = allows_mcp_server c x"
| "grants fs c (WorkspaceRootCapability p) = allows_workspace_root fs c p"

definition granted :: "filesystem \<Rightarrow> capability_projection \<Rightarrow> capability set" where
  "granted fs c = {x. grants fs c x}"

lemma names_covers: "covers (\<lambda>x. x) (a, s) x \<longleftrightarrow> a \<or> x \<in> s"
  by (auto simp: covers_def)

lemma allows_as_covers:
  "allows_tool c x \<longleftrightarrow> covers (\<lambda>x. x) (cap_allow_all_tools c, cap_tools c) x"
  "allows_skill c x \<longleftrightarrow> covers (\<lambda>x. x) (cap_allow_all_skills c, cap_skills c) x"
  "allows_plugin c x \<longleftrightarrow> covers (\<lambda>x. x) (cap_allow_all_plugins c, cap_plugins c) x"
  "allows_mcp_server c x \<longleftrightarrow> covers (\<lambda>x. x) (cap_allow_all_mcp_servers c, cap_mcp_servers c) x"
  "allows_workspace_root fs c p \<longleftrightarrow>
     covers (workspace_root_identity fs) (cap_allow_all_workspace_roots c, cap_workspace_roots c) p"
  by (simp_all add: allows_tool_def allows_skill_def allows_plugin_def allows_mcp_server_def
        allows_workspace_root_def names_covers)
     (simp add: covers_def workspace_roots_equal_def)

lemma intersect_scopes:
  "(cap_allow_all_tools (intersect fs a b), cap_tools (intersect fs a b))
     = intersect_scope (cap_allow_all_tools a) (cap_tools a) (cap_allow_all_tools b) (cap_tools b)"
  "(cap_allow_all_skills (intersect fs a b), cap_skills (intersect fs a b))
     = intersect_scope (cap_allow_all_skills a) (cap_skills a)
         (cap_allow_all_skills b) (cap_skills b)"
  "(cap_allow_all_plugins (intersect fs a b), cap_plugins (intersect fs a b))
     = intersect_scope (cap_allow_all_plugins a) (cap_plugins a)
         (cap_allow_all_plugins b) (cap_plugins b)"
  "(cap_allow_all_mcp_servers (intersect fs a b), cap_mcp_servers (intersect fs a b))
     = intersect_scope (cap_allow_all_mcp_servers a) (cap_mcp_servers a)
         (cap_allow_all_mcp_servers b) (cap_mcp_servers b)"
  "(cap_allow_all_workspace_roots (intersect fs a b), cap_workspace_roots (intersect fs a b))
     = intersect_workspace_scope fs (cap_allow_all_workspace_roots a) (cap_workspace_roots a)
         (cap_allow_all_workspace_roots b) (cap_workspace_roots b)"
  by (simp_all add: intersect_def split_beta Let_def)

lemma union_scopes:
  "(cap_allow_all_tools (union_projection fs a b), cap_tools (union_projection fs a b))
     = union_scope (cap_allow_all_tools a) (cap_tools a) (cap_allow_all_tools b) (cap_tools b)"
  "(cap_allow_all_skills (union_projection fs a b), cap_skills (union_projection fs a b))
     = union_scope (cap_allow_all_skills a) (cap_skills a) (cap_allow_all_skills b) (cap_skills b)"
  "(cap_allow_all_plugins (union_projection fs a b), cap_plugins (union_projection fs a b))
     = union_scope (cap_allow_all_plugins a) (cap_plugins a)
         (cap_allow_all_plugins b) (cap_plugins b)"
  "(cap_allow_all_mcp_servers (union_projection fs a b), cap_mcp_servers (union_projection fs a b))
     = union_scope (cap_allow_all_mcp_servers a) (cap_mcp_servers a)
         (cap_allow_all_mcp_servers b) (cap_mcp_servers b)"
  "(cap_allow_all_workspace_roots (union_projection fs a b),
    cap_workspace_roots (union_projection fs a b))
     = union_workspace_scope fs (cap_allow_all_workspace_roots a) (cap_workspace_roots a)
         (cap_allow_all_workspace_roots b) (cap_workspace_roots b)"
  by (simp_all add: union_projection_def split_beta Let_def)

lemma grants_intersect:
  assumes "canonical_paths fs"
  shows "grants fs (intersect fs a b) x \<longleftrightarrow> grants fs a x \<and> grants fs b x"
  by (cases x)
     (simp_all add: allows_as_covers intersect_scopes names.meet_covers
        scope.meet_covers [OF workspace_scope [OF assms]])

lemma grants_union:
  assumes "canonical_paths fs"
  shows "grants fs (union_projection fs a b) x \<longleftrightarrow> grants fs a x \<or> grants fs b x"
  by (cases x)
     (simp_all add: allows_as_covers union_scopes names.join_covers
        scope.join_covers [OF workspace_scope [OF assms]])

lemma grants_subset:
  assumes "canonical_paths fs" "is_subset_of fs a b" "grants fs a x"
  shows "grants fs b x"
  using assms
  by (cases x)
     (auto simp: allows_as_covers is_subset_of_def
        intro: names.below_coversD scope.below_coversD [OF workspace_scope [OF assms(1)]])

lemma is_subset_of_trans:
  assumes "canonical_paths fs" "is_subset_of fs a b" "is_subset_of fs b c"
  shows "is_subset_of fs a c"
  using assms unfolding is_subset_of_def
  by (meson names.below_trans scope.below_trans [OF workspace_scope [OF assms(1)]])

lemma scope_pairD: "(a, s) = p \<Longrightarrow> a = fst p \<and> s = snd p"
  by auto

lemmas intersect_parts = intersect_scopes [THEN scope_pairD]

lemma is_subset_of_intersect:
  assumes "canonical_paths fs"
  shows "is_subset_of fs c (intersect fs a b) \<longleftrightarrow> is_subset_of fs c a \<and> is_subset_of fs c b"
  unfolding is_subset_of_def
  by (simp only: intersect_parts names.meet_below scope.meet_below [OF workspace_scope [OF assms]])
     blast

lemma is_subset_of_refl: "is_subset_of fs a a"
  by (auto simp: is_subset_of_def scope_is_subset_def workspace_scope_is_subset_def
        workspace_roots_equal_def)

lemma intersect_subset:
  assumes "canonical_paths fs"
  shows "is_subset_of fs (intersect fs a b) a" "is_subset_of fs (intersect fs a b) b"
  using is_subset_of_intersect [OF assms] is_subset_of_refl by blast+

lemma infinite_strings: "infinite (UNIV :: string set)"
  by (simp add: infinite_UNIV_listI)

lemma finite_scope_not_all: "finite s \<Longrightarrow> \<exists>x::string. x \<notin> s"
  using ex_new_if_finite [OF infinite_strings] by blast

lemma names_subset_complete:
  assumes "finite c" "\<And>x::string. covers (\<lambda>x. x) (ra, r) x \<Longrightarrow> covers (\<lambda>x. x) (ca, c) x"
  shows "scope_is_subset ra r ca c"
  using assms finite_scope_not_all [of c]
  by (auto simp: scope_is_subset_def names_covers)

lemma grants_subset_complete:
  assumes fs: "canonical_paths fs"
    and finite: "finite (cap_tools b)" "finite (cap_skills b)" "finite (cap_plugins b)"
      "finite (cap_mcp_servers b)"
    and roots: "cap_allow_all_workspace_roots a \<longrightarrow> cap_allow_all_workspace_roots b"
    and sub: "\<And>x. grants fs a x \<Longrightarrow> grants fs b x"
  shows "is_subset_of fs a b"
  unfolding is_subset_of_def
proof (intro conjI)
  show "scope_is_subset (cap_allow_all_tools a) (cap_tools a)
          (cap_allow_all_tools b) (cap_tools b)"
    using finite(1) sub [of "ToolCapability x" for x]
    by (intro names_subset_complete) (simp_all add: allows_as_covers)
  show "scope_is_subset (cap_allow_all_skills a) (cap_skills a)
          (cap_allow_all_skills b) (cap_skills b)"
    using finite(2) sub [of "SkillCapability x" for x]
    by (intro names_subset_complete) (simp_all add: allows_as_covers)
  show "scope_is_subset (cap_allow_all_plugins a) (cap_plugins a)
          (cap_allow_all_plugins b) (cap_plugins b)"
    using finite(3) sub [of "PluginCapability x" for x]
    by (intro names_subset_complete) (simp_all add: allows_as_covers)
  show "scope_is_subset (cap_allow_all_mcp_servers a) (cap_mcp_servers a)
          (cap_allow_all_mcp_servers b) (cap_mcp_servers b)"
    using finite(4) sub [of "McpServerCapability x" for x]
    by (intro names_subset_complete) (simp_all add: allows_as_covers)
  show "workspace_scope_is_subset fs (cap_allow_all_workspace_roots a) (cap_workspace_roots a)
          (cap_allow_all_workspace_roots b) (cap_workspace_roots b)"
    using roots sub [of "WorkspaceRootCapability p" for p]
    by (simp add: scope.below_iff [OF workspace_scope [OF fs]] allows_as_covers)
qed

lemma is_subset_of_all_roots:
  "is_subset_of fs a b \<Longrightarrow> cap_allow_all_workspace_roots a \<Longrightarrow> cap_allow_all_workspace_roots b"
  by (simp add: is_subset_of_def workspace_scope_is_subset_def)

definition plain_files :: filesystem where
  \<comment> \<open>a file system without symbolic links in which every path exists\<close>
  "plain_files =
     \<lparr>fs_canonicalize = Some, fs_is_dir = (\<lambda>_. True), fs_is_file = (\<lambda>_. False),
      fs_exists = (\<lambda>_. True), fs_current_dir = Some [RootDir]\<rparr>"

lemma plain_files_canonical: "canonical_paths plain_files"
  by (simp add: canonical_paths_def plain_files_def)

section \<open>Properties\<close>

text \<open>
  C24: A capability projection implements the set of the capabilities it grants.  On a file system
  whose canonical paths are their own canonical form, the intersection of two projections grants
  exactly what both grant, their union exactly what one of them grants, and the subset test holds
  exactly when the first grants nothing the second does not (and lists its workspace roots where
  the second does): a projection that was narrowed never grants more than before.
\<close>
theorem projection_implements_capability_set:
  assumes "canonical_paths fs"
    and "finite (cap_tools b)" "finite (cap_skills b)" "finite (cap_plugins b)"
      "finite (cap_mcp_servers b)"
  shows "granted fs (intersect fs a b) = granted fs a \<inter> granted fs b
    \<and> granted fs (union_projection fs a b) = granted fs a \<union> granted fs b
    \<and> (is_subset_of fs a b \<longleftrightarrow>
        granted fs a \<subseteq> granted fs b
        \<and> (cap_allow_all_workspace_roots a \<longrightarrow> cap_allow_all_workspace_roots b))"
proof (intro conjI)
  show "granted fs (intersect fs a b) = granted fs a \<inter> granted fs b"
    using grants_intersect [OF assms(1)] by (auto simp: granted_def)
  show "granted fs (union_projection fs a b) = granted fs a \<union> granted fs b"
    using grants_union [OF assms(1)] by (auto simp: granted_def)
  show "is_subset_of fs a b \<longleftrightarrow>
      granted fs a \<subseteq> granted fs b
      \<and> (cap_allow_all_workspace_roots a \<longrightarrow> cap_allow_all_workspace_roots b)"
  proof
    assume "is_subset_of fs a b"
    then show "granted fs a \<subseteq> granted fs b
        \<and> (cap_allow_all_workspace_roots a \<longrightarrow> cap_allow_all_workspace_roots b)"
      using grants_subset [OF assms(1)] is_subset_of_all_roots by (auto simp: granted_def)
  next
    assume "granted fs a \<subseteq> granted fs b
        \<and> (cap_allow_all_workspace_roots a \<longrightarrow> cap_allow_all_workspace_roots b)"
    then show "is_subset_of fs a b"
      by (intro grants_subset_complete [OF assms]) (auto simp: granted_def)
  qed
qed

theorem projection_implements_capability_set_witness:
  "granted plain_files (intersect plain_files unrestricted (only_tools [''grep'']))
     = granted plain_files unrestricted \<inter> granted plain_files (only_tools [''grep''])
   \<and> ToolCapability ''grep'' \<in> granted plain_files (only_tools [''grep''])
   \<and> ToolCapability ''shell'' \<notin> granted plain_files (only_tools [''grep''])"
  using projection_implements_capability_set
    [of plain_files "only_tools [''grep'']" unrestricted, OF plain_files_canonical]
  by (simp add: granted_def only_tools_def unrestricted_def deny_all_def allows_tool_def)

text \<open>
  A resolved execution route stays within its grant.  The route that the router returns for a
  binding is one of the routes it was built with, of the requested kind, for a permitted operation
  and a classification the grant admits; a request it refuses violates one of these.
\<close>
theorem resolved_route_is_granted:
  "resolve_route routes binding_id kind writes classification = Inr route \<longleftrightarrow>
     bt_get routes binding_id = Some route
     \<and> rg_kind (ir_grant route) = kind
     \<and> (if writes then rg_can_write (ir_grant route) else rg_can_read (ir_grant route))
     \<and> classification \<le> rg_max_data_classification (ir_grant route)"
  by (auto simp: resolve_route_def res_Inr_iffs not_less)

end
