(* ===== verification/Connection_Grants.thy ===== *)
theory Connection_Grants
  imports Flow_Graph Fingerprint
begin

text \<open>
  Grants of connection operations to an agent template (\<open>enterprise_connection_grants.rs\<close>).

  The SHA-256 digest that names a tool is an argument, the list of the bytes of the digest of a
  text.  \<open>operation_set\<close> is the abstract view of a list of bindings: the operations it grants, each
  at the capability revision the binding pins.
\<close>

section \<open>Bindings\<close>

record operation_grant =
  og_operation_id :: string

record connection_binding =
  cb_connection_id :: uuid
  cb_capability_revision :: nat
  cb_operation_grants :: "operation_grant list"

record connection_operation =
  co_connection_id :: uuid
  co_capability_revision :: nat
  co_operation_id :: string
  co_mcp_server_id :: uuid
  co_provider_tool_name :: string
  co_model_tool_name :: string
  co_pinned_operation_fingerprint :: string

record resolved_binding =
  rb_binding :: connection_binding
  rb_operations :: "(string, connection_operation) btree"

datatype grant_change_kind = GrantAdded | GrantRemoved

record connection_grant_change =
  gc_connection_id :: uuid
  gc_operation_id :: "string option"
  gc_kind :: grant_change_kind

definition mcp_server_ids :: "resolved_binding \<Rightarrow> uuid list" where
  "mcp_server_ids b = map (\<lambda>(_, operation). co_mcp_server_id operation) (rb_operations b)"

definition model_tool_names :: "resolved_binding \<Rightarrow> string list" where
  "model_tool_names b = map (\<lambda>(_, operation). co_model_tool_name operation) (rb_operations b)"

definition granted_operation_ids :: "connection_binding \<Rightarrow> string set" where
  "granted_operation_ids b = og_operation_id ` set (cb_operation_grants b)"

section \<open>The shape of the bindings of a template\<close>

definition max_template_connection_bindings :: nat where
  "max_template_connection_bindings = 32"

definition max_template_operation_grants :: nat where
  "max_template_operation_grants = 256"

datatype shape_error =
    TooManyConnections
  | TooManyOperations
  | InvalidCapabilityRevision uuid
  | DuplicateConnection uuid
  | EmptyOperationGrants uuid
  | InvalidOperationId
  | DuplicateOperation uuid string

fun check_operation_grants ::
    "uuid \<Rightarrow> string set \<Rightarrow> nat \<Rightarrow> operation_grant list \<Rightarrow> shape_error + nat" where
  \<comment> \<open>the inner loop; the result is \<open>operation_count\<close>, which never reaches its saturation\<close>
  "check_operation_grants connection_id operation_ids operation_count [] = Inr operation_count"
| "check_operation_grants connection_id operation_ids operation_count (g # gs) =
     res_ensure (operation_count + 1 \<le> max_template_operation_grants) TooManyOperations
    (let operation_id = trim (og_operation_id g) in
     res_ensure (\<not> (operation_id = [] \<or> 512 < char_count operation_id
                    \<or> operation_id \<noteq> og_operation_id g)) InvalidOperationId
    (res_ensure (operation_id \<notin> operation_ids) (DuplicateOperation connection_id operation_id)
       (check_operation_grants connection_id (insert operation_id operation_ids)
          (operation_count + 1) gs)))"

fun check_bindings :: "uuid set \<Rightarrow> nat \<Rightarrow> connection_binding list \<Rightarrow> shape_error + unit" where
  "check_bindings connection_ids operation_count [] = Inr ()"
| "check_bindings connection_ids operation_count (b # bs) =
     res_ensure (cb_capability_revision b \<noteq> 0) (InvalidCapabilityRevision (cb_connection_id b))
    (res_ensure (cb_connection_id b \<notin> connection_ids) (DuplicateConnection (cb_connection_id b))
    (res_ensure (cb_operation_grants b \<noteq> []) (EmptyOperationGrants (cb_connection_id b))
    (res_bind (check_operation_grants (cb_connection_id b) {} operation_count
                 (cb_operation_grants b)) (\<lambda>count.
       check_bindings (insert (cb_connection_id b) connection_ids) count bs))))"

definition validate_connection_bindings_shape :: "connection_binding list \<Rightarrow> shape_error + unit" where
  "validate_connection_bindings_shape bindings =
     res_ensure (length bindings \<le> max_template_connection_bindings) TooManyConnections
       (check_bindings {} 0 bindings)"

section \<open>Composition\<close>

definition index_bindings :: "connection_binding list \<Rightarrow> (uuid, nat \<times> string set) btree" where
  \<comment> \<open>the map that three of the operations collect: a later binding of a connection wins\<close>
  "index_bindings bindings =
     bt_extend (map (\<lambda>b. (cb_connection_id b,
                          (cb_capability_revision b, granted_operation_ids b))) bindings) []"

definition intersect_binding ::
    "(uuid, nat \<times> string set) btree \<Rightarrow> connection_binding \<Rightarrow> connection_binding option" where
  "intersect_binding requested b =
     Option.bind (bt_get requested (cb_connection_id b)) (\<lambda>(requested_revision, requested_operations).
       if cb_capability_revision b \<noteq> requested_revision then None
       else
         (let operation_grants =
                filter (\<lambda>g. og_operation_id g \<in> requested_operations) (cb_operation_grants b)
          in if operation_grants = [] then None
             else Some \<lparr>cb_connection_id = cb_connection_id b,
                        cb_capability_revision = cb_capability_revision b,
                        cb_operation_grants = operation_grants\<rparr>))"

definition intersect_connection_bindings ::
    "connection_binding list \<Rightarrow> connection_binding list \<Rightarrow> connection_binding list" where
  "intersect_connection_bindings boundary requested =
     List.map_filter (intersect_binding (index_bindings requested)) boundary"

definition connection_bindings_are_subset ::
    "connection_binding list \<Rightarrow> connection_binding list \<Rightarrow> bool" where
  "connection_bindings_are_subset candidate boundary \<longleftrightarrow>
     list_all (\<lambda>b.
       case bt_get (index_bindings boundary) (cb_connection_id b) of
         None \<Rightarrow> False
       | Some (revision, allowed) \<Rightarrow>
           cb_capability_revision b = revision
           \<and> list_all (\<lambda>g. og_operation_id g \<in> allowed) (cb_operation_grants b)) candidate"

definition resolved_bindings_match :: "connection_binding list \<Rightarrow> resolved_binding list \<Rightarrow> bool" where
  "resolved_bindings_match expected resolved \<longleftrightarrow>
     length expected = length resolved
     \<and> (let index = bt_extend (map (\<lambda>r. (cb_connection_id (rb_binding r), r)) resolved) [] in
        list_all (\<lambda>b.
          case bt_get index (cb_connection_id b) of
            None \<Rightarrow> False
          | Some candidate \<Rightarrow>
              rb_binding candidate = b
              \<and> length (rb_operations candidate) = card (granted_operation_ids b)
              \<and> list_all (\<lambda>(operation_id, operation).
                    operation_id \<in> granted_operation_ids b
                    \<and> co_connection_id operation = cb_connection_id b
                    \<and> co_capability_revision operation = cb_capability_revision b
                    \<and> co_operation_id operation = operation_id) (rb_operations candidate))
          expected)"

definition operation_changes ::
    "uuid \<Rightarrow> grant_change_kind \<Rightarrow> string set \<Rightarrow> connection_grant_change list" where
  "operation_changes connection_id kind operations =
     map (\<lambda>operation_id. \<lparr>gc_connection_id = connection_id, gc_operation_id = Some operation_id,
                          gc_kind = kind\<rparr>) (sorted_list_of_set operations)"

definition connection_change :: "uuid \<Rightarrow> grant_change_kind \<Rightarrow> connection_grant_change" where
  "connection_change connection_id kind =
     \<lparr>gc_connection_id = connection_id, gc_operation_id = None, gc_kind = kind\<rparr>"

definition entry_changes ::
    "(uuid, nat \<times> string set) btree \<Rightarrow> uuid \<times> nat \<times> string set \<Rightarrow> connection_grant_change list" where
  \<comment> \<open>the body of the last loop of \<open>diff_connection_bindings\<close>\<close>
  "entry_changes old entry =
     (case entry of (i, next_revision, next_operations) \<Rightarrow>
        (case bt_get old i of
           None \<Rightarrow> []
         | Some (previous_revision, previous_operations) \<Rightarrow>
             if previous_revision \<noteq> next_revision then
               [connection_change i GrantRemoved, connection_change i GrantAdded]
             else operation_changes i GrantAdded (next_operations - previous_operations)
                  @ operation_changes i GrantRemoved (previous_operations - next_operations)))"

definition diff_connection_bindings ::
    "connection_binding list \<Rightarrow> connection_binding list \<Rightarrow> connection_grant_change list" where
  "diff_connection_bindings previous next_bindings =
     (let old = index_bindings previous; new = index_bindings next_bindings in
        map (\<lambda>i. connection_change i GrantAdded)
            (filter (\<lambda>i. \<not> bt_contains old i) (bt_keys new))
        @ map (\<lambda>i. connection_change i GrantRemoved)
            (filter (\<lambda>i. \<not> bt_contains new i) (bt_keys old))
        @ concat (map (entry_changes old) new))"

section \<open>Names of the tools\<close>

definition slug_char :: "char \<Rightarrow> char" where
  "slug_char c = (if is_ascii_alphanumeric c then ascii_lower c else CHR ''_'')"

definition slug_chars :: "string \<Rightarrow> string" where
  \<comment> \<open>one character of the slug for each character of the name: the continuation bytes of a
    character are dropped\<close>
  "slug_chars s = map slug_char (filter (\<lambda>c. \<not> (0x80 \<le> byte c \<and> byte c < 0xC0)) s)"

lemma replace_underscores:
  "replace_str [] ''__'' ''_'' = []"
  "replace_str (CHR ''_'' # CHR ''_'' # s) ''__'' ''_'' = CHR ''_'' # replace_str s ''__'' ''_''"
  "\<not> starts_with (x # s) ''__'' \<Longrightarrow>
     replace_str (x # s) ''__'' ''_'' = x # replace_str s ''__'' ''_''"
  by (simp_all only: replace_str.simps [of "[]"] replace_str.simps [of "CHR ''_'' # CHR ''_'' # s"]
        replace_str.simps [of "x # s"])
     (simp_all add: starts_with_def)

lemma starts_with_underscoresE:
  assumes "starts_with s ''__''"
  obtains t where "s = CHR ''_'' # CHR ''_'' # t"
  using assms by (auto simp: starts_with_iff)

lemma length_replace_le: "length (replace_str s ''__'' ''_'') \<le> length s"
proof (induction s rule: length_induct)
  case (1 s)
  show ?case
  proof (cases "starts_with s ''__''")
    case True
    then obtain t where s: "s = CHR ''_'' # CHR ''_'' # t" by (rule starts_with_underscoresE)
    with 1 have "length (replace_str t ''__'' ''_'') \<le> length t" by simp
    then show ?thesis by (simp add: s replace_underscores)
  next
    case False
    with 1 show ?thesis by (cases s) (simp_all add: replace_underscores)
  qed
qed

lemma length_replace_less:
  "find_str s ''__'' \<noteq> None \<Longrightarrow> length (replace_str s ''__'' ''_'') < length s"
proof (induction s)
  case (Cons x s)
  show ?case
  proof (cases "starts_with (x # s) ''__''")
    case True
    then obtain t where s: "x # s = CHR ''_'' # CHR ''_'' # t" by (rule starts_with_underscoresE)
    then show ?thesis using length_replace_le [of t] by (auto simp: replace_underscores)
  next
    case False
    with Cons show ?thesis by (simp add: replace_underscores)
  qed
qed simp

function collapse_underscores :: "string \<Rightarrow> string" where
  "collapse_underscores s =
     (if contains_str s ''__'' then collapse_underscores (replace_str s ''__'' ''_'') else s)"
  by pat_completeness auto
termination
  by (relation "measure length") (auto simp: contains_str_def intro: length_replace_less)

declare collapse_underscores.simps [simp del]

definition trim_matches_char :: "char \<Rightarrow> string \<Rightarrow> string" where
  "trim_matches_char c s =
     rev (dropWhile (\<lambda>x. x = c) (rev (dropWhile (\<lambda>x. x = c) s)))"

definition hex_byte :: "nat \<Rightarrow> string" where
  "hex_byte b = [hex_digit (b div 16 mod 16), hex_digit (b mod 16)]"

definition connection_model_tool_name :: "(string \<Rightarrow> nat list) \<Rightarrow> uuid \<Rightarrow> string \<Rightarrow> string" where
  "connection_model_tool_name sha256 connection_id provider_tool_name =
     (let slug0 = trim_matches_char (CHR ''_'')
                    (collapse_underscores (slug_chars provider_tool_name));
          slug = take 42 (if slug0 = [] then ''operation'' else slug0);
          digest = sha256 (connection_id @ [CHR 0x00] @ provider_tool_name);
          suffix = concat (map hex_byte (take 8 digest))
      in ''mcp_'' @ slug @ ''_'' @ suffix)"

section \<open>The operations that bindings grant\<close>

definition operation_set :: "connection_binding list \<Rightarrow> (uuid \<times> nat \<times> string) set" where
  "operation_set bindings =
     {(cb_connection_id b, cb_capability_revision b, i) | b i.
        b \<in> set bindings \<and> i \<in> granted_operation_ids b}"

lemma operation_setI:
  "b \<in> set bs \<Longrightarrow> i \<in> granted_operation_ids b
    \<Longrightarrow> (cb_connection_id b, cb_capability_revision b, i) \<in> operation_set bs"
  by (auto simp: operation_set_def)

lemma finite_granted_operation_ids [simp]: "finite (granted_operation_ids b)"
  by (simp add: granted_operation_ids_def)

lemma index_bindings_inv: "bt_inv (index_bindings bs)"
  unfolding index_bindings_def by (rule bt_inv_extend) (simp add: bt_inv_def)

lemma index_bindings_get:
  assumes "bt_get (index_bindings bs) i = Some (revision, operations)"
  obtains b where "b \<in> set bs" "cb_connection_id b = i" "cb_capability_revision b = revision"
    "granted_operation_ids b = operations"
proof -
  from assms have "(i, revision, operations)
      \<in> set (map (\<lambda>b. (cb_connection_id b, cb_capability_revision b, granted_operation_ids b)) bs)"
    by (auto simp: index_bindings_def bt_get_extend split: option.splits dest!: map_of_SomeD)
  with that show thesis by auto
qed

lemma index_bindings_unique:
  assumes "distinct (map cb_connection_id bs)" "b \<in> set bs"
  shows "bt_get (index_bindings bs) (cb_connection_id b)
           = Some (cb_capability_revision b, granted_operation_ids b)"
proof -
  let ?f = "\<lambda>b. (cb_connection_id b, cb_capability_revision b, granted_operation_ids b)"
  have "distinct (map fst (rev (map ?f bs)))"
    using assms(1) by (simp add: rev_map [symmetric] comp_def)
  then have "map_of (rev (map ?f bs)) (cb_connection_id b)
      = Some (cb_capability_revision b, granted_operation_ids b)"
    using assms(2) by (intro map_of_is_SomeI) auto
  then show ?thesis by (simp add: index_bindings_def bt_get_extend)
qed

lemma intersect_binding_Some:
  "intersect_binding requested b = Some c \<longleftrightarrow>
     (\<exists>operations. bt_get requested (cb_connection_id b)
          = Some (cb_capability_revision b, operations)
        \<and> filter (\<lambda>g. og_operation_id g \<in> operations) (cb_operation_grants b) \<noteq> []
        \<and> c = b\<lparr>cb_operation_grants :=
              filter (\<lambda>g. og_operation_id g \<in> operations) (cb_operation_grants b)\<rparr>)"
  by (cases b)
     (auto simp: intersect_binding_def Let_def bind_eq_Some_conv split: prod.splits if_splits)

lemma in_intersect_connection_bindings:
  "c \<in> set (intersect_connection_bindings boundary requested) \<longleftrightarrow>
     (\<exists>b \<in> set boundary. intersect_binding (index_bindings requested) b = Some c)"
  by (auto simp: intersect_connection_bindings_def map_filter_def image_iff)

lemma intersect_binding_ids:
  assumes "intersect_binding (index_bindings requested) b = Some c"
  shows "cb_connection_id c = cb_connection_id b"
    and "cb_capability_revision c = cb_capability_revision b"
    and "granted_operation_ids c \<subseteq> granted_operation_ids b"
    and "granted_operation_ids c \<noteq> {}"
    and "\<exists>r \<in> set requested. cb_connection_id r = cb_connection_id b
           \<and> cb_capability_revision r = cb_capability_revision b
           \<and> granted_operation_ids c \<subseteq> granted_operation_ids r"
  using assms
  by (auto simp: intersect_binding_Some granted_operation_ids_def filter_empty_conv
        elim!: index_bindings_get)

lemma operation_set_intersect_subset:
  "operation_set (intersect_connection_bindings boundary requested)
     \<subseteq> operation_set boundary \<inter> operation_set requested"
proof
  fix x assume "x \<in> operation_set (intersect_connection_bindings boundary requested)"
  then obtain c i b where x: "x = (cb_connection_id c, cb_capability_revision c, i)"
      "i \<in> granted_operation_ids c"
    and b: "b \<in> set boundary" "intersect_binding (index_bindings requested) b = Some c"
    by (auto simp: operation_set_def in_intersect_connection_bindings)
  from intersect_binding_ids [OF b(2)] x b(1)
  show "x \<in> operation_set boundary \<inter> operation_set requested"
    by (auto simp: operation_set_def) (metis subsetD)+
qed

lemma operation_set_intersect:
  assumes "distinct (map cb_connection_id requested)"
  shows "operation_set (intersect_connection_bindings boundary requested)
           = operation_set boundary \<inter> operation_set requested"
proof (intro equalityI operation_set_intersect_subset subsetI)
  fix x assume "x \<in> operation_set boundary \<inter> operation_set requested"
  then obtain b r i where x: "x = (cb_connection_id b, cb_capability_revision b, i)"
      "i \<in> granted_operation_ids b" "i \<in> granted_operation_ids r"
    and b: "b \<in> set boundary" and r: "r \<in> set requested" "cb_connection_id r = cb_connection_id b"
      "cb_capability_revision r = cb_capability_revision b"
    by (auto simp: operation_set_def) metis
  let ?gs = "filter (\<lambda>g. og_operation_id g \<in> granted_operation_ids r) (cb_operation_grants b)"
  have "i \<in> og_operation_id ` set ?gs" using x by (auto simp: granted_operation_ids_def)
  moreover from this have "?gs \<noteq> []" by force
  ultimately have "intersect_binding (index_bindings requested) b
      = Some (b\<lparr>cb_operation_grants := ?gs\<rparr>)"
    using index_bindings_unique [OF assms r(1)] r(2,3) by (auto simp: intersect_binding_Some)
  with b have "b\<lparr>cb_operation_grants := ?gs\<rparr>
      \<in> set (intersect_connection_bindings boundary requested)"
    by (auto simp: in_intersect_connection_bindings)
  from operation_setI [OF this, of i] \<open>i \<in> og_operation_id ` set ?gs\<close> x(1)
  show "x \<in> operation_set (intersect_connection_bindings boundary requested)"
    by (simp add: granted_operation_ids_def)
qed

lemma connection_bindings_are_subset_iff:
  assumes "distinct (map cb_connection_id boundary)"
    and "\<forall>b \<in> set candidate. granted_operation_ids b \<noteq> {}"
  shows "connection_bindings_are_subset candidate boundary
           \<longleftrightarrow> operation_set candidate \<subseteq> operation_set boundary"
proof
  assume L: "connection_bindings_are_subset candidate boundary"
  show "operation_set candidate \<subseteq> operation_set boundary"
  proof
    fix x assume "x \<in> operation_set candidate"
    then obtain b i where x: "x = (cb_connection_id b, cb_capability_revision b, i)"
        "i \<in> granted_operation_ids b" and b: "b \<in> set candidate"
      by (auto simp: operation_set_def)
    from L b obtain operations where get: "bt_get (index_bindings boundary) (cb_connection_id b)
        = Some (cb_capability_revision b, operations)" and "granted_operation_ids b \<subseteq> operations"
      by (fastforce simp: connection_bindings_are_subset_def list_all_iff granted_operation_ids_def
            split: option.splits)
    with x show "x \<in> operation_set boundary"
      by (auto simp: operation_set_def elim!: index_bindings_get) (metis subsetD)
  qed
next
  assume R: "operation_set candidate \<subseteq> operation_set boundary"
  have "\<exists>r \<in> set boundary. cb_connection_id r = cb_connection_id b
      \<and> cb_capability_revision r = cb_capability_revision b
      \<and> granted_operation_ids b \<subseteq> granted_operation_ids r" if b: "b \<in> set candidate" for b
  proof -
    have each: "\<exists>r \<in> set boundary. cb_connection_id r = cb_connection_id b
        \<and> cb_capability_revision r = cb_capability_revision b \<and> i \<in> granted_operation_ids r"
      if "i \<in> granted_operation_ids b" for i
      using R b that by (force simp: operation_set_def)
    from assms(2) b obtain i where "i \<in> granted_operation_ids b" by blast
    with each obtain r where r: "r \<in> set boundary" "cb_connection_id r = cb_connection_id b"
        "cb_capability_revision r = cb_capability_revision b" by blast
    have "r' = r" if "r' \<in> set boundary" "cb_connection_id r' = cb_connection_id b" for r'
      using assms(1) r that by (auto simp: distinct_map inj_on_def)
    with each r show ?thesis by blast
  qed
  then show "connection_bindings_are_subset candidate boundary"
    unfolding connection_bindings_are_subset_def list_all_iff
    using index_bindings_unique [OF assms(1)]
    by (fastforce simp: granted_operation_ids_def)
qed

section \<open>Well-formed bindings\<close>

definition valid_operation_id :: "string \<Rightarrow> bool" where
  "valid_operation_id i \<longleftrightarrow> i \<noteq> [] \<and> char_count i \<le> 512 \<and> trim i = i"

definition well_formed_binding :: "connection_binding \<Rightarrow> bool" where
  "well_formed_binding b \<longleftrightarrow>
     cb_capability_revision b \<noteq> 0 \<and> cb_operation_grants b \<noteq> []
     \<and> distinct (map og_operation_id (cb_operation_grants b))
     \<and> (\<forall>i \<in> granted_operation_ids b. valid_operation_id i)"

definition well_formed_bindings :: "connection_binding list \<Rightarrow> bool" where
  "well_formed_bindings bs \<longleftrightarrow>
     length bs \<le> max_template_connection_bindings
     \<and> sum_list (map (length \<circ> cb_operation_grants) bs) \<le> max_template_operation_grants
     \<and> distinct (map cb_connection_id bs) \<and> (\<forall>b \<in> set bs. well_formed_binding b)"

lemma check_operation_grants_Inr:
  "n \<le> max_template_operation_grants \<Longrightarrow>
   check_operation_grants c ids n gs = Inr m \<longleftrightarrow>
     m = n + length gs \<and> m \<le> max_template_operation_grants
     \<and> distinct (map og_operation_id gs) \<and> ids \<inter> og_operation_id ` set gs = {}
     \<and> (\<forall>g \<in> set gs. valid_operation_id (og_operation_id g))"
proof (induction gs arbitrary: ids n)
  case (Cons g gs)
  show ?case
  proof (cases "n + 1 \<le> max_template_operation_grants")
    case True
    have "check_operation_grants c ids n (g # gs) = Inr m \<longleftrightarrow>
        valid_operation_id (og_operation_id g) \<and> og_operation_id g \<notin> ids
        \<and> check_operation_grants c (insert (og_operation_id g) ids) (n + 1) gs = Inr m"
      using True by (auto simp: res_Inr_iffs Let_def valid_operation_id_def)
    also have "\<dots> \<longleftrightarrow> valid_operation_id (og_operation_id g) \<and> og_operation_id g \<notin> ids
        \<and> m = n + 1 + length gs \<and> m \<le> max_template_operation_grants
        \<and> distinct (map og_operation_id gs)
        \<and> insert (og_operation_id g) ids \<inter> og_operation_id ` set gs = {}
        \<and> (\<forall>g \<in> set gs. valid_operation_id (og_operation_id g))"
      by (subst Cons.IH [OF True]) blast
    finally show ?thesis by auto
  next
    case False
    then show ?thesis by (auto simp: res_Inr_iffs)
  qed
qed auto

lemma check_bindings_Inr:
  "n \<le> max_template_operation_grants \<Longrightarrow>
   check_bindings ids n bs = Inr () \<longleftrightarrow>
     n + sum_list (map (length \<circ> cb_operation_grants) bs) \<le> max_template_operation_grants
     \<and> distinct (map cb_connection_id bs) \<and> ids \<inter> cb_connection_id ` set bs = {}
     \<and> (\<forall>b \<in> set bs. well_formed_binding b)"
proof (induction bs arbitrary: ids n)
  case (Cons b bs)
  show ?case
  proof (cases "n + length (cb_operation_grants b) \<le> max_template_operation_grants")
    case True
    with Cons.IH [OF this] Cons.prems show ?thesis
      by (auto simp: res_Inr_iffs check_operation_grants_Inr well_formed_binding_def
            granted_operation_ids_def add.assoc)
  next
    case False
    with Cons.prems show ?thesis
      by (auto simp: res_Inr_iffs check_operation_grants_Inr)
  qed
qed auto

lemma validate_shape_iff:
  "validate_connection_bindings_shape bs = Inr () \<longleftrightarrow> well_formed_bindings bs"
  by (auto simp: validate_connection_bindings_shape_def res_Inr_iffs check_bindings_Inr
        well_formed_bindings_def)

lemma intersect_connection_bindings_Nil [simp]: "intersect_connection_bindings [] requested = []"
  by (simp add: intersect_connection_bindings_def map_filter_def)

lemma intersect_connection_bindings_Cons:
  "intersect_connection_bindings (b # bs) requested =
     (case intersect_binding (index_bindings requested) b of
        None \<Rightarrow> intersect_connection_bindings bs requested
      | Some c \<Rightarrow> c # intersect_connection_bindings bs requested)"
  by (simp add: intersect_connection_bindings_def map_filter_def split: option.splits)

lemma length_intersect_connection_bindings:
  "length (intersect_connection_bindings bs requested) \<le> length bs"
  by (induction bs) (auto simp: intersect_connection_bindings_Cons split: option.splits)

lemma operations_intersect_connection_bindings:
  "sum_list (map (length \<circ> cb_operation_grants) (intersect_connection_bindings bs requested))
     \<le> sum_list (map (length \<circ> cb_operation_grants) bs)"
proof (induction bs)
  case (Cons b bs)
  have "length (cb_operation_grants c) \<le> length (cb_operation_grants b)"
    if "intersect_binding (index_bindings requested) b = Some c" for c
    using that by (auto simp: intersect_binding_Some)
  with Cons show ?case
    by (fastforce simp: intersect_connection_bindings_Cons split: option.splits)
qed simp

lemma distinct_intersect_connection_bindings:
  "distinct (map cb_connection_id bs)
    \<Longrightarrow> distinct (map cb_connection_id (intersect_connection_bindings bs requested))"
proof (induction bs)
  case (Cons b bs)
  have "cb_connection_id c \<noteq> cb_connection_id c'"
    if "intersect_binding (index_bindings requested) b = Some c"
      "c' \<in> set (intersect_connection_bindings bs requested)" for c c'
    using that Cons.prems intersect_binding_ids(1) [of requested]
    by (auto simp: in_intersect_connection_bindings)
  with Cons show ?case
    by (fastforce simp: intersect_connection_bindings_Cons split: option.splits)
qed simp

lemma well_formed_intersect_binding:
  assumes "well_formed_binding b" "intersect_binding requested b = Some c"
  shows "well_formed_binding c"
proof -
  from assms(2) obtain operations where c: "c = b\<lparr>cb_operation_grants :=
        filter (\<lambda>g. og_operation_id g \<in> operations) (cb_operation_grants b)\<rparr>"
      "cb_operation_grants c \<noteq> []"
    by (auto simp: intersect_binding_Some)
  with assms(1) show ?thesis
    by (auto simp: well_formed_binding_def granted_operation_ids_def distinct_map_filter)
qed

lemma well_formed_intersect:
  assumes "well_formed_bindings bs"
  shows "well_formed_bindings (intersect_connection_bindings bs requested)"
proof -
  have "well_formed_binding c" if c: "c \<in> set (intersect_connection_bindings bs requested)" for c
  proof -
    from c obtain b where b: "b \<in> set bs" "intersect_binding (index_bindings requested) b = Some c"
      by (auto simp: in_intersect_connection_bindings)
    have "well_formed_binding b" using assms b(1) by (simp add: well_formed_bindings_def)
    then show ?thesis by (rule well_formed_intersect_binding [OF _ b(2)])
  qed
  with assms show ?thesis
    using length_intersect_connection_bindings [of bs requested]
      operations_intersect_connection_bindings [of bs requested]
      distinct_intersect_connection_bindings [of bs requested]
    by (simp add: well_formed_bindings_def)
qed

lemma well_formed_operations: "well_formed_bindings bs \<Longrightarrow> b \<in> set bs \<Longrightarrow> granted_operation_ids b \<noteq> {}"
  by (auto simp: well_formed_bindings_def well_formed_binding_def granted_operation_ids_def)

lemma intersect_connection_bindings_subset:
  assumes "well_formed_bindings boundary"
  shows "connection_bindings_are_subset (intersect_connection_bindings boundary requested) boundary"
  using assms well_formed_operations [OF well_formed_intersect [OF assms]]
    operation_set_intersect_subset [of boundary requested]
  by (subst connection_bindings_are_subset_iff) (auto simp: well_formed_bindings_def)

section \<open>Changes of the grants\<close>

lemma bt_contains_get: "bt_contains m k \<longleftrightarrow> (\<exists>v. bt_get m k = Some v)"
  by (auto simp: bt_contains_def)

lemma bt_get_in_set: "bt_get m k = Some v \<Longrightarrow> (k, v) \<in> set m"
  by (auto simp: bt_get_map_of dest: map_of_SomeD)

lemma diff_entry:
  "entry \<in> set (index_bindings new_bindings)
    \<Longrightarrow> change \<in> set (entry_changes (index_bindings old_bindings) entry)
    \<Longrightarrow> change \<in> set (diff_connection_bindings old_bindings new_bindings)"
  unfolding diff_connection_bindings_def Let_def set_append set_concat set_map by blast

lemma added_grant_is_reported:
  assumes "x \<in> operation_set new_bindings" "x \<notin> operation_set old_bindings"
    and "distinct (map cb_connection_id new_bindings)"
  shows "\<exists>change \<in> set (diff_connection_bindings old_bindings new_bindings).
           gc_kind change = GrantAdded \<and> gc_connection_id change = fst x"
proof -
  from assms(1) obtain b i where x: "x = (cb_connection_id b, cb_capability_revision b, i)"
    and b: "b \<in> set new_bindings" and i: "i \<in> granted_operation_ids b"
    by (auto simp: operation_set_def)
  let ?c = "cb_connection_id b"
  have new: "bt_get (index_bindings new_bindings) ?c
      = Some (cb_capability_revision b, granted_operation_ids b)"
    by (rule index_bindings_unique [OF assms(3) b])
  note entry = bt_get_in_set [OF new]
  consider (absent) "bt_get (index_bindings old_bindings) ?c = None"
    | (revised) revision operations where
        "bt_get (index_bindings old_bindings) ?c = Some (revision, operations)"
        "revision \<noteq> cb_capability_revision b"
    | (extended) operations where
        "bt_get (index_bindings old_bindings) ?c = Some (cb_capability_revision b, operations)"
    by (metis option.exhaust prod.exhaust)
  then show ?thesis
  proof cases
    case absent
    then have "?c \<in> {i \<in> fst ` set (index_bindings new_bindings).
        \<not> bt_contains (index_bindings old_bindings) i}"
      using entry by (force simp: bt_contains_def)
    then have "connection_change ?c GrantAdded
        \<in> set (diff_connection_bindings old_bindings new_bindings)"
      unfolding diff_connection_bindings_def Let_def bt_keys_def by simp
    then show ?thesis by (intro bexI) (simp_all add: connection_change_def x)
  next
    case revised
    then have "connection_change ?c GrantAdded \<in> set (entry_changes (index_bindings old_bindings)
        (?c, cb_capability_revision b, granted_operation_ids b))"
      by (simp add: entry_changes_def)
    from diff_entry [OF entry this] show ?thesis
      by (intro bexI) (simp_all add: connection_change_def x)
  next
    case extended
    then obtain old where "old \<in> set old_bindings" "cb_connection_id old = ?c"
        "cb_capability_revision old = cb_capability_revision b" "granted_operation_ids old = operations"
      by (rule index_bindings_get)
    with assms(2) x have "i \<notin> operations"
      using operation_setI [of old old_bindings i] by auto
    with i extended
    have "\<lparr>gc_connection_id = ?c, gc_operation_id = Some i, gc_kind = GrantAdded\<rparr>
        \<in> set (entry_changes (index_bindings old_bindings)
            (?c, cb_capability_revision b, granted_operation_ids b))"
      by (simp add: entry_changes_def operation_changes_def)
    from diff_entry [OF entry this] show ?thesis by (intro bexI) (simp_all add: x)
  qed
qed

section \<open>The shape of a tool name\<close>

definition tool_name_char :: "char \<Rightarrow> bool" where
  "tool_name_char c \<longleftrightarrow>
     is_ascii_digit c \<or> (97 \<le> byte c \<and> byte c \<le> 122) \<or> c = CHR ''_''"

lemma set_replace_underscores:
  "set (replace_str s ''__'' ''_'') \<subseteq> set s"
proof (induction s rule: length_induct)
  case (1 s)
  show ?case
  proof (cases "starts_with s ''__''")
    case True
    then obtain t where s: "s = CHR ''_'' # CHR ''_'' # t" by (rule starts_with_underscoresE)
    with 1 have "set (replace_str t ''__'' ''_'') \<subseteq> set t" by simp
    then show ?thesis by (auto simp: s replace_underscores)
  next
    case False
    with 1 show ?thesis by (cases s) (auto simp: replace_underscores)
  qed
qed

lemma set_collapse_underscores: "set (collapse_underscores s) \<subseteq> set s"
proof (induction s rule: collapse_underscores.induct)
  case (1 s)
  with set_replace_underscores [of s] show ?case
    by (subst collapse_underscores.simps) auto
qed

lemma set_trim_matches_char: "set (trim_matches_char c s) \<subseteq> set s"
  by (auto simp: trim_matches_char_def dest!: set_dropWhileD)

lemma slug_char_ok: "tool_name_char (slug_char c)"
  by (auto simp: slug_char_def tool_name_char_def is_ascii_alphanumeric_def is_ascii_digit_def
        byte_ascii_lower)

lemma hex_digit_ok:
  assumes "n < 16"
  shows "tool_name_char (hex_digit n)"
  using assms by (auto simp: hex_digit_def tool_name_char_def is_ascii_digit_def)

lemma hex_byte_ok: "c \<in> set (hex_byte b) \<Longrightarrow> tool_name_char c"
  by (auto simp: hex_byte_def intro: hex_digit_ok)

lemma length_hex_bytes: "length (concat (map hex_byte bs)) = 2 * length bs"
  by (induction bs) (simp_all add: hex_byte_def)

section \<open>Properties\<close>

text \<open>
  Composing connection grants only narrows them.  For bindings that the shape check accepts,
  the intersection grants exactly the operations that both sides grant at the same capability
  revision, it is again a list of bindings that the shape check accepts, and the subset test admits
  it within each side.
\<close>
theorem connection_grants_only_narrow:
  assumes "validate_connection_bindings_shape boundary = Inr ()"
    and "validate_connection_bindings_shape requested = Inr ()"
  shows "operation_set (intersect_connection_bindings boundary requested)
           = operation_set boundary \<inter> operation_set requested
    \<and> validate_connection_bindings_shape (intersect_connection_bindings boundary requested) = Inr ()
    \<and> connection_bindings_are_subset (intersect_connection_bindings boundary requested) boundary
    \<and> connection_bindings_are_subset (intersect_connection_bindings boundary requested) requested"
proof -
  have wf: "well_formed_bindings boundary" "well_formed_bindings requested"
    using assms by (simp_all add: validate_shape_iff)
  have distinct: "distinct (map cb_connection_id requested)"
    using wf(2) by (simp add: well_formed_bindings_def)
  have nonempty: "\<forall>b \<in> set (intersect_connection_bindings boundary requested).
      granted_operation_ids b \<noteq> {}"
    using well_formed_operations [OF well_formed_intersect [OF wf(1)]] by blast
  show ?thesis
    using operation_set_intersect [OF distinct, of boundary] well_formed_intersect [OF wf(1)]
      intersect_connection_bindings_subset [OF wf(1)]
      connection_bindings_are_subset_iff [OF distinct nonempty]
    by (simp add: validate_shape_iff)
qed

theorem connection_grants_only_narrow_witness:
  "intersect_connection_bindings
      [\<lparr>cb_connection_id = ''c'', cb_capability_revision = 1,
        cb_operation_grants = [\<lparr>og_operation_id = ''read''\<rparr>, \<lparr>og_operation_id = ''write''\<rparr>]\<rparr>]
      [\<lparr>cb_connection_id = ''c'', cb_capability_revision = 1,
        cb_operation_grants = [\<lparr>og_operation_id = ''read''\<rparr>]\<rparr>]
     = [\<lparr>cb_connection_id = ''c'', cb_capability_revision = 1,
        cb_operation_grants = [\<lparr>og_operation_id = ''read''\<rparr>]\<rparr>]
   \<and> connection_bindings_are_subset
      (intersect_connection_bindings
        [\<lparr>cb_connection_id = ''c'', cb_capability_revision = 1,
          cb_operation_grants = [\<lparr>og_operation_id = ''read''\<rparr>, \<lparr>og_operation_id = ''write''\<rparr>]\<rparr>]
        [\<lparr>cb_connection_id = ''c'', cb_capability_revision = 1,
          cb_operation_grants = [\<lparr>og_operation_id = ''read''\<rparr>]\<rparr>])
      [\<lparr>cb_connection_id = ''c'', cb_capability_revision = 1,
        cb_operation_grants = [\<lparr>og_operation_id = ''read''\<rparr>]\<rparr>]"
proof (intro conjI)
  let ?b = "[\<lparr>cb_connection_id = ''c'', cb_capability_revision = 1,
          cb_operation_grants = [\<lparr>og_operation_id = ''read''\<rparr>, \<lparr>og_operation_id = ''write''\<rparr>]\<rparr>]"
  let ?r = "[\<lparr>cb_connection_id = ''c'', cb_capability_revision = 1,
          cb_operation_grants = [\<lparr>og_operation_id = ''read''\<rparr>]\<rparr>]"
  have "validate_connection_bindings_shape ?b = Inr ()" by code_simp
  moreover have "validate_connection_bindings_shape ?r = Inr ()" by code_simp
  ultimately show "connection_bindings_are_subset (intersect_connection_bindings ?b ?r) ?r"
    using connection_grants_only_narrow by blast
  show "intersect_connection_bindings ?b ?r = ?r" by code_simp
qed

text \<open>
  The name under which a connection operation is shown to the model is safe for every provider:
  it has at most 63 characters, each a lower-case letter, a digit or an underscore, whatever the
  name of the tool is at the provider.
\<close>
theorem connection_tool_name_is_safe:
  "length (connection_model_tool_name sha256 connection_id provider_tool_name) \<le> 63
   \<and> list_all tool_name_char (connection_model_tool_name sha256 connection_id provider_tool_name)"
proof -
  let ?raw = "trim_matches_char (CHR ''_'') (collapse_underscores (slug_chars provider_tool_name))"
  let ?slug = "take 42 (if ?raw = [] then ''operation'' else ?raw)"
  let ?bytes = "take 8 (sha256 (connection_id @ [CHR 0x00] @ provider_tool_name))"
  have name: "connection_model_tool_name sha256 connection_id provider_tool_name
      = ''mcp_'' @ ?slug @ ''_'' @ concat (map hex_byte ?bytes)"
    by (simp add: connection_model_tool_name_def Let_def)
  have "tool_name_char c" if "c \<in> set ?raw" for c
  proof -
    have "c \<in> set (slug_chars provider_tool_name)"
      using that set_trim_matches_char set_collapse_underscores by blast
    then show ?thesis by (auto simp: slug_chars_def slug_char_ok)
  qed
  moreover have "tool_name_char c" if "c \<in> set ''operation''" for c
    using that by (auto simp: tool_name_char_def)
  ultimately have "tool_name_char c" if "c \<in> set ?slug" for c
    using in_set_takeD [OF that] by (simp split: if_splits)
  then have "list_all tool_name_char ?slug" by (simp add: list_all_iff)
  moreover have "list_all tool_name_char (concat (map hex_byte ?bytes))"
    by (auto simp: list_all_iff dest: hex_byte_ok)
  ultimately show ?thesis
    unfolding name by (simp add: length_hex_bytes tool_name_char_def)
qed

end
