(* ===== verification/Json_Schema.thy ===== *)
theory Json_Schema
  imports Json
begin

text \<open>
  The validator of JSON values against the supported subset of JSON Schema
  (\<open>validate_value_against_schema\<close> of \<open>enterprise.rs\<close>), which guards the state of agents and the
  output of workflows.

  An error has the path of the code and, in the place of the text of its message, the
  \<open>schema_violation\<close> that the text is formatted from.
\<close>

section \<open>Validation\<close>

datatype schema_violation =
    RejectsEveryValue
  | ExpectedType json
  | NotInEnum
  | MissingProperty string
  | AdditionalProperty string

datatype schema_error =
    InvalidSchema string
  | StateSchemaViolation string schema_violation

definition is_integer :: "json \<Rightarrow> bool" where
  \<comment> \<open>\<open>value.as_i64().is_some() || value.as_u64().is_some()\<close>\<close>
  "is_integer v = (case v of JNumber (PosInt _) \<Rightarrow> True | JNumber (NegInt _) \<Rightarrow> True | _ \<Rightarrow> False)"

definition value_matches_type :: "json \<Rightarrow> string \<Rightarrow> bool" where
  "value_matches_type v expected =
     (if expected = ''null'' then v = JNull
      else if expected = ''boolean'' then (case v of JBool _ \<Rightarrow> True | _ \<Rightarrow> False)
      else if expected = ''object'' then (case v of JObject _ \<Rightarrow> True | _ \<Rightarrow> False)
      else if expected = ''array'' then (case v of JArray _ \<Rightarrow> True | _ \<Rightarrow> False)
      else if expected = ''number'' then (case v of JNumber _ \<Rightarrow> True | _ \<Rightarrow> False)
      else if expected = ''integer'' then is_integer v
      else if expected = ''string'' then (case v of JString _ \<Rightarrow> True | _ \<Rightarrow> False)
      else False)"

definition type_matches :: "json \<Rightarrow> json \<Rightarrow> bool" where
  "type_matches v expected =
     (case expected of
        JString t \<Rightarrow> value_matches_type v t
      | JArray ts \<Rightarrow> list_ex (value_matches_type v) (List.map_filter as_str ts)
      | _ \<Rightarrow> False)"

fun check_required :: "(string \<times> json) list \<Rightarrow> string \<Rightarrow> string list \<Rightarrow> schema_error + unit" where
  "check_required m path [] = Inr ()"
| "check_required m path (field # rest) =
     res_ensure (bt_contains m field) (StateSchemaViolation path (MissingProperty field))
       (check_required m path rest)"

definition check_type :: "(string \<times> json) list \<Rightarrow> json \<Rightarrow> string \<Rightarrow> schema_error + unit" where
  "check_type schema v path =
     (case bt_get schema ''type'' of
        None \<Rightarrow> Inr ()
      | Some expected \<Rightarrow>
          res_ensure (type_matches v expected)
            (StateSchemaViolation path (ExpectedType expected)) (Inr ()))"

definition check_enum :: "(string \<times> json) list \<Rightarrow> json \<Rightarrow> string \<Rightarrow> schema_error + unit" where
  "check_enum schema v path =
     (case Option.bind (bt_get schema ''enum'') as_array of
        None \<Rightarrow> Inr ()
      | Some allowed \<Rightarrow>
          res_ensure (v \<in> set allowed) (StateSchemaViolation path NotInEnum) (Inr ()))"

definition required_fields :: "(string \<times> json) list \<Rightarrow> string list" where
  "required_fields schema =
     (case Option.bind (bt_get schema ''required'') as_array of
        None \<Rightarrow> []
      | Some fields \<Rightarrow> List.map_filter as_str fields)"

definition schema_properties :: "(string \<times> json) list \<Rightarrow> (string \<times> json) list option" where
  "schema_properties schema = Option.bind (bt_get schema ''properties'') as_object"

definition closed_schema :: "(string \<times> json) list \<Rightarrow> bool" where
  "closed_schema schema \<longleftrightarrow> bt_get schema ''additionalProperties'' = Some (JBool False)"

function (sequential) validate_value_against_schema :: "json \<Rightarrow> json \<Rightarrow> string \<Rightarrow> schema_error + unit"
  and validate_fields ::
    "(string \<times> json) list \<Rightarrow> bool \<Rightarrow> (string \<times> json) list \<Rightarrow> string \<Rightarrow> schema_error + unit"
  and validate_items :: "json \<Rightarrow> nat \<Rightarrow> json list \<Rightarrow> string \<Rightarrow> schema_error + unit" where
  "validate_value_against_schema schema v path =
     (case schema of
        JBool True \<Rightarrow> Inr ()
      | JBool False \<Rightarrow> Inl (StateSchemaViolation path RejectsEveryValue)
      | JObject s \<Rightarrow>
          res_bind (check_type s v path) (\<lambda>_.
          res_bind (check_enum s v path) (\<lambda>_.
          res_bind
            (case v of
               JObject m \<Rightarrow>
                 res_bind (check_required m path (required_fields s)) (\<lambda>_.
                   (case schema_properties s of
                      None \<Rightarrow> Inr ()
                    | Some properties \<Rightarrow> validate_fields properties (closed_schema s) m path))
             | _ \<Rightarrow> Inr ()) (\<lambda>_.
            (case bt_get s ''items'' of
               None \<Rightarrow> Inr ()
             | Some items \<Rightarrow>
                 (case v of JArray vs \<Rightarrow> validate_items items 0 vs path | _ \<Rightarrow> Inr ())))))
      | _ \<Rightarrow> Inl (InvalidSchema path))"
| "validate_fields properties closed [] path = Inr ()"
| "validate_fields properties closed ((field, v) # rest) path =
     res_bind
       (case bt_get properties field of
          Some field_schema \<Rightarrow> validate_value_against_schema field_schema v (path @ ''.'' @ field)
        | None \<Rightarrow>
            res_ensure (\<not> closed) (StateSchemaViolation path (AdditionalProperty field)) (Inr ()))
       (\<lambda>_. validate_fields properties closed rest path)"
| "validate_items items index [] path = Inr ()"
| "validate_items items index (v # rest) path =
     res_bind (validate_value_against_schema items v (path @ ''['' @ show_nat index @ '']''))
       (\<lambda>_. validate_items items (index + 1) rest path)"
  by pat_completeness auto
termination
  by (relation "measure (\<lambda>x. case x of
        Inl (schema, v, path) \<Rightarrow> size v
      | Inr (Inl (properties, closed, fields, path)) \<Rightarrow> size_list (size_prod (\<lambda>_. 0) size) fields
      | Inr (Inr (items, index, vs, path)) \<Rightarrow> size_list size vs)") auto

declare validate_value_against_schema.simps [simp del]

section \<open>What conforms to a schema\<close>

text \<open>The acceptance of the validator, without the order of its checks and without paths.\<close>

function (sequential) conforms :: "json \<Rightarrow> json \<Rightarrow> bool"
  and conforms_fields :: "(string \<times> json) list \<Rightarrow> bool \<Rightarrow> (string \<times> json) list \<Rightarrow> bool"
  and conforms_items :: "json \<Rightarrow> json list \<Rightarrow> bool" where
  "conforms schema v \<longleftrightarrow>
     (case schema of
        JBool b \<Rightarrow> b
      | JObject s \<Rightarrow>
          (\<forall>expected. bt_get s ''type'' = Some expected \<longrightarrow> type_matches v expected)
          \<and> (\<forall>allowed. bt_get s ''enum'' = Some (JArray allowed) \<longrightarrow> v \<in> set allowed)
          \<and> (case v of
               JObject m \<Rightarrow>
                 set (required_fields s) \<subseteq> fst ` set m
                 \<and> (case schema_properties s of
                      None \<Rightarrow> True
                    | Some properties \<Rightarrow> conforms_fields properties (closed_schema s) m)
             | JArray vs \<Rightarrow>
                 (case bt_get s ''items'' of None \<Rightarrow> True | Some items \<Rightarrow> conforms_items items vs)
             | _ \<Rightarrow> True)
      | _ \<Rightarrow> False)"
| "conforms_fields properties closed [] \<longleftrightarrow> True"
| "conforms_fields properties closed ((field, v) # rest) \<longleftrightarrow>
     (case bt_get properties field of Some field_schema \<Rightarrow> conforms field_schema v | None \<Rightarrow> \<not> closed)
     \<and> conforms_fields properties closed rest"
| "conforms_items items [] \<longleftrightarrow> True"
| "conforms_items items (v # rest) \<longleftrightarrow> conforms items v \<and> conforms_items items rest"
  by pat_completeness auto
termination
  by (relation "measure (\<lambda>x. case x of
        Inl (schema, v) \<Rightarrow> size v
      | Inr (Inl (properties, closed, fields)) \<Rightarrow> size_list (size_prod (\<lambda>_. 0) size) fields
      | Inr (Inr (items, vs)) \<Rightarrow> size_list size vs)") auto

declare conforms.simps [simp del]

lemma bt_contains_iff: "bt_contains m k \<longleftrightarrow> k \<in> fst ` set m"
  by (auto simp: bt_contains_def bt_get_map_of map_of_eq_None_iff)

lemma check_required_Inr:
  "check_required m path fields = Inr () \<longleftrightarrow> set fields \<subseteq> fst ` set m"
  by (induction fields) (auto simp: res_Inr_iffs bt_contains_iff)

lemma check_type_Inr:
  "check_type s v path = Inr () \<longleftrightarrow>
     (\<forall>expected. bt_get s ''type'' = Some expected \<longrightarrow> type_matches v expected)"
  by (auto simp: check_type_def res_Inr_iffs split: option.splits)

lemma check_enum_Inr:
  "check_enum s v path = Inr () \<longleftrightarrow>
     (\<forall>allowed. bt_get s ''enum'' = Some (JArray allowed) \<longrightarrow> v \<in> set allowed)"
  by (auto simp: check_enum_def res_Inr_iffs as_array_def split: option.splits bind_splits json.splits)

lemma validation_conforms:
  "validate_value_against_schema schema v path = Inr () \<longleftrightarrow> conforms schema v"
  "validate_fields properties closed fields path = Inr () \<longleftrightarrow> conforms_fields properties closed fields"
  "validate_items items index vs path = Inr () \<longleftrightarrow> conforms_items items vs"
proof (induction schema v path and properties closed fields path and items index vs path
    rule: validate_value_against_schema_validate_fields_validate_items.induct)
  case (1 schema v path)
  show ?case
  proof (cases schema)
    case (JBool b)
    then show ?thesis by (cases b) (simp_all add: validate_value_against_schema.simps conforms.simps)
  next
    case (JObject s)
    with 1 show ?thesis
      by (cases v; cases "schema_properties s"; cases "bt_get s ''items''")
         (simp_all add: validate_value_against_schema.simps [of "JObject s"]
            conforms.simps [of "JObject s"]
            res_Inr_iffs check_required_Inr check_type_Inr check_enum_Inr)
  qed (simp_all add: validate_value_against_schema.simps conforms.simps)
next
  case (3 properties closed field v rest path)
  then show ?case
    by (cases "bt_get properties field") (simp_all add: res_Inr_iffs)
qed (simp_all add: res_Inr_iffs)

lemma conforms_fields_iff:
  "conforms_fields properties closed m \<longleftrightarrow>
     (\<forall>(field, v) \<in> set m.
        case bt_get properties field of Some s \<Rightarrow> conforms s v | None \<Rightarrow> \<not> closed)"
  by (induction m) auto

lemma conforms_items_iff: "conforms_items items vs \<longleftrightarrow> (\<forall>v \<in> set vs. conforms items v)"
  by (induction vs) auto

section \<open>Properties\<close>

text \<open>
  An object that the validator accepts against an object schema has the type and the
  enumeration value the schema asks for, every required property, and each of its properties is
  accepted by the sub-schema of that name, or is one the schema leaves open; and every such object is
  accepted, at every path.
\<close>
theorem object_schema_validation:
  "validate_value_against_schema (JObject s) (JObject m) path = Inr () \<longleftrightarrow>
     (\<forall>expected. bt_get s ''type'' = Some expected \<longrightarrow> type_matches (JObject m) expected)
     \<and> (\<forall>allowed. bt_get s ''enum'' = Some (JArray allowed) \<longrightarrow> JObject m \<in> set allowed)
     \<and> set (required_fields s) \<subseteq> fst ` set m
     \<and> (\<forall>properties field v. schema_properties s = Some properties \<longrightarrow> (field, v) \<in> set m \<longrightarrow>
          (case bt_get properties field of
             Some field_schema \<Rightarrow>
               validate_value_against_schema field_schema v (path @ ''.'' @ field) = Inr ()
           | None \<Rightarrow> \<not> closed_schema s))"
  unfolding validation_conforms conforms.simps [of "JObject s"]
  by (auto simp: conforms_fields_iff split: option.splits)

theorem object_schema_validation_witness:
  "validate_value_against_schema
      (JObject [(''additionalProperties'', JBool False),
        (''properties'', JObject [(''n'', JObject [(''type'', JString ''integer'')])]),
        (''required'', JArray [JString ''n''])])
      (JObject [(''n'', JNumber (PosInt 3))]) ''$state'' = Inr ()"
  unfolding object_schema_validation
  by (simp add: required_fields_def schema_properties_def as_array_def closed_schema_def
        as_object_def as_str_def map_filter_def validation_conforms
        conforms.simps [of _ "JNumber _"] type_matches_def value_matches_type_def is_integer_def)

lemma closed_schema_without_properties:
  "validate_value_against_schema
      (JObject [(''additionalProperties'', JBool False), (''type'', JString ''object'')])
      (JObject m) path = Inr ()"
  by (simp add: validation_conforms conforms.simps type_matches_def value_matches_type_def
        required_fields_def schema_properties_def)

end
