(* ===== verification/Agent_Template.thy ===== *)
theory Agent_Template
  imports Capabilities Connection_Grants Json_Schema Fingerprint
begin

text \<open>
  Versions of agent templates: their validation, the difference between two versions and their
  publication (\<open>AgentTemplateVersionV1\<close> and \<open>AgentTemplateDiffV1\<close> of \<open>enterprise.rs\<close>).

  \<open>to_vec\<close> is the serialisation of the immutable fields of a template by \<open>serde_json::to_vec\<close>, and
  \<open>now\<close> the current time.  The sets of a template are \<open>BTreeSet\<close>s and so finite
  (\<open>finite_spec\<close>); a loop over one visits its elements in their order.
\<close>

section \<open>Templates\<close>

datatype knowledge_provider = Sag | GraphRag

record knowledge_binding =
  kb_provider :: knowledge_provider
  kb_namespaces :: "string set"

datatype risk_class = LowRisk | MediumRisk | HighRisk | CriticalRisk

record agent_budget =
  ab_max_turns :: nat
  ab_max_tool_calls :: nat
  ab_max_duration_seconds :: nat

record template_spec =
  ts_description :: string
  ts_instructions :: string
  ts_capabilities :: capability_projection
  ts_resource_grants :: "resource_grant list"
  ts_model_policy :: model_policy
  ts_state_schema :: json
  ts_output_schema :: json
  ts_allow_all_delegates :: bool
  ts_delegate_template_ids :: "string set"
  ts_budget :: agent_budget
  ts_risk_class :: risk_class
  ts_connection_bindings :: "connection_binding list"
  ts_knowledge_binding :: "knowledge_binding option"

datatype template_status = DraftTemplate | PublishedTemplate

record agent_template =
  at_schema_version :: nat
  at_template_id :: string
  at_version :: nat
  at_name :: string
  at_owner :: string
  at_spec :: template_spec
  at_status :: template_status
  at_content_hash :: string
  at_created_at :: timestamp
  at_published_at :: "timestamp option"
  at_published_by :: "string option"

datatype template_error =
    InvalidConnectionGrantShape shape_error
  | InvalidResolvedConnectionBindings
  | AmbiguousConnectionGrantPolicy
  | UnsupportedSchemaVersion nat
  | InvalidTemplateId
  | InvalidVersion
  | InvalidName
  | InvalidOwner
  | InvalidInstructions
  | InvalidDescription
  | InvalidKnowledgeNamespaceCount
  | InvalidKnowledgeNamespace string
  | GraphRagNamespacesUnsupported
  | MissingLibrarySearchCapability
  | SchemaError schema_error \<comment> \<open>\<open>InvalidSchema\<close> and \<open>StateSchemaViolation\<close>\<close>
  | AmbiguousCapabilityScope string
  | AmbiguousModelPolicy
  | AmbiguousDelegatePolicy
  | InvalidDelegateTemplateId
  | InvalidModelBinding
  | InvalidBudget
  | InvalidResourceGrant string
  | DuplicateResourceGrant string
  | VersionIsImmutable
  | ContentHashMismatch
  | OwnerApprovalRequired
  | InvalidPreviousVersion
  | CapabilityExpansionApprovalRequired
  | TemplateNotPublished
  | ParentInstanceNotActive
  | ParentTemplateMismatch
  | DelegationContextMismatch
  | DelegateTemplateDenied string
  | DelegationDepthExceeded
  | InvalidInstanceContext
  | InstanceCapabilityViolation

definition agent_schema_version :: nat where
  "agent_schema_version = 1"

definition apply_derived_capabilities :: "template_spec \<Rightarrow> template_spec" where
  "apply_derived_capabilities spec =
     (if ts_knowledge_binding spec \<noteq> None \<and> \<not> cap_allow_all_tools (ts_capabilities spec) then
        spec\<lparr>ts_capabilities := (ts_capabilities spec)
          \<lparr>cap_tools := insert ''library_search'' (cap_tools (ts_capabilities spec))\<rparr>\<rparr>
      else spec)"

section \<open>Validation\<close>

definition is_ascii_lowercase :: "char \<Rightarrow> bool" where
  "is_ascii_lowercase c \<longleftrightarrow> 97 \<le> byte c \<and> byte c \<le> 122"

definition valid_template_id :: "string \<Rightarrow> bool" where
  "valid_template_id s \<longleftrightarrow>
     s \<noteq> [] \<and> length s \<le> 120
     \<and> list_all (\<lambda>c. is_ascii_lowercase c \<or> is_ascii_digit c \<or> c \<in> set ''._-'') s"

definition valid_namespace :: "string \<Rightarrow> bool" where
  "valid_namespace s \<longleftrightarrow>
     s \<noteq> [] \<and> length s \<le> 120
     \<and> list_all (\<lambda>c. is_ascii_lowercase c \<or> is_ascii_digit c \<or> c \<in> set ''._-/'') s"

definition validate_knowledge_binding_shape ::
    "knowledge_binding option \<Rightarrow> capability_projection \<Rightarrow> template_error + unit" where
  "validate_knowledge_binding_shape binding capabilities =
     (case binding of
        None \<Rightarrow> Inr ()
      | Some b \<Rightarrow>
          res_bind
            (case kb_provider b of
               Sag \<Rightarrow> res_ensure (\<not> (kb_namespaces b = {} \<or> 12 < card (kb_namespaces b)))
                        InvalidKnowledgeNamespaceCount (Inr ())
             | GraphRag \<Rightarrow> res_ensure (kb_namespaces b = {}) GraphRagNamespacesUnsupported (Inr ()))
            (\<lambda>_. case find (\<lambda>n. \<not> valid_namespace n) (sorted_list_of_set (kb_namespaces b)) of
               Some n \<Rightarrow> Inl (InvalidKnowledgeNamespace n)
             | None \<Rightarrow>
                 res_ensure (allows_tool capabilities ''library_search'')
                   MissingLibrarySearchCapability (Inr ())))"

definition validate_schema_shape :: "json \<Rightarrow> string \<Rightarrow> template_error + unit" where
  "validate_schema_shape schema field =
     (case schema of
        JObject _ \<Rightarrow> Inr ()
      | JBool _ \<Rightarrow> Inr ()
      | _ \<Rightarrow> Inl (SchemaError (InvalidSchema field)))"

definition validate_projection_shape :: "capability_projection \<Rightarrow> template_error + unit" where
  "validate_projection_shape c =
     (let scopes =
            [(cap_allow_all_tools c, cap_tools c \<noteq> {}, ''tools''),
             (cap_allow_all_skills c, cap_skills c \<noteq> {}, ''skills''),
             (cap_allow_all_plugins c, cap_plugins c \<noteq> {}, ''plugins''),
             (cap_allow_all_mcp_servers c, cap_mcp_servers c \<noteq> {}, ''mcpServers''),
             (cap_allow_all_workspace_roots c, cap_workspace_roots c \<noteq> {}, ''workspaceRoots'')]
      in case find (\<lambda>(allow_all, has_entries, _). allow_all \<and> has_entries) scopes of
           Some (_, _, name) \<Rightarrow> Inl (AmbiguousCapabilityScope name)
         | None \<Rightarrow> Inr ())"

definition validate_model_policy_shape :: "model_policy \<Rightarrow> template_error + unit" where
  "validate_model_policy_shape p =
     (if mp_allow_all_models p \<and> mp_allowed_models p \<noteq> {} then Inl AmbiguousModelPolicy
      else Inr ())"

fun check_resource_grants :: "string set \<Rightarrow> resource_grant list \<Rightarrow> template_error + unit" where
  "check_resource_grants binding_ids [] = Inr ()"
| "check_resource_grants binding_ids (g # gs) =
     res_ensure (\<not> (trim (rg_binding_id g) = [] \<or> trim (rg_resource g) = []))
       (InvalidResourceGrant (rg_binding_id g))
    (res_ensure (rg_can_read g \<or> rg_can_write g) (InvalidResourceGrant (rg_binding_id g))
    (res_ensure (rg_binding_id g \<notin> binding_ids) (DuplicateResourceGrant (rg_binding_id g))
       (check_resource_grants (insert (rg_binding_id g) binding_ids) gs)))"

definition validate_template :: "agent_template \<Rightarrow> template_error + unit" where
  "validate_template t =
     (let spec = at_spec t; capabilities = ts_capabilities spec in
      res_ensure (at_schema_version t = agent_schema_version)
        (UnsupportedSchemaVersion (at_schema_version t))
     (res_ensure (valid_template_id (at_template_id t)) InvalidTemplateId
     (res_ensure (at_version t \<noteq> 0) InvalidVersion
     (res_ensure (\<not> (trim (at_name t) = [] \<or> 120 < char_count (at_name t))) InvalidName
     (res_ensure (\<not> (trim (at_owner t) = [] \<or> 160 < char_count (at_owner t))) InvalidOwner
     (res_ensure (\<not> (trim (ts_instructions spec) = []
                     \<or> 40000 < char_count (ts_instructions spec))) InvalidInstructions
     (res_ensure (char_count (ts_description spec) \<le> 4000) InvalidDescription
     (res_bind (validate_projection_shape capabilities) (\<lambda>_.
      res_bind (map_err InvalidConnectionGrantShape
        (validate_connection_bindings_shape (ts_connection_bindings spec))) (\<lambda>_.
      res_bind (validate_knowledge_binding_shape (ts_knowledge_binding spec) capabilities) (\<lambda>_.
      res_ensure (\<not> (ts_connection_bindings spec \<noteq> []
                     \<and> (cap_allow_all_mcp_servers capabilities \<or> cap_mcp_servers capabilities \<noteq> {})))
        AmbiguousConnectionGrantPolicy
     (res_bind (validate_model_policy_shape (ts_model_policy spec)) (\<lambda>_.
      res_bind (validate_schema_shape (ts_state_schema spec) ''stateSchema'') (\<lambda>_.
      res_bind (validate_schema_shape (ts_output_schema spec) ''outputSchema'') (\<lambda>_.
      res_ensure (\<not> (ts_allow_all_delegates spec \<and> ts_delegate_template_ids spec \<noteq> {}))
        AmbiguousDelegatePolicy
     (res_ensure (\<forall>i \<in> ts_delegate_template_ids spec. valid_template_id i) InvalidDelegateTemplateId
     (res_ensure (\<forall>b \<in> mp_allowed_models (ts_model_policy spec).
                    \<not> (trim (mb_provider_id b) = [] \<or> trim (mb_model_id b) = [])) InvalidModelBinding
     (res_ensure (\<not> (ab_max_turns (ts_budget spec) = 0 \<or> ab_max_tool_calls (ts_budget spec) = 0
                     \<or> ab_max_duration_seconds (ts_budget spec) = 0)) InvalidBudget
        (check_resource_grants {} (ts_resource_grants spec))))))))))))))))))))"

section \<open>Differences between two versions\<close>

datatype change_kind = Added | Removed | Expanded | Reduced

record capability_change =
  cc_scope :: string
  cc_value :: string
  cc_kind :: change_kind

record template_diff =
  td_from_version :: "nat option"
  td_to_version :: nat
  td_changes :: "capability_change list"
  td_widens_capabilities :: bool

definition change :: "string \<Rightarrow> string \<Rightarrow> change_kind \<Rightarrow> capability_change" where
  "change name entry kind = \<lparr>cc_scope = name, cc_value = entry, cc_kind = kind\<rparr>"

definition diff_scope ::
    "string \<Rightarrow> bool \<Rightarrow> string set \<Rightarrow> bool \<Rightarrow> string set \<Rightarrow> capability_change list" where
  "diff_scope name old_all old new_all new =
     (if old_all \<noteq> new_all then [change name ''*'' (if new_all then Expanded else Reduced)]
      else map (\<lambda>x. change name x Added) (sorted_list_of_set (new - old))
           @ map (\<lambda>x. change name x Removed) (sorted_list_of_set (old - new)))"

definition add_scope :: "string \<Rightarrow> bool \<Rightarrow> string set \<Rightarrow> capability_change list" where
  "add_scope name allow_all entries =
     (if allow_all then [change name ''*'' Expanded]
      else map (\<lambda>x. change name x Added) (sorted_list_of_set entries))"

definition displayed_roots :: "filesystem \<Rightarrow> capability_projection \<Rightarrow> string set" where
  "displayed_roots fs c =
     (\<lambda>p. path_to_string (workspace_root_identity fs p)) ` cap_workspace_roots c"

definition diff_projection ::
    "filesystem \<Rightarrow> capability_projection \<Rightarrow> capability_projection \<Rightarrow> capability_change list" where
  "diff_projection fs old new =
     diff_scope ''tool'' (cap_allow_all_tools old) (cap_tools old)
       (cap_allow_all_tools new) (cap_tools new)
     @ diff_scope ''skill'' (cap_allow_all_skills old) (cap_skills old)
       (cap_allow_all_skills new) (cap_skills new)
     @ diff_scope ''plugin'' (cap_allow_all_plugins old) (cap_plugins old)
       (cap_allow_all_plugins new) (cap_plugins new)
     @ diff_scope ''mcp_server'' (cap_allow_all_mcp_servers old) (cap_mcp_servers old)
       (cap_allow_all_mcp_servers new) (cap_mcp_servers new)
     @ diff_scope ''workspace_root'' (cap_allow_all_workspace_roots old) (displayed_roots fs old)
       (cap_allow_all_workspace_roots new) (displayed_roots fs new)"

definition projection_additions :: "filesystem \<Rightarrow> capability_projection \<Rightarrow> capability_change list" where
  "projection_additions fs c =
     add_scope ''tool'' (cap_allow_all_tools c) (cap_tools c)
     @ add_scope ''skill'' (cap_allow_all_skills c) (cap_skills c)
     @ add_scope ''plugin'' (cap_allow_all_plugins c) (cap_plugins c)
     @ add_scope ''mcp_server'' (cap_allow_all_mcp_servers c) (cap_mcp_servers c)
     @ add_scope ''workspace_root'' (cap_allow_all_workspace_roots c) (displayed_roots fs c)"

definition model_label :: "model_binding \<Rightarrow> string" where
  "model_label b = mb_provider_id b @ '':'' @ mb_model_id b"

definition diff_models :: "model_policy \<Rightarrow> model_policy \<Rightarrow> capability_change list" where
  "diff_models old new =
     diff_scope ''model'' (mp_allow_all_models old) (model_label ` mp_allowed_models old)
       (mp_allow_all_models new) (model_label ` mp_allowed_models new)"

definition model_additions :: "model_policy \<Rightarrow> capability_change list" where
  "model_additions p =
     add_scope ''model'' (mp_allow_all_models p) (model_label ` mp_allowed_models p)"

definition grant_expanded :: "resource_grant \<Rightarrow> resource_grant \<Rightarrow> bool" where
  "grant_expanded old g \<longleftrightarrow>
     rg_can_read g \<and> \<not> rg_can_read old \<or> rg_can_write g \<and> \<not> rg_can_write old
     \<or> rg_max_data_classification old < rg_max_data_classification g
     \<or> rg_kind g \<noteq> rg_kind old \<or> rg_resource g \<noteq> rg_resource old"

definition index_grants :: "resource_grant list \<Rightarrow> (string, resource_grant) btree" where
  "index_grants gs = bt_extend (map (\<lambda>g. (rg_binding_id g, g)) gs) []"

definition diff_resource_grants ::
    "resource_grant list \<Rightarrow> resource_grant list \<Rightarrow> capability_change list" where
  "diff_resource_grants old_grants new_grants =
     (let old = index_grants old_grants; new = index_grants new_grants in
        List.map_filter (\<lambda>(i, g).
          case bt_get old i of
            None \<Rightarrow> Some (change ''resource'' i Added)
          | Some g0 \<Rightarrow>
              if g0 \<noteq> g
              then Some (change ''resource'' i (if grant_expanded g0 g then Expanded else Reduced))
              else None) new
        @ map (\<lambda>i. change ''resource'' i Removed)
            (filter (\<lambda>i. \<not> bt_contains new i) (bt_keys old)))"

definition diff_delegates :: "template_spec \<Rightarrow> template_spec \<Rightarrow> capability_change list" where
  "diff_delegates old new =
     diff_scope ''delegate'' (ts_allow_all_delegates old) (ts_delegate_template_ids old)
       (ts_allow_all_delegates new) (ts_delegate_template_ids new)"

definition connection_grant_changes ::
    "connection_binding list \<Rightarrow> connection_binding list \<Rightarrow> capability_change list" where
  "connection_grant_changes old new =
     map (\<lambda>c. change
            (if gc_operation_id c \<noteq> None then ''connection_operation'' else ''connection'')
            (case gc_operation_id c of Some i \<Rightarrow> i | None \<Rightarrow> gc_connection_id c)
            (case gc_kind c of GrantAdded \<Rightarrow> Added | GrantRemoved \<Rightarrow> Removed))
       (diff_connection_bindings old new)"

definition knowledge_provider_id :: "knowledge_provider \<Rightarrow> string" where
  "knowledge_provider_id p = (case p of Sag \<Rightarrow> ''sag'' | GraphRag \<Rightarrow> ''graph-rag'')"

definition knowledge_binding_changes ::
    "knowledge_binding option \<Rightarrow> knowledge_binding option \<Rightarrow> capability_change list" where
  "knowledge_binding_changes old new =
     (let old_provider = map_option kb_provider old; new_provider = map_option kb_provider new in
        (if old_provider \<noteq> new_provider then
           (case new_provider of
              Some p \<Rightarrow> [change ''knowledge_provider'' (knowledge_provider_id p) Added]
            | None \<Rightarrow> [])
           @ (case old_provider of
                Some p \<Rightarrow> [change ''knowledge_provider'' (knowledge_provider_id p) Removed]
              | None \<Rightarrow> [])
         else [])
        @ diff_scope ''knowledge_namespace''
            False (case old of Some b \<Rightarrow> kb_namespaces b | None \<Rightarrow> {})
            False (case new of Some b \<Rightarrow> kb_namespaces b | None \<Rightarrow> {}))"

definition between :: "filesystem \<Rightarrow> agent_template option \<Rightarrow> agent_template \<Rightarrow> template_diff" where
  "between fs previous new =
     (let changes =
            (case previous of
               Some old \<Rightarrow>
                 diff_projection fs (ts_capabilities (at_spec old)) (ts_capabilities (at_spec new))
                 @ diff_models (ts_model_policy (at_spec old)) (ts_model_policy (at_spec new))
                 @ diff_resource_grants (ts_resource_grants (at_spec old))
                     (ts_resource_grants (at_spec new))
                 @ diff_delegates (at_spec old) (at_spec new)
                 @ connection_grant_changes (ts_connection_bindings (at_spec old))
                     (ts_connection_bindings (at_spec new))
                 @ knowledge_binding_changes (ts_knowledge_binding (at_spec old))
                     (ts_knowledge_binding (at_spec new))
             | None \<Rightarrow>
                 projection_additions fs (ts_capabilities (at_spec new))
                 @ model_additions (ts_model_policy (at_spec new))
                 @ map (\<lambda>g. change ''resource'' (rg_binding_id g) Added)
                     (ts_resource_grants (at_spec new))
                 @ (if ts_allow_all_delegates (at_spec new)
                    then [change ''delegate'' ''*'' Expanded]
                    else map (\<lambda>i. change ''delegate'' i Added)
                           (sorted_list_of_set (ts_delegate_template_ids (at_spec new))))
                 @ connection_grant_changes [] (ts_connection_bindings (at_spec new))
                 @ knowledge_binding_changes None (ts_knowledge_binding (at_spec new)))
      in \<lparr>td_from_version = map_option at_version previous, td_to_version = at_version new,
          td_changes = changes,
          td_widens_capabilities = list_ex (\<lambda>c. cc_kind c \<in> {Added, Expanded}) changes\<rparr>)"

section \<open>Publication\<close>

type_synonym template_encoder = "nat \<times> string \<times> nat \<times> string \<times> string \<times> template_spec \<Rightarrow> string"

definition calculate_content_hash :: "template_encoder \<Rightarrow> agent_template \<Rightarrow> string" where
  "calculate_content_hash to_vec t =
     content_fingerprint (to_vec (at_schema_version t, at_template_id t, at_version t, at_name t,
       at_owner t, at_spec t))"

definition new_draft ::
    "template_encoder \<Rightarrow> timestamp \<Rightarrow> string \<Rightarrow> nat \<Rightarrow> string \<Rightarrow> string \<Rightarrow> template_spec
      \<Rightarrow> template_error + agent_template" where
  "new_draft to_vec now template_id version name owner spec0 =
     (let t = \<lparr>at_schema_version = agent_schema_version, at_template_id = template_id,
               at_version = version, at_name = name, at_owner = owner,
               at_spec = apply_derived_capabilities spec0, at_status = DraftTemplate,
               at_content_hash = [], at_created_at = now, at_published_at = None,
               at_published_by = None\<rparr>
      in res_bind (validate_template t) (\<lambda>_.
           Inr (t\<lparr>at_content_hash := calculate_content_hash to_vec t\<rparr>)))"

definition publish ::
    "template_encoder \<Rightarrow> filesystem \<Rightarrow> timestamp \<Rightarrow> agent_template \<Rightarrow> string \<Rightarrow> agent_template option
      \<Rightarrow> bool \<Rightarrow> template_error + (agent_template \<times> template_diff)" where
  "publish to_vec fs now t approved_by previous_published approve_capability_expansion =
     res_bind (validate_template t) (\<lambda>_.
     res_ensure (at_content_hash t = calculate_content_hash to_vec t) ContentHashMismatch
    (res_ensure (at_status t = DraftTemplate) VersionIsImmutable
    (res_ensure (trim approved_by = at_owner t) OwnerApprovalRequired
    (res_ensure
       (case previous_published of
          None \<Rightarrow> True
        | Some previous \<Rightarrow>
            \<not> (at_template_id previous \<noteq> at_template_id t \<or> at_version t \<le> at_version previous))
       InvalidPreviousVersion
    (let diff = between fs previous_published t in
     res_ensure (\<not> (td_widens_capabilities diff \<and> \<not> approve_capability_expansion))
       CapabilityExpansionApprovalRequired
       (Inr (t\<lparr>at_status := PublishedTemplate, at_published_at := Some now,
               at_published_by := Some approved_by\<rparr>, diff)))))))"

section \<open>Comparison of resource grants\<close>

definition resource_grants_are_subset :: "resource_grant list \<Rightarrow> resource_grant list \<Rightarrow> bool" where
  "resource_grants_are_subset candidate boundary \<longleftrightarrow>
     list_all (\<lambda>g. list_ex (\<lambda>allowed.
         rg_binding_id allowed = rg_binding_id g \<and> rg_kind allowed = rg_kind g
         \<and> rg_resource allowed = rg_resource g
         \<and> (\<not> rg_can_read g \<or> rg_can_read allowed) \<and> (\<not> rg_can_write g \<or> rg_can_write allowed)
         \<and> rg_max_data_classification g \<le> rg_max_data_classification allowed) boundary) candidate"

section \<open>Lemmas\<close>

definition widening :: "capability_change \<Rightarrow> bool" where
  "widening c \<longleftrightarrow> cc_kind c \<in> {Added, Expanded}"

definition finite_projection :: "capability_projection \<Rightarrow> bool" where
  "finite_projection c \<longleftrightarrow>
     finite (cap_tools c) \<and> finite (cap_skills c) \<and> finite (cap_plugins c)
     \<and> finite (cap_mcp_servers c) \<and> finite (cap_workspace_roots c)"

definition finite_spec :: "template_spec \<Rightarrow> bool" where
  "finite_spec spec \<longleftrightarrow>
     finite_projection (ts_capabilities spec) \<and> finite (mp_allowed_models (ts_model_policy spec))
     \<and> finite (ts_delegate_template_ids spec)
     \<and> (case ts_knowledge_binding spec of None \<Rightarrow> True | Some b \<Rightarrow> finite (kb_namespaces b))"

lemma unwidened_scope:
  assumes "\<not> list_ex widening (diff_scope name old_all old new_all new)" "finite new"
  shows "scope_is_subset new_all new old_all old"
proof (cases "old_all = new_all")
  case True
  then have "\<not> list_ex widening (map (\<lambda>x. change name x Added) (sorted_list_of_set (new - old)))"
    using assms(1) by (simp add: diff_scope_def)
  then have "set (sorted_list_of_set (new - old)) = {}"
    by (auto simp: list_ex_iff widening_def change_def simp del: set_empty)
  with assms(2) have "new \<subseteq> old" by auto
  with True show ?thesis by (simp add: scope_is_subset_def)
next
  case False
  with assms(1) show ?thesis
    by (auto simp: diff_scope_def widening_def change_def scope_is_subset_def split: if_splits)
qed

lemma narrowed_scope: "new \<subseteq> old \<Longrightarrow> \<not> list_ex widening (diff_scope name b old b new)"
proof -
  assume "new \<subseteq> old"
  then have none: "new - old = {}" by blast
  show ?thesis by (auto simp: diff_scope_def none list_ex_iff widening_def change_def)
qed

lemma displayed_subset:
  assumes "inj_on path_to_string (workspace_root_identity fs `
             (cap_workspace_roots old \<union> cap_workspace_roots new))"
    and "scope_is_subset new_all (displayed_roots fs new) old_all (displayed_roots fs old)"
  shows "workspace_scope_is_subset fs new_all (cap_workspace_roots new)
           old_all (cap_workspace_roots old)"
proof -
  have "\<exists>q \<in> cap_workspace_roots old. workspace_roots_equal fs p q"
    if "displayed_roots fs new \<subseteq> displayed_roots fs old" "p \<in> cap_workspace_roots new" for p
  proof -
    from that obtain q where "q \<in> cap_workspace_roots old"
        "path_to_string (workspace_root_identity fs p) = path_to_string (workspace_root_identity fs q)"
      by (auto simp: displayed_roots_def)
    with that(2) assms(1) show ?thesis
      by (auto simp: inj_on_def workspace_roots_equal_def)
  qed
  with assms(2) show ?thesis
    by (auto simp: scope_is_subset_def workspace_scope_is_subset_def split: if_splits)
qed

lemma unwidened_projection:
  assumes "\<not> list_ex widening (diff_projection fs old new)" "finite_projection new"
    and "inj_on path_to_string (workspace_root_identity fs `
           (cap_workspace_roots old \<union> cap_workspace_roots new))"
  shows "is_subset_of fs new old"
proof -
  have "finite (displayed_roots fs new)"
    using assms(2) by (simp add: displayed_roots_def finite_projection_def)
  with assms show ?thesis
    unfolding is_subset_of_def diff_projection_def list_ex_append finite_projection_def
    by (blast intro: unwidened_scope displayed_subset)
qed

lemma check_resource_grants_Inr:
  "check_resource_grants ids gs = Inr () \<Longrightarrow>
     distinct (map rg_binding_id gs) \<and> ids \<inter> rg_binding_id ` set gs = {}
     \<and> (\<forall>g \<in> set gs. rg_can_read g \<or> rg_can_write g)"
  by (induction gs arbitrary: ids) (fastforce simp: res_Inr_iffs)+

lemma validate_template_Inr:
  assumes "validate_template t = Inr ()"
  shows "distinct (map rg_binding_id (ts_resource_grants (at_spec t)))"
    and "\<forall>g \<in> set (ts_resource_grants (at_spec t)). rg_can_read g \<or> rg_can_write g"
    and "well_formed_bindings (ts_connection_bindings (at_spec t))"
    and "validate_model_policy_shape (ts_model_policy (at_spec t)) = Inr ()"
    and "validate_projection_shape (ts_capabilities (at_spec t)) = Inr ()"
    and "at_version t \<noteq> 0"
proof -
  have "check_resource_grants {} (ts_resource_grants (at_spec t)) = Inr ()"
    using assms by (simp add: validate_template_def Let_def res_Inr_iffs)
  from check_resource_grants_Inr [OF this]
  show "distinct (map rg_binding_id (ts_resource_grants (at_spec t)))"
    "\<forall>g \<in> set (ts_resource_grants (at_spec t)). rg_can_read g \<or> rg_can_write g" by auto
  show "well_formed_bindings (ts_connection_bindings (at_spec t))"
    "validate_model_policy_shape (ts_model_policy (at_spec t)) = Inr ()"
    "validate_projection_shape (ts_capabilities (at_spec t)) = Inr ()"
    "at_version t \<noteq> 0"
    using assms by (auto simp: validate_template_def Let_def res_Inr_iffs validate_shape_iff)
qed

lemma index_grants_get:
  "bt_get (index_grants gs) i = Some g \<Longrightarrow> g \<in> set gs \<and> rg_binding_id g = i"
  by (auto simp: index_grants_def bt_get_extend split: option.splits dest!: map_of_SomeD)

lemma index_grants_unique:
  assumes "distinct (map rg_binding_id gs)" "g \<in> set gs"
  shows "bt_get (index_grants gs) (rg_binding_id g) = Some g"
proof -
  have "distinct (map fst (rev (map (\<lambda>g. (rg_binding_id g, g)) gs)))"
    using assms(1) by (simp add: rev_map [symmetric] comp_def)
  then have "map_of (rev (map (\<lambda>g. (rg_binding_id g, g)) gs)) (rg_binding_id g) = Some g"
    using assms(2) by (intro map_of_is_SomeI) auto
  then show ?thesis by (simp add: index_grants_def bt_get_extend)
qed

lemma unwidened_resource_grants:
  assumes "\<not> list_ex widening (diff_resource_grants old new)" "distinct (map rg_binding_id new)"
  shows "resource_grants_are_subset new old"
  unfolding resource_grants_are_subset_def list_all_iff list_ex_iff
proof
  fix g assume g: "g \<in> set new"
  let ?i = "rg_binding_id g"
  let ?report = "\<lambda>(i, g). case bt_get (index_grants old) i of
            None \<Rightarrow> Some (change ''resource'' i Added)
          | Some g0 \<Rightarrow>
              if g0 \<noteq> g
              then Some (change ''resource'' i (if grant_expanded g0 g then Expanded else Reduced))
              else None"
  have entry: "(?i, g) \<in> set (index_grants new)"
    by (rule bt_get_in_set [OF index_grants_unique [OF assms(2) g]])
  have quiet: "\<not> widening c" if "?report (?i, g) = Some c" for c
  proof -
    from entry that have "c \<in> set (List.map_filter ?report (index_grants new))"
      unfolding map_filter_def by force
    with assms(1) show ?thesis
      by (simp add: diff_resource_grants_def Let_def list_ex_iff)
  qed
  obtain g0 where g0: "bt_get (index_grants old) ?i = Some g0"
    using quiet by (cases "bt_get (index_grants old) ?i") (auto simp: widening_def change_def)
  have "\<not> (g0 \<noteq> g \<and> grant_expanded g0 g)"
    using quiet g0 by (auto simp: widening_def change_def)
  with index_grants_get [OF g0]
  show "\<exists>allowed \<in> set old. rg_binding_id allowed = ?i \<and> rg_kind allowed = rg_kind g
         \<and> rg_resource allowed = rg_resource g
         \<and> (\<not> rg_can_read g \<or> rg_can_read allowed) \<and> (\<not> rg_can_write g \<or> rg_can_write allowed)
         \<and> rg_max_data_classification g \<le> rg_max_data_classification allowed"
    by (intro bexI [of _ g0]) (auto simp: grant_expanded_def)
qed

lemma unwidened_connections:
  assumes "\<not> list_ex widening (connection_grant_changes old new)"
    and "distinct (map cb_connection_id new)"
  shows "operation_set new \<subseteq> operation_set old"
proof (rule ccontr)
  assume "\<not> operation_set new \<subseteq> operation_set old"
  then obtain x where "x \<in> operation_set new" "x \<notin> operation_set old" by blast
  from added_grant_is_reported [OF this assms(2)] obtain c where
    "c \<in> set (diff_connection_bindings old new)" "gc_kind c = GrantAdded" by blast
  with assms(1) show False
    by (auto simp: connection_grant_changes_def list_ex_iff widening_def change_def)
qed

lemma unwidened_knowledge:
  assumes "\<not> list_ex widening (knowledge_binding_changes old new)"
    and "new = Some b" "finite (kb_namespaces b)"
  obtains b0 where "old = Some b0" "kb_provider b0 = kb_provider b"
    "kb_namespaces b \<subseteq> kb_namespaces b0"
proof -
  have provider: "map_option kb_provider old = Some (kb_provider b)"
    using assms(1,2) by (auto simp: knowledge_binding_changes_def Let_def widening_def change_def
        split: if_splits)
  then obtain b0 where b0: "old = Some b0" "kb_provider b0 = kb_provider b" by auto
  have "scope_is_subset False (kb_namespaces b) False (kb_namespaces b0)"
    using assms b0
    by (intro unwidened_scope [of "''knowledge_namespace''"])
       (simp_all add: knowledge_binding_changes_def Let_def)
  with b0 that show thesis by (simp add: scope_is_subset_def)
qed

lemma publish_Inr:
  assumes "publish to_vec fs now t approved_by previous approve = Inr (published, diff)"
  shows "validate_template t = Inr ()" "at_status t = DraftTemplate"
    and "at_content_hash t = calculate_content_hash to_vec t"
    and "trim approved_by = at_owner t"
    and "published = t\<lparr>at_status := PublishedTemplate, at_published_at := Some now,
           at_published_by := Some approved_by\<rparr>"
    and "diff = between fs previous t"
    and "td_widens_capabilities diff \<Longrightarrow> approve"
    and "\<And>old. previous = Some old \<Longrightarrow>
           at_template_id old = at_template_id t \<and> at_version old < at_version t"
  using assms by (auto simp: publish_def res_Inr_iffs Let_def)

lemma publish_calculates_same_hash:
  assumes "publish to_vec fs now t approved_by previous approve = Inr (published, diff)"
  shows "at_content_hash published = calculate_content_hash to_vec published"
  using publish_Inr [OF assms] by (simp add: calculate_content_hash_def)

lemma widens_iff: "td_widens_capabilities (between fs previous t)
    \<longleftrightarrow> list_ex widening (td_changes (between fs previous t))"
  by (auto simp: between_def Let_def widening_def list_ex_iff)

section \<open>Properties\<close>

text \<open>
  C32: A version that is published without the approval of an expansion never exceeds the previous
  published version: its capabilities are within those of the previous version, each of its resource
  grants is within a grant of the previous version, and it delegates to no further templates, grants
  no further connection operations and reaches no further knowledge namespaces.  (The display form of
  the workspace roots must tell them apart, and the sets of the template are finite, as every
  \<open>BTreeSet\<close> is.)
\<close>
theorem unapproved_publication_does_not_widen:
  assumes "publish to_vec fs now t approved_by (Some old) False = Inr (published, diff)"
    and "finite_spec (at_spec t)"
    and "inj_on path_to_string (workspace_root_identity fs `
           (cap_workspace_roots (ts_capabilities (at_spec old))
            \<union> cap_workspace_roots (ts_capabilities (at_spec t))))"
  shows "is_subset_of fs (ts_capabilities (at_spec published)) (ts_capabilities (at_spec old))
    \<and> resource_grants_are_subset (ts_resource_grants (at_spec published))
        (ts_resource_grants (at_spec old))
    \<and> scope_is_subset
        (ts_allow_all_delegates (at_spec published)) (ts_delegate_template_ids (at_spec published))
        (ts_allow_all_delegates (at_spec old)) (ts_delegate_template_ids (at_spec old))
    \<and> operation_set (ts_connection_bindings (at_spec published))
        \<subseteq> operation_set (ts_connection_bindings (at_spec old))
    \<and> (\<forall>b. ts_knowledge_binding (at_spec published) = Some b \<longrightarrow>
        (\<exists>b0. ts_knowledge_binding (at_spec old) = Some b0 \<and> kb_provider b0 = kb_provider b
           \<and> kb_namespaces b \<subseteq> kb_namespaces b0))"
proof -
  note published = publish_Inr [OF assms(1)]
  note valid = validate_template_Inr [OF published(1)]
  have quiet: "\<not> list_ex widening (td_changes (between fs (Some old) t))"
    using published(6,7) by (auto simp: widens_iff)
  have spec: "at_spec published = at_spec t" using published(5) by simp
  have "is_subset_of fs (ts_capabilities (at_spec t)) (ts_capabilities (at_spec old))"
    using quiet assms(2,3) by (intro unwidened_projection)
      (simp_all add: between_def Let_def finite_spec_def)
  moreover have "resource_grants_are_subset (ts_resource_grants (at_spec t))
      (ts_resource_grants (at_spec old))"
    using quiet valid(1) by (intro unwidened_resource_grants) (simp_all add: between_def Let_def)
  moreover have "scope_is_subset
      (ts_allow_all_delegates (at_spec t)) (ts_delegate_template_ids (at_spec t))
      (ts_allow_all_delegates (at_spec old)) (ts_delegate_template_ids (at_spec old))"
    using quiet assms(2) by (intro unwidened_scope [of "''delegate''"])
      (simp_all add: between_def Let_def diff_delegates_def finite_spec_def)
  moreover have "operation_set (ts_connection_bindings (at_spec t))
      \<subseteq> operation_set (ts_connection_bindings (at_spec old))"
    using quiet valid(3) by (intro unwidened_connections)
      (simp_all add: between_def Let_def well_formed_bindings_def)
  moreover have "\<exists>b0. ts_knowledge_binding (at_spec old) = Some b0 \<and> kb_provider b0 = kb_provider b
      \<and> kb_namespaces b \<subseteq> kb_namespaces b0" if b: "ts_knowledge_binding (at_spec t) = Some b" for b
  proof -
    have "\<not> list_ex widening (knowledge_binding_changes (ts_knowledge_binding (at_spec old))
        (ts_knowledge_binding (at_spec t)))"
      using quiet by (simp add: between_def Let_def)
    moreover have "finite (kb_namespaces b)" using assms(2) b by (simp add: finite_spec_def)
    ultimately show ?thesis using unwidened_knowledge [OF _ b] by metis
  qed
  ultimately show ?thesis unfolding spec by blast
qed

definition example_template_spec :: "string list \<Rightarrow> template_spec" where
  "example_template_spec tools =
     \<lparr>ts_description = [], ts_instructions = ''review'',
      ts_capabilities = deny_all\<lparr>cap_tools := set tools,
        cap_workspace_roots := {[RootDir, Normal ''work'']}\<rparr>,
      ts_resource_grants = [], ts_model_policy = model_unrestricted,
      ts_state_schema = JBool True, ts_output_schema = JBool True,
      ts_allow_all_delegates = False, ts_delegate_template_ids = {''reviewer''},
      ts_budget = \<lparr>ab_max_turns = 20, ab_max_tool_calls = 40, ab_max_duration_seconds = 900\<rparr>,
      ts_risk_class = LowRisk, ts_connection_bindings = [], ts_knowledge_binding = None\<rparr>"

definition example_template :: "nat \<Rightarrow> template_status \<Rightarrow> string list \<Rightarrow> agent_template" where
  "example_template version status tools =
     \<lparr>at_schema_version = agent_schema_version, at_template_id = ''reviewer'', at_version = version,
      at_name = ''Reviewer'', at_owner = ''ops'', at_spec = example_template_spec tools,
      at_status = status, at_content_hash = content_fingerprint [], at_created_at = 0,
      at_published_at = None, at_published_by = None\<rparr>"

lemma example_template_valid:
  assumes "version \<noteq> 0"
  shows "validate_template (example_template version status tools) = Inr ()"
proof -
  have "valid_template_id ''reviewer''" by code_simp
  moreover have "trim ''Reviewer'' \<noteq> [] \<and> char_count ''Reviewer'' \<le> 120" by code_simp
  moreover have "trim ''ops'' \<noteq> [] \<and> char_count ''ops'' \<le> 160" by code_simp
  moreover have "trim ''review'' \<noteq> [] \<and> char_count ''review'' \<le> 40000" by code_simp
  moreover have "char_count [] \<le> 4000" by code_simp
  moreover have "validate_connection_bindings_shape [] = Inr ()" by code_simp
  ultimately show ?thesis
    using assms
    by (simp add: validate_template_def example_template_def example_template_spec_def res_Inr_iffs
          validate_projection_shape_def deny_all_def validate_knowledge_binding_shape_def
          validate_model_policy_shape_def model_unrestricted_def validate_schema_shape_def)
qed

theorem unapproved_publication_does_not_widen_witness:
  "\<exists>published diff.
     publish (\<lambda>_. []) plain_files 5 (example_template 2 DraftTemplate [''grep'']) ''ops''
       (Some (example_template 1 PublishedTemplate [''grep'', ''shell''])) False
       = Inr (published, diff)
     \<and> is_subset_of plain_files (ts_capabilities (at_spec published))
         (ts_capabilities (example_template_spec [''grep'', ''shell'']))"
proof -
  let ?new = "example_template 2 DraftTemplate [''grep'']"
  let ?old = "example_template 1 PublishedTemplate [''grep'', ''shell'']"
  have trimmed: "trim ''ops'' = ''ops''" by code_simp
  have "\<not> td_widens_capabilities (between plain_files (Some ?old) ?new)"
    unfolding widens_iff
    by (simp add: between_def Let_def diff_projection_def diff_models_def diff_delegates_def
          diff_resource_grants_def connection_grant_changes_def diff_connection_bindings_def
          knowledge_binding_changes_def index_grants_def index_bindings_def bt_extend_def bt_keys_def
          map_filter_def example_template_def example_template_spec_def deny_all_def
          model_unrestricted_def displayed_roots_def narrowed_scope)
  then have published: "\<exists>published diff. publish (\<lambda>_. []) plain_files 5 ?new ''ops'' (Some ?old) False
      = Inr (published, diff)"
    using example_template_valid [of 2 DraftTemplate "[''grep'']"] trimmed
    by (simp add: publish_def Let_def res_ensure_def calculate_content_hash_def example_template_def)
  have "finite_spec (at_spec ?new)"
    by (simp add: finite_spec_def finite_projection_def example_template_def example_template_spec_def
          deny_all_def model_unrestricted_def)
  moreover have "inj_on path_to_string (workspace_root_identity plain_files `
      (cap_workspace_roots (ts_capabilities (at_spec ?old))
       \<union> cap_workspace_roots (ts_capabilities (at_spec ?new))))"
    by (simp add: example_template_def example_template_spec_def)
  ultimately show ?thesis
    using published unapproved_publication_does_not_widen [of "\<lambda>_. []" plain_files 5 ?new "''ops''" ?old]
    by (fastforce simp: example_template_def)
qed

text \<open>
  The difference of two model policies compares the texts \<open>provider:model\<close>.  A policy that replaces
  the model \<open>b:c\<close> of the provider \<open>a\<close> by the model \<open>c\<close> of the provider \<open>a:b\<close> has no change, although
  it allows a model that the previous policy does not.
\<close>

lemma model_expansion_is_not_reported:
  "diff_models (model_only [\<lparr>mb_provider_id = ''a'', mb_model_id = ''b:c''\<rparr>])
     (model_only [\<lparr>mb_provider_id = ''a:b'', mb_model_id = ''c''\<rparr>]) = []
   \<and> allows_model (model_only [\<lparr>mb_provider_id = ''a:b'', mb_model_id = ''c''\<rparr>]) ''a:b'' ''c''
   \<and> \<not> allows_model (model_only [\<lparr>mb_provider_id = ''a'', mb_model_id = ''b:c''\<rparr>]) ''a:b'' ''c''"
  by (simp add: diff_models_def diff_scope_def model_only_def model_label_def allows_model_def)

end
