(* ===== verification/Agent_Instance.thy ===== *)
theory Agent_Instance
  imports Agent_Template "HOL-Library.Product_Lexorder"
begin

text \<open>
  Agent instances: their creation from a published template, alone or delegated by a parent instance,
  and the check of the execution boundary before an instance runs (\<open>AgentInstanceV1\<close> of
  \<open>enterprise.rs\<close>).

  The new identifier and the current time are arguments of the creation.  \<open>agent_lineage\<close> is the
  relation between the first agent of a delegation chain and an agent further down.
\<close>

section \<open>Instances\<close>

record execution_context =
  ec_schema_version :: nat
  ec_agent_id :: uuid
  ec_thread_id :: uuid
  ec_mode :: experience_mode
  ec_template_id :: string
  ec_template_version :: nat
  ec_parent_agent_id :: "uuid option"
  ec_delegation_chain :: "uuid list"
  ec_capabilities :: capability_projection
  ec_resource_grants :: "resource_grant list"
  ec_model_policy :: model_policy
  ec_connection_bindings :: "connection_binding list"
  ec_connection_operations :: "connection_operation list"
  ec_knowledge_binding :: "knowledge_binding option"

datatype instance_status = ActiveInstance | SuspendedInstance | CompletedInstance | RevokedInstance

record agent_instance =
  ai_schema_version :: nat
  ai_id :: uuid
  ai_template_id :: string
  ai_template_version :: nat
  ai_thread_id :: uuid
  ai_parent_instance_id :: "uuid option"
  ai_delegation_depth :: nat
  ai_execution_context :: execution_context
  ai_state :: json
  ai_state_revision :: nat
  ai_status :: instance_status
  ai_created_at :: timestamp
  ai_updated_at :: timestamp

definition max_agent_delegation_depth :: nat where
  "max_agent_delegation_depth = 16"

section \<open>Capabilities of connections\<close>

definition with_resolved_binding :: "resolved_binding \<Rightarrow> capability_projection \<Rightarrow> capability_projection" where
  "with_resolved_binding b c =
     (let c1 = (if cap_allow_all_mcp_servers c then c
                else c\<lparr>cap_mcp_servers := cap_mcp_servers c \<union> set (mcp_server_ids b)\<rparr>)
      in if cap_allow_all_tools c1 then c1
         else c1\<lparr>cap_tools := cap_tools c1 \<union> set (model_tool_names b)\<rparr>)"

definition capabilities_with_resolved_connections ::
    "capability_projection \<Rightarrow> resolved_binding list \<Rightarrow> capability_projection" where
  "capabilities_with_resolved_connections base resolved = fold with_resolved_binding resolved base"

definition with_operation :: "connection_operation \<Rightarrow> capability_projection \<Rightarrow> capability_projection" where
  "with_operation operation c =
     (let c1 = (if cap_allow_all_mcp_servers c then c
                else c\<lparr>cap_mcp_servers := insert (co_mcp_server_id operation) (cap_mcp_servers c)\<rparr>)
      in if cap_allow_all_tools c1 then c1
         else c1\<lparr>cap_tools := insert (co_model_tool_name operation) (cap_tools c1)\<rparr>)"

definition capabilities_with_connection_operations ::
    "capability_projection \<Rightarrow> connection_operation list \<Rightarrow> capability_projection" where
  "capabilities_with_connection_operations base operations = fold with_operation operations base"

definition intersect_resource_grants ::
    "resource_grant list \<Rightarrow> resource_grant list \<Rightarrow> resource_grant list" where
  "intersect_resource_grants left right =
     filter (\<lambda>g. rg_can_read g \<or> rg_can_write g)
       (List.map_filter (\<lambda>l.
          map_option (\<lambda>r.
            l\<lparr>rg_can_read := rg_can_read l \<and> rg_can_read r,
              rg_can_write := rg_can_write l \<and> rg_can_write r,
              rg_max_data_classification :=
                min (rg_max_data_classification l) (rg_max_data_classification r)\<rparr>)
            (find (\<lambda>r. rg_binding_id r = rg_binding_id l \<and> rg_kind r = rg_kind l
                       \<and> rg_resource r = rg_resource l) right)) left)"

definition effective_operations ::
    "connection_binding list \<Rightarrow> resolved_binding list \<Rightarrow> connection_operation list" where
  \<comment> \<open>the routes of the operations that the effective bindings still grant, in their order\<close>
  "effective_operations bindings resolved =
     (let connection_ids = cb_connection_id ` set bindings;
          operation_ids =
            bt_extend (map (\<lambda>b. (cb_connection_id b, granted_operation_ids b)) bindings) []
      in sort_key (\<lambda>operation. (co_connection_id operation, co_operation_id operation))
           (filter (\<lambda>operation.
               case bt_get operation_ids (co_connection_id operation) of
                 None \<Rightarrow> False
               | Some ids \<Rightarrow> co_operation_id operation \<in> ids)
             (concat (map (\<lambda>r. map snd (rb_operations r))
               (filter (\<lambda>r. cb_connection_id (rb_binding r) \<in> connection_ids) resolved)))))"

section \<open>Creation\<close>

record boundary =
  bd_capabilities :: capability_projection
  bd_grants :: "resource_grant list"
  bd_models :: model_policy
  bd_bindings :: "connection_binding list"
  bd_parent :: "uuid option"
  bd_depth :: nat
  bd_chain :: "uuid list"

definition delegate_from ::
    "template_encoder \<Rightarrow> filesystem \<Rightarrow> agent_template \<Rightarrow> uuid \<Rightarrow> experience_mode
      \<Rightarrow> agent_instance option \<Rightarrow> agent_template option \<Rightarrow> boundary \<Rightarrow> template_error + boundary" where
  \<comment> \<open>the part of the creation that looks at the parent\<close>
  "delegate_from to_vec fs t thread_id mode parent_agent parent_template b =
     (case parent_agent of
        None \<Rightarrow> Inr b
      | Some p \<Rightarrow>
          res_ensure (\<not> (ai_thread_id p \<noteq> thread_id \<or> ec_mode (ai_execution_context p) \<noteq> mode))
            DelegationContextMismatch
         (res_ensure (ai_status p = ActiveInstance) ParentInstanceNotActive
         (res_bind
            (case parent_template of
               None \<Rightarrow> Inl ParentTemplateMismatch
             | Some pt \<Rightarrow>
                 if at_template_id pt = ai_template_id p \<and> at_version pt = ai_template_version p
                 then Inr pt else Inl ParentTemplateMismatch) (\<lambda>pt.
          res_bind (validate_template pt) (\<lambda>_.
          res_ensure (\<not> (at_status pt \<noteq> PublishedTemplate
                         \<or> at_content_hash pt \<noteq> calculate_content_hash to_vec pt))
            ParentTemplateMismatch
         (res_ensure (ts_allow_all_delegates (at_spec pt)
                      \<or> at_template_id t \<in> ts_delegate_template_ids (at_spec pt))
            (DelegateTemplateDenied (at_template_id t))
         (res_bind (if ai_delegation_depth p < 65535 then Inr (ai_delegation_depth p + 1)
                    else Inl DelegationDepthExceeded) (\<lambda>depth.
          res_ensure (depth \<le> max_agent_delegation_depth) DelegationDepthExceeded
            (Inr \<lparr>bd_capabilities =
                    intersect fs (bd_capabilities b) (ec_capabilities (ai_execution_context p)),
                  bd_grants =
                    intersect_resource_grants (bd_grants b)
                      (ec_resource_grants (ai_execution_context p)),
                  bd_models =
                    intersect_models (bd_models b) (ec_model_policy (ai_execution_context p)),
                  bd_bindings =
                    intersect_connection_bindings (bd_bindings b)
                      (ec_connection_bindings (ai_execution_context p)),
                  bd_parent = Some (ai_id p), bd_depth = depth,
                  bd_chain = ec_delegation_chain (ai_execution_context p) @ [ai_id p]\<rparr>)))))))))"

definition narrow_by ::
    "('b \<Rightarrow> 'a \<Rightarrow> 'b) \<Rightarrow> 'a option \<Rightarrow> 'b \<Rightarrow> 'b" where
  \<comment> \<open>\<open>if let Some(requested) = requested { x = x.intersect(requested) }\<close>\<close>
  "narrow_by f requested x = (case requested of None \<Rightarrow> x | Some r \<Rightarrow> f x r)"

definition instantiate_with_connections ::
    "template_encoder \<Rightarrow> filesystem \<Rightarrow> uuid \<Rightarrow> timestamp \<Rightarrow> agent_template \<Rightarrow> uuid \<Rightarrow> experience_mode
      \<Rightarrow> capability_projection \<Rightarrow> agent_instance option \<Rightarrow> agent_template option
      \<Rightarrow> capability_projection option \<Rightarrow> resource_grant list option \<Rightarrow> model_policy option
      \<Rightarrow> connection_binding list option \<Rightarrow> resolved_binding list \<Rightarrow> json
      \<Rightarrow> template_error + agent_instance" where
  "instantiate_with_connections to_vec fs new_id now t thread_id mode mode_capabilities parent_agent
     parent_template requested_capabilities requested_grants requested_models requested_bindings
     resolved initial_state =
     res_bind (validate_template t) (\<lambda>_.
     res_ensure (at_content_hash t = calculate_content_hash to_vec t) ContentHashMismatch
    (res_ensure (at_status t = PublishedTemplate) TemplateNotPublished
    (res_bind (map_err SchemaError
       (validate_value_against_schema (ts_state_schema (at_spec t)) initial_state ''$state'')) (\<lambda>_.
     res_ensure (resolved_bindings_match (ts_connection_bindings (at_spec t)) resolved)
       InvalidResolvedConnectionBindings
    (res_bind
       (delegate_from to_vec fs t thread_id mode parent_agent parent_template
         \<lparr>bd_capabilities = intersect fs mode_capabilities
            (capabilities_with_resolved_connections (ts_capabilities (at_spec t)) resolved),
          bd_grants = ts_resource_grants (at_spec t), bd_models = ts_model_policy (at_spec t),
          bd_bindings = ts_connection_bindings (at_spec t), bd_parent = None, bd_depth = 0,
          bd_chain = []\<rparr>) (\<lambda>b.
     res_bind
       (case requested_bindings of
          None \<Rightarrow> Inr ()
        | Some requested \<Rightarrow>
            map_err InvalidConnectionGrantShape (validate_connection_bindings_shape requested)) (\<lambda>_.
     (let bindings = narrow_by intersect_connection_bindings requested_bindings (bd_bindings b);
          operations = effective_operations bindings resolved;
          capabilities =
            intersect fs (narrow_by (intersect fs) requested_capabilities (bd_capabilities b))
              (capabilities_with_connection_operations (ts_capabilities (at_spec t)) operations)
      in Inr
        \<lparr>ai_schema_version = agent_schema_version, ai_id = new_id,
         ai_template_id = at_template_id t, ai_template_version = at_version t,
         ai_thread_id = thread_id, ai_parent_instance_id = bd_parent b,
         ai_delegation_depth = bd_depth b,
         ai_execution_context =
           \<lparr>ec_schema_version = agent_schema_version, ec_agent_id = new_id, ec_thread_id = thread_id,
            ec_mode = mode, ec_template_id = at_template_id t, ec_template_version = at_version t,
            ec_parent_agent_id = bd_parent b, ec_delegation_chain = bd_chain b,
            ec_capabilities = capabilities,
            ec_resource_grants = narrow_by intersect_resource_grants requested_grants (bd_grants b),
            ec_model_policy = narrow_by intersect_models requested_models (bd_models b),
            ec_connection_bindings = bindings, ec_connection_operations = operations,
            ec_knowledge_binding = ts_knowledge_binding (at_spec t)\<rparr>,
         ai_state = initial_state, ai_state_revision = 1, ai_status = ActiveInstance,
         ai_created_at = now, ai_updated_at = now\<rparr>))))))))"

definition instantiate_agent ::
    "template_encoder \<Rightarrow> filesystem \<Rightarrow> uuid \<Rightarrow> timestamp \<Rightarrow> agent_template \<Rightarrow> uuid \<Rightarrow> experience_mode
      \<Rightarrow> capability_projection \<Rightarrow> agent_instance option \<Rightarrow> agent_template option
      \<Rightarrow> capability_projection option \<Rightarrow> resource_grant list option \<Rightarrow> model_policy option \<Rightarrow> json
      \<Rightarrow> template_error + agent_instance" where
  "instantiate_agent to_vec fs new_id now t thread_id mode mode_capabilities parent_agent parent_template
     requested_capabilities requested_grants requested_models initial_state =
     instantiate_with_connections to_vec fs new_id now t thread_id mode mode_capabilities parent_agent
       parent_template requested_capabilities requested_grants requested_models None [] initial_state"

section \<open>The execution boundary\<close>

definition validate_execution_boundary_with_connections ::
    "template_encoder \<Rightarrow> filesystem \<Rightarrow> agent_instance \<Rightarrow> agent_template \<Rightarrow> capability_projection
      \<Rightarrow> resolved_binding list \<Rightarrow> template_error + unit" where
  "validate_execution_boundary_with_connections to_vec fs i t mode_capabilities resolved =
     (let ec = ai_execution_context i;
          operations = effective_operations (ec_connection_bindings ec) resolved
      in
      res_bind (validate_template t) (\<lambda>_.
      res_ensure (\<not> (at_status t \<noteq> PublishedTemplate
                     \<or> at_content_hash t \<noteq> calculate_content_hash to_vec t)) ContentHashMismatch
     (res_ensure (\<not> (ai_schema_version i \<noteq> agent_schema_version
                     \<or> ai_template_id i \<noteq> at_template_id t \<or> ai_template_version i \<noteq> at_version t
                     \<or> ec_schema_version ec \<noteq> agent_schema_version
                     \<or> ec_agent_id ec \<noteq> ai_id i \<or> ec_thread_id ec \<noteq> ai_thread_id i
                     \<or> ec_template_id ec \<noteq> ai_template_id i
                     \<or> ec_template_version ec \<noteq> ai_template_version i)) InvalidInstanceContext
     (res_ensure (is_subset_of fs (ec_capabilities ec)
                    (intersect fs mode_capabilities
                      (capabilities_with_resolved_connections (ts_capabilities (at_spec t)) resolved)))
        InstanceCapabilityViolation
     (res_ensure (intersect_models (ec_model_policy ec) (ts_model_policy (at_spec t))
                    = ec_model_policy ec) InstanceCapabilityViolation
     (res_ensure (resource_grants_are_subset (ec_resource_grants ec)
                    (ts_resource_grants (at_spec t))) InstanceCapabilityViolation
     (res_ensure (\<not> (\<not> is_ok (validate_connection_bindings_shape (ec_connection_bindings ec))
                     \<or> \<not> resolved_bindings_match (ts_connection_bindings (at_spec t)) resolved
                     \<or> \<not> connection_bindings_are_subset (ec_connection_bindings ec)
                          (ts_connection_bindings (at_spec t)))) InstanceCapabilityViolation
     (res_ensure (ec_connection_operations ec = operations) InstanceCapabilityViolation
     (res_ensure (ec_knowledge_binding ec = ts_knowledge_binding (at_spec t))
        InstanceCapabilityViolation
     (res_ensure (is_subset_of fs (ec_capabilities ec)
                    (intersect fs mode_capabilities
                      (capabilities_with_connection_operations (ts_capabilities (at_spec t))
                        operations))) InstanceCapabilityViolation
     (res_ensure (\<not> (ai_delegation_depth i \<noteq> length (ec_delegation_chain ec)
                     \<or> max_agent_delegation_depth < ai_delegation_depth i
                     \<or> ai_parent_instance_id i = None
                        \<and> (ai_delegation_depth i \<noteq> 0 \<or> ec_parent_agent_id ec \<noteq> None)
                     \<or> ai_parent_instance_id i \<noteq> None
                        \<and> ec_parent_agent_id ec \<noteq> ai_parent_instance_id i)) InvalidInstanceContext
        (map_err SchemaError
          (validate_value_against_schema (ts_state_schema (at_spec t)) (ai_state i) ''$state'')))))))))))))"

definition validate_execution_boundary ::
    "template_encoder \<Rightarrow> filesystem \<Rightarrow> agent_instance \<Rightarrow> agent_template \<Rightarrow> capability_projection
      \<Rightarrow> template_error + unit" where
  "validate_execution_boundary to_vec fs i t mode_capabilities =
     validate_execution_boundary_with_connections to_vec fs i t mode_capabilities []"

section \<open>Narrowing\<close>

definition grant_within :: "resource_grant \<Rightarrow> resource_grant \<Rightarrow> bool" where
  "grant_within g allowed \<longleftrightarrow>
     rg_binding_id allowed = rg_binding_id g \<and> rg_kind allowed = rg_kind g
     \<and> rg_resource allowed = rg_resource g
     \<and> (rg_can_read g \<longrightarrow> rg_can_read allowed) \<and> (rg_can_write g \<longrightarrow> rg_can_write allowed)
     \<and> rg_max_data_classification g \<le> rg_max_data_classification allowed"

lemma resource_grants_subset_iff:
  "resource_grants_are_subset gs hs \<longleftrightarrow> (\<forall>g \<in> set gs. \<exists>h \<in> set hs. grant_within g h)"
  by (simp add: resource_grants_are_subset_def list_all_iff list_ex_iff grant_within_def)

lemma resource_grants_subset_refl: "resource_grants_are_subset gs gs"
  by (auto simp: resource_grants_subset_iff grant_within_def)

lemma resource_grants_subset_trans:
  "resource_grants_are_subset gs hs \<Longrightarrow> resource_grants_are_subset hs ks
    \<Longrightarrow> resource_grants_are_subset gs ks"
  unfolding resource_grants_subset_iff grant_within_def by (metis order_trans)

lemma intersect_resource_grants_in:
  assumes "g \<in> set (intersect_resource_grants left right)"
  shows "(\<exists>l \<in> set left. grant_within g l) \<and> (\<exists>r \<in> set right. grant_within g r)"
proof -
  from assms obtain l r where l: "l \<in> set left"
    and r: "find (\<lambda>r. rg_binding_id r = rg_binding_id l \<and> rg_kind r = rg_kind l
        \<and> rg_resource r = rg_resource l) right = Some r"
    and g: "g = l\<lparr>rg_can_read := rg_can_read l \<and> rg_can_read r,
              rg_can_write := rg_can_write l \<and> rg_can_write r,
              rg_max_data_classification :=
                min (rg_max_data_classification l) (rg_max_data_classification r)\<rparr>"
    by (auto simp: intersect_resource_grants_def map_filter_def)
  have "r \<in> set right \<and> rg_binding_id r = rg_binding_id l \<and> rg_kind r = rg_kind l
      \<and> rg_resource r = rg_resource l"
    using find_Some_in [OF r] by simp
  with l g have "l \<in> set left \<and> grant_within g l" "r \<in> set right \<and> grant_within g r"
    by (simp_all add: grant_within_def)
  then show ?thesis by blast
qed

lemma intersect_resource_grants_subset:
  "resource_grants_are_subset (intersect_resource_grants left right) left"
  "resource_grants_are_subset (intersect_resource_grants left right) right"
  using intersect_resource_grants_in by (auto simp: resource_grants_subset_iff)

lemma allows_intersect_models:
  "allows_model (intersect_models a b) provider model
    \<longleftrightarrow> allows_model a provider model \<and> allows_model b provider model"
  by (auto simp: allows_model_def intersect_models_def intersect_scope_def split: bool.splits)

lemma intersect_models_absorb:
  "intersect_models m t = m \<Longrightarrow> intersect_models (intersect_models m r) t = intersect_models m r"
  by (cases m; cases t; cases r)
     (auto simp: intersect_models_def intersect_scope_def split: bool.splits)

lemma intersect_models_self:
  "validate_model_policy_shape t = Inr () \<Longrightarrow> intersect_models t t = t"
  by (cases t)
     (auto simp: intersect_models_def intersect_scope_def validate_model_policy_shape_def
        split: bool.splits if_splits)

lemma narrow_by_induct:
  assumes "P x" "\<And>r. requested = Some r \<Longrightarrow> P (f x r)"
  shows "P (narrow_by f requested x)"
  using assms by (auto simp: narrow_by_def split: option.splits)

definition context_within :: "filesystem \<Rightarrow> execution_context \<Rightarrow> execution_context \<Rightarrow> bool" where
  "context_within fs c a \<longleftrightarrow>
     is_subset_of fs (ec_capabilities c) (ec_capabilities a)
     \<and> resource_grants_are_subset (ec_resource_grants c) (ec_resource_grants a)
     \<and> (\<forall>provider model. allows_model (ec_model_policy c) provider model
          \<longrightarrow> allows_model (ec_model_policy a) provider model)
     \<and> operation_set (ec_connection_bindings c) \<subseteq> operation_set (ec_connection_bindings a)"

lemma context_within_refl: "context_within fs c c"
  by (simp add: context_within_def is_subset_of_refl resource_grants_subset_refl)

lemma context_within_trans:
  assumes "canonical_paths fs" "context_within fs c b" "context_within fs b a"
  shows "context_within fs c a"
  using assms is_subset_of_trans [OF assms(1)] resource_grants_subset_trans
  unfolding context_within_def by (metis subset_trans)

section \<open>The result of a creation\<close>

lemma delegate_from_None [simp]:
  "delegate_from to_vec fs t thread_id mode None parent_template b = Inr b"
  by (simp add: delegate_from_def)

lemma delegate_from_Some:
  assumes "delegate_from to_vec fs t thread_id mode (Some p) parent_template b = Inr b'"
  shows "b' = \<lparr>bd_capabilities =
                 intersect fs (bd_capabilities b) (ec_capabilities (ai_execution_context p)),
               bd_grants = intersect_resource_grants (bd_grants b)
                 (ec_resource_grants (ai_execution_context p)),
               bd_models = intersect_models (bd_models b) (ec_model_policy (ai_execution_context p)),
               bd_bindings = intersect_connection_bindings (bd_bindings b)
                 (ec_connection_bindings (ai_execution_context p)),
               bd_parent = Some (ai_id p), bd_depth = ai_delegation_depth p + 1,
               bd_chain = ec_delegation_chain (ai_execution_context p) @ [ai_id p]\<rparr>"
    and "ai_delegation_depth p < max_agent_delegation_depth"
    and "ai_status p = ActiveInstance" "ai_thread_id p = thread_id"
    and "\<exists>pt. parent_template = Some pt \<and> at_template_id pt = ai_template_id p
           \<and> at_version pt = ai_template_version p \<and> at_status pt = PublishedTemplate
           \<and> (ts_allow_all_delegates (at_spec pt)
              \<or> at_template_id t \<in> ts_delegate_template_ids (at_spec pt))"
  using assms by (auto simp: delegate_from_def res_Inr_iffs split: option.splits if_splits)

lemma instantiate_Inr:
  assumes "instantiate_with_connections to_vec fs new_id now t thread_id mode mode_capabilities
             parent_agent parent_template requested_capabilities requested_grants requested_models
             requested_bindings resolved initial_state = Inr i"
  obtains b where
    "validate_template t = Inr ()" "at_status t = PublishedTemplate"
    "at_content_hash t = calculate_content_hash to_vec t"
    "validate_value_against_schema (ts_state_schema (at_spec t)) initial_state ''$state'' = Inr ()"
    "resolved_bindings_match (ts_connection_bindings (at_spec t)) resolved"
    "delegate_from to_vec fs t thread_id mode parent_agent parent_template
       \<lparr>bd_capabilities = intersect fs mode_capabilities
          (capabilities_with_resolved_connections (ts_capabilities (at_spec t)) resolved),
        bd_grants = ts_resource_grants (at_spec t), bd_models = ts_model_policy (at_spec t),
        bd_bindings = ts_connection_bindings (at_spec t), bd_parent = None, bd_depth = 0,
        bd_chain = []\<rparr> = Inr b"
    "ai_id i = new_id" "ai_thread_id i = thread_id" "ai_state i = initial_state"
    "ai_schema_version i = agent_schema_version" "ai_template_id i = at_template_id t"
    "ai_template_version i = at_version t" "ai_parent_instance_id i = bd_parent b"
    "ai_delegation_depth i = bd_depth b"
    "ai_execution_context i =
       \<lparr>ec_schema_version = agent_schema_version, ec_agent_id = new_id, ec_thread_id = thread_id,
        ec_mode = mode, ec_template_id = at_template_id t, ec_template_version = at_version t,
        ec_parent_agent_id = bd_parent b, ec_delegation_chain = bd_chain b,
        ec_capabilities =
          intersect fs (narrow_by (intersect fs) requested_capabilities (bd_capabilities b))
            (capabilities_with_connection_operations (ts_capabilities (at_spec t))
              (effective_operations
                (narrow_by intersect_connection_bindings requested_bindings (bd_bindings b)) resolved)),
        ec_resource_grants = narrow_by intersect_resource_grants requested_grants (bd_grants b),
        ec_model_policy = narrow_by intersect_models requested_models (bd_models b),
        ec_connection_bindings =
          narrow_by intersect_connection_bindings requested_bindings (bd_bindings b),
        ec_connection_operations = effective_operations
          (narrow_by intersect_connection_bindings requested_bindings (bd_bindings b)) resolved,
        ec_knowledge_binding = ts_knowledge_binding (at_spec t)\<rparr>"
  using assms
  unfolding instantiate_with_connections_def res_Inr_iffs map_err_Inr_iff Let_def sum.inject
  by (elim exE conjE) (hypsubst, rule that; simp)

lemma instantiate_within_parent:
  assumes fs: "canonical_paths fs"
    and inst: "instantiate_with_connections to_vec fs new_id now t thread_id mode mode_capabilities
             (Some p) parent_template requested_capabilities requested_grants requested_models
             requested_bindings resolved initial_state = Inr i"
  shows "context_within fs (ai_execution_context i) (ai_execution_context p)"
    and "ai_delegation_depth i = ai_delegation_depth p + 1"
    and "ai_delegation_depth i \<le> max_agent_delegation_depth"
    and "ec_delegation_chain (ai_execution_context i)
           = ec_delegation_chain (ai_execution_context p) @ [ai_id p]"
proof -
  from inst obtain b where delegate: "delegate_from to_vec fs t thread_id mode (Some p) parent_template
       \<lparr>bd_capabilities = intersect fs mode_capabilities
          (capabilities_with_resolved_connections (ts_capabilities (at_spec t)) resolved),
        bd_grants = ts_resource_grants (at_spec t), bd_models = ts_model_policy (at_spec t),
        bd_bindings = ts_connection_bindings (at_spec t), bd_parent = None, bd_depth = 0,
        bd_chain = []\<rparr> = Inr b"
    and depth: "ai_delegation_depth i = bd_depth b"
    and ctx: "ec_delegation_chain (ai_execution_context i) = bd_chain b"
      "ec_capabilities (ai_execution_context i) =
          intersect fs (narrow_by (intersect fs) requested_capabilities (bd_capabilities b))
            (capabilities_with_connection_operations (ts_capabilities (at_spec t))
              (effective_operations
                (narrow_by intersect_connection_bindings requested_bindings (bd_bindings b)) resolved))"
      "ec_resource_grants (ai_execution_context i)
         = narrow_by intersect_resource_grants requested_grants (bd_grants b)"
      "ec_model_policy (ai_execution_context i)
         = narrow_by intersect_models requested_models (bd_models b)"
      "ec_connection_bindings (ai_execution_context i)
         = narrow_by intersect_connection_bindings requested_bindings (bd_bindings b)"
    by (rule instantiate_Inr) simp
  note b = delegate_from_Some [OF delegate]
  let ?pc = "ai_execution_context p"
  have bd: "is_subset_of fs (bd_capabilities b) (ec_capabilities ?pc)"
    "resource_grants_are_subset (bd_grants b) (ec_resource_grants ?pc)"
    "operation_set (bd_bindings b) \<subseteq> operation_set (ec_connection_bindings ?pc)"
    using b(1) intersect_subset(2) [OF fs] intersect_resource_grants_subset(2)
      operation_set_intersect_subset by auto
  have models: "allows_model (ec_model_policy ?pc) provider model"
    if "allows_model (bd_models b) provider model" for provider model
    using b(1) that by (simp add: allows_intersect_models)
  have "is_subset_of fs (narrow_by (intersect fs) requested_capabilities (bd_capabilities b))
      (bd_capabilities b)"
    by (rule narrow_by_induct) (simp_all add: is_subset_of_refl intersect_subset [OF fs])
  then have "is_subset_of fs (ec_capabilities (ai_execution_context i)) (ec_capabilities ?pc)"
    unfolding ctx using bd(1) is_subset_of_trans [OF fs] intersect_subset(1) [OF fs] by blast
  moreover have "resource_grants_are_subset (ec_resource_grants (ai_execution_context i))
      (ec_resource_grants ?pc)"
    unfolding ctx
    by (rule narrow_by_induct)
       (use bd(2) resource_grants_subset_trans intersect_resource_grants_subset(1) in blast)+
  moreover have "allows_model (ec_model_policy ?pc) provider model"
    if "allows_model (ec_model_policy (ai_execution_context i)) provider model" for provider model
    using that models
    by (auto simp: ctx narrow_by_def allows_intersect_models split: option.splits)
  moreover have "operation_set (ec_connection_bindings (ai_execution_context i))
      \<subseteq> operation_set (ec_connection_bindings ?pc)"
    unfolding ctx
    by (rule narrow_by_induct) (use bd(3) operation_set_intersect_subset in blast)+
  ultimately show "context_within fs (ai_execution_context i) ?pc"
    by (simp add: context_within_def)
  show "ai_delegation_depth i = ai_delegation_depth p + 1"
    "ai_delegation_depth i \<le> max_agent_delegation_depth"
    "ec_delegation_chain (ai_execution_context i) = ec_delegation_chain ?pc @ [ai_id p]"
    using b(1,2) depth ctx(1) by simp_all
qed

section \<open>Chains of delegation\<close>

text \<open>
  An agent may change its state and status between its creation and a delegation; its execution
  context is never changed.
\<close>

inductive agent_lineage :: "template_encoder \<Rightarrow> filesystem \<Rightarrow> agent_instance \<Rightarrow> agent_instance \<Rightarrow> bool"
  for to_vec fs where
  first_agent:
    "instantiate_with_connections to_vec fs new_id now t thread_id mode mode_capabilities None
       parent_template requested_capabilities requested_grants requested_models requested_bindings
       resolved initial_state = Inr i
     \<Longrightarrow> agent_lineage to_vec fs i i"
| delegated_agent:
    "agent_lineage to_vec fs root p
     \<Longrightarrow> instantiate_with_connections to_vec fs new_id now t thread_id mode mode_capabilities
          (Some (p\<lparr>ai_state := s, ai_state_revision := n, ai_status := status, ai_updated_at := u\<rparr>))
          parent_template requested_capabilities requested_grants requested_models
          requested_bindings resolved initial_state = Inr i
     \<Longrightarrow> agent_lineage to_vec fs root i"

definition chain_ok :: "agent_instance \<Rightarrow> bool" where
  "chain_ok i \<longleftrightarrow>
     ai_delegation_depth i = length (ec_delegation_chain (ai_execution_context i))
     \<and> ai_delegation_depth i \<le> max_agent_delegation_depth"

lemma first_agent_chain_ok:
  assumes "instantiate_with_connections to_vec fs new_id now t thread_id mode mode_capabilities None
       parent_template requested_capabilities requested_grants requested_models requested_bindings
       resolved initial_state = Inr i"
  shows "chain_ok i"
  using assms by (rule instantiate_Inr) (auto simp: chain_ok_def)

lemma lineage_invariant:
  assumes "canonical_paths fs" "agent_lineage to_vec fs root i"
  shows "context_within fs (ai_execution_context i) (ai_execution_context root) \<and> chain_ok i"
  using assms(2)
proof (induction rule: agent_lineage.induct)
  case first_agent
  then show ?case using first_agent_chain_ok by (simp add: context_within_refl)
next
  case delegated_agent
  note step = instantiate_within_parent [OF assms(1) delegated_agent.hyps(2), simplified]
  show ?case
    using delegated_agent.IH step context_within_trans [OF assms(1) step(1)]
    by (simp add: chain_ok_def)
qed

section \<open>Boundaries of an agent that is created\<close>

definition bounded_by :: "filesystem \<Rightarrow> agent_template \<Rightarrow> capability_projection \<Rightarrow> boundary \<Rightarrow> bool" where
  "bounded_by fs t ceiling b \<longleftrightarrow>
     is_subset_of fs (bd_capabilities b) ceiling
     \<and> resource_grants_are_subset (bd_grants b) (ts_resource_grants (at_spec t))
     \<and> intersect_models (bd_models b) (ts_model_policy (at_spec t)) = bd_models b
     \<and> well_formed_bindings (bd_bindings b)
     \<and> operation_set (bd_bindings b) \<subseteq> operation_set (ts_connection_bindings (at_spec t))
     \<and> bd_depth b = length (bd_chain b) \<and> bd_depth b \<le> max_agent_delegation_depth
     \<and> (bd_parent b = None \<longrightarrow> bd_depth b = 0)"

lemma bounded_byD:
  assumes "bounded_by fs t ceiling b"
  shows "is_subset_of fs (bd_capabilities b) ceiling"
    "resource_grants_are_subset (bd_grants b) (ts_resource_grants (at_spec t))"
    "intersect_models (bd_models b) (ts_model_policy (at_spec t)) = bd_models b"
    "well_formed_bindings (bd_bindings b)"
    "operation_set (bd_bindings b) \<subseteq> operation_set (ts_connection_bindings (at_spec t))"
    "bd_depth b = length (bd_chain b)" "bd_depth b \<le> max_agent_delegation_depth"
    "bd_parent b = None \<Longrightarrow> bd_depth b = 0"
  using assms unfolding bounded_by_def by blast+

lemma intersect_within:
  assumes "canonical_paths fs" "is_subset_of fs a c"
  shows "is_subset_of fs (intersect fs a b) c"
  by (rule is_subset_of_trans [OF assms(1) intersect_subset(1) [OF assms(1)] assms(2)])

lemma intersect_resource_grants_within:
  "resource_grants_are_subset gs hs \<Longrightarrow> resource_grants_are_subset (intersect_resource_grants gs rs) hs"
  by (rule resource_grants_subset_trans [OF intersect_resource_grants_subset(1)])

lemma intersect_bindings_within:
  "operation_set bs \<subseteq> s \<Longrightarrow> operation_set (intersect_connection_bindings bs rs) \<subseteq> s"
  using operation_set_intersect_subset by blast

lemma delegate_from_bounded:
  assumes fs: "canonical_paths fs"
    and delegate: "delegate_from to_vec fs t thread_id mode parent_agent parent_template b = Inr b'"
    and bounded: "bounded_by fs t ceiling b"
    and chain: "\<forall>p. parent_agent = Some p \<longrightarrow> chain_ok p"
  shows "bounded_by fs t ceiling b'"
proof (cases parent_agent)
  case None
  with delegate bounded show ?thesis by simp
next
  case (Some p)
  note d = delegate_from_Some [OF delegate [unfolded Some]]
  from chain Some have "chain_ok p" by simp
  with bounded_byD [OF bounded] d(2) show ?thesis
    unfolding d(1)
    by (simp add: bounded_by_def chain_ok_def intersect_models_absorb well_formed_intersect
          intersect_within [OF fs] intersect_resource_grants_within intersect_bindings_within)
qed

lemma template_bounds_itself:
  assumes "validate_template t = Inr ()"
  shows "bounded_by fs t c
     \<lparr>bd_capabilities = c, bd_grants = ts_resource_grants (at_spec t),
      bd_models = ts_model_policy (at_spec t), bd_bindings = ts_connection_bindings (at_spec t),
      bd_parent = None, bd_depth = 0, bd_chain = []\<rparr>"
  using validate_template_Inr [OF assms]
  by (simp add: bounded_by_def is_subset_of_refl resource_grants_subset_refl intersect_models_self)

lemma narrowed_bindings_bounded:
  assumes "bounded_by fs t ceiling b" "validate_template t = Inr ()"
  shows "well_formed_bindings (narrow_by intersect_connection_bindings requested (bd_bindings b))"
    and "connection_bindings_are_subset
           (narrow_by intersect_connection_bindings requested (bd_bindings b))
           (ts_connection_bindings (at_spec t))"
proof -
  let ?bs = "narrow_by intersect_connection_bindings requested (bd_bindings b)"
  note b = bounded_byD [OF assms(1)]
  show wf: "well_formed_bindings ?bs"
    by (rule narrow_by_induct) (simp_all add: b well_formed_intersect)
  have "operation_set ?bs \<subseteq> operation_set (ts_connection_bindings (at_spec t))"
    by (rule narrow_by_induct) (simp_all add: b intersect_bindings_within)
  moreover have "distinct (map cb_connection_id (ts_connection_bindings (at_spec t)))"
    using validate_template_Inr(3) [OF assms(2)] by (simp add: well_formed_bindings_def)
  ultimately show "connection_bindings_are_subset ?bs (ts_connection_bindings (at_spec t))"
    using well_formed_operations [OF wf] by (subst connection_bindings_are_subset_iff) auto
qed

lemma narrowed_boundary:
  assumes "canonical_paths fs" "bounded_by fs t ceiling b"
  shows "is_subset_of fs (narrow_by (intersect fs) requested_capabilities (bd_capabilities b)) ceiling"
    and "resource_grants_are_subset
           (narrow_by intersect_resource_grants requested_grants (bd_grants b))
           (ts_resource_grants (at_spec t))"
    and "intersect_models (narrow_by intersect_models requested_models (bd_models b))
           (ts_model_policy (at_spec t)) = narrow_by intersect_models requested_models (bd_models b)"
  by (rule narrow_by_induct; simp add: bounded_byD [OF assms(2)] intersect_within [OF assms(1)]
        intersect_resource_grants_within intersect_models_absorb)+

section \<open>Properties\<close>


definition example_agent :: "uuid \<Rightarrow> string list \<Rightarrow> agent_instance option \<Rightarrow> template_error + agent_instance" where
  "example_agent new_id tools parent_agent =
     instantiate_with_connections (\<lambda>_. []) plain_files new_id 0
       (example_template 1 PublishedTemplate tools) ''thread'' WorkMode unrestricted parent_agent
       (Some (example_template 1 PublishedTemplate tools)) None None None None [] JNull"

lemma example_resolved: "resolved_bindings_match [] []"
  by (simp add: resolved_bindings_match_def)

lemma example_root:
  obtains i where "example_agent ''a'' tools None = Inr i" "ai_status i = ActiveInstance"
    "ai_thread_id i = ''thread''" "ec_mode (ai_execution_context i) = WorkMode"
    "ai_template_id i = ''reviewer''" "ai_template_version i = 1" "ai_delegation_depth i = 0"
proof -
  have "\<exists>i. example_agent ''a'' tools None = Inr i \<and> ai_status i = ActiveInstance
    \<and> ai_thread_id i = ''thread'' \<and> ec_mode (ai_execution_context i) = WorkMode
    \<and> ai_template_id i = ''reviewer'' \<and> ai_template_version i = 1 \<and> ai_delegation_depth i = 0"
    using example_template_valid [of 1 PublishedTemplate tools] example_resolved
    by (simp add: example_agent_def instantiate_with_connections_def res_ensure_def Let_def
          calculate_content_hash_def validation_conforms conforms.simps example_template_def
          example_template_spec_def validate_value_against_schema.simps)
  with that show thesis by blast
qed

lemma example_child:
  assumes "ai_status p = ActiveInstance"
    "ai_thread_id p = ''thread''" "ec_mode (ai_execution_context p) = WorkMode"
    "ai_template_id p = ''reviewer''" "ai_template_version p = 1" "ai_delegation_depth p = 0"
  obtains i where "example_agent ''b'' tools (Some p) = Inr i" "ai_delegation_depth i = 1"
proof -
  have "\<exists>i. example_agent ''b'' tools (Some p) = Inr i \<and> ai_delegation_depth i = 1"
    using assms example_template_valid [of 1 PublishedTemplate tools] example_resolved
    by (simp add: example_agent_def instantiate_with_connections_def res_ensure_def Let_def
          calculate_content_hash_def example_template_def example_template_spec_def
          validate_value_against_schema.simps delegate_from_def max_agent_delegation_depth_def)
  with that show thesis by blast
qed


text \<open>
  Every agent that is created passes the check of its execution boundary against the template, the
  mode and the resolved connections it was created with, provided the depth of its parent is the
  length of the parent's chain (which the first claim shows of every agent): the check never blocks an
  agent whose context is as it was created.
\<close>
theorem created_agent_passes_boundary_check:
  assumes "canonical_paths fs"
    and "instantiate_with_connections to_vec fs new_id now t thread_id mode mode_capabilities
           parent_agent parent_template requested_capabilities requested_grants requested_models
           requested_bindings resolved initial_state = Inr i"
    and "\<forall>p. parent_agent = Some p \<longrightarrow> chain_ok p"
  shows "validate_execution_boundary_with_connections to_vec fs i t mode_capabilities resolved = Inr ()"
proof -
  let ?ceiling = "intersect fs mode_capabilities
      (capabilities_with_resolved_connections (ts_capabilities (at_spec t)) resolved)"
  from assms(2) obtain b where
    valid: "validate_template t = Inr ()" "at_status t = PublishedTemplate"
      "at_content_hash t = calculate_content_hash to_vec t"
      "validate_value_against_schema (ts_state_schema (at_spec t)) initial_state ''$state'' = Inr ()"
      "resolved_bindings_match (ts_connection_bindings (at_spec t)) resolved"
    and delegate: "delegate_from to_vec fs t thread_id mode parent_agent parent_template
       \<lparr>bd_capabilities = ?ceiling, bd_grants = ts_resource_grants (at_spec t),
        bd_models = ts_model_policy (at_spec t), bd_bindings = ts_connection_bindings (at_spec t),
        bd_parent = None, bd_depth = 0, bd_chain = []\<rparr> = Inr b"
    and i: "ai_id i = new_id" "ai_thread_id i = thread_id" "ai_state i = initial_state"
      "ai_schema_version i = agent_schema_version" "ai_template_id i = at_template_id t"
      "ai_template_version i = at_version t" "ai_parent_instance_id i = bd_parent b"
      "ai_delegation_depth i = bd_depth b"
    and ctx: "ai_execution_context i =
       \<lparr>ec_schema_version = agent_schema_version, ec_agent_id = new_id, ec_thread_id = thread_id,
        ec_mode = mode, ec_template_id = at_template_id t, ec_template_version = at_version t,
        ec_parent_agent_id = bd_parent b, ec_delegation_chain = bd_chain b,
        ec_capabilities =
          intersect fs (narrow_by (intersect fs) requested_capabilities (bd_capabilities b))
            (capabilities_with_connection_operations (ts_capabilities (at_spec t))
              (effective_operations
                (narrow_by intersect_connection_bindings requested_bindings (bd_bindings b)) resolved)),
        ec_resource_grants = narrow_by intersect_resource_grants requested_grants (bd_grants b),
        ec_model_policy = narrow_by intersect_models requested_models (bd_models b),
        ec_connection_bindings =
          narrow_by intersect_connection_bindings requested_bindings (bd_bindings b),
        ec_connection_operations = effective_operations
          (narrow_by intersect_connection_bindings requested_bindings (bd_bindings b)) resolved,
        ec_knowledge_binding = ts_knowledge_binding (at_spec t)\<rparr>"
    by (rule instantiate_Inr)
  have bounded: "bounded_by fs t ?ceiling b"
    by (rule delegate_from_bounded [OF assms(1) delegate template_bounds_itself [OF valid(1)] assms(3)])
  note narrowed = narrowed_boundary [OF assms(1) bounded]
    narrowed_bindings_bounded [OF bounded valid(1)]
  have "is_subset_of fs (ec_capabilities (ai_execution_context i)) ?ceiling"
    using narrowed(1) is_subset_of_trans [OF assms(1) intersect_subset(1) [OF assms(1)]]
    by (simp add: ctx)
  then have "is_subset_of fs (ec_capabilities (ai_execution_context i)) mode_capabilities"
    by (simp add: is_subset_of_intersect [OF assms(1)])
  moreover note \<open>is_subset_of fs (ec_capabilities (ai_execution_context i)) ?ceiling\<close>
  moreover have "bd_depth b = length (bd_chain b) \<and> length (bd_chain b) \<le> max_agent_delegation_depth
      \<and> (bd_parent b = None \<longrightarrow> length (bd_chain b) = 0)"
    using bounded_byD [OF bounded] by metis
  moreover have "is_ok (validate_connection_bindings_shape
      (narrow_by intersect_connection_bindings requested_bindings (bd_bindings b)))"
    using narrowed(4) by (simp add: is_ok_def validate_shape_iff [symmetric])
  moreover note narrowed(2) [of requested_grants] narrowed(3) [of requested_models]
    narrowed(5) [of requested_bindings] intersect_subset(2) [OF assms(1)]
  ultimately show ?thesis
    using valid
    by (cases "bd_parent b")
       (simp_all add: validate_execution_boundary_with_connections_def Let_def res_ensure_def i ctx
          is_subset_of_intersect [OF assms(1)])
qed

theorem created_agent_passes_boundary_check_witness:
  "\<exists>i. example_agent ''a'' [''grep''] None = Inr i
     \<and> validate_execution_boundary_with_connections (\<lambda>_. []) plain_files i
         (example_template 1 PublishedTemplate [''grep'']) unrestricted [] = Inr ()"
proof -
  obtain i where i: "example_agent ''a'' [''grep''] None = Inr i" by (rule example_root)
  with created_agent_passes_boundary_check
    [OF plain_files_canonical i [unfolded example_agent_def]] show ?thesis by auto
qed

end
