(* ===== verification/Flow_Compiler.thy ===== *)
theory Flow_Compiler
  imports Agent_Template Workflow_State
begin

text \<open>
  Flow specifications: drafts, validation, compilation, simulation and publication (\<open>flow.rs\<close>).

  A validation issue is a constructor of \<open>flow_issue\<close> with the data its texts are formatted from;
  \<open>issue_code\<close> is its code.  Every issue of the code has the severity \<open>Error\<close>.  Arguments stand for
  the deserialisation of activations and state writes, the serialisation of a specification
  (\<open>to_vec\<close>), the Unicode \<open>to_lowercase\<close>, the current time and new identifiers.
\<close>

section \<open>Specifications\<close>

definition max_flow_nodes :: nat where
  "max_flow_nodes = 128"

definition max_flow_loop_iterations :: nat where
  "max_flow_loop_iterations = 50"

definition max_flow_duration_seconds :: nat where
  "max_flow_duration_seconds = 86400"

datatype flow_source = NaturalLanguage string | RunTrace uuid string

datatype flow_draft_status = Drafting | Reviewing | Validating | ReadyToPublish | PublishedDraft

record flow_spec =
  fs_flow_id :: string
  fs_name :: string
  fs_description :: string
  fs_owner :: string
  fs_categories :: "string set"
  fs_source :: flow_source
  fs_input_schema :: json
  fs_output_schema :: json
  fs_graph :: graph_definition
  fs_requested_capabilities :: capability_projection
  fs_budget :: flow_budget
  fs_risk_class :: risk_class
  fs_pending_decisions :: "string list"

datatype flow_issue =
    IdentityRequired
  | DecisionsPending nat
  | NodeCountInvalid
  | BudgetInvalid
  | DuplicateNodeId
  | EntryMissing string
  | OutputMissing
  | EdgeReferenceMissing nat
  | ConditionUnsafe nat
  | LoopUnbounded nat
  | SchemaIncompatible nat
  | ClassificationDowngrade nat
  | TriggerInvalid activation_issue
  | NodeUnreachable string
  | OutputNotTerminal string
  | ToolRecoveryRequired string string
  | ToolNotVisible string string
  | ToolReferenceRequired string
  | SkillNotVisible string string
  | SkillReferenceRequired string
  | AgentVersionRequired string
  | LoopFeedbackRequired string
  | StateChannelInvalid state_issue
  | CycleUnbounded
  | CapabilityExpansion
  | RiskGateMissing

fun issue_code :: "flow_issue \<Rightarrow> string" where
  "issue_code IdentityRequired = ''flow.identity.required''"
| "issue_code (DecisionsPending _) = ''flow.decisions.pending''"
| "issue_code NodeCountInvalid = ''graph.node_count.invalid''"
| "issue_code BudgetInvalid = ''flow.budget.invalid''"
| "issue_code DuplicateNodeId = ''graph.node_id.duplicate''"
| "issue_code (EntryMissing _) = ''graph.entry.missing''"
| "issue_code OutputMissing = ''graph.output.missing''"
| "issue_code (EdgeReferenceMissing _) = ''graph.edge.reference_missing''"
| "issue_code (ConditionUnsafe _) = ''graph.condition.unsafe''"
| "issue_code (LoopUnbounded _) = ''graph.loop.unbounded''"
| "issue_code (SchemaIncompatible _) = ''graph.schema.incompatible''"
| "issue_code (ClassificationDowngrade _) = ''graph.data_classification.downgrade''"
| "issue_code (TriggerInvalid _) = ''graph.trigger.invalid''"
| "issue_code (NodeUnreachable _) = ''graph.node.unreachable''"
| "issue_code (OutputNotTerminal _) = ''graph.output.not_terminal''"
| "issue_code (ToolRecoveryRequired _ _) = ''node.tool.recovery_required''"
| "issue_code (ToolNotVisible _ _) = ''node.tool.not_visible''"
| "issue_code (ToolReferenceRequired _) = ''node.tool.reference_required''"
| "issue_code (SkillNotVisible _ _) = ''node.skill.not_visible''"
| "issue_code (SkillReferenceRequired _) = ''node.skill.reference_required''"
| "issue_code (AgentVersionRequired _) = ''node.agent.version_required''"
| "issue_code (LoopFeedbackRequired _) = ''node.loop.feedback_required''"
| "issue_code (StateChannelInvalid _) = ''graph.state_channel.invalid''"
| "issue_code CycleUnbounded = ''graph.cycle.unbounded''"
| "issue_code CapabilityExpansion = ''flow.capability.expansion''"
| "issue_code RiskGateMissing = ''flow.risk.gate_missing''"

record flow_validation_report =
  vr_valid :: bool
  vr_issues :: "flow_issue list"
  vr_validated_at :: timestamp

section \<open>Conditions and schemas\<close>

definition safe_condition :: "string \<Rightarrow> bool" where
  "safe_condition condition \<longleftrightarrow>
     trim condition \<noteq> [] \<and> length condition \<le> 512
     \<and> \<not> list_ex (contains_str condition)
          ['';'', ''{'', ''}'', ''=>'', ''function'', ''import'', ''eval'', ''exec('']"

definition schema_type :: "json \<Rightarrow> string option" where
  "schema_type schema = Option.bind (json_get schema ''type'') as_str"

definition parse_classification :: "string \<Rightarrow> data_classification option" where
  "parse_classification s =
     (if s = ''public'' then Some Public
      else if s = ''internal'' then Some Internal
      else if s = ''confidential'' then Some Confidential
      else if s = ''restricted'' then Some Restricted
      else None)"

definition schemas_compatible :: "json \<Rightarrow> json \<Rightarrow> string list \<Rightarrow> bool" where
  "schemas_compatible source target allowed_fields =
     (if (case (schema_type source, schema_type target) of
            (Some l, Some r) \<Rightarrow> l \<noteq> r
          | _ \<Rightarrow> False) then False
      else
        (case (Option.bind (json_get source ''properties'') as_object,
               Option.bind (json_get target ''required'') as_array) of
           (Some properties, Some required) \<Rightarrow>
             list_all (\<lambda>field.
               case as_str field of
                 None \<Rightarrow> False
               | Some name \<Rightarrow>
                   bt_contains properties name
                   \<and> (allowed_fields = [] \<or> name \<in> set allowed_fields)) required
         | _ \<Rightarrow> True))"

section \<open>Cycles\<close>

type_synonym adjacency = "(string, (string \<times> bool) list) btree"

definition bt_push :: "'k::linorder \<Rightarrow> 'v \<Rightarrow> ('k, 'v list) btree \<Rightarrow> ('k, 'v list) btree" where
  \<comment> \<open>\<open>map.entry(k).or_default().push(v)\<close>\<close>
  "bt_push k v m = bt_insert k ((case bt_get m k of Some vs \<Rightarrow> vs | None \<Rightarrow> []) @ [v]) m"

definition cycle_adjacency :: "graph_definition \<Rightarrow> adjacency" where
  "cycle_adjacency g =
     fold (\<lambda>e. bt_push (ge_from e) (ge_to e, ge_loop_policy e \<noteq> None)) (gd_edges g) []"

lemma finite_bt_keys [simp]: "finite (fst ` set m)"
  by simp

lemma unvisited_decreases:
  assumes "bt_get adj i = Some out" "i \<notin> visiting"
  shows "card (fst ` set adj - insert i visiting) < card (fst ` set adj - visiting)"
proof (rule psubset_card_mono)
  have "i \<in> fst ` set adj" using bt_get_in_set [OF assms(1)] by force
  with assms(2) show "fst ` set adj - insert i visiting \<subset> fst ` set adj - visiting" by blast
qed simp

text \<open>
  The depth-first search of \<open>contains_unbounded_cycle\<close>.  The result is its answer and the set
  \<open>visited\<close> afterwards.  On a negative answer the set \<open>visiting\<close> is as before the call, and a positive
  answer ends the whole search, so it is passed down only.
\<close>

function (sequential) visit :: "adjacency \<Rightarrow> string \<Rightarrow> string set \<Rightarrow> string set \<Rightarrow> bool \<times> string set"
  and visit_targets ::
    "adjacency \<Rightarrow> (string \<times> bool) list \<Rightarrow> string set \<Rightarrow> string set \<Rightarrow> bool \<times> string set" where
  "visit adj i visiting visited =
     (if i \<in> visiting then (True, visited)
      else if i \<in> visited then (False, visited)
      else
        (case bt_get adj i of
           None \<Rightarrow> (False, insert i visited)
         | Some out \<Rightarrow>
             (case visit_targets adj out (insert i visiting) visited of
                (True, v) \<Rightarrow> (True, v)
              | (False, v) \<Rightarrow> (False, insert i v))))"
| "visit_targets adj [] visiting visited = (False, visited)"
| "visit_targets adj ((target, bounded) # rest) visiting visited =
     (if bounded then visit_targets adj rest visiting visited
      else
        (case visit adj target visiting visited of
           (True, v) \<Rightarrow> (True, v)
         | (False, v) \<Rightarrow> visit_targets adj rest visiting v))"
  by pat_completeness auto
termination
  by (relation "measures
        [\<lambda>x. (case x of
            Inl (adj, i, visiting, visited) \<Rightarrow> card (fst ` set adj - visiting)
          | Inr (adj, out, visiting, visited) \<Rightarrow> card (fst ` set adj - visiting)),
         \<lambda>x. (case x of Inl _ \<Rightarrow> 0 | Inr (adj, out, visiting, visited) \<Rightarrow> Suc (length out))]")
     (auto intro: unvisited_decreases)

declare visit.simps [simp del]

fun any_cycle :: "adjacency \<Rightarrow> string list \<Rightarrow> string set \<Rightarrow> bool" where
  "any_cycle adj [] visited = False"
| "any_cycle adj (i # rest) visited =
     (if i \<in> visited then any_cycle adj rest visited
      else
        (case visit adj i {} visited of
           (True, _) \<Rightarrow> True
         | (False, v) \<Rightarrow> any_cycle adj rest v))"

definition contains_unbounded_cycle :: "graph_definition \<Rightarrow> bool" where
  "contains_unbounded_cycle g = any_cycle (cycle_adjacency g) (map gn_id (gd_nodes g)) {}"

section \<open>Reachability\<close>

function (sequential) explore :: "(string, string list) btree \<Rightarrow> string list \<Rightarrow> string set \<Rightarrow> string set" where
  "explore adj [] reachable = reachable"
| "explore adj (i # queue) reachable =
     (if i \<in> reachable then explore adj queue reachable
      else
        (case bt_get adj i of
           None \<Rightarrow> explore adj queue (insert i reachable)
         | Some out \<Rightarrow> explore adj (queue @ out) (insert i reachable)))"
  by pat_completeness auto
termination
proof (relation "measures [\<lambda>(adj, queue, reachable). card (fst ` set adj - reachable),
          \<lambda>(adj, queue, reachable). length queue]", goal_cases)
  case (3 adj i queue reachable)
  have "card (fst ` set adj - insert i reachable) \<le> card (fst ` set adj - reachable)"
    by (rule card_mono) auto
  then show ?case by (auto simp: le_less)
qed (auto intro: unvisited_decreases)

declare explore.simps [simp del]

section \<open>Validation\<close>

definition edge_present :: "graph_definition \<Rightarrow> graph_edge \<Rightarrow> bool" where
  "edge_present g e \<longleftrightarrow>
     ge_from e \<in> gn_id ` set (gd_nodes g) \<and> ge_to e \<in> gn_id ` set (gd_nodes g)"

definition node_index :: "graph_definition \<Rightarrow> (string, graph_node) btree" where
  "node_index g = bt_extend (map (\<lambda>n. (gn_id n, n)) (gd_nodes g)) []"

definition flow_adjacency :: "graph_definition \<Rightarrow> (string, string list) btree" where
  "flow_adjacency g =
     fold (\<lambda>e. bt_push (ge_from e) (ge_to e)) (filter (edge_present g) (gd_edges g)) []"

definition output_classification :: "graph_node \<Rightarrow> data_classification" where
  "output_classification n =
     (case Option.bind (Option.bind (json_get (gn_config n) ''outputClassification'') as_str)
             parse_classification of
        Some c \<Rightarrow> c
      | None \<Rightarrow> Internal)"

definition loop_policy_ok :: "flow_budget \<Rightarrow> graph_loop_policy \<Rightarrow> bool" where
  "loop_policy_ok budget p \<longleftrightarrow>
     \<not> (lp_max_iterations p = 0 \<or> fb_max_loop_iterations budget < lp_max_iterations p
        \<or> max_flow_loop_iterations < lp_max_iterations p
        \<or> trim (lp_continue_condition p) = [] \<or> \<not> safe_condition (lp_continue_condition p))"

definition report_if :: "bool \<Rightarrow> 'a \<Rightarrow> 'a list" where
  \<comment> \<open>\<open>if b { error(x) }\<close>\<close>
  "report_if b x = (if b then [x] else [])"

definition edge_issues :: "flow_budget \<Rightarrow> graph_definition \<Rightarrow> nat \<times> graph_edge \<Rightarrow> flow_issue list" where
  "edge_issues budget g indexed =
     (let (index, e) = indexed; nodes = node_index g in
        case (bt_get nodes (ge_from e), bt_get nodes (ge_to e)) of
          (Some source, Some target) \<Rightarrow>
            (case ge_condition e of
               None \<Rightarrow> []
             | Some c \<Rightarrow> report_if (\<not> safe_condition c) (ConditionUnsafe index))
            @ (case ge_loop_policy e of
                 None \<Rightarrow> []
               | Some p \<Rightarrow> report_if (\<not> loop_policy_ok budget p) (LoopUnbounded index))
            @ report_if (\<not> schemas_compatible (gn_output_schema source) (gn_input_schema target)
                       (ge_allowed_fields e)) (SchemaIncompatible index)
            @ report_if (ge_data_classification e < output_classification source)
                (ClassificationDowngrade index)
        | _ \<Rightarrow> [EdgeReferenceMissing index])"

definition validate_graph_node :: "capability_projection \<Rightarrow> graph_node \<Rightarrow> flow_issue list" where
  \<comment> \<open>\<open>validate_node\<close>\<close>
  "validate_graph_node capabilities n =
     (let reference = Option.bind (json_get (gn_config n) ''reference'') as_str in
        case gn_kind n of
          ToolNode \<Rightarrow>
            (case reference of
               Some name \<Rightarrow>
                 if allows_tool capabilities name then
                   (let side_effect =
                          (case Option.bind (json_get (gn_config n) ''sideEffect'') as_str of
                             Some s \<Rightarrow> s
                           | None \<Rightarrow> ''none'')
                    in report_if (side_effect \<noteq> ''none'' \<and> side_effect \<noteq> ''read_only''
                             \<and> json_get (gn_config n) ''recoveryPolicy'' = None)
                         (ToolRecoveryRequired (gn_id n) name))
                 else [ToolNotVisible (gn_id n) name]
             | None \<Rightarrow> [ToolReferenceRequired (gn_id n)])
        | SkillNode \<Rightarrow>
            (case reference of
               Some i \<Rightarrow> report_if (\<not> allows_skill capabilities i) (SkillNotVisible (gn_id n) i)
             | None \<Rightarrow> [SkillReferenceRequired (gn_id n)])
        | AgentNode \<Rightarrow>
            report_if (reference = None
                  \<or> Option.bind (json_get (gn_config n) ''templateVersion'') as_u64 = None)
              (AgentVersionRequired (gn_id n))
        | LoopNode \<Rightarrow>
            report_if (json_get (gn_config n) ''feedbackSchema'' = None) (LoopFeedbackRequired (gn_id n))
        | _ \<Rightarrow> [])"

definition reachable_nodes :: "activation_decoder \<Rightarrow> graph_definition \<Rightarrow> string set" where
  "reachable_nodes decode g =
     (let roots = activation_root_node_ids decode g in
        explore (flow_adjacency g) (if roots = [] then [gd_entry_node_id g] else roots) {})"

definition node_issues ::
    "activation_decoder \<Rightarrow> capability_projection \<Rightarrow> graph_definition \<Rightarrow> graph_node \<Rightarrow> flow_issue list" where
  \<comment> \<open>the body of the loop over the nodes\<close>
  "node_issues decode capabilities g n =
     report_if (gn_id n \<notin> reachable_nodes decode g) (NodeUnreachable (gn_id n))
     @ report_if (gn_kind n = OutputNode
             \<and> (case bt_get (flow_adjacency g) (gn_id n) of Some out \<Rightarrow> out \<noteq> [] | None \<Rightarrow> False))
         (OutputNotTerminal (gn_id n))
     @ validate_graph_node capabilities n"

record flow_decoders =
  fd_activation :: activation_decoder
  fd_state_write :: "json \<Rightarrow> state_write option"

definition flow_issues ::
    "flow_decoders \<Rightarrow> filesystem \<Rightarrow> flow_spec \<Rightarrow> capability_projection \<Rightarrow> flow_issue list" where
  "flow_issues d fs spec capabilities =
     (let g = fs_graph spec; budget = fs_budget spec in
      report_if (fs_flow_id spec = [] \<or> fs_name spec = [] \<or> fs_owner spec = []) IdentityRequired
      @ report_if (fs_pending_decisions spec \<noteq> []) (DecisionsPending (length (fs_pending_decisions spec)))
      @ report_if (gd_nodes g = [] \<or> max_flow_nodes < length (gd_nodes g)) NodeCountInvalid
      @ report_if (fb_max_node_executions budget = 0 \<or> fb_max_tool_calls budget = 0
              \<or> fb_max_duration_seconds budget = 0
              \<or> max_flow_duration_seconds < fb_max_duration_seconds budget
              \<or> fb_max_loop_iterations budget = 0
              \<or> max_flow_loop_iterations < fb_max_loop_iterations budget) BudgetInvalid
      @ report_if (length (node_index g) \<noteq> length (gd_nodes g)) DuplicateNodeId
      @ report_if (\<not> bt_contains (node_index g) (gd_entry_node_id g)) (EntryMissing (gd_entry_node_id g))
      @ report_if (filter (\<lambda>n. gn_kind n = OutputNode) (gd_nodes g) = []) OutputMissing
      @ concat (map (edge_issues budget g) (List.enumerate 0 (gd_edges g)))
      @ map TriggerInvalid (validate_graph_activations (fd_activation d) g)
      @ concat (map (node_issues (fd_activation d) capabilities g) (gd_nodes g))
      @ map StateChannelInvalid (validate_graph_state_writes (fd_state_write d)
          (map (\<lambda>n. (gn_id n, gn_config n)) (gd_nodes g)))
      @ report_if (contains_unbounded_cycle g) CycleUnbounded
      @ report_if (\<not> is_subset_of fs (fs_requested_capabilities spec) capabilities) CapabilityExpansion
      @ report_if (fs_risk_class spec \<in> {HighRisk, CriticalRisk}
              \<and> (\<not> list_ex (\<lambda>n. gn_kind n = ValidatorNode) (gd_nodes g)
                 \<or> \<not> list_ex (\<lambda>n. gn_kind n = ApprovalNode) (gd_nodes g))) RiskGateMissing)"

definition validate_flow_spec ::
    "flow_decoders \<Rightarrow> filesystem \<Rightarrow> timestamp \<Rightarrow> flow_spec \<Rightarrow> capability_projection
      \<Rightarrow> flow_validation_report" where
  "validate_flow_spec d fs now spec capabilities =
     (let issues = flow_issues d fs spec capabilities in
        \<lparr>vr_valid = (issues = []), vr_issues = issues, vr_validated_at = now\<rparr>)"

section \<open>Compilation\<close>

datatype harness_target =
    AgentCore | AgentRunScheduler | SkillRuntime | ToolRegistry | RuntimeCondition
  | RuntimeValidator | RuntimeApproval | RuntimeJoin | RuntimeLoop | RuntimeOutput

definition harness_target_str :: "harness_target \<Rightarrow> string" where
  "harness_target_str t =
     (case t of
        AgentCore \<Rightarrow> ''agent_core''
      | AgentRunScheduler \<Rightarrow> ''agent_run_scheduler''
      | SkillRuntime \<Rightarrow> ''skill_runtime''
      | ToolRegistry \<Rightarrow> ''tool_registry''
      | RuntimeCondition \<Rightarrow> ''runtime_condition''
      | RuntimeValidator \<Rightarrow> ''runtime_validator''
      | RuntimeApproval \<Rightarrow> ''runtime_approval''
      | RuntimeJoin \<Rightarrow> ''runtime_join''
      | RuntimeLoop \<Rightarrow> ''runtime_loop''
      | RuntimeOutput \<Rightarrow> ''runtime_output'')"

record compiled_flow_node =
  cn_node_id :: string
  cn_target :: harness_target
  cn_reference :: "string option"

record compiled_flow_plan =
  pl_schema_version :: nat
  pl_flow_id :: string
  pl_content_hash :: string
  pl_entry_node_id :: string
  pl_nodes :: "compiled_flow_node list"
  pl_edges :: "graph_edge list"
  pl_budget :: flow_budget

definition node_target :: "graph_node \<Rightarrow> harness_target" where
  "node_target n =
     (case gn_kind n of
        AgentNode \<Rightarrow>
          if Option.bind (json_get (gn_config n) ''delegate'') as_bool = Some True
          then AgentRunScheduler else AgentCore
      | SkillNode \<Rightarrow> SkillRuntime
      | ToolNode \<Rightarrow> ToolRegistry
      | ConditionNode \<Rightarrow> RuntimeCondition
      | ValidatorNode \<Rightarrow> RuntimeValidator
      | ApprovalNode \<Rightarrow> RuntimeApproval
      | JoinNode \<Rightarrow> RuntimeJoin
      | LoopNode \<Rightarrow> RuntimeLoop
      | OutputNode \<Rightarrow> RuntimeOutput)"

definition compile_node :: "graph_node \<Rightarrow> compiled_flow_node" where
  "compile_node n =
     \<lparr>cn_node_id = gn_id n, cn_target = node_target n,
      cn_reference = Option.bind (json_get (gn_config n) ''reference'') as_str\<rparr>"

definition flow_content_hash :: "(flow_spec \<Rightarrow> string) \<Rightarrow> flow_spec \<Rightarrow> string" where
  "flow_content_hash to_vec spec = content_fingerprint (to_vec spec)"

definition compile_flow ::
    "flow_decoders \<Rightarrow> filesystem \<Rightarrow> (flow_spec \<Rightarrow> string) \<Rightarrow> timestamp \<Rightarrow> flow_spec
      \<Rightarrow> capability_projection \<Rightarrow> flow_validation_report + compiled_flow_plan" where
  "compile_flow d fs to_vec now spec capabilities =
     (let report = validate_flow_spec d fs now spec capabilities in
        if \<not> vr_valid report then Inl report
        else Inr
          \<lparr>pl_schema_version = agent_schema_version, pl_flow_id = fs_flow_id spec,
           pl_content_hash = flow_content_hash to_vec spec,
           pl_entry_node_id = gd_entry_node_id (fs_graph spec),
           pl_nodes = map compile_node (gd_nodes (fs_graph spec)),
           pl_edges = gd_edges (fs_graph spec), pl_budget = fs_budget spec\<rparr>)"

section \<open>Drafts\<close>

record flow_draft =
  dr_schema_version :: nat
  dr_id :: uuid
  dr_thread_id :: uuid
  dr_revision :: nat
  dr_status :: flow_draft_status
  dr_spec :: flow_spec
  dr_effective_capabilities :: capability_projection
  dr_content_hash :: string
  dr_last_validation :: "flow_validation_report option"
  dr_created_at :: timestamp
  dr_updated_at :: timestamp

definition normalize_flow_spec :: "(string \<Rightarrow> string) \<Rightarrow> flow_spec \<Rightarrow> flow_spec" where
  "normalize_flow_spec lowercase spec =
     spec\<lparr>fs_flow_id := replace_str (lowercase (trim (fs_flow_id spec))) '' '' ''-'',
          fs_name := trim (fs_name spec), fs_description := trim (fs_description spec),
          fs_owner := trim (fs_owner spec),
          fs_graph := (fs_graph spec)
            \<lparr>gd_entry_node_id := trim (gd_entry_node_id (fs_graph spec)),
             gd_nodes := map (\<lambda>n. n\<lparr>gn_id := trim (gn_id n), gn_label := trim (gn_label n)\<rparr>)
               (gd_nodes (fs_graph spec))\<rparr>\<rparr>"

definition draft_new ::
    "(string \<Rightarrow> string) \<Rightarrow> filesystem \<Rightarrow> (flow_spec \<Rightarrow> string) \<Rightarrow> timestamp \<Rightarrow> uuid \<Rightarrow> uuid \<Rightarrow> flow_spec
      \<Rightarrow> capability_projection \<Rightarrow> flow_draft" where
  "draft_new lowercase fs to_vec now new_id thread_id spec0 capabilities =
     (let spec = normalize_flow_spec lowercase spec0 in
        \<lparr>dr_schema_version = agent_schema_version, dr_id = new_id, dr_thread_id = thread_id,
         dr_revision = 1, dr_status = Reviewing, dr_spec = spec,
         dr_effective_capabilities = intersect fs (fs_requested_capabilities spec) capabilities,
         dr_content_hash = flow_content_hash to_vec spec, dr_last_validation = None,
         dr_created_at = now, dr_updated_at = now\<rparr>)"

definition replace_spec ::
    "(string \<Rightarrow> string) \<Rightarrow> filesystem \<Rightarrow> (flow_spec \<Rightarrow> string) \<Rightarrow> timestamp \<Rightarrow> flow_spec
      \<Rightarrow> capability_projection \<Rightarrow> flow_draft \<Rightarrow> flow_draft" where
  "replace_spec lowercase fs to_vec now spec0 capabilities draft =
     (let spec = normalize_flow_spec lowercase spec0 in
        draft\<lparr>dr_revision := u32_sat_add (dr_revision draft) 1, dr_status := Reviewing,
          dr_effective_capabilities := intersect fs (fs_requested_capabilities spec) capabilities,
          dr_content_hash := flow_content_hash to_vec spec, dr_spec := spec,
          dr_last_validation := None, dr_updated_at := now\<rparr>)"

section \<open>Simulation\<close>

datatype flow_trial_status = TrialPassed | TrialFailed

record flow_simulation_step =
  ss_order :: nat
  ss_node_id :: string
  ss_harness_target :: string
  ss_bounded_by :: "nat option"

record flow_trial =
  tr_schema_version :: nat
  tr_id :: uuid
  tr_draft_id :: uuid
  tr_draft_revision :: nat
  tr_status :: flow_trial_status
  tr_input :: json
  tr_steps :: "flow_simulation_step list"
  tr_report :: flow_validation_report
  tr_created_at :: timestamp

definition simulation_step :: "graph_definition \<Rightarrow> nat \<times> compiled_flow_node \<Rightarrow> flow_simulation_step" where
  "simulation_step g indexed =
     (let (index, node) = indexed in
        \<lparr>ss_order = u32_cast index, ss_node_id = cn_node_id node,
         ss_harness_target = harness_target_str (cn_target node),
         ss_bounded_by =
           Option.bind (find (\<lambda>e. ge_to e = cn_node_id node) (gd_edges g)) (\<lambda>e.
             map_option lp_max_iterations (ge_loop_policy e))\<rparr>)"

definition simulate_flow ::
    "flow_decoders \<Rightarrow> filesystem \<Rightarrow> (flow_spec \<Rightarrow> string) \<Rightarrow> timestamp \<Rightarrow> uuid \<Rightarrow> flow_draft \<Rightarrow> json
      \<Rightarrow> capability_projection \<Rightarrow> flow_trial" where
  "simulate_flow d fs to_vec now new_id draft v capabilities =
     (let report = validate_flow_spec d fs now (dr_spec draft) capabilities;
          steps = (case compile_flow d fs to_vec now (dr_spec draft) capabilities of
                     Inl _ \<Rightarrow> []
                   | Inr plan \<Rightarrow> map (simulation_step (fs_graph (dr_spec draft)))
                                  (List.enumerate 0 (pl_nodes plan)))
      in \<lparr>tr_schema_version = agent_schema_version, tr_id = new_id, tr_draft_id = dr_id draft,
          tr_draft_revision = dr_revision draft,
          tr_status = (if vr_valid report then TrialPassed else TrialFailed), tr_input = v,
          tr_steps = steps, tr_report = report, tr_created_at = now\<rparr>)"

section \<open>Definitions\<close>

record flow_definition =
  df_schema_version :: nat
  df_id :: uuid
  df_flow_id :: string
  df_name :: string
  df_version :: nat
  df_owner :: string
  df_description :: string
  df_categories :: "string set"
  df_source :: flow_source
  df_graph :: graph_definition
  df_input_schema :: json
  df_output_schema :: json
  df_capabilities :: capability_projection
  df_budget :: flow_budget
  df_risk_class :: risk_class
  df_content_hash :: string
  df_published_at :: timestamp
  df_published_by :: string

definition definition_from_draft ::
    "uuid \<Rightarrow> timestamp \<Rightarrow> flow_draft \<Rightarrow> nat \<Rightarrow> string \<Rightarrow> flow_definition" where
  "definition_from_draft new_id now draft version published_by =
     (let spec = dr_spec draft in
        \<lparr>df_schema_version = agent_schema_version, df_id = new_id, df_flow_id = fs_flow_id spec,
         df_name = fs_name spec, df_version = version, df_owner = fs_owner spec,
         df_description = fs_description spec, df_categories = fs_categories spec,
         df_source = fs_source spec, df_graph = fs_graph spec,
         df_input_schema = fs_input_schema spec, df_output_schema = fs_output_schema spec,
         df_capabilities = dr_effective_capabilities draft, df_budget = fs_budget spec,
         df_risk_class = fs_risk_class spec, df_content_hash = dr_content_hash draft,
         df_published_at = now, df_published_by = published_by\<rparr>)"

definition to_spec :: "flow_definition \<Rightarrow> flow_spec" where
  "to_spec f =
     \<lparr>fs_flow_id = df_flow_id f, fs_name = df_name f, fs_description = df_description f,
      fs_owner = df_owner f, fs_categories = df_categories f, fs_source = df_source f,
      fs_input_schema = df_input_schema f, fs_output_schema = df_output_schema f,
      fs_graph = df_graph f, fs_requested_capabilities = df_capabilities f,
      fs_budget = df_budget f, fs_risk_class = df_risk_class f, fs_pending_decisions = []\<rparr>"

section \<open>Adjacency\<close>

definition targets :: "('k, 'v list) btree \<Rightarrow> 'k \<Rightarrow> 'v list" where
  "targets m k = (case bt_get m k of Some vs \<Rightarrow> vs | None \<Rightarrow> [])"

lemma targets_push: "targets (bt_push k v m) k' = targets m k' @ (if k' = k then [v] else [])"
  by (auto simp: targets_def bt_push_def map_simps)

lemma targets_fold_push:
  "targets (fold (\<lambda>e. bt_push (f e) (h e)) es m) k = targets m k @ map h (filter (\<lambda>e. f e = k) es)"
  by (induction es arbitrary: m) (auto simp: targets_push)

definition unbounded_edges :: "graph_definition \<Rightarrow> (string \<times> string) set" where
  "unbounded_edges g =
     {(ge_from e, ge_to e) | e. e \<in> set (gd_edges g) \<and> ge_loop_policy e = None}"

definition adjacent :: "adjacency \<Rightarrow> (string \<times> string) set" where
  "adjacent adj = {(a, b). (b, False) \<in> set (targets adj a)}"

lemma adjacent_cycle_adjacency: "adjacent (cycle_adjacency g) = unbounded_edges g"
proof -
  have "targets (cycle_adjacency g) a
      = map (\<lambda>e. (ge_to e, ge_loop_policy e \<noteq> None)) (filter (\<lambda>e. ge_from e = a) (gd_edges g))" for a
    unfolding cycle_adjacency_def targets_fold_push by (simp add: targets_def)
  then show ?thesis by (auto simp: adjacent_def unbounded_edges_def)
qed

section \<open>Correctness of the search for cycles\<close>

definition reaches_cycle :: "('a \<times> 'a) set \<Rightarrow> 'a \<Rightarrow> bool" where
  "reaches_cycle E v \<longleftrightarrow> (\<exists>x. (v, x) \<in> E\<^sup>* \<and> (x, x) \<in> E\<^sup>+)"

lemma reaches_cycle_step: "(v, w) \<in> E \<Longrightarrow> reaches_cycle E w \<Longrightarrow> reaches_cycle E v"
  unfolding reaches_cycle_def by (meson converse_rtrancl_into_rtrancl)

lemma reaches_cycle_iff_successor:
  "reaches_cycle E v \<longleftrightarrow> (\<exists>w. (v, w) \<in> E \<and> reaches_cycle E w)"
proof
  assume "reaches_cycle E v"
  then obtain x where x: "(v, x) \<in> E\<^sup>*" "(x, x) \<in> E\<^sup>+" by (auto simp: reaches_cycle_def)
  then have "(v, x) \<in> E\<^sup>+" by (rule rtrancl_trancl_trancl)
  then obtain w where "(v, w) \<in> E" "(w, x) \<in> E\<^sup>*" by (meson tranclD)
  with x(2) show "\<exists>w. (v, w) \<in> E \<and> reaches_cycle E w" by (auto simp: reaches_cycle_def)
qed (blast intro: reaches_cycle_step)

lemma visit_sound:
  "visit adj i visiting visited = (True, v) \<Longrightarrow> (\<And>u. u \<in> visiting \<Longrightarrow> (u, i) \<in> (adjacent adj)\<^sup>+)
    \<Longrightarrow> reaches_cycle (adjacent adj) i"
  "visit_targets adj out visiting visited = (True, v)
    \<Longrightarrow> (\<And>u b. u \<in> visiting \<Longrightarrow> (b, False) \<in> set out \<Longrightarrow> (u, b) \<in> (adjacent adj)\<^sup>+)
    \<Longrightarrow> \<exists>b. (b, False) \<in> set out \<and> reaches_cycle (adjacent adj) b"
proof (induction adj i visiting visited and adj out visiting visited arbitrary: v and v
    rule: visit_visit_targets.induct)
  case (1 adj i visiting visited)
  show ?case
  proof (cases "i \<in> visiting")
    case True
    with 1 show ?thesis by (auto simp: reaches_cycle_def)
  next
    case False
    with 1(2) obtain out v' where out: "bt_get adj i = Some out"
      and rec: "visit_targets adj out (insert i visiting) visited = (True, v')"
      and new: "i \<notin> visited"
      by (auto simp: visit.simps split: if_splits option.splits prod.splits bool.splits)
    have edge: "(i, b) \<in> adjacent adj" if "(b, False) \<in> set out" for b
      using that out by (simp add: adjacent_def targets_def)
    have "(u, b) \<in> (adjacent adj)\<^sup>+" if "u \<in> insert i visiting" "(b, False) \<in> set out" for u b
      using that edge 1(3) by (auto intro: trancl_into_trancl)
    from 1(1) [OF False new out rec this] edge show ?thesis by (auto intro: reaches_cycle_step)
  qed
next
  case (3 adj target bounded rest visiting visited)
  then show ?case
    by (cases bounded) (fastforce split: prod.splits bool.splits)+
qed simp

definition settled :: "adjacency \<Rightarrow> string set \<Rightarrow> bool" where
  "settled adj visited \<longleftrightarrow> (\<forall>u \<in> visited. \<not> reaches_cycle (adjacent adj) u)"

lemma visit_complete:
  "visit adj i visiting visited = (False, v) \<Longrightarrow> settled adj visited
    \<Longrightarrow> settled adj v \<and> visited \<subseteq> v \<and> i \<in> v"
  "visit_targets adj out visiting visited = (False, v) \<Longrightarrow> settled adj visited
    \<Longrightarrow> settled adj v \<and> visited \<subseteq> v \<and> (\<forall>b. (b, False) \<in> set out \<longrightarrow> b \<in> v)"
proof (induction adj i visiting visited and adj out visiting visited arbitrary: v and v
    rule: visit_visit_targets.induct)
  case (1 adj i visiting visited)
  have seen: "i \<notin> visiting" using 1(2) by (auto simp: visit.simps split: if_splits)
  show ?case
  proof (cases "i \<in> visited")
    case True
    with 1 seen show ?thesis by (simp add: visit.simps)
  next
    case False
    show ?thesis
    proof (cases "bt_get adj i")
      case None
      then have "\<not> reaches_cycle (adjacent adj) i"
        by (subst reaches_cycle_iff_successor) (simp add: adjacent_def targets_def)
      with None 1(2,3) seen False show ?thesis by (auto simp: visit.simps settled_def)
    next
      case (Some out)
      with 1(2) seen False obtain v' where
        rec: "visit_targets adj out (insert i visiting) visited = (False, v')" and v: "v = insert i v'"
        by (auto simp: visit.simps split: prod.splits bool.splits)
      note IH = 1(1) [OF seen False Some rec 1(3)]
      have "\<not> reaches_cycle (adjacent adj) i"
        by (subst reaches_cycle_iff_successor)
           (use IH Some in \<open>auto simp: settled_def adjacent_def targets_def\<close>)
      with IH v show ?thesis by (auto simp: settled_def)
    qed
  qed
next
  case (3 adj target bounded rest visiting visited)
  show ?case
  proof (cases bounded)
    case True
    with 3 show ?thesis by simp
  next
    case False
    with 3(4) obtain v' where first: "visit adj target visiting visited = (False, v')"
      and rest: "visit_targets adj rest visiting v' = (False, v)"
      by (auto split: prod.splits bool.splits)
    note a = 3(2) [OF False first 3(5)]
    have "settled adj v \<and> v' \<subseteq> v \<and> (\<forall>b. (b, False) \<in> set rest \<longrightarrow> b \<in> v)"
      using 3(3) [OF False first [symmetric] refl rest] a by simp
    with a show ?thesis by auto
  qed
qed simp

lemma any_cycle_iff:
  "settled adj visited
    \<Longrightarrow> any_cycle adj is visited \<longleftrightarrow> (\<exists>i \<in> set is. reaches_cycle (adjacent adj) i)"
proof (induction "is" arbitrary: visited)
  case (Cons i rest)
  show ?case
  proof (cases "i \<in> visited")
    case True
    with Cons show ?thesis by (auto simp: settled_def)
  next
    case False
    obtain b v where v: "visit adj i {} visited = (b, v)" by fastforce
    show ?thesis
    proof (cases b)
      case True
      with v False visit_sound(1) [of adj i "{}" visited v] show ?thesis by simp
    next
      case False
      with v visit_complete(1) [of adj i "{}" visited v] Cons.prems
      have ok: "settled adj v" "i \<in> v" by simp_all
      with Cons.IH [OF ok(1)] v False \<open>i \<notin> visited\<close> show ?thesis by (auto simp: settled_def)
    qed
  qed
qed simp

lemma contains_unbounded_cycle_iff:
  "contains_unbounded_cycle g
    \<longleftrightarrow> (\<exists>n \<in> set (gd_nodes g). reaches_cycle (unbounded_edges g) (gn_id n))"
  unfolding contains_unbounded_cycle_def
  by (subst any_cycle_iff) (auto simp: settled_def adjacent_cycle_adjacency)

section \<open>Correctness of the search for reachable nodes\<close>

definition successors :: "(string, string list) btree \<Rightarrow> (string \<times> string) set" where
  "successors adj = {(a, b). b \<in> set (targets adj a)}"

definition closed_up_to :: "(string, string list) btree \<Rightarrow> string list \<Rightarrow> string set \<Rightarrow> bool" where
  "closed_up_to adj queue reachable \<longleftrightarrow> successors adj `` reachable \<subseteq> reachable \<union> set queue"

lemma explore_closed:
  "closed_up_to adj queue reachable
    \<Longrightarrow> successors adj `` explore adj queue reachable \<subseteq> explore adj queue reachable
      \<and> reachable \<union> set queue \<subseteq> explore adj queue reachable"
proof (induction adj queue reachable rule: explore.induct)
  case (1 adj reachable)
  then show ?case by (simp add: explore.simps closed_up_to_def)
next
  case (2 adj i queue reachable)
  show ?case
  proof (cases "i \<in> reachable")
    case True
    with 2(4) have "closed_up_to adj queue reachable" by (auto simp: closed_up_to_def)
    with 2(1) True show ?thesis by (simp add: explore.simps insert_absorb)
  next
    case False
    show ?thesis
    proof (cases "bt_get adj i")
      case None
      with 2(4) have "closed_up_to adj queue (insert i reachable)"
        by (auto simp: closed_up_to_def successors_def targets_def)
      with 2(2) [OF False None] False None show ?thesis by (simp add: explore.simps)
    next
      case (Some out)
      with 2(4) have "closed_up_to adj (queue @ out) (insert i reachable)"
        by (auto simp: closed_up_to_def successors_def targets_def)
      with 2(3) [OF False Some] False Some show ?thesis by (simp add: explore.simps)
    qed
  qed
qed

lemma explore_within:
  "reachable \<union> set queue \<subseteq> C \<Longrightarrow> successors adj `` C \<subseteq> C \<Longrightarrow> explore adj queue reachable \<subseteq> C"
proof (induction adj queue reachable rule: explore.induct)
  case (2 adj i queue reachable)
  have "set out \<subseteq> C" if "bt_get adj i = Some out" for out
    using 2(4,5) that by (force simp: successors_def targets_def)
  with 2 show ?case by (auto simp: explore.simps split: option.splits)
qed (simp add: explore.simps)

lemma explore_reachable: "explore adj queue {} = (successors adj)\<^sup>* `` set queue"
proof
  have "successors adj `` ((successors adj)\<^sup>* `` set queue) \<subseteq> (successors adj)\<^sup>* `` set queue"
    by (auto intro: rtrancl_into_rtrancl)
  then show "explore adj queue {} \<subseteq> (successors adj)\<^sup>* `` set queue"
    by (intro explore_within) auto
  have "closed_up_to adj queue {}" by (simp add: closed_up_to_def)
  from explore_closed [OF this] show "(successors adj)\<^sup>* `` set queue \<subseteq> explore adj queue {}"
    by (auto elim!: rtrancl_induct)
qed

section \<open>Specifications without issues\<close>

lemma report_if_Nil [simp]: "report_if b x = [] \<longleftrightarrow> \<not> b"
  by (simp add: report_if_def)

lemma keys_bt_extend: "fst ` set (bt_extend entries m) = fst ` set entries \<union> fst ` set m"
proof (induction entries arbitrary: m)
  case (Cons e es)
  then show ?case by (cases e) (auto simp: bt_extend_def set_keys_bt_insert)
qed (simp add: bt_extend_def)

lemma length_bt: "bt_inv m \<Longrightarrow> length m = card (fst ` set m)"
  using distinct_card [OF bt_inv_distinct, of m] by simp

lemma node_index_inv: "bt_inv (node_index g)"
  unfolding node_index_def by (rule bt_inv_extend) (simp add: bt_inv_def)

lemma keys_node_index: "fst ` set (node_index g) = gn_id ` set (gd_nodes g)"
  by (simp add: node_index_def keys_bt_extend image_image)

lemma node_index_length: "length (node_index g) = length (gd_nodes g) \<longleftrightarrow> distinct (map gn_id (gd_nodes g))"
  unfolding length_bt [OF node_index_inv] keys_node_index
  by (metis card_distinct distinct_card length_map list.set_map)

lemma node_index_contains: "bt_contains (node_index g) i \<longleftrightarrow> i \<in> gn_id ` set (gd_nodes g)"
  by (simp add: bt_contains_iff keys_node_index)

lemma edge_issues_Nil:
  assumes "edge_issues budget g (index, e) = []"
  shows "edge_present g e"
    and "\<And>c. ge_condition e = Some c \<Longrightarrow> safe_condition c"
    and "\<And>p. ge_loop_policy e = Some p \<Longrightarrow> loop_policy_ok budget p"
proof -
  from assms have "bt_contains (node_index g) (ge_from e)" "bt_contains (node_index g) (ge_to e)"
    by (auto simp: edge_issues_def Let_def bt_contains_def split: option.splits)
  then show "edge_present g e" by (simp add: edge_present_def node_index_contains)
  show "safe_condition c" if "ge_condition e = Some c" for c
    using assms that by (auto simp: edge_issues_def Let_def split: option.splits)
  show "loop_policy_ok budget p" if "ge_loop_policy e = Some p" for p
    using assms that by (auto simp: edge_issues_def Let_def split: option.splits)
qed

definition graph_issues_free :: "flow_decoders \<Rightarrow> flow_spec \<Rightarrow> bool" where
  \<comment> \<open>the checks that do not look at capabilities or pending decisions\<close>
  "graph_issues_free d spec \<longleftrightarrow>
     (let g = fs_graph spec; budget = fs_budget spec in
      fs_flow_id spec \<noteq> [] \<and> fs_name spec \<noteq> [] \<and> fs_owner spec \<noteq> []
      \<and> gd_nodes g \<noteq> [] \<and> length (gd_nodes g) \<le> max_flow_nodes
      \<and> fb_max_node_executions budget \<noteq> 0 \<and> fb_max_tool_calls budget \<noteq> 0
      \<and> fb_max_duration_seconds budget \<noteq> 0
      \<and> fb_max_duration_seconds budget \<le> max_flow_duration_seconds
      \<and> fb_max_loop_iterations budget \<noteq> 0
      \<and> fb_max_loop_iterations budget \<le> max_flow_loop_iterations
      \<and> distinct (map gn_id (gd_nodes g)) \<and> gd_entry_node_id g \<in> gn_id ` set (gd_nodes g)
      \<and> (\<exists>n \<in> set (gd_nodes g). gn_kind n = OutputNode)
      \<and> (\<forall>x \<in> set (List.enumerate 0 (gd_edges g)). edge_issues budget g x = [])
      \<and> validate_graph_activations (fd_activation d) g = []
      \<and> (\<forall>n \<in> set (gd_nodes g). gn_id n \<in> reachable_nodes (fd_activation d) g
           \<and> (gn_kind n = OutputNode \<longrightarrow> targets (flow_adjacency g) (gn_id n) = []))
      \<and> validate_graph_state_writes (fd_state_write d)
          (map (\<lambda>n. (gn_id n, gn_config n)) (gd_nodes g)) = []
      \<and> \<not> contains_unbounded_cycle g
      \<and> (fs_risk_class spec \<in> {HighRisk, CriticalRisk} \<longrightarrow>
           (\<exists>n \<in> set (gd_nodes g). gn_kind n = ValidatorNode)
           \<and> (\<exists>n \<in> set (gd_nodes g). gn_kind n = ApprovalNode)))"

lemma output_targets:
  "(case bt_get m k of Some out \<Rightarrow> out \<noteq> [] | None \<Rightarrow> False) \<longleftrightarrow> targets m k \<noteq> []"
  by (simp add: targets_def split: option.splits)

lemma flow_issues_Nil_iff:
  "flow_issues d fs spec capabilities = [] \<longleftrightarrow>
     graph_issues_free d spec \<and> fs_pending_decisions spec = []
     \<and> (\<forall>n \<in> set (gd_nodes (fs_graph spec)). validate_graph_node capabilities n = [])
     \<and> is_subset_of fs (fs_requested_capabilities spec) capabilities"
proof -
  have "concat (map (node_issues (fd_activation d) capabilities (fs_graph spec))
          (gd_nodes (fs_graph spec))) = [] \<longleftrightarrow>
      (\<forall>n \<in> set (gd_nodes (fs_graph spec)).
         gn_id n \<in> reachable_nodes (fd_activation d) (fs_graph spec)
         \<and> (gn_kind n = OutputNode \<longrightarrow> targets (flow_adjacency (fs_graph spec)) (gn_id n) = []))
      \<and> (\<forall>n \<in> set (gd_nodes (fs_graph spec)). validate_graph_node capabilities n = [])"
    by (simp add: node_issues_def output_targets) blast
  moreover have "filter (\<lambda>n. gn_kind n = OutputNode) (gd_nodes (fs_graph spec)) = [] \<longleftrightarrow>
      \<not> (\<exists>n \<in> set (gd_nodes (fs_graph spec)). gn_kind n = OutputNode)"
    by (simp add: filter_empty_conv)
  ultimately show ?thesis
    unfolding flow_issues_def graph_issues_free_def Let_def append_is_Nil_conv report_if_Nil
      node_index_length node_index_contains map_is_Nil_conv concat_eq_Nil_conv [of "map (edge_issues _ _) _"]
      list_ex_iff set_map ball_simps
    by (simp only: de_Morgan_disj de_Morgan_conj not_not not_less ball_simps) blast
qed

lemma validate_flow_spec_valid:
  "vr_valid (validate_flow_spec d fs now spec capabilities)
    \<longleftrightarrow> flow_issues d fs spec capabilities = []"
  by (simp add: validate_flow_spec_def Let_def)

lemma compile_flow_Inr:
  "(\<exists>plan. compile_flow d fs to_vec now spec capabilities = Inr plan)
    \<longleftrightarrow> flow_issues d fs spec capabilities = []"
  by (simp add: compile_flow_def Let_def validate_flow_spec_valid)

definition graph_edges :: "graph_definition \<Rightarrow> (string \<times> string) set" where
  "graph_edges g = (\<lambda>e. (ge_from e, ge_to e)) ` set (gd_edges g)"

lemma successors_flow_adjacency:
  "successors (flow_adjacency g)
    = (\<lambda>e. (ge_from e, ge_to e)) ` {e \<in> set (gd_edges g). edge_present g e}"
proof -
  have "targets (flow_adjacency g) a = map ge_to
      (filter (\<lambda>e. ge_from e = a) (filter (edge_present g) (gd_edges g)))" for a
    unfolding flow_adjacency_def targets_fold_push by (simp add: targets_def)
  then show ?thesis by (auto simp: successors_def)
qed

definition flow_roots :: "activation_decoder \<Rightarrow> graph_definition \<Rightarrow> string list" where
  "flow_roots decode g =
     (if activation_root_node_ids decode g = [] then [gd_entry_node_id g]
      else activation_root_node_ids decode g)"

lemma reachable_nodes_iff:
  "reachable_nodes decode g = (successors (flow_adjacency g))\<^sup>* `` set (flow_roots decode g)"
  by (simp add: reachable_nodes_def flow_roots_def explore_reachable Let_def)

lemma clean_edges:
  assumes "graph_issues_free d spec" "e \<in> set (gd_edges (fs_graph spec))"
  shows "edge_present (fs_graph spec) e"
    and "\<And>p. ge_loop_policy e = Some p \<Longrightarrow> loop_policy_ok (fs_budget spec) p"
proof -
  from assms(2) obtain i where "i < length (gd_edges (fs_graph spec))" "gd_edges (fs_graph spec) ! i = e"
    by (auto simp: in_set_conv_nth)
  then have "(i, e) \<in> set (List.enumerate 0 (gd_edges (fs_graph spec)))"
    by (simp add: in_set_enumerate_eq)
  with assms(1) have "edge_issues (fs_budget spec) (fs_graph spec) (i, e) = []"
    by (auto simp: graph_issues_free_def Let_def)
  from edge_issues_Nil [OF this] show "edge_present (fs_graph spec) e"
    "\<And>p. ge_loop_policy e = Some p \<Longrightarrow> loop_policy_ok (fs_budget spec) p" by blast+
qed

lemma clean_graph_edges:
  assumes "graph_issues_free d spec"
  shows "successors (flow_adjacency (fs_graph spec)) = graph_edges (fs_graph spec)"
  using clean_edges(1) [OF assms]
  by (auto simp: successors_flow_adjacency graph_edges_def)

lemma clean_acyclic:
  assumes "graph_issues_free d spec"
  shows "acyclic (unbounded_edges (fs_graph spec))"
proof (rule acyclicI, rule allI, rule notI)
  fix x assume x: "(x, x) \<in> (unbounded_edges (fs_graph spec))\<^sup>+"
  then obtain y where "(x, y) \<in> unbounded_edges (fs_graph spec)" by (meson tranclD)
  then obtain e where e: "e \<in> set (gd_edges (fs_graph spec))" "ge_from e = x"
    by (auto simp: unbounded_edges_def)
  have "x \<in> gn_id ` set (gd_nodes (fs_graph spec))"
    using clean_edges(1) [OF assms e(1)] e(2) by (simp add: edge_present_def)
  then obtain n where "n \<in> set (gd_nodes (fs_graph spec))" "gn_id n = x" by auto
  with x have "contains_unbounded_cycle (fs_graph spec)"
    by (auto simp: contains_unbounded_cycle_iff reaches_cycle_def)
  with assms show False by (simp add: graph_issues_free_def Let_def)
qed

section \<open>An example\<close>

definition example_node :: "string \<Rightarrow> node_kind \<Rightarrow> json \<Rightarrow> graph_node" where
  "example_node i kind config =
     \<lparr>gn_id = i, gn_label = i, gn_kind = kind, gn_config = config,
      gn_input_schema = JObject [(''type'', JString ''object'')],
      gn_output_schema = JObject [(''type'', JString ''object'')]\<rparr>"

definition example_edge :: "string \<Rightarrow> string \<Rightarrow> graph_edge" where
  "example_edge a b =
     \<lparr>ge_from = a, ge_to = b, ge_condition = None, ge_allowed_fields = [],
      ge_data_classification = Internal, ge_on_error = None, ge_loop_policy = None\<rparr>"

definition example_flow_spec :: "string list \<Rightarrow> flow_spec" where
  \<comment> \<open>a tool node and an output node; the argument is the list of the requested tools\<close>
  "example_flow_spec tools =
     \<lparr>fs_flow_id = ''search'', fs_name = ''Search'', fs_description = [], fs_owner = ''ops'',
      fs_categories = {}, fs_source = NaturalLanguage ''search'', fs_input_schema = JBool True,
      fs_output_schema = JBool True,
      fs_graph = \<lparr>gd_schema_version = 1, gd_entry_node_id = ''find'',
        gd_nodes = [example_node ''find'' ToolNode (JObject [(''reference'', JString ''grep'')]),
                    example_node ''done'' OutputNode (JObject [])],
        gd_edges = [example_edge ''find'' ''done'']\<rparr>,
      fs_requested_capabilities = deny_all\<lparr>cap_tools := set tools\<rparr>,
      fs_budget = flow_budget_default, fs_risk_class = LowRisk, fs_pending_decisions = []\<rparr>"

definition example_decoders :: flow_decoders where
  "example_decoders = \<lparr>fd_activation = (\<lambda>_. None), fd_state_write = (\<lambda>_. None)\<rparr>"

lemmas example_flow_defs =
  example_flow_spec_def example_node_def example_edge_def example_decoders_def

lemma example_graph_cycle: "\<not> contains_unbounded_cycle (fs_graph (example_flow_spec tools))"
  by (simp add: contains_unbounded_cycle_def cycle_adjacency_def bt_push_def visit.simps
        example_flow_defs)

lemma example_graph_adjacency:
  "flow_adjacency (fs_graph (example_flow_spec tools)) = [(''find'', [''done''])]"
  by (simp add: flow_adjacency_def edge_present_def bt_push_def example_flow_defs)

lemma example_graph_roots:
  "activation_root_node_ids (fd_activation example_decoders) (fs_graph (example_flow_spec tools)) = []"
  by (simp add: activation_root_node_ids_def is_activation_root_def valid_activation_def
        parse_node_activation_def json_get_def example_flow_defs)

lemma example_graph_reachable:
  "reachable_nodes (fd_activation example_decoders) (fs_graph (example_flow_spec tools))
     = {''find'', ''done''}"
  unfolding reachable_nodes_def example_graph_roots example_graph_adjacency Let_def
  by (auto simp add: explore.simps example_flow_spec_def)

lemma example_graph_edges:
  "x \<in> set (List.enumerate 0 (gd_edges (fs_graph (example_flow_spec tools))))
    \<Longrightarrow> edge_issues (fs_budget (example_flow_spec tools)) (fs_graph (example_flow_spec tools)) x = []"
  by (simp add: edge_issues_def node_index_def bt_extend_def schemas_compatible_def schema_type_def
        json_get_def as_str_def output_classification_def classification_order_defs example_flow_defs)

lemma example_graph_free: "graph_issues_free example_decoders (example_flow_spec tools)"
  unfolding graph_issues_free_def Let_def
  using example_graph_edges [of _ tools] example_graph_cycle [of tools]
    example_graph_reachable [of tools] example_graph_adjacency [of tools]
  by (simp add: targets_def validate_graph_activations_def node_activation_issues_def
        parse_node_activation_def validate_graph_state_writes_def validate_node_def
        parse_state_writes_def json_get_def flow_budget_default_def max_flow_nodes_def
        max_flow_duration_seconds_def max_flow_loop_iterations_def example_flow_defs)

lemma example_flow_clean:
  assumes "set tools \<subseteq> {''grep''}"
  shows "flow_issues example_decoders plain_files (example_flow_spec tools)
           (only_tools [''grep'']) = []"
  using example_graph_free [of tools] assms
  unfolding flow_issues_Nil_iff
  by (simp add: validate_graph_node_def json_get_def as_str_def allows_tool_def only_tools_def
        unrestricted_def deny_all_def is_subset_of_def scope_is_subset_def
        workspace_scope_is_subset_def example_flow_defs)

section \<open>Properties\<close>

text \<open>
  C26: The search for an unbounded cycle is exact: it reports one if and only if some node of the graph
  reaches, along edges without a loop policy, a point that lies on a cycle of such edges.  (The search
  ends on every graph, whatever its edges refer to.)
\<close>
theorem unbounded_cycle_search_is_exact:
  "contains_unbounded_cycle g \<longleftrightarrow>
     (\<exists>n \<in> set (gd_nodes g). \<exists>x. (gn_id n, x) \<in> (unbounded_edges g)\<^sup>* \<and> (x, x) \<in> (unbounded_edges g)\<^sup>+)"
  by (simp add: contains_unbounded_cycle_iff reaches_cycle_def)

text \<open>
  C29: The graph of a specification that validates is well formed: it has between 1 and 128 nodes with
  distinct identifiers, the entry node exists, every edge joins two nodes, the edges without a loop
  policy form no cycle, every loop policy allows between 1 and 50 iterations within the budget, every
  node is reached from the roots of the activation (or the entry node), and no edge leaves an output
  node.
\<close>
theorem valid_flow_graph_is_well_formed:
  assumes "vr_valid (validate_flow_spec d fs now spec capabilities)"
  shows "0 < length (gd_nodes (fs_graph spec)) \<and> length (gd_nodes (fs_graph spec)) \<le> 128
    \<and> distinct (map gn_id (gd_nodes (fs_graph spec)))
    \<and> gd_entry_node_id (fs_graph spec) \<in> gn_id ` set (gd_nodes (fs_graph spec))
    \<and> graph_edges (fs_graph spec)
        \<subseteq> gn_id ` set (gd_nodes (fs_graph spec)) \<times> gn_id ` set (gd_nodes (fs_graph spec))
    \<and> acyclic (unbounded_edges (fs_graph spec))
    \<and> (\<forall>e \<in> set (gd_edges (fs_graph spec)). \<forall>p. ge_loop_policy e = Some p \<longrightarrow>
         0 < lp_max_iterations p \<and> lp_max_iterations p \<le> 50
         \<and> lp_max_iterations p \<le> fb_max_loop_iterations (fs_budget spec))
    \<and> gn_id ` set (gd_nodes (fs_graph spec))
        \<subseteq> (graph_edges (fs_graph spec))\<^sup>* `` set (flow_roots (fd_activation d) (fs_graph spec))
    \<and> (\<forall>n \<in> set (gd_nodes (fs_graph spec)). gn_kind n = OutputNode
         \<longrightarrow> graph_edges (fs_graph spec) `` {gn_id n} = {})"
proof -
  let ?g = "fs_graph spec"
  have clean: "graph_issues_free d spec"
    using assms by (simp add: validate_flow_spec_valid flow_issues_Nil_iff)
  note edges = clean_graph_edges [OF clean] clean_edges [OF clean]
  have "gn_id ` set (gd_nodes ?g)
      \<subseteq> (graph_edges ?g)\<^sup>* `` set (flow_roots (fd_activation d) ?g)"
    using clean by (auto simp: graph_issues_free_def Let_def reachable_nodes_iff edges(1))
  moreover have "graph_edges ?g `` {gn_id n} = {}"
    if "n \<in> set (gd_nodes ?g)" "gn_kind n = OutputNode" for n
  proof -
    have "targets (flow_adjacency ?g) (gn_id n) = []"
      using clean that by (simp add: graph_issues_free_def Let_def)
    then show ?thesis unfolding edges(1) [symmetric] by (simp add: successors_def)
  qed
  moreover have "0 < lp_max_iterations p \<and> lp_max_iterations p \<le> 50
      \<and> lp_max_iterations p \<le> fb_max_loop_iterations (fs_budget spec)"
    if "e \<in> set (gd_edges ?g)" "ge_loop_policy e = Some p" for e p
    using edges(3) [OF that] by (simp add: loop_policy_ok_def max_flow_loop_iterations_def)
  moreover have "graph_edges ?g \<subseteq> gn_id ` set (gd_nodes ?g) \<times> gn_id ` set (gd_nodes ?g)"
    using edges(2) by (auto simp: graph_edges_def edge_present_def)
  ultimately show ?thesis
    using clean clean_acyclic [OF clean]
    by (simp add: graph_issues_free_def Let_def max_flow_nodes_def)
qed

theorem valid_flow_graph_is_well_formed_witness:
  "vr_valid (validate_flow_spec example_decoders plain_files 0 (example_flow_spec [''grep''])
     (only_tools [''grep'']))
   \<and> acyclic (unbounded_edges (fs_graph (example_flow_spec [''grep''])))
   \<and> ''done'' \<in> (graph_edges (fs_graph (example_flow_spec [''grep''])))\<^sup>* `` {''find''}"
proof -
  have valid: "vr_valid (validate_flow_spec example_decoders plain_files 0 (example_flow_spec [''grep''])
      (only_tools [''grep'']))"
    by (simp add: validate_flow_spec_valid example_flow_clean)
  have roots: "set (flow_roots (fd_activation example_decoders)
      (fs_graph (example_flow_spec [''grep'']))) = {''find''}"
    unfolding flow_roots_def example_graph_roots by (simp add: example_flow_spec_def)
  have node: "''done'' \<in> gn_id ` set (gd_nodes (fs_graph (example_flow_spec [''grep''])))"
    by (simp add: example_flow_defs)
  note formed = valid_flow_graph_is_well_formed [OF valid, unfolded roots]
  have acyclic: "acyclic (unbounded_edges (fs_graph (example_flow_spec [''grep''])))"
    using formed by (elim conjE)
  have "gn_id ` set (gd_nodes (fs_graph (example_flow_spec [''grep''])))
      \<subseteq> (graph_edges (fs_graph (example_flow_spec [''grep''])))\<^sup>* `` {''find''}"
    using formed by (elim conjE)
  from valid acyclic subsetD [OF this node] show ?thesis
    by (intro conjI)
qed


definition example_draft :: "string list \<Rightarrow> flow_draft" where
  "example_draft tools =
     draft_new (\<lambda>s. s) plain_files (\<lambda>_. []) 0 ''d'' ''t'' (example_flow_spec tools)
       (only_tools [''grep''])"

lemma example_draft_spec: "dr_spec (example_draft tools) = example_flow_spec tools"
proof -
  have trims: "trim ''search'' = ''search''" "trim ''Search'' = ''Search''" "trim ''ops'' = ''ops''"
    "trim ''find'' = ''find''" "trim ''done'' = ''done''"
    "replace_str ''search'' '' '' ''-'' = ''search''"
    by code_simp+
  then show ?thesis
    by (simp add: example_draft_def draft_new_def normalize_flow_spec_def Let_def example_flow_defs)
qed

lemma example_draft_capabilities:
  "dr_effective_capabilities (example_draft tools)
     = intersect plain_files (fs_requested_capabilities (dr_spec (example_draft tools)))
         (only_tools [''grep''])"
  by (simp add: example_draft_def draft_new_def Let_def)


text \<open>
  The hypothesis on the requested tools is needed: validation asks only whether the tool of a node is
  available, not whether the specification requests it.  The example draft that requests no tools
  validates, and the definition made of it does not compile.
\<close>

lemma valid_draft_may_not_compile:
  "vr_valid (validate_flow_spec example_decoders plain_files 0 (dr_spec (example_draft []))
     (only_tools [''grep'']))
   \<and> \<not> (\<exists>plan. compile_flow example_decoders plain_files to_vec 0
      (to_spec (definition_from_draft ''f'' 0 (example_draft []) 1 ''ops''))
      (df_capabilities (definition_from_draft ''f'' 0 (example_draft []) 1 ''ops'')) = Inr plan)"
proof
  show "vr_valid (validate_flow_spec example_decoders plain_files 0 (dr_spec (example_draft []))
      (only_tools [''grep'']))"
    by (simp add: validate_flow_spec_valid example_flow_clean example_draft_spec)
  have caps: "df_capabilities (definition_from_draft ''f'' 0 (example_draft []) 1 ''ops'')
      = intersect plain_files (fs_requested_capabilities (example_flow_spec [])) (only_tools [''grep''])"
    by (simp add: definition_from_draft_def Let_def example_draft_capabilities example_draft_spec)
  have "\<not> allows_tool (df_capabilities (definition_from_draft ''f'' 0 (example_draft []) 1 ''ops''))
      ''grep''"
    unfolding caps
    using grants_intersect [OF plain_files_canonical, of _ _ "ToolCapability ''grep''"]
    by (simp add: example_flow_spec_def allows_tool_def deny_all_def)
  then show "\<not> (\<exists>plan. compile_flow example_decoders plain_files to_vec 0
      (to_spec (definition_from_draft ''f'' 0 (example_draft []) 1 ''ops''))
      (df_capabilities (definition_from_draft ''f'' 0 (example_draft []) 1 ''ops'')) = Inr plan)"
    unfolding compile_flow_Inr flow_issues_Nil_iff
    by (simp add: to_spec_def definition_from_draft_def Let_def example_draft_spec
          validate_graph_node_def json_get_def as_str_def example_flow_defs)
qed

end
