(* ===== verification/Workflow_Compile.thy ===== *)
theory Workflow_Compile
  imports Agent_Instance Flow_Compiler Flow_Run
begin

text \<open>
  Compiled workflows and active flows (\<open>workflow.rs\<close>) and the frozen authority over connection operations
  (\<open>connection_operation_runtime.rs\<close>).

  A published flow definition is compiled together with one frozen agent specification per agent node.
  The identity of a specification comes from a published template and from its resolved connections.
  The serialisations behind the content hashes, new identifiers and the current time are arguments; the
  message of a refused template is the value of its error.
\<close>

section \<open>Authority over connection operations\<close>

datatype runtime_connection_authority =
    DenyAllConnections
  | LegacyMcp
  | Structured "connection_operation list"

definition inferred_from_projection :: "capability_projection \<Rightarrow> runtime_connection_authority" where
  "inferred_from_projection projection =
     (if cap_allow_all_mcp_servers projection \<or> cap_mcp_servers projection \<noteq> {} then LegacyMcp
      else DenyAllConnections)"

fun attenuate :: "runtime_connection_authority \<Rightarrow> capability_projection \<Rightarrow> runtime_connection_authority" where
  "attenuate DenyAllConnections projection = DenyAllConnections"
| "attenuate LegacyMcp projection = LegacyMcp"
| "attenuate (Structured operations) projection =
     Structured (filter (\<lambda>operation.
       allows_tool projection (co_model_tool_name operation)
       \<and> allows_mcp_server projection (co_mcp_server_id operation)) operations)"

section \<open>Agent specifications\<close>

record workflow_agent_spec =
  ws_node_id :: string
  ws_template_id :: string
  ws_template_version :: nat
  ws_template_content_hash :: string
  ws_name :: string
  ws_owner :: string
  ws_instructions :: string
  ws_capabilities :: capability_projection
  ws_resource_grants :: "resource_grant list"
  ws_model_policy :: model_policy
  ws_state_schema :: json
  ws_output_schema :: json
  ws_risk_class :: risk_class
  ws_connection_bindings :: "connection_binding list"
  ws_knowledge_binding :: "knowledge_binding option"
  ws_connection_authority :: runtime_connection_authority

datatype workflow_compile_error =
    InvalidFlowDefinition "string list"
  | InvalidAgentTemplate string template_error
  | AgentTemplateNotPublished string string nat
  | AgentTemplateContentHashMismatch string string nat
  | LegacyMcpAgentTemplate string string nat
  | UnmatchedConnectionBindings string string nat
  | UnexpectedAgentSpec string
  | MissingAgentSpec string
  | DuplicateAgentSpec string
  | AgentSpecIdentityMismatch string
  | OperationAliasConflict string
  | InvalidFlowIdentity
  | FlowRevisionIdentityMismatch

definition sorted_operations :: "resolved_binding list \<Rightarrow> connection_operation list" where
  "sorted_operations resolved =
     sort_key (\<lambda>operation. (co_connection_id operation, co_operation_id operation))
       (concat (map (\<lambda>r. map snd (rb_operations r)) resolved))"

definition compile_agent_spec ::
    "template_encoder \<Rightarrow> string \<Rightarrow> agent_template \<Rightarrow> resolved_binding list
      \<Rightarrow> workflow_compile_error + workflow_agent_spec" where
  "compile_agent_spec to_vec node_id t resolved =
     (let spec = at_spec t in
      res_bind (map_err (InvalidAgentTemplate node_id) (validate_template t)) (\<lambda>_.
      res_ensure (at_status t = PublishedTemplate)
        (AgentTemplateNotPublished node_id (at_template_id t) (at_version t))
     (res_ensure (at_content_hash t = calculate_content_hash to_vec t)
        (AgentTemplateContentHashMismatch node_id (at_template_id t) (at_version t))
     (res_ensure (\<not> (ts_connection_bindings spec = []
                     \<and> (cap_allow_all_mcp_servers (ts_capabilities spec)
                        \<or> cap_mcp_servers (ts_capabilities spec) \<noteq> {})))
        (LegacyMcpAgentTemplate node_id (at_template_id t) (at_version t))
     (res_ensure (resolved_bindings_match (ts_connection_bindings spec) resolved)
        (UnmatchedConnectionBindings node_id (at_template_id t) (at_version t))
     (let operations = sorted_operations resolved in
      Inr \<lparr>ws_node_id = node_id, ws_template_id = at_template_id t,
           ws_template_version = at_version t, ws_template_content_hash = at_content_hash t,
           ws_name = at_name t, ws_owner = at_owner t, ws_instructions = ts_instructions spec,
           ws_capabilities = capabilities_with_connection_operations (ts_capabilities spec) operations,
           ws_resource_grants = ts_resource_grants spec, ws_model_policy = ts_model_policy spec,
           ws_state_schema = ts_state_schema spec, ws_output_schema = ts_output_schema spec,
           ws_risk_class = ts_risk_class spec, ws_connection_bindings = ts_connection_bindings spec,
           ws_knowledge_binding = ts_knowledge_binding spec,
           ws_connection_authority = Structured operations\<rparr>))))))"

definition spec_operations :: "workflow_agent_spec \<Rightarrow> connection_operation list" where
  "spec_operations s = (case ws_connection_authority s of Structured operations \<Rightarrow> operations | _ \<Rightarrow> [])"

section \<open>Compilation of a workflow\<close>

record compiled_workflow_v1 =
  wf1_schema_version :: nat
  wf1_definition_id :: uuid
  wf1_flow_id :: string
  wf1_flow_version :: nat
  wf1_definition_content_hash :: string
  wf1_graph :: graph_definition
  wf1_input_schema :: json
  wf1_output_schema :: json
  wf1_root_capabilities :: capability_projection
  wf1_harness_capabilities :: capability_projection
  wf1_harness_authority :: runtime_connection_authority
  wf1_budget :: flow_budget
  wf1_agent_specs :: "(string, workflow_agent_spec) btree"
  wf1_content_hash :: string

definition graph_agents :: "graph_definition \<Rightarrow> (string, graph_node) btree" where
  "graph_agents g =
     bt_extend (map (\<lambda>n. (gn_id n, n)) (filter (\<lambda>n. gn_kind n = AgentNode) (gd_nodes g))) []"

definition node_template_id :: "graph_node \<Rightarrow> string" where
  "node_template_id n =
     (case Option.bind (json_get (gn_config n) ''reference'') as_str of Some s \<Rightarrow> s | None \<Rightarrow> [])"

definition node_template_version :: "graph_node \<Rightarrow> nat" where
  "node_template_version n =
     (case Option.bind (json_get (gn_config n) ''templateVersion'') as_u64 of
        Some v \<Rightarrow> if v \<le> u32_max then v else 0
      | None \<Rightarrow> 0)"

fun collect_specs ::
    "(string, graph_node) btree \<Rightarrow> workflow_agent_spec list \<Rightarrow> (string, workflow_agent_spec) btree
      \<Rightarrow> workflow_compile_error + (string, workflow_agent_spec) btree" where
  "collect_specs agents [] compiled = Inr compiled"
| "collect_specs agents (s # specs) compiled =
     res_bind (ok_or (bt_get agents (ws_node_id s)) (UnexpectedAgentSpec (ws_node_id s))) (\<lambda>n.
     res_ensure (\<not> (ws_template_id s \<noteq> node_template_id n
                    \<or> ws_template_version s \<noteq> node_template_version n))
       (AgentSpecIdentityMismatch (ws_node_id s))
    (res_ensure (\<not> bt_contains compiled (ws_node_id s)) (DuplicateAgentSpec (ws_node_id s))
       (collect_specs agents specs (bt_insert (ws_node_id s) s compiled))))"

fun check_all_present ::
    "(string, workflow_agent_spec) btree \<Rightarrow> string list \<Rightarrow> workflow_compile_error + unit" where
  "check_all_present compiled [] = Inr ()"
| "check_all_present compiled (node_id # ids) =
     res_ensure (bt_contains compiled node_id) (MissingAgentSpec node_id) (check_all_present compiled ids)"

type_synonym alias_map = "(string, connection_operation) btree"

fun merge_operations ::
    "connection_operation list \<Rightarrow> alias_map \<Rightarrow> workflow_compile_error + alias_map" where
  "merge_operations [] aliases = Inr aliases"
| "merge_operations (operation # operations) aliases =
     (case bt_get aliases (co_model_tool_name operation) of
        Some existing \<Rightarrow>
          res_ensure (existing = operation) (OperationAliasConflict (co_model_tool_name operation))
            (merge_operations operations aliases)
      | None \<Rightarrow> merge_operations operations (bt_insert (co_model_tool_name operation) operation aliases))"

fun merge_specs ::
    "filesystem \<Rightarrow> workflow_agent_spec list \<Rightarrow> capability_projection \<Rightarrow> alias_map
      \<Rightarrow> workflow_compile_error + capability_projection \<times> alias_map" where
  "merge_specs fs [] capabilities aliases = Inr (capabilities, aliases)"
| "merge_specs fs (s # specs) capabilities aliases =
     res_bind (merge_operations (spec_operations s) aliases)
       (merge_specs fs specs (union_projection fs capabilities (ws_capabilities s)))"

type_synonym workflow_encoder =
  "uuid \<times> string \<times> (string, workflow_agent_spec) btree \<times> capability_projection
    \<times> runtime_connection_authority \<Rightarrow> string"

definition compiled_workflow_hash ::
    "workflow_encoder \<Rightarrow> flow_definition \<Rightarrow> (string, workflow_agent_spec) btree
      \<Rightarrow> capability_projection \<Rightarrow> runtime_connection_authority \<Rightarrow> string" where
  "compiled_workflow_hash to_vec f specs capabilities authority =
     content_fingerprint (to_vec (df_id f, df_content_hash f, specs, capabilities, authority))"

definition compile_workflow ::
    "flow_decoders \<Rightarrow> filesystem \<Rightarrow> (flow_spec \<Rightarrow> string) \<Rightarrow> workflow_encoder \<Rightarrow> timestamp
      \<Rightarrow> flow_definition \<Rightarrow> workflow_agent_spec list \<Rightarrow> workflow_compile_error + compiled_workflow_v1" where
  "compile_workflow d fs spec_vec to_vec now f agent_specs =
     (case compile_flow d fs spec_vec now (to_spec f) (df_capabilities f) of
        Inl report \<Rightarrow> Inl (InvalidFlowDefinition (map issue_code (vr_issues report)))
      | Inr _ \<Rightarrow>
          res_bind (collect_specs (graph_agents (df_graph f)) agent_specs []) (\<lambda>compiled.
          res_bind (check_all_present compiled (map fst (graph_agents (df_graph f)))) (\<lambda>_.
          res_bind (merge_specs fs (map snd compiled) (df_capabilities f) []) (\<lambda>(capabilities, aliases).
          let authority = Structured (map snd aliases) in
          Inr \<lparr>wf1_schema_version = agent_schema_version, wf1_definition_id = df_id f,
               wf1_flow_id = df_flow_id f, wf1_flow_version = df_version f,
               wf1_definition_content_hash = df_content_hash f, wf1_graph = df_graph f,
               wf1_input_schema = df_input_schema f, wf1_output_schema = df_output_schema f,
               wf1_root_capabilities = df_capabilities f, wf1_harness_capabilities = capabilities,
               wf1_harness_authority = authority, wf1_budget = df_budget f,
               wf1_agent_specs = compiled,
               wf1_content_hash = compiled_workflow_hash to_vec f compiled capabilities authority\<rparr>))))"

definition agent_spec :: "compiled_workflow_v1 \<Rightarrow> string \<Rightarrow> workflow_agent_spec option" where
  "agent_spec w node_id = bt_get (wf1_agent_specs w) node_id"

definition template_dependencies :: "compiled_workflow_v1 \<Rightarrow> (string \<times> nat \<times> string) set" where
  "template_dependencies w =
     set (map (\<lambda>(_, s). (ws_template_id s, ws_template_version s, ws_template_content_hash s))
       (wf1_agent_specs w))"

section \<open>Revisions and active flows\<close>

datatype workflow_output =
    InboxOutput
  | WebhookOutput string "string option"
  | ConnectionOperationOutput connection_operation
  | HumanTaskOutput string string "string option"

record flow_revision_v1 =
  rev_schema_version :: nat
  rev_id :: uuid
  rev_compiled_workflow :: compiled_workflow_v1
  rev_trigger :: workflow_trigger
  rev_ingress_policy :: ingress_policy
  rev_output :: workflow_output
  rev_output_review_policy :: output_review_policy
  rev_content_hash :: string
  rev_created_at :: timestamp
  rev_created_by :: string

type_synonym revision_encoder =
  "uuid \<times> compiled_workflow_v1 \<times> workflow_trigger \<times> ingress_policy \<times> workflow_output
    \<times> output_review_policy \<times> string \<Rightarrow> string"

definition revision_new_with_ingress_policy ::
    "revision_encoder \<Rightarrow> uuid \<Rightarrow> timestamp \<Rightarrow> compiled_workflow_v1 \<Rightarrow> workflow_trigger \<Rightarrow> ingress_policy
      \<Rightarrow> workflow_output \<Rightarrow> output_review_policy \<Rightarrow> string \<Rightarrow> flow_revision_v1" where
  "revision_new_with_ingress_policy to_vec new_id now w trigger ingress out review created_by =
     \<lparr>rev_schema_version = agent_schema_version, rev_id = new_id, rev_compiled_workflow = w,
      rev_trigger = trigger, rev_ingress_policy = ingress, rev_output = out,
      rev_output_review_policy = review,
      rev_content_hash = content_fingerprint (to_vec (new_id, w, trigger, ingress, out, review, created_by)),
      rev_created_at = now, rev_created_by = created_by\<rparr>"

definition revision_new_with_options ::
    "revision_encoder \<Rightarrow> uuid \<Rightarrow> timestamp \<Rightarrow> compiled_workflow_v1 \<Rightarrow> workflow_trigger \<Rightarrow> workflow_output
      \<Rightarrow> output_review_policy \<Rightarrow> string \<Rightarrow> flow_revision_v1" where
  "revision_new_with_options to_vec new_id now w trigger out review created_by =
     revision_new_with_ingress_policy to_vec new_id now w trigger Immediate out review created_by"

definition revision_new_with_io ::
    "revision_encoder \<Rightarrow> uuid \<Rightarrow> timestamp \<Rightarrow> compiled_workflow_v1 \<Rightarrow> workflow_trigger \<Rightarrow> workflow_output
      \<Rightarrow> string \<Rightarrow> flow_revision_v1" where
  "revision_new_with_io to_vec new_id now w trigger out created_by =
     revision_new_with_options to_vec new_id now w trigger out AlwaysReviewOutput created_by"

definition revision_new ::
    "revision_encoder \<Rightarrow> uuid \<Rightarrow> timestamp \<Rightarrow> compiled_workflow_v1 \<Rightarrow> string \<Rightarrow> flow_revision_v1" where
  "revision_new to_vec new_id now w created_by =
     revision_new_with_io to_vec new_id now w ManualTrigger InboxOutput created_by"

datatype flow_status = FlowActive | FlowPaused

definition flow_status_str :: "flow_status \<Rightarrow> string" where
  "flow_status_str s = (case s of FlowActive \<Rightarrow> ''active'' | FlowPaused \<Rightarrow> ''paused'')"

record active_flow =
  af_schema_version :: nat
  af_id :: uuid
  af_revision :: nat
  af_flow_id :: string
  af_name :: string
  af_thread_id :: uuid
  af_status :: flow_status
  af_active_revision :: flow_revision_v1
  af_created_at :: timestamp
  af_updated_at :: timestamp
  af_created_by :: string

definition flow_new_with_ingress_policy ::
    "revision_encoder \<Rightarrow> uuid \<Rightarrow> uuid \<Rightarrow> timestamp \<Rightarrow> string \<Rightarrow> uuid \<Rightarrow> compiled_workflow_v1 \<Rightarrow> workflow_trigger
      \<Rightarrow> ingress_policy \<Rightarrow> workflow_output \<Rightarrow> output_review_policy \<Rightarrow> string
      \<Rightarrow> workflow_compile_error + active_flow" where
  "flow_new_with_ingress_policy to_vec new_id revision_id now name thread_id w trigger ingress out review
     created_by =
     (let name = trim name; created_by = trim created_by in
      res_ensure (\<not> (name = [] \<or> created_by = [])) InvalidFlowIdentity
       (Inr \<lparr>af_schema_version = agent_schema_version, af_id = new_id, af_revision = 1,
             af_flow_id = wf1_flow_id w, af_name = name, af_thread_id = thread_id,
             af_status = FlowActive,
             af_active_revision =
               revision_new_with_ingress_policy to_vec revision_id now w trigger ingress out review created_by,
             af_created_at = now, af_updated_at = now, af_created_by = created_by\<rparr>))"

definition flow_new_with_options ::
    "revision_encoder \<Rightarrow> uuid \<Rightarrow> uuid \<Rightarrow> timestamp \<Rightarrow> string \<Rightarrow> uuid \<Rightarrow> compiled_workflow_v1 \<Rightarrow> workflow_trigger
      \<Rightarrow> workflow_output \<Rightarrow> output_review_policy \<Rightarrow> string \<Rightarrow> workflow_compile_error + active_flow" where
  "flow_new_with_options to_vec new_id revision_id now name thread_id w trigger out review created_by =
     flow_new_with_ingress_policy to_vec new_id revision_id now name thread_id w trigger Immediate out
       review created_by"

definition flow_new_with_io ::
    "revision_encoder \<Rightarrow> uuid \<Rightarrow> uuid \<Rightarrow> timestamp \<Rightarrow> string \<Rightarrow> uuid \<Rightarrow> compiled_workflow_v1 \<Rightarrow> workflow_trigger
      \<Rightarrow> workflow_output \<Rightarrow> string \<Rightarrow> workflow_compile_error + active_flow" where
  "flow_new_with_io to_vec new_id revision_id now name thread_id w trigger out created_by =
     flow_new_with_options to_vec new_id revision_id now name thread_id w trigger out AlwaysReviewOutput
       created_by"

definition flow_new ::
    "revision_encoder \<Rightarrow> uuid \<Rightarrow> uuid \<Rightarrow> timestamp \<Rightarrow> string \<Rightarrow> uuid \<Rightarrow> compiled_workflow_v1 \<Rightarrow> string
      \<Rightarrow> workflow_compile_error + active_flow" where
  "flow_new to_vec new_id revision_id now name thread_id w created_by =
     flow_new_with_io to_vec new_id revision_id now name thread_id w ManualTrigger InboxOutput created_by"

definition flow_pause :: "timestamp \<Rightarrow> active_flow \<Rightarrow> active_flow" where
  "flow_pause now flow =
     flow\<lparr>af_status := FlowPaused, af_revision := u32_sat_add (af_revision flow) 1, af_updated_at := now\<rparr>"

definition flow_touch :: "timestamp \<Rightarrow> active_flow \<Rightarrow> active_flow" where
  "flow_touch now flow = flow\<lparr>af_revision := u32_sat_add (af_revision flow) 1, af_updated_at := now\<rparr>"

definition flow_resume :: "timestamp \<Rightarrow> active_flow \<Rightarrow> active_flow" where
  "flow_resume now flow = flow_touch now (flow\<lparr>af_status := FlowActive\<rparr>)"

definition apply_revision ::
    "revision_encoder \<Rightarrow> uuid \<Rightarrow> timestamp \<Rightarrow> string \<Rightarrow> compiled_workflow_v1 \<Rightarrow> workflow_trigger
      \<Rightarrow> ingress_policy \<Rightarrow> workflow_output \<Rightarrow> output_review_policy \<Rightarrow> string \<Rightarrow> active_flow
      \<Rightarrow> workflow_compile_error + active_flow" where
  "apply_revision to_vec revision_id now name w trigger ingress out review applied_by flow =
     res_ensure (wf1_flow_id w = af_flow_id flow) FlowRevisionIdentityMismatch
    (let name = trim name; applied_by = trim applied_by in
     res_ensure (\<not> (name = [] \<or> applied_by = [])) InvalidFlowIdentity
      (Inr (flow\<lparr>af_name := name,
                 af_active_revision :=
                   revision_new_with_ingress_policy to_vec revision_id now w trigger ingress out review
                     applied_by,
                 af_status := FlowActive, af_revision := u32_sat_add (af_revision flow) 1,
                 af_updated_at := now\<rparr>)))"

text \<open>What a run reads of a revision (\<open>FlowRun::new_from_revision\<close>).\<close>

definition run_workflow :: "compiled_workflow_v1 \<Rightarrow> compiled_workflow" where
  "run_workflow w =
     \<lparr>cw_schema_version = wf1_schema_version w, cw_flow_id = wf1_flow_id w,
      cw_flow_version = wf1_flow_version w, cw_graph = wf1_graph w, cw_budget = wf1_budget w\<rparr>"

definition run_revision :: "flow_revision_v1 \<Rightarrow> flow_revision" where
  "run_revision r =
     \<lparr>rv_schema_version = rev_schema_version r, rv_workflow = run_workflow (rev_compiled_workflow r),
      rv_trigger = rev_trigger r, rv_output_review_policy = rev_output_review_policy r\<rparr>"

section \<open>What a compiled agent may do\<close>

lemma with_operation_allows:
  "allows_tool (with_operation operation c) x \<longleftrightarrow> allows_tool c x \<or> x = co_model_tool_name operation"
  "allows_mcp_server (with_operation operation c) x \<longleftrightarrow> allows_mcp_server c x \<or> x = co_mcp_server_id operation"
  "allows_skill (with_operation operation c) x \<longleftrightarrow> allows_skill c x"
  "allows_plugin (with_operation operation c) x \<longleftrightarrow> allows_plugin c x"
  "allows_workspace_root fs (with_operation operation c) p \<longleftrightarrow> allows_workspace_root fs c p"
  by (auto simp: with_operation_def Let_def allows_tool_def allows_mcp_server_def allows_skill_def
      allows_plugin_def allows_workspace_root_def)

lemma with_operations_allows:
  "allows_tool (capabilities_with_connection_operations c operations) x
     \<longleftrightarrow> allows_tool c x \<or> x \<in> co_model_tool_name ` set operations"
  "allows_mcp_server (capabilities_with_connection_operations c operations) x
     \<longleftrightarrow> allows_mcp_server c x \<or> x \<in> co_mcp_server_id ` set operations"
  by (induction operations arbitrary: c)
     (auto simp: capabilities_with_connection_operations_def with_operation_allows)

lemma set_sorted_operations:
  "set (sorted_operations resolved) = (\<Union>r \<in> set resolved. snd ` set (rb_operations r))"
  by (simp add: sorted_operations_def)

lemma map_of_rev_member:
  "map_of (rev xs) k = Some v \<Longrightarrow> (k, v) \<in> set xs"
  using map_of_SomeD [of "rev xs" k v] by simp

lemma resolved_bindings_matchD:
  assumes "resolved_bindings_match expected resolved" "b \<in> set expected"
  obtains r where "r \<in> set resolved" "rb_binding r = b"
    "length (rb_operations r) = card (granted_operation_ids b)"
    "\<forall>(k, operation) \<in> set (rb_operations r). k \<in> granted_operation_ids b
       \<and> co_connection_id operation = cb_connection_id b
       \<and> co_capability_revision operation = cb_capability_revision b
       \<and> co_operation_id operation = k"
proof -
  let ?index = "bt_extend (map (\<lambda>r. (cb_connection_id (rb_binding r), r)) resolved) []"
  from assms(1) have "\<forall>b \<in> set expected. case bt_get ?index (cb_connection_id b) of
            None \<Rightarrow> False
          | Some candidate \<Rightarrow>
              rb_binding candidate = b
              \<and> length (rb_operations candidate) = card (granted_operation_ids b)
              \<and> list_all (\<lambda>(operation_id, operation).
                    operation_id \<in> granted_operation_ids b
                    \<and> co_connection_id operation = cb_connection_id b
                    \<and> co_capability_revision operation = cb_capability_revision b
                    \<and> co_operation_id operation = operation_id) (rb_operations candidate)"
    unfolding resolved_bindings_match_def Let_def by (metis (no_types, lifting) list_all_iff)
  from bspec [OF this assms(2)] obtain r where r: "bt_get ?index (cb_connection_id b) = Some r"
    and rest: "rb_binding r = b" "length (rb_operations r) = card (granted_operation_ids b)"
    "list_all (\<lambda>(operation_id, operation).
                    operation_id \<in> granted_operation_ids b
                    \<and> co_connection_id operation = cb_connection_id b
                    \<and> co_capability_revision operation = cb_capability_revision b
                    \<and> co_operation_id operation = operation_id) (rb_operations r)"
    by (cases "bt_get ?index (cb_connection_id b)") simp_all
  from r have "(cb_connection_id b, r) \<in> set (map (\<lambda>r. (cb_connection_id (rb_binding r), r)) resolved)"
    by (auto simp: bt_get_extend split: option.splits dest!: map_of_rev_member)
  then have "r \<in> set resolved" by auto
  with rest that show thesis by (auto simp: list_all_iff)
qed

text \<open>The resolved operations of a template are exactly the operations its bindings grant.\<close>

definition operation_identity :: "connection_operation \<Rightarrow> uuid \<times> nat \<times> string" where
  "operation_identity operation =
     (co_connection_id operation, co_capability_revision operation, co_operation_id operation)"

lemma resolved_keys:
  assumes "bt_inv m" "length m = card S" "fst ` set m \<subseteq> S" "finite S"
  shows "fst ` set m = S"
proof -
  have "card (fst ` set m) = length m"
    using bt_inv_distinct [OF assms(1)] distinct_card [of "map fst m"] by simp
  then show ?thesis using assms card_subset_eq by metis
qed

lemma resolved_bindings_complete:
  assumes match: "resolved_bindings_match expected resolved" and distinct: "distinct (map cb_connection_id expected)"
  shows "set expected = rb_binding ` set resolved"
proof -
  have sub: "set expected \<subseteq> rb_binding ` set resolved"
  proof
    fix b assume "b \<in> set expected"
    with match obtain r where "r \<in> set resolved" "rb_binding r = b" by (rule resolved_bindings_matchD)
    then show "b \<in> rb_binding ` set resolved" by blast
  qed
  have "distinct expected" using distinct by (simp add: distinct_map)
  then have "card (set expected) = length expected" by (rule distinct_card)
  also have "\<dots> = length resolved" using match by (simp add: resolved_bindings_match_def)
  finally have "card (rb_binding ` set resolved) \<le> card (set expected)"
    using card_image_le [of "set resolved" rb_binding] card_length [of resolved] by simp
  with sub show ?thesis by (simp add: card_seteq)
qed

lemma resolved_binding_unique:
  assumes match: "resolved_bindings_match expected resolved" and distinct: "distinct (map cb_connection_id expected)"
  shows "inj_on rb_binding (set resolved)"
proof (rule eq_card_imp_inj_on)
  have "card (rb_binding ` set resolved) = length expected"
    using resolved_bindings_complete [OF assms] distinct_card [of expected] distinct by (simp add: distinct_map)
  also have "\<dots> = length resolved" using match by (simp add: resolved_bindings_match_def)
  finally show "card (rb_binding ` set resolved) = card (set resolved)"
    using card_length [of resolved] card_image_le [of "set resolved" rb_binding] by simp
qed simp

lemma resolved_operations:
  assumes match: "resolved_bindings_match expected resolved" and distinct: "distinct (map cb_connection_id expected)"
    and maps: "\<forall>r \<in> set resolved. bt_inv (rb_operations r)"
  shows "operation_identity ` set (sorted_operations resolved) = operation_set expected"
proof -
  have each: "operation_identity ` snd ` set (rb_operations r)
      = (\<lambda>k. (cb_connection_id (rb_binding r), cb_capability_revision (rb_binding r), k))
          ` granted_operation_ids (rb_binding r)" if r: "r \<in> set resolved" for r
  proof -
    have "rb_binding r \<in> set expected" using r resolved_bindings_complete [OF match distinct] by blast
    from match this obtain r' where r': "r' \<in> set resolved" "rb_binding r' = rb_binding r"
      "length (rb_operations r') = card (granted_operation_ids (rb_binding r))"
      and ops: "\<forall>(k, operation) \<in> set (rb_operations r'). k \<in> granted_operation_ids (rb_binding r)
       \<and> co_connection_id operation = cb_connection_id (rb_binding r)
       \<and> co_capability_revision operation = cb_capability_revision (rb_binding r)
       \<and> co_operation_id operation = k"
      by (rule resolved_bindings_matchD)
    have same: "r' = r" using resolved_binding_unique [OF match distinct] r r' by (auto dest: inj_onD)
    have "fst ` set (rb_operations r) = granted_operation_ids (rb_binding r)"
      using maps r r'(3) ops unfolding same by (intro resolved_keys) auto
    moreover have "operation_identity (snd p) =
        (cb_connection_id (rb_binding r), cb_capability_revision (rb_binding r), fst p)"
      if "p \<in> set (rb_operations r)" for p
      using ops that unfolding same by (auto simp: operation_identity_def)
    ultimately show ?thesis by (force simp: image_iff)
  qed
  have "operation_identity ` set (sorted_operations resolved)
      = (\<Union>r \<in> set resolved. operation_identity ` snd ` set (rb_operations r))"
    by (simp add: set_sorted_operations image_UN)
  also have "\<dots> = (\<Union>b \<in> set expected. (\<lambda>k. (cb_connection_id b, cb_capability_revision b, k)) ` granted_operation_ids b)"
    using each by (simp add: resolved_bindings_complete [OF match distinct])
  also have "\<dots> = operation_set expected" by (auto simp: operation_set_def granted_operation_ids_def)
  finally show ?thesis .
qed

section \<open>What a compiled workflow holds\<close>

lemma bt_values:
  assumes "bt_inv m"
  shows "set (map snd m) = {v. \<exists>k. bt_get m k = Some v}"
  using map_of_eq_Some_iff [OF bt_inv_distinct [OF assms]] by (force simp: bt_get_map_of)

lemma collect_specs_Inr:
  assumes "collect_specs agents specs m = Inr m'" "bt_inv m"
  shows "bt_inv m'
    \<and> (\<forall>k s. bt_get m' k = Some s \<longleftrightarrow> bt_get m k = Some s \<or> s \<in> set specs \<and> ws_node_id s = k)
    \<and> (\<forall>s \<in> set specs. \<exists>n. bt_get agents (ws_node_id s) = Some n
         \<and> ws_template_id s = node_template_id n \<and> ws_template_version s = node_template_version n)"
  using assms
proof (induction specs arbitrary: m)
  case (Cons s specs)
  from Cons.prems(1) obtain n where n: "bt_get agents (ws_node_id s) = Some n"
    "ws_template_id s = node_template_id n" "ws_template_version s = node_template_version n"
    and fresh: "\<not> bt_contains m (ws_node_id s)"
    and rest: "collect_specs agents specs (bt_insert (ws_node_id s) s m) = Inr m'"
    by (auto simp: res_Inr_iffs)
  have "bt_get m (ws_node_id s) = None" using fresh by (simp add: bt_contains_get)
  with Cons.IH [OF rest bt_inv_insert [OF Cons.prems(2)]] n show ?case
    by (auto simp: bt_get_insert)
qed simp

lemma check_all_present_Inr:
  "check_all_present m ids = Inr () \<longleftrightarrow> (\<forall>k \<in> set ids. bt_contains m k)"
  by (induction ids) (auto simp: res_ensure_def)

definition aliases_ok :: "alias_map \<Rightarrow> bool" where
  "aliases_ok m \<longleftrightarrow> bt_inv m \<and> (\<forall>k operation. bt_get m k = Some operation \<longrightarrow> co_model_tool_name operation = k)"

lemma aliases_ok_insert:
  "aliases_ok m \<Longrightarrow> aliases_ok (bt_insert (co_model_tool_name operation) operation m)"
  by (simp add: aliases_ok_def bt_inv_insert bt_get_insert)

lemma merge_operations_Inr:
  assumes "merge_operations operations m = Inr m'" "aliases_ok m"
  shows "aliases_ok m'
    \<and> (\<forall>operation. (\<exists>k. bt_get m' k = Some operation)
         \<longleftrightarrow> (\<exists>k. bt_get m k = Some operation) \<or> operation \<in> set operations)"
  using assms
proof (induction operations arbitrary: m)
  case (Cons operation operations)
  show ?case
  proof (cases "bt_get m (co_model_tool_name operation)")
    case None
    with Cons.prems(1) have "merge_operations operations (bt_insert (co_model_tool_name operation) operation m) = Inr m'"
      by simp
    note IH = Cons.IH [OF this aliases_ok_insert [OF Cons.prems(2)]]
    have "(\<exists>k. bt_get (bt_insert (co_model_tool_name operation) operation m) k = Some x)
        \<longleftrightarrow> x = operation \<or> (\<exists>k. bt_get m k = Some x)" for x
      using None by (metis bt_get_insert option.distinct(1) option.inject)
    with IH show ?thesis by auto
  next
    case (Some existing)
    with Cons.prems(1) have "existing = operation" "merge_operations operations m = Inr m'"
      by (simp_all add: res_Inr_iffs)
    with Cons.IH [OF _ Cons.prems(2)] Some show ?thesis by auto
  qed
qed simp

lemma merge_specs_Inr:
  assumes "merge_specs fs specs c m = Inr (c', m')" "canonical_paths fs" "aliases_ok m"
  shows "granted fs c' = granted fs c \<union> (\<Union>s \<in> set specs. granted fs (ws_capabilities s))
    \<and> aliases_ok m'
    \<and> (\<forall>operation. (\<exists>k. bt_get m' k = Some operation)
         \<longleftrightarrow> (\<exists>k. bt_get m k = Some operation) \<or> (\<exists>s \<in> set specs. operation \<in> set (spec_operations s)))"
  using assms
proof (induction specs arbitrary: c m)
  case (Cons s specs)
  from Cons.prems(1) obtain m1 where m1: "merge_operations (spec_operations s) m = Inr m1"
    and rest: "merge_specs fs specs (union_projection fs c (ws_capabilities s)) m1 = Inr (c', m')"
    by (auto simp: res_Inr_iffs)
  note ops = merge_operations_Inr [OF m1 Cons.prems(3)]
  have "granted fs (union_projection fs c (ws_capabilities s)) = granted fs c \<union> granted fs (ws_capabilities s)"
    using grants_union [OF Cons.prems(2)] by (auto simp: granted_def)
  with Cons.IH [OF rest Cons.prems(2)] ops show ?case by auto
qed simp

lemma graph_agents_get:
  "(\<exists>n. bt_get (graph_agents g) k = Some n) \<longleftrightarrow> (\<exists>n \<in> set (gd_nodes g). gn_kind n = AgentNode \<and> gn_id n = k)"
  "bt_get (graph_agents g) k = Some n \<Longrightarrow> n \<in> set (gd_nodes g) \<and> gn_kind n = AgentNode \<and> gn_id n = k"
proof -
  let ?entries = "map (\<lambda>n. (gn_id n, n)) (filter (\<lambda>n. gn_kind n = AgentNode) (gd_nodes g))"
  have get: "bt_get (graph_agents g) k = map_of (rev ?entries) k"
    by (simp add: graph_agents_def bt_get_extend split: option.splits)
  show "bt_get (graph_agents g) k = Some n \<Longrightarrow> n \<in> set (gd_nodes g) \<and> gn_kind n = AgentNode \<and> gn_id n = k"
    unfolding get using map_of_rev_member [of ?entries k n] by auto
  have "(\<exists>n. map_of (rev ?entries) k = Some n) \<longleftrightarrow> k \<in> fst ` set ?entries"
    unfolding not_None_eq [symmetric] map_of_eq_None_iff set_rev by blast
  moreover have "k \<in> fst ` set ?entries \<longleftrightarrow> (\<exists>n \<in> set (gd_nodes g). gn_kind n = AgentNode \<and> gn_id n = k)"
    by force
  ultimately show "(\<exists>n. bt_get (graph_agents g) k = Some n) \<longleftrightarrow> (\<exists>n \<in> set (gd_nodes g). gn_kind n = AgentNode \<and> gn_id n = k)"
    unfolding get by (rule trans)
qed

lemma graph_agents_keys: "set (map fst (graph_agents g)) = {k. \<exists>n. bt_get (graph_agents g) k = Some n}"
  using dom_map_of_conv_image_fst [of "graph_agents g"] by (simp add: bt_get_map_of dom_def)

lemma compile_workflow_Inr:
  assumes "compile_workflow d fs spec_vec to_vec now f specs = Inr w"
  obtains compiled c m where "collect_specs (graph_agents (df_graph f)) specs [] = Inr compiled"
    "check_all_present compiled (map fst (graph_agents (df_graph f))) = Inr ()"
    "merge_specs fs (map snd compiled) (df_capabilities f) [] = Inr (c, m)"
    "wf1_agent_specs w = compiled" "wf1_graph w = df_graph f" "wf1_root_capabilities w = df_capabilities f"
    "wf1_harness_capabilities w = c" "wf1_harness_authority w = Structured (map snd m)"
  using assms
  by (auto simp: compile_workflow_def res_Inr_iffs Let_def split: sum.splits)

lemma compile_agent_spec_Inr:
  assumes "compile_agent_spec to_vec node_id t resolved = Inr s"
  shows "validate_template t = Inr ()" "at_status t = PublishedTemplate"
    "at_content_hash t = calculate_content_hash to_vec t"
    "resolved_bindings_match (ts_connection_bindings (at_spec t)) resolved"
    "ws_connection_authority s = Structured (sorted_operations resolved)"
    "ws_capabilities s = capabilities_with_connection_operations (ts_capabilities (at_spec t)) (sorted_operations resolved)"
    "ws_resource_grants s = ts_resource_grants (at_spec t)" "ws_model_policy s = ts_model_policy (at_spec t)"
    "ws_template_content_hash s = at_content_hash t" "ws_node_id s = node_id"
  using assms by (auto simp: compile_agent_spec_def res_Inr_iffs Let_def)

lemma harness_keeps_operations:
  assumes "\<forall>s \<in> set specs. attenuate (ws_connection_authority s) (ws_capabilities s) = ws_connection_authority s"
    and "granted fs c = granted fs root \<union> (\<Union>s \<in> set specs. granted fs (ws_capabilities s))"
    and "set operations = (\<Union>s \<in> set specs. set (spec_operations s))"
  shows "attenuate (Structured operations) c = Structured operations"
proof -
  have "allows_tool c (co_model_tool_name operation) \<and> allows_mcp_server c (co_mcp_server_id operation)"
    if "operation \<in> set operations" for operation
  proof -
    from that assms(3) obtain s where s: "s \<in> set specs" "operation \<in> set (spec_operations s)" by blast
    then obtain own where own: "ws_connection_authority s = Structured own" "operation \<in> set own"
      by (cases "ws_connection_authority s") (simp_all add: spec_operations_def)
    have "attenuate (Structured own) (ws_capabilities s) = Structured own" using assms(1) s(1) own(1) by metis
    then have "allows_tool (ws_capabilities s) (co_model_tool_name operation)
        \<and> allows_mcp_server (ws_capabilities s) (co_mcp_server_id operation)"
      using own(2) by (simp add: filter_id_conv)
    moreover have "x \<in> granted fs c" if "x \<in> granted fs (ws_capabilities s)" for x
      using that s(1) assms(2) by blast
    from this [of "ToolCapability (co_model_tool_name operation)"]
      this [of "McpServerCapability (co_mcp_server_id operation)"]
    have "allows_tool (ws_capabilities s) (co_model_tool_name operation) \<Longrightarrow> allows_tool c (co_model_tool_name operation)"
      "allows_mcp_server (ws_capabilities s) (co_mcp_server_id operation) \<Longrightarrow> allows_mcp_server c (co_mcp_server_id operation)"
      by (simp_all add: granted_def)
    ultimately show ?thesis by blast
  qed
  then show ?thesis by (simp add: filter_id_conv)
qed

lemma compiled_specs_complete:
  assumes "compile_workflow d fs spec_vec to_vec now f specs = Inr w"
  shows "(\<forall>k. agent_spec w k \<noteq> None \<longleftrightarrow> (\<exists>n \<in> set (gd_nodes (df_graph f)). gn_kind n = AgentNode \<and> gn_id n = k))
    \<and> (\<forall>k s. agent_spec w k = Some s \<longleftrightarrow> s \<in> set specs \<and> ws_node_id s = k)
    \<and> (\<forall>s \<in> set specs. \<exists>n \<in> set (gd_nodes (df_graph f)). gn_kind n = AgentNode \<and> gn_id n = ws_node_id s
         \<and> ws_template_id s = node_template_id n \<and> ws_template_version s = node_template_version n)"
proof -
  from assms obtain compiled where collected: "collect_specs (graph_agents (df_graph f)) specs [] = Inr compiled"
    and present: "check_all_present compiled (map fst (graph_agents (df_graph f))) = Inr ()"
    and w: "wf1_agent_specs w = compiled"
    by (rule compile_workflow_Inr)
  note collect = collect_specs_Inr [OF collected bt.inv_empty]
  have specs: "bt_get compiled k = Some s \<longleftrightarrow> s \<in> set specs \<and> ws_node_id s = k" for k s
    using collect by simp
  have nodes: "\<forall>s \<in> set specs. \<exists>n \<in> set (gd_nodes (df_graph f)). gn_kind n = AgentNode \<and> gn_id n = ws_node_id s
         \<and> ws_template_id s = node_template_id n \<and> ws_template_version s = node_template_version n"
    using collect graph_agents_get(2) by blast
  have complete: "\<exists>s. bt_get compiled k = Some s"
    if "\<exists>n \<in> set (gd_nodes (df_graph f)). gn_kind n = AgentNode \<and> gn_id n = k" for k
  proof -
    from that have "k \<in> set (map fst (graph_agents (df_graph f)))"
      unfolding graph_agents_keys mem_Collect_eq graph_agents_get(1) .
    with present show ?thesis unfolding check_all_present_Inr bt_contains_get by (rule bspec)
  qed
  have "agent_spec w k \<noteq> None \<longleftrightarrow> (\<exists>n \<in> set (gd_nodes (df_graph f)). gn_kind n = AgentNode \<and> gn_id n = k)" for k
    unfolding agent_spec_def w not_None_eq
  proof
    assume "\<exists>s. bt_get compiled k = Some s"
    then obtain s where "s \<in> set specs" "ws_node_id s = k" unfolding specs by (elim exE conjE)
    with nodes show "\<exists>n \<in> set (gd_nodes (df_graph f)). gn_kind n = AgentNode \<and> gn_id n = k" by metis
  qed (rule complete)
  with specs nodes show ?thesis unfolding agent_spec_def w by blast
qed

lemma compiled_harness:
  assumes "compile_workflow d fs spec_vec to_vec now f specs = Inr w" and "canonical_paths fs"
  shows "granted fs (wf1_harness_capabilities w)
        = granted fs (df_capabilities f) \<union> (\<Union>s \<in> set specs. granted fs (ws_capabilities s))
    \<and> (\<exists>operations. wf1_harness_authority w = Structured operations
         \<and> distinct (map co_model_tool_name operations)
         \<and> set operations = (\<Union>s \<in> set specs. set (spec_operations s)))"
proof -
  from assms(1) obtain compiled c m where collected: "collect_specs (graph_agents (df_graph f)) specs [] = Inr compiled"
    and merged: "merge_specs fs (map snd compiled) (df_capabilities f) [] = Inr (c, m)"
    and w: "wf1_harness_capabilities w = c" "wf1_harness_authority w = Structured (map snd m)"
    by (rule compile_workflow_Inr)
  have vals: "set (map snd compiled) = set specs"
    using bt_values [of compiled] collect_specs_Inr [OF collected bt.inv_empty] by auto
  have "aliases_ok []" by (simp add: aliases_ok_def bt.inv_empty)
  note merge = merge_specs_Inr [OF merged assms(2) this, unfolded vals aliases_ok_def]
  have aliases: "bt_inv m" "\<forall>k operation. bt_get m k = Some operation \<longrightarrow> co_model_tool_name operation = k"
    using merge by blast+
  have "set (map snd m) = (\<Union>s \<in> set specs. set (spec_operations s))"
    unfolding bt_values [OF aliases(1)] using merge by auto
  moreover have "map co_model_tool_name (map snd m) = map fst m"
    using aliases map_of_is_SomeI [OF bt_inv_distinct [OF aliases(1)]] by (auto simp: bt_get_map_of)
  then have "distinct (map co_model_tool_name (map snd m))"
    using bt_inv_distinct [OF aliases(1)] by (simp only:)
  ultimately show ?thesis unfolding w using merge by blast
qed

section \<open>Properties\<close>

definition lookup_binding :: connection_binding where
  "lookup_binding =
     \<lparr>cb_connection_id = ''crm'', cb_capability_revision = 3,
      cb_operation_grants = [\<lparr>og_operation_id = ''lookup''\<rparr>]\<rparr>"

definition lookup_operation :: connection_operation where
  "lookup_operation =
     \<lparr>co_connection_id = ''crm'', co_capability_revision = 3, co_operation_id = ''lookup'',
      co_mcp_server_id = ''m'', co_provider_tool_name = ''lookup'', co_model_tool_name = ''lookup_crm'',
      co_pinned_operation_fingerprint = ''f''\<rparr>"

definition lookup_resolved :: "resolved_binding list" where
  "lookup_resolved = [\<lparr>rb_binding = lookup_binding, rb_operations = [(''lookup'', lookup_operation)]\<rparr>]"

definition connected_template :: agent_template where
  "connected_template =
     (let t = example_template 1 PublishedTemplate [''grep''] in
        t\<lparr>at_spec := (at_spec t)\<lparr>ts_connection_bindings := [lookup_binding]\<rparr>\<rparr>)"

lemma connected_template_valid: "validate_template connected_template = Inr ()"
proof -
  have "validate_connection_bindings_shape [lookup_binding] = Inr ()" by code_simp
  moreover have "\<not> cap_allow_all_mcp_servers deny_all \<and> cap_mcp_servers deny_all = {}" by (simp add: deny_all_def)
  ultimately show ?thesis
    using example_template_valid [of 1 PublishedTemplate "[''grep'']"]
    by (simp add: validate_template_def connected_template_def example_template_def Let_def res_Inr_iffs
        example_template_spec_def)
qed

lemma lookup_resolved_match: "resolved_bindings_match [lookup_binding] lookup_resolved"
  by (simp add: resolved_bindings_match_def lookup_resolved_def bt_extend_def granted_operation_ids_def
      lookup_binding_def lookup_operation_def)

lemma sorted_lookup [simp]: "sorted_operations lookup_resolved = [lookup_operation]"
  by (simp add: sorted_operations_def lookup_resolved_def)

lemma connected_template_compiles:
  "\<exists>s. compile_agent_spec (\<lambda>_. []) ''ask'' connected_template lookup_resolved = Inr s
    \<and> ws_node_id s = ''ask'' \<and> ws_template_id s = ''reviewer'' \<and> ws_template_version s = 1
    \<and> spec_operations s = [lookup_operation]"
proof -
  have "ts_connection_bindings (at_spec connected_template) = [lookup_binding]"
    "at_status connected_template = PublishedTemplate" "at_template_id connected_template = ''reviewer''"
    "at_version connected_template = 1"
    "at_content_hash connected_template = calculate_content_hash (\<lambda>_. []) connected_template"
    by (simp_all add: connected_template_def example_template_def Let_def calculate_content_hash_def)
  then show ?thesis
    using connected_template_valid lookup_resolved_match
    by (simp add: compile_agent_spec_def res_ensure_def spec_operations_def Let_def)
qed



text \<open>
  C34: A compiled workflow is complete and grants no more than its parts.  Exactly the agent nodes of the
  graph have a specification, each with the template and version its node names; the harness grants
  what the definition or one of the agents grants and nothing else; its connection operations are those
  of the agents, with no tool name standing for two of them; and if every agent keeps its operations
  under its own capabilities, so does the harness.
\<close>
theorem compiled_workflow_is_complete:
  assumes "compile_workflow d fs spec_vec to_vec now f specs = Inr w" and "canonical_paths fs"
  shows "(\<forall>k. agent_spec w k \<noteq> None \<longleftrightarrow> (\<exists>n \<in> set (gd_nodes (df_graph f)). gn_kind n = AgentNode \<and> gn_id n = k))
    \<and> (\<forall>k s. agent_spec w k = Some s \<longleftrightarrow> s \<in> set specs \<and> ws_node_id s = k)
    \<and> (\<forall>s \<in> set specs. \<exists>n \<in> set (gd_nodes (df_graph f)). gn_kind n = AgentNode \<and> gn_id n = ws_node_id s
         \<and> ws_template_id s = node_template_id n \<and> ws_template_version s = node_template_version n)
    \<and> granted fs (wf1_harness_capabilities w)
        = granted fs (df_capabilities f) \<union> (\<Union>s \<in> set specs. granted fs (ws_capabilities s))
    \<and> (\<exists>operations. wf1_harness_authority w = Structured operations
         \<and> distinct (map co_model_tool_name operations)
         \<and> set operations = (\<Union>s \<in> set specs. set (spec_operations s)))
    \<and> ((\<forall>s \<in> set specs. attenuate (ws_connection_authority s) (ws_capabilities s) = ws_connection_authority s)
         \<longrightarrow> attenuate (wf1_harness_authority w) (wf1_harness_capabilities w) = wf1_harness_authority w)"
proof -
  note specs = compiled_specs_complete [OF assms(1)]
  from compiled_harness [OF assms] obtain operations where
    harness: "granted fs (wf1_harness_capabilities w)
        = granted fs (df_capabilities f) \<union> (\<Union>s \<in> set specs. granted fs (ws_capabilities s))"
      "wf1_harness_authority w = Structured operations" "distinct (map co_model_tool_name operations)"
      "set operations = (\<Union>s \<in> set specs. set (spec_operations s))"
    by blast
  have "attenuate (wf1_harness_authority w) (wf1_harness_capabilities w) = wf1_harness_authority w"
    if "\<forall>s \<in> set specs. attenuate (ws_connection_authority s) (ws_capabilities s) = ws_connection_authority s"
    unfolding harness(2) using that harness(1,4) by (rule harness_keeps_operations)
  with specs harness show ?thesis by blast
qed

definition agent_flow :: flow_definition where
  \<comment> \<open>an agent node that names version 1 of the template \<open>reviewer\<close>, and an output node\<close>
  "agent_flow =
     \<lparr>df_schema_version = agent_schema_version, df_id = ''d'', df_flow_id = ''ask'', df_name = ''Ask'',
      df_version = 1, df_owner = ''ops'', df_description = [], df_categories = {},
      df_source = NaturalLanguage ''ask'',
      df_graph = \<lparr>gd_schema_version = 1, gd_entry_node_id = ''ask'',
        gd_nodes = [example_node ''ask'' AgentNode
                      (JObject [(''reference'', JString ''reviewer''), (''templateVersion'', JNumber (PosInt 1))]),
                    example_node ''done'' OutputNode (JObject [])],
        gd_edges = [example_edge ''ask'' ''done'']\<rparr>,
      df_input_schema = JBool True, df_output_schema = JBool True, df_capabilities = deny_all,
      df_budget = flow_budget_default, df_risk_class = LowRisk, df_content_hash = ''h'',
      df_published_at = 0, df_published_by = ''ops''\<rparr>"

lemmas agent_flow_defs = agent_flow_def to_spec_def example_node_def example_edge_def example_decoders_def

lemma agent_flow_free: "graph_issues_free example_decoders (to_spec agent_flow)"
proof -
  have cycle: "\<not> contains_unbounded_cycle (df_graph agent_flow)"
    by (simp add: contains_unbounded_cycle_def cycle_adjacency_def bt_push_def visit.simps agent_flow_defs)
  have adjacency: "flow_adjacency (df_graph agent_flow) = [(''ask'', [''done''])]"
    by (simp add: flow_adjacency_def edge_present_def bt_push_def agent_flow_defs)
  have "activation_root_node_ids (fd_activation example_decoders) (df_graph agent_flow) = []"
    by (simp add: activation_root_node_ids_def is_activation_root_def valid_activation_def
        parse_node_activation_def json_get_def agent_flow_defs)
  then have reachable: "reachable_nodes (fd_activation example_decoders) (df_graph agent_flow) = {''ask'', ''done''}"
    unfolding reachable_nodes_def adjacency Let_def by (auto simp add: explore.simps agent_flow_def)
  have edges: "\<forall>x \<in> set (List.enumerate 0 (gd_edges (df_graph agent_flow))).
      edge_issues (df_budget agent_flow) (df_graph agent_flow) x = []"
    by (simp add: edge_issues_def node_index_def bt_extend_def schemas_compatible_def schema_type_def
        json_get_def as_str_def output_classification_def classification_order_defs agent_flow_defs)
  have "fs_graph (to_spec agent_flow) = df_graph agent_flow" "fs_budget (to_spec agent_flow) = df_budget agent_flow"
    by (simp_all add: to_spec_def)
  then show ?thesis
    using cycle adjacency reachable edges unfolding graph_issues_free_def Let_def
    by (simp add: targets_def validate_graph_activations_def node_activation_issues_def
        parse_node_activation_def validate_graph_state_writes_def validate_node_def
        parse_state_writes_def json_get_def flow_budget_default_def max_flow_nodes_def
        max_flow_duration_seconds_def max_flow_loop_iterations_def agent_flow_defs)
qed

lemma agent_flow_compiles:
  assumes "ws_node_id s = ''ask''" "ws_template_id s = ''reviewer''" "ws_template_version s = 1"
    "spec_operations s = [lookup_operation]"
  shows "\<exists>w. compile_workflow example_decoders plain_files (\<lambda>_. []) (\<lambda>_. []) 0 agent_flow [s] = Inr w"
proof -
  have "flow_issues example_decoders plain_files (to_spec agent_flow) (df_capabilities agent_flow) = []"
    using agent_flow_free unfolding flow_issues_Nil_iff
    by (simp add: validate_graph_node_def json_get_def as_str_def as_u64_def is_subset_of_refl agent_flow_defs)
  then obtain plan where plan: "compile_flow example_decoders plain_files (\<lambda>_. []) 0 (to_spec agent_flow)
      (df_capabilities agent_flow) = Inr plan"
    using compile_flow_Inr [of example_decoders plain_files "\<lambda>_. []" 0] by blast
  have "graph_agents (df_graph agent_flow) = [(''ask'', example_node ''ask'' AgentNode
      (JObject [(''reference'', JString ''reviewer''), (''templateVersion'', JNumber (PosInt 1))]))]"
    by (simp add: graph_agents_def bt_extend_def agent_flow_defs)
  then show ?thesis
    using assms plan
    by (simp add: compile_workflow_def res_ensure_def ok_or_def bt_contains_def node_template_id_def
        node_template_version_def json_get_def as_str_def as_u64_def example_node_def u32_max_def Let_def)
qed

theorem compiled_workflow_is_complete_witness:
  "\<exists>s w. compile_workflow example_decoders plain_files (\<lambda>_. []) (\<lambda>_. []) 0 agent_flow [s] = Inr w
    \<and> agent_spec w ''ask'' = Some s \<and> wf1_harness_authority w = Structured [lookup_operation]"
proof -
  from connected_template_compiles obtain s
    where s: "ws_node_id s = ''ask''" "ws_template_id s = ''reviewer''" "ws_template_version s = 1"
      "spec_operations s = [lookup_operation]" by blast
  from agent_flow_compiles [OF this] obtain w
    where w: "compile_workflow example_decoders plain_files (\<lambda>_. []) (\<lambda>_. []) 0 agent_flow [s] = Inr w" by blast
  note complete = compiled_workflow_is_complete [OF w plain_files_canonical]
  from complete obtain operations where harness: "wf1_harness_authority w = Structured operations"
    "distinct (map co_model_tool_name operations)" "set operations = {lookup_operation}"
    using s by auto
  from harness(2,3) have "operations = [lookup_operation]"
    by (metis distinct_map distinct.simps(2) empty_iff empty_set insertI1 list.exhaust list.set_intros(1) list.set_intros(2) list.simps(15) singletonD)
  moreover have "agent_spec w ''ask'' = Some s" using complete s(1) by simp
  ultimately show ?thesis using harness(1) w by blast
qed

end
