(* ===== verification/Flow_Case.thy ===== *)
theory Flow_Case
  imports Workflow_Compile Flow_Store "HOL-Library.Multiset"
begin

text \<open>
  Cases of a flow: the events that start its runs (\<open>FlowCaseV1\<close> of \<open>workflow_automation.rs\<close>, the tables
  \<open>flow_cases\<close>, \<open>flows\<close> and \<open>flow_runs\<close> in \<open>store/workflow_automation_repository.rs\<close> and \<open>store.rs\<close>, and
  \<open>flow_cases_service.rs\<close> of the server).

  The handlers are given twice: as one function on the store, which is what a client sees when nobody
  interferes, and as the steps between their accesses to the store (\<open>case_step\<close>), which interleave with
  those of other handlers and end when the server stops.  Arguments stand for the serialisation of the
  input, the check of the thread of the flow (\<open>ce_thread\<close>) and the construction of the runtime context
  (\<open>ce_context\<close>), which may refuse a run.
\<close>

section \<open>Cases\<close>

definition validate_bounded_text :: "string \<Rightarrow> string \<Rightarrow> nat \<Rightarrow> trigger_error + unit" where
  "validate_bounded_text v name limit =
     res_ensure (trim v \<noteq> []) (LabelEmpty name)
       (res_ensure (char_count v \<le> limit) (LabelTooLong name) (Inr ()))"

datatype flow_case_status = CaseAccepted | CaseStarted | CaseFailed | CaseSuperseded

fun flow_case_status_str :: "flow_case_status \<Rightarrow> string" where
  "flow_case_status_str CaseAccepted = ''accepted''"
| "flow_case_status_str CaseStarted = ''started''"
| "flow_case_status_str CaseFailed = ''failed''"
| "flow_case_status_str CaseSuperseded = ''superseded''"

record flow_case =
  fc_schema_version :: nat
  fc_id :: uuid
  fc_flow_id :: string
  fc_trigger_id :: uuid
  fc_idempotency_key :: string
  fc_flow_revision_id :: uuid
  fc_flow_revision :: flow_revision_v1
  fc_flow_run_id :: "uuid option"
  fc_status :: flow_case_status
  fc_input_hash :: string
  fc_input :: json
  fc_error :: "string option"
  fc_superseded_by :: "uuid option"
  fc_status_note :: "string option"
  fc_created_at :: timestamp
  fc_updated_at :: timestamp

record case_env =
  ce_env :: runtime_env
  ce_to_vec :: "json \<Rightarrow> string"
  ce_thread :: "uuid \<Rightarrow> bool"
  ce_context :: "flow_run \<Rightarrow> string option"

definition automation_schema_version :: nat where
  "automation_schema_version = 1"

definition accepted_case ::
    "case_env \<Rightarrow> active_flow \<Rightarrow> string \<Rightarrow> json \<Rightarrow> trigger_error + flow_case" where
  "accepted_case ce flow key0 v =
     (let key = trim key0; env = ce_env ce; revision = af_active_revision flow in
      res_bind (validate_bounded_text key ''idempotencyKey'' 256) (\<lambda>_.
      Inr \<lparr>fc_schema_version = automation_schema_version, fc_id = env_uuid_v5 env (af_id flow) key,
           fc_flow_id = af_flow_id flow,
           fc_trigger_id = (case trigger_id (rev_trigger revision) of
              Some i \<Rightarrow> i
            | None \<Rightarrow> env_uuid_v5 env (af_id flow) ''manual-trigger''),
           fc_idempotency_key = key, fc_flow_revision_id = rev_id revision,
           fc_flow_revision = revision, fc_flow_run_id = None, fc_status = CaseAccepted,
           fc_input_hash = content_fingerprint (ce_to_vec ce v), fc_input = v, fc_error = None,
           fc_superseded_by = None, fc_status_note = None, fc_created_at = env_now env,
           fc_updated_at = env_now env\<rparr>))"

datatype case_error =
    FlowIsPaused
  | FlowSessionNotFound
  | DifferentInput
  | InvalidCaseText trigger_error
  | CaseStoreError string
  | CaseNotFound
  | CaseNotPending
  | ActiveFlowNotFound
  | CaseRunNotFound
  | RunRefused flow_error
  | ContextRefused string
  | ReplacementNotFound
  | ReplacementNotPending
  | OnlyPendingIsSuperseded
  | CaseReplacesItself

definition supersede ::
    "timestamp \<Rightarrow> uuid option \<Rightarrow> string \<Rightarrow> flow_case \<Rightarrow> case_error + flow_case" where
  "supersede now replacement note0 c =
     res_ensure (fc_status c = CaseAccepted \<and> fc_flow_run_id c = None) OnlyPendingIsSuperseded
    (res_ensure (case replacement of Some i \<Rightarrow> i \<noteq> fc_id c | None \<Rightarrow> True) CaseReplacesItself
    (let n = trim note0 in
     res_bind (map_err InvalidCaseText (validate_bounded_text n ''statusNote'' 512)) (\<lambda>_.
     Inr (c\<lparr>fc_status := CaseSuperseded, fc_superseded_by := replacement, fc_status_note := Some n,
            fc_updated_at := now\<rparr>))))"

section \<open>Tables\<close>

record case_store =
  cs_flows :: "(string, active_flow) btree"
  cs_cases :: "(uuid, flow_case) btree"
  cs_runs :: "(uuid, flow_run) btree"

definition get_flow_case :: "string \<Rightarrow> string \<Rightarrow> case_store \<Rightarrow> flow_case option" where
  "get_flow_case flow_id key st =
     find (\<lambda>c. fc_flow_id c = flow_id \<and> fc_idempotency_key c = key) (map snd (cs_cases st))"

definition get_flow_case_by_id :: "uuid \<Rightarrow> case_store \<Rightarrow> flow_case option" where
  "get_flow_case_by_id i st = bt_get (cs_cases st) i"

definition run_reference_ok :: "case_store \<Rightarrow> flow_case \<Rightarrow> bool" where
  \<comment> \<open>the foreign key of \<open>flow_run_id\<close>\<close>
  "run_reference_ok st c \<longleftrightarrow>
     (case fc_flow_run_id c of Some i \<Rightarrow> bt_contains (cs_runs st) i | None \<Rightarrow> True)"

definition insert_flow_case :: "flow_case \<Rightarrow> case_store \<Rightarrow> case_error + case_store" where
  "insert_flow_case c st =
     (if bt_contains (cs_cases st) (fc_id c) then
        Inl (CaseStoreError ''UNIQUE constraint failed: flow_cases.id'')
      else if get_flow_case (fc_flow_id c) (fc_idempotency_key c) st \<noteq> None then
        Inl (CaseStoreError ''UNIQUE constraint failed: flow_cases.flow_id, flow_cases.idempotency_key'')
      else if \<not> bt_contains (cs_flows st) (fc_flow_id c) \<or> \<not> run_reference_ok st c then
        Inl (CaseStoreError ''FOREIGN KEY constraint failed'')
      else Inr (st\<lparr>cs_cases := bt_insert (fc_id c) c (cs_cases st)\<rparr>))"

definition update_flow_case :: "flow_case \<Rightarrow> case_store \<Rightarrow> case_error + case_store" where
  "update_flow_case c st =
     (if \<not> bt_contains (cs_cases st) (fc_id c) then Inl (CaseStoreError ''Flow case not found'')
      else if \<not> run_reference_ok st c then Inl (CaseStoreError ''FOREIGN KEY constraint failed'')
      else Inr (st\<lparr>cs_cases := bt_insert (fc_id c) c (cs_cases st)\<rparr>))"

definition insert_flow_run :: "flow_run \<Rightarrow> case_store \<Rightarrow> case_error + case_store" where
  "insert_flow_run r st =
     (if bt_contains (cs_runs st) (fr_id r) then
        Inl (CaseStoreError ''UNIQUE constraint failed: flow_runs.id'')
      else Inr (st\<lparr>cs_runs := bt_insert (fr_id r) r (cs_runs st)\<rparr>))"

definition get_active_flow :: "string \<Rightarrow> case_store \<Rightarrow> active_flow option" where
  "get_active_flow flow_id st = bt_get (cs_flows st) flow_id"

section \<open>Handlers\<close>

record case_result =
  cr_case :: flow_case
  cr_run :: "flow_run option"
  cr_reused :: bool

definition fail_case :: "timestamp \<Rightarrow> string \<Rightarrow> flow_case \<Rightarrow> flow_case" where
  "fail_case now message c = c\<lparr>fc_status := CaseFailed, fc_error := Some message, fc_updated_at := now\<rparr>"

definition case_run_id :: "runtime_env \<Rightarrow> flow_case \<Rightarrow> uuid" where
  "case_run_id env c = env_uuid_v5 env (fc_id c) ''flow-run''"

definition prepare_case_run ::
    "case_env \<Rightarrow> uuid \<Rightarrow> flow_case \<Rightarrow> case_error \<times> flow_case option + flow_run" where
  \<comment> \<open>up to the insertion of the run; an error comes with the failed case, if that is to be stored\<close>
  "prepare_case_run ce thread_id c =
     (let env = ce_env ce in
      res_ensure (ce_thread ce thread_id) (FlowSessionNotFound, None)
     (case new_from_revision env thread_id (run_revision (fc_flow_revision c)) (fc_input c)
             (rev_trigger (fc_flow_revision c)) of
        Inl e \<Rightarrow> Inl (RunRefused e, Some (fail_case (env_now env) (flow_error_str e) c))
      | Inr r0 \<Rightarrow>
          (let r = r0\<lparr>fr_id := case_run_id env c\<rparr> in
           case ce_context ce r of
             Some message \<Rightarrow> Inl (ContextRefused message, Some (fail_case (env_now env) message c))
           | None \<Rightarrow> Inr r)))"

definition mark_started :: "timestamp \<Rightarrow> uuid \<Rightarrow> flow_case \<Rightarrow> flow_case" where
  "mark_started now run_id c =
     c\<lparr>fc_flow_run_id := Some run_id, fc_status := CaseStarted, fc_updated_at := now\<rparr>"

definition update_or_keep :: "flow_case \<Rightarrow> case_store \<Rightarrow> case_store" where
  \<comment> \<open>\<open>let _ = store.update_flow_case(..)\<close>\<close>
  "update_or_keep c st = (case update_flow_case c st of Inl _ \<Rightarrow> st | Inr st' \<Rightarrow> st')"

definition reuse_case_result :: "flow_case \<Rightarrow> case_store \<Rightarrow> case_error + case_result" where
  "reuse_case_result c st =
     (case fc_flow_run_id c of
        Some i \<Rightarrow>
          res_bind (ok_or (bt_get (cs_runs st) i) CaseRunNotFound)
            (\<lambda>r. Inr \<lparr>cr_case = c, cr_run = Some r, cr_reused = True\<rparr>)
      | None \<Rightarrow> Inr \<lparr>cr_case = c, cr_run = None, cr_reused = True\<rparr>)"

text \<open>A handler returns its result, the store and the runs it spawned.\<close>

type_synonym case_outcome = "(case_error + case_result) \<times> case_store \<times> uuid list"

definition obtain_run :: "flow_run \<Rightarrow> case_store \<Rightarrow> case_error + (flow_run \<times> bool) \<times> case_store" where
  \<comment> \<open>the run and whether this caller is to spawn it\<close>
  "obtain_run r st =
     (case insert_flow_run r st of
        Inr st' \<Rightarrow> Inr ((r, True), st')
      | Inl e \<Rightarrow>
          (case bt_get (cs_runs st) (fr_id r) of
             Some existing \<Rightarrow> Inr ((existing, False), st)
           | None \<Rightarrow> Inl e))"

definition case_error_str :: "case_error \<Rightarrow> string" where
  "case_error_str e = (case e of CaseStoreError m \<Rightarrow> m | _ \<Rightarrow> [])"

definition start_accepted_case ::
    "case_env \<Rightarrow> active_flow \<Rightarrow> flow_case \<Rightarrow> bool \<Rightarrow> case_store \<Rightarrow> case_outcome" where
  "start_accepted_case ce flow c reused st =
     (if fc_status c \<noteq> CaseAccepted then (reuse_case_result c st, st, [])
      else
        case prepare_case_run ce (af_thread_id flow) c of
          Inl (e, None) \<Rightarrow> (Inl e, st, [])
        | Inl (e, Some c') \<Rightarrow> (Inl e, update_or_keep c' st, [])
        | Inr r \<Rightarrow>
            (case obtain_run r st of
               Inl e \<Rightarrow>
                 (Inl e, update_or_keep (fail_case (env_now (ce_env ce)) (case_error_str e) c) st, [])
             | Inr ((r', should_spawn), st1) \<Rightarrow>
                 (let c' = mark_started (env_now (ce_env ce)) (fr_id r') c in
                  case update_flow_case c' st1 of
                    Inl e \<Rightarrow> (Inl e, st1, [])
                  | Inr st2 \<Rightarrow>
                      (Inr \<lparr>cr_case = c', cr_run = Some r', cr_reused = reused\<rparr>, st2,
                       if should_spawn then [fr_id r'] else []))))"

definition resume_or_reuse_case ::
    "case_env \<Rightarrow> active_flow \<Rightarrow> flow_case \<Rightarrow> case_store \<Rightarrow> case_outcome" where
  "resume_or_reuse_case ce flow c st =
     (if fc_status c = CaseAccepted \<and> rev_ingress_policy (fc_flow_revision c) = Immediate
      then start_accepted_case ce flow c True st
      else (reuse_case_result c st, st, []))"

definition accept_flow_case ::
    "case_env \<Rightarrow> active_flow \<Rightarrow> string \<Rightarrow> json \<Rightarrow> case_store \<Rightarrow> case_outcome" where
  "accept_flow_case ce flow key v st =
     (if af_status flow \<noteq> FlowActive then (Inl FlowIsPaused, st, [])
      else if \<not> ce_thread ce (af_thread_id flow) then (Inl FlowSessionNotFound, st, [])
      else
        case get_flow_case (af_flow_id flow) key st of
          Some existing \<Rightarrow>
            if fc_input_hash existing \<noteq> content_fingerprint (ce_to_vec ce v)
            then (Inl DifferentInput, st, [])
            else resume_or_reuse_case ce flow existing st
        | None \<Rightarrow>
            (case accepted_case ce flow key v of
               Inl e \<Rightarrow> (Inl (InvalidCaseText e), st, [])
             | Inr c \<Rightarrow>
                 (case insert_flow_case c st of
                    Inl e \<Rightarrow>
                      (case get_flow_case (af_flow_id flow) key st of
                         Some existing \<Rightarrow>
                           if fc_input_hash existing \<noteq> fc_input_hash c then (Inl DifferentInput, st, [])
                           else resume_or_reuse_case ce flow existing st
                       | None \<Rightarrow> (Inl e, st, []))
                  | Inr st1 \<Rightarrow>
                      if rev_ingress_policy (fc_flow_revision c) = RequireReview
                      then (Inr \<lparr>cr_case = c, cr_run = None, cr_reused = False\<rparr>, st1, [])
                      else start_accepted_case ce flow c False st1)))"

definition start_pending_flow_case :: "case_env \<Rightarrow> uuid \<Rightarrow> case_store \<Rightarrow> case_outcome" where
  "start_pending_flow_case ce case_id st =
     (case get_flow_case_by_id case_id st of
        None \<Rightarrow> (Inl CaseNotFound, st, [])
      | Some c \<Rightarrow>
          if fc_status c \<noteq> CaseAccepted \<or> fc_flow_run_id c \<noteq> None then (Inl CaseNotPending, st, [])
          else
            (case get_active_flow (fc_flow_id c) st of
               None \<Rightarrow> (Inl ActiveFlowNotFound, st, [])
             | Some flow \<Rightarrow>
                 if af_status flow \<noteq> FlowActive then (Inl FlowIsPaused, st, [])
                 else start_accepted_case ce flow c False st))"

definition check_replacement :: "uuid option \<Rightarrow> case_store \<Rightarrow> case_error + unit" where
  "check_replacement replacement st =
     (case replacement of
        None \<Rightarrow> Inr ()
      | Some i \<Rightarrow>
          res_bind (ok_or (get_flow_case_by_id i st) ReplacementNotFound) (\<lambda>r.
          res_ensure (\<not> (fc_status r \<noteq> CaseAccepted \<or> fc_flow_run_id r \<noteq> None)) ReplacementNotPending
            (Inr ())))"

definition supersede_pending_flow_case ::
    "case_env \<Rightarrow> uuid \<Rightarrow> uuid option \<Rightarrow> string \<Rightarrow> case_store \<Rightarrow> case_error + flow_case \<times> case_store" where
  "supersede_pending_flow_case ce case_id replacement note0 st =
     res_bind (ok_or (get_flow_case_by_id case_id st) CaseNotFound) (\<lambda>c.
     res_bind (check_replacement replacement st) (\<lambda>_.
     res_bind (supersede (env_now (ce_env ce)) replacement note0 c) (\<lambda>c'.
     res_bind (update_flow_case c' st) (\<lambda>st'. Inr (c', st')))))"

definition update_active_flow :: "active_flow \<Rightarrow> nat \<Rightarrow> case_store \<Rightarrow> case_error + case_store" where
  "update_active_flow flow expected_revision st =
     (case bt_get (cs_flows st) (af_flow_id flow) of
        Some current \<Rightarrow>
          if af_revision current = expected_revision
          then Inr (st\<lparr>cs_flows := bt_insert (af_flow_id flow) flow (cs_flows st)\<rparr>)
          else Inl (CaseStoreError (''Flow revision conflict; current revision is ''
                                    @ show_nat (u32_try (af_revision current))))
      | None \<Rightarrow> Inl ActiveFlowNotFound)"

definition schedule_flow ::
    "case_env \<Rightarrow> (timestamp \<Rightarrow> string) \<Rightarrow> active_flow \<Rightarrow> case_store \<Rightarrow> case_store \<times> uuid list" where
  \<comment> \<open>the body of the loop of \<open>process_schedule_tick\<close>; \<open>rfc3339\<close> prints a time\<close>
  "schedule_flow ce rfc3339 flow st =
     (let now = env_now (ce_env ce); revision = af_active_revision flow in
      case schedule_due_key_and_advance rfc3339 now (rev_trigger revision) of
        (None, _) \<Rightarrow> (st, [])
      | (Some key, trigger) \<Rightarrow>
          (let flow' = flow_touch now
                 (flow\<lparr>af_active_revision := revision\<lparr>rev_trigger := trigger\<rparr>\<rparr>) in
           case update_active_flow flow' (af_revision flow) st of
             Inl _ \<Rightarrow> (st, [])
           | Inr st1 \<Rightarrow>
               (let v = JObject [(''scheduledFor'', JString (drop (length ''schedule:'') key)),
                                 (''trigger'', JString ''schedule'')];
                    (_, st2, spawned) = accept_flow_case ce flow' key v st1
                in (st2, spawned))))"

section \<open>Interleaving\<close>

text \<open>
  What the handlers have between their accesses to the store.  \<open>sy_holding\<close>: copies of accepted cases a
  handler is about to start; \<open>sy_starting\<close>: with the run it is about to insert; \<open>sy_obtained\<close>: with the
  run it found or inserted, and whether it is to spawn it; \<open>sy_spawning\<close>: runs about to be spawned;
  \<open>sy_writing\<close>: changed copies about to be written.  \<open>sy_spawned\<close> records the spawned runs.
\<close>

record case_system =
  sy_store :: case_store
  sy_holding :: "flow_case list"
  sy_starting :: "(flow_case \<times> flow_run) list"
  sy_obtained :: "(flow_case \<times> flow_run \<times> bool) list"
  sy_spawning :: "uuid list"
  sy_writing :: "flow_case list"
  sy_spawned :: "uuid list"

definition same_run :: "flow_run \<Rightarrow> flow_run \<Rightarrow> bool" where
  \<comment> \<open>what no writer of a run changes\<close>
  "same_run r r' \<longleftrightarrow> fr_id r' = fr_id r \<and> fr_input r' = fr_input r \<and> fr_flow_id r' = fr_flow_id r"

inductive case_step :: "case_env \<Rightarrow> case_system \<Rightarrow> case_system \<Rightarrow> bool" for ce where
  accept: "accepted_case (ce\<lparr>ce_env := (ce_env ce)\<lparr>env_now := now\<rparr>\<rparr>) flow key v = Inr c \<Longrightarrow> insert_flow_case c (sy_store s) = Inr st
    \<Longrightarrow> case_step ce s (s\<lparr>sy_store := st, sy_holding := c # sy_holding s\<rparr>)"
| hold: "bt_get (cs_cases (sy_store s)) k = Some c \<Longrightarrow> fc_status c = CaseAccepted
    \<Longrightarrow> case_step ce s (s\<lparr>sy_holding := c # sy_holding s\<rparr>)"
| prepare: "c \<in> set (sy_holding s)
    \<Longrightarrow> prepare_case_run (ce\<lparr>ce_env := (ce_env ce)\<lparr>env_now := now, env_uuid := new_id\<rparr>\<rparr>) thread_id c = Inr r
    \<Longrightarrow> case_step ce s (s\<lparr>sy_holding := remove1 c (sy_holding s), sy_starting := (c, r) # sy_starting s\<rparr>)"
| refuse: "c \<in> set (sy_holding s)
    \<Longrightarrow> prepare_case_run (ce\<lparr>ce_env := (ce_env ce)\<lparr>env_now := now, env_uuid := new_id\<rparr>\<rparr>) thread_id c = Inl (e, Some c')
    \<Longrightarrow> case_step ce s (s\<lparr>sy_holding := remove1 c (sy_holding s), sy_writing := c' # sy_writing s\<rparr>)"
| obtain_run: "(c, r) \<in> set (sy_starting s) \<Longrightarrow> obtain_run r (sy_store s) = Inr ((r', b), st)
    \<Longrightarrow> case_step ce s (s\<lparr>sy_store := st, sy_starting := remove1 (c, r) (sy_starting s),
          sy_obtained := (c, r', b) # sy_obtained s\<rparr>)"
| started: "(c, r, b) \<in> set (sy_obtained s) \<Longrightarrow> update_flow_case (mark_started now (fr_id r) c) (sy_store s) = Inr st
    \<Longrightarrow> case_step ce s (s\<lparr>sy_store := st, sy_obtained := remove1 (c, r, b) (sy_obtained s),
          sy_spawning := (if b then [fr_id r] else []) @ sy_spawning s\<rparr>)"
| spawn: "i \<in> set (sy_spawning s)
    \<Longrightarrow> case_step ce s (s\<lparr>sy_spawning := remove1 i (sy_spawning s), sy_spawned := i # sy_spawned s\<rparr>)"
| supersede_read: "bt_get (cs_cases (sy_store s)) k = Some c \<Longrightarrow> supersede now replacement n c = Inr c'
    \<Longrightarrow> case_step ce s (s\<lparr>sy_writing := c' # sy_writing s\<rparr>)"
| write_case: "c \<in> set (sy_writing s) \<Longrightarrow> update_flow_case c (sy_store s) = Inr st
    \<Longrightarrow> case_step ce s (s\<lparr>sy_store := st, sy_writing := remove1 c (sy_writing s)\<rparr>)"
| drop_write: "case_step ce s (s\<lparr>sy_writing := remove1 c (sy_writing s)\<rparr>)"
| flows: "case_step ce s (s\<lparr>sy_store := (sy_store s)\<lparr>cs_flows := rows\<rparr>\<rparr>)"
| run_write: "bt_get (cs_runs (sy_store s)) i = Some r \<Longrightarrow> same_run r r'
    \<Longrightarrow> case_step ce s (s\<lparr>sy_store := (sy_store s)\<lparr>cs_runs := bt_insert i r' (cs_runs (sy_store s))\<rparr>\<rparr>)"
| restart: "case_step ce s (s\<lparr>sy_holding := [], sy_starting := [], sy_obtained := [], sy_spawning := [],
      sy_writing := []\<rparr>)"

abbreviation case_steps :: "case_env \<Rightarrow> case_system \<Rightarrow> case_system \<Rightarrow> bool" where
  "case_steps ce \<equiv> (case_step ce)\<^sup>*\<^sup>*"

definition initial_system :: "(string, active_flow) btree \<Rightarrow> case_system" where
  "initial_system rows =
     \<lparr>sy_store = \<lparr>cs_flows = rows, cs_cases = [], cs_runs = []\<rparr>, sy_holding = [], sy_starting = [],
      sy_obtained = [], sy_spawning = [], sy_writing = [], sy_spawned = []\<rparr>"

section \<open>The invariant\<close>

definition same_case :: "flow_case \<Rightarrow> flow_case \<Rightarrow> bool" where
  "same_case c c' \<longleftrightarrow>
     fc_id c' = fc_id c \<and> fc_flow_id c' = fc_flow_id c \<and> fc_idempotency_key c' = fc_idempotency_key c
     \<and> fc_input c' = fc_input c \<and> fc_input_hash c' = fc_input_hash c
     \<and> fc_flow_revision c' = fc_flow_revision c"

definition stored_case :: "case_store \<Rightarrow> flow_case \<Rightarrow> bool" where
  \<comment> \<open>a copy of the case that is stored under its identifier\<close>
  "stored_case st c \<longleftrightarrow> (\<exists>c0. bt_get (cs_cases st) (fc_id c) = Some c0 \<and> same_case c0 c)"

definition run_of_case :: "case_env \<Rightarrow> flow_case \<Rightarrow> flow_run \<Rightarrow> bool" where
  "run_of_case ce c r \<longleftrightarrow>
     fr_id r = case_run_id (ce_env ce) c \<and> fr_input r = fc_input c
     \<and> fr_flow_id r = wf1_flow_id (rev_compiled_workflow (fc_flow_revision c))"

definition run_stored_for :: "case_env \<Rightarrow> case_store \<Rightarrow> uuid \<Rightarrow> bool" where
  \<comment> \<open>the stored run is that of a stored case\<close>
  "run_stored_for ce st i \<longleftrightarrow>
     (\<exists>c r. bt_get (cs_cases st) (fc_id c) = Some c \<and> bt_get (cs_runs st) i = Some r
        \<and> run_of_case ce c r \<and> fr_id r = i)"

definition cases_ok :: "case_store \<Rightarrow> bool" where
  "cases_ok st \<longleftrightarrow>
     bt_inv (cs_cases st)
     \<and> (\<forall>k c. bt_get (cs_cases st) k = Some c \<longrightarrow> fc_id c = k)
     \<and> (\<forall>k c k' c'. bt_get (cs_cases st) k = Some c \<longrightarrow> bt_get (cs_cases st) k' = Some c'
          \<longrightarrow> fc_flow_id c = fc_flow_id c' \<longrightarrow> fc_idempotency_key c = fc_idempotency_key c' \<longrightarrow> k = k')"

definition to_spawn :: "case_system \<Rightarrow> uuid list" where
  \<comment> \<open>the runs that are to be spawned or were spawned\<close>
  "to_spawn s =
     map (\<lambda>(c, r, b). fr_id r) (filter (\<lambda>(c, r, b). b) (sy_obtained s)) @ sy_spawning s @ sy_spawned s"

definition case_inv :: "case_env \<Rightarrow> case_system \<Rightarrow> bool" where
  "case_inv ce s \<longleftrightarrow>
     cases_ok (sy_store s)
     \<and> (\<forall>c \<in> set (sy_holding s) \<union> set (sy_writing s). stored_case (sy_store s) c)
     \<and> (\<forall>(c, r) \<in> set (sy_starting s). stored_case (sy_store s) c \<and> run_of_case ce c r)
     \<and> (\<forall>(c, r, b) \<in> set (sy_obtained s). stored_case (sy_store s) c)
     \<and> distinct (to_spawn s)
     \<and> (\<forall>i \<in> set (to_spawn s). run_stored_for ce (sy_store s) i)"

lemma same_case_refl [simp]: "same_case c c"
  by (simp add: same_case_def)

lemma same_case_trans: "same_case a b \<Longrightarrow> same_case b c \<Longrightarrow> same_case a c"
  by (simp add: same_case_def)

lemma same_case_updates [simp]:
  "same_case c (mark_started now i c)" "same_case c (fail_case now m c)"
  by (simp_all add: same_case_def mark_started_def fail_case_def)

lemma supersede_same: "supersede now replacement n c = Inr c' \<Longrightarrow> same_case c c'"
  by (auto simp: supersede_def same_case_def res_Inr_iffs Let_def)

lemma stored_case_same: "stored_case st c \<Longrightarrow> same_case c c' \<Longrightarrow> stored_case st c'"
  by (auto simp: stored_case_def same_case_def)

lemma stored_caseI: "bt_get (cs_cases st) k = Some c \<Longrightarrow> cases_ok st \<Longrightarrow> stored_case st c"
  by (auto simp: stored_case_def cases_ok_def intro!: exI [of _ c])

lemma prepare_case_run_Inr:
  "prepare_case_run (ce\<lparr>ce_env := (ce_env ce)\<lparr>env_now := now, env_uuid := new_id\<rparr>\<rparr>) thread_id c = Inr r
    \<Longrightarrow> run_of_case ce c r"
  by (auto simp: prepare_case_run_def res_Inr_iffs Let_def run_of_case_def new_from_revision_def
      run_revision_def run_workflow_def case_run_id_def split: sum.splits option.splits)

lemma prepare_case_run_Inl:
  "prepare_case_run ce thread_id c = Inl (e, Some c') \<Longrightarrow> same_case c c'"
  by (auto simp: prepare_case_run_def Let_def res_ensure_def split: sum.splits option.splits if_splits)

text \<open>An update of a case with a copy of it.\<close>

lemma update_flow_case_Inr:
  "update_flow_case c st = Inr st' \<longleftrightarrow>
     bt_contains (cs_cases st) (fc_id c) \<and> run_reference_ok st c
     \<and> st' = st\<lparr>cs_cases := bt_insert (fc_id c) c (cs_cases st)\<rparr>"
  by (auto simp: update_flow_case_def)

lemma run_of_case_same: "run_of_case ce c r \<Longrightarrow> same_case c c' \<Longrightarrow> run_of_case ce c' r"
  by (simp add: run_of_case_def same_case_def case_run_id_def)

lemma update_keeps:
  assumes "update_flow_case c st = Inr st'" "stored_case st c" "cases_ok st"
  shows "cases_ok st'" "\<forall>x. stored_case st x \<longrightarrow> stored_case st' x"
    "\<forall>i. run_stored_for ce st i \<longrightarrow> run_stored_for ce st' i"
proof -
  from assms(2) obtain c0 where c0: "bt_get (cs_cases st) (fc_id c) = Some c0" "same_case c0 c"
    by (auto simp: stored_case_def)
  have st': "st' = st\<lparr>cs_cases := bt_insert (fc_id c) c (cs_cases st)\<rparr>"
    using assms(1) by (simp add: update_flow_case_Inr)
  have get: "bt_get (cs_cases st') k = (if k = fc_id c then Some c else bt_get (cs_cases st) k)" for k
    by (simp add: st' bt_get_insert)
  have old: "\<exists>x0. bt_get (cs_cases st) k = Some x0 \<and> same_case x0 x"
    if "bt_get (cs_cases st') k = Some x" for k x
    using that c0 by (auto simp: get split: if_splits)
  show "cases_ok st'"
    unfolding cases_ok_def
  proof (intro conjI allI impI)
    show "bt_inv (cs_cases st')" using assms(3) by (simp add: st' cases_ok_def bt_inv_insert)
    show "fc_id x = k" if "bt_get (cs_cases st') k = Some x" for k x
      using old [OF that] assms(3) by (auto simp: cases_ok_def same_case_def)
    show "k = k'" if "bt_get (cs_cases st') k = Some x" "bt_get (cs_cases st') k' = Some x'"
      "fc_flow_id x = fc_flow_id x'" "fc_idempotency_key x = fc_idempotency_key x'" for k x k' x'
    proof -
      from old [OF that(1)] old [OF that(2)] obtain x0 x0' where
        "bt_get (cs_cases st) k = Some x0" "bt_get (cs_cases st) k' = Some x0'"
        "same_case x0 x" "same_case x0' x'" by blast
      with that(3,4) assms(3) show ?thesis unfolding cases_ok_def same_case_def by metis
    qed
  qed
  show "\<forall>x. stored_case st x \<longrightarrow> stored_case st' x"
    using c0 by (auto simp: stored_case_def get same_case_def)
  show "\<forall>i. run_stored_for ce st i \<longrightarrow> run_stored_for ce st' i"
  proof (intro allI impI)
    fix i assume "run_stored_for ce st i"
    then obtain x r where x: "bt_get (cs_cases st) (fc_id x) = Some x" "bt_get (cs_runs st) i = Some r"
      "run_of_case ce x r" "fr_id r = i" unfolding run_stored_for_def by blast
    show "run_stored_for ce st' i"
    proof (cases "fc_id x = fc_id c")
      case True
      with x c0 have "run_of_case ce c r" by (auto intro: run_of_case_same)
      then show ?thesis using x by (auto simp: run_stored_for_def st' bt_get_insert intro!: exI [of _ c])
    next
      case False
      then show ?thesis using x by (auto simp: run_stored_for_def st' bt_get_insert intro!: exI [of _ x])
    qed
  qed
qed

lemma insert_keeps:
  assumes "insert_flow_case c st = Inr st'" "cases_ok st"
  shows "cases_ok st'" "stored_case st' c" "\<forall>x. stored_case st x \<longrightarrow> stored_case st' x"
    "\<forall>i. run_stored_for ce st i \<longrightarrow> run_stored_for ce st' i"
proof -
  have st': "st' = st\<lparr>cs_cases := bt_insert (fc_id c) c (cs_cases st)\<rparr>"
    and fresh: "bt_get (cs_cases st) (fc_id c) = None"
    and unused: "get_flow_case (fc_flow_id c) (fc_idempotency_key c) st = None"
    using assms(1) by (auto simp: insert_flow_case_def bt_contains_get split: if_splits)
  have get: "bt_get (cs_cases st') k = (if k = fc_id c then Some c else bt_get (cs_cases st) k)" for k
    by (simp add: st' bt_get_insert)
  have other: "\<not> (fc_flow_id x = fc_flow_id c \<and> fc_idempotency_key x = fc_idempotency_key c)"
    if "bt_get (cs_cases st) k = Some x" for k x
  proof -
    have "x \<in> set (map snd (cs_cases st))" using bt_get_in_set [OF that] by force
    with unused show ?thesis by (auto simp: get_flow_case_def find_None_iff)
  qed
  show "cases_ok st'"
    unfolding cases_ok_def
  proof (intro conjI allI impI)
    show "bt_inv (cs_cases st')" using assms(2) by (simp add: st' cases_ok_def bt_inv_insert)
    show "fc_id x = k" if "bt_get (cs_cases st') k = Some x" for k x
      using that assms(2) by (auto simp: get cases_ok_def split: if_splits)
    show "k = k'" if "bt_get (cs_cases st') k = Some x" "bt_get (cs_cases st') k' = Some x'"
      "fc_flow_id x = fc_flow_id x'" "fc_idempotency_key x = fc_idempotency_key x'" for k x k' x'
      using that other assms(2) unfolding get cases_ok_def by (metis option.inject)
  qed
  show "stored_case st' c" by (simp add: stored_case_def get)
  show "\<forall>x. stored_case st x \<longrightarrow> stored_case st' x"
    using fresh by (auto simp: stored_case_def get)
  show "\<forall>i. run_stored_for ce st i \<longrightarrow> run_stored_for ce st' i"
  proof (intro allI impI)
    fix i assume "run_stored_for ce st i"
    then obtain x r where x: "bt_get (cs_cases st) (fc_id x) = Some x" "bt_get (cs_runs st) i = Some r"
      "run_of_case ce x r" "fr_id r = i" unfolding run_stored_for_def by blast
    with fresh show "run_stored_for ce st' i"
      by (auto simp: run_stored_for_def st' bt_get_insert intro!: exI [of _ x])
  qed
qed

lemma case_invD:
  assumes "case_inv ce s"
  shows "cases_ok (sy_store s)" "c \<in> set (sy_holding s) \<Longrightarrow> stored_case (sy_store s) c"
    "c \<in> set (sy_writing s) \<Longrightarrow> stored_case (sy_store s) c"
    "(c, r) \<in> set (sy_starting s) \<Longrightarrow> stored_case (sy_store s) c \<and> run_of_case ce c r"
    "(c, r, b) \<in> set (sy_obtained s) \<Longrightarrow> stored_case (sy_store s) c"
    "distinct (to_spawn s)" "i \<in> set (to_spawn s) \<Longrightarrow> run_stored_for ce (sy_store s) i"
  using assms unfolding case_inv_def by blast+

text \<open>A step that keeps what is stored and adds nothing that is to be spawned.\<close>

lemma case_inv_step:
  assumes inv: "case_inv ce s" and ok: "cases_ok (sy_store s')"
    and stored: "\<forall>x. stored_case (sy_store s) x \<longrightarrow> stored_case (sy_store s') x"
    and runs: "\<forall>i. run_stored_for ce (sy_store s) i \<longrightarrow> run_stored_for ce (sy_store s') i"
    and holding: "\<forall>c \<in> set (sy_holding s'). c \<in> set (sy_holding s) \<or> stored_case (sy_store s') c"
    and writing: "\<forall>c \<in> set (sy_writing s'). c \<in> set (sy_writing s) \<or> stored_case (sy_store s') c"
    and starting: "\<forall>(c, r) \<in> set (sy_starting s'). (c, r) \<in> set (sy_starting s) \<or> stored_case (sy_store s') c \<and> run_of_case ce c r"
    and obtained: "\<forall>(c, r, b) \<in> set (sy_obtained s'). (c, r, b) \<in> set (sy_obtained s) \<or> stored_case (sy_store s') c"
    and spawns: "distinct (to_spawn s')" "set (to_spawn s') \<subseteq> set (to_spawn s)"
  shows "case_inv ce s'"
  unfolding case_inv_def
proof (intro conjI)
  show "\<forall>c \<in> set (sy_holding s') \<union> set (sy_writing s'). stored_case (sy_store s') c"
    using holding writing stored case_invD(2,3) [OF inv] by blast
  show "\<forall>(c, r) \<in> set (sy_starting s'). stored_case (sy_store s') c \<and> run_of_case ce c r"
    using starting stored case_invD(4) [OF inv] by blast
  show "\<forall>(c, r, b) \<in> set (sy_obtained s'). stored_case (sy_store s') c"
    using obtained stored case_invD(5) [OF inv] by blast
  show "\<forall>i \<in> set (to_spawn s'). run_stored_for ce (sy_store s') i"
    using spawns(2) runs case_invD(7) [OF inv] by blast
qed (use ok spawns in auto)

lemma distinct_remove1_filter:
  assumes "distinct (map f (filter p xs) @ ys)"
  shows "distinct (map f (filter p (remove1 x xs)) @ ys)"
    "set (map f (filter p (remove1 x xs)) @ ys) \<subseteq> set (map f (filter p xs) @ ys)"
proof -
  have "filter p (remove1 x xs) = (if p x then remove1 x (filter p xs) else filter p xs)"
    by (induction xs) auto
  moreover have "distinct (map f (remove1 x zs))" if "distinct (map f zs)" for zs
    using that set_remove1_subset [of x zs] by (meson distinct_map distinct_remove1 inj_on_subset)
  ultimately show "distinct (map f (filter p (remove1 x xs)) @ ys)"
    using assms set_remove1_subset [of x "filter p xs"] by auto
  show "set (map f (filter p (remove1 x xs)) @ ys) \<subseteq> set (map f (filter p xs) @ ys)"
    using set_remove1_subset [of x xs] by auto
qed

lemma obtain_run_Inr:
  assumes "obtain_run r st = Inr ((r', b), st')"
  shows "b \<and> r' = r \<and> bt_get (cs_runs st) (fr_id r) = None
      \<and> st' = st\<lparr>cs_runs := bt_insert (fr_id r) r (cs_runs st)\<rparr>
    \<or> \<not> b \<and> st' = st \<and> bt_get (cs_runs st) (fr_id r) = Some r'"
  using assms by (auto simp: obtain_run_def insert_flow_run_def bt_contains_get split: if_splits option.splits)

lemma case_inv_obtain:
  assumes inv: "case_inv ce s" and held: "(c, r) \<in> set (sy_starting s)"
    and run: "obtain_run r (sy_store s) = Inr ((r', b), st)"
  shows "case_inv ce (s\<lparr>sy_store := st, sy_starting := remove1 (c, r) (sy_starting s),
      sy_obtained := (c, r', b) # sy_obtained s\<rparr>)" (is "case_inv ce ?s")
proof (cases b)
  case False
  then have st: "st = sy_store s" using obtain_run_Inr [OF run] by blast
  show ?thesis
  proof (rule case_inv_step [OF inv])
    show "distinct (to_spawn ?s)" "set (to_spawn ?s) \<subseteq> set (to_spawn s)"
      using case_invD(6) [OF inv] False by (simp_all add: to_spawn_def)
  qed (use st case_invD [OF inv] held set_remove1_subset [of "(c, r)" "sy_starting s"] in auto)
next
  case True
  then have st: "r' = r" "bt_get (cs_runs (sy_store s)) (fr_id r) = None"
    "st = (sy_store s)\<lparr>cs_runs := bt_insert (fr_id r) r (cs_runs (sy_store s))\<rparr>"
    using obtain_run_Inr [OF run] by blast+
  have new: "to_spawn ?s = fr_id r # to_spawn s" using True st(1) by (simp add: to_spawn_def)
  have fresh: "i \<noteq> fr_id r" if "run_stored_for ce (sy_store s) i" for i
    using that st(2) by (auto simp: run_stored_for_def)
  have kept: "run_stored_for ce st i" if "run_stored_for ce (sy_store s) i" for i
    using that fresh [OF that] unfolding run_stored_for_def st(3) by (simp add: bt_get_insert)
  have copies: "stored_case st x \<longleftrightarrow> stored_case (sy_store s) x" for x
    by (simp add: stored_case_def st(3))
  from case_invD(4) [OF inv held] obtain c0 where c0: "bt_get (cs_cases (sy_store s)) (fc_id c) = Some c0"
    "same_case c0 c" and rc: "run_of_case ce c r" by (auto simp: stored_case_def)
  have "run_of_case ce c0 r" using rc c0(2) by (auto simp: run_of_case_def same_case_def case_run_id_def)
  moreover have "bt_get (cs_cases st) (fc_id c0) = Some c0" using c0 by (simp add: st(3) same_case_def)
  ultimately have this_run: "run_stored_for ce st (fr_id r)"
    unfolding run_stored_for_def by (intro exI [of _ c0] exI [of _ r]) (simp add: st(3) bt_get_insert)
  show ?thesis
    unfolding case_inv_def
  proof (intro conjI)
    show "cases_ok (sy_store ?s)" using case_invD(1) [OF inv] by (simp add: cases_ok_def st(3))
    show "\<forall>x \<in> set (sy_holding ?s) \<union> set (sy_writing ?s). stored_case (sy_store ?s) x"
      using case_invD(2,3) [OF inv] by (auto simp: copies)
    show "\<forall>(x, y) \<in> set (sy_starting ?s). stored_case (sy_store ?s) x \<and> run_of_case ce x y"
      using case_invD(4) [OF inv] by (auto simp: copies dest: notin_set_remove1)
    show "\<forall>(x, y, z) \<in> set (sy_obtained ?s). stored_case (sy_store ?s) x"
      using case_invD(5) [OF inv] case_invD(4) [OF inv held] by (auto simp: copies)
    show "distinct (to_spawn ?s)" using case_invD(6,7) [OF inv] fresh by (auto simp: new)
    show "\<forall>i \<in> set (to_spawn ?s). run_stored_for ce (sy_store ?s) i"
      using case_invD(7) [OF inv] this_run kept by (auto simp: new)
  qed
qed


lemma case_inv_update:
  assumes inv: "case_inv ce s" and update: "update_flow_case c (sy_store s) = Inr st"
    and copy: "stored_case (sy_store s) c"
    and rest: "set (sy_holding s') \<subseteq> set (sy_holding s)" "set (sy_writing s') \<subseteq> set (sy_writing s)"
      "set (sy_starting s') \<subseteq> set (sy_starting s)" "set (sy_obtained s') \<subseteq> set (sy_obtained s)"
      "distinct (to_spawn s')" "set (to_spawn s') \<subseteq> set (to_spawn s)" "sy_store s' = st"
  shows "case_inv ce s'"
  using update_keeps [OF update copy case_invD(1) [OF inv]] rest
  by (intro case_inv_step [OF inv]) auto

lemma mset_map_remove1: "x \<in> set zs \<Longrightarrow> mset (map f zs) = add_mset (f x) (mset (map f (remove1 x zs)))"
  by (induction zs) auto

lemma case_inv_started:
  assumes inv: "case_inv ce s" and held: "(c, r, b) \<in> set (sy_obtained s)"
    and update: "update_flow_case (mark_started now (fr_id r) c) (sy_store s) = Inr st"
  shows "case_inv ce (s\<lparr>sy_store := st, sy_obtained := remove1 (c, r, b) (sy_obtained s),
          sy_spawning := (if b then [fr_id r] else []) @ sy_spawning s\<rparr>)" (is "case_inv ce ?s")
proof (rule case_inv_update [OF inv update])
  show "stored_case (sy_store s) (mark_started now (fr_id r) c)"
    using case_invD(5) [OF inv held] by (rule stored_case_same) simp
  let ?f = "\<lambda>(c :: flow_case, r, b :: bool). fr_id r" and ?p = "\<lambda>(c :: flow_case, r :: flow_run, b). b"
  have "mset (to_spawn ?s) = mset (to_spawn s)"
  proof (cases b)
    case True
    then have "(c, r, b) \<in> set (filter ?p (sy_obtained s))" using held by simp
    from mset_map_remove1 [OF this, of ?f] True show ?thesis
      by (simp add: to_spawn_def filter_remove1)
  next
    case False
    then have "filter ?p (remove1 (c, r, b) (sy_obtained s)) = filter ?p (sy_obtained s)"
      by (simp add: filter_remove1 remove1_idem)
    with False show ?thesis by (simp add: to_spawn_def)
  qed
  then show "distinct (to_spawn ?s)" "set (to_spawn ?s) \<subseteq> set (to_spawn s)"
    using case_invD(6) [OF inv] by (metis mset_eq_imp_distinct_iff, metis mset_eq_setD order_refl)
qed (simp_all add: set_remove1_subset)

lemma case_inv_spawn:
  assumes inv: "case_inv ce s" and held: "i \<in> set (sy_spawning s)"
  shows "case_inv ce (s\<lparr>sy_spawning := remove1 i (sy_spawning s), sy_spawned := i # sy_spawned s\<rparr>)" (is "case_inv ce ?s")
proof (rule case_inv_step [OF inv])
  have "mset (to_spawn ?s) = mset (to_spawn s)"
    using held by (simp add: to_spawn_def)
  then show "distinct (to_spawn ?s)" "set (to_spawn ?s) \<subseteq> set (to_spawn s)"
    using case_invD(6) [OF inv] by (metis mset_eq_imp_distinct_iff, metis mset_eq_setD order_refl)
qed (use case_invD(1) [OF inv] in auto)


lemma run_write_keeps:
  assumes "bt_get (cs_runs st) i = Some r" "same_run r r'"
    and "run_stored_for ce st k"
  shows "run_stored_for ce (st\<lparr>cs_runs := bt_insert i r' (cs_runs st)\<rparr>) k"
proof -
  from assms(3) obtain c x where x: "bt_get (cs_cases st) (fc_id c) = Some c" "bt_get (cs_runs st) k = Some x"
    "run_of_case ce c x" "fr_id x = k" unfolding run_stored_for_def by blast
  show ?thesis
  proof (cases "k = i")
    case True
    with x assms(1,2) have "run_of_case ce c r'" "fr_id r' = k" by (auto simp: run_of_case_def same_run_def)
    with x True show ?thesis by (auto simp: run_stored_for_def bt_get_insert intro!: exI [of _ c])
  next
    case False
    with x show ?thesis by (auto simp: run_stored_for_def bt_get_insert intro!: exI [of _ c])
  qed
qed

lemma case_step_inv:
  assumes "case_step ce s s'" "case_inv ce s"
  shows "case_inv ce s'"
  using assms
proof (induction rule: case_step.induct)
  case (accept now flow key v c s st)
  note keeps = insert_keeps [OF accept(2) case_invD(1) [OF accept(3)]]
  show ?case
    by (rule case_inv_step [OF accept(3)])
       (use keeps case_invD(6) [OF accept(3)] in \<open>auto simp: to_spawn_def\<close>)
next
  case (hold s k c)
  then show ?case
    using stored_caseI [OF hold(1) case_invD(1) [OF hold(3)]] case_invD(1,6) [OF hold(3)]
    by (intro case_inv_step [OF hold(3)]) (auto simp: to_spawn_def)
next
  case (prepare c s now new_id thread_id r)
  then show ?case
    using prepare_case_run_Inr [OF prepare(2)] case_invD(1,6) [OF prepare(3)] case_invD(2) [OF prepare(3,1)]
    by (intro case_inv_step [OF prepare(3)]) (auto simp: to_spawn_def dest: notin_set_remove1)
next
  case (refuse c s now new_id thread_id e c')
  have "stored_case (sy_store s) c'"
    using case_invD(2) [OF refuse(3,1)] prepare_case_run_Inl [OF refuse(2)] by (rule stored_case_same)
  then show ?case
    using case_invD(1,6) [OF refuse(3)]
    by (intro case_inv_step [OF refuse(3)]) (auto simp: to_spawn_def dest: notin_set_remove1)
next
  case (obtain_run c r s r' b st)
  then show ?case using case_inv_obtain by blast
next
  case (started c r b s now st)
  then show ?case using case_inv_started by blast
next
  case (spawn i s)
  then show ?case using case_inv_spawn by blast
next
  case (supersede_read s k c now replacement n c')
  have "stored_case (sy_store s) c'"
    using stored_caseI [OF supersede_read(1) case_invD(1) [OF supersede_read(3)]] supersede_same [OF supersede_read(2)]
    by (rule stored_case_same)
  then show ?case
    using case_invD(1,6) [OF supersede_read(3)]
    by (intro case_inv_step [OF supersede_read(3)]) (auto simp: to_spawn_def)
next
  case (write_case c s st)
  then show ?case
    using case_invD(6) [OF write_case(3)]
    by (intro case_inv_update [OF write_case(3,2) case_invD(3) [OF write_case(3,1)]])
       (simp_all add: to_spawn_def set_remove1_subset)
next
  case (drop_write s c)
  then show ?case
    using case_invD(1,6) [OF drop_write]
    by (intro case_inv_step [OF drop_write]) (auto simp: to_spawn_def dest: notin_set_remove1)
next
  case (flows s rows)
  then show ?case
    using case_invD(1,6) [OF flows]
    by (intro case_inv_step [OF flows]) (auto simp: to_spawn_def cases_ok_def stored_case_def run_stored_for_def get_flow_case_def)
next
  case (run_write s i r r')
  then show ?case
    using case_invD(1,6) [OF run_write(3)] run_write_keeps [OF run_write(1,2)]
    by (intro case_inv_step [OF run_write(3)]) (auto simp: to_spawn_def cases_ok_def stored_case_def)
next
  case (restart s)
  then show ?case
    using case_invD(1,6) [OF restart]
    by (intro case_inv_step [OF restart]) (auto simp: to_spawn_def)
qed

lemma case_steps_inv: "case_steps ce s s' \<Longrightarrow> case_inv ce s \<Longrightarrow> case_inv ce s'"
  by (induction rule: rtranclp_induct) (auto intro: case_step_inv)

lemma initial_system_inv: "case_inv ce (initial_system rows)"
  by (simp add: case_inv_def initial_system_def cases_ok_def to_spawn_def bt.inv_empty)

section \<open>One client\<close>

definition tables_ok :: "case_store \<Rightarrow> bool" where
  "tables_ok st \<longleftrightarrow> cases_ok st \<and> (\<forall>k r. bt_get (cs_runs st) k = Some r \<longrightarrow> fr_id r = k)"

lemma get_flow_case_iff:
  assumes "cases_ok st"
  shows "get_flow_case flow_id key st = Some c \<longleftrightarrow>
    bt_get (cs_cases st) (fc_id c) = Some c \<and> fc_flow_id c = flow_id \<and> fc_idempotency_key c = key"
proof
  assume "get_flow_case flow_id key st = Some c"
  from find_Some_in [OF this [unfolded get_flow_case_def]]
  have c: "c \<in> set (map snd (cs_cases st))" "fc_flow_id c = flow_id" "fc_idempotency_key c = key" by simp_all
  then obtain k where "bt_get (cs_cases st) k = Some c"
    using bt_values [of "cs_cases st"] assms by (auto simp: cases_ok_def)
  with c assms show "bt_get (cs_cases st) (fc_id c) = Some c \<and> fc_flow_id c = flow_id \<and> fc_idempotency_key c = key"
    by (auto simp: cases_ok_def)
next
  assume c: "bt_get (cs_cases st) (fc_id c) = Some c \<and> fc_flow_id c = flow_id \<and> fc_idempotency_key c = key"
  then have "c \<in> set (map snd (cs_cases st))" using bt_get_in_set [of "cs_cases st"] by force
  with c obtain c' where c': "get_flow_case flow_id key st = Some c'"
    by (cases "get_flow_case flow_id key st") (auto simp: get_flow_case_def find_None_iff)
  from find_Some_in [OF this [unfolded get_flow_case_def]]
  have "c' \<in> set (map snd (cs_cases st))" "fc_flow_id c' = flow_id" "fc_idempotency_key c' = key" by simp_all
  then obtain k where "bt_get (cs_cases st) k = Some c'" "fc_flow_id c' = flow_id" "fc_idempotency_key c' = key"
    using bt_values [of "cs_cases st"] assms by (auto simp: cases_ok_def)
  with c assms have "k = fc_id c" unfolding cases_ok_def by metis
  with c c' \<open>bt_get (cs_cases st) k = Some c'\<close> show "get_flow_case flow_id key st = Some c" by simp
qed

text \<open>A handler that answers with a case leaves it stored, with its run.\<close>

definition answered :: "case_result \<Rightarrow> case_store \<Rightarrow> bool" where
  "answered res st \<longleftrightarrow>
     bt_get (cs_cases st) (fc_id (cr_case res)) = Some (cr_case res)
     \<and> reuse_case_result (cr_case res) st = Inr (res\<lparr>cr_reused := True\<rparr>)"

lemma reuse_answered:
  assumes "reuse_case_result c st = Inr res" "bt_get (cs_cases st) (fc_id c) = Some c"
  shows "cr_case res = c \<and> cr_reused res \<and> answered res st"
  using assms by (auto simp: reuse_case_result_def answered_def res_Inr_iffs split: option.splits)

lemma start_accepted_answered:
  assumes start: "start_accepted_case ce flow c reused st = (Inr res, st', spawned)"
    and stored: "bt_get (cs_cases st) (fc_id c) = Some c" and ok: "tables_ok st"
  shows "answered res st' \<and> tables_ok st' \<and> same_case c (cr_case res)
    \<and> (fc_status (cr_case res) \<noteq> CaseAccepted)"
proof (cases "fc_status c = CaseAccepted")
  case False
  with start have "reuse_case_result c st = Inr res" "st' = st" by (auto simp: start_accepted_case_def)
  with reuse_answered [OF this(1) stored] ok False show ?thesis by auto
next
  case True
  with start obtain r r' b st1 where r: "obtain_run r st = Inr ((r', b), st1)"
    and update: "update_flow_case (mark_started (env_now (ce_env ce)) (fr_id r') c) st1 = Inr st'"
    and res: "res = \<lparr>cr_case = mark_started (env_now (ce_env ce)) (fr_id r') c, cr_run = Some r', cr_reused = reused\<rparr>"
    by (auto simp: start_accepted_case_def Let_def split: sum.splits prod.splits option.splits)
  let ?c = "mark_started (env_now (ce_env ce)) (fr_id r') c"
  have st1: "cs_cases st1 = cs_cases st" "bt_get (cs_runs st1) (fr_id r') = Some r'"
    "\<forall>k r. bt_get (cs_runs st1) k = Some r \<longrightarrow> fr_id r = k"
    using obtain_run_Inr [OF r] ok by (auto simp: tables_ok_def bt_get_insert split: if_splits)
  have st': "st' = st1\<lparr>cs_cases := bt_insert (fc_id c) ?c (cs_cases st)\<rparr>"
    using update st1(1) by (simp add: update_flow_case_Inr mark_started_def)
  have "cases_ok st1" using ok st1(1) by (simp add: tables_ok_def cases_ok_def)
  moreover have "stored_case st1 ?c"
    using stored st1(1) by (auto simp: stored_case_def mark_started_def same_case_def)
  ultimately have "cases_ok st'" using update_keeps(1) [OF update] by blast
  then have "tables_ok st'" using st1(3) by (simp add: tables_ok_def st')
  moreover have "answered res st'"
    using st1(2) by (simp add: answered_def res reuse_case_result_def mark_started_def st' bt_get_insert ok_or_def)
  ultimately show ?thesis by (simp add: res) (simp add: mark_started_def)
qed

lemma answered_again:
  assumes "answered res st" "tables_ok st" "af_status flow = FlowActive" "ce_thread ce (af_thread_id flow)"
    "fc_flow_id (cr_case res) = af_flow_id flow" "fc_idempotency_key (cr_case res) = key"
    "fc_input_hash (cr_case res) = content_fingerprint (ce_to_vec ce v)"
    "fc_status (cr_case res) \<noteq> CaseAccepted \<or> rev_ingress_policy (fc_flow_revision (cr_case res)) = RequireReview"
  shows "accept_flow_case ce flow key v st = (Inr (res\<lparr>cr_reused := True\<rparr>), st, [])"
proof -
  have "get_flow_case (af_flow_id flow) key st = Some (cr_case res)"
    using assms by (simp add: get_flow_case_iff tables_ok_def answered_def)
  then show ?thesis
    using assms by (auto simp: accept_flow_case_def resume_or_reuse_case_def answered_def)
qed

lemma resume_or_reuse_answered:
  assumes "resume_or_reuse_case ce flow c st = (Inr res, st', spawned)"
    "bt_get (cs_cases st) (fc_id c) = Some c" "tables_ok st"
  shows "answered res st' \<and> tables_ok st' \<and> same_case c (cr_case res)
    \<and> (fc_status (cr_case res) \<noteq> CaseAccepted \<or> rev_ingress_policy (fc_flow_revision (cr_case res)) = RequireReview)"
proof (cases "fc_status c = CaseAccepted \<and> rev_ingress_policy (fc_flow_revision c) = Immediate")
  case True
  with start_accepted_answered [of ce flow c True st] assms show ?thesis by (auto simp: resume_or_reuse_case_def)
next
  case False
  then have "reuse_case_result c st = Inr res" "st' = st" using assms(1) by (auto simp: resume_or_reuse_case_def split: if_splits)
  with reuse_answered [OF this(1) assms(2)] assms(3) False show ?thesis
    by (cases "rev_ingress_policy (fc_flow_revision c)") auto
qed

lemma accept_answered:
  assumes accept: "accept_flow_case ce flow key v st = (Inr res, st', spawned)" and ok: "tables_ok st"
    and key: "trim key = key"
  shows "answered res st' \<and> tables_ok st' \<and> af_status flow = FlowActive \<and> ce_thread ce (af_thread_id flow)
    \<and> fc_flow_id (cr_case res) = af_flow_id flow \<and> fc_idempotency_key (cr_case res) = key
    \<and> fc_input_hash (cr_case res) = content_fingerprint (ce_to_vec ce v)
    \<and> (fc_status (cr_case res) \<noteq> CaseAccepted \<or> rev_ingress_policy (fc_flow_revision (cr_case res)) = RequireReview)"
proof -
  have active: "af_status flow = FlowActive" "ce_thread ce (af_thread_id flow)"
    using accept by (auto simp: accept_flow_case_def split: if_splits)
  show ?thesis
  proof (cases "get_flow_case (af_flow_id flow) key st")
    case (Some c)
    with accept active have hash: "fc_input_hash c = content_fingerprint (ce_to_vec ce v)"
      and resume: "resume_or_reuse_case ce flow c st = (Inr res, st', spawned)"
      by (auto simp: accept_flow_case_def split: if_splits)
    have c: "bt_get (cs_cases st) (fc_id c) = Some c" "fc_flow_id c = af_flow_id flow" "fc_idempotency_key c = key"
      using Some ok get_flow_case_iff by (auto simp: tables_ok_def)
    from resume_or_reuse_answered [OF resume c(1) ok] hash c active show ?thesis by (auto simp: same_case_def)
  next
    case None
    with accept active obtain c where c: "accepted_case ce flow key v = Inr c"
      by (auto simp: accept_flow_case_def split: sum.splits)
    from None c accept active obtain st1 where st1: "insert_flow_case c st = Inr st1"
      and rest: "(if rev_ingress_policy (fc_flow_revision c) = RequireReview
         then (Inr \<lparr>cr_case = c, cr_run = None, cr_reused = False\<rparr>, st1, [])
         else start_accepted_case ce flow c False st1) = (Inr res, st', spawned)"
      by (auto simp: accept_flow_case_def split: sum.splits)
    have new: "fc_flow_id c = af_flow_id flow" "fc_idempotency_key c = key" "fc_flow_run_id c = None"
      "fc_input_hash c = content_fingerprint (ce_to_vec ce v)"
      using c key by (auto simp: accepted_case_def Let_def res_Inr_iffs)
    have stored: "bt_get (cs_cases st1) (fc_id c) = Some c" "cs_runs st1 = cs_runs st"
      using st1 by (auto simp: insert_flow_case_def bt_get_insert split: if_splits)
    have ok1: "tables_ok st1"
      using insert_keeps(1) [OF st1] ok stored(2) by (simp add: tables_ok_def)
    show ?thesis
    proof (cases "rev_ingress_policy (fc_flow_revision c) = RequireReview")
      case True
      with rest have "res = \<lparr>cr_case = c, cr_run = None, cr_reused = False\<rparr>" "st' = st1" by simp_all
      with stored new ok1 active True show ?thesis by (simp add: answered_def reuse_case_result_def)
    next
      case False
      with rest have "start_accepted_case ce flow c False st1 = (Inr res, st', spawned)" by simp
      from start_accepted_answered [OF this stored(1) ok1] new active show ?thesis by (auto simp: same_case_def)
    qed
  qed
qed

lemma accepted_padded_key:
  assumes "accepted_case ce flow key v = Inr c"
  shows "fc_id c = env_uuid_v5 (ce_env ce) (af_id flow) (trim key)"
  using assms by (auto simp: accepted_case_def Let_def res_Inr_iffs)

text \<open>
  The lookup of a case uses the key as given, while its row has the trimmed key.  A request that repeats
  an event with blanks around its key is refused by the uniqueness of the identifier instead of being
  answered with the case.
\<close>

lemma padded_key_is_not_replayed:
  assumes "accepted_case ce flow key v = Inr c" "bt_contains (cs_cases st) (fc_id c)"
    "\<forall>k c. bt_get (cs_cases st) k = Some c \<longrightarrow> trim (fc_idempotency_key c) = fc_idempotency_key c"
    "trim key \<noteq> key" "cases_ok st" "af_status flow = FlowActive" "ce_thread ce (af_thread_id flow)"
  shows "accept_flow_case ce flow key v st
    = (Inl (CaseStoreError ''UNIQUE constraint failed: flow_cases.id''), st, [])"
proof -
  have "get_flow_case (af_flow_id flow) key st = None"
  proof (rule ccontr)
    assume "get_flow_case (af_flow_id flow) key st \<noteq> None"
    then obtain x where "get_flow_case (af_flow_id flow) key st = Some x" by blast
    then have "bt_get (cs_cases st) (fc_id x) = Some x" "fc_idempotency_key x = key"
      using get_flow_case_iff [OF assms(5)] by blast+
    with assms(3,4) show False by metis
  qed
  then show ?thesis
    using assms by (simp add: accept_flow_case_def insert_flow_case_def)
qed

section \<open>Handlers as steps\<close>

definition runs_to :: "case_env \<Rightarrow> case_system \<Rightarrow> case_store \<Rightarrow> uuid list \<Rightarrow> bool" where
  \<comment> \<open>an execution that leads to the store and spawns the runs\<close>
  "runs_to ce s st spawned \<longleftrightarrow>
     (\<exists>s'. case_steps ce s s' \<and> sy_store s' = st \<and> sy_spawned s' = spawned @ sy_spawned s)"

lemma runs_to_refl: "runs_to ce s (sy_store s) []"
  unfolding runs_to_def by (intro exI [of _ s]) simp

lemma runs_to_step:
  "case_step ce s s' \<Longrightarrow> sy_spawned s' = sy_spawned s \<Longrightarrow> runs_to ce s' st spawned \<Longrightarrow> runs_to ce s st spawned"
  unfolding runs_to_def by (metis converse_rtranclp_into_rtranclp)

lemma write_runs_to:
  assumes "c \<in> set (sy_writing s)"
  shows "runs_to ce s (update_or_keep c (sy_store s)) []"
proof (cases "update_flow_case c (sy_store s)")
  case (Inl e)
  then show ?thesis using runs_to_refl by (simp add: update_or_keep_def)
next
  case (Inr st)
  let ?s = "s\<lparr>sy_store := st, sy_writing := remove1 c (sy_writing s)\<rparr>"
  from case_step.write_case [OF assms Inr] runs_to_refl [of ce ?s] have "runs_to ce s st []"
    by (intro runs_to_step [of ce s ?s]) simp_all
  with Inr show ?thesis by (simp add: update_or_keep_def)
qed

lemma obtained_runs_to:
  assumes held: "(c, r, b) \<in> set (sy_obtained s)"
    and update: "update_flow_case (mark_started now (fr_id r) c) (sy_store s) = Inr st"
  shows "runs_to ce s st (if b then [fr_id r] else [])"
proof -
  let ?s = "s\<lparr>sy_store := st, sy_obtained := remove1 (c, r, b) (sy_obtained s),
          sy_spawning := (if b then [fr_id r] else []) @ sy_spawning s\<rparr>"
  have step: "case_step ce s ?s" using case_step.started [OF held update] .
  show ?thesis
  proof (cases b)
    case True
    then have "fr_id r \<in> set (sy_spawning ?s)" by simp
    from case_step.spawn [OF this, of ce] have "runs_to ce ?s st [fr_id r]"
      unfolding runs_to_def by (intro exI conjI, rule r_into_rtranclp) simp_all
    with True runs_to_step [OF step] show ?thesis by simp
  next
    case False
    with runs_to_step [OF step _ runs_to_refl] show ?thesis by simp
  qed
qed

lemma obtain_run_total: "obtain_run r st \<noteq> Inl e"
  by (auto simp: obtain_run_def insert_flow_run_def bt_contains_get split: if_splits option.splits)

lemma start_runs_to:
  assumes held: "c \<in> set (sy_holding s)"
    and start: "start_accepted_case ce flow c reused (sy_store s) = (result, st, spawned)"
  shows "runs_to ce s st spawned"
proof -
  have same: "ce\<lparr>ce_env := (ce_env ce)\<lparr>env_now := env_now (ce_env ce), env_uuid := env_uuid (ce_env ce)\<rparr>\<rparr> = ce" by simp
  note prepare = case_step.prepare [OF held, where ce = ce and now = "env_now (ce_env ce)"
      and new_id = "env_uuid (ce_env ce)" and thread_id = "af_thread_id flow", unfolded same]
  note refuse = case_step.refuse [OF held, where ce = ce and now = "env_now (ce_env ce)"
      and new_id = "env_uuid (ce_env ce)" and thread_id = "af_thread_id flow", unfolded same]
  show ?thesis
  proof (cases "fc_status c = CaseAccepted")
    case False
    with start runs_to_refl show ?thesis by (auto simp: start_accepted_case_def)
  next
    case accepted: True
    show ?thesis
    proof (cases "prepare_case_run ce (af_thread_id flow) c")
      case (Inl p)
      obtain e failed where p: "p = (e, failed)" by (cases p)
      show ?thesis
      proof (cases failed)
        case None
        with start accepted Inl p runs_to_refl show ?thesis by (auto simp: start_accepted_case_def)
      next
        case (Some c')
        let ?s = "s\<lparr>sy_holding := remove1 c (sy_holding s), sy_writing := c' # sy_writing s\<rparr>"
        have st: "st = update_or_keep c' (sy_store ?s)" "spawned = []"
          using start accepted Inl p Some by (auto simp: start_accepted_case_def)
        have step: "case_step ce s ?s" using refuse Inl p Some by simp
        have "runs_to ce ?s (update_or_keep c' (sy_store ?s)) []" by (rule write_runs_to) simp
        from runs_to_step [OF step _ this] show ?thesis unfolding st by simp
      qed
    next
      case (Inr r)
      let ?s = "s\<lparr>sy_holding := remove1 c (sy_holding s), sy_starting := (c, r) # sy_starting s\<rparr>"
      have step: "case_step ce s ?s" using prepare Inr by simp
      obtain r' b st1 where run: "obtain_run r (sy_store s) = Inr ((r', b), st1)"
        using obtain_run_total [of r "sy_store s"] by (metis obj_sumE surj_pair)
      let ?t = "?s\<lparr>sy_store := st1, sy_starting := remove1 (c, r) (sy_starting ?s), sy_obtained := (c, r', b) # sy_obtained ?s\<rparr>"
      have step': "case_step ce ?s ?t" using run by (intro case_step.obtain_run) simp_all
      have "runs_to ce ?t st spawned"
      proof (cases "update_flow_case (mark_started (env_now (ce_env ce)) (fr_id r') c) st1")
        case (Inl e)
        with start accepted Inr run runs_to_refl [of ce ?t] show ?thesis by (auto simp: start_accepted_case_def)
      next
        case updated: (Inr st2)
        with start accepted Inr run have "st = st2" "spawned = (if b then [fr_id r'] else [])"
          by (auto simp: start_accepted_case_def Let_def)
        with obtained_runs_to [of c r' b ?t "env_now (ce_env ce)" st2 ce] updated show ?thesis by simp
      qed
      from runs_to_step [OF step _ runs_to_step [OF step' _ this]] show ?thesis by simp
    qed
  qed
qed


lemma resume_runs_to:
  assumes stored: "bt_get (cs_cases (sy_store s)) (fc_id c) = Some c"
    and resume: "resume_or_reuse_case ce flow c (sy_store s) = (result, st, spawned)"
  shows "runs_to ce s st spawned"
proof (cases "fc_status c = CaseAccepted \<and> rev_ingress_policy (fc_flow_revision c) = Immediate")
  case True
  let ?s = "s\<lparr>sy_holding := c # sy_holding s\<rparr>"
  have "case_step ce s ?s" using case_step.hold [OF stored] True by blast
  moreover have "runs_to ce ?s st spawned"
    using True resume by (intro start_runs_to [of c]) (auto simp: resume_or_reuse_case_def)
  ultimately show ?thesis by (intro runs_to_step [of ce s ?s]) simp_all
next
  case False
  then have "st = sy_store s" "spawned = []" using resume by (auto simp: resume_or_reuse_case_def split: if_splits)
  then show ?thesis using runs_to_refl by simp
qed

lemma accept_runs_to:
  assumes inv: "case_inv ce s"
    and accept: "accept_flow_case ce flow key v (sy_store s) = (result, st, spawned)"
  shows "runs_to ce s st spawned"
proof (cases "af_status flow = FlowActive \<and> ce_thread ce (af_thread_id flow)")
  case False
  then have "st = sy_store s" "spawned = []" using accept by (auto simp: accept_flow_case_def split: if_splits)
  then show ?thesis using runs_to_refl by simp
next
  case active: True
  show ?thesis
  proof (cases "get_flow_case (af_flow_id flow) key (sy_store s)")
    case (Some c)
    have stored: "bt_get (cs_cases (sy_store s)) (fc_id c) = Some c"
      using Some get_flow_case_iff [OF case_invD(1) [OF inv]] by blast
    show ?thesis
    proof (cases "fc_input_hash c = content_fingerprint (ce_to_vec ce v)")
      case True
      with accept active Some have "resume_or_reuse_case ce flow c (sy_store s) = (result, st, spawned)"
        by (simp add: accept_flow_case_def)
      with stored show ?thesis by (rule resume_runs_to)
    next
      case False
      with accept active Some runs_to_refl show ?thesis by (auto simp: accept_flow_case_def)
    qed
  next
    case None
    show ?thesis
    proof (cases "\<exists>c st1. accepted_case ce flow key v = Inr c \<and> insert_flow_case c (sy_store s) = Inr st1")
      case False
      then have "st = sy_store s" "spawned = []"
        using accept active None by (auto simp: accept_flow_case_def split: sum.splits)
      then show ?thesis using runs_to_refl by simp
    next
      case True
      then obtain c st1 where c: "accepted_case ce flow key v = Inr c" "insert_flow_case c (sy_store s) = Inr st1" by blast
      let ?s = "s\<lparr>sy_store := st1, sy_holding := c # sy_holding s\<rparr>"
      have step: "case_step ce s ?s"
        using case_step.accept [where ce = ce and now = "env_now (ce_env ce)", of flow key v c s st1] c by simp
      have "runs_to ce ?s st spawned"
      proof (cases "rev_ingress_policy (fc_flow_revision c) = RequireReview")
        case True
        with accept active None c runs_to_refl [of ce ?s] show ?thesis by (auto simp: accept_flow_case_def)
      next
        case False
        with accept active None c have "start_accepted_case ce flow c False (sy_store ?s) = (result, st, spawned)"
          by (auto simp: accept_flow_case_def)
        then show ?thesis by (intro start_runs_to [of c ?s]) simp_all
      qed
      from runs_to_step [OF step _ this] show ?thesis by simp
    qed
  qed
qed

lemma prepared_case_starts:
  assumes "(c, r) \<in> set (sy_starting s)" and "bt_get (cs_cases (sy_store s)) (fc_id c) = Some c'"
    and "bt_get (cs_runs (sy_store s)) (fr_id r) = None"
  shows "\<exists>s' c''. case_steps ce s s' \<and> fr_id r \<in> set (sy_spawned s')
    \<and> bt_get (cs_cases (sy_store s')) (fc_id c) = Some c'' \<and> fc_status c'' = CaseStarted
    \<and> fc_superseded_by c'' = fc_superseded_by c"
proof -
  let ?st1 = "(sy_store s)\<lparr>cs_runs := bt_insert (fr_id r) r (cs_runs (sy_store s))\<rparr>"
  have "obtain_run r (sy_store s) = Inr ((r, True), ?st1)"
    using assms(3) by (simp add: obtain_run_def insert_flow_run_def bt_contains_def)
  from case_step.obtain_run [OF assms(1) this] obtain s1 where s1: "case_step ce s s1"
    "sy_store s1 = ?st1" "(c, r, True) \<in> set (sy_obtained s1)" by fastforce
  let ?c = "mark_started 0 (fr_id r) c"
  have "update_flow_case ?c (sy_store s1) = Inr (?st1\<lparr>cs_cases := bt_insert (fc_id c) ?c (cs_cases (sy_store s))\<rparr>)"
    using assms(2) by (simp add: update_flow_case_def s1(2) run_reference_ok_def mark_started_def bt_contains_get bt_get_insert)
  from case_step.started [OF s1(3) this] obtain s2 where s2: "case_step ce s1 s2"
    "cs_cases (sy_store s2) = bt_insert (fc_id c) ?c (cs_cases (sy_store s))" "fr_id r \<in> set (sy_spawning s2)"
    by fastforce
  from case_step.spawn [OF s2(3)] obtain s3 where s3: "case_step ce s2 s3"
    "sy_store s3 = sy_store s2" "fr_id r \<in> set (sy_spawned s3)" by fastforce
  have "case_steps ce s s3" using s1(1) s2(1) s3(1) by (meson converse_rtranclp_into_rtranclp rtranclp.rtrancl_refl)
  with s2(2) s3(2,3) show ?thesis
    by (intro exI [of _ s3] exI [of _ ?c]) (simp add: bt_get_insert mark_started_def)
qed

section \<open>An example\<close>

definition example_compiled :: compiled_workflow_v1 where
  "example_compiled =
     \<lparr>wf1_schema_version = 1, wf1_definition_id = ''d'', wf1_flow_id = ''ask'', wf1_flow_version = 1,
      wf1_definition_content_hash = ''h'',
      wf1_graph = \<lparr>gd_schema_version = 1, gd_entry_node_id = ''a'', gd_nodes = [], gd_edges = []\<rparr>,
      wf1_input_schema = JBool True, wf1_output_schema = JBool True, wf1_root_capabilities = deny_all,
      wf1_harness_capabilities = deny_all, wf1_harness_authority = DenyAllConnections,
      wf1_budget = flow_budget_default, wf1_agent_specs = [], wf1_content_hash = ''h''\<rparr>"

definition example_active :: active_flow where
  "example_active =
     \<lparr>af_schema_version = 1, af_id = ''f:'', af_revision = 1, af_flow_id = ''ask'', af_name = ''Ask'',
      af_thread_id = ''t'', af_status = FlowActive,
      af_active_revision = revision_new (\<lambda>_. []) ''rev'' 0 example_compiled ''ops'',
      af_created_at = 0, af_updated_at = 0, af_created_by = ''ops''\<rparr>"

definition example_case_env :: case_env where
  "example_case_env =
     \<lparr>ce_env = example_env, ce_to_vec = (\<lambda>_. []), ce_thread = (\<lambda>_. True), ce_context = (\<lambda>_. None)\<rparr>"

definition example_case :: flow_case where
  "example_case =
     \<lparr>fc_schema_version = automation_schema_version, fc_id = ''f:k'', fc_flow_id = ''ask'',
      fc_trigger_id = ''f:manual-trigger'', fc_idempotency_key = ''k'', fc_flow_revision_id = ''rev'',
      fc_flow_revision = af_active_revision example_active, fc_flow_run_id = None, fc_status = CaseAccepted,
      fc_input_hash = content_fingerprint [], fc_input = JNull, fc_error = None, fc_superseded_by = None,
      fc_status_note = None, fc_created_at = 0, fc_updated_at = 0\<rparr>"

lemma example_accepted: "accepted_case example_case_env example_active ''k'' JNull = Inr example_case"
proof -
  have "trim ''k'' = ''k''" "char_count ''k'' \<le> 256" by code_simp+
  then show ?thesis
    by (simp add: accepted_case_def validate_bounded_text_def res_ensure_def example_case_env_def example_env_def
        example_active_def example_case_def revision_new_def revision_new_with_io_def revision_new_with_options_def
        revision_new_with_ingress_policy_def trigger_id_def Let_def)
qed

lemma example_prepared:
  "\<exists>r. prepare_case_run example_case_env ''t'' example_case = Inr r \<and> fr_id r = ''f:kflow-run''"
  by (simp add: prepare_case_run_def example_case_env_def example_env_def res_ensure_def new_from_revision_def
      run_revision_def run_workflow_def example_case_def example_active_def revision_new_def revision_new_with_io_def
      revision_new_with_options_def revision_new_with_ingress_policy_def example_compiled_def case_run_id_def
      agent_schema_version_def enterprise_schema_version_def Let_def)

definition example_rows :: "(string, active_flow) btree" where
  "example_rows = [(''ask'', example_active)]"

definition example_store :: case_store where
  "example_store = \<lparr>cs_flows = example_rows, cs_cases = [(''f:k'', example_case)], cs_runs = []\<rparr>"

lemma example_inserted:
  "insert_flow_case example_case \<lparr>cs_flows = example_rows, cs_cases = [], cs_runs = []\<rparr> = Inr example_store"
  by (simp add: insert_flow_case_def get_flow_case_def run_reference_ok_def example_case_def example_rows_def
      example_store_def bt_contains_def)

definition superseded_case :: flow_case where
  "superseded_case = example_case\<lparr>fc_status := CaseSuperseded, fc_status_note := Some ''n''\<rparr>"

lemma example_env_same [simp]:
  "example_case_env\<lparr>ce_env := (ce_env example_case_env)\<lparr>env_now := 0\<rparr>\<rparr> = example_case_env"
  "example_case_env\<lparr>ce_env := (ce_env example_case_env)\<lparr>env_now := 0, env_uuid := show_nat\<rparr>\<rparr> = example_case_env"
  by (simp_all add: example_case_env_def example_env_def)

lemma example_superseded: "supersede 0 None ''n'' example_case = Inr superseded_case"
proof -
  have "trim ''n'' = ''n''" "char_count ''n'' \<le> 512" by code_simp+
  then show ?thesis
    by (simp add: supersede_def validate_bounded_text_def res_ensure_def superseded_case_def example_case_def)
qed

lemma example_race:
  "\<exists>s r. case_steps example_case_env (initial_system example_rows) s
    \<and> (example_case, r) \<in> set (sy_starting s) \<and> fr_id r = ''f:kflow-run''
    \<and> bt_get (cs_cases (sy_store s)) ''f:k'' = Some superseded_case \<and> cs_runs (sy_store s) = []"
proof -
  from example_prepared obtain r where r: "prepare_case_run example_case_env ''t'' example_case = Inr r"
    "fr_id r = ''f:kflow-run''" by blast
  let ?s0 = "initial_system example_rows"
  define s1 where "s1 = ?s0\<lparr>sy_store := example_store, sy_holding := [example_case]\<rparr>"
  define s2 where "s2 = s1\<lparr>sy_holding := [], sy_starting := [(example_case, r)]\<rparr>"
  define s3 where "s3 = s2\<lparr>sy_writing := [superseded_case]\<rparr>"
  define s4 where "s4 = s3\<lparr>sy_store := example_store\<lparr>cs_cases := [(''f:k'', superseded_case)]\<rparr>, sy_writing := []\<rparr>"
  have "case_step example_case_env ?s0 s1"
    using case_step.accept [where ce = example_case_env and now = 0 and flow = example_active and key = "''k''"
        and v = JNull and c = example_case and s = ?s0 and st = example_store]
      example_accepted example_inserted by (simp add: s1_def initial_system_def)
  moreover have "case_step example_case_env s1 s2"
    using case_step.prepare [where c = example_case and s = s1 and ce = example_case_env and now = 0
        and new_id = show_nat and thread_id = "''t''" and r = r] r
    by (simp add: s1_def s2_def initial_system_def)
  moreover have "case_step example_case_env s2 s3"
    using case_step.supersede_read [where s = s2 and k = "''f:k''" and c = example_case and now = 0
        and replacement = None and n = "''n''" and c' = superseded_case] example_superseded
    by (simp add: s1_def s2_def s3_def initial_system_def example_store_def)
  moreover have "case_step example_case_env s3 s4"
    using case_step.write_case [where c = superseded_case and s = s3
        and st = "example_store\<lparr>cs_cases := [(''f:k'', superseded_case)]\<rparr>"]
    by (simp add: s1_def s2_def s3_def s4_def initial_system_def example_store_def update_flow_case_def
        superseded_case_def example_case_def bt_contains_def run_reference_ok_def)
  ultimately have "case_steps example_case_env ?s0 s4"
    by (meson converse_rtranclp_into_rtranclp rtranclp.rtrancl_refl)
  then show ?thesis
    using r(2) by (intro exI [of _ s4] exI [of _ r]) (simp add: s1_def s2_def s3_def s4_def example_store_def)
qed

lemma example_spawned:
  "\<exists>s. case_steps example_case_env (initial_system example_rows) s \<and> ''f:kflow-run'' \<in> set (sy_spawned s)"
proof -
  from example_race obtain s r where s: "case_steps example_case_env (initial_system example_rows) s"
    "(example_case, r) \<in> set (sy_starting s)" "fr_id r = ''f:kflow-run''"
    "bt_get (cs_cases (sy_store s)) ''f:k'' = Some superseded_case" "cs_runs (sy_store s) = []" by blast
  have "fc_id example_case = ''f:k''" by (simp add: example_case_def)
  with prepared_case_starts [OF s(2), of superseded_case example_case_env] s
  obtain s' where "case_steps example_case_env s s'" "''f:kflow-run'' \<in> set (sy_spawned s')" by auto
  with s(1) show ?thesis by (meson rtranclp_trans)
qed

lemma example_first_accept:
  "\<exists>res st. accept_flow_case example_case_env example_active ''k'' JNull
     \<lparr>cs_flows = example_rows, cs_cases = [], cs_runs = []\<rparr> = (Inr res, st, [''f:kflow-run''])"
proof -
  let ?st = "\<lparr>cs_flows = example_rows, cs_cases = [], cs_runs = []\<rparr>"
  from example_prepared obtain r where r: "prepare_case_run example_case_env ''t'' example_case = Inr r"
    "fr_id r = ''f:kflow-run''" by blast
  have "af_status example_active = FlowActive" "af_thread_id example_active = ''t''" "fc_status example_case = CaseAccepted"
    "rev_ingress_policy (fc_flow_revision example_case) = Immediate" "ce_thread example_case_env ''t''"
    "fc_id example_case = ''f:k''" "get_flow_case (af_flow_id example_active) ''k'' ?st = None"
    by (simp_all add: example_active_def example_case_def revision_new_def revision_new_with_io_def example_case_env_def
        revision_new_with_options_def revision_new_with_ingress_policy_def get_flow_case_def)
  then show ?thesis
    using r example_accepted example_inserted
    by (simp add: accept_flow_case_def start_accepted_case_def obtain_run_def insert_flow_run_def example_store_def
        update_flow_case_def mark_started_def run_reference_ok_def bt_contains_def Let_def)
qed

section \<open>Properties\<close>

text \<open>
  C7: An event starts at most one run.  However requests, retries, operators, superseded cases, other writers
  of runs and restarts of the server interleave: a flow has at most one case for an idempotency key, no
  run is spawned twice, and every spawned run is the stored run of a stored case, with the identifier
  derived from that case and with its input.
\<close>
theorem event_starts_at_most_one_run:
  assumes "case_steps ce (initial_system rows) s"
  shows "distinct (sy_spawned s)
    \<and> (\<forall>k c k' c'. bt_get (cs_cases (sy_store s)) k = Some c \<and> bt_get (cs_cases (sy_store s)) k' = Some c'
         \<and> fc_flow_id c = fc_flow_id c' \<and> fc_idempotency_key c = fc_idempotency_key c' \<longrightarrow> k = k' \<and> c = c')
    \<and> (\<forall>i \<in> set (sy_spawned s). \<exists>c r. bt_get (cs_cases (sy_store s)) (fc_id c) = Some c
         \<and> i = case_run_id (ce_env ce) c \<and> bt_get (cs_runs (sy_store s)) i = Some r \<and> fr_input r = fc_input c)"
proof -
  have inv: "case_inv ce s" by (rule case_steps_inv [OF assms initial_system_inv])
  have "distinct (sy_spawned s)" using case_invD(6) [OF inv] by (simp add: to_spawn_def)
  moreover have "k = k' \<and> c = c'"
    if "bt_get (cs_cases (sy_store s)) k = Some c" "bt_get (cs_cases (sy_store s)) k' = Some c'"
      "fc_flow_id c = fc_flow_id c'" "fc_idempotency_key c = fc_idempotency_key c'" for k c k' c'
  proof -
    have "k = k'" using case_invD(1) [OF inv] that unfolding cases_ok_def by blast
    with that show ?thesis by simp
  qed
  moreover have "\<exists>c r. bt_get (cs_cases (sy_store s)) (fc_id c) = Some c
         \<and> i = case_run_id (ce_env ce) c \<and> bt_get (cs_runs (sy_store s)) i = Some r \<and> fr_input r = fc_input c"
    if "i \<in> set (sy_spawned s)" for i
    using case_invD(7) [OF inv, of i] that unfolding to_spawn_def run_stored_for_def run_of_case_def by auto
  ultimately show ?thesis by blast
qed

theorem event_starts_at_most_one_run_witness:
  "\<exists>s. case_steps example_case_env (initial_system example_rows) s \<and> ''f:kflow-run'' \<in> set (sy_spawned s)
    \<and> distinct (sy_spawned s) \<and> (\<exists>r. bt_get (cs_runs (sy_store s)) ''f:kflow-run'' = Some r)"
proof -
  from example_spawned obtain s where "case_steps example_case_env (initial_system example_rows) s"
    "''f:kflow-run'' \<in> set (sy_spawned s)" by blast
  with event_starts_at_most_one_run [of example_case_env example_rows s] show ?thesis by blast
qed

text \<open>
  C8: The request handler, run without interference, is an execution of the interleaved steps.  In every
  reachable state its result store is reached by steps, which spawn exactly the runs the handler
  spawns, and it spawns no run that was spawned before.
\<close>
theorem accept_handler_refines_steps:
  assumes "case_steps ce (initial_system rows) s"
    and "accept_flow_case ce flow key v (sy_store s) = (result, st, spawned)"
  shows "\<exists>s'. case_steps ce s s' \<and> sy_store s' = st \<and> sy_spawned s' = spawned @ sy_spawned s
    \<and> set spawned \<inter> set (sy_spawned s) = {}"
proof -
  have inv: "case_inv ce s" by (rule case_steps_inv [OF assms(1) initial_system_inv])
  from accept_runs_to [OF inv assms(2)] obtain s' where s': "case_steps ce s s'" "sy_store s' = st"
    "sy_spawned s' = spawned @ sy_spawned s" unfolding runs_to_def by blast
  have "distinct (to_spawn s')" using case_invD(6) [OF case_steps_inv [OF s'(1) inv]] .
  with s' show ?thesis by (auto simp: to_spawn_def)
qed

theorem accept_handler_refines_steps_witness:
  "\<exists>s. case_steps example_case_env (initial_system example_rows) s \<and> sy_spawned s = [''f:kflow-run'']"
proof -
  let ?s = "initial_system example_rows"
  from example_first_accept obtain res st
    where "accept_flow_case example_case_env example_active ''k'' JNull (sy_store ?s) = (Inr res, st, [''f:kflow-run''])"
    by (auto simp: initial_system_def)
  from accept_handler_refines_steps [OF rtranclp.rtrancl_refl this] show ?thesis
    by (auto simp: initial_system_def)
qed



text \<open>
  A superseded case may still start.  When a handler has read an accepted case and is about to insert its
  run, and the case is superseded before that, the run is nevertheless inserted and spawned, and the
  stored case becomes started again: the update of a case does not check what is stored.  The
  documentation of the status says that only the replacing case may be started.
\<close>
theorem superseded_case_still_starts:
  assumes "(c, r) \<in> set (sy_starting s)"
    and "bt_get (cs_cases (sy_store s)) (fc_id c) = Some c'" and "fc_status c' = CaseSuperseded"
    and "bt_get (cs_runs (sy_store s)) (fr_id r) = None"
  shows "\<exists>s' c''. case_steps ce s s' \<and> fr_id r \<in> set (sy_spawned s')
    \<and> bt_get (cs_cases (sy_store s')) (fc_id c) = Some c'' \<and> fc_status c'' = CaseStarted
    \<and> fc_superseded_by c'' = fc_superseded_by c"
  using assms(1,2,4) by (rule prepared_case_starts)

theorem superseded_case_still_starts_witness:
  "\<exists>s. case_steps example_case_env (initial_system example_rows) s \<and> ''f:kflow-run'' \<in> set (sy_spawned s)"
proof -
  from example_race obtain s r where s: "case_steps example_case_env (initial_system example_rows) s"
    "(example_case, r) \<in> set (sy_starting s)" "fr_id r = ''f:kflow-run''"
    "bt_get (cs_cases (sy_store s)) ''f:k'' = Some superseded_case" "cs_runs (sy_store s) = []" by blast
  have "fc_id example_case = ''f:k''" "fc_status superseded_case = CaseSuperseded"
    by (simp_all add: example_case_def superseded_case_def)
  with superseded_case_still_starts [OF s(2), of superseded_case example_case_env] s
  obtain s' where "case_steps example_case_env s s'" "''f:kflow-run'' \<in> set (sy_spawned s')" by auto
  with s(1) show ?thesis by (meson rtranclp_trans)
qed

end
