(* ===== verification/Flow_Delivery.thy ===== *)
theory Flow_Delivery
  imports Flow_Case
begin

text \<open>
  Delivery of the output of a flow run: output specifications and delivery receipts
  (\<open>workflow_automation.rs\<close>), the table of receipts (\<open>store/workflow_automation_repository.rs\<close>), the delivery
  itself, its filter for credentials and the reconciliation of interrupted deliveries
  (\<open>workflow_delivery.rs\<close> of the server), and the requests of operators about it (\<open>flow_cases_api.rs\<close>,
  \<open>human_tasks_api.rs\<close>).

  The answer of the provider, of a webhook or of a connection operation, is an argument.  Between the accesses
  to the store the handlers interleave (\<open>delivery_step\<close>).
\<close>

section \<open>Output specifications\<close>

definition output_kind_name :: "workflow_output \<Rightarrow> string" where
  "output_kind_name out =
     (case out of
        InboxOutput \<Rightarrow> ''inbox''
      | WebhookOutput _ _ \<Rightarrow> ''webhook''
      | ConnectionOperationOutput _ \<Rightarrow> ''connection_operation''
      | HumanTaskOutput _ _ _ \<Rightarrow> ''human_task'')"

record parsed_url =
  pu_scheme :: string
  pu_username :: string
  pu_password :: "string option"
  pu_host :: "string option"

datatype output_error =
    BadEndpoint
  | EndpointScheme
  | EndpointCredentials
  | EndpointInsecure
  | EndpointTooLong
  | BadOutputText trigger_error

definition validate_webhook_endpoint :: "(string \<Rightarrow> parsed_url option) \<Rightarrow> string \<Rightarrow> output_error + unit" where
  \<comment> \<open>\<open>parse_url\<close> is the URL parser of \<open>reqwest\<close>\<close>
  "validate_webhook_endpoint parse_url endpoint =
     res_bind (ok_or (parse_url (trim endpoint)) BadEndpoint) (\<lambda>u.
     res_ensure (pu_scheme u \<in> {''http'', ''https''}) EndpointScheme
    (res_ensure (pu_username u = [] \<and> pu_password u = None) EndpointCredentials
    (res_ensure (pu_scheme u = ''http''
                 \<longrightarrow> (case pu_host u of Some h \<Rightarrow> h | None \<Rightarrow> []) \<in> {''localhost'', ''127.0.0.1'', ''::1''})
       EndpointInsecure
    (res_ensure (length endpoint \<le> 2048) EndpointTooLong (Inr ())))))"

definition validate_output ::
    "(string \<Rightarrow> parsed_url option) \<Rightarrow> workflow_output \<Rightarrow> output_error + unit" where
  "validate_output parse_url out =
     (case out of
        InboxOutput \<Rightarrow> Inr ()
      | ConnectionOperationOutput _ \<Rightarrow> Inr ()
      | WebhookOutput endpoint credential_ref \<Rightarrow>
          res_bind (validate_webhook_endpoint parse_url endpoint) (\<lambda>_.
          case credential_ref of
            None \<Rightarrow> Inr ()
          | Some reference \<Rightarrow> map_err BadOutputText (validate_credential_ref reference))
      | HumanTaskOutput title description assignee \<Rightarrow>
          map_err BadOutputText
           (res_bind (validate_bounded_text title ''HumanTask title'' 160) (\<lambda>_.
            res_bind (validate_bounded_text description ''HumanTask description'' 2000) (\<lambda>_.
            case assignee of
              None \<Rightarrow> Inr ()
            | Some a \<Rightarrow> validate_bounded_label a ''HumanTask assignee''))))"

section \<open>Receipts\<close>

datatype delivery_status =
    DeliveryPending | Delivered | DeliveryFailed | DeliveryWaitingHuman | DeliveryCancelled

fun delivery_status_str :: "delivery_status \<Rightarrow> string" where
  "delivery_status_str DeliveryPending = ''pending''"
| "delivery_status_str Delivered = ''delivered''"
| "delivery_status_str DeliveryFailed = ''failed''"
| "delivery_status_str DeliveryWaitingHuman = ''waiting_human''"
| "delivery_status_str DeliveryCancelled = ''cancelled''"

record delivery_receipt =
  dv_schema_version :: nat
  dv_id :: uuid
  dv_revision :: nat
  dv_run_id :: uuid
  dv_flow_revision_id :: uuid
  dv_output_kind :: string
  dv_status :: delivery_status
  dv_attempt :: nat
  dv_idempotency_key :: string
  dv_response_status :: "nat option"
  dv_provider_result :: "json option"
  dv_error :: "string option"
  dv_created_at :: timestamp
  dv_updated_at :: timestamp
  dv_delivered_at :: "timestamp option"

definition pending_receipt :: "runtime_env \<Rightarrow> uuid \<Rightarrow> uuid \<Rightarrow> string \<Rightarrow> delivery_receipt" where
  "pending_receipt env run_id flow_revision_id output_kind =
     \<lparr>dv_schema_version = automation_schema_version,
      dv_id = env_uuid_v5 env run_id ''workflow-output-delivery'', dv_revision = 1, dv_run_id = run_id,
      dv_flow_revision_id = flow_revision_id, dv_output_kind = output_kind, dv_status = DeliveryPending,
      dv_attempt = 0, dv_idempotency_key = ''workflow-output:'' @ run_id, dv_response_status = None,
      dv_provider_result = None, dv_error = None, dv_created_at = env_now env,
      dv_updated_at = env_now env, dv_delivered_at = None\<rparr>"

definition begin_attempt :: "timestamp \<Rightarrow> delivery_receipt \<Rightarrow> delivery_receipt" where
  "begin_attempt now d =
     d\<lparr>dv_revision := u32_sat_add (dv_revision d) 1, dv_attempt := u32_sat_add (dv_attempt d) 1,
       dv_status := DeliveryPending, dv_response_status := None, dv_provider_result := None,
       dv_error := None, dv_delivered_at := None, dv_updated_at := now\<rparr>"

definition mark_delivered ::
    "timestamp \<Rightarrow> nat option \<Rightarrow> json option \<Rightarrow> delivery_receipt \<Rightarrow> delivery_receipt" where
  "mark_delivered now response_status result d =
     d\<lparr>dv_revision := u32_sat_add (dv_revision d) 1, dv_status := Delivered,
       dv_response_status := response_status, dv_provider_result := result, dv_error := None,
       dv_delivered_at := Some now, dv_updated_at := now\<rparr>"

definition mark_receipt_failed :: "timestamp \<Rightarrow> nat option \<Rightarrow> string \<Rightarrow> delivery_receipt \<Rightarrow> delivery_receipt" where
  "mark_receipt_failed now response_status message d =
     d\<lparr>dv_revision := u32_sat_add (dv_revision d) 1, dv_status := DeliveryFailed,
       dv_response_status := response_status, dv_provider_result := None, dv_error := Some message,
       dv_delivered_at := None, dv_updated_at := now\<rparr>"

definition mark_waiting_human :: "timestamp \<Rightarrow> uuid \<Rightarrow> delivery_receipt \<Rightarrow> delivery_receipt" where
  "mark_waiting_human now task_id d =
     d\<lparr>dv_revision := u32_sat_add (dv_revision d) 1, dv_status := DeliveryWaitingHuman,
       dv_provider_result := Some (JObject [(''humanTaskId'', JString task_id)]), dv_error := None,
       dv_delivered_at := None, dv_updated_at := now\<rparr>"

definition mark_cancelled :: "timestamp \<Rightarrow> delivery_receipt \<Rightarrow> delivery_receipt" where
  "mark_cancelled now d =
     d\<lparr>dv_revision := u32_sat_add (dv_revision d) 1, dv_status := DeliveryCancelled,
       dv_delivered_at := None, dv_updated_at := now\<rparr>"

section \<open>The table of receipts\<close>

type_synonym receipts = "(uuid, delivery_receipt) btree"

datatype delivery_error =
    ReceiptConstraint string
  | ReceiptRevisionConflict nat
  | ReceiptNotFound uuid
  | NoFlowRevision
  | ReceiptRaceLost
  | BadCredentialReference
  | CredentialUnavailable string
  | DeliveryTaskError flow_error
  | NotRetryable
  | DeliveryRunNotFound
  | DeliveryStillFails "string option"
  | BadDeliveryAction
  | TaskClaimedByOther
  | TaskRefused human_task_error

definition get_receipt_for_run :: "uuid \<Rightarrow> receipts \<Rightarrow> delivery_receipt option" where
  "get_receipt_for_run run_id rows = find (\<lambda>d. dv_run_id d = run_id) (map snd rows)"

definition insert_delivery_receipt :: "delivery_receipt \<Rightarrow> receipts \<Rightarrow> delivery_error + receipts" where
  "insert_delivery_receipt d rows =
     (if bt_contains rows (dv_id d) then
        Inl (ReceiptConstraint ''UNIQUE constraint failed: flow_delivery_receipts.id'')
      else if get_receipt_for_run (dv_run_id d) rows \<noteq> None then
        Inl (ReceiptConstraint ''UNIQUE constraint failed: flow_delivery_receipts.run_id'')
      else Inr (bt_insert (dv_id d) d rows))"

definition update_delivery_receipt ::
    "delivery_receipt \<Rightarrow> nat \<Rightarrow> receipts \<Rightarrow> delivery_error + receipts" where
  "update_delivery_receipt d expected_revision rows =
     (case bt_get rows (dv_id d) of
        Some current \<Rightarrow>
          if dv_revision current = expected_revision then Inr (bt_insert (dv_id d) d rows)
          else Inl (ReceiptRevisionConflict (u32_try (dv_revision current)))
      | None \<Rightarrow> Inl (ReceiptNotFound (dv_id d)))"

section \<open>The filter for credentials\<close>

definition sensitive_names :: "string list" where
  "sensitive_names =
     [''password'', ''secret'', ''credential'', ''credentials'', ''api_key'', ''apikey'', ''access_token'',
      ''accesstoken'', ''refresh_token'', ''refreshtoken'', ''authorization'']"

definition normalized_key :: "string \<Rightarrow> string" where
  \<comment> \<open>\<open>to_ascii_lowercase().replace('-', "_")\<close>\<close>
  "normalized_key key = map (\<lambda>c. if c = CHR ''-'' then CHR ''_'' else c) (to_ascii_lowercase key)"

definition sensitive_key :: "string \<Rightarrow> bool" where
  "sensitive_key key \<longleftrightarrow>
     normalized_key key \<in> set sensitive_names \<or> ends_with (normalized_key key) ''_password''
     \<or> ends_with (normalized_key key) ''_secret''"

fun find_sensitive_field :: "json \<Rightarrow> string \<Rightarrow> string option \<Rightarrow> string option"
  and find_in_fields :: "(string \<times> json) list \<Rightarrow> string \<Rightarrow> string option \<Rightarrow> string option"
  and find_in_items :: "json list \<Rightarrow> nat \<Rightarrow> string \<Rightarrow> string option \<Rightarrow> string option" where
  "find_sensitive_field v path found =
     (if found \<noteq> None then found
      else case v of
        JObject entries \<Rightarrow> find_in_fields entries path found
      | JArray vs \<Rightarrow> find_in_items vs 0 path found
      | _ \<Rightarrow> found)"
| "find_in_fields [] path found = found"
| "find_in_fields ((key, child) # entries) path found =
     (if sensitive_key key then Some (path @ ''.'' @ key)
      else find_in_fields entries path (find_sensitive_field child (path @ ''.'' @ key) found))"
| "find_in_items [] index path found = found"
| "find_in_items (child # vs) index path found =
     find_in_items vs (index + 1) path
       (find_sensitive_field child (path @ ''['' @ show_nat index @ '']'') found)"

definition validate_outbound_payload :: "(json \<Rightarrow> string) \<Rightarrow> json \<Rightarrow> string + unit" where
  \<comment> \<open>\<open>to_vec\<close> is the serialisation to bytes\<close>
  "validate_outbound_payload to_vec v =
     res_ensure (length (to_vec v) \<le> 1048576) ''Outbound payload exceeds the 1 MiB DLP boundary''
       (case find_sensitive_field v ''$output'' None of
          Some path \<Rightarrow>
            Inl (''Outbound DLP blocked credential-like field '' @ path @ ''; use a credentialRef instead'')
        | None \<Rightarrow> Inr ())"

section \<open>Delivery\<close>

record delivery_store =
  dl_receipts :: receipts
  dl_tasks :: "(uuid, human_task) btree"

record delivered_run =
  \<comment> \<open>what the delivery reads of a flow run\<close>
  ru_id :: uuid
  ru_thread_id :: uuid
  ru_output :: "json option"
  ru_revision_id :: "uuid option"
  ru_revision :: "flow_revision_v1 option"

datatype webhook_result = WebhookResponse nat string | WebhookError string

text \<open>
  The world outside: the serialisation and the text of a schema error, the environment variables, the answer
  to the request of a webhook, and the result of a connection operation (the message of a refusal or of
  an error, or its result).
\<close>

record delivery_env =
  de_env :: runtime_env
  de_to_vec :: "json \<Rightarrow> string"
  de_schema_text :: "schema_error \<Rightarrow> string"
  de_default_text :: string
  de_env_var :: "string \<Rightarrow> string option"
  de_send :: webhook_result
  de_operation :: "string + json"

definition obtain_receipt ::
    "runtime_env \<Rightarrow> uuid \<Rightarrow> uuid \<Rightarrow> string \<Rightarrow> receipts \<Rightarrow> delivery_error + delivery_receipt \<times> receipts" where
  "obtain_receipt env run_id revision_id kind rows =
     (case get_receipt_for_run run_id rows of
        Some d \<Rightarrow> Inr (d, rows)
      | None \<Rightarrow>
          (let candidate = pending_receipt env run_id revision_id kind in
           case insert_delivery_receipt candidate rows of
             Inr rows' \<Rightarrow> Inr (candidate, rows')
           | Inl _ \<Rightarrow> res_bind (ok_or (get_receipt_for_run run_id rows) ReceiptRaceLost) (\<lambda>d. Inr (d, rows))))"

definition may_attempt :: "bool \<Rightarrow> delivery_receipt \<Rightarrow> bool" where
  "may_attempt force d \<longleftrightarrow>
     (case dv_status d of
        Delivered \<Rightarrow> False
      | DeliveryWaitingHuman \<Rightarrow> False
      | DeliveryCancelled \<Rightarrow> False
      | DeliveryPending \<Rightarrow> force \<or> dv_attempt d = 0
      | DeliveryFailed \<Rightarrow> force)"

definition payload_of :: "delivered_run \<Rightarrow> json" where
  "payload_of run = (case ru_output run of Some v \<Rightarrow> v | None \<Rightarrow> JNull)"

definition leaves_server :: "workflow_output \<Rightarrow> bool" where
  "leaves_server out \<longleftrightarrow>
     (case out of WebhookOutput _ _ \<Rightarrow> True | ConnectionOperationOutput _ \<Rightarrow> True | _ \<Rightarrow> False)"

definition output_validation :: "delivery_env \<Rightarrow> flow_revision_v1 \<Rightarrow> json \<Rightarrow> string + unit" where
  "output_validation de revision v =
     res_bind
       (map_err (\<lambda>e. ''Output schema validation failed: '' @ de_schema_text de e)
          (validate_value_against_schema (wf1_output_schema (rev_compiled_workflow revision)) v ''$output''))
       (\<lambda>_. if leaves_server (rev_output revision) then validate_outbound_payload (de_to_vec de) v else Inr ())"

definition bounded_provider_text :: "string \<Rightarrow> string" where
  "bounded_provider_text = take 2000"

definition webhook_credential :: "delivery_env \<Rightarrow> string option \<Rightarrow> delivery_error + unit" where
  "webhook_credential de credential_ref =
     (case credential_ref of
        None \<Rightarrow> Inr ()
      | Some reference \<Rightarrow>
          res_bind (ok_or (strip_prefix reference ''env:'') BadCredentialReference) (\<lambda>name.
          res_bind (ok_or (de_env_var de name) (CredentialUnavailable name)) (\<lambda>_. Inr ())))"

definition webhook_answer :: "delivery_env \<Rightarrow> delivery_receipt \<Rightarrow> delivery_receipt" where
  "webhook_answer de d =
     (let now = env_now (de_env de) in
      case de_send de of
        WebhookResponse code body \<Rightarrow>
          if 200 \<le> code \<and> code < 300 then
            mark_delivered now (Some code) (Some (JObject [(''body'', JString (bounded_provider_text body))])) d
          else mark_receipt_failed now (Some code) (''Webhook returned HTTP '' @ show_nat code) d
      | WebhookError message \<Rightarrow> mark_receipt_failed now None (''Webhook delivery failed: '' @ message) d)"

definition operation_answer :: "delivery_env \<Rightarrow> delivery_receipt \<Rightarrow> delivery_receipt" where
  "operation_answer de d =
     (let now = env_now (de_env de) in
      case de_operation de of
        Inr result \<Rightarrow> mark_delivered now None (Some result) d
      | Inl message \<Rightarrow> mark_receipt_failed now None (''Connection output failed: '' @ message) d)"

definition hand_over ::
    "runtime_env \<Rightarrow> delivered_run \<Rightarrow> uuid \<Rightarrow> string \<Rightarrow> string \<Rightarrow> string option \<Rightarrow> delivery_receipt
      \<Rightarrow> (uuid, human_task) btree \<Rightarrow> delivery_receipt \<times> (uuid, human_task) btree" where
  "hand_over env run revision_id title description assigned_to d tasks =
     (let task = delivery_handoff env (ru_thread_id run) (dv_id d) title description assigned_to
            (json_of_map [(''runId'', JString (ru_id run)), (''flowRevisionId'', JString revision_id),
              (''output'', payload_of run)]) in
      case insert_human_task_row task tasks of
        Inr tasks' \<Rightarrow> (mark_waiting_human (env_now env) (ht_id task) d, tasks')
      | Inl e \<Rightarrow>
          if bt_contains tasks (ht_id task) then (mark_waiting_human (env_now env) (ht_id task) d, tasks)
          else (mark_receipt_failed (env_now env) None (''HumanTask creation failed: '' @ flow_error_str e) d, tasks))"

definition attempt_outcome ::
    "delivery_env \<Rightarrow> uuid \<Rightarrow> flow_revision_v1 \<Rightarrow> delivered_run \<Rightarrow> delivery_receipt \<Rightarrow> (uuid, human_task) btree
      \<Rightarrow> delivery_error + (delivery_receipt \<times> (uuid, human_task) btree \<times> bool)" where
  \<comment> \<open>the receipt after a claimed attempt, the tasks, and whether the provider may have been called\<close>
  "attempt_outcome de revision_id revision run d tasks =
     (let now = env_now (de_env de) in
      case output_validation de revision (payload_of run) of
        Inl message \<Rightarrow> Inr (mark_receipt_failed now None message d, tasks, False)
      | Inr _ \<Rightarrow>
          (case rev_output revision of
             InboxOutput \<Rightarrow>
               Inr (mark_delivered now None (Some (JObject [(''stored'', JString ''flow_run.output'')])) d, tasks, False)
           | WebhookOutput endpoint credential_ref \<Rightarrow>
               res_bind (webhook_credential de credential_ref) (\<lambda>_. Inr (webhook_answer de d, tasks, True))
           | ConnectionOperationOutput operation \<Rightarrow> Inr (operation_answer de d, tasks, True)
           | HumanTaskOutput title description assigned_to \<Rightarrow>
               (case hand_over (de_env de) run revision_id title description assigned_to d tasks of
                  (d', tasks') \<Rightarrow> Inr (d', tasks', False))))"

definition recovery_payload :: "delivered_run \<Rightarrow> delivery_receipt \<Rightarrow> json" where
  "recovery_payload run d =
     json_of_map [(''runId'', JString (ru_id run)), (''flowRevisionId'', JString (dv_flow_revision_id d)),
       (''receiptId'', JString (dv_id d)), (''attempt'', nat_json (dv_attempt d)),
       (''outputKind'', JString (dv_output_kind d)),
       (''error'', case dv_error d of Some m \<Rightarrow> JString m | None \<Rightarrow> JNull)]"

definition ensure_delivery_recovery_task ::
    "delivery_env \<Rightarrow> delivered_run \<Rightarrow> delivery_receipt \<Rightarrow> delivery_store \<Rightarrow> delivery_error + delivery_store" where
  "ensure_delivery_recovery_task de run d st =
     (let task = delivery_recovery (de_env de) (ru_thread_id run) (dv_id d)
            (case dv_error d of Some m \<Rightarrow> m | None \<Rightarrow> de_default_text de) (recovery_payload run d) in
      if bt_contains (dl_tasks st) (ht_id task) then Inr st
      else res_bind (map_err DeliveryTaskError (insert_human_task_row task (dl_tasks st)))
             (\<lambda>tasks. Inr (st\<lparr>dl_tasks := tasks\<rparr>)))"

definition finish_delivery ::
    "delivery_env \<Rightarrow> delivered_run \<Rightarrow> nat \<Rightarrow> delivery_receipt \<Rightarrow> delivery_store
      \<Rightarrow> (delivery_error + delivery_receipt) \<times> delivery_store" where
  \<comment> \<open>the last write and the task for a failed delivery\<close>
  "finish_delivery de run claimed_revision d st =
     (case update_delivery_receipt d claimed_revision (dl_receipts st) of
        Inl e \<Rightarrow> (Inl e, st)
      | Inr rows \<Rightarrow>
          (let st' = st\<lparr>dl_receipts := rows\<rparr> in
           if dv_status d = DeliveryFailed then
             (case ensure_delivery_recovery_task de run d st' of
                Inl e \<Rightarrow> (Inl e, st')
              | Inr st'' \<Rightarrow> (Inr d, st''))
           else (Inr d, st')))"

definition claim_and_deliver ::
    "delivery_env \<Rightarrow> delivered_run \<Rightarrow> uuid \<Rightarrow> flow_revision_v1 \<Rightarrow> delivery_receipt \<Rightarrow> delivery_store
      \<Rightarrow> (delivery_error + delivery_receipt) \<times> delivery_store \<times> bool" where
  "claim_and_deliver de run revision_id revision d st =
     (let claimed = begin_attempt (env_now (de_env de)) d in
      case update_delivery_receipt claimed (dv_revision d) (dl_receipts st) of
        Inl _ \<Rightarrow> (ok_or (get_receipt_for_run (ru_id run) (dl_receipts st)) ReceiptRaceLost, st, False)
      | Inr rows \<Rightarrow>
          (let st1 = st\<lparr>dl_receipts := rows\<rparr> in
           case attempt_outcome de revision_id revision run claimed (dl_tasks st1) of
             Inl e \<Rightarrow> (Inl e, st1, False)
           | Inr (d', tasks, called) \<Rightarrow>
               (case finish_delivery de run (dv_revision claimed) d' (st1\<lparr>dl_tasks := tasks\<rparr>) of
                  (result, st') \<Rightarrow> (result, st', called))))"

definition deliver_run_output ::
    "delivery_env \<Rightarrow> delivered_run \<Rightarrow> bool \<Rightarrow> delivery_store
      \<Rightarrow> (delivery_error + delivery_receipt) \<times> delivery_store \<times> bool" where
  \<comment> \<open>without interference: the answer, the store and whether the provider may have been called\<close>
  "deliver_run_output de run force st =
     (case (ru_revision_id run, ru_revision run) of
        (Some revision_id, Some revision) \<Rightarrow>
          (case obtain_receipt (de_env de) (ru_id run) revision_id (output_kind_name (rev_output revision))
                  (dl_receipts st) of
             Inl e \<Rightarrow> (Inl e, st, False)
           | Inr (d, rows) \<Rightarrow>
               if may_attempt force d then
                 claim_and_deliver de run revision_id revision d (st\<lparr>dl_receipts := rows\<rparr>)
               else (Inr d, st\<lparr>dl_receipts := rows\<rparr>, False))
      | _ \<Rightarrow> (Inl NoFlowRevision, st, False))"

section \<open>Interrupted deliveries\<close>

definition interrupted_message :: string where
  "interrupted_message =
     ''Delivery was interrupted; provider outcome is indeterminate. Inspect before retrying.''"

definition is_interrupted :: "timestamp \<Rightarrow> delivery_receipt \<Rightarrow> bool" where
  \<comment> \<open>pending, claimed, and unchanged for 30 seconds\<close>
  "is_interrupted now d \<longleftrightarrow>
     dv_status d = DeliveryPending \<and> dv_attempt d \<noteq> 0 \<and> \<not> now - 30 * 1000000000 < dv_updated_at d"

definition reconcile_receipt ::
    "delivery_env \<Rightarrow> (uuid \<Rightarrow> delivered_run option) \<Rightarrow> delivery_receipt \<Rightarrow> delivery_store
      \<Rightarrow> (delivery_error + unit) \<times> delivery_store" where
  \<comment> \<open>the body of the loop\<close>
  "reconcile_receipt de get_run d st =
     (if \<not> is_interrupted (env_now (de_env de)) d then (Inr (), st)
      else
        (let d' = mark_receipt_failed (env_now (de_env de)) None interrupted_message d in
         case update_delivery_receipt d' (dv_revision d) (dl_receipts st) of
           Inl _ \<Rightarrow> (Inr (), st)
         | Inr rows \<Rightarrow>
             (let st' = st\<lparr>dl_receipts := rows\<rparr> in
              case get_run (dv_run_id d') of
                None \<Rightarrow> (Inr (), st')
              | Some run \<Rightarrow>
                  (case ensure_delivery_recovery_task de run d' st' of
                     Inl e \<Rightarrow> (Inl e, st')
                   | Inr st'' \<Rightarrow> (Inr (), st'')))))"

fun reconcile_all ::
    "delivery_env \<Rightarrow> (uuid \<Rightarrow> delivered_run option) \<Rightarrow> delivery_receipt list \<Rightarrow> delivery_store
      \<Rightarrow> (delivery_error + unit) \<times> delivery_store" where
  "reconcile_all de get_run [] st = (Inr (), st)"
| "reconcile_all de get_run (d # ds) st =
     (case reconcile_receipt de get_run d st of
        (Inl e, st') \<Rightarrow> (Inl e, st')
      | (Inr _, st') \<Rightarrow> reconcile_all de get_run ds st')"

definition reconcile_interrupted_deliveries ::
    "delivery_env \<Rightarrow> (uuid \<Rightarrow> delivered_run option) \<Rightarrow> (receipts \<Rightarrow> delivery_receipt list) \<Rightarrow> delivery_store
      \<Rightarrow> (delivery_error + unit) \<times> delivery_store" where
  \<comment> \<open>\<open>newest\<close> orders the pending receipts by the time of their last change; at most 500 are read\<close>
  "reconcile_interrupted_deliveries de get_run newest st =
     reconcile_all de get_run
       (take 500 (newest (filter (\<lambda>(_, d). dv_status d = DeliveryPending) (dl_receipts st)))) st"

section \<open>Requests of operators\<close>

definition retry_flow_delivery ::
    "delivery_env \<Rightarrow> (uuid \<Rightarrow> delivered_run option) \<Rightarrow> uuid \<Rightarrow> nat \<Rightarrow> delivery_store
      \<Rightarrow> (delivery_error + delivery_receipt) \<times> delivery_store \<times> bool" where
  "retry_flow_delivery de get_run receipt_id expected_revision st =
     (case bt_get (dl_receipts st) receipt_id of
        None \<Rightarrow> (Inl (ReceiptNotFound receipt_id), st, False)
      | Some d \<Rightarrow>
          if dv_revision d \<noteq> expected_revision then (Inl (ReceiptRevisionConflict (dv_revision d)), st, False)
          else if dv_status d \<notin> {DeliveryFailed, DeliveryPending} then (Inl NotRetryable, st, False)
          else
            (case get_run (dv_run_id d) of
               None \<Rightarrow> (Inl DeliveryRunNotFound, st, False)
             | Some run \<Rightarrow> deliver_run_output de run True st))"

definition settle_delivery ::
    "delivery_env \<Rightarrow> (uuid \<Rightarrow> delivered_run option) \<Rightarrow> human_task \<Rightarrow> human_task_action \<Rightarrow> delivery_receipt
      \<Rightarrow> delivery_store \<Rightarrow> (delivery_error + delivery_receipt) \<times> delivery_store \<times> bool" where
  \<comment> \<open>what the decision about the task does to the receipt\<close>
  "settle_delivery de get_run task action d st =
     (let now = env_now (de_env de);
          write = (\<lambda>d'. case update_delivery_receipt d' (dv_revision d) (dl_receipts st) of
                      Inl e \<Rightarrow> (Inl e, st, False)
                    | Inr rows \<Rightarrow> (Inr d', st\<lparr>dl_receipts := rows\<rparr>, False)) in
      if ht_task_type task = TaskRecovery \<and> action = RetryAction then
        (case get_run (dv_run_id d) of
           None \<Rightarrow> (Inl DeliveryRunNotFound, st, False)
         | Some run \<Rightarrow>
             (case deliver_run_output de run True st of
                (Inr d', st', called) \<Rightarrow>
                  (if dv_status d' = DeliveryFailed then Inl (DeliveryStillFails (dv_error d')) else Inr d', st', called)
              | failure \<Rightarrow> failure))
      else if ht_task_type task \<in> {TaskRecovery, TaskManual} \<and> action = CancelAction then
        write (mark_cancelled now d)
      else if ht_task_type task = TaskManual \<and> action = AcknowledgeAction then
        write (mark_delivered now None
          (Some (json_of_map [(''acknowledgedBy'', JString ''local_operator''), (''humanTaskId'', JString (ht_id task))])) d)
      else (Inl BadDeliveryAction, st, False))"

definition resolve_delivery_human_task ::
    "delivery_env \<Rightarrow> (uuid \<Rightarrow> delivered_run option) \<Rightarrow> resolve_request \<Rightarrow> string \<Rightarrow> human_task \<Rightarrow> delivery_store
      \<Rightarrow> (delivery_error + human_task \<times> delivery_receipt) \<times> delivery_store \<times> bool" where
  "resolve_delivery_human_task de get_run q key task st =
     (if (case ht_claimed_by task of Some holder \<Rightarrow> holder \<noteq> ''local_operator'' | None \<Rightarrow> False) then
        (Inl TaskClaimedByOther, st, False)
      else
        (case bt_get (dl_receipts st) (ht_source_id task) of
           None \<Rightarrow> (Inl (ReceiptNotFound (ht_source_id task)), st, False)
         | Some d \<Rightarrow>
             (case settle_delivery de get_run task (rq_action q) d st of
                (Inl e, st', called) \<Rightarrow> (Inl e, st', called)
              | (Inr d', st', called) \<Rightarrow>
                  (case resolve_with_command (de_env de) (rq_action q) (rq_note q) ''local_operator''
                          (Some (env_uuid_v5 (de_env de) (ht_id task) key)) (Some key) (rq_response q) task of
                     Inl e \<Rightarrow> (Inl (TaskRefused e), st', called)
                   | Inr task' \<Rightarrow>
                       (case update_human_task_row task' (rq_expected_revision q) (dl_tasks st') of
                          Inl e \<Rightarrow> (Inl (DeliveryTaskError e), st', called)
                        | Inr tasks \<Rightarrow> (Inr (task', d'), st'\<lparr>dl_tasks := tasks\<rparr>, called))))))"

section \<open>What the filter finds\<close>

inductive mentions :: "string \<Rightarrow> json \<Rightarrow> bool" where
  here: "(key, child) \<in> set entries \<Longrightarrow> mentions key (JObject entries)"
| below: "(name, child) \<in> set entries \<Longrightarrow> mentions key child \<Longrightarrow> mentions key (JObject entries)"
| item: "child \<in> set vs \<Longrightarrow> mentions key child \<Longrightarrow> mentions key (JArray vs)"

inductive_simps mentions_simps [simp]:
  "mentions key JNull" "mentions key (JBool b)" "mentions key (JNumber n)" "mentions key (JString t)"
  "mentions key (JArray vs)" "mentions key (JObject entries)"

declare find_sensitive_field.simps [simp del]

lemma find_keeps:
  "find_sensitive_field v path (Some p) = Some p"
  "find_in_fields entries path (Some p) \<noteq> None"
  "find_in_items vs index path (Some p) = Some p"
proof -
  show "find_sensitive_field v path (Some p) = Some p" by (simp add: find_sensitive_field.simps)
  show "find_in_fields entries path (Some p) \<noteq> None"
    by (induction entries arbitrary: p) (auto simp: find_sensitive_field.simps)
  show "find_in_items vs index path (Some p) = Some p"
    by (induction vs arbitrary: index) (auto simp: find_sensitive_field.simps)
qed

definition free_of_secrets :: "json \<Rightarrow> bool" where
  "free_of_secrets v \<longleftrightarrow> (\<forall>key. sensitive_key key \<longrightarrow> \<not> mentions key v)"

lemma free_of_secrets_simps [simp]:
  "free_of_secrets JNull" "free_of_secrets (JBool b)" "free_of_secrets (JNumber n)" "free_of_secrets (JString t)"
  "free_of_secrets (JArray vs) \<longleftrightarrow> (\<forall>v \<in> set vs. free_of_secrets v)"
  "free_of_secrets (JObject entries) \<longleftrightarrow>
     (\<forall>(key, v) \<in> set entries. \<not> sensitive_key key \<and> free_of_secrets v)"
  by (fastforce simp: free_of_secrets_def)+

lemma no_sensitive_field_iff:
  "find_sensitive_field v path None = None \<longleftrightarrow> free_of_secrets v"
  "find_in_fields entries path None = None \<longleftrightarrow> (\<forall>(key, v) \<in> set entries. \<not> sensitive_key key \<and> free_of_secrets v)"
  "find_in_items vs index path None = None \<longleftrightarrow> (\<forall>v \<in> set vs. free_of_secrets v)"
proof (induction v path "None :: string option" and entries path "None :: string option" and vs index path "None :: string option"
    rule: find_sensitive_field_find_in_fields_find_in_items.induct)
  case (1 v path)
  then show ?case by (cases v) (simp_all add: find_sensitive_field.simps)
next
  case (3 key child entries path)
  then show ?case
    by (cases "find_sensitive_field child (path @ ''.'' @ key) None") (auto simp: find_keeps(2))
next
  case (5 child vs index path)
  then show ?case
    by (cases "find_sensitive_field child (path @ ''['' @ show_nat index @ '']'') None") (auto simp: find_keeps(3))
qed simp_all

lemma validate_outbound_payload_iff:
  "validate_outbound_payload to_vec v = Inr () \<longleftrightarrow> length (to_vec v) \<le> 1048576 \<and> free_of_secrets v"
  using no_sensitive_field_iff(1) [of v "''$output''"]
  by (auto simp: validate_outbound_payload_def res_ensure_def split: option.splits)


section \<open>Interleaved deliveries\<close>

text \<open>
  Handlers run concurrently.  The state has the receipts some process has read and may write about
  (\<open>ds_seen\<close>), the handlers that have read or created a receipt (\<open>ds_handlers\<close>), those that have claimed it
  (\<open>ds_claimed\<close>) and those that have a result to write (\<open>ds_results\<close>, with the revision the write
  expects).  A flag tells the retry of an operator from a delivery the server starts on its own.  Two logs
  record the retries and the calls of the provider, by run.
\<close>

record delivery_system =
  ds_store :: delivery_store
  ds_seen :: "delivery_receipt set"
  ds_handlers :: "(bool \<times> delivery_receipt) multiset"
  ds_claimed :: "(bool \<times> delivery_receipt) multiset"
  ds_results :: "(nat \<times> delivery_receipt) multiset"
  ds_retries :: "uuid multiset"
  ds_calls :: "(bool \<times> uuid) multiset"

definition retry_log :: "bool \<Rightarrow> uuid \<Rightarrow> uuid multiset" where
  "retry_log force run_id = (if force then {#run_id#} else {#})"

inductive delivery_step :: "delivery_system \<Rightarrow> delivery_system \<Rightarrow> bool" where
  create: "insert_delivery_receipt (pending_receipt env run_id revision_id kind) (dl_receipts (ds_store s)) = Inr rows
    \<Longrightarrow> delivery_step s (s\<lparr>ds_store := (ds_store s)\<lparr>dl_receipts := rows\<rparr>,
          ds_handlers := add_mset (force, pending_receipt env run_id revision_id kind) (ds_handlers s),
          ds_retries := retry_log force run_id + ds_retries s\<rparr>)"
| read: "get_receipt_for_run run_id (dl_receipts (ds_store s)) = Some d
    \<Longrightarrow> delivery_step s (s\<lparr>ds_handlers := add_mset (force, d) (ds_handlers s),
          ds_retries := retry_log force run_id + ds_retries s\<rparr>)"
| claim: "(force, d) \<in># ds_handlers s \<Longrightarrow> may_attempt force d
    \<Longrightarrow> update_delivery_receipt (begin_attempt now d) (dv_revision d) (dl_receipts (ds_store s)) = Inr rows
    \<Longrightarrow> delivery_step s (s\<lparr>ds_store := (ds_store s)\<lparr>dl_receipts := rows\<rparr>,
          ds_handlers := ds_handlers s - {#(force, d)#},
          ds_claimed := add_mset (force, begin_attempt now d) (ds_claimed s)\<rparr>)"
| attempt: "(force, d) \<in># ds_claimed s
    \<Longrightarrow> attempt_outcome de revision_id revision run d (dl_tasks (ds_store s)) = Inr (d', tasks, called)
    \<Longrightarrow> delivery_step s (s\<lparr>ds_store := (ds_store s)\<lparr>dl_tasks := tasks\<rparr>,
          ds_claimed := ds_claimed s - {#(force, d)#}, ds_results := add_mset (dv_revision d, d') (ds_results s),
          ds_calls := (if called then {#(force, dv_run_id d)#} else {#}) + ds_calls s\<rparr>)"
| finish: "(expected, d) \<in># ds_results s
    \<Longrightarrow> update_delivery_receipt d expected (dl_receipts (ds_store s)) = Inr rows
    \<Longrightarrow> delivery_step s (s\<lparr>ds_store := (ds_store s)\<lparr>dl_receipts := rows\<rparr>,
          ds_results := ds_results s - {#(expected, d)#}\<rparr>)"
| give_up: "h \<subseteq># ds_handlers s \<Longrightarrow> c \<subseteq># ds_claimed s \<Longrightarrow> w \<subseteq># ds_results s
    \<Longrightarrow> delivery_step s (s\<lparr>ds_handlers := h, ds_claimed := c, ds_results := w\<rparr>)"
| look: "bt_get (dl_receipts (ds_store s)) i = Some d \<Longrightarrow> delivery_step s (s\<lparr>ds_seen := insert d (ds_seen s)\<rparr>)"
| reconcile: "d \<in> ds_seen s \<Longrightarrow> is_interrupted now d
    \<Longrightarrow> update_delivery_receipt (mark_receipt_failed now None interrupted_message d) (dv_revision d)
          (dl_receipts (ds_store s)) = Inr rows
    \<Longrightarrow> delivery_step s (s\<lparr>ds_store := (ds_store s)\<lparr>dl_receipts := rows\<rparr>\<rparr>)"
| cancel: "d \<in> ds_seen s
    \<Longrightarrow> update_delivery_receipt (mark_cancelled now d) (dv_revision d) (dl_receipts (ds_store s)) = Inr rows
    \<Longrightarrow> delivery_step s (s\<lparr>ds_store := (ds_store s)\<lparr>dl_receipts := rows\<rparr>\<rparr>)"
| acknowledge: "d \<in> ds_seen s
    \<Longrightarrow> update_delivery_receipt (mark_delivered now None result d) (dv_revision d) (dl_receipts (ds_store s)) = Inr rows
    \<Longrightarrow> delivery_step s (s\<lparr>ds_store := (ds_store s)\<lparr>dl_receipts := rows\<rparr>\<rparr>)"
| tasks: "delivery_step s (s\<lparr>ds_store := (ds_store s)\<lparr>dl_tasks := tasks\<rparr>\<rparr>)"
| restart: "delivery_step s (s\<lparr>ds_seen := {}, ds_handlers := {#}, ds_claimed := {#}, ds_results := {#}\<rparr>)"

abbreviation delivery_steps :: "delivery_system \<Rightarrow> delivery_system \<Rightarrow> bool" where
  "delivery_steps \<equiv> delivery_step\<^sup>*\<^sup>*"

definition initial_deliveries :: "(uuid, human_task) btree \<Rightarrow> delivery_system" where
  "initial_deliveries tasks =
     \<lparr>ds_store = \<lparr>dl_receipts = [], dl_tasks = tasks\<rparr>, ds_seen = {}, ds_handlers = {#}, ds_claimed = {#},
      ds_results = {#}, ds_retries = {#}, ds_calls = {#}\<rparr>"

subsection \<open>The invariant\<close>

definition receipts_ok :: "receipts \<Rightarrow> bool" where
  "receipts_ok rows \<longleftrightarrow>
     bt_inv rows \<and> (\<forall>i d. bt_get rows i = Some d \<longrightarrow> dv_id d = i \<and> 1 \<le> dv_revision d)
     \<and> (\<forall>i j d e. bt_get rows i = Some d \<and> bt_get rows j = Some e \<and> dv_run_id d = dv_run_id e \<longrightarrow> i = j)"

definition untouched :: "delivery_receipt \<Rightarrow> bool" where
  "untouched d \<longleftrightarrow> dv_status d = DeliveryPending \<and> dv_attempt d = 0"

definition copy_of :: "receipts \<Rightarrow> delivery_receipt \<Rightarrow> bool" where
  "copy_of rows d \<longleftrightarrow>
     1 \<le> dv_revision d \<and> (untouched d \<longrightarrow> dv_revision d = 1)
     \<and> (\<exists>e. bt_get rows (dv_id d) = Some e \<and> dv_run_id e = dv_run_id d)"

definition touched_run :: "receipts \<Rightarrow> uuid \<Rightarrow> bool" where
  "touched_run rows run_id \<longleftrightarrow> (\<exists>i d. bt_get rows i = Some d \<and> dv_run_id d = run_id \<and> 2 \<le> dv_revision d)"

definition by_run :: "bool \<Rightarrow> uuid \<Rightarrow> (bool \<times> delivery_receipt) multiset \<Rightarrow> nat" where
  "by_run force run_id hs = count (image_mset (map_prod id dv_run_id) hs) (force, run_id)"

definition delivery_inv :: "delivery_system \<Rightarrow> bool" where
  "delivery_inv s \<longleftrightarrow>
     (let rows = dl_receipts (ds_store s) in
      receipts_ok rows
      \<and> (\<forall>i d. bt_get rows i = Some d \<longrightarrow> untouched d \<longrightarrow> dv_revision d = 1)
      \<and> (\<forall>d. d \<in> ds_seen s \<longrightarrow> copy_of rows d) \<and> (\<forall>b d. (b, d) \<in># ds_handlers s \<longrightarrow> copy_of rows d)
      \<and> (\<forall>b d. (b, d) \<in># ds_claimed s \<longrightarrow> copy_of rows d \<and> 2 \<le> dv_revision d \<and> \<not> untouched d)
      \<and> (\<forall>n d. (n, d) \<in># ds_results s \<longrightarrow> copy_of rows d \<and> 2 \<le> dv_revision d \<and> \<not> untouched d)
      \<and> (\<forall>r. count (ds_calls s) (False, r) + by_run False r (ds_claimed s) \<le> (if touched_run rows r then 1 else 0))
      \<and> (\<forall>r. count (ds_calls s) (True, r) + by_run True r (ds_claimed s) + by_run True r (ds_handlers s)
           \<le> count (ds_retries s) r))"


lemma delivery_invD:
  assumes "delivery_inv s"
  shows "receipts_ok (dl_receipts (ds_store s))"
    and "bt_get (dl_receipts (ds_store s)) i = Some d \<Longrightarrow> copy_of (dl_receipts (ds_store s)) d"
    and "d \<in> ds_seen s \<Longrightarrow> copy_of (dl_receipts (ds_store s)) d"
    and "(force, d) \<in># ds_handlers s \<Longrightarrow> copy_of (dl_receipts (ds_store s)) d"
    and "(force, d) \<in># ds_claimed s \<Longrightarrow> copy_of (dl_receipts (ds_store s)) d \<and> 2 \<le> dv_revision d \<and> \<not> untouched d"
    and "(n, d) \<in># ds_results s \<Longrightarrow> copy_of (dl_receipts (ds_store s)) d \<and> 2 \<le> dv_revision d \<and> \<not> untouched d"
    and "count (ds_calls s) (False, r) + by_run False r (ds_claimed s) \<le> (if touched_run (dl_receipts (ds_store s)) r then 1 else 0)"
    and "count (ds_calls s) (True, r) + by_run True r (ds_claimed s) + by_run True r (ds_handlers s) \<le> count (ds_retries s) r"
proof -
  let ?rows = "dl_receipts (ds_store s)"
  show ok: "receipts_ok ?rows" and "count (ds_calls s) (False, r) + by_run False r (ds_claimed s) \<le> (if touched_run ?rows r then 1 else 0)"
    and "count (ds_calls s) (True, r) + by_run True r (ds_claimed s) + by_run True r (ds_handlers s) \<le> count (ds_retries s) r"
    using assms unfolding delivery_inv_def Let_def by blast+
  have "untouched d \<longrightarrow> dv_revision d = 1" if "bt_get ?rows i = Some d"
    using assms that unfolding delivery_inv_def Let_def by blast
  then show "bt_get ?rows i = Some d \<Longrightarrow> copy_of ?rows d"
    using ok by (simp add: copy_of_def receipts_ok_def)
  show "d \<in> ds_seen s \<Longrightarrow> copy_of ?rows d" "(force, d) \<in># ds_handlers s \<Longrightarrow> copy_of ?rows d"
    "(force, d) \<in># ds_claimed s \<Longrightarrow> copy_of ?rows d \<and> 2 \<le> dv_revision d \<and> \<not> untouched d"
    "(n, d) \<in># ds_results s \<Longrightarrow> copy_of ?rows d \<and> 2 \<le> dv_revision d \<and> \<not> untouched d"
    using assms unfolding delivery_inv_def Let_def by blast+
qed

text \<open>The rows after a write of a receipt that is not new.\<close>

lemma write_keeps:
  assumes update: "update_delivery_receipt d expected rows = Inr rows'"
    and copy: "copy_of rows d" "2 \<le> dv_revision d" "\<not> untouched d" and ok: "receipts_ok rows"
  shows "receipts_ok rows'" "bt_get rows' i = (if i = dv_id d then Some d else bt_get rows i)"
    "copy_of rows e \<Longrightarrow> copy_of rows' e" "touched_run rows r \<or> r = dv_run_id d \<Longrightarrow> touched_run rows' r"
proof -
  have rows': "rows' = bt_insert (dv_id d) d rows"
    using update by (auto simp: update_delivery_receipt_def split: option.splits if_splits)
  obtain d0 where d0: "bt_get rows (dv_id d) = Some d0" "dv_run_id d0 = dv_run_id d"
    using copy(1) by (auto simp: copy_of_def)
  show get: "bt_get rows' i = (if i = dv_id d then Some d else bt_get rows i)" for i
    by (simp add: rows' bt_get_insert)
  show "receipts_ok rows'"
    unfolding receipts_ok_def
  proof (intro conjI)
    show "bt_inv rows'" using ok by (simp add: rows' receipts_ok_def bt_inv_insert)
    show "\<forall>i e. bt_get rows' i = Some e \<longrightarrow> dv_id e = i \<and> 1 \<le> dv_revision e"
      using ok copy(2) by (simp add: get receipts_ok_def)
    show "\<forall>i j e f. bt_get rows' i = Some e \<and> bt_get rows' j = Some f \<and> dv_run_id e = dv_run_id f \<longrightarrow> i = j"
      using ok d0 by (auto simp: get receipts_ok_def split: if_splits)
  qed
  show "copy_of rows' e" if "copy_of rows e"
    using that d0 by (auto simp: copy_of_def get)
  show "touched_run rows' r" if "touched_run rows r \<or> r = dv_run_id d"
    using that
  proof
    assume "r = dv_run_id d"
    then show ?thesis using copy(2) by (auto simp: touched_run_def get intro!: exI [of _ "dv_id d"])
  next
    assume "touched_run rows r"
    then obtain i e where e: "bt_get rows i = Some e" "dv_run_id e = r" "2 \<le> dv_revision e"
      by (auto simp: touched_run_def)
    show ?thesis
    proof (cases "i = dv_id d")
      case True
      with e d0 copy(2) show ?thesis by (auto simp: touched_run_def get intro!: exI [of _ i])
    next
      case False
      with e show ?thesis by (auto simp: touched_run_def get intro!: exI [of _ i])
    qed
  qed
qed

lemma insert_receipt_keeps:
  assumes insert: "insert_delivery_receipt d rows = Inr rows'" and d: "dv_revision d = 1" and ok: "receipts_ok rows"
  shows "receipts_ok rows'" "bt_get rows' i = (if i = dv_id d then Some d else bt_get rows i)"
    "copy_of rows e \<Longrightarrow> copy_of rows' e" "copy_of rows' d" "touched_run rows r \<Longrightarrow> touched_run rows' r"
proof -
  have rows': "rows' = bt_insert (dv_id d) d rows" "bt_get rows (dv_id d) = None" "get_receipt_for_run (dv_run_id d) rows = None"
    using insert by (auto simp: insert_delivery_receipt_def bt_contains_def split: if_splits)
  have new_run: "dv_run_id e \<noteq> dv_run_id d" if "bt_get rows i = Some e" for i e
    using rows'(3) bt_get_in_set [OF that] by (force simp: get_receipt_for_run_def find_None_iff)
  show get: "bt_get rows' i = (if i = dv_id d then Some d else bt_get rows i)" for i
    by (simp add: rows' bt_get_insert)
  show "receipts_ok rows'"
    unfolding receipts_ok_def
  proof (intro conjI)
    show "bt_inv rows'" using ok by (simp add: rows' receipts_ok_def bt_inv_insert)
    show "\<forall>i e. bt_get rows' i = Some e \<longrightarrow> dv_id e = i \<and> 1 \<le> dv_revision e"
      using ok d by (simp add: get receipts_ok_def)
    show "\<forall>i j e f. bt_get rows' i = Some e \<and> bt_get rows' j = Some f \<and> dv_run_id e = dv_run_id f \<longrightarrow> i = j"
      using ok new_run by (auto simp: get receipts_ok_def split: if_splits) metis+
  qed
  show "copy_of rows' e" if "copy_of rows e"
    using that rows'(2) by (auto simp: copy_of_def get)
  show "copy_of rows' d" using d by (auto simp: copy_of_def get)
  show "touched_run rows' r" if "touched_run rows r"
    using that rows'(2) unfolding touched_run_def get by (metis option.distinct(1))
qed


lemma delivery_inv_step:
  assumes inv: "delivery_inv s"
    and rows: "receipts_ok (dl_receipts (ds_store s'))"
      "\<forall>i d. bt_get (dl_receipts (ds_store s')) i = Some d \<longrightarrow> untouched d \<longrightarrow> dv_revision d = 1"
      "\<forall>d. copy_of (dl_receipts (ds_store s)) d \<longrightarrow> copy_of (dl_receipts (ds_store s')) d"
    and copies: "\<forall>d \<in> ds_seen s'. d \<in> ds_seen s \<or> copy_of (dl_receipts (ds_store s')) d"
      "\<forall>(b, d) \<in># ds_handlers s'. (b, d) \<in># ds_handlers s \<or> copy_of (dl_receipts (ds_store s')) d"
      "\<forall>(b, d) \<in># ds_claimed s'. (b, d) \<in># ds_claimed s
         \<or> copy_of (dl_receipts (ds_store s')) d \<and> 2 \<le> dv_revision d \<and> \<not> untouched d"
      "\<forall>(n, d) \<in># ds_results s'. (n, d) \<in># ds_results s
         \<or> copy_of (dl_receipts (ds_store s')) d \<and> 2 \<le> dv_revision d \<and> \<not> untouched d"
    and counts: "\<forall>r. count (ds_calls s') (False, r) + by_run False r (ds_claimed s')
        \<le> (if touched_run (dl_receipts (ds_store s')) r then 1 else 0)"
      "\<forall>r. count (ds_calls s') (True, r) + by_run True r (ds_claimed s') + by_run True r (ds_handlers s')
        \<le> count (ds_retries s') r"
  shows "delivery_inv s'"
proof -
  let ?rows = "dl_receipts (ds_store s')"
  have "copy_of ?rows d" if "d \<in> ds_seen s'" for d
    using copies(1) that rows(3) delivery_invD(3) [OF inv] by blast
  moreover have "copy_of ?rows d" if "(b, d) \<in># ds_handlers s'" for b d
    using copies(2) that rows(3) delivery_invD(4) [OF inv] by blast
  moreover have "copy_of ?rows d \<and> 2 \<le> dv_revision d \<and> \<not> untouched d" if "(b, d) \<in># ds_claimed s'" for b d
    using copies(3) that rows(3) delivery_invD(5) [OF inv] by blast
  moreover have "copy_of ?rows d \<and> 2 \<le> dv_revision d \<and> \<not> untouched d" if "(n, d) \<in># ds_results s'" for n d
    using copies(4) that rows(3) delivery_invD(6) [OF inv] by blast
  ultimately show ?thesis
    using rows(1,2) counts unfolding delivery_inv_def Let_def by blast
qed

lemma delivery_inv_write:
  assumes inv: "delivery_inv s"
    and update: "update_delivery_receipt d expected (dl_receipts (ds_store s)) = Inr (dl_receipts (ds_store s'))"
    and d: "copy_of (dl_receipts (ds_store s)) d" "2 \<le> dv_revision d" "\<not> untouched d"
    and same: "ds_seen s' = ds_seen s" "ds_handlers s' \<subseteq># ds_handlers s" "ds_results s' \<subseteq># ds_results s"
      "ds_retries s' = ds_retries s" "ds_calls s' = ds_calls s"
    and claimed: "\<forall>(b, c) \<in># ds_claimed s'. (b, c) \<in># ds_claimed s \<or> c = d"
      "\<forall>r. by_run False r (ds_claimed s') \<le> by_run False r (ds_claimed s)
         \<or> r = dv_run_id d \<and> \<not> touched_run (dl_receipts (ds_store s)) r
           \<and> by_run False r (ds_claimed s') \<le> by_run False r (ds_claimed s) + 1"
      "\<forall>r. by_run True r (ds_claimed s') + by_run True r (ds_handlers s')
         \<le> by_run True r (ds_claimed s) + by_run True r (ds_handlers s)"
  shows "delivery_inv s'"
proof (rule delivery_inv_step [OF inv])
  note keeps = write_keeps [OF update d delivery_invD(1) [OF inv]]
  show "receipts_ok (dl_receipts (ds_store s'))" by (rule keeps(1))
  show "\<forall>i e. bt_get (dl_receipts (ds_store s')) i = Some e \<longrightarrow> untouched e \<longrightarrow> dv_revision e = 1"
    using delivery_invD(2) [OF inv] d(3) by (simp add: keeps(2) copy_of_def)
  show "\<forall>e. copy_of (dl_receipts (ds_store s)) e \<longrightarrow> copy_of (dl_receipts (ds_store s')) e"
    using keeps(3) by blast
  show "\<forall>e \<in> ds_seen s'. e \<in> ds_seen s \<or> copy_of (dl_receipts (ds_store s')) e" using same by simp
  show "\<forall>(b, e) \<in># ds_handlers s'. (b, e) \<in># ds_handlers s \<or> copy_of (dl_receipts (ds_store s')) e"
    "\<forall>(n, e) \<in># ds_results s'. (n, e) \<in># ds_results s
         \<or> copy_of (dl_receipts (ds_store s')) e \<and> 2 \<le> dv_revision e \<and> \<not> untouched e"
    using same by (auto dest: mset_subset_eqD)
  show "\<forall>(b, e) \<in># ds_claimed s'. (b, e) \<in># ds_claimed s
         \<or> copy_of (dl_receipts (ds_store s')) e \<and> 2 \<le> dv_revision e \<and> \<not> untouched e"
    using claimed(1) keeps(3) d by blast
  show "\<forall>r. count (ds_calls s') (False, r) + by_run False r (ds_claimed s')
        \<le> (if touched_run (dl_receipts (ds_store s')) r then 1 else 0)"
  proof
    fix r
    show "count (ds_calls s') (False, r) + by_run False r (ds_claimed s')
        \<le> (if touched_run (dl_receipts (ds_store s')) r then 1 else 0)"
      using spec [OF claimed(2), of r] delivery_invD(7) [OF inv, of r] keeps(4) [of r] same(5)
      by (cases "touched_run (dl_receipts (ds_store s)) r") auto
  qed
  show "\<forall>r. count (ds_calls s') (True, r) + by_run True r (ds_claimed s') + by_run True r (ds_handlers s')
        \<le> count (ds_retries s') r"
  proof
    fix r
    show "count (ds_calls s') (True, r) + by_run True r (ds_claimed s') + by_run True r (ds_handlers s')
        \<le> count (ds_retries s') r"
      using spec [OF claimed(3), of r] delivery_invD(8) [OF inv, of r] same(4,5) by simp
  qed
qed


lemma by_run_add [simp]:
  "by_run b r (add_mset (c, d) hs) = by_run b r hs + (if b = c \<and> r = dv_run_id d then 1 else 0)"
  "by_run b r {#} = 0"
  by (auto simp: by_run_def)

lemma by_run_remove: "(c, d) \<in># hs \<Longrightarrow> by_run b r hs = by_run b r (hs - {#(c, d)#}) + (if b = c \<and> r = dv_run_id d then 1 else 0)"
  using by_run_add(1) [of b r c d "hs - {#(c, d)#}"] by simp

lemma by_run_mono: "hs \<subseteq># hs' \<Longrightarrow> by_run b r hs \<le> by_run b r hs'"
  unfolding by_run_def by (intro mset_subset_eq_count image_mset_subseteq_mono)

lemma written_receipt:
  assumes "1 \<le> dv_revision d"
  shows "2 \<le> u32_sat_add (dv_revision d) 1"
  using assms by (simp add: u32_sat_add_def u32_max_def)

lemmas receipt_ops = begin_attempt_def mark_delivered_def mark_receipt_failed_def mark_waiting_human_def mark_cancelled_def

definition changed_receipt :: "delivery_receipt \<Rightarrow> delivery_receipt \<Rightarrow> bool" where
  "changed_receipt d d' \<longleftrightarrow>
     dv_id d' = dv_id d \<and> dv_run_id d' = dv_run_id d \<and> dv_revision d' = u32_sat_add (dv_revision d) 1 \<and> \<not> untouched d'"

lemma changed_receiptI [simp]:
  "changed_receipt d (begin_attempt now d)" "changed_receipt d (mark_delivered now code result d)"
  "changed_receipt d (mark_receipt_failed now code message d)" "changed_receipt d (mark_waiting_human now task d)"
  "changed_receipt d (mark_cancelled now d)"
  by (simp_all add: changed_receipt_def receipt_ops untouched_def u32_sat_add_def u32_max_def)

lemma changed_copy:
  assumes "changed_receipt d d'" "copy_of rows d"
  shows "copy_of rows d'" "2 \<le> dv_revision d'" "\<not> untouched d'"
  using assms written_receipt [of d] by (auto simp: changed_receipt_def copy_of_def)

lemma attempt_changes:
  "attempt_outcome de revision_id revision run d tasks = Inr (d', tasks', called) \<Longrightarrow> changed_receipt d d'"
  by (auto simp: attempt_outcome_def hand_over_def webhook_answer_def operation_answer_def res_Inr_iffs Let_def
      split: sum.splits workflow_output.splits webhook_result.splits if_splits prod.splits)

lemma claim_keeps:
  assumes inv: "delivery_inv s" and held: "(force, d) \<in># ds_handlers s" and may: "may_attempt force d"
    and update: "update_delivery_receipt (begin_attempt now d) (dv_revision d) (dl_receipts (ds_store s)) = Inr rows"
  shows "delivery_inv (s\<lparr>ds_store := (ds_store s)\<lparr>dl_receipts := rows\<rparr>, ds_handlers := ds_handlers s - {#(force, d)#},
          ds_claimed := add_mset (force, begin_attempt now d) (ds_claimed s)\<rparr>)" (is "delivery_inv ?s")
proof (rule delivery_inv_write [OF inv, where d = "begin_attempt now d" and expected = "dv_revision d"])
  let ?rows = "dl_receipts (ds_store s)"
  have copy: "copy_of ?rows d" by (rule delivery_invD(4) [OF inv held])
  show "copy_of ?rows (begin_attempt now d)" "2 \<le> dv_revision (begin_attempt now d)" "\<not> untouched (begin_attempt now d)"
    using changed_copy [OF changed_receiptI(1) copy] by blast+
  have run: "dv_run_id (begin_attempt now d) = dv_run_id d" by (simp add: begin_attempt_def)
  have fresh: "\<not> touched_run ?rows (dv_run_id d)" if "\<not> force"
  proof
    assume "touched_run ?rows (dv_run_id d)"
    then obtain i e where e: "bt_get ?rows i = Some e" "dv_run_id e = dv_run_id d" "2 \<le> dv_revision e"
      by (auto simp: touched_run_def)
    obtain e' where e': "bt_get ?rows (dv_id d) = Some e'" "dv_run_id e' = dv_run_id d" "dv_revision e' = dv_revision d"
      using copy update by (auto simp: copy_of_def update_delivery_receipt_def begin_attempt_def split: if_splits)
    have "i = dv_id d" using delivery_invD(1) [OF inv] e(1,2) e'(1,2) unfolding receipts_ok_def by metis
    moreover have "dv_revision d = 1"
      using copy may that by (auto simp: copy_of_def untouched_def may_attempt_def split: delivery_status.splits)
    ultimately show False using e e' by simp
  qed
  show "\<forall>r. by_run False r (ds_claimed ?s) \<le> by_run False r (ds_claimed s)
         \<or> r = dv_run_id (begin_attempt now d) \<and> \<not> touched_run ?rows r
           \<and> by_run False r (ds_claimed ?s) \<le> by_run False r (ds_claimed s) + 1"
    using fresh by (simp add: run)
  show "\<forall>r. by_run True r (ds_claimed ?s) + by_run True r (ds_handlers ?s)
         \<le> by_run True r (ds_claimed s) + by_run True r (ds_handlers s)"
    using by_run_remove [OF held, of True] by (simp add: run)
qed (use update in auto)

lemma attempt_keeps:
  assumes inv: "delivery_inv s" and held: "(force, d) \<in># ds_claimed s"
    and outcome: "attempt_outcome de revision_id revision run d (dl_tasks (ds_store s)) = Inr (d', tasks, called)"
  shows "delivery_inv (s\<lparr>ds_store := (ds_store s)\<lparr>dl_tasks := tasks\<rparr>,
          ds_claimed := ds_claimed s - {#(force, d)#}, ds_results := add_mset (dv_revision d, d') (ds_results s),
          ds_calls := (if called then {#(force, dv_run_id d)#} else {#}) + ds_calls s\<rparr>)" (is "delivery_inv ?s")
proof (rule delivery_inv_step [OF inv])
  let ?rows = "dl_receipts (ds_store s)"
  have "copy_of ?rows d" using delivery_invD(5) [OF inv held] by blast
  from changed_copy [OF attempt_changes [OF outcome] this]
  show "\<forall>(n, e) \<in># ds_results ?s. (n, e) \<in># ds_results s
         \<or> copy_of (dl_receipts (ds_store ?s)) e \<and> 2 \<le> dv_revision e \<and> \<not> untouched e" by auto
  have moved: "count (ds_calls ?s) (b, r) + by_run b r (ds_claimed ?s)
      \<le> count (ds_calls s) (b, r) + by_run b r (ds_claimed s)" for b r
    using by_run_remove [OF held, of b r] by auto
  show "\<forall>r. count (ds_calls ?s) (False, r) + by_run False r (ds_claimed ?s)
        \<le> (if touched_run (dl_receipts (ds_store ?s)) r then 1 else 0)"
  proof
    fix r
    show "count (ds_calls ?s) (False, r) + by_run False r (ds_claimed ?s)
        \<le> (if touched_run (dl_receipts (ds_store ?s)) r then 1 else 0)"
      using le_trans [OF moved delivery_invD(7) [OF inv]] by simp
  qed
  show "\<forall>r. count (ds_calls ?s) (True, r) + by_run True r (ds_claimed ?s) + by_run True r (ds_handlers ?s)
        \<le> count (ds_retries ?s) r"
  proof
    fix r
    show "count (ds_calls ?s) (True, r) + by_run True r (ds_claimed ?s) + by_run True r (ds_handlers ?s)
        \<le> count (ds_retries ?s) r"
      using moved [of True r] delivery_invD(8) [OF inv, of r] by simp
  qed
  show "\<forall>i e. bt_get (dl_receipts (ds_store ?s)) i = Some e \<longrightarrow> untouched e \<longrightarrow> dv_revision e = 1"
    using delivery_invD(2) [OF inv] by (simp add: copy_of_def)
qed (use delivery_invD(1) [OF inv] in \<open>auto dest: in_diffD\<close>)


lemma handler_keeps:
  assumes inv: "delivery_inv s" and ok: "receipts_ok (dl_receipts (ds_store s'))"
    and rows: "\<forall>i e. bt_get (dl_receipts (ds_store s')) i = Some e \<longrightarrow> untouched e \<longrightarrow> dv_revision e = 1"
      "\<forall>e. copy_of (dl_receipts (ds_store s)) e \<longrightarrow> copy_of (dl_receipts (ds_store s')) e"
      "\<forall>r. touched_run (dl_receipts (ds_store s)) r \<longrightarrow> touched_run (dl_receipts (ds_store s')) r"
    and d: "copy_of (dl_receipts (ds_store s')) d"
    and same: "ds_seen s' = ds_seen s" "ds_handlers s' = add_mset (force, d) (ds_handlers s)" "ds_claimed s' = ds_claimed s"
      "ds_results s' = ds_results s" "ds_calls s' = ds_calls s" "ds_retries s' = retry_log force (dv_run_id d) + ds_retries s"
  shows "delivery_inv s'"
proof (rule delivery_inv_step [OF inv ok rows(1,2)])
  show "\<forall>r. count (ds_calls s') (False, r) + by_run False r (ds_claimed s')
        \<le> (if touched_run (dl_receipts (ds_store s')) r then 1 else 0)"
  proof
    fix r
    show "count (ds_calls s') (False, r) + by_run False r (ds_claimed s')
        \<le> (if touched_run (dl_receipts (ds_store s')) r then 1 else 0)"
      using delivery_invD(7) [OF inv, of r] rows(3) same by (auto split: if_splits)
  qed
  show "\<forall>r. count (ds_calls s') (True, r) + by_run True r (ds_claimed s') + by_run True r (ds_handlers s')
        \<le> count (ds_retries s') r"
  proof
    fix r
    show "count (ds_calls s') (True, r) + by_run True r (ds_claimed s') + by_run True r (ds_handlers s')
        \<le> count (ds_retries s') r"
      using delivery_invD(8) [OF inv, of r] same by (auto simp: retry_log_def)
  qed
qed (use same d in auto)

lemma fewer_handlers:
  assumes inv: "delivery_inv s" and same: "ds_store s' = ds_store s" "ds_calls s' = ds_calls s" "ds_retries s' = ds_retries s"
    and less: "ds_seen s' \<subseteq> ds_seen s" "ds_handlers s' \<subseteq># ds_handlers s" "ds_claimed s' \<subseteq># ds_claimed s"
      "ds_results s' \<subseteq># ds_results s"
  shows "delivery_inv s'"
proof (rule delivery_inv_step [OF inv])
  have fewer: "by_run b r (ds_handlers s') \<le> by_run b r (ds_handlers s)" "by_run b r (ds_claimed s') \<le> by_run b r (ds_claimed s)" for b r
    using less by (simp_all add: by_run_mono)
  show "\<forall>r. count (ds_calls s') (False, r) + by_run False r (ds_claimed s')
        \<le> (if touched_run (dl_receipts (ds_store s')) r then 1 else 0)"
  proof
    fix r
    show "count (ds_calls s') (False, r) + by_run False r (ds_claimed s')
        \<le> (if touched_run (dl_receipts (ds_store s')) r then 1 else 0)"
      using fewer(2) [of False r] delivery_invD(7) [OF inv, of r] same by simp
  qed
  show "\<forall>r. count (ds_calls s') (True, r) + by_run True r (ds_claimed s') + by_run True r (ds_handlers s')
        \<le> count (ds_retries s') r"
  proof
    fix r
    show "count (ds_calls s') (True, r) + by_run True r (ds_claimed s') + by_run True r (ds_handlers s')
        \<le> count (ds_retries s') r"
      using fewer [of True r] delivery_invD(8) [OF inv, of r] same by simp
  qed
  show "\<forall>i e. bt_get (dl_receipts (ds_store s')) i = Some e \<longrightarrow> untouched e \<longrightarrow> dv_revision e = 1"
    using delivery_invD(2) [OF inv] same(1) by (simp add: copy_of_def)
  show "\<forall>(b, d) \<in># ds_handlers s'. (b, d) \<in># ds_handlers s \<or> copy_of (dl_receipts (ds_store s')) d"
    "\<forall>(b, d) \<in># ds_claimed s'. (b, d) \<in># ds_claimed s
         \<or> copy_of (dl_receipts (ds_store s')) d \<and> 2 \<le> dv_revision d \<and> \<not> untouched d"
    "\<forall>(n, d) \<in># ds_results s'. (n, d) \<in># ds_results s
         \<or> copy_of (dl_receipts (ds_store s')) d \<and> 2 \<le> dv_revision d \<and> \<not> untouched d"
    using less by (auto dest: mset_subset_eqD)
qed (use delivery_invD(1) [OF inv] same(1) less(1) in auto)

lemma run_of_get: "get_receipt_for_run run_id rows = Some d \<Longrightarrow> dv_run_id d = run_id"
  unfolding get_receipt_for_run_def by (drule find_Some_in) simp

lemma stored_get:
  assumes "get_receipt_for_run run_id rows = Some d" "receipts_ok rows"
  shows "bt_get rows (dv_id d) = Some d"
proof -
  have "d \<in> set (map snd rows)" using find_Some_in [OF assms(1) [unfolded get_receipt_for_run_def]] by simp
  then obtain k where "bt_get rows k = Some d"
    using bt_values [of rows] assms(2) by (auto simp: receipts_ok_def)
  then show ?thesis using assms(2) by (auto simp: receipts_ok_def)
qed

lemma delivery_step_inv:
  assumes "delivery_step s s'" "delivery_inv s"
  shows "delivery_inv s'"
  using assms
proof (induction rule: delivery_step.induct)
  case (create env run_id revision_id kind s rows force)
  let ?d = "pending_receipt env run_id revision_id kind"
  have d: "dv_revision ?d = 1" "dv_run_id ?d = run_id" by (simp_all add: pending_receipt_def)
  note keeps = insert_receipt_keeps [OF create(1) d(1) delivery_invD(1) [OF create(2)]]
  show ?case
  proof (rule handler_keeps [OF create(2)])
    show "\<forall>i e. bt_get (dl_receipts (ds_store (s\<lparr>ds_store := (ds_store s)\<lparr>dl_receipts := rows\<rparr>,
          ds_handlers := add_mset (force, ?d) (ds_handlers s), ds_retries := retry_log force run_id + ds_retries s\<rparr>))) i
        = Some e \<longrightarrow> untouched e \<longrightarrow> dv_revision e = 1"
      using delivery_invD(2) [OF create(2)] d(1) by (simp add: keeps(2) copy_of_def)
  qed (use keeps d in auto)
next
  case (read run_id s d force)
  have ok: "receipts_ok (dl_receipts (ds_store s))" by (rule delivery_invD(1) [OF read(2)])
  have stored: "bt_get (dl_receipts (ds_store s)) (dv_id d) = Some d" by (rule stored_get [OF read(1) ok])
  show ?case
    by (rule handler_keeps [OF read(2), where d = d and force = force])
       (use ok delivery_invD(2) [OF read(2) stored] run_of_get [OF read(1)] delivery_invD(2) [OF read(2)] in
         \<open>auto simp: copy_of_def\<close>)
next
  case (claim force d s now rows)
  then show ?case using claim_keeps by blast
next
  case (attempt force d s de revision_id revision run d' tasks called)
  then show ?case using attempt_keeps by blast
next
  case (finish expected d s rows)
  then show ?case
    using delivery_invD(6) [OF finish(3,1)]
    by (intro delivery_inv_write [OF finish(3), where d = d and expected = expected]) auto
next
  case (give_up h s c w)
  then show ?case by (intro fewer_handlers [OF give_up(4)]) auto
next
  case (look s i d)
  then show ?case
    using delivery_invD(1,2,7,8) [OF look(2)]
    by (intro delivery_inv_step [OF look(2)]) (auto simp: copy_of_def)
next
  case (reconcile d s now rows)
  then show ?case
    using changed_copy [OF changed_receiptI(3) delivery_invD(3) [OF reconcile(4,1)]]
    by (intro delivery_inv_write [OF reconcile(4), where d = "mark_receipt_failed now None interrupted_message d"
          and expected = "dv_revision d"]) auto
next
  case (cancel d s now rows)
  then show ?case
    using changed_copy [OF changed_receiptI(5) delivery_invD(3) [OF cancel(3,1)]]
    by (intro delivery_inv_write [OF cancel(3), where d = "mark_cancelled now d" and expected = "dv_revision d"]) auto
next
  case (acknowledge d s now result rows)
  then show ?case
    using changed_copy [OF changed_receiptI(2) delivery_invD(3) [OF acknowledge(3,1)]]
    by (intro delivery_inv_write [OF acknowledge(3), where d = "mark_delivered now None result d"
          and expected = "dv_revision d"]) auto
next
  case (tasks s tasks)
  then show ?case
    using delivery_invD(1,2,7,8) [OF tasks]
    by (intro delivery_inv_step [OF tasks]) (auto simp: copy_of_def)
next
  case (restart s)
  then show ?case by (intro fewer_handlers [OF restart]) auto
qed

lemma delivery_steps_inv: "delivery_steps s s' \<Longrightarrow> delivery_inv s \<Longrightarrow> delivery_inv s'"
  by (induction rule: rtranclp_induct) (auto intro: delivery_step_inv)

lemma initial_deliveries_inv: "delivery_inv (initial_deliveries tasks)"
  by (simp add: delivery_inv_def initial_deliveries_def receipts_ok_def bt.inv_empty Let_def)


section \<open>One client\<close>

lemma ensure_task_only: "ensure_delivery_recovery_task de run d st = Inr st' \<Longrightarrow> st' = st\<lparr>dl_tasks := dl_tasks st'\<rparr>"
  by (auto simp: ensure_delivery_recovery_task_def Let_def res_Inr_iffs split: if_splits)

lemma receipts_only [simp]: "st\<lparr>dl_receipts := rows, dl_tasks := dl_tasks st\<rparr> = st\<lparr>dl_receipts := rows\<rparr>"
  by (cases st) simp

definition delivers_to :: "delivery_system \<Rightarrow> delivery_store \<Rightarrow> (bool \<times> uuid) multiset \<Rightarrow> uuid multiset \<Rightarrow> bool" where
  "delivers_to s st calls retries \<longleftrightarrow>
     (\<exists>s'. delivery_steps s s' \<and> ds_store s' = st \<and> ds_calls s' = calls + ds_calls s \<and> ds_retries s' = retries + ds_retries s)"

lemma delivers_to_refl: "delivers_to s (ds_store s) {#} {#}"
  unfolding delivers_to_def by (intro exI [of _ s]) simp

lemma delivers_to_step:
  assumes "delivery_step s s'" "delivers_to s' st calls retries"
    and "ds_calls s' = calls' + ds_calls s" "ds_retries s' = retries' + ds_retries s"
  shows "delivers_to s st (calls + calls') (retries + retries')"
proof -
  from assms(2) obtain t where "delivery_steps s' t" "ds_store t = st" "ds_calls t = calls + ds_calls s'"
    "ds_retries t = retries + ds_retries s'" unfolding delivers_to_def by blast
  with assms(1,3,4) show ?thesis
    unfolding delivers_to_def by (intro exI [of _ t]) (auto intro: converse_rtranclp_into_rtranclp)
qed

lemma delivers_to_quiet:
  assumes "delivery_step s s'" "delivers_to s' st calls retries" "ds_calls s' = ds_calls s" "ds_retries s' = ds_retries s"
  shows "delivers_to s st calls retries"
  using delivers_to_step [OF assms(1,2), of "{#}" "{#}"] assms(3,4) by simp

lemma finish_delivers:
  assumes held: "(expected, d) \<in># ds_results s" and finish: "finish_delivery de run expected d (ds_store s) = (result, st)"
  shows "delivers_to s st {#} {#}"
proof (cases "update_delivery_receipt d expected (dl_receipts (ds_store s))")
  case (Inl e)
  with finish show ?thesis using delivers_to_refl [of s] by (simp add: finish_delivery_def)
next
  case (Inr rows)
  let ?s = "s\<lparr>ds_store := (ds_store s)\<lparr>dl_receipts := rows\<rparr>, ds_results := ds_results s - {#(expected, d)#}\<rparr>"
  obtain tasks where "st = (ds_store ?s)\<lparr>dl_tasks := tasks\<rparr>"
  proof (cases "dv_status d = DeliveryFailed")
    case True
    then show ?thesis
      using finish Inr that [of "dl_tasks st"] that [of "dl_tasks (ds_store s)"] ensure_task_only [of de run d "ds_store ?s"]
      by (auto simp: finish_delivery_def Let_def split: sum.splits)
  next
    case False
    then show ?thesis
      using finish Inr by (intro that [of "dl_tasks (ds_store s)"]) (auto simp: finish_delivery_def)
  qed
  then have "delivers_to ?s st {#} {#}"
    using delivers_to_quiet [OF delivery_step.tasks [of ?s tasks] delivers_to_refl] by simp
  then show ?thesis by (rule delivers_to_quiet [OF delivery_step.finish [OF held Inr]]) simp_all
qed

lemma claim_delivers:
  assumes held: "(force, d) \<in># ds_handlers s" and may: "may_attempt force d"
    and deliver: "claim_and_deliver de run revision_id revision d (ds_store s) = (result, st, called)"
  shows "delivers_to s st (if called then {#(force, dv_run_id d)#} else {#}) {#}"
proof -
  let ?c = "begin_attempt (env_now (de_env de)) d"
  show ?thesis
  proof (cases "update_delivery_receipt ?c (dv_revision d) (dl_receipts (ds_store s))")
    case (Inl e)
    with deliver show ?thesis using delivers_to_refl [of s] by (auto simp: claim_and_deliver_def Let_def)
  next
    case (Inr rows)
    let ?s = "s\<lparr>ds_store := (ds_store s)\<lparr>dl_receipts := rows\<rparr>, ds_handlers := ds_handlers s - {#(force, d)#},
          ds_claimed := add_mset (force, ?c) (ds_claimed s)\<rparr>"
    have "delivers_to ?s st (if called then {#(force, dv_run_id d)#} else {#}) {#}"
    proof (cases "attempt_outcome de revision_id revision run ?c (dl_tasks (ds_store ?s))")
      case (Inl e)
      with Inr deliver show ?thesis
        using delivers_to_refl [of ?s] by (auto simp: claim_and_deliver_def Let_def)
    next
      case outcome: (Inr a)
      obtain d' tasks called' where a: "a = (d', tasks, called')" by (cases a)
      let ?t = "?s\<lparr>ds_store := (ds_store ?s)\<lparr>dl_tasks := tasks\<rparr>,
          ds_claimed := ds_claimed ?s - {#(force, ?c)#}, ds_results := add_mset (dv_revision ?c, d') (ds_results ?s),
          ds_calls := (if called' then {#(force, dv_run_id ?c)#} else {#}) + ds_calls ?s\<rparr>"
      have "finish_delivery de run (dv_revision ?c) d' (ds_store ?t) = (result, st)" and called: "called' = called"
        using Inr deliver outcome by (auto simp: claim_and_deliver_def Let_def a split: prod.splits)
      then have "delivers_to ?t st {#} {#}" by (intro finish_delivers [of "dv_revision ?c" d']) auto
      moreover have "delivery_step ?s ?t"
        by (rule delivery_step.attempt [where s = ?s]) (use outcome in \<open>simp_all add: a\<close>)
      moreover have "dv_run_id ?c = dv_run_id d" by (simp add: begin_attempt_def)
      ultimately show ?thesis
        using delivers_to_step [of ?s ?t st "{#}" "{#}" "if called then {#(force, dv_run_id d)#} else {#}" "{#}"]
        by (simp add: called)
    qed
    then show ?thesis by (rule delivers_to_quiet [OF delivery_step.claim [OF held may Inr]]) simp_all
  qed
qed

lemma obtain_delivers:
  assumes "obtain_receipt env run_id revision_id kind (dl_receipts (ds_store s)) = Inr (d, rows)"
  shows "dv_run_id d = run_id
    \<and> delivery_step s (s\<lparr>ds_store := (ds_store s)\<lparr>dl_receipts := rows\<rparr>, ds_handlers := add_mset (force, d) (ds_handlers s),
          ds_retries := retry_log force run_id + ds_retries s\<rparr>)"
proof (cases "get_receipt_for_run run_id (dl_receipts (ds_store s))")
  case (Some d')
  with assms have "d' = d" "rows = dl_receipts (ds_store s)" by (auto simp: obtain_receipt_def)
  with delivery_step.read [OF Some, of force] run_of_get [OF Some] show ?thesis by simp
next
  case None
  let ?d = "pending_receipt env run_id revision_id kind"
  from None assms have "d = ?d" "insert_delivery_receipt ?d (dl_receipts (ds_store s)) = Inr rows"
    by (auto simp: obtain_receipt_def Let_def ok_or_def split: sum.splits)
  moreover from this have "dv_run_id d = run_id" by (simp add: pending_receipt_def)
  ultimately show ?thesis using delivery_step.create [of env run_id revision_id kind s rows force] by simp
qed

lemma deliver_delivers:
  assumes "deliver_run_output de run force (ds_store s) = (result, st, called)"
  shows "\<exists>retries. retries \<subseteq># retry_log force (ru_id run)
    \<and> delivers_to s st (if called then {#(force, ru_id run)#} else {#}) retries"
proof (cases "ru_revision_id run \<noteq> None \<and> ru_revision run \<noteq> None
    \<and> (\<exists>revision_id revision x. ru_revision_id run = Some revision_id \<and> ru_revision run = Some revision
        \<and> obtain_receipt (de_env de) (ru_id run) revision_id (output_kind_name (rev_output revision))
            (dl_receipts (ds_store s)) = Inr x)")
  case False
  then have "st = ds_store s \<and> \<not> called"
    using assms by (auto simp: deliver_run_output_def split: option.splits sum.splits)
  then show ?thesis using delivers_to_refl [of s] by (intro exI [of _ "{#}"]) simp
next
  case True
  then obtain revision_id revision d rows where run: "ru_revision_id run = Some revision_id" "ru_revision run = Some revision"
    and receipt: "obtain_receipt (de_env de) (ru_id run) revision_id (output_kind_name (rev_output revision))
            (dl_receipts (ds_store s)) = Inr (d, rows)" by auto
  let ?s = "s\<lparr>ds_store := (ds_store s)\<lparr>dl_receipts := rows\<rparr>, ds_handlers := add_mset (force, d) (ds_handlers s),
          ds_retries := retry_log force (ru_id run) + ds_retries s\<rparr>"
  note step = conjunct1 [OF obtain_delivers [OF receipt]] conjunct2 [OF obtain_delivers [OF receipt, of force]]
  have "delivers_to ?s st (if called then {#(force, ru_id run)#} else {#}) {#}"
  proof (cases "may_attempt force d")
    case True
    have "claim_and_deliver de run revision_id revision d (ds_store ?s) = (result, st, called)"
      using assms run receipt True by (simp add: deliver_run_output_def)
    from claim_delivers [OF _ True this] show ?thesis by (cases called) (simp_all add: step(1))
  next
    case False
    then show ?thesis
      using assms run receipt delivers_to_refl [of ?s] by (auto simp: deliver_run_output_def)
  qed
  then have "delivers_to s st (if called then {#(force, ru_id run)#} else {#}) (retry_log force (ru_id run))"
    using delivers_to_step [of s ?s st "if called then {#(force, ru_id run)#} else {#}" "{#}" "{#}" "retry_log force (ru_id run)"]
      step by simp
  then show ?thesis by blast
qed

lemma reconcile_delivers:
  assumes "\<forall>d \<in> set ds. d \<in> ds_seen s" and "reconcile_all de get_run ds (ds_store s) = (result, st)"
  shows "delivers_to s st {#} {#}"
  using assms
proof (induction ds arbitrary: s)
  case Nil
  then show ?case using delivers_to_refl [of s] by simp
next
  case (Cons d ds)
  let ?d = "mark_receipt_failed (env_now (de_env de)) None interrupted_message d"
  show ?case
  proof (cases "is_interrupted (env_now (de_env de)) d \<and> (\<exists>rows. update_delivery_receipt ?d (dv_revision d) (dl_receipts (ds_store s)) = Inr rows)")
    case False
    then have "reconcile_receipt de get_run d (ds_store s) = (Inr (), ds_store s)"
      by (auto simp: reconcile_receipt_def Let_def split: sum.splits)
    with Cons show ?thesis by simp
  next
    case True
    then obtain rows where rows: "update_delivery_receipt ?d (dv_revision d) (dl_receipts (ds_store s)) = Inr rows" by blast
    let ?s = "s\<lparr>ds_store := (ds_store s)\<lparr>dl_receipts := rows\<rparr>\<rparr>"
    obtain e tasks where e: "reconcile_receipt de get_run d (ds_store s) = (e, (ds_store ?s)\<lparr>dl_tasks := tasks\<rparr>)"
    proof (cases "reconcile_receipt de get_run d (ds_store s)")
      case (Pair e st')
      have "st' = (ds_store ?s)\<lparr>dl_tasks := dl_tasks st'\<rparr>"
        using Pair True rows ensure_task_only [of de _ ?d "ds_store ?s"]
        by (auto simp: reconcile_receipt_def Let_def split: option.splits sum.splits)
      with Pair that show ?thesis by metis
    qed
    let ?t = "?s\<lparr>ds_store := (ds_store ?s)\<lparr>dl_tasks := tasks\<rparr>\<rparr>"
    have "delivers_to ?t st {#} {#}"
      using Cons.prems(2) Cons.IH [of ?t] Cons.prems(1) delivers_to_refl [of ?t] e by (auto split: sum.splits)
    then have "delivers_to ?s st {#} {#}" by (rule delivers_to_quiet [OF delivery_step.tasks]) simp_all
    moreover have "delivery_step s ?s"
      using delivery_step.reconcile [OF _ _ rows] True Cons.prems(1) by auto
    ultimately show ?thesis using delivers_to_quiet [of s ?s] by simp
  qed
qed


section \<open>An example\<close>

definition example_webhook :: flow_revision_v1 where
  "example_webhook =
     (let revision = af_active_revision example_active in
      revision\<lparr>rev_output := WebhookOutput ''https://example.org'' None,
        rev_compiled_workflow := (rev_compiled_workflow revision)\<lparr>wf1_output_schema := JBool True\<rparr>\<rparr>)"

definition example_delivery :: delivery_env where
  "example_delivery =
     \<lparr>de_env = example_env, de_to_vec = (\<lambda>v. ''null''), de_schema_text = (\<lambda>e. []), de_default_text = [],
      de_env_var = (\<lambda>n. None), de_send = WebhookResponse 200 ''ok'', de_operation = Inl []\<rparr>"

definition example_delivered_run :: delivered_run where
  "example_delivered_run =
     \<lparr>ru_id = ''r'', ru_thread_id = ''t'', ru_output = None, ru_revision_id = Some ''rev'', ru_revision = Some example_webhook\<rparr>"

lemma example_validated: "output_validation example_delivery example_webhook JNull = Inr ()"
  by (simp add: output_validation_def example_webhook_def example_delivery_def validate_outbound_payload_iff Let_def
      leaves_server_def validate_value_against_schema.simps(1))

lemma example_attempt:
  "attempt_outcome example_delivery ''rev'' example_webhook example_delivered_run d tasks
     = Inr (mark_delivered 0 (Some 200) (Some (JObject [(''body'', JString ''ok'')])) d, tasks, True)"
proof -
  have "rev_output example_webhook = WebhookOutput ''https://example.org'' None" by (simp add: example_webhook_def Let_def)
  then show ?thesis
    using example_validated
    by (simp add: attempt_outcome_def payload_of_def example_delivered_run_def webhook_credential_def webhook_answer_def
        Let_def) (simp add: example_delivery_def example_env_def bounded_provider_text_def)
qed

lemma example_delivered:
  "\<exists>d st. deliver_run_output example_delivery example_delivered_run False \<lparr>dl_receipts = [], dl_tasks = []\<rparr> = (Inr d, st, True)
    \<and> dv_status d = Delivered"
proof -
  let ?d = "pending_receipt example_env ''r'' ''rev'' ''webhook''"
  have "output_kind_name (rev_output example_webhook) = ''webhook''" "de_env example_delivery = example_env"
    by (simp_all add: example_webhook_def output_kind_name_def Let_def example_delivery_def)
  then have "obtain_receipt (de_env example_delivery) ''r'' ''rev'' (output_kind_name (rev_output example_webhook)) []
      = Inr (?d, [(dv_id ?d, ?d)])"
    by (simp add: obtain_receipt_def get_receipt_for_run_def insert_delivery_receipt_def bt_contains_def Let_def)
  moreover have "may_attempt False ?d" by (simp add: may_attempt_def pending_receipt_def)
  ultimately show ?thesis
    by (simp add: deliver_run_output_def example_delivered_run_def claim_and_deliver_def update_delivery_receipt_def
        finish_delivery_def begin_attempt_def mark_delivered_def Let_def example_attempt [unfolded example_delivered_run_def])
qed

section \<open>Properties\<close>

text \<open>
  C10: A provider is called on the server's own initiative at most once per run.  However deliveries, retries,
  the reconciliation of interrupted deliveries, decisions of operators and restarts interleave, each run
  has one receipt, the provider is called for it at most once without an operator asking for it, and at
  most as often again as operators asked for a retry.
\<close>
theorem automatic_delivery_calls_once:
  assumes "delivery_steps (initial_deliveries tasks) s"
  shows "count (ds_calls s) (False, r) \<le> 1 \<and> count (ds_calls s) (True, r) \<le> count (ds_retries s) r
    \<and> (\<forall>i j d e. bt_get (dl_receipts (ds_store s)) i = Some d \<and> bt_get (dl_receipts (ds_store s)) j = Some e
         \<and> dv_run_id d = dv_run_id e \<longrightarrow> i = j)"
proof -
  have inv: "delivery_inv s" by (rule delivery_steps_inv [OF assms initial_deliveries_inv])
  have "count (ds_calls s) (False, r) \<le> 1" using delivery_invD(7) [OF inv, of r] by (auto split: if_splits)
  moreover have "count (ds_calls s) (True, r) \<le> count (ds_retries s) r" using delivery_invD(8) [OF inv, of r] by simp
  ultimately show ?thesis using delivery_invD(1) [OF inv] unfolding receipts_ok_def by blast
qed

theorem automatic_delivery_calls_once_witness:
  "\<exists>s. delivery_steps (initial_deliveries []) s \<and> count (ds_calls s) (False, ''r'') = 1"
proof -
  let ?s = "initial_deliveries []"
  from example_delivered obtain d st where
    "deliver_run_output example_delivery example_delivered_run False (ds_store ?s) = (Inr d, st, True)"
    by (auto simp: initial_deliveries_def)
  from deliver_delivers [OF this] obtain s where s: "delivery_steps ?s s" "ds_calls s = {#(False, ''r'')#}"
    by (auto simp: delivers_to_def example_delivered_run_def initial_deliveries_def)
  with automatic_delivery_calls_once [OF s(1), of "''r''"] show ?thesis by (intro exI [of _ s]) simp
qed

text \<open>
  C11: The delivery handler refines the interleaved steps.  Run without interference it is an execution of the
  steps with the same effect on the store, it calls the provider exactly when they do, and a handler that is
  not forced calls it only if nobody did so before on the server's initiative.
\<close>
theorem delivery_handler_refines_steps:
  assumes "delivery_steps (initial_deliveries tasks) s"
    and "deliver_run_output de run force (ds_store s) = (result, st, called)"
  shows "\<exists>s'. delivery_steps s s' \<and> ds_store s' = st
      \<and> ds_calls s' = (if called then {#(force, ru_id run)#} else {#}) + ds_calls s
    \<and> (called \<and> \<not> force \<longrightarrow> count (ds_calls s) (False, ru_id run) = 0)"
proof -
  from deliver_delivers [OF assms(2)] obtain s' where s': "delivery_steps s s'" "ds_store s' = st"
    "ds_calls s' = (if called then {#(force, ru_id run)#} else {#}) + ds_calls s" unfolding delivers_to_def by blast
  have "delivery_inv s'"
    using delivery_steps_inv [OF rtranclp_trans [OF assms(1) s'(1)] initial_deliveries_inv] .
  from delivery_invD(7) [OF this, of "ru_id run"] s'(3)
  have "called \<and> \<not> force \<longrightarrow> count (ds_calls s) (False, ru_id run) = 0" by (auto split: if_splits)
  with s' show ?thesis by blast
qed

theorem delivery_handler_refines_steps_witness:
  "\<exists>s'. delivery_steps (initial_deliveries []) s' \<and> ds_calls s' = {#(False, ''r'')#}"
proof -
  let ?s = "initial_deliveries []"
  from example_delivered obtain d st where
    "deliver_run_output example_delivery example_delivered_run False (ds_store ?s) = (Inr d, st, True)"
    by (auto simp: initial_deliveries_def)
  from delivery_handler_refines_steps [OF rtranclp.rtrancl_refl this] show ?thesis
    by (auto simp: initial_deliveries_def example_delivered_run_def)
qed

text \<open>
  C27: The filter for outgoing data is exact.  It accepts a value exactly if its serialisation has at most 1 MiB
  and no object in it, at any depth, has a field with the name of a credential; and whenever a provider is
  called, the output of the run satisfies the output schema of its revision and passes the filter.
\<close>
theorem outbound_filter_is_exact:
  "(validate_outbound_payload to_vec v = Inr ()
      \<longleftrightarrow> length (to_vec v) \<le> 1048576 \<and> (\<forall>key. mentions key v \<longrightarrow> \<not> sensitive_key key))
    \<and> (attempt_outcome de revision_id revision run d tasks = Inr (d', tasks', True)
      \<longrightarrow> validate_value_against_schema (wf1_output_schema (rev_compiled_workflow revision)) (payload_of run) ''$output'' = Inr ()
        \<and> validate_outbound_payload (de_to_vec de) (payload_of run) = Inr ())"
proof (intro conjI impI)
  show "validate_outbound_payload to_vec v = Inr ()
      \<longleftrightarrow> length (to_vec v) \<le> 1048576 \<and> (\<forall>key. mentions key v \<longrightarrow> \<not> sensitive_key key)"
    unfolding validate_outbound_payload_iff free_of_secrets_def by blast
  assume attempt: "attempt_outcome de revision_id revision run d tasks = Inr (d', tasks', True)"
  then have "leaves_server (rev_output revision)" "output_validation de revision (payload_of run) = Inr ()"
    by (auto simp: attempt_outcome_def leaves_server_def Let_def res_Inr_iffs split: sum.splits workflow_output.splits prod.splits)
  then show "validate_value_against_schema (wf1_output_schema (rev_compiled_workflow revision)) (payload_of run) ''$output'' = Inr ()"
    "validate_outbound_payload (de_to_vec de) (payload_of run) = Inr ()"
    by (auto simp: output_validation_def res_Inr_iffs)
qed

theorem outbound_filter_is_exact_witness:
  "\<not> sensitive_key ''name''
    \<and> validate_outbound_payload (\<lambda>v. []) (JObject [(''name'', JArray [JObject [(''API-Key'', JNull)]])]) \<noteq> Inr ()
    \<and> validate_outbound_payload (de_to_vec example_delivery) JNull = Inr ()"
proof -
  let ?v = "JObject [(''name'', JArray [JObject [(''API-Key'', JNull)]])]"
  have names: "\<not> sensitive_key ''name''" "sensitive_key ''API-Key''" by code_simp+
  have mentioned: "mentions ''API-Key'' ?v" by simp
  note exact = outbound_filter_is_exact [of "\<lambda>v. []" ?v example_delivery "''rev''" example_webhook example_delivered_run
      undefined "[]" "mark_delivered 0 (Some 200) (Some (JObject [(''body'', JString ''ok'')])) undefined" "[]"]
  have "validate_outbound_payload (\<lambda>v. []) ?v \<noteq> Inr ()" using exact names mentioned by blast
  moreover have "validate_outbound_payload (de_to_vec example_delivery) JNull = Inr ()"
    using exact example_attempt [of undefined "[]"] by (simp add: payload_of_def example_delivered_run_def)
  ultimately show ?thesis using names by blast
qed

text \<open>
  Cancelling the task of a delivery cancels its receipt whatever its status is: a receipt that was delivered by
  a retry becomes cancelled and loses the time of its delivery.
\<close>
lemma cancel_overrides_delivered:
  assumes "bt_get (dl_receipts st) (dv_id d) = Some d" and "dv_status d = Delivered"
    and "ht_task_type task = TaskRecovery"
  shows "\<exists>d' st'. settle_delivery de get_run task CancelAction d st = (Inr d', st', False)
    \<and> bt_get (dl_receipts st') (dv_id d) = Some d' \<and> dv_status d' = DeliveryCancelled \<and> dv_delivered_at d' = None"
  using assms by (simp add: settle_delivery_def update_delivery_receipt_def mark_cancelled_def bt_get_insert Let_def)

end
