(* ===== verification/Work_Form.thy ===== *)
theory Work_Form
  imports Flow_Graph
begin

text \<open>
  Work forms and the completion gate (\<open>work_form.rs\<close>, \<open>completion_runtime.rs\<close>): the checklist of a
  turn or of a goal, its validation, and the signals that keep a turn from ending.

  \<open>uuid_v5\<close> is the derivation of a name-based identifier and \<open>lowercase\<close> the Unicode \<open>to_lowercase\<close>; both
  are arguments, and so is the current time.  A \<open>HashSet\<close> is a \<open>set\<close>.  The names that \<open>{:?}\<close> prints for
  a status are written out.
\<close>

section \<open>Completion signals\<close>

datatype completion_disposition = BlockingWork | AdvisoryWork

record completion_signal =
  cs_source_id :: string
  cs_disposition :: completion_disposition
  cs_message :: string
  cs_details :: json

definition blocking_signal :: "string \<Rightarrow> string \<Rightarrow> json \<Rightarrow> completion_signal" where
  "blocking_signal source_id message details =
     \<lparr>cs_source_id = source_id, cs_disposition = BlockingWork, cs_message = message, cs_details = details\<rparr>"

definition advisory_signal :: "string \<Rightarrow> string \<Rightarrow> json \<Rightarrow> completion_signal" where
  "advisory_signal source_id message details =
     \<lparr>cs_source_id = source_id, cs_disposition = AdvisoryWork, cs_message = message, cs_details = details\<rparr>"

record completion_report =
  cr_blockers :: "completion_signal list"
  cr_reminders :: "completion_signal list"

definition classify_signal :: "completion_signal \<Rightarrow> completion_report \<Rightarrow> completion_report" where
  "classify_signal signal report =
     (case cs_disposition signal of
        BlockingWork \<Rightarrow> report\<lparr>cr_blockers := cr_blockers report @ [signal]\<rparr>
      | AdvisoryWork \<Rightarrow> report\<lparr>cr_reminders := cr_reminders report @ [signal]\<rparr>)"

definition check_completion :: "completion_signal list \<Rightarrow> completion_report" where
  \<comment> \<open>\<open>DefaultCompletionGate::check\<close>\<close>
  "check_completion signals = fold classify_signal signals \<lparr>cr_blockers = [], cr_reminders = []\<rparr>"

section \<open>Forms\<close>

datatype work_scope = TurnScope uuid | GoalScope uuid

fun scope_id :: "work_scope \<Rightarrow> uuid" where
  "scope_id (TurnScope i) = i"
| "scope_id (GoalScope i) = i"

fun scope_kind :: "work_scope \<Rightarrow> string" where
  "scope_kind (TurnScope _) = ''turn''"
| "scope_kind (GoalScope _) = ''goal''"

definition work_form_namespace :: uuid where
  "work_form_namespace = ''006f7065-6e74-6f70-6961-5f776f726b66''"

definition form_id :: "(uuid \<Rightarrow> string \<Rightarrow> uuid) \<Rightarrow> work_scope \<Rightarrow> uuid" where
  "form_id uuid_v5 scope = uuid_v5 work_form_namespace (scope_kind scope @ '':'' @ scope_id scope)"

datatype work_form_status = FormActive | FormCompleted | FormBlocked | FormPaused | FormCancelled

definition permits_invocation_end :: "work_form_status \<Rightarrow> bool" where
  "permits_invocation_end s \<longleftrightarrow> s \<noteq> FormActive"

fun form_status_str :: "work_form_status \<Rightarrow> string" where
  "form_status_str FormActive = ''active''"
| "form_status_str FormCompleted = ''completed''"
| "form_status_str FormBlocked = ''blocked''"
| "form_status_str FormPaused = ''paused''"
| "form_status_str FormCancelled = ''cancelled''"

definition form_status_from_str :: "string \<Rightarrow> work_form_status option" where
  "form_status_from_str s =
     (if s = ''active'' then Some FormActive
      else if s = ''completed'' then Some FormCompleted
      else if s = ''blocked'' then Some FormBlocked
      else if s = ''paused'' then Some FormPaused
      else if s = ''cancelled'' then Some FormCancelled
      else None)"

definition form_is_terminal :: "work_form_status \<Rightarrow> bool" where
  "form_is_terminal s \<longleftrightarrow> s = FormCompleted \<or> s = FormCancelled"

fun form_status_debug :: "work_form_status \<Rightarrow> string" where
  "form_status_debug FormActive = ''Active''"
| "form_status_debug FormCompleted = ''Completed''"
| "form_status_debug FormBlocked = ''Blocked''"
| "form_status_debug FormPaused = ''Paused''"
| "form_status_debug FormCancelled = ''Cancelled''"

datatype work_item_status =
    ItemPending | ItemInProgress | ItemCompleted | ItemDeferred | ItemBlocked | ItemCancelled

fun item_status_str :: "work_item_status \<Rightarrow> string" where
  "item_status_str ItemPending = ''pending''"
| "item_status_str ItemInProgress = ''in_progress''"
| "item_status_str ItemCompleted = ''completed''"
| "item_status_str ItemDeferred = ''deferred''"
| "item_status_str ItemBlocked = ''blocked''"
| "item_status_str ItemCancelled = ''cancelled''"

fun item_status_debug :: "work_item_status \<Rightarrow> string" where
  "item_status_debug ItemPending = ''Pending''"
| "item_status_debug ItemInProgress = ''InProgress''"
| "item_status_debug ItemCompleted = ''Completed''"
| "item_status_debug ItemDeferred = ''Deferred''"
| "item_status_debug ItemBlocked = ''Blocked''"
| "item_status_debug ItemCancelled = ''Cancelled''"

definition is_actionable :: "work_item_status \<Rightarrow> bool" where
  "is_actionable s \<longleftrightarrow> s = ItemPending \<or> s = ItemInProgress"

definition is_resolved :: "work_item_status \<Rightarrow> bool" where
  "is_resolved s \<longleftrightarrow> s = ItemCompleted"

definition requires_note :: "work_item_status \<Rightarrow> bool" where
  "requires_note s \<longleftrightarrow> s = ItemDeferred \<or> s = ItemBlocked \<or> s = ItemCancelled"

record work_item =
  wi_id :: string
  wi_title :: string
  wi_status :: work_item_status
  wi_completion_disposition :: completion_disposition
  wi_depends_on :: "string list"
  wi_note :: "string option"
  wi_acceptance :: "string list"
  wi_evidence_refs :: "string list"

record work_form =
  wf_id :: uuid
  wf_thread_id :: uuid
  wf_scope :: work_scope
  wf_objective :: string
  wf_constraints :: "string list"
  wf_acceptance :: "string list"
  wf_status :: work_form_status
  wf_revision :: nat
  wf_change_reason :: "string option"
  wf_items :: "work_item list"
  wf_created_at :: timestamp
  wf_updated_at :: timestamp

definition blocking_items :: "work_item list \<Rightarrow> work_item list" where
  "blocking_items items = filter (\<lambda>i. wi_completion_disposition i = BlockingWork) items"

definition items_status :: "work_item list \<Rightarrow> work_form_status" where
  "items_status items =
     (let blocking = blocking_items items in
        if items = [] then FormActive
        else if list_ex (\<lambda>i. wi_status i = ItemBlocked \<or> wi_status i = ItemCancelled) blocking then FormBlocked
        else if list_ex (\<lambda>i. wi_status i = ItemDeferred) blocking then FormPaused
        else if list_ex (\<lambda>i. is_actionable (wi_status i)) blocking then FormActive
        else FormCompleted)"

definition recalculate_status :: "timestamp \<Rightarrow> work_form \<Rightarrow> work_form" where
  "recalculate_status now form =
     form\<lparr>wf_status := items_status (wf_items form), wf_updated_at := now\<rparr>"

definition work_form_new ::
    "(uuid \<Rightarrow> string \<Rightarrow> uuid) \<Rightarrow> timestamp \<Rightarrow> uuid \<Rightarrow> work_scope \<Rightarrow> string \<Rightarrow> work_item list \<Rightarrow> work_form" where
  "work_form_new uuid_v5 now thread_id scope objective items =
     recalculate_status now
       \<lparr>wf_id = form_id uuid_v5 scope, wf_thread_id = thread_id, wf_scope = scope,
        wf_objective = objective, wf_constraints = [], wf_acceptance = [], wf_status = FormActive,
        wf_revision = 0, wf_change_reason = None, wf_items = items, wf_created_at = now,
        wf_updated_at = now\<rparr>"

definition empty_goal :: "(uuid \<Rightarrow> string \<Rightarrow> uuid) \<Rightarrow> timestamp \<Rightarrow> uuid \<Rightarrow> uuid \<Rightarrow> string \<Rightarrow> work_form" where
  "empty_goal uuid_v5 now thread_id goal_id objective =
     work_form_new uuid_v5 now thread_id (GoalScope goal_id) objective []"

definition completed_items :: "work_form \<Rightarrow> nat" where
  "completed_items form = length (filter (\<lambda>i. wi_status i = ItemCompleted) (wf_items form))"

definition resolved_items :: "work_form \<Rightarrow> nat" where
  "resolved_items form = length (filter (\<lambda>i. is_resolved (wi_status i)) (wf_items form))"

definition dependencies_complete :: "work_item list \<Rightarrow> work_item \<Rightarrow> bool" where
  "dependencies_complete items i \<longleftrightarrow>
     list_all (\<lambda>d. list_ex (\<lambda>c. wi_id c = d \<and> wi_status c = ItemCompleted) items) (wi_depends_on i)"

definition next_runnable_item :: "work_form \<Rightarrow> work_item option" where
  "next_runnable_item form =
     (case find (\<lambda>i. wi_status i = ItemInProgress) (wf_items form) of
        Some i \<Rightarrow> Some i
      | None \<Rightarrow>
          find (\<lambda>i. wi_status i = ItemPending \<and> dependencies_complete (wf_items form) i) (wf_items form))"

definition blocking_items_complete :: "work_form \<Rightarrow> bool" where
  "blocking_items_complete form \<longleftrightarrow>
     wf_items form \<noteq> []
     \<and> list_all (\<lambda>i. wi_completion_disposition i = AdvisoryWork \<or> wi_status i = ItemCompleted) (wf_items form)"

definition set_form_status :: "timestamp \<Rightarrow> work_form_status \<Rightarrow> work_form \<Rightarrow> work_form" where
  "set_form_status now status form = form\<lparr>wf_status := status, wf_updated_at := now\<rparr>"

section \<open>Validation\<close>

datatype work_form_error =
    EmptyObjective
  | CompletedWithOpenItems
  | EmptyItemId
  | EmptyItemTitle
  | DuplicateItemId string
  | DuplicateItemTitle string
  | NoteRequired string work_item_status
  | SelfDependency string
  | UnknownDependency string string
  | DependencyIncomplete string work_item_status string
  | AcceptanceRequired string
  | EvidenceRequired string
  | TooManyInProgress
  | DependencyCycle "string list"
  | RevisionOverflow
  | EmptyText string
  | TextTooLong string nat
  | TooManyValues string nat
  | DuplicateValue string string
  | MissingThread
  | MissingScope
  | MissingGoalForm

fun check_dependencies :: "work_item list \<Rightarrow> work_item \<Rightarrow> string list \<Rightarrow> work_form_error + unit" where
  "check_dependencies items i [] = Inr ()"
| "check_dependencies items i (d # ds) =
     res_ensure (d \<noteq> wi_id i) (SelfDependency (wi_id i))
     (res_bind (ok_or (find (\<lambda>c. wi_id c = d) items) (UnknownDependency (wi_id i) d)) (\<lambda>dep.
      res_ensure (wi_status i \<in> {ItemInProgress, ItemCompleted} \<longrightarrow> wi_status dep = ItemCompleted)
        (DependencyIncomplete (wi_id i) (wi_status i) d)
      (check_dependencies items i ds)))"

definition check_item ::
    "(string \<Rightarrow> string) \<Rightarrow> bool \<Rightarrow> work_item list \<Rightarrow> string set \<Rightarrow> string set \<Rightarrow> work_item
      \<Rightarrow> work_form_error + unit" where
  \<comment> \<open>the body of the loop over the items\<close>
  "check_item lowercase governed items ids titles i =
     res_ensure (trim (wi_id i) \<noteq> []) EmptyItemId
     (res_ensure (trim (wi_title i) \<noteq> []) EmptyItemTitle
     (res_ensure (wi_id i \<notin> ids) (DuplicateItemId (wi_id i))
     (res_ensure (lowercase (wi_title i) \<notin> titles) (DuplicateItemTitle (wi_title i))
     (res_ensure (governed \<longrightarrow> \<not> requires_note (wi_status i)
          \<or> (case wi_note i of Some n \<Rightarrow> trim n \<noteq> [] | None \<Rightarrow> False)) (NoteRequired (wi_id i) (wi_status i))
     (res_bind (check_dependencies items i (wi_depends_on i)) (\<lambda>_.
      res_ensure (governed \<and> wi_status i = ItemCompleted \<longrightarrow> wi_acceptance i \<noteq> [])
        (AcceptanceRequired (wi_id i))
     (res_ensure (governed \<and> wi_status i = ItemCompleted \<longrightarrow> wi_evidence_refs i \<noteq> [])
        (EvidenceRequired (wi_id i))
     (Inr ()))))))))"

fun check_items ::
    "(string \<Rightarrow> string) \<Rightarrow> bool \<Rightarrow> work_item list \<Rightarrow> string set \<Rightarrow> string set \<Rightarrow> nat \<Rightarrow> work_item list
      \<Rightarrow> work_form_error + nat" where
  "check_items lowercase governed items ids titles in_progress [] = Inr in_progress"
| "check_items lowercase governed items ids titles in_progress (i # rest) =
     res_bind (check_item lowercase governed items ids titles i) (\<lambda>_.
       check_items lowercase governed items (insert (wi_id i) ids) (insert (lowercase (wi_title i)) titles)
         (in_progress + (if wi_status i = ItemInProgress then 1 else 0)) rest)"

type_synonym dependency_map = "(string, string set) btree"

definition resolved_ids :: "dependency_map \<Rightarrow> string list" where
  "resolved_ids unresolved = map fst (filter (\<lambda>(i, ds). ds = {}) unresolved)"

definition drop_resolved :: "string list \<Rightarrow> dependency_map \<Rightarrow> dependency_map" where
  "drop_resolved resolved unresolved =
     map (\<lambda>(i, ds). (i, ds - set resolved)) (fold bt_remove resolved unresolved)"

lemma fold_bt_remove: "fold bt_remove ks m = filter (\<lambda>(k, v). k \<notin> set ks) m"
  by (induction ks arbitrary: m) (auto simp: bt_remove_def intro: filter_cong)

lemma length_drop_resolved:
  assumes "resolved_ids m \<noteq> []"
  shows "length (drop_resolved (resolved_ids m) m) < length m"
proof -
  obtain i where "i \<in> set (resolved_ids m)" using assms by (cases "resolved_ids m") auto
  then obtain ds where "(i, ds) \<in> set m" "i \<in> set (resolved_ids m)"
    by (auto simp: resolved_ids_def)
  then have "length (filter (\<lambda>(k, v). k \<notin> set (resolved_ids m)) m) < length m"
    by (intro length_filter_less [of "(i, ds)"]) auto
  then show ?thesis by (simp add: drop_resolved_def fold_bt_remove)
qed

function check_cycles :: "dependency_map \<Rightarrow> work_form_error + unit" where
  "check_cycles unresolved =
     (if unresolved = [] then Inr ()
      else if resolved_ids unresolved = [] then Inl (DependencyCycle (map fst unresolved))
      else check_cycles (drop_resolved (resolved_ids unresolved) unresolved))"
  by pat_completeness auto
termination
  by (relation "measure length") (auto intro: length_drop_resolved)

declare check_cycles.simps [simp del]

definition dependency_map_of :: "work_item list \<Rightarrow> dependency_map" where
  "dependency_map_of items = bt_extend (map (\<lambda>i. (wi_id i, set (wi_depends_on i))) items) []"

definition is_governed :: "work_scope \<Rightarrow> bool" where
  "is_governed scope = (case scope of GoalScope _ \<Rightarrow> True | TurnScope _ \<Rightarrow> False)"

definition validate_work_form :: "(string \<Rightarrow> string) \<Rightarrow> work_form \<Rightarrow> work_form_error + unit" where
  "validate_work_form lowercase form =
     res_ensure (trim (wf_objective form) \<noteq> []) EmptyObjective
     (res_ensure (wf_status form \<noteq> FormCompleted \<or> blocking_items_complete form) CompletedWithOpenItems
     (res_bind (check_items lowercase (is_governed (wf_scope form)) (wf_items form) {} {} 0 (wf_items form))
        (\<lambda>in_progress.
     res_ensure (in_progress \<le> 1) TooManyInProgress
     (check_cycles (dependency_map_of (wf_items form))))))"

section \<open>Signals of a form\<close>

definition scope_json :: "work_scope \<Rightarrow> json" where
  "scope_json scope =
     json_of_map [(''kind'', JString (scope_kind scope)), (''id'', JString (scope_id scope))]"

definition item_signal :: "work_form \<Rightarrow> work_item \<Rightarrow> completion_signal" where
  "item_signal form i =
     \<lparr>cs_source_id = ''work_form:'' @ wf_id form @ '':'' @ wi_id i,
      cs_disposition = wi_completion_disposition i,
      cs_message = ''Work item `'' @ wi_title i @ ''` is still '' @ item_status_debug (wi_status i) @ ''.'',
      cs_details = json_of_map
        [(''kind'', JString ''work_item_pending''), (''formId'', JString (wf_id form)),
         (''scope'', scope_json (wf_scope form)), (''revision'', JNumber (PosInt (wf_revision form))),
         (''itemId'', JString (wi_id i)), (''title'', JString (wi_title i)),
         (''status'', JString (item_status_str (wi_status i)))]\<rparr>"

definition empty_form_signal :: "work_form \<Rightarrow> completion_signal" where
  "empty_form_signal form =
     blocking_signal (''work_form:'' @ wf_id form)
       ''The Goal work form has no committed work items yet.''
       (json_of_map
         [(''kind'', JString ''work_form_empty''), (''formId'', JString (wf_id form)),
          (''scope'', scope_json (wf_scope form)), (''revision'', JNumber (PosInt (wf_revision form)))])"

definition completion_signals :: "work_form \<Rightarrow> completion_signal list" where
  "completion_signals form =
     (if wf_status form \<in> {FormBlocked, FormPaused, FormCancelled} then []
      else if wf_items form = [] then
        (if is_governed (wf_scope form) then [empty_form_signal form] else [])
      else map (item_signal form) (filter (\<lambda>i. is_actionable (wi_status i)) (wf_items form)))"

definition registry_signals :: "work_form list \<Rightarrow> completion_signal list" where
  \<comment> \<open>\<open>DefaultCompletionRegistry::signals\<close>\<close>
  "registry_signals forms = concat (map completion_signals forms)"

definition item_lines :: "work_item \<Rightarrow> string list" where
  "item_lines i =
     [''- '' @ wi_id i @ '' ['' @ item_status_debug (wi_status i) @ '']: '' @ wi_title i]
     @ (case wi_note i of Some note_text \<Rightarrow> [''  Note: '' @ note_text] | None \<Rightarrow> [])
     @ (if wi_depends_on i \<noteq> [] then [''  Depends on: '' @ join_str '', '' (wi_depends_on i)] else [])
     @ map (\<lambda>a. ''  Acceptance: '' @ a) (wi_acceptance i)
     @ map (\<lambda>r. ''  Evidence: '' @ r) (wi_evidence_refs i)"

definition render_for_model :: "work_form \<Rightarrow> string" where
  "render_for_model form =
     join_str [char_of (10::nat)]
       ([''Objective: '' @ wf_objective form,
         ''Work form revision: '' @ show_nat (wf_revision form),
         ''Status: '' @ form_status_debug (wf_status form)]
        @ (case wf_change_reason form of Some reason \<Rightarrow> [''Last change: '' @ reason] | None \<Rightarrow> [])
        @ concat (map item_lines (wf_items form)))"

section \<open>The dependency check\<close>

definition dependency_edges :: "dependency_map \<Rightarrow> (string \<times> string) set" where
  "dependency_edges m = {(d, i). \<exists>ds. (i, ds) \<in> set m \<and> d \<in> ds}"

definition closed_dependencies :: "dependency_map \<Rightarrow> bool" where
  "closed_dependencies m \<longleftrightarrow> distinct (map fst m) \<and> finite (dependency_edges m)
     \<and> Domain (dependency_edges m) \<subseteq> fst ` set m"

lemma set_drop_resolved:
  "(i, ds) \<in> set (drop_resolved ks m) \<longleftrightarrow> (\<exists>ds'. (i, ds') \<in> set m \<and> i \<notin> set ks \<and> ds = ds' - set ks)"
  by (force simp: drop_resolved_def fold_bt_remove)

lemma dependency_edges_drop_resolved:
  "dependency_edges (drop_resolved ks m) = {(d, i) \<in> dependency_edges m. d \<notin> set ks \<and> i \<notin> set ks}"
  by (auto simp: dependency_edges_def set_drop_resolved)

lemma resolved_has_no_edge:
  assumes "distinct (map fst m)" "i \<in> set (resolved_ids m)"
  shows "(d, i) \<notin> dependency_edges m"
proof
  assume "(d, i) \<in> dependency_edges m"
  then obtain ds where "(i, ds) \<in> set m" "d \<in> ds" by (auto simp: dependency_edges_def)
  moreover from assms(2) have "(i, {}) \<in> set m" by (auto simp: resolved_ids_def)
  ultimately show False using assms(1) by (metis empty_iff eq_key_imp_eq_value)
qed

lemma closed_drop_resolved:
  assumes "closed_dependencies m"
  shows "closed_dependencies (drop_resolved ks m)"
proof -
  have keys: "map fst (drop_resolved ks m) = filter (\<lambda>k. k \<notin> set ks) (map fst m)"
    by (simp add: drop_resolved_def fold_bt_remove filter_map comp_def case_prod_unfold)
  have "fst ` set (drop_resolved ks m) = set (map fst (drop_resolved ks m))" by simp
  also have "\<dots> = fst ` set m - set ks" unfolding keys by auto
  finally show ?thesis using keys
    using assms by (auto simp: closed_dependencies_def dependency_edges_drop_resolved
        intro: finite_subset [of _ "dependency_edges m"])
qed

lemma cycle_avoids_resolved:
  assumes "(x, y) \<in> (dependency_edges m)\<^sup>+" "distinct (map fst m)" "x \<notin> set (resolved_ids m)"
  shows "(x, y) \<in> (dependency_edges (drop_resolved (resolved_ids m) m))\<^sup>+"
  using assms(1)
proof (induction rule: trancl_induct)
  case (base y)
  then show ?case
    using assms(3) resolved_has_no_edge [OF assms(2)]
    by (auto simp: dependency_edges_drop_resolved)
next
  case (step y z)
  have "y \<notin> set (resolved_ids m)"
    using step.hyps(1) resolved_has_no_edge [OF assms(2)] by (metis tranclD2)
  with step.hyps(2) have "(y, z) \<in> dependency_edges (drop_resolved (resolved_ids m) m)"
    using resolved_has_no_edge [OF assms(2)] by (auto simp: dependency_edges_drop_resolved)
  with step.IH show ?case by (rule trancl_into_trancl)
qed

lemma acyclic_drop_resolved:
  assumes "distinct (map fst m)"
  shows "acyclic (dependency_edges (drop_resolved (resolved_ids m) m)) \<longleftrightarrow> acyclic (dependency_edges m)"
proof
  assume *: "acyclic (dependency_edges (drop_resolved (resolved_ids m) m))"
  show "acyclic (dependency_edges m)"
  proof (rule acyclicI, rule allI, rule notI)
    fix x assume cycle: "(x, x) \<in> (dependency_edges m)\<^sup>+"
    then have "x \<notin> set (resolved_ids m)"
      using resolved_has_no_edge [OF assms] by (metis tranclD2)
    with cycle_avoids_resolved [OF cycle assms] * show False
      by (auto simp: acyclic_def)
  qed
next
  assume "acyclic (dependency_edges m)"
  then show "acyclic (dependency_edges (drop_resolved (resolved_ids m) m))"
    by (rule acyclic_subset) (auto simp: dependency_edges_drop_resolved)
qed

lemma unresolvable_is_cyclic:
  assumes "closed_dependencies m" "m \<noteq> []" "resolved_ids m = []"
  shows "\<not> acyclic (dependency_edges m)"
proof
  assume "acyclic (dependency_edges m)"
  then have "wf (dependency_edges m)"
    using assms(1) by (simp add: closed_dependencies_def finite_acyclic_wf)
  moreover from assms(2) obtain k where "k \<in> fst ` set m" by (cases m) auto
  ultimately obtain z where z: "z \<in> fst ` set m"
    and minimal: "\<And>y. (y, z) \<in> dependency_edges m \<Longrightarrow> y \<notin> fst ` set m"
    using wfE_min [of "dependency_edges m" k "fst ` set m"] by metis
  from z obtain ds where ds: "(z, ds) \<in> set m" by auto
  with assms(3) have "ds \<noteq> {}" by (auto simp: resolved_ids_def filter_empty_conv)
  then obtain d where "(d, z) \<in> dependency_edges m" using ds by (auto simp: dependency_edges_def)
  with minimal assms(1) show False by (force simp: closed_dependencies_def)
qed

lemma check_cycles_iff:
  "closed_dependencies m \<Longrightarrow> check_cycles m = Inr () \<longleftrightarrow> acyclic (dependency_edges m)"
proof (induction m rule: check_cycles.induct)
  case (1 m)
  consider "m = []" | "m \<noteq> []" "resolved_ids m = []" | "m \<noteq> []" "resolved_ids m \<noteq> []" by blast
  then show ?case
  proof cases
    case 1
    then show ?thesis by (simp add: check_cycles.simps dependency_edges_def acyclic_def)
  next
    case 2
    with unresolvable_is_cyclic [OF "1.prems"] show ?thesis by (simp add: check_cycles.simps)
  next
    case 3
    with "1.IH" [OF 3 closed_drop_resolved [OF "1.prems"]] "1.prems" show ?thesis
      by (simp add: check_cycles.simps [of m] acyclic_drop_resolved closed_dependencies_def)
  qed
qed

section \<open>Valid forms\<close>

definition depends_on :: "work_item list \<Rightarrow> (string \<times> string) set" where
  "depends_on items = {(d, wi_id i) | d i. i \<in> set items \<and> d \<in> set (wi_depends_on i)}"

lemma depends_on_simps:
  "depends_on [] = {}"
  "depends_on (i # items) = (\<lambda>d. (d, wi_id i)) ` set (wi_depends_on i) \<union> depends_on items"
  by (auto simp: depends_on_def)

definition dependency_ok :: "work_item list \<Rightarrow> work_item \<Rightarrow> string \<Rightarrow> bool" where
  "dependency_ok items i d \<longleftrightarrow>
     (\<exists>c \<in> set items. wi_id c = d
        \<and> (wi_status i = ItemInProgress \<or> wi_status i = ItemCompleted \<longrightarrow> wi_status c = ItemCompleted))"

definition item_ok :: "bool \<Rightarrow> work_item \<Rightarrow> bool" where
  "item_ok governed i \<longleftrightarrow>
     trim (wi_id i) \<noteq> [] \<and> trim (wi_title i) \<noteq> []
     \<and> (governed \<and> requires_note (wi_status i) \<longrightarrow> (\<exists>n. wi_note i = Some n \<and> trim n \<noteq> []))
     \<and> (governed \<and> wi_status i = ItemCompleted \<longrightarrow> wi_acceptance i \<noteq> [] \<and> wi_evidence_refs i \<noteq> [])"

definition item_valid :: "bool \<Rightarrow> work_item list \<Rightarrow> work_item \<Rightarrow> bool" where
  "item_valid governed items i \<longleftrightarrow>
     item_ok governed i \<and> (\<forall>d \<in> set (wi_depends_on i). d \<noteq> wi_id i \<and> dependency_ok items i d)"

lemma find_unique:
  assumes "distinct (map f xs)" "x \<in> set xs" "f x = k"
  shows "find (\<lambda>c. f c = k) xs = Some x"
  using assms
proof (induction xs)
  case (Cons y ys)
  then show ?case by (cases "f y = k") (auto simp: rev_image_eqI)
qed simp

lemma check_dependencies_Inr:
  assumes "distinct (map wi_id items)"
  shows "check_dependencies items i ds = Inr () \<longleftrightarrow>
    (\<forall>d \<in> set ds. d \<noteq> wi_id i \<and> dependency_ok items i d)"
proof (induction ds)
  case (Cons d ds)
  have "(\<exists>c. find (\<lambda>c. wi_id c = d) items = Some c
           \<and> (wi_status i \<in> {ItemInProgress, ItemCompleted} \<longrightarrow> wi_status c = ItemCompleted))
        \<longleftrightarrow> dependency_ok items i d"
  proof
    assume "dependency_ok items i d"
    then obtain c where c: "c \<in> set items" "wi_id c = d"
      and finished: "wi_status i = ItemInProgress \<or> wi_status i = ItemCompleted \<longrightarrow> wi_status c = ItemCompleted"
      by (auto simp: dependency_ok_def)
    with find_unique [OF assms c] show "\<exists>c. find (\<lambda>c. wi_id c = d) items = Some c
        \<and> (wi_status i \<in> {ItemInProgress, ItemCompleted} \<longrightarrow> wi_status c = ItemCompleted)" by simp
  next
    assume "\<exists>c. find (\<lambda>c. wi_id c = d) items = Some c
        \<and> (wi_status i \<in> {ItemInProgress, ItemCompleted} \<longrightarrow> wi_status c = ItemCompleted)"
    then show "dependency_ok items i d"
      by (auto simp: dependency_ok_def dest!: find_Some_in)
  qed
  moreover have "check_dependencies items i (d # ds) = Inr () \<longleftrightarrow> d \<noteq> wi_id i
      \<and> (\<exists>c. find (\<lambda>c. wi_id c = d) items = Some c
           \<and> (wi_status i \<in> {ItemInProgress, ItemCompleted} \<longrightarrow> wi_status c = ItemCompleted))
      \<and> check_dependencies items i ds = Inr ()"
    by (simp only: check_dependencies.simps res_Inr_iffs) blast
  ultimately show ?case using Cons.IH by simp
qed simp

lemma check_item_Inr:
  assumes "distinct (map wi_id items)"
  shows "check_item lowercase governed items ids titles i = Inr () \<longleftrightarrow>
    item_valid governed items i \<and> wi_id i \<notin> ids \<and> lowercase (wi_title i) \<notin> titles"
proof -
  have "(case wi_note i of Some n \<Rightarrow> trim n \<noteq> [] | None \<Rightarrow> False)
      \<longleftrightarrow> (\<exists>n. wi_note i = Some n \<and> trim n \<noteq> [])"
    by (simp split: option.splits)
  moreover have "(\<exists>u. check_dependencies items i (wi_depends_on i) = Inr u) \<longleftrightarrow>
      (\<forall>d \<in> set (wi_depends_on i). d \<noteq> wi_id i \<and> dependency_ok items i d)"
    using check_dependencies_Inr [OF assms] by simp
  ultimately show ?thesis
    unfolding check_item_def item_valid_def item_ok_def by (simp add: res_Inr_iffs) blast
qed

lemma check_items_ids:
  "check_items lowercase governed items ids titles n rest = Inr m \<Longrightarrow>
     distinct (map wi_id rest) \<and> set (map wi_id rest) \<inter> ids = {}"
  by (induction rest arbitrary: ids titles n)
     (auto simp: res_Inr_iffs check_item_def, blast+)

lemma disjoint_insert_iff: "A \<inter> insert x B = {} \<longleftrightarrow> x \<notin> A \<and> A \<inter> B = {}"
  by blast

lemma check_items_Inr:
  assumes "distinct (map wi_id items)"
  shows "check_items lowercase governed items ids titles n rest = Inr m \<longleftrightarrow>
    distinct (map wi_id rest) \<and> set (map wi_id rest) \<inter> ids = {}
    \<and> distinct (map (lowercase \<circ> wi_title) rest) \<and> set (map (lowercase \<circ> wi_title) rest) \<inter> titles = {}
    \<and> (\<forall>i \<in> set rest. item_valid governed items i)
    \<and> m = n + length (filter (\<lambda>i. wi_status i = ItemInProgress) rest)"
proof (induction rest arbitrary: ids titles n)
  case (Cons i rest)
  have unfolded: "check_items lowercase governed items ids titles n (i # rest) = Inr m \<longleftrightarrow>
      check_item lowercase governed items ids titles i = Inr ()
      \<and> check_items lowercase governed items (insert (wi_id i) ids) (insert (lowercase (wi_title i)) titles)
          (n + (if wi_status i = ItemInProgress then 1 else 0)) rest = Inr m"
    by (simp add: res_bind_Inr_iff)
  show ?case
    unfolding unfolded check_item_Inr [OF assms] Cons.IH
    by (simp add: disjoint_insert_iff comp_def conj_ac)
qed auto

lemma map_of_rev_unique: "distinct (map fst xs) \<Longrightarrow> map_of (rev xs) = map_of xs"
  by (intro map_of_inject_set [THEN iffD2]) (simp_all add: rev_map [symmetric])

lemma dependency_map_of_edges:
  assumes "distinct (map wi_id items)"
  shows "dependency_edges (dependency_map_of items) = depends_on items"
    and "distinct (map fst (dependency_map_of items))"
    and "fst ` set (dependency_map_of items) = wi_id ` set items"
proof -
  let ?m = "dependency_map_of items"
  have inv: "bt_inv ?m" unfolding dependency_map_of_def by (rule bt_inv_extend) (simp add: bt_inv_def)
  then show distinct: "distinct (map fst ?m)" by (rule bt_inv_distinct)
  have lookup: "bt_get ?m k = map_of (map (\<lambda>i. (wi_id i, set (wi_depends_on i))) items) k" for k
    using assms unfolding dependency_map_of_def
    by (simp add: bt_get_extend map_of_rev_unique comp_def split: option.splits)
  have entry: "(k, ds) \<in> set ?m \<longleftrightarrow>
      map_of (map (\<lambda>i. (wi_id i, set (wi_depends_on i))) items) k = Some ds" for k ds
    by (simp only: map_of_eq_Some_iff [OF distinct, symmetric] bt_get_map_of [symmetric] lookup)
  have "distinct (map fst (map (\<lambda>i. (wi_id i, set (wi_depends_on i))) items))"
    using assms by (simp add: comp_def)
  then have entries: "(k, ds) \<in> set ?m \<longleftrightarrow> (k, ds) \<in> (\<lambda>i. (wi_id i, set (wi_depends_on i))) ` set items" for k ds
    by (simp only: entry map_of_eq_Some_iff set_map)
  then have set: "set ?m = (\<lambda>i. (wi_id i, set (wi_depends_on i))) ` set items" by auto
  show "dependency_edges ?m = depends_on items"
    by (auto simp: dependency_edges_def depends_on_def set)
  show "fst ` set ?m = wi_id ` set items"
    by (simp add: set image_image)
qed

lemma dependencies_closed:
  assumes "distinct (map wi_id items)" "\<forall>i \<in> set items. item_valid governed items i"
  shows "closed_dependencies (dependency_map_of items)"
proof -
  have "depends_on items = (\<Union>i \<in> set items. (\<lambda>d. (d, wi_id i)) ` set (wi_depends_on i))"
    by (auto simp: depends_on_def)
  then have "finite (depends_on items)" by simp
  moreover have "Domain (depends_on items) \<subseteq> wi_id ` set items"
    using assms(2) by (fastforce simp: depends_on_def item_valid_def dependency_ok_def)
  ultimately show ?thesis
    by (simp add: closed_dependencies_def dependency_map_of_edges [OF assms(1)])
qed

definition work_form_ok :: "(string \<Rightarrow> string) \<Rightarrow> work_form \<Rightarrow> bool" where
  "work_form_ok lowercase form \<longleftrightarrow>
     trim (wf_objective form) \<noteq> []
     \<and> (wf_status form = FormCompleted \<longrightarrow> blocking_items_complete form)
     \<and> distinct (map wi_id (wf_items form))
     \<and> distinct (map (lowercase \<circ> wi_title) (wf_items form))
     \<and> (\<forall>i \<in> set (wf_items form). item_valid (is_governed (wf_scope form)) (wf_items form) i)
     \<and> length (filter (\<lambda>i. wi_status i = ItemInProgress) (wf_items form)) \<le> 1
     \<and> acyclic (depends_on (wf_items form))"

lemma validate_work_form_iff: "validate_work_form lowercase form = Inr () \<longleftrightarrow> work_form_ok lowercase form"
proof -
  let ?items = "wf_items form" and ?governed = "is_governed (wf_scope form)"
  let ?checked = "check_items lowercase ?governed ?items {} {} 0 ?items"
  show ?thesis
  proof (cases "distinct (map wi_id ?items)")
    case True
    have "(\<exists>m. ?checked = Inr m \<and> m \<le> 1 \<and> check_cycles (dependency_map_of ?items) = Inr ()) \<longleftrightarrow>
        distinct (map (lowercase \<circ> wi_title) ?items)
        \<and> (\<forall>i \<in> set ?items. item_valid ?governed ?items i)
        \<and> length (filter (\<lambda>i. wi_status i = ItemInProgress) ?items) \<le> 1
        \<and> acyclic (depends_on ?items)"
      unfolding check_items_Inr [OF True]
      using True dependencies_closed [OF True] check_cycles_iff dependency_map_of_edges(1) [OF True]
      by auto
    with True show ?thesis
      unfolding validate_work_form_def work_form_ok_def by (simp add: res_Inr_iffs)
  next
    case False
    then have "?checked \<noteq> Inr m" for m using check_items_ids by blast
    with False show ?thesis
      unfolding validate_work_form_def work_form_ok_def by (simp add: res_Inr_iffs)
  qed
qed

section \<open>Progress and completion\<close>

lemma find_Some_ex: "\<exists>x \<in> set xs. p x \<Longrightarrow> \<exists>y. find p xs = Some y"
  by (induction xs) auto

lemma valid_item_dependencies:
  assumes "work_form_ok lowercase form" "i \<in> set (wf_items form)" "d \<in> set (wi_depends_on i)"
  obtains c where "c \<in> set (wf_items form)" "wi_id c = d"
    "wi_status i = ItemInProgress \<or> wi_status i = ItemCompleted \<Longrightarrow> wi_status c = ItemCompleted"
  using assms by (auto simp: work_form_ok_def item_valid_def dependency_ok_def)

lemma in_progress_dependencies_complete:
  assumes "work_form_ok lowercase form" "i \<in> set (wf_items form)" "wi_status i = ItemInProgress"
  shows "dependencies_complete (wf_items form) i"
  unfolding dependencies_complete_def list_all_iff list_ex_iff
  using assms valid_item_dependencies [OF assms(1,2)] by metis

lemma minimal_pending:
  assumes "work_form_ok lowercase form" "i \<in> set (wf_items form)" "wi_status i = ItemPending"
  shows "\<exists>j \<in> set (wf_items form). wi_status j = ItemPending
    \<and> (\<forall>c \<in> set (wf_items form). wi_id c \<in> set (wi_depends_on j) \<longrightarrow> wi_status c \<noteq> ItemPending)"
proof -
  define pending where "pending = wi_id ` {i \<in> set (wf_items form). wi_status i = ItemPending}"
  have distinct: "distinct (map wi_id (wf_items form))"
    using assms(1) by (simp add: work_form_ok_def)
  have "closed_dependencies (dependency_map_of (wf_items form))"
    using assms(1) dependencies_closed [OF distinct] by (auto simp: work_form_ok_def)
  then have "wf (depends_on (wf_items form))"
    using assms(1) by (simp add: work_form_ok_def closed_dependencies_def
        dependency_map_of_edges [OF distinct] finite_acyclic_wf)
  moreover have "wi_id i \<in> pending" using assms by (auto simp: pending_def)
  ultimately obtain z where z: "z \<in> pending"
    and minimal: "\<And>y. (y, z) \<in> depends_on (wf_items form) \<Longrightarrow> y \<notin> pending"
    using wfE_min [of "depends_on (wf_items form)" "wi_id i" pending] by metis
  from z obtain j where j: "j \<in> set (wf_items form)" "wi_status j = ItemPending" "z = wi_id j"
    by (auto simp: pending_def)
  have "wi_status c \<noteq> ItemPending" if "c \<in> set (wf_items form)" "wi_id c \<in> set (wi_depends_on j)" for c
    using minimal [of "wi_id c"] j that by (auto simp: depends_on_def pending_def)
  with j show ?thesis by blast
qed

lemma classify_signals:
  "fold classify_signal signals report =
     \<lparr>cr_blockers = cr_blockers report @ filter (\<lambda>s. cs_disposition s = BlockingWork) signals,
      cr_reminders = cr_reminders report @ filter (\<lambda>s. cs_disposition s = AdvisoryWork) signals\<rparr>"
  by (induction signals arbitrary: report)
     (auto simp: classify_signal_def split: completion_disposition.splits)

lemma check_completion_blockers:
  "cr_blockers (check_completion signals) = filter (\<lambda>s. cs_disposition s = BlockingWork) signals"
  "cr_reminders (check_completion signals) = filter (\<lambda>s. cs_disposition s = AdvisoryWork) signals"
  by (simp_all add: check_completion_def classify_signals)

lemma items_status_completed:
  "items_status (wf_items form) = FormCompleted \<longleftrightarrow> blocking_items_complete form"
proof -
  have "wi_status i = ItemCompleted \<longleftrightarrow> \<not> (wi_status i = ItemBlocked \<or> wi_status i = ItemCancelled)
      \<and> wi_status i \<noteq> ItemDeferred \<and> \<not> is_actionable (wi_status i)" for i :: work_item
    by (cases "wi_status i") (simp_all add: is_actionable_def)
  moreover have "wi_completion_disposition i = AdvisoryWork \<longleftrightarrow> wi_completion_disposition i \<noteq> BlockingWork"
    for i :: work_item by (cases "wi_completion_disposition i") simp_all
  ultimately show ?thesis
    by (auto simp: items_status_def blocking_items_complete_def blocking_items_def Let_def
        list_ex_iff list_all_iff)
qed

section \<open>Properties\<close>

definition example_item :: "string \<Rightarrow> work_item_status \<Rightarrow> string list \<Rightarrow> work_item" where
  "example_item i status dependencies =
     \<lparr>wi_id = i, wi_title = i, wi_status = status, wi_completion_disposition = BlockingWork,
      wi_depends_on = dependencies, wi_note = None, wi_acceptance = [], wi_evidence_refs = []\<rparr>"

definition example_form :: "work_item list \<Rightarrow> work_form" where
  "example_form items = work_form_new (\<lambda>_ name. name) 0 ''t'' (TurnScope ''turn'') ''ship'' items"

text \<open>
  C30: The validation of a work form is exact.  It accepts a form exactly if its objective is not blank,
  a completed form has no open blocking item, the identifiers and the titles of the items are distinct,
  every item is complete (with a note, acceptance criteria and evidence where the form belongs to a
  goal) and depends on known items that are completed before it is begun, at most one item is in
  progress, and the dependencies have no cycle.  In particular the loop that peels off items without
  open dependencies ends, and it fails exactly on the forms with a cycle.
\<close>
theorem work_form_validation_is_exact:
  "validate_work_form lowercase form = Inr () \<longleftrightarrow>
     trim (wf_objective form) \<noteq> []
     \<and> (wf_status form \<noteq> FormCompleted \<or> blocking_items_complete form)
     \<and> distinct (map wi_id (wf_items form))
     \<and> distinct (map (lowercase \<circ> wi_title) (wf_items form))
     \<and> list_all (item_valid (is_governed (wf_scope form)) (wf_items form)) (wf_items form)
     \<and> length (filter (\<lambda>i. wi_status i = ItemInProgress) (wf_items form)) \<le> 1
     \<and> acyclic (depends_on (wf_items form))"
  unfolding validate_work_form_iff work_form_ok_def list_all_iff imp_conv_disj ..

theorem work_form_validation_is_exact_witness:
  "validate_work_form (\<lambda>s. s)
     (example_form [example_item ''a'' ItemPending [''b''], example_item ''b'' ItemPending [''a'']]) \<noteq> Inr ()"
proof -
  let ?items = "[example_item ''a'' ItemPending [''b''], example_item ''b'' ItemPending [''a'']]"
  have "(''a'', ''b'') \<in> depends_on ?items" "(''b'', ''a'') \<in> depends_on ?items"
    by (simp_all add: depends_on_simps example_item_def)
  then have "(''a'', ''a'') \<in> (depends_on ?items)\<^sup>+" by (rule trancl_into_trancl [OF r_into_trancl])
  moreover have "wf_items (example_form ?items) = ?items"
    by (simp add: example_form_def work_form_new_def recalculate_status_def)
  ultimately show ?thesis
    by (metis acyclic_def work_form_validation_is_exact)
qed

text \<open>
  C35: A valid form does not get stuck.  If no item of it was deferred, blocked or cancelled and some item
  is not completed, there is a next runnable item: it is in progress or pending, and everything it
  depends on is completed.
\<close>
theorem valid_work_form_progresses:
  assumes "validate_work_form lowercase form = Inr ()"
    and "\<forall>i \<in> set (wf_items form). \<not> requires_note (wi_status i)"
    and "\<exists>i \<in> set (wf_items form). wi_status i \<noteq> ItemCompleted"
  shows "\<exists>i \<in> set (wf_items form). next_runnable_item form = Some i
    \<and> is_actionable (wi_status i) \<and> dependencies_complete (wf_items form) i"
proof -
  have ok: "work_form_ok lowercase form" using assms(1) by (simp add: validate_work_form_iff)
  show ?thesis
  proof (cases "find (\<lambda>i. wi_status i = ItemInProgress) (wf_items form)")
    case (Some i)
    with find_Some_in [OF Some] in_progress_dependencies_complete [OF ok] show ?thesis
      by (auto simp: next_runnable_item_def is_actionable_def)
  next
    case None
    then have idle: "wi_status i \<noteq> ItemInProgress" if "i \<in> set (wf_items form)" for i
      using that by (simp add: find_None_iff)
    have settled: "wi_status i = ItemCompleted \<or> wi_status i = ItemPending" if "i \<in> set (wf_items form)" for i
      using idle [OF that] assms(2) that by (cases "wi_status i") (auto simp: requires_note_def)
    from assms(3) settled obtain i where i: "i \<in> set (wf_items form)" "wi_status i = ItemPending" by blast
    from minimal_pending [OF ok i] obtain j where j: "j \<in> set (wf_items form)" "wi_status j = ItemPending"
      and minimal: "\<forall>c \<in> set (wf_items form). wi_id c \<in> set (wi_depends_on j) \<longrightarrow> wi_status c \<noteq> ItemPending"
      by blast
    have "dependencies_complete (wf_items form) j"
      unfolding dependencies_complete_def list_all_iff list_ex_iff
    proof
      fix d assume d: "d \<in> set (wi_depends_on j)"
      with valid_item_dependencies [OF ok j(1)] obtain c where "c \<in> set (wf_items form)" "wi_id c = d" by blast
      with d minimal settled [of c] show "\<exists>c \<in> set (wf_items form). wi_id c = d \<and> wi_status c = ItemCompleted" by blast
    qed
    with j find_Some_ex [of "wf_items form" "\<lambda>i. wi_status i = ItemPending \<and> dependencies_complete (wf_items form) i"]
    obtain k where k: "find (\<lambda>i. wi_status i = ItemPending \<and> dependencies_complete (wf_items form) i)
        (wf_items form) = Some k" by blast
    with None find_Some_in [OF k] show ?thesis
      by (auto simp: next_runnable_item_def is_actionable_def)
  qed
qed

theorem valid_work_form_progresses_witness:
  "validate_work_form (\<lambda>s. s) (example_form [example_item ''b'' ItemPending [''a''], example_item ''a'' ItemPending []])
     = Inr ()
   \<and> (\<exists>i. next_runnable_item (example_form [example_item ''b'' ItemPending [''a''], example_item ''a'' ItemPending []])
        = Some i)"
proof -
  let ?items = "[example_item ''b'' ItemPending [''a''], example_item ''a'' ItemPending []]"
  have items: "wf_items (example_form items) = items" "wf_scope (example_form items) = TurnScope ''turn''"
    "wf_objective (example_form items) = ''ship''" for items
    by (simp_all add: example_form_def work_form_new_def recalculate_status_def)
  have trims: "trim ''a'' \<noteq> []" "trim ''b'' \<noteq> []" "trim ''ship'' \<noteq> []" by code_simp+
  have "depends_on ?items = {(''a'', ''b'')}"
    by (simp add: depends_on_simps example_item_def)
  then have "acyclic (depends_on ?items)"
    by (simp add: acyclic_insert wf_acyclic)
  moreover have "wf_status (example_form ?items) = FormActive"
    by (simp add: example_form_def work_form_new_def recalculate_status_def items_status_def
        blocking_items_def example_item_def is_actionable_def)
  ultimately have valid: "validate_work_form (\<lambda>s. s) (example_form ?items) = Inr ()"
    by (simp add: validate_work_form_iff work_form_ok_def items item_valid_def item_ok_def is_governed_def
        dependency_ok_def trims example_item_def)
  moreover have "\<forall>i \<in> set (wf_items (example_form ?items)). \<not> requires_note (wi_status i)"
    "\<exists>i \<in> set (wf_items (example_form ?items)). wi_status i \<noteq> ItemCompleted"
    by (simp_all add: items example_item_def requires_note_def)
  ultimately show ?thesis
    using valid_work_form_progresses [OF valid] by blast
qed

text \<open>
  The completion gate follows the status of a form.  For a form whose status was computed from its
  items, the gate lets the turn end exactly if the status permits it; it then finds the form completed
  exactly if every blocking item is completed; and advisory items are reported as reminders only, they
  never block.
\<close>
theorem completion_gate_follows_status:
  assumes "wf_items form \<noteq> []"
  shows "(cr_blockers (check_completion (completion_signals (recalculate_status now form))) = []
            \<longleftrightarrow> permits_invocation_end (wf_status (recalculate_status now form)))
    \<and> (wf_status (recalculate_status now form) = FormCompleted \<longleftrightarrow> blocking_items_complete form)
    \<and> set (cr_blockers (check_completion (completion_signals (recalculate_status now form))))
        \<subseteq> item_signal (recalculate_status now form) `
            {i \<in> set (wf_items form). wi_completion_disposition i = BlockingWork \<and> is_actionable (wi_status i)}"
proof -
  let ?form = "recalculate_status now form"
  have items: "wf_items ?form = wf_items form" "wf_status ?form = items_status (wf_items form)"
    by (simp_all add: recalculate_status_def)
  have disposition: "cs_disposition (item_signal ?form i) = wi_completion_disposition i" for i
    by (simp add: item_signal_def)
  have signals: "completion_signals ?form = (if items_status (wf_items form) \<in> {FormBlocked, FormPaused} then []
      else map (item_signal ?form) (filter (\<lambda>i. is_actionable (wi_status i)) (wf_items form)))"
    using assms unfolding completion_signals_def items
    by (auto simp: items_status_def Let_def)
  have "cr_blockers (check_completion (completion_signals ?form)) = []
      \<longleftrightarrow> permits_invocation_end (items_status (wf_items form))"
    using assms unfolding check_completion_blockers signals
    by (auto simp: filter_empty_conv disposition items_status_def Let_def permits_invocation_end_def
        list_ex_iff blocking_items_def)
  moreover have "set (cr_blockers (check_completion (completion_signals ?form)))
      \<subseteq> item_signal ?form `
            {i \<in> set (wf_items form). wi_completion_disposition i = BlockingWork \<and> is_actionable (wi_status i)}"
    unfolding check_completion_blockers signals by (auto simp: disposition)
  ultimately show ?thesis by (simp add: items items_status_completed)
qed

theorem completion_gate_follows_status_witness:
  "cr_blockers (check_completion (completion_signals
      (recalculate_status 0 (example_form [example_item ''a'' ItemPending []])))) \<noteq> []"
proof -
  have "wf_items (example_form [example_item ''a'' ItemPending []]) \<noteq> []"
    by (simp add: example_form_def work_form_new_def recalculate_status_def)
  from completion_gate_follows_status [OF this, of 0] show ?thesis
    by (simp add: recalculate_status_def example_form_def work_form_new_def items_status_def
        blocking_items_def example_item_def is_actionable_def permits_invocation_end_def)
qed

end
