(* ===== verification/Goal_Store.thy ===== *)
theory Goal_Store
  imports Work_Form
begin

text \<open>
  Goals and their stored work forms: the goal operations of \<open>store.rs\<close> and
  \<open>store/goal_event_repository.rs\<close>, the \<open>update_plan\<close> tool (\<open>tools/work_form_tools.rs\<close>), the endpoint that
  edits a goal (\<open>conversation_api.rs\<close> of the server), and the recovery of goals when the store is
  opened (\<open>store/sqlite_runtime.rs\<close>).

  The tables are ordered maps; a row of \<open>work_forms\<close> is the form its JSON text decodes to.  An operation
  that fails leaves the store as it was, except for \<open>create_goal\<close>, whose statements are not one
  transaction: it returns its result and the store.  The step relation \<open>goal_step\<close> interleaves all
  writers.
\<close>

section \<open>Goals\<close>

definition valid_goal_transition :: "work_form_status \<Rightarrow> work_form_status \<Rightarrow> bool" where
  "valid_goal_transition from to \<longleftrightarrow>
     from = to
     \<or> (case from of
          FormActive \<Rightarrow> to \<in> {FormPaused, FormBlocked, FormCompleted, FormCancelled}
        | FormPaused \<Rightarrow> to \<in> {FormActive, FormCancelled}
        | FormBlocked \<Rightarrow> to \<in> {FormActive, FormCancelled}
        | FormCompleted \<Rightarrow> False
        | FormCancelled \<Rightarrow> False)"

record goal_record =
  go_id :: uuid
  go_thread_id :: uuid
  go_objective :: string
  go_token_budget :: "int option" \<comment> \<open>the signed column\<close>
  go_tokens_used :: nat
  go_time_used_seconds :: nat
  go_version :: nat
  go_created_at :: timestamp
  go_updated_at :: timestamp

record goal_snapshot =
  sn_goal :: goal_record
  sn_work_form :: work_form

record goal_store =
  gs_threads :: "uuid list"
  gs_goals :: "(uuid, goal_record) btree"
  gs_forms :: "(uuid, work_form) btree"

datatype goal_error =
    EmptyGoalObjective
  | ObjectiveTooLong
  | ThreadNotFound uuid
  | DuplicateGoal uuid
  | InvalidTokenBudget
  | GoalFormMissing uuid
  | ForeignGoal uuid uuid
  | InvalidGoalTransition work_form_status work_form_status
  | FormIdMismatch
  | FormRevisionOverflow
  | TooManyEntries string
  | EmptyEntry string
  | EntryTooLong string
  | InvalidWorkForm work_form_error
  | NothingToChange
  | GoalNotFound uuid
  | StatusNotAllowed

definition u64_as_i64 :: "nat \<Rightarrow> int" where
  "u64_as_i64 n = (if n < 2 ^ 63 then int n else int n - 2 ^ 64)"

definition goal_record_new :: "timestamp \<Rightarrow> uuid \<Rightarrow> uuid \<Rightarrow> string \<Rightarrow> nat option \<Rightarrow> goal_record" where
  "goal_record_new now new_id thread_id objective token_budget =
     \<lparr>go_id = new_id, go_thread_id = thread_id, go_objective = objective,
      go_token_budget = map_option u64_as_i64 token_budget, go_tokens_used = 0,
      go_time_used_seconds = 0, go_version = 1, go_created_at = now, go_updated_at = now\<rparr>"

definition upsert_work_form_conn ::
    "(uuid \<Rightarrow> string \<Rightarrow> uuid) \<Rightarrow> work_form \<Rightarrow> goal_store \<Rightarrow> goal_error + goal_store" where
  "upsert_work_form_conn uuid_v5 form st =
     res_ensure (wf_id form = form_id uuid_v5 (wf_scope form)) FormIdMismatch
       (Inr (st\<lparr>gs_forms := bt_insert (wf_id form) form (gs_forms st)\<rparr>))"

definition query_work_form_for_scope ::
    "(uuid \<Rightarrow> string \<Rightarrow> uuid) \<Rightarrow> work_scope \<Rightarrow> goal_store \<Rightarrow> work_form option" where
  "query_work_form_for_scope uuid_v5 scope st = bt_get (gs_forms st) (form_id uuid_v5 scope)"

definition query_goal :: "uuid \<Rightarrow> goal_store \<Rightarrow> goal_error + goal_record option" where
  \<comment> \<open>\<open>query_goal\<close> with \<open>map_goal\<close>, which refuses a negative budget\<close>
  "query_goal i st =
     (case bt_get (gs_goals st) i of
        None \<Rightarrow> Inr None
      | Some g \<Rightarrow>
          res_ensure (case go_token_budget g of Some b \<Rightarrow> 0 \<le> b | None \<Rightarrow> True) InvalidTokenBudget
            (Inr (Some g)))"

definition load_goal_snapshot ::
    "(uuid \<Rightarrow> string \<Rightarrow> uuid) \<Rightarrow> uuid \<Rightarrow> goal_store \<Rightarrow> goal_error + goal_snapshot option" where
  "load_goal_snapshot uuid_v5 i st =
     res_bind (query_goal i st) (\<lambda>row.
       case row of
         None \<Rightarrow> Inr None
       | Some g \<Rightarrow>
           res_bind (ok_or (query_work_form_for_scope uuid_v5 (GoalScope i) st) (GoalFormMissing i)) (\<lambda>form.
             Inr (Some \<lparr>sn_goal = g\<lparr>go_objective := wf_objective form\<rparr>, sn_work_form = form\<rparr>)))"

definition create_goal ::
    "(uuid \<Rightarrow> string \<Rightarrow> uuid) \<Rightarrow> timestamp \<Rightarrow> uuid \<Rightarrow> uuid \<Rightarrow> string \<Rightarrow> nat option \<Rightarrow> goal_store
      \<Rightarrow> (goal_error + goal_snapshot option) \<times> goal_store" where
  "create_goal uuid_v5 now new_id thread_id objective0 token_budget st =
     (let objective = trim objective0 in
        if objective = [] then (Inl EmptyGoalObjective, st)
        else if thread_id \<notin> set (gs_threads st) then (Inl (ThreadNotFound thread_id), st)
        else if bt_contains (gs_goals st) new_id then (Inl (DuplicateGoal new_id), st)
        else
          (let goal = goal_record_new now new_id thread_id objective token_budget;
               st1 = st\<lparr>gs_goals := bt_insert new_id goal (gs_goals st)\<rparr>
           in case upsert_work_form_conn uuid_v5 (empty_goal uuid_v5 now thread_id new_id objective) st1 of
                Inl e \<Rightarrow> (Inl e, st1)
              | Inr st2 \<Rightarrow> (load_goal_snapshot uuid_v5 new_id st2, st2)))"

definition bump_goal :: "timestamp \<Rightarrow> uuid \<Rightarrow> goal_store \<Rightarrow> goal_store" where
  \<comment> \<open>\<open>UPDATE goals SET updated_at, version = version + 1\<close>\<close>
  "bump_goal now i st =
     st\<lparr>gs_goals := map (\<lambda>(k, g). (k, if k = i then g\<lparr>go_version := go_version g + 1, go_updated_at := now\<rparr> else g))
          (gs_goals st)\<rparr>"

definition update_goal_status ::
    "(uuid \<Rightarrow> string \<Rightarrow> uuid) \<Rightarrow> timestamp \<Rightarrow> uuid \<Rightarrow> uuid \<Rightarrow> work_form_status \<Rightarrow> goal_store
      \<Rightarrow> goal_error + goal_snapshot option \<times> goal_store" where
  "update_goal_status uuid_v5 now thread_id goal_id status st =
     res_bind (load_goal_snapshot uuid_v5 goal_id st) (\<lambda>loaded.
       case loaded of
         None \<Rightarrow> Inr (None, st)
       | Some current \<Rightarrow>
           res_ensure (go_thread_id (sn_goal current) = thread_id) (ForeignGoal goal_id thread_id)
           (res_ensure (valid_goal_transition (wf_status (sn_work_form current)) status)
              (InvalidGoalTransition (wf_status (sn_work_form current)) status)
           (let st1 = bump_goal now goal_id st in
            res_bind
              (case query_work_form_for_scope uuid_v5 (GoalScope goal_id) st1 of
                 Some form \<Rightarrow> upsert_work_form_conn uuid_v5 (set_form_status now status form) st1
               | None \<Rightarrow> Inr st1) (\<lambda>st2.
            res_bind (load_goal_snapshot uuid_v5 goal_id st2) (\<lambda>snapshot. Inr (snapshot, st2))))))"

fun validate_entries :: "string \<Rightarrow> string list \<Rightarrow> goal_error + string list" where
  "validate_entries field [] = Inr []"
| "validate_entries field (v # vs) =
     res_ensure (trim v \<noteq> []) (EmptyEntry field)
     (res_ensure (char_count (trim v) \<le> 300) (EntryTooLong field)
     (res_bind (validate_entries field vs) (\<lambda>rest. Inr (trim v # rest))))"

definition validate_goal_definition_list :: "string \<Rightarrow> string list \<Rightarrow> goal_error + string list" where
  "validate_goal_definition_list field vs =
     res_ensure (length vs \<le> 20) (TooManyEntries field) (validate_entries field vs)"

definition edit_objective :: "string option \<Rightarrow> work_form \<Rightarrow> goal_error + work_form" where
  "edit_objective objective0 form =
     (case objective0 of
        None \<Rightarrow> Inr form
      | Some o0 \<Rightarrow>
          res_ensure (trim o0 \<noteq> []) EmptyGoalObjective
          (res_ensure (char_count (trim o0) \<le> 300) ObjectiveTooLong
            (Inr (form\<lparr>wf_objective := trim o0\<rparr>))))"

definition u64_checked_succ :: "nat \<Rightarrow> nat option" where
  "u64_checked_succ n = (if n < 2 ^ 64 - 1 then Some (n + 1) else None)"

definition edited_definition ::
    "(string \<Rightarrow> string) \<Rightarrow> timestamp \<Rightarrow> string option \<Rightarrow> string list option \<Rightarrow> string list option \<Rightarrow> work_form
      \<Rightarrow> goal_error + work_form" where
  "edited_definition lowercase now objective constraints acceptance form0 =
     res_bind (edit_objective objective form0) (\<lambda>form1.
     res_bind (case constraints of
         None \<Rightarrow> Inr form1
       | Some cs \<Rightarrow> res_bind (validate_goal_definition_list ''constraints'' cs) (\<lambda>cs'.
           Inr (form1\<lparr>wf_constraints := cs'\<rparr>))) (\<lambda>form2.
     res_bind (case acceptance of
         None \<Rightarrow> Inr form2
       | Some xs \<Rightarrow> res_bind (validate_goal_definition_list ''acceptance'' xs) (\<lambda>xs'.
           Inr (form2\<lparr>wf_acceptance := xs'\<rparr>))) (\<lambda>form3.
     res_bind (ok_or (u64_checked_succ (wf_revision form3)) FormRevisionOverflow) (\<lambda>revision.
     let form = form3\<lparr>wf_revision := revision, wf_change_reason := Some ''explicit goal definition edit'',
           wf_updated_at := now\<rparr> in
     res_bind (map_err InvalidWorkForm (validate_work_form lowercase form)) (\<lambda>_. Inr form)))))"

definition update_goal_definition ::
    "(uuid \<Rightarrow> string \<Rightarrow> uuid) \<Rightarrow> (string \<Rightarrow> string) \<Rightarrow> timestamp \<Rightarrow> uuid \<Rightarrow> uuid \<Rightarrow> string option
      \<Rightarrow> string list option \<Rightarrow> string list option \<Rightarrow> goal_store
      \<Rightarrow> goal_error + goal_snapshot option \<times> goal_store" where
  "update_goal_definition uuid_v5 lowercase now thread_id goal_id objective constraints acceptance st =
     res_bind (load_goal_snapshot uuid_v5 goal_id st) (\<lambda>loaded.
       case loaded of
         None \<Rightarrow> Inr (None, st)
       | Some snapshot \<Rightarrow>
           res_ensure (go_thread_id (sn_goal snapshot) = thread_id) (ForeignGoal goal_id thread_id)
           (res_bind (edited_definition lowercase now objective constraints acceptance (sn_work_form snapshot))
             (\<lambda>form.
            res_bind (upsert_work_form_conn uuid_v5 form st) (\<lambda>st1.
            let st2 = bump_goal now goal_id st1 in
            res_bind (load_goal_snapshot uuid_v5 goal_id st2) (\<lambda>loaded'. Inr (loaded', st2))))))"

definition upsert_work_form ::
    "(uuid \<Rightarrow> string \<Rightarrow> uuid) \<Rightarrow> work_form \<Rightarrow> goal_store \<Rightarrow> goal_error + goal_store" where
  "upsert_work_form uuid_v5 form st =
     res_ensure (wf_thread_id form \<in> set (gs_threads st)) (ThreadNotFound (wf_thread_id form))
       (upsert_work_form_conn uuid_v5 form st)"

section \<open>The endpoint of a goal\<close>

record goal_request =
  gq_objective :: "string option"
  gq_constraints :: "string list option"
  gq_acceptance :: "string list option"
  gq_status :: "work_form_status option"

definition request_definition ::
    "(uuid \<Rightarrow> string \<Rightarrow> uuid) \<Rightarrow> (string \<Rightarrow> string) \<Rightarrow> timestamp \<Rightarrow> uuid \<Rightarrow> uuid \<Rightarrow> goal_request \<Rightarrow> goal_store
      \<Rightarrow> goal_error + goal_snapshot \<times> goal_store" where
  "request_definition uuid_v5 lowercase now thread_id goal_id q st =
     (if gq_objective q \<noteq> None \<or> gq_constraints q \<noteq> None \<or> gq_acceptance q \<noteq> None
      then res_bind (update_goal_definition uuid_v5 lowercase now thread_id goal_id
             (gq_objective q) (gq_constraints q) (gq_acceptance q) st) (\<lambda>(loaded, st1).
           res_bind (ok_or loaded (GoalNotFound goal_id)) (\<lambda>s. Inr (s, st1)))
      else res_bind (load_goal_snapshot uuid_v5 goal_id st) (\<lambda>loaded.
           res_bind (ok_or (case loaded of
               Some s \<Rightarrow> if go_thread_id (sn_goal s) = thread_id then Some s else None
             | None \<Rightarrow> None) (GoalNotFound goal_id)) (\<lambda>s. Inr (s, st))))"

definition request_status ::
    "(uuid \<Rightarrow> string \<Rightarrow> uuid) \<Rightarrow> timestamp \<Rightarrow> uuid \<Rightarrow> uuid \<Rightarrow> work_form_status \<Rightarrow> goal_store
      \<Rightarrow> goal_error + goal_snapshot \<times> goal_store" where
  "request_status uuid_v5 now thread_id goal_id status st =
     res_ensure (status \<in> {FormActive, FormPaused, FormCancelled}) StatusNotAllowed
       (res_bind (update_goal_status uuid_v5 now thread_id goal_id status st) (\<lambda>(loaded, st').
        res_bind (ok_or loaded (GoalNotFound goal_id)) (\<lambda>s. Inr (s, st'))))"

definition update_goal ::
    "(uuid \<Rightarrow> string \<Rightarrow> uuid) \<Rightarrow> (string \<Rightarrow> string) \<Rightarrow> timestamp \<Rightarrow> uuid \<Rightarrow> uuid \<Rightarrow> goal_request \<Rightarrow> goal_store
      \<Rightarrow> (goal_error + goal_snapshot) \<times> goal_store" where
  "update_goal uuid_v5 lowercase now thread_id goal_id q st =
     (if thread_id \<notin> set (gs_threads st) then (Inl (ThreadNotFound thread_id), st)
      else if gq_status q = None \<and> gq_objective q = None \<and> gq_constraints q = None \<and> gq_acceptance q = None
      then (Inl NothingToChange, st)
      else
        (case request_definition uuid_v5 lowercase now thread_id goal_id q st of
           Inl e \<Rightarrow> (Inl e, st)
         | Inr (snapshot, st1) \<Rightarrow>
             (case gq_status q of
                None \<Rightarrow> (Inr snapshot, st1)
              | Some status \<Rightarrow>
                  (case request_status uuid_v5 now thread_id goal_id status st1 of
                     Inl e \<Rightarrow> (Inl e, st1)
                   | Inr (s, st2) \<Rightarrow> (Inr s, st2)))))"

definition finalize_goal_after_turn ::
    "(uuid \<Rightarrow> string \<Rightarrow> uuid) \<Rightarrow> timestamp \<Rightarrow> uuid \<Rightarrow> bool \<Rightarrow> uuid option \<Rightarrow> goal_store \<Rightarrow> goal_store" where
  \<comment> \<open>\<open>cancelled_goal_turn\<close>: a turn in goal mode was cancelled\<close>
  "finalize_goal_after_turn uuid_v5 now thread_id cancelled_goal_turn goal_id0 st =
     (case goal_id0 of
        None \<Rightarrow> st
      | Some goal_id \<Rightarrow>
          if \<not> cancelled_goal_turn then st
          else
            (case load_goal_snapshot uuid_v5 goal_id st of
               Inr (Some current) \<Rightarrow>
                 if form_is_terminal (wf_status (sn_work_form current))
                    \<or> wf_status (sn_work_form current) = FormPaused then st
                 else (case update_goal_status uuid_v5 now thread_id goal_id FormPaused st of
                         Inr (_, st') \<Rightarrow> st'
                       | Inl _ \<Rightarrow> st)
             | _ \<Rightarrow> st))"

definition resolve_message_goal ::
    "(uuid \<Rightarrow> string \<Rightarrow> uuid) \<Rightarrow> timestamp \<Rightarrow> uuid \<Rightarrow> uuid \<Rightarrow> bool \<Rightarrow> uuid option \<Rightarrow> string \<Rightarrow> goal_store
      \<Rightarrow> (goal_error + goal_snapshot option) \<times> goal_store" where
  "resolve_message_goal uuid_v5 now new_id thread_id goal_mode requested objective st =
     (if \<not> goal_mode then ((if requested \<noteq> None then Inl StatusNotAllowed else Inr None), st)
      else
        (let (r, st1) =
           (case requested of
              Some goal_id \<Rightarrow>
                (res_bind (load_goal_snapshot uuid_v5 goal_id st) (\<lambda>s. ok_or s (GoalNotFound goal_id)), st)
            | None \<Rightarrow>
                (case create_goal uuid_v5 now new_id thread_id (trim objective) None st of
                   (r, st') \<Rightarrow> (res_bind r (\<lambda>s. ok_or s (GoalNotFound new_id)), st')))
         in case r of
              Inl e \<Rightarrow> (Inl e, st1)
            | Inr s \<Rightarrow>
                if go_thread_id (sn_goal s) \<noteq> thread_id then (Inl (ForeignGoal (go_id (sn_goal s)) thread_id), st1)
                else if form_is_terminal (wf_status (sn_work_form s)) then (Inl StatusNotAllowed, st1)
                else if wf_status (sn_work_form s) \<noteq> FormActive then
                  (case update_goal_status uuid_v5 now thread_id (go_id (sn_goal s)) FormActive st1 of
                     Inl e \<Rightarrow> (Inl e, st1)
                   | Inr (Some s', st2) \<Rightarrow> (Inr (Some s'), st2)
                   | Inr (None, st2) \<Rightarrow> (Inl (GoalNotFound (go_id (sn_goal s))), st2))
                else (Inr (Some s), st1)))"

section \<open>The plan tool\<close>

definition validate_text :: "string \<Rightarrow> string \<Rightarrow> nat \<Rightarrow> work_form_error + string" where
  "validate_text field v max_chars =
     res_ensure (trim v \<noteq> []) (EmptyText field)
     (res_ensure (char_count (trim v) \<le> max_chars) (TextTooLong field max_chars) (Inr (trim v)))"

fun validate_unique :: "(string \<Rightarrow> string) \<Rightarrow> nat \<Rightarrow> string \<Rightarrow> string set \<Rightarrow> string list \<Rightarrow> work_form_error + string list" where
  "validate_unique key max_chars field seen [] = Inr []"
| "validate_unique key max_chars field seen (v # vs) =
     res_bind (validate_text field v max_chars) (\<lambda>v'.
     res_ensure (key v' \<notin> seen) (DuplicateValue field v')
     (res_bind (validate_unique key max_chars field (insert (key v') seen) vs) (\<lambda>rest. Inr (v' # rest))))"

definition validate_list :: "(string \<Rightarrow> string) \<Rightarrow> string \<Rightarrow> string list \<Rightarrow> work_form_error + string list" where
  "validate_list lowercase field vs =
     res_ensure (length vs \<le> 20) (TooManyValues field 20) (validate_unique lowercase 300 field {} vs)"

definition validate_ids :: "string \<Rightarrow> string list \<Rightarrow> work_form_error + string list" where
  "validate_ids field vs =
     res_ensure (length vs \<le> 20) (TooManyValues field 20) (validate_unique (\<lambda>v. v) 100 field {} vs)"

record plan_item_input =
  pi_id :: "string option"
  pi_step :: string
  pi_status :: work_item_status
  pi_completion_disposition :: completion_disposition
  pi_depends_on :: "string list"
  pi_note :: "string option"
  pi_acceptance :: "string list"
  pi_evidence_refs :: "string list"

definition transpose_note :: "string option \<Rightarrow> work_form_error + string option" where
  "transpose_note n =
     (case n of None \<Rightarrow> Inr None | Some s \<Rightarrow> res_bind (validate_text ''plan.note'' s 1000) (\<lambda>t. Inr (Some t)))"

definition plan_item :: "(string \<Rightarrow> string) \<Rightarrow> nat \<times> plan_item_input \<Rightarrow> work_form_error + work_item" where
  "plan_item lowercase indexed =
     (let (index, p) = indexed in
      res_bind (validate_text ''plan.id''
         (case pi_id p of Some i \<Rightarrow> i | None \<Rightarrow> ''step_'' @ show_nat (index + 1)) 100) (\<lambda>i.
      res_bind (validate_text ''plan.step'' (pi_step p) 300) (\<lambda>title.
      res_bind (validate_ids ''plan.depends_on'' (pi_depends_on p)) (\<lambda>dependencies.
      res_bind (transpose_note (pi_note p)) (\<lambda>n.
      res_bind (validate_list lowercase ''plan.acceptance'' (pi_acceptance p)) (\<lambda>acceptance.
      res_bind (validate_list lowercase ''plan.evidence_refs'' (pi_evidence_refs p)) (\<lambda>evidence.
      Inr \<lparr>wi_id = i, wi_title = title, wi_status = pi_status p,
           wi_completion_disposition = pi_completion_disposition p, wi_depends_on = dependencies,
           wi_note = n, wi_acceptance = acceptance, wi_evidence_refs = evidence\<rparr>)))))))"

fun res_map :: "('a \<Rightarrow> 'e + 'b) \<Rightarrow> 'a list \<Rightarrow> 'e + 'b list" where
  "res_map f [] = Inr []"
| "res_map f (x # xs) = res_bind (f x) (\<lambda>y. res_bind (res_map f xs) (\<lambda>ys. Inr (y # ys)))"

record plan_context =
  pc_thread_id :: "uuid option"
  pc_goal_id :: "uuid option"
  pc_agent_turn_id :: "uuid option"
  pc_current_work_form :: "work_form option"

definition plan_scope :: "plan_context \<Rightarrow> work_form_error + uuid \<times> work_scope" where
  "plan_scope ctx =
     res_bind (ok_or (pc_thread_id ctx) MissingThread) (\<lambda>thread_id.
     res_bind (ok_or (case pc_goal_id ctx of
         Some g \<Rightarrow> Some (GoalScope g)
       | None \<Rightarrow> map_option TurnScope (pc_agent_turn_id ctx)) MissingScope) (\<lambda>scope.
     Inr (thread_id, scope)))"

definition update_plan ::
    "(uuid \<Rightarrow> string \<Rightarrow> uuid) \<Rightarrow> (string \<Rightarrow> string) \<Rightarrow> timestamp \<Rightarrow> plan_context \<Rightarrow> string option
      \<Rightarrow> plan_item_input list \<Rightarrow> work_form_error + work_form" where
  "update_plan uuid_v5 lowercase now ctx explanation plan =
     res_bind (plan_scope ctx) (\<lambda>(thread_id, scope).
     let existing = (case pc_current_work_form ctx of
           Some form \<Rightarrow> if wf_scope form = scope \<and> wf_thread_id form = thread_id then Some form else None
         | None \<Rightarrow> None) in
     res_bind (case (existing, scope) of
         (Some form, _) \<Rightarrow> Inr (wf_objective form)
       | (None, TurnScope _) \<Rightarrow> Inr ''Current task plan''
       | (None, GoalScope _) \<Rightarrow> Inl MissingGoalForm) (\<lambda>objective.
     res_bind (res_map (plan_item lowercase) (List.enumerate 0 plan)) (\<lambda>items.
     let form0 = work_form_new uuid_v5 now thread_id scope objective items in
     res_bind (case existing of
         Some e \<Rightarrow> res_bind (ok_or (u64_checked_succ (wf_revision e)) RevisionOverflow) (\<lambda>revision.
           Inr (form0\<lparr>wf_constraints := wf_constraints e, wf_acceptance := wf_acceptance e,
             wf_created_at := wf_created_at e, wf_revision := revision\<rparr>))
       | None \<Rightarrow> Inr (form0\<lparr>wf_revision := 1\<rparr>)) (\<lambda>form1.
     res_bind (case explanation of
         None \<Rightarrow> Inr None
       | Some r \<Rightarrow> res_bind (validate_text ''explanation'' r 2000) (\<lambda>t. Inr (Some t))) (\<lambda>reason.
     let form = form1\<lparr>wf_change_reason := reason, wf_updated_at := now\<rparr> in
     res_bind (validate_work_form lowercase form) (\<lambda>_. Inr form))))))"

section \<open>Recovery\<close>

definition interrupt_item :: "work_item \<Rightarrow> work_item" where
  "interrupt_item i =
     (if wi_status i = ItemInProgress
      then i\<lparr>wi_status := ItemBlocked, wi_note := Some ''server restarted during task execution''\<rparr> else i)"

definition recover_form :: "timestamp \<Rightarrow> work_form \<Rightarrow> work_form" where
  "recover_form now form =
     (if list_ex (\<lambda>i. wi_status i = ItemInProgress) (wf_items form)
      then form\<lparr>wf_items := map interrupt_item (wf_items form), wf_status := FormBlocked, wf_updated_at := now\<rparr>
      else form)"

definition recover_row ::
    "(uuid \<Rightarrow> string \<Rightarrow> uuid) \<Rightarrow> timestamp \<Rightarrow> work_form \<Rightarrow> goal_store \<Rightarrow> goal_error + goal_store" where
  "recover_row uuid_v5 now form st =
     (if list_ex (\<lambda>i. wi_status i = ItemInProgress) (wf_items form)
      then upsert_work_form_conn uuid_v5 (recover_form now form) st else Inr st)"

definition recover_goal_forms ::
    "(uuid \<Rightarrow> string \<Rightarrow> uuid) \<Rightarrow> timestamp \<Rightarrow> goal_store \<Rightarrow> goal_error + goal_store" where
  "recover_goal_forms uuid_v5 now st =
     fold (\<lambda>form r. res_bind r (recover_row uuid_v5 now form))
       (filter (\<lambda>form. is_governed (wf_scope form)) (map snd (gs_forms st))) (Inr st)"

section \<open>All writers\<close>

inductive goal_step ::
    "(uuid \<Rightarrow> string \<Rightarrow> uuid) \<Rightarrow> (string \<Rightarrow> string) \<Rightarrow> goal_store \<Rightarrow> goal_store \<Rightarrow> bool"
  for uuid_v5 lowercase where
  create: "goal_step uuid_v5 lowercase st (snd (create_goal uuid_v5 now new_id thread_id objective budget st))"
| message: "goal_step uuid_v5 lowercase st
    (snd (resolve_message_goal uuid_v5 now new_id thread_id goal_mode requested objective st))"
| edit: "goal_step uuid_v5 lowercase st (snd (update_goal uuid_v5 lowercase now thread_id goal_id q st))"
| finalize: "goal_step uuid_v5 lowercase st (finalize_goal_after_turn uuid_v5 now thread_id cancelled goal_id st)"
| plan: "update_plan uuid_v5 lowercase now ctx explanation items = Inr form \<Longrightarrow>
    upsert_work_form uuid_v5 form st = Inr st' \<Longrightarrow> goal_step uuid_v5 lowercase st st'"
| recover: "recover_goal_forms uuid_v5 now st = Inr st' \<Longrightarrow> goal_step uuid_v5 lowercase st st'"
| new_thread: "goal_step uuid_v5 lowercase st (st\<lparr>gs_threads := thread_id # gs_threads st\<rparr>)"

definition empty_store :: goal_store where
  "empty_store = \<lparr>gs_threads = [], gs_goals = [], gs_forms = []\<rparr>"

abbreviation goal_steps :: "(uuid \<Rightarrow> string \<Rightarrow> uuid) \<Rightarrow> (string \<Rightarrow> string) \<Rightarrow> goal_store \<Rightarrow> goal_store \<Rightarrow> bool" where
  "goal_steps uuid_v5 lowercase \<equiv> (goal_step uuid_v5 lowercase)\<^sup>*\<^sup>*"

definition form_stored_ok :: "(uuid \<Rightarrow> string \<Rightarrow> uuid) \<Rightarrow> (string \<Rightarrow> string) \<Rightarrow> work_form \<Rightarrow> bool" where
  "form_stored_ok uuid_v5 lowercase form \<longleftrightarrow>
     wf_id form = form_id uuid_v5 (wf_scope form) \<and> work_form_ok lowercase form"

definition store_ok :: "(uuid \<Rightarrow> string \<Rightarrow> uuid) \<Rightarrow> (string \<Rightarrow> string) \<Rightarrow> goal_store \<Rightarrow> bool" where
  "store_ok uuid_v5 lowercase st \<longleftrightarrow>
     bt_inv (gs_forms st)
     \<and> (\<forall>k form. bt_get (gs_forms st) k = Some form \<longrightarrow>
          wf_id form = k \<and> form_stored_ok uuid_v5 lowercase form)"

lemma store_ok_goals [simp]:
  "store_ok uuid_v5 lowercase (st\<lparr>gs_goals := gs\<rparr>) = store_ok uuid_v5 lowercase st"
  "store_ok uuid_v5 lowercase (st\<lparr>gs_threads := ts\<rparr>) = store_ok uuid_v5 lowercase st"
  "store_ok uuid_v5 lowercase (bump_goal now i st) = store_ok uuid_v5 lowercase st"
  by (simp_all add: store_ok_def bump_goal_def)

lemma upsert_conn_ok:
  assumes "upsert_work_form_conn uuid_v5 form st = Inr st'" "store_ok uuid_v5 lowercase st"
    "work_form_ok lowercase form"
  shows "store_ok uuid_v5 lowercase st'"
proof -
  have "form_stored_ok uuid_v5 lowercase form" and st': "st' = st\<lparr>gs_forms := bt_insert (wf_id form) form (gs_forms st)\<rparr>"
    using assms(1,3) by (auto simp: upsert_work_form_conn_def res_Inr_iffs form_stored_ok_def)
  then show ?thesis
    using assms(2) by (auto simp: store_ok_def bt_inv_insert bt_get_insert)
qed

lemma scope_form_ok:
  assumes "store_ok uuid_v5 lowercase st" "query_work_form_for_scope uuid_v5 scope st = Some form"
  shows "work_form_ok lowercase form"
  using assms by (auto simp: store_ok_def query_work_form_for_scope_def form_stored_ok_def)

lemma work_form_ok_status:
  "work_form_ok lowercase form \<Longrightarrow> status \<noteq> FormCompleted \<Longrightarrow> work_form_ok lowercase (set_form_status now status form)"
  by (simp add: work_form_ok_def set_form_status_def)

lemma empty_goal_ok: "trim objective \<noteq> [] \<Longrightarrow> work_form_ok lowercase (empty_goal uuid_v5 now thread_id i objective)"
  by (simp add: work_form_ok_def empty_goal_def work_form_new_def recalculate_status_def items_status_def
      depends_on_simps wf_acyclic)

lemma load_goal_snapshot_form:
  "load_goal_snapshot uuid_v5 i st = Inr (Some s) \<Longrightarrow>
     query_work_form_for_scope uuid_v5 (GoalScope i) st = Some (sn_work_form s)"
  by (auto simp: load_goal_snapshot_def res_Inr_iffs split: option.splits)

lemma update_goal_status_ok:
  assumes "update_goal_status uuid_v5 now thread_id goal_id status st = Inr (r, st')"
    "store_ok uuid_v5 lowercase st" "status \<noteq> FormCompleted"
  shows "store_ok uuid_v5 lowercase st'"
proof -
  let ?st1 = "bump_goal now goal_id st"
  have ok: "store_ok uuid_v5 lowercase ?st1" using assms(2) by simp
  from assms(1) consider "st' = st"
    | "(case query_work_form_for_scope uuid_v5 (GoalScope goal_id) ?st1 of
          Some form \<Rightarrow> upsert_work_form_conn uuid_v5 (set_form_status now status form) ?st1
        | None \<Rightarrow> Inr ?st1) = Inr st'"
    by (auto simp: update_goal_status_def res_Inr_iffs Let_def split: option.splits)
  then show ?thesis
  proof cases
    case 2
    show ?thesis
    proof (cases "query_work_form_for_scope uuid_v5 (GoalScope goal_id) ?st1")
      case None
      with 2 ok show ?thesis by simp
    next
      case (Some form)
      with 2 show ?thesis
        using upsert_conn_ok [OF _ ok work_form_ok_status [OF scope_form_ok [OF ok Some] assms(3)]] by simp
    qed
  qed (use assms(2) in simp)
qed

lemma create_goal_ok:
  assumes "store_ok uuid_v5 lowercase st"
  shows "store_ok uuid_v5 lowercase (snd (create_goal uuid_v5 now new_id thread_id objective budget st))"
  using assms upsert_conn_ok [OF _ _ empty_goal_ok, of uuid_v5 uuid_v5 now thread_id new_id "trim objective"]
  by (auto simp: create_goal_def Let_def split: sum.splits)

lemma edited_definition_ok:
  assumes "edited_definition lowercase now objective constraints acceptance form0 = Inr form"
  shows "work_form_ok lowercase form"
  using assms by (auto simp: edited_definition_def res_Inr_iffs Let_def validate_work_form_iff)

lemma update_goal_definition_ok:
  assumes "update_goal_definition uuid_v5 lowercase now thread_id goal_id objective constraints acceptance st
      = Inr (r, st')" "store_ok uuid_v5 lowercase st"
  shows "store_ok uuid_v5 lowercase st'"
proof -
  from assms(1) consider "st' = st"
    | form form' st1 where "edited_definition lowercase now objective constraints acceptance form = Inr form'"
        "upsert_work_form_conn uuid_v5 form' st = Inr st1" "st' = bump_goal now goal_id st1"
    by (auto simp: update_goal_definition_def res_Inr_iffs Let_def split: option.splits)
  then show ?thesis
  proof cases
    case 2
    with upsert_conn_ok [OF _ assms(2) edited_definition_ok] show ?thesis by simp
  qed (use assms(2) in simp)
qed

lemma request_definition_ok:
  assumes "request_definition uuid_v5 lowercase now thread_id goal_id q st = Inr (s, st')"
    "store_ok uuid_v5 lowercase st"
  shows "store_ok uuid_v5 lowercase st'"
  using assms by (auto simp: request_definition_def res_Inr_iffs intro: update_goal_definition_ok split: if_splits)

lemma request_status_ok:
  assumes "request_status uuid_v5 now thread_id goal_id status st = Inr (s, st')"
    "store_ok uuid_v5 lowercase st"
  shows "store_ok uuid_v5 lowercase st'"
  using assms by (auto simp: request_status_def res_Inr_iffs intro: update_goal_status_ok)

lemma update_goal_ok:
  assumes "store_ok uuid_v5 lowercase st"
  shows "store_ok uuid_v5 lowercase (snd (update_goal uuid_v5 lowercase now thread_id goal_id q st))"
  using assms
  by (auto simp: update_goal_def dest: request_definition_ok [OF _ assms] request_status_ok
      split: sum.splits option.splits)

lemma finalize_goal_ok:
  assumes "store_ok uuid_v5 lowercase st"
  shows "store_ok uuid_v5 lowercase (finalize_goal_after_turn uuid_v5 now thread_id cancelled goal_id st)"
  using assms by (auto simp: finalize_goal_after_turn_def intro: update_goal_status_ok
      split: option.splits sum.splits)

lemma resolve_message_goal_ok:
  assumes "store_ok uuid_v5 lowercase st"
  shows "store_ok uuid_v5 lowercase
    (snd (resolve_message_goal uuid_v5 now new_id thread_id goal_mode requested objective st))"
proof -
  have created: "store_ok uuid_v5 lowercase st'"
    if "create_goal uuid_v5 now new_id thread (trim objective) None st = (r, st')" for thread r st'
    using create_goal_ok [OF assms, of now new_id thread "trim objective" None] that by simp
  have activated: "store_ok uuid_v5 lowercase st2"
    if "update_goal_status uuid_v5 now thread i FormActive st1 = Inr (r, st2)" "store_ok uuid_v5 lowercase st1"
    for thread i r st1 st2 using update_goal_status_ok [OF that] by simp
  show ?thesis
    using assms
    by (auto simp: resolve_message_goal_def Let_def dest: created intro: activated
        split: option.splits sum.splits prod.splits)
qed

lemma update_plan_ok:
  assumes "update_plan uuid_v5 lowercase now ctx explanation plan = Inr form"
  shows "work_form_ok lowercase form"
  using assms by (auto simp: update_plan_def res_Inr_iffs Let_def validate_work_form_iff)

lemma interrupt_item_simps [simp]:
  "wi_id (interrupt_item i) = wi_id i" "wi_title (interrupt_item i) = wi_title i"
  "wi_depends_on (interrupt_item i) = wi_depends_on i"
  "wi_status (interrupt_item i) = (if wi_status i = ItemInProgress then ItemBlocked else wi_status i)"
  "wi_acceptance (interrupt_item i) = wi_acceptance i" "wi_evidence_refs (interrupt_item i) = wi_evidence_refs i"
  by (simp_all add: interrupt_item_def)

lemma interrupt_item_valid:
  assumes "item_valid governed items i"
  shows "item_valid governed (map interrupt_item items) (interrupt_item i)"
proof -
  have note_text: "trim ''server restarted during task execution'' \<noteq> []" by code_simp
  have "item_ok governed (interrupt_item i)"
    using assms note_text by (auto simp: item_valid_def item_ok_def interrupt_item_def requires_note_def)
  moreover have "dependency_ok (map interrupt_item items) (interrupt_item i) d" if "dependency_ok items i d" for d
    using that by (fastforce simp: dependency_ok_def split: if_splits)
  ultimately show ?thesis using assms by (auto simp: item_valid_def)
qed

lemma recover_form_ok:
  assumes "work_form_ok lowercase form"
  shows "work_form_ok lowercase (recover_form now form)"
proof -
  have "depends_on (map interrupt_item items) = depends_on items" for items
    by (induction items) (simp_all add: depends_on_simps)
  moreover have "filter (\<lambda>i. wi_status i = ItemInProgress) (map interrupt_item items) = []" for items
    by (auto simp: filter_empty_conv)
  ultimately show ?thesis
    using assms interrupt_item_valid [of "is_governed (wf_scope form)" "wf_items form"]
    by (auto simp: work_form_ok_def recover_form_def comp_def)
qed

lemma recover_form_simps [simp]:
  "wf_id (recover_form now form) = wf_id form" "wf_scope (recover_form now form) = wf_scope form"
  by (simp_all add: recover_form_def)

lemma fold_bind_error: "fold (\<lambda>x r. res_bind r (f x)) xs (Inl e) = Inl e"
  by (induction xs) simp_all

lemma recover_forms_ok:
  assumes "\<forall>form \<in> set forms. form_stored_ok uuid_v5 lowercase form" "store_ok uuid_v5 lowercase st"
    "fold (\<lambda>form r. res_bind r (recover_row uuid_v5 now form)) forms (Inr st) = Inr st'"
  shows "store_ok uuid_v5 lowercase st'"
  using assms
proof (induction forms arbitrary: st)
  case (Cons form forms)
  from Cons.prems(3) obtain st1 where st1: "recover_row uuid_v5 now form st = Inr st1"
    by (cases "recover_row uuid_v5 now form st") (auto simp: fold_bind_error)
  have "work_form_ok lowercase form" using Cons.prems(1) by (simp add: form_stored_ok_def)
  with st1 Cons.prems(2) have "store_ok uuid_v5 lowercase st1"
    by (auto simp: recover_row_def split: if_splits intro: upsert_conn_ok recover_form_ok)
  with Cons st1 show ?case by simp
qed simp

lemma stored_form_ok:
  assumes "store_ok uuid_v5 lowercase st" "(k, form) \<in> set (gs_forms st)"
  shows "form_stored_ok uuid_v5 lowercase form"
proof -
  have "bt_get (gs_forms st) k = Some form"
    using assms by (simp add: store_ok_def bt_get_map_of bt_inv_distinct)
  with assms(1) show ?thesis by (simp add: store_ok_def)
qed

lemma recover_goal_forms_ok:
  assumes "recover_goal_forms uuid_v5 now st = Inr st'" "store_ok uuid_v5 lowercase st"
  shows "store_ok uuid_v5 lowercase st'"
  using assms(1) unfolding recover_goal_forms_def
  by (rule recover_forms_ok [OF _ assms(2), rotated]) (auto intro: stored_form_ok [OF assms(2)])

lemma goal_step_ok:
  "goal_step uuid_v5 lowercase st st' \<Longrightarrow> store_ok uuid_v5 lowercase st \<Longrightarrow> store_ok uuid_v5 lowercase st'"
proof (induction rule: goal_step.induct)
  case (plan now ctx explanation items form st st')
  then show ?case
    by (auto simp: upsert_work_form_def res_Inr_iffs intro: upsert_conn_ok update_plan_ok)
qed (auto intro: create_goal_ok resolve_message_goal_ok update_goal_ok finalize_goal_ok recover_goal_forms_ok)

lemma goal_steps_ok:
  "goal_steps uuid_v5 lowercase st st' \<Longrightarrow> store_ok uuid_v5 lowercase st \<Longrightarrow> store_ok uuid_v5 lowercase st'"
  by (induction rule: rtranclp_induct) (auto intro: goal_step_ok)

section \<open>What recovery does to a goal\<close>

lemma recover_form_idle: "\<not> list_ex (\<lambda>i. wi_status i = ItemInProgress) (wf_items form) \<Longrightarrow> recover_form now form = form"
  by (simp add: recover_form_def)

lemma recover_row_lookup:
  assumes "bt_get (gs_forms st) (wf_id form) = Some form" "wf_id form = form_id uuid_v5 (wf_scope form)"
  shows "\<exists>st'. recover_row uuid_v5 now form st = Inr st' \<and> gs_goals st' = gs_goals st
    \<and> (\<forall>k. bt_get (gs_forms st') k =
         (if k = wf_id form then Some (recover_form now form) else bt_get (gs_forms st) k))"
proof (cases "list_ex (\<lambda>i. wi_status i = ItemInProgress) (wf_items form)")
  case True
  with assms(2) show ?thesis
    by (simp add: recover_row_def upsert_work_form_conn_def res_ensure_def bt_get_insert)
next
  case False
  with assms(1) show ?thesis by (simp add: recover_row_def recover_form_idle)
qed

lemma recover_forms_lookup:
  assumes "distinct (map wf_id forms)"
    and "\<forall>form \<in> set forms. bt_get (gs_forms st) (wf_id form) = Some form
           \<and> wf_id form = form_id uuid_v5 (wf_scope form)"
  shows "\<exists>st'. fold (\<lambda>form r. res_bind r (recover_row uuid_v5 now form)) forms (Inr st) = Inr st'
    \<and> gs_goals st' = gs_goals st
    \<and> (\<forall>k. bt_get (gs_forms st') k =
         (if k \<in> wf_id ` set forms then map_option (recover_form now) (bt_get (gs_forms st) k)
          else bt_get (gs_forms st) k))"
  using assms
proof (induction forms arbitrary: st)
  case (Cons form forms)
  have form: "bt_get (gs_forms st) (wf_id form) = Some form" "wf_id form = form_id uuid_v5 (wf_scope form)"
    using bspec [OF Cons.prems(2) list.set_intros(1)] by blast+
  from recover_row_lookup [OF form, of now] obtain st1 where
    st1: "recover_row uuid_v5 now form st = Inr st1" "gs_goals st1 = gs_goals st"
    and row: "\<forall>k. bt_get (gs_forms st1) k =
      (if k = wf_id form then Some (recover_form now form) else bt_get (gs_forms st) k)" by blast
  note lookup = row [rule_format]
  have fresh: "wf_id form \<notin> wf_id ` set forms" using Cons.prems(1) by simp
  have stored: "\<forall>f \<in> set forms. bt_get (gs_forms st1) (wf_id f) = Some f \<and> wf_id f = form_id uuid_v5 (wf_scope f)"
  proof
    fix f assume f: "f \<in> set forms"
    from imageI [OF f, of wf_id] fresh have "wf_id f \<noteq> wf_id form" by auto
    then have "bt_get (gs_forms st1) (wf_id f) = bt_get (gs_forms st) (wf_id f)"
      by (simp only: lookup if_False)
    moreover have "bt_get (gs_forms st) (wf_id f) = Some f \<and> wf_id f = form_id uuid_v5 (wf_scope f)"
      using Cons.prems(2) f by (meson list.set_intros(2))
    ultimately show "bt_get (gs_forms st1) (wf_id f) = Some f \<and> wf_id f = form_id uuid_v5 (wf_scope f)"
      by metis
  qed
  have "distinct (map wf_id forms)" using Cons.prems(1) by simp
  from Cons.IH [OF this stored] obtain st' where
    st': "fold (\<lambda>form r. res_bind r (recover_row uuid_v5 now form)) forms (Inr st1) = Inr st'"
      "gs_goals st' = gs_goals st1"
    and rest: "\<forall>k. bt_get (gs_forms st') k =
         (if k \<in> wf_id ` set forms then map_option (recover_form now) (bt_get (gs_forms st1) k)
          else bt_get (gs_forms st1) k)" by (elim exE conjE)
  have "bt_get (gs_forms st') k =
      (if k \<in> wf_id ` set (form # forms) then map_option (recover_form now) (bt_get (gs_forms st) k)
       else bt_get (gs_forms st) k)" for k
    using rest [rule_format, of k] fresh form(1) by (cases "k = wf_id form") (simp_all add: lookup)
  with st' st1 show ?case by simp
qed simp

lemma recover_goal_forms_lookup:
  assumes "store_ok uuid_v5 lowercase st"
  shows "\<exists>st'. recover_goal_forms uuid_v5 now st = Inr st' \<and> gs_goals st' = gs_goals st
    \<and> (\<forall>k form. bt_get (gs_forms st) k = Some form \<longrightarrow> bt_get (gs_forms st') k =
         Some (if is_governed (wf_scope form) then recover_form now form else form))"
proof -
  let ?forms = "filter (\<lambda>form. is_governed (wf_scope form)) (map snd (gs_forms st))"
  have inv: "bt_inv (gs_forms st)" using assms by (simp add: store_ok_def)
  have stored: "bt_get (gs_forms st) (wf_id form) = Some form \<and> wf_id form = form_id uuid_v5 (wf_scope form)"
    if "(k, form) \<in> set (gs_forms st)" for k form
  proof -
    have "bt_get (gs_forms st) k = Some form"
      using inv that by (simp add: bt_get_map_of bt_inv_distinct)
    with assms show ?thesis by (auto simp: store_ok_def form_stored_ok_def)
  qed
  have key: "wf_id form = k" if "(k, form) \<in> set (gs_forms st)" for k form
    using assms inv that by (metis bt_get_map_of bt_inv_distinct map_of_is_SomeI store_ok_def)
  then have "map wf_id (map snd (gs_forms st)) = map fst (gs_forms st)" by (auto simp: comp_def)
  then have "distinct (map wf_id (map snd (gs_forms st)))"
    using bt_inv_distinct [OF inv] by (simp only:)
  then have distinct: "distinct (map wf_id ?forms)" by (rule distinct_map_filter)
  have "\<forall>form \<in> set ?forms. bt_get (gs_forms st) (wf_id form) = Some form
      \<and> wf_id form = form_id uuid_v5 (wf_scope form)"
  proof
    fix form assume "form \<in> set ?forms"
    then obtain k where "(k, form) \<in> set (gs_forms st)" by auto
    then show "bt_get (gs_forms st) (wf_id form) = Some form \<and> wf_id form = form_id uuid_v5 (wf_scope form)"
      by (rule stored)
  qed
  from recover_forms_lookup [OF distinct this, of now] obtain st' where st': "recover_goal_forms uuid_v5 now st = Inr st'" "gs_goals st' = gs_goals st"
    and lookup: "\<forall>k. bt_get (gs_forms st') k =
         (if k \<in> wf_id ` set ?forms then map_option (recover_form now) (bt_get (gs_forms st) k)
          else bt_get (gs_forms st) k)"
    unfolding recover_goal_forms_def by (elim exE conjE)
  have "bt_get (gs_forms st') k = Some (if is_governed (wf_scope form) then recover_form now form else form)"
    if get: "bt_get (gs_forms st) k = Some form" for k form
  proof -
    have entry: "(k, form) \<in> set (gs_forms st)" using get by (simp add: bt_get_map_of map_of_SomeD)
    have "k \<in> wf_id ` set ?forms \<longleftrightarrow> is_governed (wf_scope form)"
    proof
      assume "k \<in> wf_id ` set ?forms"
      then obtain k' f where "(k', f) \<in> set (gs_forms st)" "is_governed (wf_scope f)" "wf_id f = k" by auto
      with stored [of k' f] get show "is_governed (wf_scope form)" by simp
    next
      assume "is_governed (wf_scope form)"
      then show "k \<in> wf_id ` set ?forms"
        using entry key [OF entry] by (auto simp: image_iff intro!: bexI [of _ "(k, form)"])
    qed
    with lookup get show ?thesis by simp
  qed
  with st' show ?thesis by blast
qed

section \<open>Properties\<close>

text \<open>
  C19: Stored work forms stay valid.  However the clients, the turns, the plan tool and restarts of the
  server interleave, every work form in the store validates: its dependencies have no cycle, at most one
  item is in progress, no item was begun before what it depends on, a completed form has no open
  blocking item, and the completed items of a goal have evidence; and a form is stored under the
  identifier of its scope.
\<close>
theorem stored_work_forms_stay_valid:
  assumes "goal_steps uuid_v5 lowercase empty_store st"
    and "bt_get (gs_forms st) k = Some form"
  shows "validate_work_form lowercase form = Inr () \<and> k = form_id uuid_v5 (wf_scope form)"
proof -
  have "store_ok uuid_v5 lowercase empty_store" by (simp add: store_ok_def empty_store_def bt_inv_def)
  from goal_steps_ok [OF assms(1) this] assms(2) show ?thesis
    by (auto simp: store_ok_def form_stored_ok_def validate_work_form_iff)
qed

definition example_uuid :: "uuid \<Rightarrow> string \<Rightarrow> uuid" where
  "example_uuid _ name = name"

definition example_goal_store :: goal_store where
  "example_goal_store =
     snd (create_goal example_uuid 0 ''g'' ''t'' ''ship'' None (empty_store\<lparr>gs_threads := [''t'']\<rparr>))"

lemma example_goal_store_forms:
  "gs_forms example_goal_store = [(''goal:g'', empty_goal example_uuid 0 ''t'' ''g'' ''ship'')]"
proof -
  have "trim ''ship'' = ''ship''" by code_simp
  then show ?thesis
    by (simp add: example_goal_store_def create_goal_def empty_store_def upsert_work_form_conn_def
        empty_goal_def work_form_new_def recalculate_status_def res_ensure_def form_id_def example_uuid_def
        bt_contains_def Let_def)
qed

lemma example_goal_store_reachable: "goal_steps example_uuid (\<lambda>s. s) empty_store example_goal_store"
proof -
  have "goal_step example_uuid (\<lambda>s. s) empty_store (empty_store\<lparr>gs_threads := ''t'' # gs_threads empty_store\<rparr>)"
    by (rule goal_step.new_thread)
  then have "goal_step example_uuid (\<lambda>s. s) empty_store (empty_store\<lparr>gs_threads := [''t'']\<rparr>)"
    by (simp add: empty_store_def)
  moreover have "goal_step example_uuid (\<lambda>s. s) (empty_store\<lparr>gs_threads := [''t'']\<rparr>) example_goal_store"
    unfolding example_goal_store_def by (rule goal_step.create)
  ultimately show ?thesis by (meson converse_rtranclp_into_rtranclp r_into_rtranclp)
qed

theorem stored_work_forms_stay_valid_witness:
  "bt_get (gs_forms example_goal_store) ''goal:g'' = Some (empty_goal example_uuid 0 ''t'' ''g'' ''ship'')
   \<and> validate_work_form (\<lambda>s. s) (empty_goal example_uuid 0 ''t'' ''g'' ''ship'') = Inr ()"
proof -
  have "bt_get (gs_forms example_goal_store) ''goal:g'' = Some (empty_goal example_uuid 0 ''t'' ''g'' ''ship'')"
    by (simp add: example_goal_store_forms)
  with stored_work_forms_stay_valid [OF example_goal_store_reachable this] show ?thesis by blast
qed

text \<open>
  A restart reopens a cancelled goal.  The transitions of a goal make a cancelled goal final.  Recovery
  does not respect this: if the work form of a cancelled goal still has an item in progress, a restart
  stores the form as blocked, from where the goal can be made active again.
\<close>
theorem restart_reopens_cancelled_goal:
  assumes "goal_steps uuid_v5 lowercase empty_store st"
    and "query_work_form_for_scope uuid_v5 (GoalScope g) st = Some form"
    and "wf_status form = FormCancelled"
    and "\<exists>i \<in> set (wf_items form). wi_status i = ItemInProgress"
    and "is_governed (wf_scope form)"
  shows "(\<exists>st' form'. recover_goal_forms uuid_v5 now st = Inr st'
        \<and> query_work_form_for_scope uuid_v5 (GoalScope g) st' = Some form'
        \<and> wf_status form' = FormBlocked)
    \<and> valid_goal_transition FormBlocked FormActive
    \<and> \<not> valid_goal_transition FormCancelled FormBlocked \<and> \<not> valid_goal_transition FormCancelled FormActive"
proof -
  have "store_ok uuid_v5 lowercase empty_store" by (simp add: store_ok_def empty_store_def bt_inv_def)
  from recover_goal_forms_lookup [OF goal_steps_ok [OF assms(1) this], of now] obtain st' where
    st': "recover_goal_forms uuid_v5 now st = Inr st'"
    and lookup: "\<forall>k form. bt_get (gs_forms st) k = Some form \<longrightarrow> bt_get (gs_forms st') k =
         Some (if is_governed (wf_scope form) then recover_form now form else form)" by blast
  have "query_work_form_for_scope uuid_v5 (GoalScope g) st' = Some (recover_form now form)"
    using lookup assms(2,5) by (simp add: query_work_form_for_scope_def)
  moreover have "wf_status (recover_form now form) = FormBlocked"
    using assms(4) by (simp add: recover_form_def list_ex_iff)
  ultimately show ?thesis using st' by (simp add: valid_goal_transition_def)
qed

definition example_plan :: "plan_item_input list" where
  "example_plan =
     [\<lparr>pi_id = None, pi_step = ''build'', pi_status = ItemInProgress, pi_completion_disposition = BlockingWork,
       pi_depends_on = [], pi_note = None, pi_acceptance = [], pi_evidence_refs = []\<rparr>]"

definition example_context :: plan_context where
  "example_context =
     \<lparr>pc_thread_id = Some ''t'', pc_goal_id = Some ''g'', pc_agent_turn_id = None,
      pc_current_work_form = Some (empty_goal example_uuid 0 ''t'' ''g'' ''ship'')\<rparr>"

definition example_planned :: work_form where
  "example_planned =
     \<lparr>wf_id = ''goal:g'', wf_thread_id = ''t'', wf_scope = GoalScope ''g'', wf_objective = ''ship'',
      wf_constraints = [], wf_acceptance = [], wf_status = FormActive, wf_revision = 1,
      wf_change_reason = None,
      wf_items = [\<lparr>wi_id = ''step_1'', wi_title = ''build'', wi_status = ItemInProgress,
        wi_completion_disposition = BlockingWork, wi_depends_on = [], wi_note = None, wi_acceptance = [],
        wi_evidence_refs = []\<rparr>], wf_created_at = 0, wf_updated_at = 1\<rparr>"

lemma example_planned_ok: "validate_work_form (\<lambda>s. s) example_planned = Inr ()"
proof -
  have "trim ''ship'' \<noteq> []" "trim ''step_1'' \<noteq> []" "trim ''build'' \<noteq> []" by code_simp+
  then show ?thesis
    by (simp add: validate_work_form_iff work_form_ok_def example_planned_def item_valid_def item_ok_def
        requires_note_def depends_on_simps wf_acyclic)
qed

lemma example_plan_publishes:
  "update_plan example_uuid (\<lambda>s. s) 1 example_context None example_plan = Inr example_planned"
proof -
  have texts: "trim ''step_1'' = ''step_1''" "trim ''build'' = ''build''"
    "char_count ''step_1'' \<le> 100" "char_count ''build'' \<le> 300" "''step_'' @ show_nat 1 = ''step_1''"
    by code_simp+
  have item: "plan_item (\<lambda>s. s) (0, hd example_plan) = Inr (hd (wf_items example_planned))"
    using texts
    by (simp add: plan_item_def example_plan_def example_planned_def validate_text_def validate_ids_def
        validate_list_def transpose_note_def res_ensure_def)
  have items: "res_map (plan_item (\<lambda>s. s)) (List.enumerate 0 example_plan) = Inr (wf_items example_planned)"
    using item by (simp add: example_plan_def example_planned_def)
  have form: "(work_form_new example_uuid 1 ''t'' (GoalScope ''g'') ''ship'' (wf_items example_planned))
      \<lparr>wf_constraints := [], wf_acceptance := [], wf_created_at := 0, wf_revision := 1,
       wf_change_reason := None, wf_updated_at := 1\<rparr> = example_planned"
    by (simp add: work_form_new_def recalculate_status_def example_planned_def form_id_def example_uuid_def
        items_status_def blocking_items_def is_actionable_def)
  show ?thesis
    using example_planned_ok form
    by (simp add: update_plan_def plan_scope_def example_context_def items ok_or_def u64_checked_succ_def
        empty_goal_def work_form_new_def recalculate_status_def Let_def)
qed

definition example_cancelled_store :: goal_store where
  "example_cancelled_store =
     snd (update_goal example_uuid (\<lambda>s. s) 2 ''t'' ''g''
       \<lparr>gq_objective = None, gq_constraints = None, gq_acceptance = None, gq_status = Some FormCancelled\<rparr>
       (example_goal_store\<lparr>gs_forms := [(''goal:g'', example_planned)]\<rparr>))"

lemma example_goal_store_simps:
  "gs_threads example_goal_store = [''t'']"
  "gs_goals example_goal_store = [(''g'', goal_record_new 0 ''g'' ''t'' ''ship'' None)]"
proof -
  have "trim ''ship'' = ''ship''" by code_simp
  then show "gs_threads example_goal_store = [''t'']"
    "gs_goals example_goal_store = [(''g'', goal_record_new 0 ''g'' ''t'' ''ship'' None)]"
    by (simp_all add: example_goal_store_def create_goal_def empty_store_def upsert_work_form_conn_def
        empty_goal_def work_form_new_def recalculate_status_def res_ensure_def form_id_def example_uuid_def
        bt_contains_def Let_def)
qed

lemma example_cancelled_form:
  "query_work_form_for_scope example_uuid (GoalScope ''g'') example_cancelled_store
     = Some (set_form_status 2 FormCancelled example_planned)"
proof -
  have ids: "form_id example_uuid (GoalScope ''g'') = ''goal:g''" "wf_id example_planned = ''goal:g''"
    "wf_scope example_planned = GoalScope ''g''" "wf_status example_planned = FormActive"
    by (simp_all add: form_id_def example_uuid_def example_planned_def)
  show ?thesis
    by (simp add: example_cancelled_store_def update_goal_def request_definition_def request_status_def
        example_goal_store_simps load_goal_snapshot_def query_goal_def query_work_form_for_scope_def ids
        goal_record_new_def res_ensure_def ok_or_def update_goal_status_def valid_goal_transition_def
        bump_goal_def upsert_work_form_conn_def set_form_status_def Let_def)
qed

lemma example_cancelled_reachable: "goal_steps example_uuid (\<lambda>s. s) empty_store example_cancelled_store"
proof -
  have "upsert_work_form example_uuid example_planned example_goal_store
      = Inr (example_goal_store\<lparr>gs_forms := [(''goal:g'', example_planned)]\<rparr>)"
    by (simp add: upsert_work_form_def upsert_work_form_conn_def res_ensure_def example_goal_store_simps
        example_goal_store_forms example_planned_def form_id_def example_uuid_def)
  then have "goal_step example_uuid (\<lambda>s. s) example_goal_store
      (example_goal_store\<lparr>gs_forms := [(''goal:g'', example_planned)]\<rparr>)"
    by (rule goal_step.plan [OF example_plan_publishes])
  moreover have "goal_step example_uuid (\<lambda>s. s) (example_goal_store\<lparr>gs_forms := [(''goal:g'', example_planned)]\<rparr>)
      example_cancelled_store"
    unfolding example_cancelled_store_def by (rule goal_step.edit)
  ultimately show ?thesis
    using example_goal_store_reachable by (meson rtranclp.rtrancl_into_rtrancl)
qed

theorem restart_reopens_cancelled_goal_witness:
  "wf_status (set_form_status 2 FormCancelled example_planned) = FormCancelled
   \<and> (\<exists>st' form'. recover_goal_forms example_uuid 3 example_cancelled_store = Inr st'
        \<and> query_work_form_for_scope example_uuid (GoalScope ''g'') st' = Some form'
        \<and> wf_status form' = FormBlocked)"
proof -
  have form: "wf_status (set_form_status 2 FormCancelled example_planned) = FormCancelled"
    "\<exists>i \<in> set (wf_items (set_form_status 2 FormCancelled example_planned)). wi_status i = ItemInProgress"
    "is_governed (wf_scope (set_form_status 2 FormCancelled example_planned))"
    by (simp_all add: set_form_status_def example_planned_def is_governed_def)
  with restart_reopens_cancelled_goal [OF example_cancelled_reachable example_cancelled_form form, of 3]
  show ?thesis by blast
qed

text \<open>
  A plan that is published after the goal was cancelled makes the goal active again: the form is written
  with the status of its items, whatever status the stored form has by then.
\<close>

lemma plan_reactivates_cancelled_goal:
  "wf_status (set_form_status 2 FormCancelled example_planned) = FormCancelled
   \<and> (\<exists>st'. upsert_work_form example_uuid example_planned example_cancelled_store = Inr st'
        \<and> query_work_form_for_scope example_uuid (GoalScope ''g'') st' = Some example_planned)
   \<and> wf_status example_planned = FormActive"
proof -
  have "gs_threads example_cancelled_store = [''t'']"
    by (simp add: example_cancelled_store_def update_goal_def request_definition_def request_status_def
        example_goal_store_simps load_goal_snapshot_def query_goal_def query_work_form_for_scope_def
        goal_record_new_def res_ensure_def ok_or_def update_goal_status_def valid_goal_transition_def
        bump_goal_def upsert_work_form_conn_def set_form_status_def Let_def form_id_def example_uuid_def
        example_planned_def)
  moreover have "form_id example_uuid (GoalScope ''g'') = ''goal:g''"
    by (simp add: form_id_def example_uuid_def)
  ultimately show ?thesis
    by (simp add: upsert_work_form_def upsert_work_form_conn_def res_ensure_def set_form_status_def
        query_work_form_for_scope_def bt_get_insert example_planned_def)
qed

end
