(* ===== verification/Effect_Journal.thy ===== *)
theory Effect_Journal
  imports Flow_Graph Fingerprint
begin

text \<open>
  The effect journal (\<open>effect_journal.rs\<close>, the journal operations of \<open>store.rs\<close>) and its use around the
  execution of a tool call (\<open>execute_provider_call\<close> of \<open>tool_runtime.rs\<close>).

  The table is an ordered map from effect identifiers to records; the JSON columns hold the values they
  decode to.  A tool call is seen from the journal: \<open>journal_begin\<close> is everything up to the execution,
  which either has a result already or says that the tool is to be executed, and \<open>journal_finish\<close> is
  everything after it.  What happens in between is the tool, which is not modelled: any outcome is
  possible.  The serialisation of a tool result is given by the arguments \<open>encode\<close> and \<open>decode\<close>.

  \<open>journal_step\<close> interleaves the calls of all agents with restarts of the server.  Its steps are atomic as
  in the code: there is no suspension point between the preparation and the start of an effect.
\<close>

section \<open>Effects\<close>

datatype effect_kind = ModelRequestEffect | ToolCallEffect | ApprovalEffect | FinalizationEffect

fun effect_kind_str :: "effect_kind \<Rightarrow> string" where
  "effect_kind_str ModelRequestEffect = ''model_request''"
| "effect_kind_str ToolCallEffect = ''tool_call''"
| "effect_kind_str ApprovalEffect = ''approval''"
| "effect_kind_str FinalizationEffect = ''finalization''"

definition effect_kind_from_str :: "string \<Rightarrow> effect_kind option" where
  "effect_kind_from_str s =
     (if s = ''model_request'' then Some ModelRequestEffect
      else if s = ''tool_call'' then Some ToolCallEffect
      else if s = ''approval'' then Some ApprovalEffect
      else if s = ''finalization'' then Some FinalizationEffect
      else None)"

datatype effect_status = EffectPrepared | EffectRunning | EffectSucceeded | EffectFailed | EffectIndeterminate

fun effect_status_str :: "effect_status \<Rightarrow> string" where
  "effect_status_str EffectPrepared = ''prepared''"
| "effect_status_str EffectRunning = ''running''"
| "effect_status_str EffectSucceeded = ''succeeded''"
| "effect_status_str EffectFailed = ''failed''"
| "effect_status_str EffectIndeterminate = ''indeterminate''"

definition effect_status_from_str :: "string \<Rightarrow> effect_status option" where
  "effect_status_from_str s =
     (if s = ''prepared'' then Some EffectPrepared
      else if s = ''running'' then Some EffectRunning
      else if s = ''succeeded'' then Some EffectSucceeded
      else if s = ''failed'' then Some EffectFailed
      else if s = ''indeterminate'' then Some EffectIndeterminate
      else None)"

definition effect_is_terminal :: "effect_status \<Rightarrow> bool" where
  "effect_is_terminal s \<longleftrightarrow> s = EffectSucceeded \<or> s = EffectFailed"

datatype side_effect_class = NoSideEffect | WorkspaceEffect | ExternalEffect | UnknownEffect

fun side_effect_class_str :: "side_effect_class \<Rightarrow> string" where
  "side_effect_class_str NoSideEffect = ''none''"
| "side_effect_class_str WorkspaceEffect = ''workspace''"
| "side_effect_class_str ExternalEffect = ''external''"
| "side_effect_class_str UnknownEffect = ''unknown''"

definition side_effect_class_from_str :: "string \<Rightarrow> side_effect_class option" where
  "side_effect_class_from_str s =
     (if s = ''none'' then Some NoSideEffect
      else if s = ''workspace'' then Some WorkspaceEffect
      else if s = ''external'' then Some ExternalEffect
      else if s = ''unknown'' then Some UnknownEffect
      else None)"

record effect_intent =
  ei_thread_id :: uuid
  ei_turn_id :: uuid
  ei_agent_path :: string
  ei_idempotency_key :: string
  ei_kind :: effect_kind
  ei_operation :: string
  ei_input_hash :: string
  ei_input :: json
  ei_side_effect_class :: side_effect_class
  ei_idempotent :: bool

record effect_record =
  er_effect_id :: uuid
  er_thread_id :: uuid
  er_turn_id :: uuid
  er_agent_path :: string
  er_idempotency_key :: string
  er_kind :: effect_kind
  er_operation :: string
  er_input_hash :: string
  er_input :: json
  er_result :: "json option"
  er_status :: effect_status
  er_side_effect_class :: side_effect_class
  er_idempotent :: bool
  er_attempt :: nat
  er_error :: "string option"
  er_created_at :: timestamp
  er_started_at :: "timestamp option"
  er_completed_at :: "timestamp option"
  er_updated_at :: timestamp

definition requires_reconciliation :: "effect_record \<Rightarrow> bool" where
  "requires_reconciliation e \<longleftrightarrow>
     er_status e = EffectIndeterminate \<and> er_side_effect_class e \<noteq> NoSideEffect \<and> \<not> er_idempotent e"

datatype effect_error =
    EmptyIdempotencyKey
  | EmptyOperation
  | EmptyInputHash
  | IdempotencyConflict string
  | InvalidTransition uuid effect_status effect_status
  | EffectNotFound
  | DuplicateEffect uuid
  | NotAFinishStatus
  | MissingReplayResult
  | UndecodableResult

definition validate_effect_intent :: "effect_intent \<Rightarrow> effect_error + unit" where
  "validate_effect_intent i =
     res_ensure (trim (ei_idempotency_key i) \<noteq> []) EmptyIdempotencyKey
     (res_ensure (trim (ei_operation i) \<noteq> []) EmptyOperation
     (res_ensure (trim (ei_input_hash i) \<noteq> []) EmptyInputHash (Inr ())))"

definition valid_effect_transition :: "effect_status \<Rightarrow> effect_status \<Rightarrow> bool" where
  "valid_effect_transition from to \<longleftrightarrow>
     (from, to) \<in> {(EffectPrepared, EffectRunning), (EffectPrepared, EffectFailed),
       (EffectRunning, EffectSucceeded), (EffectRunning, EffectFailed), (EffectRunning, EffectIndeterminate),
       (EffectIndeterminate, EffectRunning), (EffectIndeterminate, EffectSucceeded),
       (EffectIndeterminate, EffectFailed), (EffectFailed, EffectRunning)}
     \<or> from = to"

section \<open>The journal\<close>

type_synonym journal = "(uuid, effect_record) btree"

definition has_key :: "uuid \<Rightarrow> uuid \<Rightarrow> string \<Rightarrow> string \<Rightarrow> effect_record \<Rightarrow> bool" where
  "has_key thread_id turn_id agent_path key e \<longleftrightarrow>
     er_thread_id e = thread_id \<and> er_turn_id e = turn_id \<and> er_agent_path e = agent_path
     \<and> er_idempotency_key e = key"

definition query_effect_by_idempotency_key ::
    "uuid \<Rightarrow> uuid \<Rightarrow> string \<Rightarrow> string \<Rightarrow> journal \<Rightarrow> effect_record option" where
  "query_effect_by_idempotency_key thread_id turn_id agent_path key j =
     find (has_key thread_id turn_id agent_path key) (map snd j)"

abbreviation intent_key :: "effect_intent \<Rightarrow> effect_record \<Rightarrow> bool" where
  "intent_key i \<equiv> has_key (ei_thread_id i) (ei_turn_id i) (ei_agent_path i) (ei_idempotency_key i)"

definition prepared_record :: "timestamp \<Rightarrow> uuid \<Rightarrow> effect_intent \<Rightarrow> effect_record" where
  "prepared_record now new_id i =
     \<lparr>er_effect_id = new_id, er_thread_id = ei_thread_id i, er_turn_id = ei_turn_id i,
      er_agent_path = ei_agent_path i, er_idempotency_key = ei_idempotency_key i, er_kind = ei_kind i,
      er_operation = ei_operation i, er_input_hash = ei_input_hash i, er_input = ei_input i,
      er_result = None, er_status = EffectPrepared, er_side_effect_class = ei_side_effect_class i,
      er_idempotent = ei_idempotent i, er_attempt = 0, er_error = None, er_created_at = now,
      er_started_at = None, er_completed_at = None, er_updated_at = now\<rparr>"

definition prepare_effect ::
    "timestamp \<Rightarrow> uuid \<Rightarrow> effect_intent \<Rightarrow> journal \<Rightarrow> effect_error + effect_record \<times> journal" where
  "prepare_effect now new_id i j =
     res_bind (validate_effect_intent i) (\<lambda>_.
       case query_effect_by_idempotency_key (ei_thread_id i) (ei_turn_id i) (ei_agent_path i)
              (ei_idempotency_key i) j of
         Some existing \<Rightarrow>
           if er_kind existing \<noteq> ei_kind i \<or> er_operation existing \<noteq> ei_operation i
              \<or> er_input_hash existing \<noteq> ei_input_hash i
           then Inl (IdempotencyConflict (ei_idempotency_key i))
           else Inr (existing, j)
       | None \<Rightarrow>
           if bt_contains j new_id then Inl (DuplicateEffect new_id)
           else Inr (prepared_record now new_id i, bt_insert new_id (prepared_record now new_id i) j))"

definition start_effect :: "timestamp \<Rightarrow> uuid \<Rightarrow> journal \<Rightarrow> effect_error + effect_record \<times> journal" where
  "start_effect now effect_id j =
     res_bind (ok_or (bt_get j effect_id) EffectNotFound) (\<lambda>current.
       if er_status current = EffectRunning then Inr (current, j)
       else
         res_ensure (valid_effect_transition (er_status current) EffectRunning)
           (InvalidTransition effect_id (er_status current) EffectRunning)
           (let e = current\<lparr>er_status := EffectRunning, er_attempt := er_attempt current + 1,
                  er_started_at := Some now, er_completed_at := None, er_result := None, er_error := None,
                  er_updated_at := now\<rparr>
            in Inr (e, bt_insert effect_id e j)))"

definition finish_effect ::
    "timestamp \<Rightarrow> uuid \<Rightarrow> effect_status \<Rightarrow> json option \<Rightarrow> string option \<Rightarrow> journal
      \<Rightarrow> effect_error + effect_record \<times> journal" where
  "finish_effect now effect_id status result error j =
     res_ensure (status \<in> {EffectSucceeded, EffectFailed, EffectIndeterminate}) NotAFinishStatus
     (res_bind (ok_or (bt_get j effect_id) EffectNotFound) (\<lambda>current.
       if er_status current = status then Inr (current, j)
       else
         res_ensure (valid_effect_transition (er_status current) status)
           (InvalidTransition effect_id (er_status current) status)
           (let e = current\<lparr>er_status := status, er_result := result, er_error := error,
                  er_completed_at := (if effect_is_terminal status then Some now else None),
                  er_updated_at := now\<rparr>
            in Inr (e, bt_insert effect_id e j))))"

definition mark_indeterminate :: "timestamp \<Rightarrow> effect_record \<Rightarrow> effect_record" where
  "mark_indeterminate now e =
     (if er_status e = EffectRunning
      then e\<lparr>er_status := EffectIndeterminate,
             er_error := (case er_error e of
                 Some m \<Rightarrow> Some m
               | None \<Rightarrow> Some ''process exited before the effect outcome was persisted''),
             er_updated_at := now\<rparr>
      else e)"

definition mark_running_effects_indeterminate :: "timestamp \<Rightarrow> journal \<Rightarrow> nat \<times> journal" where
  "mark_running_effects_indeterminate now j =
     (length (filter (\<lambda>(_, e). er_status e = EffectRunning) j),
      map (\<lambda>(k, e). (k, mark_indeterminate now e)) j)"

section \<open>A journaled tool call\<close>

datatype tool_side_effect =
    ToolNoEffect | ToolWorkspaceWrite | ToolProcess | ToolSessionMutation | ToolControlPlane
  | ToolExternal | ToolUnknown

fun effect_side_effect_class :: "tool_side_effect \<Rightarrow> side_effect_class" where
  "effect_side_effect_class ToolNoEffect = NoSideEffect"
| "effect_side_effect_class ToolWorkspaceWrite = WorkspaceEffect"
| "effect_side_effect_class ToolExternal = ExternalEffect"
| "effect_side_effect_class ToolProcess = ExternalEffect"
| "effect_side_effect_class ToolSessionMutation = ExternalEffect"
| "effect_side_effect_class ToolControlPlane = ExternalEffect"
| "effect_side_effect_class ToolUnknown = UnknownEffect"

record tool_execution_policy =
  tp_read_only :: bool
  tp_idempotent :: bool
  tp_parallel_safe :: bool
  tp_side_effect :: tool_side_effect
  tp_resource_keys :: "string list"

record provider_tool_call =
  pt_id :: string
  pt_name :: string
  pt_arguments :: json

record provider_tool_result =
  pr_call_id :: string
  pr_name :: string
  pr_output :: string
  pr_content :: "json list"
  pr_is_error :: bool
  pr_metadata :: json

datatype tool_outcome =
    ToolCompleted provider_tool_result
  | ToolNeedsApproval string
  | ToolFailed string

definition call_intent ::
    "(json \<Rightarrow> string) \<Rightarrow> uuid \<Rightarrow> uuid \<Rightarrow> string \<Rightarrow> tool_execution_policy \<Rightarrow> provider_tool_call \<Rightarrow> effect_intent" where
  "call_intent to_vec thread_id scope_id agent_path policy call =
     \<lparr>ei_thread_id = thread_id, ei_turn_id = scope_id, ei_agent_path = agent_path,
      ei_idempotency_key = scope_id @ ''/'' @ agent_path @ ''/'' @ pt_name call @ ''/'' @ pt_id call,
      ei_kind = ToolCallEffect, ei_operation = pt_name call,
      ei_input_hash = content_fingerprint (to_vec (pt_arguments call)), ei_input = pt_arguments call,
      ei_side_effect_class = effect_side_effect_class (tp_side_effect policy),
      ei_idempotent = tp_idempotent policy\<rparr>"

datatype begin_result =
    BeginFailed effect_error
  | Replayed provider_tool_result
  | ReconciliationRequired effect_record
  | ExecuteTool uuid

definition mark_replayed :: "uuid \<Rightarrow> provider_tool_result \<Rightarrow> provider_tool_result" where
  "mark_replayed effect_id r =
     r\<lparr>pr_metadata := (case pr_metadata r of
         JObject m \<Rightarrow> JObject (bt_insert ''effectId'' (JString effect_id)
                        (bt_insert ''effectJournalReplay'' (JBool True) m))
       | v \<Rightarrow> v)\<rparr>"

definition journal_begin ::
    "(json \<Rightarrow> provider_tool_result option) \<Rightarrow> timestamp \<Rightarrow> uuid \<Rightarrow> effect_intent \<Rightarrow> journal
      \<Rightarrow> begin_result \<times> journal" where
  "journal_begin decode now new_id i j =
     (case prepare_effect now new_id i j of
        Inl e \<Rightarrow> (BeginFailed e, j)
      | Inr (prepared, j1) \<Rightarrow>
          if er_status prepared = EffectSucceeded then
            (case res_bind (ok_or (er_result prepared) MissingReplayResult) (\<lambda>v. ok_or (decode v) UndecodableResult) of
               Inl e \<Rightarrow> (BeginFailed e, j1)
             | Inr r \<Rightarrow> (Replayed (mark_replayed (er_effect_id prepared) r), j1))
          else if requires_reconciliation prepared \<or> er_status prepared = EffectRunning then
            (ReconciliationRequired prepared, j1)
          else
            (case start_effect now (er_effect_id prepared) j1 of
               Inl e \<Rightarrow> (BeginFailed e, j1)
             | Inr (running, j2) \<Rightarrow> (ExecuteTool (er_effect_id running), j2)))"

definition error_record_field :: "string \<Rightarrow> json \<Rightarrow> json option" where
  "error_record_field name metadata = Option.bind (json_get metadata ''errorRecord'') (\<lambda>v. json_get v name)"

definition was_executed :: "provider_tool_result \<Rightarrow> bool" where
  "was_executed r =
     (case Option.bind (error_record_field ''executed'' (pr_metadata r)) as_bool of Some b \<Rightarrow> b | None \<Rightarrow> True)"

definition result_error :: "provider_tool_result \<Rightarrow> string" where
  "result_error r =
     (case Option.bind (case error_record_field ''message'' (pr_metadata r) of
             Some v \<Rightarrow> Some v
           | None \<Rightarrow> json_get (pr_metadata r) ''error'') as_str of
        Some m \<Rightarrow> m
      | None \<Rightarrow> pr_output r)"

definition repeatable :: "tool_execution_policy \<Rightarrow> bool" where
  "repeatable policy \<longleftrightarrow> tp_side_effect policy = ToolNoEffect \<or> tp_idempotent policy"

fun finish_of ::
    "(provider_tool_result \<Rightarrow> json) \<Rightarrow> tool_execution_policy \<Rightarrow> tool_outcome
      \<Rightarrow> effect_status \<times> json option \<times> string option" where
  "finish_of encode policy (ToolCompleted r) =
     (if pr_is_error r
      then (if \<not> was_executed r \<or> repeatable policy then EffectFailed else EffectIndeterminate,
            Some (encode r), Some (result_error r))
      else (EffectSucceeded, Some (encode r), None))"
| "finish_of encode policy (ToolNeedsApproval reason) =
     (EffectFailed, None, Some (''approval required: '' @ reason))"
| "finish_of encode policy (ToolFailed message) =
     (if repeatable policy then EffectFailed else EffectIndeterminate, None, Some message)"

definition journal_finish ::
    "(provider_tool_result \<Rightarrow> json) \<Rightarrow> timestamp \<Rightarrow> uuid \<Rightarrow> tool_execution_policy \<Rightarrow> tool_outcome \<Rightarrow> journal
      \<Rightarrow> effect_error + journal" where
  "journal_finish encode now effect_id policy outcome j =
     (let (status, result, error) = finish_of encode policy outcome in
        res_bind (finish_effect now effect_id status result error j) (\<lambda>(_, j'). Inr j'))"

section \<open>Interleaving and restarts\<close>

record journal_state =
  js_journal :: journal
  js_inflight :: "uuid list"
  js_executions :: "uuid \<Rightarrow> nat"

text \<open>
  \<open>js_executions\<close> is a ghost component: for each effect the number of executions of the tool that may have
  had an effect, that is, of all executions that were begun and did not end with the report that nothing
  was done (status \<open>EffectFailed\<close>).
\<close>

definition count_finish :: "effect_status \<Rightarrow> uuid \<Rightarrow> (uuid \<Rightarrow> nat) \<Rightarrow> uuid \<Rightarrow> nat" where
  "count_finish status k executions =
     (if status = EffectFailed then executions(k := executions k - 1) else executions)"

inductive journal_step ::
    "(provider_tool_result \<Rightarrow> json) \<Rightarrow> (json \<Rightarrow> provider_tool_result option) \<Rightarrow> journal_state \<Rightarrow> journal_state \<Rightarrow> bool"
  for encode decode where
  execute: "journal_begin decode now new_id i (js_journal s) = (ExecuteTool k, j) \<Longrightarrow>
    journal_step encode decode s
      (s\<lparr>js_journal := j, js_inflight := k # js_inflight s,
         js_executions := (js_executions s)(k := js_executions s k + 1)\<rparr>)"
| refuse: "journal_begin decode now new_id i (js_journal s) = (r, j) \<Longrightarrow> (\<And>k. r \<noteq> ExecuteTool k) \<Longrightarrow>
    journal_step encode decode s (s\<lparr>js_journal := j\<rparr>)"
| finish: "k \<in> set (js_inflight s) \<Longrightarrow> journal_finish encode now k policy outcome (js_journal s) = Inr j \<Longrightarrow>
    journal_step encode decode s
      (s\<lparr>js_journal := j, js_inflight := remove1 k (js_inflight s),
         js_executions := count_finish (fst (finish_of encode policy outcome)) k (js_executions s)\<rparr>)"
| abandon: "journal_step encode decode s (s\<lparr>js_inflight := remove1 k (js_inflight s)\<rparr>)"
| restart: "journal_step encode decode s
    (s\<lparr>js_journal := snd (mark_running_effects_indeterminate now (js_journal s)), js_inflight := []\<rparr>)"

abbreviation journal_steps where
  "journal_steps encode decode \<equiv> (journal_step encode decode)\<^sup>*\<^sup>*"

definition initial_journal :: journal_state where
  "initial_journal = \<lparr>js_journal = [], js_inflight = [], js_executions = (\<lambda>_. 0)\<rparr>"

section \<open>Rows\<close>

definition journal_ok :: "journal \<Rightarrow> bool" where
  "journal_ok j \<longleftrightarrow>
     bt_inv j
     \<and> (\<forall>k e. bt_get j k = Some e \<longrightarrow> er_effect_id e = k)
     \<and> (\<forall>k e k' e'. bt_get j k = Some e \<longrightarrow> bt_get j k' = Some e'
          \<longrightarrow> has_key (er_thread_id e) (er_turn_id e) (er_agent_path e) (er_idempotency_key e) e' \<longrightarrow> k = k')"

lemma journal_okD:
  assumes "journal_ok j"
  shows "bt_inv j" "bt_get j k = Some e \<Longrightarrow> er_effect_id e = k"
    "bt_get j k = Some e \<Longrightarrow> bt_get j k' = Some e' \<Longrightarrow>
       has_key (er_thread_id e) (er_turn_id e) (er_agent_path e) (er_idempotency_key e) e' \<Longrightarrow> k = k'"
  using assms by (simp_all add: journal_ok_def)

lemma query_key_Some:
  assumes "bt_inv j" "query_effect_by_idempotency_key t u a key j = Some e"
  shows "\<exists>k. bt_get j k = Some e \<and> has_key t u a key e"
proof -
  from assms(2) have "e \<in> set (map snd j)" "has_key t u a key e"
    unfolding query_effect_by_idempotency_key_def by (auto dest: find_Some_in)
  then obtain k where "(k, e) \<in> set j" by auto
  then have "bt_get j k = Some e"
    using assms(1) by (simp add: bt_get_map_of bt_inv_distinct)
  with \<open>has_key t u a key e\<close> show ?thesis by blast
qed

lemma query_key_None:
  assumes "query_effect_by_idempotency_key t u a key j = None" "bt_get j k = Some e"
  shows "\<not> has_key t u a key e"
proof -
  have "(k, e) \<in> set j" using assms(2) by (simp add: bt_get_map_of map_of_SomeD)
  with assms(1) show ?thesis
    unfolding query_effect_by_idempotency_key_def by (auto simp: find_None_iff)
qed

lemma query_key_unique:
  assumes "journal_ok j" "bt_get j k = Some e" "has_key t u a key e"
  shows "query_effect_by_idempotency_key t u a key j = Some e"
proof (cases "query_effect_by_idempotency_key t u a key j")
  case None
  from query_key_None [OF this assms(2)] assms(3) show ?thesis by simp
next
  case (Some e')
  from query_key_Some [OF journal_okD(1) [OF assms(1)] Some] obtain k' where
    "bt_get j k' = Some e'" "has_key t u a key e'" by blast
  moreover from this assms(3) have
    "has_key (er_thread_id e) (er_turn_id e) (er_agent_path e) (er_idempotency_key e) e'"
    by (simp add: has_key_def)
  ultimately have "k = k'" using journal_okD(3) [OF assms(1,2)] by blast
  with \<open>bt_get j k' = Some e'\<close> assms(2) Some show ?thesis by simp
qed

definition running :: "timestamp \<Rightarrow> effect_record \<Rightarrow> effect_record" where
  "running now e =
     e\<lparr>er_status := EffectRunning, er_attempt := er_attempt e + 1, er_started_at := Some now,
       er_completed_at := None, er_result := None, er_error := None, er_updated_at := now\<rparr>"

lemma start_effect_fresh:
  assumes "bt_get j k = Some e" "er_status e \<noteq> EffectRunning" "er_status e \<noteq> EffectSucceeded"
  shows "start_effect now k j = Inr (running now e, bt_insert k (running now e) j)"
  using assms
  by (cases "er_status e")
     (simp_all add: start_effect_def ok_or_def res_ensure_def valid_effect_transition_def running_def Let_def)

definition startable :: "effect_record \<Rightarrow> bool" where
  "startable e \<longleftrightarrow>
     er_status e \<noteq> EffectSucceeded \<and> er_status e \<noteq> EffectRunning \<and> \<not> requires_reconciliation e"

lemma journal_begin_existing:
  assumes ok: "journal_ok j" and row: "bt_get j k = Some e" "intent_key i e"
    and prepared: "prepare_effect now new_id i j = Inr (e', j1)"
  shows "e' = e \<and> j1 = j
    \<and> (startable e \<longrightarrow> journal_begin decode now new_id i j = (ExecuteTool k, bt_insert k (running now e) j))
    \<and> (\<not> startable e \<longrightarrow> (\<exists>r. journal_begin decode now new_id i j = (r, j) \<and> (\<forall>k. r \<noteq> ExecuteTool k)))"
proof -
  have same: "e' = e" "j1 = j"
    using prepared query_key_unique [OF ok row]
    by (auto simp: prepare_effect_def res_Inr_iffs split: if_splits)
  have k: "er_effect_id e = k" using journal_okD(2) [OF ok row(1)] .
  have "startable e \<Longrightarrow> journal_begin decode now new_id i j = (ExecuteTool k, bt_insert k (running now e) j)"
    using prepared start_effect_fresh [OF row(1)]
    by (simp add: journal_begin_def same startable_def k) (simp add: running_def k)
  moreover have "\<not> startable e \<Longrightarrow> \<exists>r. journal_begin decode now new_id i j = (r, j) \<and> (\<forall>k. r \<noteq> ExecuteTool k)"
    using prepared by (auto simp: journal_begin_def same startable_def split: sum.splits)
  ultimately show ?thesis using same by blast
qed

lemma journal_begin_cases:
  assumes ok: "journal_ok j" and begun: "journal_begin decode now new_id i j = (r, j')"
  obtains (execute) k e where "r = ExecuteTool k" "intent_key i e" "startable e"
      "bt_get j k = Some e \<or> bt_get j k = None \<and> e = prepared_record now k i
         \<and> (\<forall>k' e'. bt_get j k' = Some e' \<longrightarrow> \<not> intent_key i e')"
      "\<forall>k'. bt_get j' k' = (if k' = k then Some (running now e) else bt_get j k')" "bt_inv j'"
  | (refuse) "j' = j" "\<forall>k. r \<noteq> ExecuteTool k"
proof (cases "prepare_effect now new_id i j")
  case (Inl e)
  with begun show thesis by (intro refuse) (auto simp: journal_begin_def)
next
  case (Inr p)
  then obtain e0 j1 where prepared: "prepare_effect now new_id i j = Inr (e0, j1)" by (cases p) auto
  show thesis
  proof (cases "query_effect_by_idempotency_key (ei_thread_id i) (ei_turn_id i) (ei_agent_path i)
      (ei_idempotency_key i) j")
    case (Some e)
    from query_key_Some [OF journal_okD(1) [OF ok] Some] obtain k where
      row: "bt_get j k = Some e" "intent_key i e" by blast
    note cases = journal_begin_existing [OF ok row prepared, of decode]
    show thesis
    proof (cases "startable e")
      case True
      with cases begun have "r = ExecuteTool k" "j' = bt_insert k (running now e) j" by auto
      with True row journal_okD(1) [OF ok] show thesis
        by (intro execute [of k e]) (simp_all add: bt_get_insert bt_inv_insert)
    next
      case False
      with cases begun show thesis by (intro refuse) auto
    qed
  next
    case None
    with prepared have new: "\<not> bt_contains j new_id" "e0 = prepared_record now new_id i"
        "j1 = bt_insert new_id e0 j"
      by (auto simp: prepare_effect_def res_Inr_iffs split: if_splits)
    have row: "bt_get j1 new_id = Some e0" by (simp add: new(3) bt_get_insert)
    have status: "er_status e0 = EffectPrepared" "er_effect_id e0 = new_id"
      by (simp_all add: new(2) prepared_record_def)
    then have "journal_begin decode now new_id i j = (ExecuteTool new_id, bt_insert new_id (running now e0) j1)"
      using start_effect_fresh [OF row, of now]
      by (simp add: journal_begin_def prepared requires_reconciliation_def running_def)
    with begun have "r = ExecuteTool new_id" "j' = bt_insert new_id (running now e0) j1" by auto
    moreover have "startable e0" using status by (simp add: startable_def requires_reconciliation_def)
    moreover have "intent_key i e0" by (simp add: new(2) prepared_record_def has_key_def)
    moreover have "bt_get j new_id = None" using new(1) by (simp add: bt_contains_def)
    ultimately show thesis
      using query_key_None [OF None] new(2,3) journal_okD(1) [OF ok]
      by (intro execute [of new_id e0]) (auto simp: bt_get_insert bt_inv_insert)
  qed
qed

section \<open>The invariant\<close>

definition careful :: "effect_record \<Rightarrow> bool" where
  "careful e \<longleftrightarrow> er_side_effect_class e \<noteq> NoSideEffect \<and> \<not> er_idempotent e"

definition maybe_done :: "effect_status \<Rightarrow> bool" where
  "maybe_done s \<longleftrightarrow> s = EffectRunning \<or> s = EffectSucceeded \<or> s = EffectIndeterminate"

definition journal_inv :: "journal_state \<Rightarrow> bool" where
  "journal_inv s \<longleftrightarrow>
     journal_ok (js_journal s)
     \<and> distinct (js_inflight s)
     \<and> (\<forall>k \<in> set (js_inflight s). \<exists>e. bt_get (js_journal s) k = Some e \<and> er_status e = EffectRunning)
     \<and> (\<forall>k. bt_get (js_journal s) k = None \<longrightarrow> js_executions s k = 0)
     \<and> (\<forall>k e. bt_get (js_journal s) k = Some e \<longrightarrow> careful e \<longrightarrow>
          js_executions s k = (if maybe_done (er_status e) then 1 else 0))"

lemma journal_invD:
  assumes "journal_inv s"
  shows "journal_ok (js_journal s)" "distinct (js_inflight s)"
    "k \<in> set (js_inflight s) \<Longrightarrow> \<exists>e. bt_get (js_journal s) k = Some e \<and> er_status e = EffectRunning"
    "bt_get (js_journal s) k = None \<Longrightarrow> js_executions s k = 0"
    "bt_get (js_journal s) k = Some e \<Longrightarrow> careful e \<Longrightarrow>
       js_executions s k = (if maybe_done (er_status e) then 1 else 0)"
  using assms by (simp_all add: journal_inv_def)

text \<open>An update of one row that keeps its key and its class.\<close>

definition same_effect :: "effect_record \<Rightarrow> effect_record \<Rightarrow> bool" where
  "same_effect e e' \<longleftrightarrow>
     er_effect_id e' = er_effect_id e \<and> er_thread_id e' = er_thread_id e \<and> er_turn_id e' = er_turn_id e
     \<and> er_agent_path e' = er_agent_path e \<and> er_idempotency_key e' = er_idempotency_key e
     \<and> er_side_effect_class e' = er_side_effect_class e \<and> er_idempotent e' = er_idempotent e"

lemma same_effect_careful: "same_effect e e' \<Longrightarrow> careful e' = careful e"
  by (simp add: same_effect_def careful_def)

lemma journal_ok_update:
  assumes "journal_ok j" "bt_get j k = Some e" "same_effect e e'" "bt_inv j'"
    and j': "\<forall>k'. bt_get j' k' = (if k' = k then Some e' else bt_get j k')"
  shows "journal_ok j'"
proof -
  have "\<exists>e0. bt_get j k0 = Some e0 \<and> same_effect e0 f" if "bt_get j' k0 = Some f" for k0 f
    using that j' assms(2,3) by (auto simp: same_effect_def split: if_splits)
  then show ?thesis
    unfolding journal_ok_def
  proof (intro conjI allI impI)
    fix k1 e1 k2 e2
    assume "bt_get j' k1 = Some e1" "bt_get j' k2 = Some e2"
      and key: "has_key (er_thread_id e1) (er_turn_id e1) (er_agent_path e1) (er_idempotency_key e1) e2"
    with \<open>\<And>k0 f. bt_get j' k0 = Some f \<Longrightarrow> \<exists>e0. bt_get j k0 = Some e0 \<and> same_effect e0 f\<close>
    obtain f1 f2 where "bt_get j k1 = Some f1" "same_effect f1 e1" "bt_get j k2 = Some f2" "same_effect f2 e2"
      by meson
    with key show "k1 = k2"
      using journal_okD(3) [OF assms(1)] by (simp add: same_effect_def has_key_def)
  next
    fix k0 f assume "bt_get j' k0 = Some f"
    with \<open>\<And>k0 f. bt_get j' k0 = Some f \<Longrightarrow> \<exists>e0. bt_get j k0 = Some e0 \<and> same_effect e0 f\<close>
    obtain e0 where "bt_get j k0 = Some e0" "same_effect e0 f" by blast
    then show "er_effect_id f = k0"
      using journal_okD(2) [OF assms(1)] by (simp add: same_effect_def)
  qed (rule assms(4))
qed

lemma journal_ok_insert:
  assumes "journal_ok j" "bt_get j k = None" "er_effect_id e = k" "bt_inv j'"
    and fresh: "\<forall>k' e'. bt_get j k' = Some e' \<longrightarrow>
      \<not> has_key (er_thread_id e) (er_turn_id e) (er_agent_path e) (er_idempotency_key e) e'"
    and j': "\<forall>k'. bt_get j' k' = (if k' = k then Some e else bt_get j k')"
  shows "journal_ok j'"
  unfolding journal_ok_def
proof (intro conjI allI impI)
  fix k1 e1 k2 e2
  assume rows: "bt_get j' k1 = Some e1" "bt_get j' k2 = Some e2"
    and key: "has_key (er_thread_id e1) (er_turn_id e1) (er_agent_path e1) (er_idempotency_key e1) e2"
  have sym: "has_key (er_thread_id e2) (er_turn_id e2) (er_agent_path e2) (er_idempotency_key e2) e1"
    using key by (simp add: has_key_def)
  show "k1 = k2"
  proof (cases "k1 = k \<or> k2 = k")
    case True
    with rows key sym fresh j' show ?thesis by (metis option.inject)
  next
    case False
    with rows j' journal_okD(3) [OF assms(1) _ _ key] show ?thesis by simp
  qed
next
  fix k0 f assume "bt_get j' k0 = Some f"
  then show "er_effect_id f = k0"
    using j' assms(3) journal_okD(2) [OF assms(1)] by (auto split: if_splits)
qed (rule assms(4))

lemma running_simps [simp]:
  "same_effect e (running now e)" "er_status (running now e) = EffectRunning"
  "careful (running now e) = careful e"
  by (simp_all add: running_def same_effect_def careful_def)

lemma journal_finish_running:
  assumes "bt_get j k = Some e" "er_status e = EffectRunning"
    "journal_finish encode now k policy outcome j = Inr j'"
  shows "\<exists>e'. j' = bt_insert k e' j \<and> same_effect e e' \<and> er_status e' = fst (finish_of encode policy outcome)
    \<and> er_result e' = fst (snd (finish_of encode policy outcome))"
proof -
  obtain status result error where f: "finish_of encode policy outcome = (status, result, error)"
    by (cases "finish_of encode policy outcome") auto
  have "status \<noteq> EffectRunning"
    using f by (cases outcome) (auto split: if_splits)
  let ?e = "e\<lparr>er_status := status, er_result := result, er_error := error,
      er_completed_at := (if effect_is_terminal status then Some now else None), er_updated_at := now\<rparr>"
  from \<open>status \<noteq> EffectRunning\<close> assms f have "j' = bt_insert k ?e j"
    by (auto simp: journal_finish_def finish_effect_def res_Inr_iffs Let_def split: if_splits)
  then show ?thesis
    by (intro exI [of _ ?e]) (simp add: f same_effect_def)
qed

lemma journal_inv_init: "journal_inv initial_journal"
  by (simp add: journal_inv_def initial_journal_def journal_ok_def bt_inv_def)

lemma journal_inv_execute:
  assumes inv: "journal_inv s" and begun: "journal_begin decode now new_id i (js_journal s) = (ExecuteTool k, j)"
  shows "journal_inv (s\<lparr>js_journal := j, js_inflight := k # js_inflight s,
         js_executions := (js_executions s)(k := js_executions s k + 1)\<rparr>)"
  using journal_invD(1) [OF inv] begun
proof (cases rule: journal_begin_cases)
  case (execute k' e)
  then have k: "k' = k" by simp
  note row = execute(4) [unfolded k] and j = execute(5) [unfolded k]
  have ok: "journal_ok j"
    using row
  proof
    assume "bt_get (js_journal s) k = Some e"
    then show ?thesis
      by (rule journal_ok_update [OF journal_invD(1) [OF inv] _ running_simps(1) execute(6) j])
  next
    assume *: "bt_get (js_journal s) k = None \<and> e = prepared_record now k i
         \<and> (\<forall>k' e'. bt_get (js_journal s) k' = Some e' \<longrightarrow> \<not> intent_key i e')"
    show ?thesis
      by (rule journal_ok_insert [OF journal_invD(1) [OF inv] _ _ execute(6) _ j])
         (use * in \<open>simp_all add: running_def prepared_record_def\<close>)
  qed
  have idle: "k \<notin> set (js_inflight s)"
    using journal_invD(3) [OF inv, of k] row execute(3) by (auto simp: startable_def)
  have fresh: "careful e \<Longrightarrow> js_executions s k = 0"
    using row execute(3) journal_invD(4,5) [OF inv, of k]
    by (auto simp: startable_def maybe_done_def requires_reconciliation_def careful_def)
  show ?thesis
    using ok idle fresh journal_invD [OF inv] j
    by (auto simp: journal_inv_def maybe_done_def)
qed simp

lemma journal_inv_finish:
  assumes inv: "journal_inv s" and k: "k \<in> set (js_inflight s)"
    and finish: "journal_finish encode now k policy outcome (js_journal s) = Inr j"
  shows "journal_inv (s\<lparr>js_journal := j, js_inflight := remove1 k (js_inflight s),
         js_executions := count_finish (fst (finish_of encode policy outcome)) k (js_executions s)\<rparr>)"
proof -
  from journal_invD(3) [OF inv k] obtain e where row: "bt_get (js_journal s) k = Some e" "er_status e = EffectRunning"
    by blast
  from journal_finish_running [OF row finish] obtain e' where j: "j = bt_insert k e' (js_journal s)"
    and same: "same_effect e e'" and status: "er_status e' = fst (finish_of encode policy outcome)" by blast
  have lookup: "\<forall>k'. bt_get j k' = (if k' = k then Some e' else bt_get (js_journal s) k')"
    by (simp add: j bt_get_insert)
  have "bt_inv j" using journal_okD(1) [OF journal_invD(1) [OF inv]] by (simp add: j bt_inv_insert)
  then have ok: "journal_ok j"
    by (rule journal_ok_update [OF journal_invD(1) [OF inv] row(1) same _ lookup])
  have "fst (finish_of encode policy outcome) \<noteq> EffectPrepared"
    by (cases outcome) auto
  then have counted: "careful e' \<Longrightarrow> count_finish (er_status e') k (js_executions s) k
      = (if maybe_done (er_status e') then 1 else 0)"
    using journal_invD(5) [OF inv row(1)] row(2) same_effect_careful [OF same] status
    by (cases "er_status e'") (simp_all add: count_finish_def maybe_done_def)
  have other: "count_finish st k (js_executions s) k' = js_executions s k'" if "k' \<noteq> k" for st k'
    using that by (simp add: count_finish_def)
  show ?thesis
    using ok counted other lookup journal_invD [OF inv] status
    by (auto simp: journal_inv_def)
qed

lemma bt_get_map_value: "bt_get (map (\<lambda>(k, v). (k, f v)) m) k = map_option f (bt_get m k)"
  by (induction m) auto

lemma mark_indeterminate_same: "same_effect e (mark_indeterminate now e)"
  by (simp add: mark_indeterminate_def same_effect_def)

lemma journal_inv_restart:
  assumes inv: "journal_inv s"
  shows "journal_inv (s\<lparr>js_journal := snd (mark_running_effects_indeterminate now (js_journal s)), js_inflight := []\<rparr>)"
proof -
  let ?j = "snd (mark_running_effects_indeterminate now (js_journal s))"
  have lookup: "bt_get ?j k = map_option (mark_indeterminate now) (bt_get (js_journal s) k)" for k
    by (simp add: mark_running_effects_indeterminate_def bt_get_map_value)
  have "map fst ?j = map fst (js_journal s)"
    by (simp add: mark_running_effects_indeterminate_def case_prod_unfold comp_def)
  then have "bt_inv ?j"
    using journal_okD(1) [OF journal_invD(1) [OF inv]] by (simp add: bt_inv_def)
  moreover have "er_effect_id e = k" if "bt_get ?j k = Some e" for k e
    using that journal_okD(2) [OF journal_invD(1) [OF inv]] mark_indeterminate_same
    by (auto simp: lookup same_effect_def)
  moreover have "k1 = k2" if "bt_get ?j k1 = Some e1" "bt_get ?j k2 = Some e2"
      "has_key (er_thread_id e1) (er_turn_id e1) (er_agent_path e1) (er_idempotency_key e1) e2" for k1 k2 e1 e2
    using that journal_okD(3) [OF journal_invD(1) [OF inv]]
    by (auto simp: lookup mark_indeterminate_def has_key_def split: if_splits)
  ultimately have "journal_ok ?j" by (auto simp: journal_ok_def)
  moreover have "careful (mark_indeterminate now e) = careful e"
      "maybe_done (er_status (mark_indeterminate now e)) = maybe_done (er_status e)" for e
    by (simp_all add: mark_indeterminate_def careful_def maybe_done_def)
  ultimately show ?thesis
    using journal_invD [OF inv] by (auto simp: journal_inv_def lookup)
qed

lemma journal_step_inv: "journal_step encode decode s s' \<Longrightarrow> journal_inv s \<Longrightarrow> journal_inv s'"
proof (induction rule: journal_step.induct)
  case (execute now new_id i s k j)
  then show ?case by (intro journal_inv_execute)
next
  case (refuse now new_id i s r j)
  from journal_invD(1) [OF refuse.prems] refuse.hyps(1) have "j = js_journal s"
    by (cases rule: journal_begin_cases) (use refuse.hyps(2) in auto)
  with refuse.prems show ?case by simp
next
  case (finish k s now policy outcome j)
  then show ?case by (intro journal_inv_finish)
next
  case (abandon s k)
  then show ?case by (auto simp: journal_inv_def dest: notin_set_remove1)
next
  case (restart s now)
  then show ?case by (rule journal_inv_restart)
qed

lemma journal_steps_inv: "journal_steps encode decode s s' \<Longrightarrow> journal_inv s \<Longrightarrow> journal_inv s'"
  by (induction rule: rtranclp_induct) (auto intro: journal_step_inv)

lemma succeeded_is_final:
  assumes "journal_step encode decode s s'" "journal_inv s"
    "bt_get (js_journal s) k = Some e" "er_status e = EffectSucceeded"
  shows "bt_get (js_journal s') k = Some e"
  using assms
proof (induction rule: journal_step.induct)
  case (execute now new_id i s k' j)
  from journal_invD(1) [OF execute.prems(1)] execute.hyps show ?case
  proof (cases rule: journal_begin_cases)
    case (execute k'' e'')
    with execute.prems show ?thesis by (auto simp: startable_def)
  qed simp
next
  case (refuse now new_id i s r j)
  from journal_invD(1) [OF refuse.prems(1)] refuse.hyps(1) have "j = js_journal s"
    by (cases rule: journal_begin_cases) (use refuse.hyps(2) in auto)
  with refuse.prems show ?case by simp
next
  case (finish k' s now policy outcome j)
  from journal_invD(3) [OF finish.prems(1) finish.hyps(1)] obtain e' where
    row: "bt_get (js_journal s) k' = Some e'" "er_status e' = EffectRunning" by blast
  from journal_finish_running [OF row finish.hyps(2)] row finish.prems show ?case
    by (auto simp: bt_get_insert)
next
  case (restart s now)
  then show ?case
    by (simp add: mark_running_effects_indeterminate_def bt_get_map_value mark_indeterminate_def)
qed simp

lemma succeeded_stays:
  assumes "journal_steps encode decode s s'" "journal_inv s"
    "bt_get (js_journal s) k = Some e" "er_status e = EffectSucceeded"
  shows "bt_get (js_journal s') k = Some e \<and> journal_inv s'"
  using assms(1)
proof (induction rule: rtranclp_induct)
  case base
  with assms show ?case by simp
next
  case (step y z)
  then show ?case using succeeded_is_final [OF step.hyps(2)] journal_step_inv [OF step.hyps(2)] assms(4) by blast
qed

section \<open>Properties\<close>

lemma effect_text_roundtrip:
  "effect_kind_from_str (effect_kind_str kind) = Some kind"
  "effect_status_from_str (effect_status_str status) = Some status"
  "side_effect_class_from_str (side_effect_class_str side_effect) = Some side_effect"
proof -
  show "effect_kind_from_str (effect_kind_str kind) = Some kind"
    by (cases kind) (simp_all add: effect_kind_from_str_def)
  show "effect_status_from_str (effect_status_str status) = Some status"
    by (cases status) (simp_all add: effect_status_from_str_def)
  show "side_effect_class_from_str (side_effect_class_str side_effect) = Some side_effect"
    by (cases side_effect) (simp_all add: side_effect_class_from_str_def)
qed

lemma count_list_distinct: "distinct xs \<Longrightarrow> count_list xs x \<le> 1"
  by (induction xs) (auto simp: count_notin)


definition example_intent :: effect_intent where
  "example_intent =
     \<lparr>ei_thread_id = ''t'', ei_turn_id = ''u'', ei_agent_path = ''/root'', ei_idempotency_key = ''k'',
      ei_kind = ToolCallEffect, ei_operation = ''send'', ei_input_hash = ''h'', ei_input = JNull,
      ei_side_effect_class = ExternalEffect, ei_idempotent = False\<rparr>"

definition example_result :: provider_tool_result where
  "example_result =
     \<lparr>pr_call_id = ''c'', pr_name = ''send'', pr_output = ''sent'', pr_content = [], pr_is_error = False,
      pr_metadata = JNull\<rparr>"

definition example_running :: journal_state where
  "example_running =
     initial_journal\<lparr>js_journal := [(''e'', running 0 (prepared_record 0 ''e'' example_intent))],
       js_inflight := [''e''], js_executions := (\<lambda>_. 0)(''e'' := 1)\<rparr>"

lemma example_running_reachable:
  "journal_steps (\<lambda>_. JNull) (\<lambda>_. Some example_result) initial_journal example_running"
proof -
  have "trim ''k'' \<noteq> []" "trim ''send'' \<noteq> []" "trim ''h'' \<noteq> []" by code_simp+
  then have "journal_begin (\<lambda>_. Some example_result) 0 ''e'' example_intent (js_journal initial_journal)
      = (ExecuteTool ''e'', [(''e'', running 0 (prepared_record 0 ''e'' example_intent))])"
    by (simp add: journal_begin_def prepare_effect_def validate_effect_intent_def example_intent_def
        res_ensure_def query_effect_by_idempotency_key_def initial_journal_def bt_contains_def
        prepared_record_def requires_reconciliation_def start_effect_def ok_or_def
        valid_effect_transition_def running_def Let_def)
  from journal_step.execute [OF this, of "\<lambda>_. JNull"] show ?thesis
    by (simp add: example_running_def initial_journal_def)
qed


text \<open>
  C36: A succeeded effect is replayed.  Once an effect has succeeded with a result, every later call with the
  same idempotency key, operation and input, after any number of other calls and restarts, gets this
  result, marked as a replay, and the journal stays as it is.  A call that reuses the key with another
  operation or input is refused.
\<close>
theorem succeeded_effect_is_replayed:
  assumes "journal_steps encode decode initial_journal s"
    and "bt_get (js_journal s) k = Some e"
    and "er_status e = EffectSucceeded" "er_result e = Some (encode r)" "decode (encode r) = Some r"
    and "journal_steps encode decode s s'"
    and "validate_effect_intent i = Inr ()"
    and "has_key (ei_thread_id i) (ei_turn_id i) (ei_agent_path i) (ei_idempotency_key i) e"
  shows "journal_begin decode now new_id i (js_journal s') =
    (if er_kind e = ei_kind i \<and> er_operation e = ei_operation i \<and> er_input_hash e = ei_input_hash i
     then Replayed (mark_replayed k r) else BeginFailed (IdempotencyConflict (ei_idempotency_key i)), js_journal s')"
proof -
  have "journal_inv s" by (rule journal_steps_inv [OF assms(1) journal_inv_init])
  from succeeded_stays [OF assms(6) this assms(2,3)]
  have row: "bt_get (js_journal s') k = Some e" and inv: "journal_inv s'" by blast+
  from query_key_unique [OF journal_invD(1) [OF inv] row assms(8)]
  have "query_effect_by_idempotency_key (ei_thread_id i) (ei_turn_id i) (ei_agent_path i)
      (ei_idempotency_key i) (js_journal s') = Some e" .
  moreover have "er_effect_id e = k" using journal_okD(2) [OF journal_invD(1) [OF inv] row] .
  ultimately show ?thesis
    using assms(3,4,5,7) by (simp add: journal_begin_def prepare_effect_def ok_or_def)
qed

definition example_succeeded :: journal_state where
  "example_succeeded =
     initial_journal\<lparr>js_journal :=
         [(''e'', (running 0 (prepared_record 0 ''e'' example_intent))
             \<lparr>er_status := EffectSucceeded, er_result := Some JNull, er_error := None,
              er_completed_at := Some 1, er_updated_at := 1\<rparr>)],
       js_inflight := [], js_executions := (\<lambda>_. 0)(''e'' := 1)\<rparr>"

lemma example_succeeded_reachable:
  "journal_steps (\<lambda>_. JNull) (\<lambda>_. Some example_result) initial_journal example_succeeded"
proof -
  let ?policy = "\<lparr>tp_read_only = False, tp_idempotent = False, tp_parallel_safe = False,
      tp_side_effect = ToolExternal, tp_resource_keys = []\<rparr>"
  have finish: "journal_finish (\<lambda>_. JNull) 1 ''e'' ?policy (ToolCompleted example_result) (js_journal example_running)
      = Inr (js_journal example_succeeded)"
    by (simp add: journal_finish_def example_result_def finish_effect_def res_ensure_def ok_or_def
        example_running_def example_succeeded_def running_def valid_effect_transition_def
        effect_is_terminal_def Let_def)
  have "''e'' \<in> set (js_inflight example_running)" by (simp add: example_running_def)
  from journal_step.finish [OF this finish, of "\<lambda>_. Some example_result"]
  have "journal_step (\<lambda>_. JNull) (\<lambda>_. Some example_result) example_running example_succeeded"
    by (simp add: example_running_def example_succeeded_def example_result_def count_finish_def)
  with example_running_reachable show ?thesis by (rule rtranclp.rtrancl_into_rtrancl)
qed

theorem succeeded_effect_is_replayed_witness:
  "fst (journal_begin (\<lambda>_. Some example_result) 2 ''f'' example_intent (js_journal example_succeeded))
     = Replayed (mark_replayed ''e'' example_result)"
proof -
  have "trim ''k'' \<noteq> []" "trim ''send'' \<noteq> []" "trim ''h'' \<noteq> []" by code_simp+
  then have valid: "validate_effect_intent example_intent = Inr ()"
    by (simp add: validate_effect_intent_def example_intent_def res_ensure_def)
  let ?e = "(running 0 (prepared_record 0 ''e'' example_intent))
      \<lparr>er_status := EffectSucceeded, er_result := Some JNull, er_error := None,
       er_completed_at := Some 1, er_updated_at := 1\<rparr>"
  have row: "bt_get (js_journal example_succeeded) ''e'' = Some ?e" by (simp add: example_succeeded_def)
  have e: "er_status ?e = EffectSucceeded" "er_result ?e = Some ((\<lambda>_. JNull) example_result)"
    "intent_key example_intent ?e" by (simp_all add: running_def prepared_record_def has_key_def)
  from succeeded_effect_is_replayed [OF example_succeeded_reachable row e(1,2) refl rtranclp.rtrancl_refl valid e(3),
      of 2 "''f''"] show ?thesis
    by (simp add: running_def prepared_record_def)
qed

end
