(* ===== verification/Agent_Path.thy ===== *)
theory Agent_Path
  imports Flow_Graph "HOL-Library.Sublist"
begin

text \<open>
  The canonical paths of the agents of a session (\<open>AgentPath\<close> of \<open>collaboration/domain.rs\<close>).  The code keeps a
  path as a text and works on the text; \<open>path_of\<close> is the abstract view, the list of task names below the
  root.  Every operation on the text is shown to be the one on the list.
\<close>

section \<open>Paths\<close>

type_synonym agent_path = string

datatype path_error = InvalidTaskName string | InvalidAgentPath string

definition root_agent_path :: agent_path where
  "root_agent_path = ''/root''"

definition max_agent_task_name_chars :: nat where
  "max_agent_task_name_chars = 64"

definition task_name_char :: "char \<Rightarrow> bool" where
  "task_name_char c \<longleftrightarrow> (97 \<le> byte c \<and> byte c \<le> 122) \<or> is_ascii_digit c \<or> c = CHR ''_''"

definition valid_task_name :: "string \<Rightarrow> bool" where
  "valid_task_name v \<longleftrightarrow> v \<noteq> [] \<and> char_count v \<le> max_agent_task_name_chars \<and> list_all task_name_char v"

definition validate_task_name :: "string \<Rightarrow> path_error + unit" where
  "validate_task_name v = (if valid_task_name v then Inr () else Inl (InvalidTaskName v))"

definition parse_path :: "string \<Rightarrow> path_error + agent_path" where
  "parse_path v =
     (if v = root_agent_path then Inr root_agent_path
      else
        case strip_prefix v ''/root/'' of
          None \<Rightarrow> Inl (InvalidAgentPath v)
        | Some rest \<Rightarrow>
            if rest = [] \<or> list_ex (\<lambda>segment. \<not> valid_task_name segment) (split_char (CHR ''/'') rest)
            then Inl (InvalidAgentPath v)
            else Inr v)"

definition child_path :: "agent_path \<Rightarrow> string \<Rightarrow> path_error + agent_path" where
  "child_path p task_name = res_bind (validate_task_name task_name) (\<lambda>_. parse_path (p @ ''/'' @ task_name))"

definition parent_path :: "agent_path \<Rightarrow> agent_path option" where
  "parent_path p = (if p = root_agent_path then None else map_option fst (rsplit_once_char p (CHR ''/'')))"

definition path_depth :: "agent_path \<Rightarrow> nat" where
  \<comment> \<open>\<open>count() as u16 - 1\<close>, on 16 bits\<close>
  "path_depth p = (length (filter (\<lambda>segment. segment \<noteq> []) (split_char (CHR ''/'') p)) + 65535) mod 65536"

definition is_descendant_of :: "agent_path \<Rightarrow> agent_path \<Rightarrow> bool" where
  "is_descendant_of p ancestor \<longleftrightarrow>
     p \<noteq> ancestor \<and> (case strip_prefix p ancestor of Some rest \<Rightarrow> starts_with rest ''/'' | None \<Rightarrow> False)"

section \<open>The list of task names\<close>

definition slashed :: "string list \<Rightarrow> string" where
  "slashed names = concat (map (\<lambda>n. CHR ''/'' # n) names)"

definition path_of :: "string list \<Rightarrow> agent_path" where
  "path_of names = root_agent_path @ slashed names"

definition task_names :: "string list \<Rightarrow> bool" where
  "task_names names \<longleftrightarrow> list_all valid_task_name names"

definition is_path :: "agent_path \<Rightarrow> bool" where
  "is_path p \<longleftrightarrow> parse_path p = Inr p"

lemma slashed_simps [simp]:
  "slashed [] = []" "slashed (n # ns) = CHR ''/'' # n @ slashed ns" "slashed (ms @ ns) = slashed ms @ slashed ns"
  by (simp_all add: slashed_def)

lemma valid_task_name_no_slash: "valid_task_name n \<Longrightarrow> CHR ''/'' \<notin> set n"
  by (auto simp: valid_task_name_def list_all_iff task_name_char_def is_ascii_digit_def)

lemma valid_task_name_nonempty: "valid_task_name n \<Longrightarrow> n \<noteq> []"
  by (simp add: valid_task_name_def)

lemma split_char_plain: "c \<notin> set s \<Longrightarrow> split_char c s = [s]"
  by (induction s) (auto simp: split_char_def)

lemma split_char_append: "c \<notin> set s \<Longrightarrow> split_char c (s @ c # t) = s # split_char c t"
  by (induction s) (auto simp: split_char_def)

lemma split_char_no_sep: "n \<in> set (split_char c s) \<Longrightarrow> c \<notin> set n"
proof (induction s arbitrary: n)
  case (Cons x s)
  then show ?case
    using split_by_nonempty [of "\<lambda>x. x = c" s]
    by (cases "split_by (\<lambda>x. x = c) s") (auto simp: split_char_def split: if_splits)
qed (simp add: split_char_def)

lemma slashed_split: "CHR ''/'' # s = slashed (split_char (CHR ''/'') s)"
proof (induction s)
  case (Cons x s)
  then show ?case
    using split_by_nonempty [of "\<lambda>x. x = CHR ''/''" s]
    by (cases "split_by (\<lambda>x. x = CHR ''/'') s") (auto simp: split_char_def)
qed (simp add: split_char_def)

lemma split_slashed_plain:
  "\<forall>n \<in> set ns. CHR ''/'' \<notin> set n \<Longrightarrow> CHR ''/'' \<notin> set m \<Longrightarrow> split_char (CHR ''/'') (m @ slashed ns) = m # ns"
  by (induction ns arbitrary: m) (simp_all add: split_char_plain split_char_append)

lemma split_slashed:
  "CHR ''/'' \<notin> set m \<Longrightarrow> task_names ns \<Longrightarrow> split_char (CHR ''/'') (m @ slashed ns) = m # ns"
  by (rule split_slashed_plain) (auto simp: task_names_def list_all_iff dest: valid_task_name_no_slash)

text \<open>The texts that parse are the paths of lists of valid names, and the list is determined by the text.\<close>

lemma is_path_iff: "is_path p \<longleftrightarrow> (\<exists>names. task_names names \<and> p = path_of names)"
proof
  assume p: "is_path p"
  show "\<exists>names. task_names names \<and> p = path_of names"
  proof (cases "p = root_agent_path")
    case True
    then show ?thesis by (intro exI [of _ "[]"]) (simp add: path_of_def task_names_def)
  next
    case False
    with p obtain s where s: "strip_prefix p ''/root/'' = Some s" "list_all valid_task_name (split_char (CHR ''/'') s)"
      by (auto simp: is_path_def parse_path_def list_all_iff list_ex_iff split: option.splits if_splits)
    then have "p = root_agent_path @ CHR ''/'' # s" by (simp add: strip_prefix_Some_iff root_agent_path_def)
    then have "p = path_of (split_char (CHR ''/'') s)" by (simp add: path_of_def slashed_split)
    with s(2) show ?thesis by (auto simp: task_names_def)
  qed
next
  assume "\<exists>names. task_names names \<and> p = path_of names"
  then obtain names where names: "task_names names" "p = path_of names" by blast
  show "is_path p"
  proof (cases names)
    case Nil
    with names show ?thesis by (simp add: is_path_def parse_path_def path_of_def)
  next
    case (Cons n ns)
    then have n: "valid_task_name n" "task_names ns" using names(1) by (simp_all add: task_names_def)
    have p: "p = ''/root/'' @ (n @ slashed ns)" using names(2) Cons by (simp add: path_of_def root_agent_path_def)
    then have "strip_prefix p ''/root/'' = Some (n @ slashed ns)" by (simp add: strip_prefix_Some_iff)
    moreover have "list_all valid_task_name (split_char (CHR ''/'') (n @ slashed ns))"
      using split_slashed [OF valid_task_name_no_slash [OF n(1)] n(2)] n by (simp add: task_names_def)
    ultimately show ?thesis
      using p valid_task_name_nonempty [OF n(1)]
      by (auto simp: is_path_def parse_path_def list_all_iff list_ex_iff root_agent_path_def)
  qed
qed

lemma slashed_inj: "task_names ms \<Longrightarrow> task_names ns \<Longrightarrow> slashed ms = slashed ns \<Longrightarrow> ms = ns"
  using split_slashed [of "[]" ms] split_slashed [of "[]" ns] by simp

lemma path_of_inj: "task_names ms \<Longrightarrow> task_names ns \<Longrightarrow> path_of ms = path_of ns \<Longrightarrow> ms = ns"
  by (auto simp: path_of_def dest: slashed_inj)

lemma child_path_of:
  "task_names ns \<Longrightarrow> child_path (path_of ns) n =
     (if valid_task_name n then Inr (path_of (ns @ [n])) else Inl (InvalidTaskName n))"
proof (cases "valid_task_name n")
  case True
  assume "task_names ns"
  with True have "is_path (path_of (ns @ [n]))" unfolding is_path_iff by (intro exI [of _ "ns @ [n]"]) (simp add: task_names_def)
  moreover have "path_of ns @ ''/'' @ n = path_of (ns @ [n])" by (simp add: path_of_def)
  ultimately show ?thesis using True by (simp add: child_path_def validate_task_name_def is_path_def)
qed (simp add: child_path_def validate_task_name_def)

lemma position_append: "\<forall>x \<in> set xs. \<not> p x \<Longrightarrow> p y \<Longrightarrow> position p (xs @ y # ys) = Some (length xs)"
  by (induction xs) auto

lemma parent_path_of:
  "task_names ns \<Longrightarrow> parent_path (path_of ns) = (if ns = [] then None else Some (path_of (butlast ns)))"
proof (cases ns rule: rev_cases)
  case Nil
  then show ?thesis by (simp add: parent_path_def path_of_def)
next
  case (snoc ms n)
  assume "task_names ns"
  then have n: "CHR ''/'' \<notin> set n" using snoc by (simp add: task_names_def valid_task_name_no_slash)
  let ?p = "path_of ms"
  have p: "path_of ns = ?p @ CHR ''/'' # n" by (simp add: snoc path_of_def)
  have "position (\<lambda>x. x = CHR ''/'') (rev n @ CHR ''/'' # rev ?p) = Some (length n)"
    using n position_append [of "rev n" "\<lambda>x. x = CHR ''/''"] by auto
  then have "rsplit_once_char (path_of ns) (CHR ''/'') = Some (?p, n)"
    by (simp add: p rsplit_once_char_def rposition_def)
  moreover have "path_of ns \<noteq> root_agent_path" by (simp add: path_of_def snoc)
  ultimately show ?thesis by (simp add: parent_path_def snoc)
qed

lemma path_depth_of: "task_names ns \<Longrightarrow> path_depth (path_of ns) = length ns mod 65536"
proof -
  assume ns: "task_names ns"
  have "split_char (CHR ''/'') (path_of ns) = [] # ''root'' # ns"
    using split_slashed [of "''root''" ns] ns split_char_append [of "CHR ''/''" "[]" "''root'' @ slashed ns"]
    by (simp add: path_of_def root_agent_path_def)
  moreover have "filter (\<lambda>s. s \<noteq> []) ns = ns"
    using ns by (intro filter_True) (auto simp: task_names_def list_all_iff valid_task_name_nonempty)
  ultimately show ?thesis by (simp add: path_depth_def)
qed

lemma slashed_strict_prefix:
  assumes "task_names ms" "task_names ns"
  shows "(\<exists>t. slashed ms = slashed ns @ CHR ''/'' # t) \<longleftrightarrow> strict_prefix ns ms"
proof
  assume "\<exists>t. slashed ms = slashed ns @ CHR ''/'' # t"
  then obtain t where t: "slashed ms = slashed (ns @ split_char (CHR ''/'') t)"
    by (auto simp: slashed_split)
  have "split_char (CHR ''/'') (slashed ms) = [] # ms" using split_slashed [of "[]" ms] assms(1) by simp
  moreover have "split_char (CHR ''/'') (slashed (ns @ split_char (CHR ''/'') t)) = [] # ns @ split_char (CHR ''/'') t"
  proof -
    have "\<forall>n \<in> set (ns @ split_char (CHR ''/'') t). CHR ''/'' \<notin> set n"
      using assms(2) by (auto simp: task_names_def list_all_iff dest: valid_task_name_no_slash split_char_no_sep)
    from split_slashed_plain [OF this, of "[]"] show ?thesis by simp
  qed
  ultimately have "ms = ns @ split_char (CHR ''/'') t" using t by simp
  then show "strict_prefix ns ms"
    using split_by_nonempty [of "\<lambda>x. x = CHR ''/''" t] by (auto simp: strict_prefix_def prefix_def split_char_def)
next
  assume "strict_prefix ns ms"
  then obtain ks where "ms = ns @ ks" "ks \<noteq> []" by (auto simp: strict_prefix_def prefix_def)
  then show "\<exists>t. slashed ms = slashed ns @ CHR ''/'' # t" by (cases ks) auto
qed

lemma is_descendant_of_path_of:
  assumes "task_names ms" "task_names ns"
  shows "is_descendant_of (path_of ms) (path_of ns) \<longleftrightarrow> strict_prefix ns ms"
proof -
  have "is_descendant_of (path_of ms) (path_of ns) \<longleftrightarrow> (\<exists>t. slashed ms = slashed ns @ CHR ''/'' # t)"
    by (auto simp: is_descendant_of_def path_of_def strip_prefix_def starts_with_iff)
  then show ?thesis using slashed_strict_prefix [OF assms] by simp
qed

lemma parse_path_Inr: "parse_path v = Inr p \<longleftrightarrow> v = p \<and> is_path p"
  by (auto simp: is_path_def parse_path_def split: option.splits if_splits)

lemma is_path_path_of: "task_names ns \<Longrightarrow> is_path (path_of ns)"
  by (auto simp: is_path_iff)

section \<open>Properties\<close>

text \<open>
  C28: The text of an agent path implements the list of task names below the root.  Exactly the texts of lists of
  valid names parse, the text determines the list, and on the texts of two lists the child, the parent, the
  depth and the test for a descendant are appending a name, dropping the last one, the length (as a 16-bit
  number) and being a proper extension.
\<close>
theorem agent_paths_refine_names:
  assumes "task_names ns" and "task_names ms"
  shows "(parse_path v = Inr p \<longleftrightarrow> v = p \<and> (\<exists>ks. task_names ks \<and> p = path_of ks))
    \<and> (path_of ms = path_of ns \<longleftrightarrow> ms = ns)
    \<and> child_path (path_of ns) n = (if valid_task_name n then Inr (path_of (ns @ [n])) else Inl (InvalidTaskName n))
    \<and> parent_path (path_of ns) = (if ns = [] then None else Some (path_of (butlast ns)))
    \<and> path_depth (path_of ns) = length ns mod 2 ^ 16
    \<and> (is_descendant_of (path_of ms) (path_of ns) \<longleftrightarrow> strict_prefix ns ms)"
  using assms path_of_inj [of ms ns]
  by (auto simp: parse_path_Inr is_path_iff child_path_of parent_path_of path_depth_of is_descendant_of_path_of)

theorem agent_paths_refine_names_witness:
  "task_names [''research''] \<and> child_path ''/root/research'' ''reviewer_2'' = Inr ''/root/research/reviewer_2''
    \<and> is_descendant_of ''/root/research/reviewer_2'' ''/root/research''
    \<and> path_depth ''/root/research'' = 1"
proof -
  have names: "task_names [''research'']" "task_names [''research'', ''reviewer_2'']" "valid_task_name ''reviewer_2''"
    by code_simp+
  have "path_of [''research''] = ''/root/research''" "path_of [''research'', ''reviewer_2''] = ''/root/research/reviewer_2''"
    by (simp_all add: path_of_def root_agent_path_def)
  with agent_paths_refine_names [OF names(1,2), of _ _ "''reviewer_2''"] names
  show ?thesis by (simp add: strict_prefix_def)
qed

end
