(* ===== verification/Collaboration.thy ===== *)
theory Collaboration
  imports Agent_Path
begin

text \<open>
  Sessions of collaborating agents: policies, agent threads and their turns (\<open>collaboration/domain.rs\<close>), and the
  registry of agents in memory (\<open>collaboration/registry.rs\<close>).  The registry over SQLite is in the next theory.
\<close>

section \<open>Policies, threads and turns\<close>

record session_policy =
  sp_max_agents :: nat
  sp_max_active_runs :: nat
  sp_max_depth :: nat

record spawn_policy =
  wp_allow_child_spawns :: bool
  wp_max_depth :: nat
  wp_max_direct_children :: nat

datatype turn_status =
    TurnQueued | TurnRunning | TurnWaitingApproval | TurnWaitingInput | TurnWaitingAction
  | TurnCompleted | TurnFailed | TurnCancelled | TurnInterrupted

datatype collab_error =
    PathError path_error
  | InvalidSessionPolicy string
  | EmptyAgentType
  | EmptyTaskMessage
  | InvalidRuntimeSnapshot string
  | SessionNotFound uuid
  | AgentThreadNotFound uuid
  | AgentTurnNotFound uuid
  | DuplicateAgentPath agent_path
  | AgentThreadArchived uuid
  | AgentTurnAlreadyActive uuid
  | SpawnDisabled agent_path
  | MaximumDepth nat nat
  | MaximumDirectChildren agent_path nat
  | MaximumAgents nat
  | SpawnPolicyEscalation
  | RequestingTurnOwnership uuid uuid
  | LifecyclePermissionDenied agent_path agent_path
  | InvalidTurnTransition turn_status turn_status
  | CollabPersistence string

definition default_session_policy :: session_policy where
  "default_session_policy = \<lparr>sp_max_agents = 16, sp_max_active_runs = 6, sp_max_depth = 1\<rparr>"

definition validate_session_policy :: "session_policy \<Rightarrow> collab_error + unit" where
  "validate_session_policy p =
     (if sp_max_agents p = 0 then Inl (InvalidSessionPolicy ''max_agents must be greater than zero'')
      else if sp_max_active_runs p = 0 then Inl (InvalidSessionPolicy ''max_active_runs must be greater than zero'')
      else Inr ())"

definition spawn_disabled :: "nat \<Rightarrow> spawn_policy" where
  "spawn_disabled max_depth = \<lparr>wp_allow_child_spawns = False, wp_max_depth = max_depth, wp_max_direct_children = 0\<rparr>"

definition allows_children :: "nat \<Rightarrow> nat \<Rightarrow> spawn_policy" where
  "allows_children max_depth max_direct_children =
     \<lparr>wp_allow_child_spawns = True, wp_max_depth = max_depth, wp_max_direct_children = max_direct_children\<rparr>"

definition spawn_attenuates :: "spawn_policy \<Rightarrow> spawn_policy \<Rightarrow> bool" where
  \<comment> \<open>\<open>is_attenuation_of\<close>\<close>
  "spawn_attenuates child parent \<longleftrightarrow>
     (\<not> wp_allow_child_spawns child \<or> wp_allow_child_spawns parent)
     \<and> wp_max_depth child \<le> wp_max_depth parent
     \<and> wp_max_direct_children child \<le> wp_max_direct_children parent"

fun turn_status_str :: "turn_status \<Rightarrow> string" where
  "turn_status_str TurnQueued = ''queued''"
| "turn_status_str TurnRunning = ''running''"
| "turn_status_str TurnWaitingApproval = ''waiting_approval''"
| "turn_status_str TurnWaitingInput = ''waiting_input''"
| "turn_status_str TurnWaitingAction = ''waiting_action''"
| "turn_status_str TurnCompleted = ''completed''"
| "turn_status_str TurnFailed = ''failed''"
| "turn_status_str TurnCancelled = ''cancelled''"
| "turn_status_str TurnInterrupted = ''interrupted''"

definition parse_turn_status :: "string \<Rightarrow> collab_error + turn_status" where
  "parse_turn_status v =
     (if v = ''queued'' then Inr TurnQueued
      else if v = ''running'' then Inr TurnRunning
      else if v = ''waiting_approval'' then Inr TurnWaitingApproval
      else if v = ''waiting_input'' then Inr TurnWaitingInput
      else if v = ''waiting_action'' then Inr TurnWaitingAction
      else if v = ''completed'' then Inr TurnCompleted
      else if v = ''failed'' then Inr TurnFailed
      else if v = ''cancelled'' then Inr TurnCancelled
      else if v = ''interrupted'' then Inr TurnInterrupted
      else Inl (CollabPersistence (''unknown agent turn status `'' @ v @ ''`'')))"

definition turn_is_terminal :: "turn_status \<Rightarrow> bool" where
  "turn_is_terminal t \<longleftrightarrow> t \<in> {TurnCompleted, TurnFailed, TurnCancelled, TurnInterrupted}"

definition needs_attention :: "turn_status \<Rightarrow> bool" where
  "needs_attention t \<longleftrightarrow> t \<in> {TurnWaitingApproval, TurnWaitingInput, TurnWaitingAction}"

definition can_transition_to :: "turn_status \<Rightarrow> turn_status \<Rightarrow> bool" where
  "can_transition_to from next \<longleftrightarrow>
     (from = TurnQueued \<and> next \<in> {TurnRunning, TurnCancelled, TurnInterrupted})
     \<or> (from = TurnRunning \<and> next \<in> {TurnWaitingApproval, TurnWaitingInput, TurnWaitingAction})
     \<or> (from = TurnRunning \<and> next \<in> {TurnCompleted, TurnFailed, TurnCancelled, TurnInterrupted})
     \<or> (from \<in> {TurnWaitingApproval, TurnWaitingInput, TurnWaitingAction}
        \<and> next \<in> {TurnRunning, TurnCancelled, TurnInterrupted})"

record collab_session =
  se_id :: uuid
  se_user_task_id :: uuid
  se_policy :: session_policy
  se_created_at :: timestamp
  se_closed_at :: "timestamp option"

record agent_thread =
  th_id :: uuid
  th_session_id :: uuid
  th_parent :: "uuid option"
  th_path :: agent_path
  th_task_name :: string
  th_agent_type :: string
  th_runtime_snapshot_id :: uuid
  th_spawn_policy :: spawn_policy
  th_created_at :: timestamp
  th_archived_at :: "timestamp option"

definition thread_is_archived :: "agent_thread \<Rightarrow> bool" where
  "thread_is_archived t \<longleftrightarrow> th_archived_at t \<noteq> None"

record agent_turn =
  tu_id :: uuid
  tu_session_id :: uuid
  tu_agent_thread_id :: uuid
  tu_requested_by_thread :: "uuid option"
  tu_requested_by_turn :: "uuid option"
  tu_sequence :: nat
  tu_task_message :: string
  tu_status :: turn_status
  tu_invocation_id :: nat
  tu_outcome_ref :: "uuid option"
  tu_created_at :: timestamp
  tu_started_at :: "timestamp option"
  tu_completed_at :: "timestamp option"

definition turn_transition :: "turn_status \<Rightarrow> timestamp \<Rightarrow> agent_turn \<Rightarrow> collab_error + agent_turn" where
  "turn_transition next now t =
     (if tu_status t = next then Inr t
      else if \<not> can_transition_to (tu_status t) next then Inl (InvalidTurnTransition (tu_status t) next)
      else
        (let t1 = (if tu_status t = TurnQueued \<and> next = TurnRunning
                   then t\<lparr>tu_started_at := Some (case tu_started_at t of Some x \<Rightarrow> x | None \<Rightarrow> now)\<rparr> else t);
             t2 = (if turn_is_terminal next then t1\<lparr>tu_completed_at := Some now\<rparr> else t1)
         in Inr (t2\<lparr>tu_status := next\<rparr>)))"

datatype availability = AgentIdle | AgentQueued | AgentRunning | AgentNeedsAttention | AgentArchived

definition derive_availability :: "agent_thread \<Rightarrow> agent_turn option \<Rightarrow> availability" where
  "derive_availability t latest =
     (if thread_is_archived t then AgentArchived
      else
        case map_option tu_status latest of
          None \<Rightarrow> AgentIdle
        | Some TurnQueued \<Rightarrow> AgentQueued
        | Some TurnRunning \<Rightarrow> AgentRunning
        | Some status \<Rightarrow> if needs_attention status then AgentNeedsAttention else AgentIdle)"

record snapshot_seed =
  sd_id :: uuid
  sd_parent_snapshot_id :: "uuid option"
  sd_content_hash :: string
  sd_snapshot :: json

record runtime_snapshot_record =
  sr_id :: uuid
  sr_session_id :: uuid
  sr_parent_snapshot_id :: "uuid option"
  sr_content_hash :: string
  sr_snapshot :: json
  sr_created_at :: timestamp

text \<open>
  What an operation takes from outside: the clock, fresh identifiers, the hash of a snapshot (SHA-256 of its
  serialisation) and the decoder of snapshots.
\<close>

record collab_env =
  cv_now :: timestamp
  cv_session_id :: uuid
  cv_thread_id :: uuid
  cv_turn_id :: uuid
  cv_hash :: "json \<Rightarrow> string"
  cv_decode :: "json \<Rightarrow> string option" \<comment> \<open>the message of a refusal\<close>
  cv_user_task :: "uuid \<Rightarrow> bool" \<comment> \<open>the conversations a session may refer to\<close>

definition new_seed :: "collab_env \<Rightarrow> uuid \<Rightarrow> uuid option \<Rightarrow> json \<Rightarrow> snapshot_seed" where
  "new_seed cv i parent snapshot =
     \<lparr>sd_id = i, sd_parent_snapshot_id = parent, sd_content_hash = cv_hash cv snapshot, sd_snapshot = snapshot\<rparr>"

definition validate_seed :: "collab_env \<Rightarrow> snapshot_seed \<Rightarrow> collab_error + unit" where
  "validate_seed cv seed =
     res_ensure (cv_hash cv (sd_snapshot seed) = sd_content_hash seed)
       (InvalidRuntimeSnapshot ''content hash does not match snapshot payload'')
       (case cv_decode cv (sd_snapshot seed) of
          Some message \<Rightarrow> Inl (InvalidRuntimeSnapshot message)
        | None \<Rightarrow> Inr ())"

section \<open>Requests\<close>

record create_session_request =
  cq_user_task_id :: uuid
  cq_root_turn_id :: uuid
  cq_root_task_message :: string
  cq_root_agent_type :: string
  cq_root_runtime_snapshot :: snapshot_seed
  cq_session_policy :: session_policy
  cq_root_spawn_policy :: spawn_policy

record spawn_request =
  wq_parent :: uuid
  wq_requested_by_turn :: uuid
  wq_task_name :: string
  wq_agent_type :: string
  wq_task_message :: string
  wq_runtime_snapshot :: snapshot_seed
  wq_spawn_policy :: spawn_policy

record followup_request =
  fq_requested_by_thread :: uuid
  fq_requested_by_turn :: uuid
  fq_target :: uuid
  fq_task_message :: string

definition require_text :: "string \<Rightarrow> collab_error \<Rightarrow> collab_error + string" where
  "require_text v empty_error = (if trim v = [] then Inl empty_error else Inr (trim v))"

text \<open>The records the operations of both registries create.\<close>

definition session_record :: "collab_env \<Rightarrow> create_session_request \<Rightarrow> collab_session" where
  "session_record cv q =
     \<lparr>se_id = cv_session_id cv, se_user_task_id = cq_user_task_id q, se_policy = cq_session_policy q,
      se_created_at = cv_now cv, se_closed_at = None\<rparr>"

definition snapshot_record :: "collab_env \<Rightarrow> uuid \<Rightarrow> uuid option \<Rightarrow> snapshot_seed \<Rightarrow> runtime_snapshot_record" where
  "snapshot_record cv session_id parent seed =
     \<lparr>sr_id = sd_id seed, sr_session_id = session_id, sr_parent_snapshot_id = parent,
      sr_content_hash = sd_content_hash seed, sr_snapshot = sd_snapshot seed, sr_created_at = cv_now cv\<rparr>"

definition root_thread :: "collab_env \<Rightarrow> create_session_request \<Rightarrow> agent_thread" where
  "root_thread cv q =
     \<lparr>th_id = cv_thread_id cv, th_session_id = cv_session_id cv, th_parent = None, th_path = root_agent_path,
      th_task_name = ''root'', th_agent_type = trim (cq_root_agent_type q),
      th_runtime_snapshot_id = sd_id (cq_root_runtime_snapshot q), th_spawn_policy = cq_root_spawn_policy q,
      th_created_at = cv_now cv, th_archived_at = None\<rparr>"

definition child_thread :: "collab_env \<Rightarrow> spawn_request \<Rightarrow> agent_thread \<Rightarrow> agent_path \<Rightarrow> agent_thread" where
  "child_thread cv q parent p =
     \<lparr>th_id = cv_thread_id cv, th_session_id = th_session_id parent, th_parent = Some (th_id parent), th_path = p,
      th_task_name = trim (wq_task_name q), th_agent_type = trim (wq_agent_type q),
      th_runtime_snapshot_id = sd_id (wq_runtime_snapshot q), th_spawn_policy = wq_spawn_policy q,
      th_created_at = cv_now cv, th_archived_at = None\<rparr>"

definition queued_turn ::
    "timestamp \<Rightarrow> uuid \<Rightarrow> uuid \<Rightarrow> uuid \<Rightarrow> (uuid \<times> uuid) option \<Rightarrow> nat \<Rightarrow> string \<Rightarrow> agent_turn" where
  \<comment> \<open>a new turn of a thread, with the thread and turn that requested it\<close>
  "queued_turn now i session_id thread_id requested_by sequence message =
     \<lparr>tu_id = i, tu_session_id = session_id, tu_agent_thread_id = thread_id,
      tu_requested_by_thread = map_option fst requested_by, tu_requested_by_turn = map_option snd requested_by,
      tu_sequence = sequence, tu_task_message = message, tu_status = TurnQueued, tu_invocation_id = 1,
      tu_outcome_ref = None, tu_created_at = now, tu_started_at = None, tu_completed_at = None\<rparr>"

section \<open>The registry in memory\<close>

record registry =
  rg_sessions :: "(uuid, collab_session) btree"
  rg_threads :: "(uuid, agent_thread) btree"
  rg_turns :: "(uuid, agent_turn) btree"
  rg_snapshots :: "(uuid, runtime_snapshot_record) btree"
  rg_paths :: "uuid \<times> agent_path \<rightharpoonup> uuid"
  rg_turns_by_thread :: "uuid \<rightharpoonup> uuid list"

definition latest_turn_locked :: "registry \<Rightarrow> uuid \<Rightarrow> agent_turn option" where
  "latest_turn_locked rg thread_id =
     (case rg_turns_by_thread rg thread_id of
        None \<Rightarrow> None
      | Some ids \<Rightarrow> if ids = [] then None else bt_get (rg_turns rg) (last ids))"

definition ensure_requesting_turn :: "registry \<Rightarrow> uuid \<Rightarrow> uuid \<Rightarrow> collab_error + unit" where
  "ensure_requesting_turn rg thread_id turn_id =
     res_bind (ok_or (bt_get (rg_turns rg) turn_id) (AgentTurnNotFound turn_id)) (\<lambda>turn.
     res_ensure (tu_agent_thread_id turn = thread_id) (RequestingTurnOwnership turn_id thread_id) (Inr ()))"

definition mem_create_session ::
    "collab_env \<Rightarrow> create_session_request \<Rightarrow> registry
      \<Rightarrow> collab_error + (collab_session \<times> agent_thread \<times> agent_turn) \<times> registry" where
  "mem_create_session cv q rg =
     res_bind (validate_session_policy (cq_session_policy q)) (\<lambda>_.
     res_bind (validate_seed cv (cq_root_runtime_snapshot q)) (\<lambda>_.
     res_ensure (sd_parent_snapshot_id (cq_root_runtime_snapshot q) = None)
       (InvalidRuntimeSnapshot ''root runtime snapshot cannot have a parent'')
    (res_bind (require_text (cq_root_task_message q) EmptyTaskMessage) (\<lambda>message.
     res_bind (require_text (cq_root_agent_type q) EmptyAgentType) (\<lambda>agent_type.
     res_ensure (\<not> sp_max_depth (cq_session_policy q) < wp_max_depth (cq_root_spawn_policy q))
       (MaximumDepth (wp_max_depth (cq_root_spawn_policy q)) (sp_max_depth (cq_session_policy q)))
    (let session = session_record cv q; root = root_thread cv q;
         turn = queued_turn (cv_now cv) (cq_root_turn_id q) (cv_session_id cv) (cv_thread_id cv) None 1 message;
         snapshot = snapshot_record cv (cv_session_id cv) None (cq_root_runtime_snapshot q)
     in Inr ((session, root, turn),
          rg\<lparr>rg_sessions := bt_insert (se_id session) session (rg_sessions rg),
             rg_snapshots := bt_insert (sr_id snapshot) snapshot (rg_snapshots rg),
             rg_paths := (rg_paths rg)((se_id session, th_path root) \<mapsto> th_id root),
             rg_threads := bt_insert (th_id root) root (rg_threads rg),
             rg_turns := bt_insert (tu_id turn) turn (rg_turns rg),
             rg_turns_by_thread := (rg_turns_by_thread rg)(th_id root \<mapsto> [tu_id turn])\<rparr>)))))))"

definition count_values :: "('v \<Rightarrow> bool) \<Rightarrow> (uuid, 'v) btree \<Rightarrow> nat" where
  "count_values p m = length (filter p (map snd m))"

definition mem_spawn_agent ::
    "collab_env \<Rightarrow> spawn_request \<Rightarrow> registry \<Rightarrow> collab_error + (agent_thread \<times> agent_turn) \<times> registry" where
  "mem_spawn_agent cv q rg =
     res_bind (map_err PathError (validate_task_name (trim (wq_task_name q)))) (\<lambda>_.
     res_bind (require_text (wq_agent_type q) EmptyAgentType) (\<lambda>agent_type.
     res_bind (require_text (wq_task_message q) EmptyTaskMessage) (\<lambda>message.
     res_bind (validate_seed cv (wq_runtime_snapshot q)) (\<lambda>_.
     res_bind (ok_or (bt_get (rg_threads rg) (wq_parent q)) (AgentThreadNotFound (wq_parent q))) (\<lambda>parent.
     res_ensure (\<not> thread_is_archived parent) (AgentThreadArchived (th_id parent))
    (res_bind (ensure_requesting_turn rg (th_id parent) (wq_requested_by_turn q)) (\<lambda>_.
     res_ensure (wp_allow_child_spawns (th_spawn_policy parent)) (SpawnDisabled (th_path parent))
    (res_ensure (spawn_attenuates (wq_spawn_policy q) (th_spawn_policy parent)) SpawnPolicyEscalation
    (res_ensure (sd_parent_snapshot_id (wq_runtime_snapshot q) = Some (th_runtime_snapshot_id parent))
       (InvalidRuntimeSnapshot ''child runtime snapshot must reference the parent Agent snapshot'')
    (res_bind (ok_or (bt_get (rg_sessions rg) (th_session_id parent)) (SessionNotFound (th_session_id parent))) (\<lambda>session.
     res_bind (map_err PathError (child_path (th_path parent) (trim (wq_task_name q)))) (\<lambda>p.
     let max_depth = min (sp_max_depth (se_policy session)) (wp_max_depth (th_spawn_policy parent)) in
     res_ensure (\<not> max_depth < path_depth p) (MaximumDepth (path_depth p) max_depth)
    (res_ensure (rg_paths rg (th_session_id parent, p) = None) (DuplicateAgentPath p)
    (res_ensure (\<not> sp_max_agents (se_policy session)
                    \<le> count_values (\<lambda>t. th_session_id t = th_session_id parent) (rg_threads rg))
       (MaximumAgents (sp_max_agents (se_policy session)))
    (res_ensure (\<not> wp_max_direct_children (th_spawn_policy parent)
                    \<le> count_values (\<lambda>t. th_parent t = Some (th_id parent)) (rg_threads rg))
       (MaximumDirectChildren (th_path parent) (wp_max_direct_children (th_spawn_policy parent)))
    (let child = child_thread cv q parent p;
         turn = queued_turn (cv_now cv) (cv_turn_id cv) (th_session_id parent) (th_id child)
                  (Some (th_id parent, wq_requested_by_turn q)) 1 message;
         snapshot = snapshot_record cv (th_session_id parent) (sd_parent_snapshot_id (wq_runtime_snapshot q))
                      (wq_runtime_snapshot q)
     in Inr ((child, turn),
          rg\<lparr>rg_snapshots := bt_insert (sr_id snapshot) snapshot (rg_snapshots rg),
             rg_paths := (rg_paths rg)((th_session_id parent, p) \<mapsto> th_id child),
             rg_threads := bt_insert (th_id child) child (rg_threads rg),
             rg_turns := bt_insert (tu_id turn) turn (rg_turns rg),
             rg_turns_by_thread := (rg_turns_by_thread rg)(th_id child \<mapsto> [tu_id turn])\<rparr>)))))))))))))))))"

definition mem_create_followup_turn ::
    "collab_env \<Rightarrow> followup_request \<Rightarrow> registry \<Rightarrow> collab_error + agent_turn \<times> registry" where
  "mem_create_followup_turn cv q rg =
     res_bind (require_text (fq_task_message q) EmptyTaskMessage) (\<lambda>message.
     res_bind (ensure_requesting_turn rg (fq_requested_by_thread q) (fq_requested_by_turn q)) (\<lambda>_.
     res_bind (ok_or (bt_get (rg_threads rg) (fq_requested_by_thread q)) (AgentThreadNotFound (fq_requested_by_thread q))) (\<lambda>caller.
     res_bind (ok_or (bt_get (rg_threads rg) (fq_target q)) (AgentThreadNotFound (fq_target q))) (\<lambda>target.
     res_ensure (\<not> (th_session_id caller \<noteq> th_session_id target \<or> \<not> is_descendant_of (th_path target) (th_path caller)))
       (LifecyclePermissionDenied (th_path caller) (th_path target))
    (res_ensure (\<not> thread_is_archived target) (AgentThreadArchived (th_id target))
    (res_ensure (\<not> (case latest_turn_locked rg (th_id target) of
                       Some turn \<Rightarrow> \<not> turn_is_terminal (tu_status turn) | None \<Rightarrow> False))
       (AgentTurnAlreadyActive (th_id target))
    (let sequence = (case rg_turns_by_thread rg (th_id target) of Some ids \<Rightarrow> length ids + 1 | None \<Rightarrow> 1);
         turn = queued_turn (cv_now cv) (cv_turn_id cv) (th_session_id target) (th_id target)
                  (Some (th_id caller, fq_requested_by_turn q)) sequence message
     in Inr (turn,
          rg\<lparr>rg_turns := bt_insert (tu_id turn) turn (rg_turns rg),
             rg_turns_by_thread := (rg_turns_by_thread rg)(th_id target \<mapsto>
               (case rg_turns_by_thread rg (th_id target) of Some ids \<Rightarrow> ids | None \<Rightarrow> []) @ [tu_id turn])\<rparr>))))))))"

definition mem_transition_turn ::
    "collab_env \<Rightarrow> uuid \<Rightarrow> turn_status \<Rightarrow> registry \<Rightarrow> collab_error + agent_turn \<times> registry" where
  "mem_transition_turn cv turn_id next rg =
     res_bind (ok_or (bt_get (rg_turns rg) turn_id) (AgentTurnNotFound turn_id)) (\<lambda>turn.
     res_bind (turn_transition next (cv_now cv) turn) (\<lambda>turn'.
     Inr (turn', rg\<lparr>rg_turns := bt_insert turn_id turn' (rg_turns rg)\<rparr>)))"

definition mem_latest_turn :: "uuid \<Rightarrow> registry \<Rightarrow> collab_error + agent_turn option" where
  "mem_latest_turn thread_id rg =
     res_ensure (bt_contains (rg_threads rg) thread_id) (AgentThreadNotFound thread_id)
       (Inr (latest_turn_locked rg thread_id))"

definition mem_resolve_path :: "uuid \<Rightarrow> agent_path \<Rightarrow> registry \<Rightarrow> collab_error + agent_thread option" where
  "mem_resolve_path session_id p rg =
     res_ensure (bt_contains (rg_sessions rg) session_id) (SessionNotFound session_id)
       (Inr (Option.bind (rg_paths rg (session_id, p)) (bt_get (rg_threads rg))))"

definition mem_list_threads :: "uuid \<Rightarrow> registry \<Rightarrow> collab_error + agent_thread list" where
  "mem_list_threads session_id rg =
     res_ensure (bt_contains (rg_sessions rg) session_id) (SessionNotFound session_id)
       (Inr (sort_key th_path (filter (\<lambda>t. th_session_id t = session_id) (map snd (rg_threads rg)))))"

end
