(* ===== verification/Collaboration_Store.thy ===== *)
theory Collaboration_Store
  imports Collaboration Flow_Case
begin

text \<open>
  The registry over SQLite (\<open>collaboration/sqlite_repository/registry_repository.rs\<close>,
  \<open>collaboration/sqlite_repository/record_mapping.rs\<close>, \<open>collaboration/sqlite_repository.rs\<close>): tables with the
  uniqueness and foreign key constraints of the migrations, each operation one transaction.  The limits of a
  session, the narrowing of spawn policies and the life of turns are invariants of the tables.
\<close>

section \<open>Tables\<close>

record collab_tables =
  tb_sessions :: "(uuid, collab_session) btree"
  tb_threads :: "(uuid, agent_thread) btree"
  tb_turns :: "(uuid, agent_turn) btree"
  tb_snapshots :: "(uuid, runtime_snapshot_record) btree"

definition constraint :: "bool \<Rightarrow> string \<Rightarrow> collab_error + 'a \<Rightarrow> collab_error + 'a" where
  "constraint holds name k = res_ensure holds (CollabPersistence (name @ '' constraint failed'')) k"

definition reference :: "uuid option \<Rightarrow> (uuid, 'v) btree \<Rightarrow> bool" where
  "reference i rows \<longleftrightarrow> (case i of Some k \<Rightarrow> bt_contains rows k | None \<Rightarrow> True)"

definition insert_session_row :: "collab_env \<Rightarrow> collab_session \<Rightarrow> collab_tables \<Rightarrow> collab_error + collab_tables" where
  "insert_session_row cv s tb =
     constraint (\<not> bt_contains (tb_sessions tb) (se_id s)
         \<and> list_all (\<lambda>r. se_user_task_id r \<noteq> se_user_task_id s) (map snd (tb_sessions tb))) ''UNIQUE''
    (constraint (cv_user_task cv (se_user_task_id s)) ''FOREIGN KEY''
       (Inr (tb\<lparr>tb_sessions := bt_insert (se_id s) s (tb_sessions tb)\<rparr>)))"

definition insert_snapshot_row :: "runtime_snapshot_record \<Rightarrow> collab_tables \<Rightarrow> collab_error + collab_tables" where
  "insert_snapshot_row s tb =
     constraint (\<not> bt_contains (tb_snapshots tb) (sr_id s)) ''UNIQUE''
    (constraint (bt_contains (tb_sessions tb) (sr_session_id s) \<and> reference (sr_parent_snapshot_id s) (tb_snapshots tb))
       ''FOREIGN KEY'' (Inr (tb\<lparr>tb_snapshots := bt_insert (sr_id s) s (tb_snapshots tb)\<rparr>)))"

definition insert_thread_row :: "agent_thread \<Rightarrow> collab_tables \<Rightarrow> collab_error + collab_tables" where
  "insert_thread_row t tb =
     constraint (\<not> bt_contains (tb_threads tb) (th_id t)
         \<and> list_all (\<lambda>r. \<not> (th_session_id r = th_session_id t \<and> th_path r = th_path t)) (map snd (tb_threads tb))) ''UNIQUE''
    (constraint (bt_contains (tb_sessions tb) (th_session_id t) \<and> reference (th_parent t) (tb_threads tb)
         \<and> bt_contains (tb_snapshots tb) (th_runtime_snapshot_id t)) ''FOREIGN KEY''
       (Inr (tb\<lparr>tb_threads := bt_insert (th_id t) t (tb_threads tb)\<rparr>)))"

definition insert_turn_row :: "agent_turn \<Rightarrow> collab_tables \<Rightarrow> collab_error + collab_tables" where
  \<comment> \<open>with the index \<open>idx_agent_turns_one_active\<close>; the sequence and the invocation count rows and stay below \<open>2 ^ 63\<close>\<close>
  "insert_turn_row t tb =
     constraint (\<not> bt_contains (tb_turns tb) (tu_id t)
         \<and> list_all (\<lambda>r. \<not> (tu_agent_thread_id r = tu_agent_thread_id t
              \<and> (tu_sequence r = tu_sequence t
                 \<or> \<not> turn_is_terminal (tu_status r) \<and> \<not> turn_is_terminal (tu_status t)))) (map snd (tb_turns tb))) ''UNIQUE''
    (constraint (bt_contains (tb_sessions tb) (tu_session_id t) \<and> bt_contains (tb_threads tb) (tu_agent_thread_id t)
         \<and> reference (tu_requested_by_thread t) (tb_threads tb) \<and> reference (tu_requested_by_turn t) (tb_turns tb))
       ''FOREIGN KEY'' (Inr (tb\<lparr>tb_turns := bt_insert (tu_id t) t (tb_turns tb)\<rparr>)))"

definition insert_session_bundle ::
    "collab_env \<Rightarrow> collab_session \<Rightarrow> runtime_snapshot_record \<Rightarrow> agent_thread \<Rightarrow> agent_turn \<Rightarrow> collab_tables
      \<Rightarrow> collab_error + collab_tables" where
  "insert_session_bundle cv session snapshot root turn tb =
     res_bind (insert_session_row cv session tb) (\<lambda>tb1.
     res_bind (insert_snapshot_row snapshot tb1) (\<lambda>tb2.
     res_bind (insert_thread_row root tb2) (\<lambda>tb3. insert_turn_row turn tb3)))"

definition turns_of :: "collab_tables \<Rightarrow> uuid \<Rightarrow> agent_turn list" where
  "turns_of tb thread_id = sort_key tu_sequence (filter (\<lambda>t. tu_agent_thread_id t = thread_id) (map snd (tb_turns tb)))"

definition read_latest_turn :: "collab_tables \<Rightarrow> uuid \<Rightarrow> agent_turn option" where
  \<comment> \<open>\<open>ORDER BY sequence DESC LIMIT 1\<close>\<close>
  "read_latest_turn tb thread_id = (if turns_of tb thread_id = [] then None else Some (last (turns_of tb thread_id)))"

definition read_thread_by_path :: "collab_tables \<Rightarrow> uuid \<Rightarrow> agent_path \<Rightarrow> agent_thread option" where
  "read_thread_by_path tb session_id p =
     find (\<lambda>t. th_session_id t = session_id \<and> th_path t = p) (map snd (tb_threads tb))"

section \<open>Operations\<close>

definition sql_create_session ::
    "collab_env \<Rightarrow> create_session_request \<Rightarrow> collab_tables
      \<Rightarrow> collab_error + (collab_session \<times> agent_thread \<times> agent_turn) \<times> collab_tables" where
  "sql_create_session cv q tb =
     res_bind (validate_session_policy (cq_session_policy q)) (\<lambda>_.
     res_bind (validate_seed cv (cq_root_runtime_snapshot q)) (\<lambda>_.
     res_ensure (sd_parent_snapshot_id (cq_root_runtime_snapshot q) = None)
       (InvalidRuntimeSnapshot ''root runtime snapshot cannot have a parent'')
    (res_ensure (\<not> sp_max_depth (cq_session_policy q) < wp_max_depth (cq_root_spawn_policy q))
       (MaximumDepth (wp_max_depth (cq_root_spawn_policy q)) (sp_max_depth (cq_session_policy q)))
    (res_ensure (trim (cq_root_task_message q) \<noteq> []) EmptyTaskMessage
    (res_ensure (trim (cq_root_agent_type q) \<noteq> []) EmptyAgentType
    (let session = session_record cv q; root = root_thread cv q;
         turn = queued_turn (cv_now cv) (cq_root_turn_id q) (cv_session_id cv) (cv_thread_id cv) None 1
                  (trim (cq_root_task_message q));
         snapshot = snapshot_record cv (cv_session_id cv) None (cq_root_runtime_snapshot q)
     in res_bind (insert_session_bundle cv session snapshot root turn tb) (\<lambda>tb'.
          Inr ((session, root, turn), tb'))))))))"

definition sql_spawn_agent ::
    "collab_env \<Rightarrow> spawn_request \<Rightarrow> collab_tables \<Rightarrow> collab_error + (agent_thread \<times> agent_turn) \<times> collab_tables" where
  "sql_spawn_agent cv q tb =
     res_bind (map_err PathError (validate_task_name (trim (wq_task_name q)))) (\<lambda>_.
     res_bind (validate_seed cv (wq_runtime_snapshot q)) (\<lambda>_.
     res_ensure (trim (wq_agent_type q) \<noteq> []) EmptyAgentType
    (res_ensure (trim (wq_task_message q) \<noteq> []) EmptyTaskMessage
    (res_bind (ok_or (bt_get (tb_threads tb) (wq_parent q)) (CollabPersistence ''parent AgentThread was not found'')) (\<lambda>parent.
     res_ensure (\<not> thread_is_archived parent) (AgentThreadArchived (th_id parent))
    (res_bind (ok_or (bt_get (tb_turns tb) (wq_requested_by_turn q))
                (CollabPersistence ''requesting AgentTurn was not found'')) (\<lambda>requesting.
     res_ensure (tu_agent_thread_id requesting = th_id parent)
       (RequestingTurnOwnership (wq_requested_by_turn q) (th_id parent))
    (res_ensure (wp_allow_child_spawns (th_spawn_policy parent)) (SpawnDisabled (th_path parent))
    (res_ensure (spawn_attenuates (wq_spawn_policy q) (th_spawn_policy parent)) SpawnPolicyEscalation
    (res_ensure (sd_parent_snapshot_id (wq_runtime_snapshot q) = Some (th_runtime_snapshot_id parent))
       (InvalidRuntimeSnapshot ''child runtime snapshot must reference the parent Agent snapshot'')
    (res_bind (ok_or (bt_get (tb_sessions tb) (th_session_id parent))
                (CollabPersistence ''CollaborationSession was not found'')) (\<lambda>session.
     res_bind (map_err PathError (child_path (th_path parent) (trim (wq_task_name q)))) (\<lambda>p.
     let max_depth = min (sp_max_depth (se_policy session)) (wp_max_depth (th_spawn_policy parent)) in
     res_ensure (\<not> max_depth < path_depth p) (MaximumDepth (path_depth p) max_depth)
    (res_ensure (read_thread_by_path tb (th_session_id parent) p = None) (DuplicateAgentPath p)
    (res_ensure (\<not> sp_max_agents (se_policy session)
                    \<le> count_values (\<lambda>t. th_session_id t = th_session_id parent) (tb_threads tb))
       (MaximumAgents (sp_max_agents (se_policy session)))
    (res_ensure (\<not> wp_max_direct_children (th_spawn_policy parent)
                    \<le> count_values (\<lambda>t. th_parent t = Some (th_id parent)) (tb_threads tb))
       (MaximumDirectChildren (th_path parent) (wp_max_direct_children (th_spawn_policy parent)))
    (let child = child_thread cv q parent p;
         turn = queued_turn (cv_now cv) (cv_turn_id cv) (th_session_id parent) (th_id child)
                  (Some (th_id parent, wq_requested_by_turn q)) 1 (trim (wq_task_message q));
         snapshot = snapshot_record cv (th_session_id parent) (sd_parent_snapshot_id (wq_runtime_snapshot q))
                      (wq_runtime_snapshot q)
     in res_bind (insert_snapshot_row snapshot tb) (\<lambda>tb1.
        res_bind (insert_thread_row child tb1) (\<lambda>tb2.
        res_bind (insert_turn_row turn tb2) (\<lambda>tb3. Inr ((child, turn), tb3)))))))))))))))))))))"

definition sql_create_followup_turn ::
    "collab_env \<Rightarrow> followup_request \<Rightarrow> collab_tables \<Rightarrow> collab_error + agent_turn \<times> collab_tables" where
  "sql_create_followup_turn cv q tb =
     res_ensure (trim (fq_task_message q) \<noteq> []) EmptyTaskMessage
    (res_bind (ok_or (bt_get (tb_threads tb) (fq_requested_by_thread q))
                (CollabPersistence ''requesting AgentThread was not found'')) (\<lambda>caller.
     res_bind (ok_or (bt_get (tb_turns tb) (fq_requested_by_turn q))
                (CollabPersistence ''requesting AgentTurn was not found'')) (\<lambda>requesting.
     res_ensure (tu_agent_thread_id requesting = th_id caller)
       (RequestingTurnOwnership (fq_requested_by_turn q) (th_id caller))
    (res_bind (ok_or (bt_get (tb_threads tb) (fq_target q)) (CollabPersistence ''target AgentThread was not found'')) (\<lambda>target.
     res_ensure (\<not> (th_session_id caller \<noteq> th_session_id target \<or> \<not> is_descendant_of (th_path target) (th_path caller)))
       (LifecyclePermissionDenied (th_path caller) (th_path target))
    (res_ensure (\<not> thread_is_archived target) (AgentThreadArchived (th_id target))
    (let latest = read_latest_turn tb (th_id target) in
     res_ensure (\<not> (case latest of Some turn \<Rightarrow> \<not> turn_is_terminal (tu_status turn) | None \<Rightarrow> False))
       (AgentTurnAlreadyActive (th_id target))
    (let sequence = (case latest of Some turn \<Rightarrow> tu_sequence turn + 1 | None \<Rightarrow> 1);
         turn = queued_turn (cv_now cv) (cv_turn_id cv) (th_session_id target) (th_id target)
                  (Some (th_id caller, fq_requested_by_turn q)) sequence (trim (fq_task_message q))
     in res_bind (insert_turn_row turn tb) (\<lambda>tb'. Inr (turn, tb'))))))))))"

definition write_turn :: "agent_turn \<Rightarrow> collab_tables \<Rightarrow> collab_tables" where
  "write_turn t tb = tb\<lparr>tb_turns := bt_insert (tu_id t) t (tb_turns tb)\<rparr>"

definition sql_transition_turn ::
    "collab_env \<Rightarrow> uuid \<Rightarrow> turn_status \<Rightarrow> collab_tables \<Rightarrow> collab_error + agent_turn \<times> collab_tables" where
  "sql_transition_turn cv turn_id next tb =
     res_bind (ok_or (bt_get (tb_turns tb) turn_id) (CollabPersistence ''AgentTurn was not found'')) (\<lambda>turn.
     res_bind (turn_transition next (cv_now cv) turn) (\<lambda>turn'. Inr (turn', write_turn turn' tb)))"

definition create_root_followup_turn ::
    "collab_env \<Rightarrow> uuid \<Rightarrow> uuid \<Rightarrow> string \<Rightarrow> snapshot_seed \<Rightarrow> collab_tables
      \<Rightarrow> collab_error + (agent_thread \<times> agent_turn) \<times> collab_tables" where
  "create_root_followup_turn cv session_id turn_id message0 seed tb =
     (let message = trim message0 in
      res_ensure (message \<noteq> []) EmptyTaskMessage
     (res_bind (validate_seed cv seed) (\<lambda>_.
      res_ensure (sd_parent_snapshot_id seed = None)
        (InvalidRuntimeSnapshot ''root follow-up snapshot parent is assigned transactionally'')
     (res_bind (ok_or (read_thread_by_path tb session_id root_agent_path)
                 (CollabPersistence ''root AgentThread was not found'')) (\<lambda>root.
      res_bind (ok_or (read_latest_turn tb (th_id root)) (CollabPersistence ''root AgentTurn was not found'')) (\<lambda>latest.
      res_ensure (turn_is_terminal (tu_status latest)) (AgentTurnAlreadyActive (th_id root))
     (let snapshot = snapshot_record cv session_id (Some (th_runtime_snapshot_id root)) seed;
          root' = root\<lparr>th_runtime_snapshot_id := sr_id snapshot\<rparr>;
          turn = queued_turn (cv_now cv) turn_id session_id (th_id root) (Some (th_id root, tu_id latest))
                   (tu_sequence latest + 1) message
      in res_bind (insert_snapshot_row snapshot tb) (\<lambda>tb1.
         let tb2 = tb1\<lparr>tb_threads := bt_insert (th_id root) root' (tb_threads tb1)\<rparr> in
         res_bind (insert_turn_row turn tb2) (\<lambda>tb3. Inr ((root', turn), tb3))))))))))"

definition u64_max :: nat where
  "u64_max = 2 ^ 64 - 1"

definition resume_agent_turn :: "collab_env \<Rightarrow> uuid \<Rightarrow> collab_tables \<Rightarrow> collab_error + agent_turn \<times> collab_tables" where
  "resume_agent_turn cv turn_id tb =
     res_bind (ok_or (bt_get (tb_turns tb) turn_id) (CollabPersistence ''AgentTurn was not found'')) (\<lambda>turn.
     res_ensure (needs_attention (tu_status turn))
       (CollabPersistence ''AgentTurn is not waiting for a resumable interaction'')
    (res_bind (turn_transition TurnRunning (cv_now cv) turn) (\<lambda>turn1.
     let turn2 = turn1\<lparr>tu_invocation_id := min (tu_invocation_id turn1 + 1) u64_max\<rparr> in
     res_ensure (tu_invocation_id turn2 < 2 ^ 63) (CollabPersistence ''out of range integral type conversion attempted'')
       (Inr (turn2, write_turn (turn2\<lparr>tu_completed_at := None\<rparr>) tb)))))"

definition record_turn_row ::
    "collab_env \<Rightarrow> uuid \<Rightarrow> uuid \<Rightarrow> turn_status \<Rightarrow> collab_tables \<Rightarrow> collab_error + agent_turn \<times> collab_tables" where
  \<comment> \<open>what \<open>record_turn_state\<close> writes to the table of turns; \<open>new_outcome\<close> is drawn for a turn without an outcome\<close>
  "record_turn_row cv new_outcome turn_id next tb =
     res_bind (ok_or (bt_get (tb_turns tb) turn_id) (CollabPersistence ''AgentTurn was not found'')) (\<lambda>turn.
     res_bind (if tu_status turn \<noteq> next then turn_transition next (cv_now cv) turn else Inr turn) (\<lambda>turn1.
     let turn2 = turn1\<lparr>tu_outcome_ref := Some (case tu_outcome_ref turn1 of Some i \<Rightarrow> i | None \<Rightarrow> new_outcome)\<rparr> in
     res_bind (ok_or (bt_get (tb_threads tb) (tu_agent_thread_id turn2)) (CollabPersistence ''AgentThread was not found'')) (\<lambda>_.
     Inr (turn2, write_turn turn2 tb))))"

definition sql_latest_turn :: "uuid \<Rightarrow> collab_tables \<Rightarrow> collab_error + agent_turn option" where
  "sql_latest_turn thread_id tb =
     res_ensure (bt_contains (tb_threads tb) thread_id) (CollabPersistence ''AgentThread was not found'')
       (Inr (read_latest_turn tb thread_id))"

definition sql_resolve_path :: "uuid \<Rightarrow> agent_path \<Rightarrow> collab_tables \<Rightarrow> collab_error + agent_thread option" where
  "sql_resolve_path session_id p tb =
     res_ensure (bt_contains (tb_sessions tb) session_id) (CollabPersistence ''CollaborationSession was not found'')
       (Inr (read_thread_by_path tb session_id p))"

definition sql_list_threads :: "uuid \<Rightarrow> collab_tables \<Rightarrow> collab_error + agent_thread list" where
  "sql_list_threads session_id tb =
     res_ensure (bt_contains (tb_sessions tb) session_id) (CollabPersistence ''CollaborationSession was not found'')
       (Inr (sort_key th_path (filter (\<lambda>t. th_session_id t = session_id) (map snd (tb_threads tb)))))"

definition list_recoverable_turns :: "collab_tables \<Rightarrow> agent_turn list" where
  "list_recoverable_turns tb =
     sort_key tu_created_at (filter (\<lambda>t. tu_status t \<in> {TurnQueued, TurnRunning}) (map snd (tb_turns tb)))"


section \<open>Rows\<close>

lemma constraint_Inr [simp]: "constraint holds name k = Inr x \<longleftrightarrow> holds \<and> k = Inr x"
  by (simp add: constraint_def res_ensure_def)

lemma reference_simps [simp]: "reference None rows" "reference (Some i) rows \<longleftrightarrow> bt_contains rows i"
  by (simp_all add: reference_def)

lemma bt_get_of_mem: "bt_inv m \<Longrightarrow> (k, v) \<in> set m \<Longrightarrow> bt_get m k = Some v"
  by (simp add: bt_get_map_of bt_inv_distinct map_of_is_SomeI)

lemma bt_rows: "bt_inv m \<Longrightarrow> v \<in> set (map snd m) \<longleftrightarrow> (\<exists>k. bt_get m k = Some v)"
proof
  assume "bt_inv m" "v \<in> set (map snd m)"
  then obtain k where "(k, v) \<in> set m" by auto
  with \<open>bt_inv m\<close> have "bt_get m k = Some v" by (rule bt_get_of_mem)
  then show "\<exists>k. bt_get m k = Some v" ..
next
  assume "\<exists>k. bt_get m k = Some v"
  then obtain k where "bt_get m k = Some v" ..
  from bt_get_in_set [OF this] show "v \<in> set (map snd m)" by force
qed

lemma bt_insert_fresh: "bt_get m k = None \<Longrightarrow> mset (map snd (bt_insert k v m)) = add_mset v (mset (map snd m))"
  by (induction m) (auto split: if_splits)

lemma bt_insert_present:
  "bt_inv m \<Longrightarrow> bt_get m k = Some w \<Longrightarrow> mset (map snd (bt_insert k v m)) = add_mset v (mset (map snd m) - {#w#})"
proof (induction m)
  case (Cons a m)
  obtain k' v' where a: "a = (k', v')" by (cases a)
  have inv: "bt_inv m" and less: "\<forall>x \<in> set m. k' < fst x" using Cons.prems(1) by (auto simp: bt_inv_def a)
  show ?case
  proof (cases "k' = k")
    case True
    then show ?thesis using Cons.prems by (simp add: a)
  next
    case False
    then have get: "bt_get m k = Some w" using Cons.prems(2) by (simp add: a)
    then have "k' < k" using less bt_get_in_set [OF get] by force
    moreover have "w \<in># mset (map snd m)" using bt_get_in_set [OF get] by force
    ultimately show ?thesis using Cons.IH [OF inv get] False by (auto simp: a add_mset_commute)
  qed
qed simp

lemma count_values_mset: "count_values p m = size (filter_mset p (mset (map snd m)))"
  by (simp add: count_values_def flip: mset_filter mset_map)

lemma count_values_fresh:
  "bt_get m k = None \<Longrightarrow> count_values p (bt_insert k v m) = count_values p m + (if p v then 1 else 0)"
  by (simp only: count_values_mset bt_insert_fresh) simp

lemma count_values_present:
  assumes "bt_inv m" "bt_get m k = Some w" "p v \<longleftrightarrow> p w"
  shows "count_values p (bt_insert k v m) = count_values p m"
proof -
  have "w \<in># mset (map snd m)" using bt_get_in_set [OF assms(2)] by force
  then obtain rest where rest: "mset (map snd m) = add_mset w rest" by (metis mset_add)
  then show ?thesis
    using assms(3) by (simp only: count_values_mset bt_insert_present [OF assms(1,2)] rest) simp
qed

lemma count_values_none: "bt_inv m \<Longrightarrow> (\<forall>k v. bt_get m k = Some v \<longrightarrow> \<not> p v) \<Longrightarrow> count_values p m = 0"
  unfolding count_values_def length_0_conv filter_empty_conv Ball_def bt_rows by blast

section \<open>The invariant of the tables\<close>

definition thread_ok :: "collab_tables \<Rightarrow> agent_thread \<Rightarrow> bool" where
  "thread_ok tb t \<longleftrightarrow>
     (\<exists>s ns. bt_get (tb_sessions tb) (th_session_id t) = Some s \<and> task_names ns \<and> th_path t = path_of ns
        \<and> length ns \<le> sp_max_depth (se_policy s) \<and> wp_max_depth (th_spawn_policy t) \<le> sp_max_depth (se_policy s)
        \<and> bt_contains (tb_snapshots tb) (th_runtime_snapshot_id t)
        \<and> (case th_parent t of
             None \<Rightarrow> ns = []
           | Some q \<Rightarrow>
               (\<exists>parent ms n. bt_get (tb_threads tb) q = Some parent \<and> th_session_id parent = th_session_id t
                  \<and> task_names ms \<and> th_path parent = path_of ms \<and> ns = ms @ [n]
                  \<and> wp_allow_child_spawns (th_spawn_policy parent)
                  \<and> spawn_attenuates (th_spawn_policy t) (th_spawn_policy parent)
                  \<and> length ns \<le> wp_max_depth (th_spawn_policy parent))))"

definition turns_ok :: "collab_tables \<Rightarrow> uuid \<Rightarrow> bool" where
  \<comment> \<open>the turns of a thread are numbered from 1, and only the last one may be unfinished\<close>
  "turns_ok tb i \<longleftrightarrow>
     map tu_sequence (turns_of tb i) = map Suc [0..<length (turns_of tb i)]
     \<and> list_all (\<lambda>t. turn_is_terminal (tu_status t)) (butlast (turns_of tb i))"

definition keys_ok :: "collab_tables \<Rightarrow> bool" where
  "keys_ok tb \<longleftrightarrow>
     bt_inv (tb_sessions tb) \<and> bt_inv (tb_threads tb) \<and> bt_inv (tb_turns tb) \<and> bt_inv (tb_snapshots tb)
     \<and> (\<forall>i s. bt_get (tb_sessions tb) i = Some s \<longrightarrow> se_id s = i)
     \<and> (\<forall>i t. bt_get (tb_threads tb) i = Some t \<longrightarrow> th_id t = i)
     \<and> (\<forall>i t. bt_get (tb_turns tb) i = Some t \<longrightarrow> tu_id t = i)"

definition threads_ok :: "collab_tables \<Rightarrow> bool" where
  "threads_ok tb \<longleftrightarrow>
     (\<forall>i s. bt_get (tb_sessions tb) i = Some s \<longrightarrow>
        sp_max_depth (se_policy s) < 65535
        \<and> count_values (\<lambda>t. th_session_id t = i) (tb_threads tb) \<le> sp_max_agents (se_policy s))
     \<and> (\<forall>i t. bt_get (tb_threads tb) i = Some t \<longrightarrow>
          thread_ok tb t
          \<and> count_values (\<lambda>c. th_parent c = Some i) (tb_threads tb) \<le> wp_max_direct_children (th_spawn_policy t))
     \<and> (\<forall>i j t u. bt_get (tb_threads tb) i = Some t \<and> bt_get (tb_threads tb) j = Some u
          \<and> th_session_id t = th_session_id u \<and> th_path t = th_path u \<longrightarrow> i = j)"

definition tables_inv :: "collab_tables \<Rightarrow> bool" where
  "tables_inv tb \<longleftrightarrow>
     keys_ok tb \<and> threads_ok tb
     \<and> (\<forall>i t. bt_get (tb_turns tb) i = Some t \<longrightarrow>
          (\<exists>th. bt_get (tb_threads tb) (tu_agent_thread_id t) = Some th \<and> th_session_id th = tu_session_id t))
     \<and> (\<forall>i. turns_ok tb i)"

subsection \<open>Turns\<close>

lemma set_turns_of:
  "bt_inv (tb_turns tb) \<Longrightarrow> set (turns_of tb i) = {t. \<exists>k. bt_get (tb_turns tb) k = Some t \<and> tu_agent_thread_id t = i}"
  using bt_rows [of "tb_turns tb"] by (auto simp: turns_of_def simp del: set_map)

lemma turns_of_eqI:
  assumes keys: "keys_ok tb"
    and ts: "set ts = {t. \<exists>k. bt_get (tb_turns tb) k = Some t \<and> tu_agent_thread_id t = i}"
    and less: "sorted_wrt (<) (map tu_sequence ts)"
  shows "turns_of tb i = ts"
proof (rule map_sorted_distinct_set_unique [where f = tu_sequence])
  have inv: "bt_inv (tb_turns tb)" using keys by (simp add: keys_ok_def)
  have inj: "inj_on tu_sequence (set ts)" using less by (simp add: strict_sorted_iff distinct_map)
  have same: "set (turns_of tb i) = set ts" using ts by (simp add: set_turns_of [OF inv])
  show "inj_on tu_sequence (set (turns_of tb i) \<union> set ts)" using inj same by simp
  have "distinct (map fst (tb_turns tb))" by (rule bt_inv_distinct [OF inv])
  moreover have "map (\<lambda>(k, v). tu_id v) (tb_turns tb) = map fst (tb_turns tb)"
    using keys bt_get_of_mem [OF inv] by (auto simp: keys_ok_def)
  ultimately have "distinct (map snd (tb_turns tb))"
    by (metis (no_types, lifting) case_prod_unfold distinct_map list.map_comp map_eq_conv comp_apply)
  then have "distinct (turns_of tb i)" by (simp add: turns_of_def)
  then show "distinct (map tu_sequence (turns_of tb i))" using inj same by (simp add: distinct_map)
  show "sorted (map tu_sequence (turns_of tb i))" by (simp add: turns_of_def)
  show "sorted (map tu_sequence ts)" "distinct (map tu_sequence ts)" using less by (simp_all add: strict_sorted_iff)
  show "set (turns_of tb i) = set ts" by (rule same)
qed

lemma turns_ok_sorted: "turns_ok tb i \<Longrightarrow> sorted_wrt (<) (map tu_sequence (turns_of tb i))"
  unfolding turns_ok_def by (simp only: sorted_wrt_map) simp

lemma turns_ok_bound: "turns_ok tb i \<Longrightarrow> u \<in> set (turns_of tb i) \<Longrightarrow> tu_sequence u \<le> length (turns_of tb i)"
proof -
  assume "turns_ok tb i" "u \<in> set (turns_of tb i)"
  then have "tu_sequence u \<in> set (map Suc [0..<length (turns_of tb i)])" by (metis image_eqI list.set_map turns_ok_def)
  then show ?thesis by auto
qed

text \<open>A new turn is appended to the turns of its thread.\<close>

lemma turns_of_append:
  assumes keys: "keys_ok tb" and ok: "turns_ok tb i" and i: "tu_agent_thread_id t = i"
    and fresh: "bt_get (tb_turns tb) (tu_id t) = None" and sequence: "tu_sequence t = Suc (length (turns_of tb i))"
    and turns: "tb_turns tb' = bt_insert (tu_id t) t (tb_turns tb)" and keys': "keys_ok tb'"
  shows "turns_of tb' i = turns_of tb i @ [t]"
proof (rule turns_of_eqI [OF keys'])
  have inv: "bt_inv (tb_turns tb)" using keys by (simp add: keys_ok_def)
  show "set (turns_of tb i @ [t]) = {u. \<exists>k. bt_get (tb_turns tb') k = Some u \<and> tu_agent_thread_id u = i}"
    using fresh i by (auto simp: set_turns_of [OF inv] turns bt_get_insert) (metis option.distinct(1))
  have "\<forall>u \<in> set (turns_of tb i). tu_sequence u < tu_sequence t"
    using turns_ok_bound [OF ok] sequence by (simp add: less_Suc_eq_le)
  then show "sorted_wrt (<) (map tu_sequence (turns_of tb i @ [t]))"
    using turns_ok_sorted [OF ok] by (simp add: sorted_wrt_append)
qed

lemma turns_of_other:
  assumes keys: "keys_ok tb" "keys_ok tb'" and ok: "turns_ok tb i"
    and other: "tu_agent_thread_id t \<noteq> i" "\<forall>u. bt_get (tb_turns tb) (tu_id t) = Some u \<longrightarrow> tu_agent_thread_id u \<noteq> i"
    and turns: "tb_turns tb' = bt_insert (tu_id t) t (tb_turns tb)"
  shows "turns_of tb' i = turns_of tb i"
proof (rule turns_of_eqI [OF keys(2)])
  have inv: "bt_inv (tb_turns tb)" using keys by (simp add: keys_ok_def)
  show "set (turns_of tb i) = {u. \<exists>k. bt_get (tb_turns tb') k = Some u \<and> tu_agent_thread_id u = i}"
    using other by (auto simp: set_turns_of [OF inv] turns bt_get_insert split: if_splits) metis
qed (rule turns_ok_sorted [OF ok])

lemma turns_of_replace:
  assumes keys: "keys_ok tb" "keys_ok tb'" and ok: "turns_ok tb i"
    and u: "bt_get (tb_turns tb) (tu_id t) = Some u" "tu_agent_thread_id u = i"
    and t: "tu_agent_thread_id t = i" "tu_sequence t = tu_sequence u"
    and turns: "tb_turns tb' = bt_insert (tu_id t) t (tb_turns tb)"
  shows "turns_of tb' i = map (\<lambda>x. if tu_id x = tu_id t then t else x) (turns_of tb i)"
proof (rule turns_of_eqI [OF keys(2)])
  let ?f = "\<lambda>x. if tu_id x = tu_id t then t else x"
  have inv: "bt_inv (tb_turns tb)" using keys by (simp add: keys_ok_def)
  have ids: "bt_get (tb_turns tb) k = Some x \<Longrightarrow> tu_id x = k" for k x using keys by (simp add: keys_ok_def)
  show "set (map ?f (turns_of tb i)) = {x. \<exists>k. bt_get (tb_turns tb') k = Some x \<and> tu_agent_thread_id x = i}"
  proof (intro set_eqI iffI)
    fix x assume "x \<in> set (map ?f (turns_of tb i))"
    then obtain y k where "bt_get (tb_turns tb) k = Some y" "tu_agent_thread_id y = i" "x = ?f y"
      by (auto simp: set_turns_of [OF inv])
    then show "x \<in> {x. \<exists>k. bt_get (tb_turns tb') k = Some x \<and> tu_agent_thread_id x = i}"
      using ids t by (auto simp: turns bt_get_insert intro!: exI [of _ k])
  next
    fix x assume "x \<in> {x. \<exists>k. bt_get (tb_turns tb') k = Some x \<and> tu_agent_thread_id x = i}"
    then obtain k where k: "bt_get (tb_turns tb') k = Some x" "tu_agent_thread_id x = i" by blast
    show "x \<in> set (map ?f (turns_of tb i))"
    proof (cases "k = tu_id t")
      case True
      then have "x = ?f u" using k ids [OF u(1)] by (simp add: turns bt_get_insert)
      moreover have "u \<in> set (turns_of tb i)" using u by (auto simp: set_turns_of [OF inv])
      ultimately show ?thesis by auto
    next
      case False
      then have "bt_get (tb_turns tb) k = Some x" using k by (simp add: turns bt_get_insert)
      then have "x = ?f x" "x \<in> set (turns_of tb i)" using False ids k(2) by (auto simp: set_turns_of [OF inv])
      then show ?thesis by auto
    qed
  qed
  have "tu_sequence (?f x) = tu_sequence x" if "x \<in> set (turns_of tb i)" for x
  proof -
    from that obtain k where "bt_get (tb_turns tb) k = Some x" by (auto simp: set_turns_of [OF inv])
    then show ?thesis using ids u t by auto
  qed
  then have "map tu_sequence (map ?f (turns_of tb i)) = map tu_sequence (turns_of tb i)" by simp
  then show "sorted_wrt (<) (map tu_sequence (map ?f (turns_of tb i)))" using turns_ok_sorted [OF ok] by (simp only:)
qed


subsection \<open>Inserted and changed rows\<close>

lemma tables_invD:
  assumes "tables_inv tb"
  shows "keys_ok tb" "threads_ok tb" "turns_ok tb i"
    "bt_get (tb_turns tb) k = Some t \<Longrightarrow>
       \<exists>th. bt_get (tb_threads tb) (tu_agent_thread_id t) = Some th \<and> th_session_id th = tu_session_id t"
  using assms by (simp_all add: tables_inv_def)

lemma turns_of_cong: "tb_turns tb' = tb_turns tb \<Longrightarrow> turns_of tb' = turns_of tb"
  by (simp add: turns_of_def fun_eq_iff)

lemma turns_ok_cong: "tb_turns tb' = tb_turns tb \<Longrightarrow> turns_ok tb' i \<longleftrightarrow> turns_ok tb i"
  using turns_of_cong [of tb' tb] by (simp only: turns_ok_def)

lemma threads_okD:
  assumes "threads_ok tb"
  shows "bt_get (tb_sessions tb) i = Some s \<Longrightarrow> sp_max_depth (se_policy s) < 65535"
    "bt_get (tb_sessions tb) i = Some s
      \<Longrightarrow> count_values (\<lambda>t. th_session_id t = i) (tb_threads tb) \<le> sp_max_agents (se_policy s)"
    "bt_get (tb_threads tb) i = Some t \<Longrightarrow> thread_ok tb t"
    "bt_get (tb_threads tb) i = Some t
      \<Longrightarrow> count_values (\<lambda>c. th_parent c = Some i) (tb_threads tb) \<le> wp_max_direct_children (th_spawn_policy t)"
    "bt_get (tb_threads tb) i = Some t \<Longrightarrow> bt_get (tb_threads tb) j = Some u
      \<Longrightarrow> th_session_id t = th_session_id u \<Longrightarrow> th_path t = th_path u \<Longrightarrow> i = j"
  using assms unfolding threads_ok_def by blast+

text \<open>A thread stays well formed when rows are added and threads keep their place and policy.\<close>

definition same_thread :: "agent_thread \<Rightarrow> agent_thread \<Rightarrow> bool" where
  "same_thread t t' \<longleftrightarrow>
     th_id t' = th_id t \<and> th_session_id t' = th_session_id t \<and> th_parent t' = th_parent t \<and> th_path t' = th_path t
     \<and> th_spawn_policy t' = th_spawn_policy t"

lemma same_thread_refl [simp]: "same_thread t t"
  by (simp add: same_thread_def)

definition tables_grow :: "collab_tables \<Rightarrow> collab_tables \<Rightarrow> bool" where
  "tables_grow tb tb' \<longleftrightarrow>
     (\<forall>i s. bt_get (tb_sessions tb) i = Some s \<longrightarrow> bt_get (tb_sessions tb') i = Some s)
     \<and> (\<forall>i. bt_contains (tb_snapshots tb) i \<longrightarrow> bt_contains (tb_snapshots tb') i)
     \<and> (\<forall>i t. bt_get (tb_threads tb) i = Some t \<longrightarrow> (\<exists>t'. bt_get (tb_threads tb') i = Some t' \<and> same_thread t t'))"

lemma thread_ok_grows:
  assumes ok: "thread_ok tb t" and grow: "tables_grow tb tb'" and same: "same_thread t t'"
    and snapshot: "bt_contains (tb_snapshots tb') (th_runtime_snapshot_id t')"
  shows "thread_ok tb' t'"
proof -
  from ok obtain s ns where s: "bt_get (tb_sessions tb) (th_session_id t) = Some s" "task_names ns" "th_path t = path_of ns"
    "length ns \<le> sp_max_depth (se_policy s)" "wp_max_depth (th_spawn_policy t) \<le> sp_max_depth (se_policy s)"
    and parent: "case th_parent t of None \<Rightarrow> ns = [] | Some q \<Rightarrow>
               (\<exists>parent ms n. bt_get (tb_threads tb) q = Some parent \<and> th_session_id parent = th_session_id t
                  \<and> task_names ms \<and> th_path parent = path_of ms \<and> ns = ms @ [n]
                  \<and> wp_allow_child_spawns (th_spawn_policy parent)
                  \<and> spawn_attenuates (th_spawn_policy t) (th_spawn_policy parent)
                  \<and> length ns \<le> wp_max_depth (th_spawn_policy parent))"
    unfolding thread_ok_def by blast
  have "case th_parent t' of None \<Rightarrow> ns = [] | Some q \<Rightarrow>
               (\<exists>parent ms n. bt_get (tb_threads tb') q = Some parent \<and> th_session_id parent = th_session_id t'
                  \<and> task_names ms \<and> th_path parent = path_of ms \<and> ns = ms @ [n]
                  \<and> wp_allow_child_spawns (th_spawn_policy parent)
                  \<and> spawn_attenuates (th_spawn_policy t') (th_spawn_policy parent)
                  \<and> length ns \<le> wp_max_depth (th_spawn_policy parent))"
  proof (cases "th_parent t")
    case None
    then show ?thesis using parent same by (simp add: same_thread_def)
  next
    case (Some q)
    with parent obtain p ms n where p: "bt_get (tb_threads tb) q = Some p" "th_session_id p = th_session_id t"
      "task_names ms" "th_path p = path_of ms" "ns = ms @ [n]" "wp_allow_child_spawns (th_spawn_policy p)"
      "spawn_attenuates (th_spawn_policy t) (th_spawn_policy p)" "length ns \<le> wp_max_depth (th_spawn_policy p)"
      by auto
    from grow p(1) obtain p' where "bt_get (tb_threads tb') q = Some p'" "same_thread p p'"
      unfolding tables_grow_def by blast
    with p Some same show ?thesis by (auto simp: same_thread_def)
  qed
  moreover have "bt_get (tb_sessions tb') (th_session_id t') = Some s"
    using grow s(1) same by (simp add: tables_grow_def same_thread_def)
  ultimately show ?thesis
    using s same snapshot unfolding thread_ok_def same_thread_def by (intro exI [of _ s] exI [of _ ns]) simp
qed

lemma thread_ok_snapshot: "thread_ok tb t \<Longrightarrow> bt_contains (tb_snapshots tb) (th_runtime_snapshot_id t)"
  by (auto simp: thread_ok_def)

lemma thread_ok_grow: "thread_ok tb t \<Longrightarrow> tables_grow tb tb' \<Longrightarrow> thread_ok tb' t"
  using thread_ok_snapshot [of tb t] by (intro thread_ok_grows [of tb t tb' t]) (auto simp: tables_grow_def)

lemma bt_contains_insert [simp]: "bt_contains (bt_insert k v m) i \<longleftrightarrow> i = k \<or> bt_contains m i"
  by (simp add: bt_contains_def bt_get_insert)

lemma insert_snapshot_inv:
  assumes "insert_snapshot_row s tb = Inr tb'" "tables_inv tb"
  shows "tables_inv tb'" "tb_sessions tb' = tb_sessions tb" "tb_threads tb' = tb_threads tb" "tb_turns tb' = tb_turns tb"
    "tables_grow tb tb'" "bt_contains (tb_snapshots tb') (sr_id s)"
proof -
  have tb': "tb' = tb\<lparr>tb_snapshots := bt_insert (sr_id s) s (tb_snapshots tb)\<rparr>"
    using assms(1) by (auto simp: insert_snapshot_row_def)
  show same: "tb_sessions tb' = tb_sessions tb" "tb_threads tb' = tb_threads tb" "tb_turns tb' = tb_turns tb"
    by (simp_all add: tb')
  show grow: "tables_grow tb tb'" by (auto simp: tb' tables_grow_def)
  show "bt_contains (tb_snapshots tb') (sr_id s)" by (simp add: tb')
  have "keys_ok tb'" using tables_invD(1) [OF assms(2)] by (simp add: keys_ok_def tb' bt_inv_insert)
  moreover have "threads_ok tb'"
    using tables_invD(2) [OF assms(2)] thread_ok_grow [OF _ grow] unfolding threads_ok_def same by blast
  ultimately show "tables_inv tb'"
    using assms(2) by (simp add: tables_inv_def turns_ok_cong [OF same(3)] same)
qed

lemma insert_session_inv:
  assumes "insert_session_row cv s tb = Inr tb'" "tables_inv tb"
    and "sp_max_depth (se_policy s) < 65535"
  shows "tables_inv tb'" "tb_threads tb' = tb_threads tb" "tb_turns tb' = tb_turns tb" "tb_snapshots tb' = tb_snapshots tb"
    "tables_grow tb tb'" "bt_get (tb_sessions tb') (se_id s) = Some s"
    "count_values (\<lambda>t. th_session_id t = se_id s) (tb_threads tb') = 0"
proof -
  have tb': "tb' = tb\<lparr>tb_sessions := bt_insert (se_id s) s (tb_sessions tb)\<rparr>" and fresh: "bt_get (tb_sessions tb) (se_id s) = None"
    using assms(1) by (auto simp: insert_session_row_def bt_contains_def)
  show same: "tb_threads tb' = tb_threads tb" "tb_turns tb' = tb_turns tb" "tb_snapshots tb' = tb_snapshots tb"
    by (simp_all add: tb')
  show grow: "tables_grow tb tb'" using fresh by (auto simp: tb' tables_grow_def bt_get_insert)
  show "bt_get (tb_sessions tb') (se_id s) = Some s" by (simp add: tb' bt_get_insert)
  have keys: "keys_ok tb" by (rule tables_invD(1) [OF assms(2)])
  have threads: "threads_ok tb" by (rule tables_invD(2) [OF assms(2)])
  have "th_session_id t \<noteq> se_id s" if "bt_get (tb_threads tb) i = Some t" for i t
    using threads that fresh unfolding threads_ok_def thread_ok_def by (metis option.distinct(1))
  then show none: "count_values (\<lambda>t. th_session_id t = se_id s) (tb_threads tb') = 0"
    using keys by (intro count_values_none) (auto simp: same keys_ok_def)
  have "keys_ok tb'" using keys by (simp add: keys_ok_def tb' bt_inv_insert bt_get_insert)
  moreover have "threads_ok tb'"
    unfolding threads_ok_def
  proof (intro conjI)
    show "\<forall>i r. bt_get (tb_sessions tb') i = Some r \<longrightarrow> sp_max_depth (se_policy r) < 65535
        \<and> count_values (\<lambda>t. th_session_id t = i) (tb_threads tb') \<le> sp_max_agents (se_policy r)"
      using threads_okD(1,2) [OF threads] none assms(3) by (simp add: tb' bt_get_insert)
    show "\<forall>i t. bt_get (tb_threads tb') i = Some t \<longrightarrow> thread_ok tb' t
        \<and> count_values (\<lambda>c. th_parent c = Some i) (tb_threads tb') \<le> wp_max_direct_children (th_spawn_policy t)"
      using threads_okD(3,4) [OF threads] thread_ok_grow [OF _ grow] by (simp add: same)
    show "\<forall>i j t u. bt_get (tb_threads tb') i = Some t \<and> bt_get (tb_threads tb') j = Some u
          \<and> th_session_id t = th_session_id u \<and> th_path t = th_path u \<longrightarrow> i = j"
      using threads_okD(5) [OF threads] unfolding same by blast
  qed
  ultimately show "tables_inv tb'"
    using assms(2) by (simp add: tables_inv_def turns_ok_cong [OF same(2)] same)
qed

lemma insert_thread_inv:
  assumes insert: "insert_thread_row t tb = Inr tb'" and inv: "tables_inv tb" and ok: "thread_ok tb t"
    and session: "bt_get (tb_sessions tb) (th_session_id t) = Some s"
      "count_values (\<lambda>u. th_session_id u = th_session_id t) (tb_threads tb) < sp_max_agents (se_policy s)"
    and parent: "\<forall>q p. th_parent t = Some q \<longrightarrow> bt_get (tb_threads tb) q = Some p
      \<longrightarrow> count_values (\<lambda>c. th_parent c = Some q) (tb_threads tb) < wp_max_direct_children (th_spawn_policy p)"
  shows "tables_inv tb'" "tb_sessions tb' = tb_sessions tb" "tb_turns tb' = tb_turns tb" "tb_snapshots tb' = tb_snapshots tb"
    "tables_grow tb tb'" "bt_get (tb_threads tb') i = (if i = th_id t then Some t else bt_get (tb_threads tb) i)"
    "bt_get (tb_threads tb) (th_id t) = None"
proof -
  have tb': "tb' = tb\<lparr>tb_threads := bt_insert (th_id t) t (tb_threads tb)\<rparr>"
    and fresh: "bt_get (tb_threads tb) (th_id t) = None"
    and unique: "list_all (\<lambda>r. \<not> (th_session_id r = th_session_id t \<and> th_path r = th_path t)) (map snd (tb_threads tb))"
    using insert by (auto simp: insert_thread_row_def bt_contains_def)
  show "bt_get (tb_threads tb) (th_id t) = None" by (rule fresh)
  show same: "tb_sessions tb' = tb_sessions tb" "tb_turns tb' = tb_turns tb" "tb_snapshots tb' = tb_snapshots tb"
    by (simp_all add: tb')
  show get: "bt_get (tb_threads tb') i = (if i = th_id t then Some t else bt_get (tb_threads tb) i)" for i
    by (simp add: tb' bt_get_insert)
  show grow: "tables_grow tb tb'" using fresh by (auto simp: tables_grow_def get same)
  have keys: "keys_ok tb" and threads: "threads_ok tb" by (rule tables_invD(1,2) [OF inv])+
  have new_path: "\<not> (th_session_id u = th_session_id t \<and> th_path u = th_path t)" if "bt_get (tb_threads tb) i = Some u" for i u
    using unique bt_get_in_set [OF that] by (force simp: list_all_iff)
  have no_child: "th_parent u \<noteq> Some (th_id t)" if "bt_get (tb_threads tb) i = Some u" for i u
  proof
    assume "th_parent u = Some (th_id t)"
    moreover have "thread_ok tb u" by (rule threads_okD(3) [OF threads that])
    ultimately show False using fresh unfolding thread_ok_def by auto
  qed
  have "keys_ok tb'" using keys by (simp add: keys_ok_def tb' bt_inv_insert bt_get_insert)
  moreover have "threads_ok tb'"
    unfolding threads_ok_def
  proof (intro conjI allI impI)
    fix i r assume r: "bt_get (tb_sessions tb') i = Some r"
    then show "sp_max_depth (se_policy r) < 65535" using threads_okD(1) [OF threads] by (simp add: same)
    show "count_values (\<lambda>u. th_session_id u = i) (tb_threads tb') \<le> sp_max_agents (se_policy r)"
      using threads_okD(2) [OF threads, of i r] r session by (auto simp: tb' count_values_fresh [OF fresh])
  next
    fix i u assume u: "bt_get (tb_threads tb') i = Some u"
    show "thread_ok tb' u"
      using u threads_okD(3) [OF threads, of i u] ok thread_ok_grow [OF _ grow] by (auto simp: get split: if_splits)
    show "count_values (\<lambda>c. th_parent c = Some i) (tb_threads tb') \<le> wp_max_direct_children (th_spawn_policy u)"
    proof (cases "i = th_id t")
      case True
      have "count_values (\<lambda>c. th_parent c = Some i) (tb_threads tb) = 0"
        using keys no_child True by (intro count_values_none) (auto simp: keys_ok_def)
      moreover have "th_parent t \<noteq> Some i"
        using ok fresh True unfolding thread_ok_def by (auto split: option.splits)
      ultimately show ?thesis by (simp add: tb' count_values_fresh [OF fresh])
    next
      case False
      with u have "bt_get (tb_threads tb) i = Some u" by (simp add: get)
      then show ?thesis
        using threads_okD(4) [OF threads, of i u] parent by (auto simp: tb' count_values_fresh [OF fresh] Suc_le_eq)
    qed
  next
    fix i j u w assume "bt_get (tb_threads tb') i = Some u \<and> bt_get (tb_threads tb') j = Some w
          \<and> th_session_id u = th_session_id w \<and> th_path u = th_path w"
    then show "i = j"
      using threads_okD(5) [OF threads, of i u j w] new_path [of i u] new_path [of j w] by (auto simp: get split: if_splits)
  qed
  ultimately show "tables_inv tb'"
    using inv fresh unfolding tables_inv_def turns_ok_cong [OF same(2)] same get by (metis option.distinct(1))
qed

lemma update_thread_inv:
  assumes inv: "tables_inv tb" and t: "bt_get (tb_threads tb) (th_id t) = Some u" "same_thread u t"
    "bt_contains (tb_snapshots tb) (th_runtime_snapshot_id t)"
    and tb': "tb' = tb\<lparr>tb_threads := bt_insert (th_id t) t (tb_threads tb)\<rparr>"
  shows "tables_inv tb'" "tables_grow tb tb'"
proof -
  have get: "bt_get (tb_threads tb') i = (if i = th_id t then Some t else bt_get (tb_threads tb) i)" for i
    by (simp add: tb' bt_get_insert)
  have same: "tb_sessions tb' = tb_sessions tb" "tb_turns tb' = tb_turns tb" "tb_snapshots tb' = tb_snapshots tb"
    by (simp_all add: tb')
  show grow: "tables_grow tb tb'" using t by (auto simp: tables_grow_def get same)
  have keys: "keys_ok tb" and threads: "threads_ok tb" by (rule tables_invD(1,2) [OF inv])+
  have old: "\<exists>v. bt_get (tb_threads tb) i = Some v \<and> same_thread v w" if "bt_get (tb_threads tb') i = Some w" for i w
    using that t by (auto simp: get split: if_splits)
  have count: "count_values p (tb_threads tb') = count_values p (tb_threads tb)" if "p t \<longleftrightarrow> p u" for p
    using count_values_present [of "tb_threads tb" "th_id t" u p t] keys t(1) that by (simp add: tb' keys_ok_def)
  have "keys_ok tb'" using keys by (simp add: keys_ok_def tb' bt_inv_insert bt_get_insert)
  moreover have "threads_ok tb'"
    unfolding threads_ok_def
  proof (intro conjI allI impI)
    fix i r assume r: "bt_get (tb_sessions tb') i = Some r"
    then show "sp_max_depth (se_policy r) < 65535" using threads_okD(1) [OF threads] by (simp add: same)
    show "count_values (\<lambda>x. th_session_id x = i) (tb_threads tb') \<le> sp_max_agents (se_policy r)"
      using threads_okD(2) [OF threads, of i r] r t(2) by (simp add: same count same_thread_def)
  next
    fix i w assume w: "bt_get (tb_threads tb') i = Some w"
    from old [OF w] obtain v where v: "bt_get (tb_threads tb) i = Some v" "same_thread v w" by blast
    then have "thread_ok tb v" using threads_okD(3) [OF threads] by blast
    then show "thread_ok tb' w"
      using thread_ok_grows [OF _ grow v(2)] thread_ok_snapshot [of tb v] w v t by (auto simp: get same split: if_splits)
    show "count_values (\<lambda>c. th_parent c = Some i) (tb_threads tb') \<le> wp_max_direct_children (th_spawn_policy w)"
      using threads_okD(4) [OF threads v(1)] v(2) t(2) by (simp add: count same_thread_def)
  next
    fix i j w x assume a: "bt_get (tb_threads tb') i = Some w \<and> bt_get (tb_threads tb') j = Some x
          \<and> th_session_id w = th_session_id x \<and> th_path w = th_path x"
    then obtain v y where v: "bt_get (tb_threads tb) i = Some v" "same_thread v w"
      and y: "bt_get (tb_threads tb) j = Some y" "same_thread y x"
      using old [of i w] old [of j x] by auto
    have "th_session_id v = th_session_id y" "th_path v = th_path y"
      using a v(2) y(2) unfolding same_thread_def by metis+
    then show "i = j" by (rule threads_okD(5) [OF threads v(1) y(1)])
  qed
  moreover have "\<exists>th. bt_get (tb_threads tb') (tu_agent_thread_id x) = Some th \<and> th_session_id th = tu_session_id x"
    if "bt_get (tb_turns tb') k = Some x" for k x
  proof -
    from tables_invD(4) [OF inv, of k x] that obtain th
      where th: "bt_get (tb_threads tb) (tu_agent_thread_id x) = Some th" "th_session_id th = tu_session_id x"
      by (auto simp: same)
    with grow obtain th' where "bt_get (tb_threads tb') (tu_agent_thread_id x) = Some th'" "same_thread th th'"
      unfolding tables_grow_def by blast
    with th show ?thesis by (simp add: same_thread_def)
  qed
  ultimately show "tables_inv tb'"
    using tables_invD(3) [OF inv] by (simp add: tables_inv_def turns_ok_cong [OF same(2)])
qed


lemma write_turn_keys: "keys_ok tb \<Longrightarrow> keys_ok (write_turn t tb)"
  by (simp add: keys_ok_def write_turn_def bt_inv_insert bt_get_insert)

lemma write_turn_tables [simp]:
  "tb_sessions (write_turn t tb) = tb_sessions tb" "tb_threads (write_turn t tb) = tb_threads tb"
  "tb_snapshots (write_turn t tb) = tb_snapshots tb" "tb_turns (write_turn t tb) = bt_insert (tu_id t) t (tb_turns tb)"
  by (simp_all add: write_turn_def)

lemma write_turn_threads_ok: "threads_ok (write_turn t tb) \<longleftrightarrow> threads_ok tb"
  unfolding threads_ok_def thread_ok_def write_turn_tables ..

lemma insert_turn_row_Inr:
  "insert_turn_row t tb = Inr tb' \<Longrightarrow> tb' = write_turn t tb \<and> bt_get (tb_turns tb) (tu_id t) = None"
  by (auto simp: insert_turn_row_def write_turn_def bt_contains_def)

lemma append_turn_inv:
  assumes inv: "tables_inv tb" and fresh: "bt_get (tb_turns tb) (tu_id t) = None"
    and thread: "bt_get (tb_threads tb) (tu_agent_thread_id t) = Some th" "th_session_id th = tu_session_id t"
    and sequence: "tu_sequence t = Suc (length (turns_of tb (tu_agent_thread_id t)))"
    and done_before: "list_all (\<lambda>u. turn_is_terminal (tu_status u)) (turns_of tb (tu_agent_thread_id t))"
  shows "tables_inv (write_turn t tb)"
    "turns_of (write_turn t tb) i = (if i = tu_agent_thread_id t then turns_of tb i @ [t] else turns_of tb i)"
proof -
  let ?i = "tu_agent_thread_id t" and ?tb = "write_turn t tb"
  have keys: "keys_ok tb" and keys': "keys_ok ?tb" using tables_invD(1) [OF inv] write_turn_keys by blast+
  show turns: "turns_of ?tb i = (if i = ?i then turns_of tb i @ [t] else turns_of tb i)" for i
  proof (cases "i = ?i")
    case True
    then show ?thesis
      using turns_of_append [OF keys tables_invD(3) [OF inv] refl fresh sequence _ keys'] by simp
  next
    case False
    then show ?thesis
      using turns_of_other [OF keys keys' tables_invD(3) [OF inv], of t i] fresh by simp
  qed
  have "turns_ok ?tb i" for i
  proof (cases "i = ?i")
    case True
    then show ?thesis
      using tables_invD(3) [OF inv, of ?i] sequence done_before by (simp add: turns_ok_def turns)
  next
    case False
    then show ?thesis using tables_invD(3) [OF inv, of i] by (simp add: turns_ok_def turns)
  qed
  moreover have "\<exists>th. bt_get (tb_threads ?tb) (tu_agent_thread_id u) = Some th \<and> th_session_id th = tu_session_id u"
    if "bt_get (tb_turns ?tb) k = Some u" for k u
    using that thread tables_invD(4) [OF inv, of k u] by (auto simp: bt_get_insert split: if_splits)
  ultimately show "tables_inv ?tb"
    using keys' tables_invD(2) [OF inv] by (simp add: tables_inv_def write_turn_threads_ok)
qed

lemma replace_turn_inv:
  assumes inv: "tables_inv tb" and u: "bt_get (tb_turns tb) (tu_id t) = Some u"
    and same: "tu_agent_thread_id t = tu_agent_thread_id u" "tu_session_id t = tu_session_id u" "tu_sequence t = tu_sequence u"
    and final: "turn_is_terminal (tu_status u) \<longrightarrow> turn_is_terminal (tu_status t)"
  shows "tables_inv (write_turn t tb)"
    "turns_of (write_turn t tb) i = map (\<lambda>x. if tu_id x = tu_id t then t else x) (turns_of tb i)"
proof -
  let ?i = "tu_agent_thread_id t" and ?tb = "write_turn t tb" and ?f = "\<lambda>x. if tu_id x = tu_id t then t else x"
  have keys: "keys_ok tb" and keys': "keys_ok ?tb" using tables_invD(1) [OF inv] write_turn_keys by blast+
  have member: "x \<in> set (turns_of tb i) \<longleftrightarrow> (\<exists>k. bt_get (tb_turns tb) k = Some x \<and> tu_agent_thread_id x = i)" for x i
    using set_turns_of [of tb i] keys by (simp add: keys_ok_def)
  have only: "x = u" if "x \<in> set (turns_of tb i)" "tu_id x = tu_id t" for x i
  proof -
    from that(1) obtain k where "bt_get (tb_turns tb) k = Some x" unfolding member by blast
    with keys that(2) u show ?thesis by (auto simp: keys_ok_def)
  qed
  show turns: "turns_of ?tb i = map ?f (turns_of tb i)" for i
  proof (cases "i = ?i")
    case True
    then show ?thesis
      using turns_of_replace [OF keys keys' tables_invD(3) [OF inv] u, of i] same by simp
  next
    case False
    then have "\<forall>x \<in> set (turns_of tb i). tu_id x \<noteq> tu_id t" using only same(1) member by metis
    then have "map ?f (turns_of tb i) = turns_of tb i" by (simp add: map_idI)
    then show ?thesis
      using False turns_of_other [OF keys keys' tables_invD(3) [OF inv], of t i] u same by simp
  qed
  have "turns_ok ?tb i" for i
  proof -
    have "tu_sequence (?f x) = tu_sequence x" if "x \<in> set (turns_of tb i)" for x
      using only [OF that] same(3) by auto
    then have "map tu_sequence (map ?f (turns_of tb i)) = map tu_sequence (turns_of tb i)" by simp
    moreover have "turn_is_terminal (tu_status (?f x))" if "x \<in> set (butlast (turns_of tb i))" for x
      using only [of x i] in_set_butlastD [OF that] final tables_invD(3) [OF inv, of i] that
      by (auto simp: turns_ok_def list_all_iff)
    ultimately show ?thesis
      using tables_invD(3) [OF inv, of i] unfolding turns_ok_def turns map_butlast [symmetric] list_all_iff length_map
      by (metis (no_types, lifting) imageE list.set_map)
  qed
  moreover have "\<exists>th. bt_get (tb_threads ?tb) (tu_agent_thread_id x) = Some th \<and> th_session_id th = tu_session_id x"
    if "bt_get (tb_turns ?tb) k = Some x" for k x
    using that tables_invD(4) [OF inv u] same tables_invD(4) [OF inv, of k x] by (auto simp: bt_get_insert split: if_splits)
  ultimately show "tables_inv ?tb"
    using keys' tables_invD(2) [OF inv] by (simp add: tables_inv_def write_turn_threads_ok)
qed

section \<open>Every operation keeps the invariant\<close>

lemma turn_transition_Inr:
  assumes "turn_transition next now t = Inr t'"
  shows "tu_id t' = tu_id t" "tu_agent_thread_id t' = tu_agent_thread_id t" "tu_session_id t' = tu_session_id t"
    "tu_sequence t' = tu_sequence t" "tu_status t' = next" "turn_is_terminal (tu_status t) \<longrightarrow> t' = t"
proof -
  show "turn_is_terminal (tu_status t) \<longrightarrow> t' = t"
    using assms
    by (cases "tu_status t") (simp_all add: turn_transition_def can_transition_to_def turn_is_terminal_def split: if_splits)
qed (use assms in \<open>auto simp: turn_transition_def Let_def split: if_splits\<close>)

lemma latest_terminal:
  assumes "tables_inv tb" "\<forall>t. read_latest_turn tb i = Some t \<longrightarrow> turn_is_terminal (tu_status t)"
  shows "list_all (\<lambda>t. turn_is_terminal (tu_status t)) (turns_of tb i)"
proof (cases "turns_of tb i" rule: rev_cases)
  case (snoc ts t)
  then show ?thesis using assms tables_invD(3) [OF assms(1), of i] by (simp add: read_latest_turn_def turns_ok_def)
qed simp

lemma latest_sequence:
  assumes "tables_inv tb"
  shows "(case read_latest_turn tb i of Some t \<Rightarrow> tu_sequence t + 1 | None \<Rightarrow> 1) = Suc (length (turns_of tb i))"
proof (cases "turns_of tb i" rule: rev_cases)
  case (snoc ts t)
  have "map tu_sequence (turns_of tb i) = map Suc [0..<length (turns_of tb i)]"
    using tables_invD(3) [OF assms, of i] by (simp add: turns_ok_def)
  then have "tu_sequence t = Suc (length ts)" by (simp add: snoc)
  then show ?thesis by (simp add: read_latest_turn_def snoc)
qed (simp add: read_latest_turn_def)

lemma read_thread_by_path_Some:
  assumes "read_thread_by_path tb session_id p = Some t" "keys_ok tb"
  shows "bt_get (tb_threads tb) (th_id t) = Some t" "th_session_id t = session_id" "th_path t = p"
proof -
  from find_Some_in [OF assms(1) [unfolded read_thread_by_path_def]]
  have t: "t \<in> set (map snd (tb_threads tb))" "th_session_id t = session_id" "th_path t = p" by simp_all
  then obtain k where "bt_get (tb_threads tb) k = Some t" using bt_rows [of "tb_threads tb" t] assms(2) by (auto simp: keys_ok_def)
  then show "bt_get (tb_threads tb) (th_id t) = Some t" using assms(2) by (auto simp: keys_ok_def)
qed (use find_Some_in [OF assms(1) [unfolded read_thread_by_path_def]] in simp_all)

lemma read_thread_by_path_None:
  assumes "keys_ok tb"
  shows "read_thread_by_path tb session_id p = None
    \<longleftrightarrow> (\<forall>i t. bt_get (tb_threads tb) i = Some t \<longrightarrow> \<not> (th_session_id t = session_id \<and> th_path t = p))"
  using bt_rows [of "tb_threads tb"] assms unfolding read_thread_by_path_def find_None_iff keys_ok_def by blast

lemma transition_turn_inv:
  assumes "sql_transition_turn cv i next tb = Inr (t, tb')" "tables_inv tb"
  shows "tables_inv tb'"
proof -
  from assms(1) obtain u where u: "bt_get (tb_turns tb) i = Some u" "turn_transition next (cv_now cv) u = Inr t"
    and tb': "tb' = write_turn t tb" by (auto simp: sql_transition_turn_def res_Inr_iffs)
  note t = turn_transition_Inr [OF u(2)]
  have "tu_id u = i" using u(1) tables_invD(1) [OF assms(2)] by (simp add: keys_ok_def)
  then show ?thesis unfolding tb' using u(1) t by (intro replace_turn_inv(1) [OF assms(2), of t u]) auto
qed

lemma resume_turn_inv:
  assumes "resume_agent_turn cv i tb = Inr (t, tb')" "tables_inv tb"
  shows "tables_inv tb'"
proof -
  from assms(1) obtain u v where u: "bt_get (tb_turns tb) i = Some u" "turn_transition TurnRunning (cv_now cv) u = Inr v"
    "needs_attention (tu_status u)"
    and tb': "tb' = write_turn (v\<lparr>tu_invocation_id := min (tu_invocation_id v + 1) u64_max, tu_completed_at := None\<rparr>) tb"
    by (auto simp: resume_agent_turn_def res_Inr_iffs Let_def)
  note v = turn_transition_Inr [OF u(2)]
  have "tu_id u = i" using u(1) tables_invD(1) [OF assms(2)] by (simp add: keys_ok_def)
  moreover have "\<not> turn_is_terminal (tu_status u)" using u(3) by (auto simp: needs_attention_def turn_is_terminal_def)
  ultimately show ?thesis unfolding tb' using u(1) v by (intro replace_turn_inv(1) [OF assms(2)]) auto
qed

lemma followup_turn_inv:
  assumes "sql_create_followup_turn cv q tb = Inr (t, tb')" "tables_inv tb"
  shows "tables_inv tb'"
proof -
  from assms(1) obtain target where target: "bt_get (tb_threads tb) (fq_target q) = Some target"
    and latest: "\<forall>u. read_latest_turn tb (th_id target) = Some u \<longrightarrow> turn_is_terminal (tu_status u)"
    and t: "tu_agent_thread_id t = th_id target" "tu_session_id t = th_session_id target"
      "tu_sequence t = (case read_latest_turn tb (th_id target) of Some u \<Rightarrow> tu_sequence u + 1 | None \<Rightarrow> 1)"
    and insert: "insert_turn_row t tb = Inr tb'"
    by (auto simp: sql_create_followup_turn_def res_Inr_iffs Let_def queued_turn_def split: option.splits)
  have "th_id target = fq_target q" using target tables_invD(1) [OF assms(2)] by (simp add: keys_ok_def)
  moreover have "tb' = write_turn t tb" "bt_get (tb_turns tb) (tu_id t) = None" using insert_turn_row_Inr [OF insert] by blast+
  ultimately show ?thesis
    using target t latest_sequence [OF assms(2)] latest_terminal [OF assms(2) latest]
    by (auto intro!: append_turn_inv [OF assms(2), where th = target])
qed


lemma no_turns: "tables_inv tb \<Longrightarrow> bt_get (tb_threads tb) i = None \<Longrightarrow> turns_of tb i = []"
proof -
  assume inv: "tables_inv tb" and none: "bt_get (tb_threads tb) i = None"
  have "bt_inv (tb_turns tb)" using tables_invD(1) [OF inv] by (simp add: keys_ok_def)
  from set_turns_of [OF this, of i] have "set (turns_of tb i) = {}"
    using tables_invD(4) [OF inv] none by (auto dest!: tables_invD(4) [OF inv])
  then show ?thesis by simp
qed

lemma first_turn_inv:
  assumes inv: "tables_inv tb1" and insert: "insert_turn_row t tb1 = Inr tb2"
    and turns: "turns_of tb1 (tu_agent_thread_id t) = []" and sequence: "tu_sequence t = 1"
    and thread: "bt_get (tb_threads tb1) (tu_agent_thread_id t) = Some th" "th_session_id th = tu_session_id t"
  shows "tables_inv tb2"
  using insert_turn_row_Inr [OF insert] append_turn_inv(1) [OF inv _ thread, of ] turns sequence by auto

lemma create_session_inv:
  assumes create: "sql_create_session cv q tb = Inr (r, tb')" and inv: "tables_inv tb"
    and bound: "sp_max_depth (cq_session_policy q) < 65535"
  shows "tables_inv tb'"
proof -
  let ?session = "session_record cv q" and ?root = "root_thread cv q"
    and ?snapshot = "snapshot_record cv (cv_session_id cv) None (cq_root_runtime_snapshot q)"
    and ?turn = "queued_turn (cv_now cv) (cq_root_turn_id q) (cv_session_id cv) (cv_thread_id cv) None 1
                  (trim (cq_root_task_message q))"
  from create obtain tb1 tb2 tb3 where rows: "insert_session_row cv ?session tb = Inr tb1"
      "insert_snapshot_row ?snapshot tb1 = Inr tb2" "insert_thread_row ?root tb2 = Inr tb3" "insert_turn_row ?turn tb3 = Inr tb'"
    and policy: "validate_session_policy (cq_session_policy q) = Inr ()"
      "wp_max_depth (cq_root_spawn_policy q) \<le> sp_max_depth (cq_session_policy q)"
    by (auto simp: sql_create_session_def insert_session_bundle_def res_Inr_iffs Let_def)
  have session: "se_id ?session = cv_session_id cv" "se_policy ?session = cq_session_policy q"
    and root: "th_id ?root = cv_thread_id cv" "th_session_id ?root = cv_session_id cv" "th_parent ?root = None"
      "th_path ?root = path_of []" "th_spawn_policy ?root = cq_root_spawn_policy q"
      "th_runtime_snapshot_id ?root = sr_id ?snapshot"
    by (simp_all add: session_record_def root_thread_def snapshot_record_def path_of_def)
  note inv1 = insert_session_inv [OF rows(1) inv, unfolded session, OF bound]
  note inv2 = insert_snapshot_inv [OF rows(2) inv1(1)]
  have ok: "thread_ok tb2 ?root"
    using inv1(6) inv2(2,6) policy(2) unfolding thread_ok_def root
    by (intro exI [of _ ?session] exI [of _ "[]"]) (simp add: session task_names_def)
  have "0 < sp_max_agents (cq_session_policy q)" using policy(1) by (auto simp: validate_session_policy_def split: if_splits)
  then have inv3: "tables_inv tb3" "tb_turns tb3 = tb_turns tb2" "bt_get (tb_threads tb3) (th_id ?root) = Some ?root"
      "bt_get (tb_threads tb2) (th_id ?root) = None"
    using insert_thread_inv [OF rows(3) inv2(1) ok, of ?session] inv1(6,7) inv2(2,3) by (simp_all add: root session)
  have "turns_of tb3 (cv_thread_id cv) = []"
    using no_turns [OF inv2(1) inv3(4)] turns_of_cong [OF inv3(2)] by (simp add: root)
  then show ?thesis
    using inv3(3) by (intro first_turn_inv [OF inv3(1) rows(4), where th = ?root]) (simp_all add: queued_turn_def root)
qed

lemma spawn_agent_Inr:
  assumes "sql_spawn_agent cv q tb = Inr ((child, turn), tb')"
  obtains parent session p tb1 tb2 where "bt_get (tb_threads tb) (wq_parent q) = Some parent"
    "wp_allow_child_spawns (th_spawn_policy parent)" "spawn_attenuates (wq_spawn_policy q) (th_spawn_policy parent)"
    "bt_get (tb_sessions tb) (th_session_id parent) = Some session"
    "child_path (th_path parent) (trim (wq_task_name q)) = Inr p"
    "path_depth p \<le> sp_max_depth (se_policy session)" "path_depth p \<le> wp_max_depth (th_spawn_policy parent)"
    "count_values (\<lambda>t. th_session_id t = th_session_id parent) (tb_threads tb) < sp_max_agents (se_policy session)"
    "count_values (\<lambda>t. th_parent t = Some (th_id parent)) (tb_threads tb) < wp_max_direct_children (th_spawn_policy parent)"
    "child = child_thread cv q parent p"
    "turn = queued_turn (cv_now cv) (cv_turn_id cv) (th_session_id parent) (th_id child)
        (Some (th_id parent, wq_requested_by_turn q)) 1 (trim (wq_task_message q))"
    "insert_snapshot_row (snapshot_record cv (th_session_id parent) (sd_parent_snapshot_id (wq_runtime_snapshot q))
        (wq_runtime_snapshot q)) tb = Inr tb1"
    "insert_thread_row child tb1 = Inr tb2" "insert_turn_row turn tb2 = Inr tb'"
  using assms by (auto simp: sql_spawn_agent_def res_Inr_iffs Let_def not_less not_le)

lemma spawn_agent_inv:
  assumes spawn: "sql_spawn_agent cv q tb = Inr ((child, turn), tb')" and inv: "tables_inv tb"
  shows "tables_inv tb'"
  using spawn
proof (rule spawn_agent_Inr)
  fix parent session p tb1 tb2
  assume parent: "bt_get (tb_threads tb) (wq_parent q) = Some parent"
    "wp_allow_child_spawns (th_spawn_policy parent)" "spawn_attenuates (wq_spawn_policy q) (th_spawn_policy parent)"
    and session: "bt_get (tb_sessions tb) (th_session_id parent) = Some session"
    and p: "child_path (th_path parent) (trim (wq_task_name q)) = Inr p"
    "path_depth p \<le> sp_max_depth (se_policy session)" "path_depth p \<le> wp_max_depth (th_spawn_policy parent)"
    and limits: "count_values (\<lambda>t. th_session_id t = th_session_id parent) (tb_threads tb) < sp_max_agents (se_policy session)"
    "count_values (\<lambda>t. th_parent t = Some (th_id parent)) (tb_threads tb) < wp_max_direct_children (th_spawn_policy parent)"
    and child: "child = child_thread cv q parent p"
    and turn: "turn = queued_turn (cv_now cv) (cv_turn_id cv) (th_session_id parent) (th_id child)
        (Some (th_id parent, wq_requested_by_turn q)) 1 (trim (wq_task_message q))"
    and rows: "insert_snapshot_row (snapshot_record cv (th_session_id parent) (sd_parent_snapshot_id (wq_runtime_snapshot q))
        (wq_runtime_snapshot q)) tb = Inr tb1" "insert_thread_row child tb1 = Inr tb2" "insert_turn_row turn tb2 = Inr tb'"
  note inv1 = insert_snapshot_inv [OF rows(1) inv]
  have parent_id: "th_id parent = wq_parent q" using parent(1) tables_invD(1) [OF inv] by (simp add: keys_ok_def)
  have parent_ok: "thread_ok tb parent" by (rule threads_okD(3) [OF tables_invD(2) [OF inv] parent(1)])
  then obtain ms where ms: "task_names ms" "th_path parent = path_of ms" "length ms \<le> sp_max_depth (se_policy session)"
    "wp_max_depth (th_spawn_policy parent) \<le> sp_max_depth (se_policy session)"
    using session unfolding thread_ok_def by auto
  let ?n = "trim (wq_task_name q)"
  have n: "valid_task_name ?n" "p = path_of (ms @ [?n])" "task_names (ms @ [?n])"
    using p(1) ms(1) by (auto simp: ms(2) child_path_of task_names_def split: if_splits)
  have "length ms < 65535" using ms(3) threads_okD(1) [OF tables_invD(2) [OF inv] session] by simp
  then have depth: "path_depth p = Suc (length ms)" using path_depth_of [OF n(3)] by (simp add: n(2))
  have child_simps: "th_id child = cv_thread_id cv" "th_session_id child = th_session_id parent"
    "th_parent child = Some (wq_parent q)" "th_path child = p" "th_spawn_policy child = wq_spawn_policy q"
    "th_runtime_snapshot_id child = sd_id (wq_runtime_snapshot q)"
    by (simp_all add: child child_thread_def parent_id)
  have "thread_ok tb1 child"
    unfolding thread_ok_def child_simps
  proof (intro exI [of _ session] exI [of _ "ms @ [?n]"] conjI)
    show "wp_max_depth (wq_spawn_policy q) \<le> sp_max_depth (se_policy session)"
      using parent(3) ms(4) by (simp add: spawn_attenuates_def)
    show "bt_contains (tb_snapshots tb1) (sd_id (wq_runtime_snapshot q))"
      using inv1(6) by (simp add: snapshot_record_def)
  qed (use session inv1 n ms p depth parent in auto)
  then have inv2: "tables_inv tb2" "tb_turns tb2 = tb_turns tb1" "bt_get (tb_threads tb2) (th_id child) = Some child"
      "bt_get (tb_threads tb1) (th_id child) = None"
    using insert_thread_inv [OF rows(2) inv1(1), of session] session limits parent(1) parent_id
    by (simp_all add: inv1 child_simps)
  have "turns_of tb2 (cv_thread_id cv) = []"
    using no_turns [OF inv1(1) inv2(4)] turns_of_cong [OF inv2(2)] by (simp add: child_simps)
  then show ?thesis
    using inv2(3) by (intro first_turn_inv [OF inv2(1) rows(3), where th = child]) (simp_all add: turn queued_turn_def child_simps)
qed

lemma root_followup_inv:
  assumes followup: "create_root_followup_turn cv session_id turn_id message seed tb = Inr ((root, turn), tb')" and inv: "tables_inv tb"
  shows "tables_inv tb'"
proof -
  from followup obtain root0 latest tb1 where root0: "read_thread_by_path tb session_id root_agent_path = Some root0"
    and latest: "read_latest_turn tb (th_id root0) = Some latest" "turn_is_terminal (tu_status latest)"
    and root: "root = root0\<lparr>th_runtime_snapshot_id := sd_id seed\<rparr>"
    and turn: "turn = queued_turn (cv_now cv) turn_id session_id (th_id root0) (Some (th_id root0, tu_id latest))
                   (tu_sequence latest + 1) (trim message)"
    and rows: "insert_snapshot_row (snapshot_record cv session_id (Some (th_runtime_snapshot_id root0)) seed) tb = Inr tb1"
      "insert_turn_row turn (tb1\<lparr>tb_threads := bt_insert (th_id root0) root (tb_threads tb1)\<rparr>) = Inr tb'"
    by (auto simp: create_root_followup_turn_def res_Inr_iffs Let_def snapshot_record_def)
  note stored = read_thread_by_path_Some [OF root0 tables_invD(1) [OF inv]]
  note inv1 = insert_snapshot_inv [OF rows(1) inv]
  let ?tb = "tb1\<lparr>tb_threads := bt_insert (th_id root0) root (tb_threads tb1)\<rparr>"
  have same: "same_thread root0 root" "th_id root = th_id root0" by (simp_all add: root same_thread_def)
  have inv2: "tables_inv ?tb"
    using update_thread_inv(1) [OF inv1(1), of root root0 ?tb] stored same inv1(3,6)
    by (simp add: root snapshot_record_def)
  have turns: "turns_of ?tb (th_id root0) = turns_of tb (th_id root0)"
    using inv1(4) by (simp add: turns_of_def)
  have latest': "list_all (\<lambda>t. turn_is_terminal (tu_status t)) (turns_of tb (th_id root0))"
    using latest_terminal [OF inv] latest by simp
  have t: "tu_agent_thread_id turn = th_id root0" "tu_session_id turn = session_id"
    "tu_sequence turn = Suc (length (turns_of tb (th_id root0)))"
    using latest_sequence [OF inv, of "th_id root0"] latest(1) by (simp_all add: turn queued_turn_def)
  have row: "tb' = write_turn turn ?tb" "bt_get (tb_turns ?tb) (tu_id turn) = None"
    using insert_turn_row_Inr [OF rows(2)] by blast+
  show ?thesis
    unfolding row(1)
    by (rule append_turn_inv(1) [OF inv2 row(2), where th = root])
       (use stored same t turns latest' in \<open>simp_all add: bt_get_insert same_thread_def\<close>)
qed

lemma record_turn_Inr:
  assumes "record_turn_row cv k i next tb = Inr (t, tb')"
  obtains u v where "bt_get (tb_turns tb) i = Some u" "turn_transition next (cv_now cv) u = Inr v"
    "t = v\<lparr>tu_outcome_ref := Some (case tu_outcome_ref v of Some x \<Rightarrow> x | None \<Rightarrow> k)\<rparr>" "tb' = write_turn t tb"
  using assms by (auto simp: record_turn_row_def res_Inr_iffs Let_def turn_transition_def split: if_splits)

lemma record_turn_inv:
  assumes "record_turn_row cv k i next tb = Inr (t, tb')" "tables_inv tb"
  shows "tables_inv tb'"
  using assms(1)
proof (rule record_turn_Inr)
  fix u v
  assume u: "bt_get (tb_turns tb) i = Some u" "turn_transition next (cv_now cv) u = Inr v"
    and t: "t = v\<lparr>tu_outcome_ref := Some (case tu_outcome_ref v of Some x \<Rightarrow> x | None \<Rightarrow> k)\<rparr>" "tb' = write_turn t tb"
  note v = turn_transition_Inr [OF u(2)]
  have "tu_id u = i" using u(1) tables_invD(1) [OF assms(2)] by (simp add: keys_ok_def)
  then show ?thesis unfolding t(2) using u(1) v by (intro replace_turn_inv(1) [OF assms(2), of t u]) (auto simp: t(1))
qed

section \<open>Reachable tables\<close>

inductive collab_step :: "collab_tables \<Rightarrow> collab_tables \<Rightarrow> bool" where
  create: "sql_create_session cv q tb = Inr (r, tb') \<Longrightarrow> sp_max_depth (cq_session_policy q) < 65535 \<Longrightarrow> collab_step tb tb'"
| spawn: "sql_spawn_agent cv w tb = Inr ((child, t), tb') \<Longrightarrow> collab_step tb tb'"
| followup: "sql_create_followup_turn cv f tb = Inr (t, tb') \<Longrightarrow> collab_step tb tb'"
| root_followup: "create_root_followup_turn cv session_id i message seed tb = Inr ((root, t), tb') \<Longrightarrow> collab_step tb tb'"
| transition: "sql_transition_turn cv i next tb = Inr (t, tb') \<Longrightarrow> collab_step tb tb'"
| resume: "resume_agent_turn cv i tb = Inr (t, tb') \<Longrightarrow> collab_step tb tb'"
| outcome: "record_turn_row cv k i next tb = Inr (t, tb') \<Longrightarrow> collab_step tb tb'"

definition empty_tables :: collab_tables where
  "empty_tables = \<lparr>tb_sessions = [], tb_threads = [], tb_turns = [], tb_snapshots = []\<rparr>"

lemma collab_step_inv: "collab_step tb tb' \<Longrightarrow> tables_inv tb \<Longrightarrow> tables_inv tb'"
  by (induction rule: collab_step.induct)
     (auto intro: create_session_inv spawn_agent_inv followup_turn_inv root_followup_inv transition_turn_inv resume_turn_inv
      record_turn_inv)

lemma empty_tables_inv: "tables_inv empty_tables"
  by (simp add: tables_inv_def empty_tables_def keys_ok_def threads_ok_def turns_ok_def turns_of_def bt.inv_empty)

lemma collab_steps_inv: "collab_step\<^sup>*\<^sup>* tb tb' \<Longrightarrow> tables_inv tb \<Longrightarrow> tables_inv tb'"
  by (induction rule: rtranclp_induct) (auto intro: collab_step_inv)


section \<open>Properties of reachable tables\<close>

lemma thread_ok_unfold:
  assumes ok: "thread_ok tb t" and bound: "\<forall>s. bt_get (tb_sessions tb) (th_session_id t) = Some s \<longrightarrow> sp_max_depth (se_policy s) < 65535"
  shows "\<exists>s. bt_get (tb_sessions tb) (th_session_id t) = Some s \<and> path_depth (th_path t) \<le> sp_max_depth (se_policy s)"
    "case th_parent t of
              None \<Rightarrow> th_path t = root_agent_path
            | Some q \<Rightarrow> \<exists>p. bt_get (tb_threads tb) q = Some p \<and> th_session_id p = th_session_id t
                \<and> parent_path (th_path t) = Some (th_path p)
                \<and> wp_allow_child_spawns (th_spawn_policy p) \<and> spawn_attenuates (th_spawn_policy t) (th_spawn_policy p)"
proof -
  from ok obtain s ns where s: "bt_get (tb_sessions tb) (th_session_id t) = Some s" "task_names ns" "th_path t = path_of ns"
    "length ns \<le> sp_max_depth (se_policy s)"
    and parent: "case th_parent t of None \<Rightarrow> ns = [] | Some q \<Rightarrow>
               (\<exists>parent ms n. bt_get (tb_threads tb) q = Some parent \<and> th_session_id parent = th_session_id t
                  \<and> task_names ms \<and> th_path parent = path_of ms \<and> ns = ms @ [n]
                  \<and> wp_allow_child_spawns (th_spawn_policy parent)
                  \<and> spawn_attenuates (th_spawn_policy t) (th_spawn_policy parent)
                  \<and> length ns \<le> wp_max_depth (th_spawn_policy parent))"
    unfolding thread_ok_def by blast
  have "path_depth (th_path t) \<le> sp_max_depth (se_policy s)"
    using path_depth_of [OF s(2)] s bound by simp
  then show "\<exists>s. bt_get (tb_sessions tb) (th_session_id t) = Some s \<and> path_depth (th_path t) \<le> sp_max_depth (se_policy s)"
    using s(1) by blast
  show "case th_parent t of
              None \<Rightarrow> th_path t = root_agent_path
            | Some q \<Rightarrow> \<exists>p. bt_get (tb_threads tb) q = Some p \<and> th_session_id p = th_session_id t
                \<and> parent_path (th_path t) = Some (th_path p)
                \<and> wp_allow_child_spawns (th_spawn_policy p) \<and> spawn_attenuates (th_spawn_policy t) (th_spawn_policy p)"
  proof (cases "th_parent t")
    case None
    then show ?thesis using parent s(3) by (simp add: path_of_def)
  next
    case (Some q)
    then show ?thesis using parent s(2,3) parent_path_of by (fastforce simp: butlast_append)
  qed
qed

text \<open>A finished turn is never written differently, except that it may get the outcome it has not yet.\<close>

definition same_final_turn :: "agent_turn \<Rightarrow> agent_turn \<Rightarrow> bool" where
  "same_final_turn t t' \<longleftrightarrow>
     t'\<lparr>tu_outcome_ref := tu_outcome_ref t\<rparr> = t \<and> (tu_outcome_ref t \<noteq> None \<longrightarrow> tu_outcome_ref t' = tu_outcome_ref t)"

lemma same_final_turn_refl [simp]: "same_final_turn t t"
  by (simp add: same_final_turn_def)

lemma same_final_turn_trans: "same_final_turn t u \<Longrightarrow> same_final_turn u w \<Longrightarrow> same_final_turn t w"
  unfolding same_final_turn_def by (cases t; cases u; cases w) auto

lemma same_final_turn_status: "same_final_turn t t' \<Longrightarrow> tu_status t' = tu_status t"
  unfolding same_final_turn_def by (metis agent_turn.select_convs(8) agent_turn.surjective agent_turn.update_convs(10))

lemma collab_step_final:
  assumes "collab_step tb tb'" "tables_inv tb" "bt_get (tb_turns tb) k = Some t" "turn_is_terminal (tu_status t)"
  shows "\<exists>t'. bt_get (tb_turns tb') k = Some t' \<and> same_final_turn t t'"
  using assms
proof (induction rule: collab_step.induct)
  case (create cv q tb r tb')
  then show ?case
    by (auto simp: sql_create_session_def insert_session_bundle_def res_Inr_iffs Let_def insert_session_row_def
        insert_snapshot_row_def insert_thread_row_def insert_turn_row_def bt_get_insert bt_contains_def)
next
  case (spawn cv w tb child u tb')
  then show ?case
    by (auto elim!: spawn_agent_Inr simp: insert_snapshot_row_def insert_thread_row_def insert_turn_row_def bt_get_insert
        bt_contains_def)
next
  case (followup cv f tb u tb')
  then show ?case
    by (auto simp: sql_create_followup_turn_def res_Inr_iffs Let_def insert_turn_row_def bt_get_insert bt_contains_def)
next
  case (root_followup cv session_id i message seed tb root u tb')
  then show ?case
    by (auto simp: create_root_followup_turn_def res_Inr_iffs Let_def insert_snapshot_row_def insert_turn_row_def
        bt_get_insert bt_contains_def)
next
  case (transition cv i s tb u tb')
  then obtain v where v: "bt_get (tb_turns tb) i = Some v" "turn_transition s (cv_now cv) v = Inr u" "tb' = write_turn u tb"
    by (auto simp: sql_transition_turn_def res_Inr_iffs)
  then show ?case
    using transition(3,4) turn_transition_Inr(1,6) [OF v(2)] tables_invD(1) [OF transition(2)]
    by (cases "k = i") (simp_all add: keys_ok_def bt_get_insert)
next
  case (resume cv i tb u tb')
  then obtain v w where v: "bt_get (tb_turns tb) i = Some v" "needs_attention (tu_status v)"
      "turn_transition TurnRunning (cv_now cv) v = Inr w"
      "tb' = write_turn (w\<lparr>tu_invocation_id := min (tu_invocation_id w + 1) u64_max, tu_completed_at := None\<rparr>) tb"
    by (auto simp: resume_agent_turn_def res_Inr_iffs Let_def)
  then show ?case
    using resume(3,4) turn_transition_Inr(1) [OF v(3)] tables_invD(1) [OF resume(2)]
    by (cases "k = i") (auto simp: keys_ok_def bt_get_insert needs_attention_def turn_is_terminal_def)
next
  case (outcome cv n i s tb u tb')
  from outcome(1) obtain v w where v: "bt_get (tb_turns tb) i = Some v" "turn_transition s (cv_now cv) v = Inr w"
      "u = w\<lparr>tu_outcome_ref := Some (case tu_outcome_ref w of Some x \<Rightarrow> x | None \<Rightarrow> n)\<rparr>" "tb' = write_turn u tb"
    by (rule record_turn_Inr)
  then show ?case
    using outcome(3,4) turn_transition_Inr(1,6) [OF v(2)] tables_invD(1) [OF outcome(2)]
    by (cases "k = i") (auto simp: keys_ok_def bt_get_insert same_final_turn_def)
qed

lemma collab_steps_final:
  assumes "collab_step\<^sup>*\<^sup>* tb tb'" "tables_inv tb" "bt_get (tb_turns tb) k = Some t" "turn_is_terminal (tu_status t)"
  shows "\<exists>t'. bt_get (tb_turns tb') k = Some t' \<and> same_final_turn t t'"
  using assms
proof (induction rule: rtranclp_induct)
  case (step tb1 tb2)
  then obtain u where u: "bt_get (tb_turns tb1) k = Some u" "same_final_turn t u" by blast
  have "tables_inv tb1" by (rule collab_steps_inv [OF step.hyps(1) step.prems(1)])
  from collab_step_final [OF step.hyps(2) this u(1)] same_final_turn_status [OF u(2)] step.prems(3)
  show ?case using same_final_turn_trans [OF u(2)] by auto
qed auto

text \<open>A session with a root that may have two children, and one child spawned.\<close>

definition example_seed :: "uuid \<Rightarrow> uuid option \<Rightarrow> snapshot_seed" where
  "example_seed i parent_id = \<lparr>sd_id = i, sd_parent_snapshot_id = parent_id, sd_content_hash = ''h'', sd_snapshot = JNull\<rparr>"

definition registry_example_env :: "uuid \<Rightarrow> uuid \<Rightarrow> uuid \<Rightarrow> collab_env" where
  "registry_example_env s t u =
     \<lparr>cv_now = 7, cv_session_id = s, cv_thread_id = t, cv_turn_id = u, cv_hash = (\<lambda>_. ''h''), cv_decode = (\<lambda>_. None),
      cv_user_task = (\<lambda>_. True)\<rparr>"

definition example_create :: create_session_request where
  "example_create =
     \<lparr>cq_user_task_id = ''task'', cq_root_turn_id = ''turn1'', cq_root_task_message = ''plan'', cq_root_agent_type = ''lead'',
      cq_root_runtime_snapshot = example_seed ''snap1'' None,
      cq_session_policy = \<lparr>sp_max_agents = 3, sp_max_active_runs = 1, sp_max_depth = 1\<rparr>,
      cq_root_spawn_policy = allows_children 1 2\<rparr>"

definition example_spawn :: spawn_request where
  "example_spawn =
     \<lparr>wq_parent = ''root1'', wq_requested_by_turn = ''turn1'', wq_task_name = ''read'', wq_agent_type = ''reader'',
      wq_task_message = ''read it'', wq_runtime_snapshot = example_seed ''snap2'' (Some ''snap1''),
      wq_spawn_policy = spawn_disabled 1\<rparr>"

definition example_record :: "uuid \<Rightarrow> uuid option \<Rightarrow> runtime_snapshot_record" where
  "example_record i parent_id =
     \<lparr>sr_id = i, sr_session_id = ''s'', sr_parent_snapshot_id = parent_id, sr_content_hash = ''h'', sr_snapshot = JNull, sr_created_at = 7\<rparr>"

definition example_thread :: "uuid \<Rightarrow> uuid option \<Rightarrow> string \<Rightarrow> string \<Rightarrow> string \<Rightarrow> uuid \<Rightarrow> spawn_policy \<Rightarrow> agent_thread" where
  "example_thread i parent_id p n a snap wp =
     \<lparr>th_id = i, th_session_id = ''s'', th_parent = parent_id, th_path = p, th_task_name = n, th_agent_type = a,
      th_runtime_snapshot_id = snap, th_spawn_policy = wp, th_created_at = 7, th_archived_at = None\<rparr>"

definition created_tables :: collab_tables where
  "created_tables =
     \<lparr>tb_sessions = [(''s'', session_record (registry_example_env ''s'' ''root1'' ''u'') example_create)],
      tb_threads = [(''root1'', example_thread ''root1'' None ''/root'' ''root'' ''lead'' ''snap1'' (allows_children 1 2))],
      tb_turns = [(''turn1'', queued_turn 7 ''turn1'' ''s'' ''root1'' None 1 ''plan'')],
      tb_snapshots = [(''snap1'', example_record ''snap1'' None)]\<rparr>"

definition spawned_tables :: collab_tables where
  "spawned_tables =
     \<lparr>tb_sessions = tb_sessions created_tables,
      tb_threads = [(''child1'', example_thread ''child1'' (Some ''root1'') ''/root/read'' ''read'' ''reader'' ''snap2'' (spawn_disabled 1)),
        (''root1'', example_thread ''root1'' None ''/root'' ''root'' ''lead'' ''snap1'' (allows_children 1 2))],
      tb_turns = [(''turn1'', queued_turn 7 ''turn1'' ''s'' ''root1'' None 1 ''plan''),
        (''turn2'', queued_turn 7 ''turn2'' ''s'' ''child1'' (Some (''root1'', ''turn1'')) 1 ''read it'')],
      tb_snapshots = [(''snap1'', example_record ''snap1'' None), (''snap2'', example_record ''snap2'' (Some ''snap1''))]\<rparr>"

lemma example_texts:
  "trim ''plan'' = ''plan''" "trim ''lead'' = ''lead''" "trim ''read'' = ''read''" "trim ''reader'' = ''reader''"
  "trim ''read it'' = ''read it''" "valid_task_name ''read''"
  by code_simp+

lemma example_paths:
  "validate_task_name ''read'' = Inr ()" "child_path ''/root'' ''read'' = Inr ''/root/read''"
  "path_depth ''/root/read'' = 1" "root_agent_path = ''/root''"
proof -
  have p: "path_of [] = ''/root''" "path_of [''read''] = ''/root/read''" "task_names []" "task_names [''read'']"
    using example_texts(6) by (simp_all add: path_of_def root_agent_path_def task_names_def)
  show "validate_task_name ''read'' = Inr ()" "root_agent_path = ''/root''"
    using example_texts(6) by (simp_all add: validate_task_name_def root_agent_path_def)
  show "child_path ''/root'' ''read'' = Inr ''/root/read''" "path_depth ''/root/read'' = 1"
    using child_path_of [OF p(3), of "''read''"] path_depth_of [OF p(4)] example_texts(6) by (simp_all add: p)
qed

lemmas example_rows =
  insert_session_row_def insert_snapshot_row_def insert_thread_row_def insert_turn_row_def constraint_def reference_def
  res_ensure_def bt_contains_def Let_def

lemmas example_records =
  registry_example_env_def example_create_def example_spawn_def example_seed_def example_record_def example_thread_def
  snapshot_record_def root_thread_def session_record_def child_thread_def queued_turn_def allows_children_def spawn_disabled_def

lemma example_created:
  "\<exists>r. sql_create_session (registry_example_env ''s'' ''root1'' ''u'') example_create empty_tables = Inr (r, created_tables)"
  by (simp add: sql_create_session_def insert_session_bundle_def validate_session_policy_def validate_seed_def example_texts example_paths
      example_rows example_records created_tables_def empty_tables_def turn_is_terminal_def)

lemma example_agent_spawned:
  "\<exists>r t. sql_spawn_agent (registry_example_env ''s'' ''child1'' ''turn2'') example_spawn created_tables = Inr ((r, t), spawned_tables)"
  by (simp add: sql_spawn_agent_def validate_seed_def example_texts example_paths ok_or_def spawn_attenuates_def thread_is_archived_def
      read_thread_by_path_def count_values_def example_rows example_records created_tables_def spawned_tables_def turn_is_terminal_def)

lemma example_reachable: "collab_step\<^sup>*\<^sup>* empty_tables spawned_tables"
proof -
  have "sp_max_depth (cq_session_policy example_create) < 65535" by (simp add: example_create_def)
  then have "collab_step empty_tables created_tables" using example_created collab_step.create by blast
  moreover have "collab_step created_tables spawned_tables" using example_agent_spawned collab_step.spawn by blast
  ultimately show ?thesis by (meson r_into_rtranclp rtranclp_trans)
qed

text \<open>
  C12: In every state of the tables that the operations reach, a session has at most as many agents as its policy
  allows and no agent is deeper than its policy allows, every agent has a path of its own in its session, at most
  as many children as its spawn policy allows, and, except the root, a parent in the same session whose path its
  own path extends by one task name, that may spawn, and whose spawn policy its own only narrows.
\<close>
theorem session_limits_hold:
  assumes "collab_step\<^sup>*\<^sup>* empty_tables tb"
  shows "(\<forall>i s. bt_get (tb_sessions tb) i = Some s \<longrightarrow>
            count_values (\<lambda>t. th_session_id t = i) (tb_threads tb) \<le> sp_max_agents (se_policy s))
    \<and> (\<forall>i t. bt_get (tb_threads tb) i = Some t \<longrightarrow>
         (\<exists>s. bt_get (tb_sessions tb) (th_session_id t) = Some s \<and> path_depth (th_path t) \<le> sp_max_depth (se_policy s))
         \<and> count_values (\<lambda>c. th_parent c = Some i) (tb_threads tb) \<le> wp_max_direct_children (th_spawn_policy t)
         \<and> (\<forall>j u. bt_get (tb_threads tb) j = Some u \<and> th_session_id u = th_session_id t \<and> th_path u = th_path t \<longrightarrow> j = i)
         \<and> (case th_parent t of
              None \<Rightarrow> th_path t = root_agent_path
            | Some q \<Rightarrow> \<exists>p. bt_get (tb_threads tb) q = Some p \<and> th_session_id p = th_session_id t
                \<and> parent_path (th_path t) = Some (th_path p)
                \<and> wp_allow_child_spawns (th_spawn_policy p) \<and> spawn_attenuates (th_spawn_policy t) (th_spawn_policy p)))"
proof -
  have "threads_ok tb" by (rule tables_invD(2) [OF collab_steps_inv [OF assms empty_tables_inv]])
  note ok = threads_okD [OF this]
  have "(\<exists>s. bt_get (tb_sessions tb) (th_session_id t) = Some s \<and> path_depth (th_path t) \<le> sp_max_depth (se_policy s))
      \<and> (case th_parent t of
              None \<Rightarrow> th_path t = root_agent_path
            | Some q \<Rightarrow> \<exists>p. bt_get (tb_threads tb) q = Some p \<and> th_session_id p = th_session_id t
                \<and> parent_path (th_path t) = Some (th_path p)
                \<and> wp_allow_child_spawns (th_spawn_policy p) \<and> spawn_attenuates (th_spawn_policy t) (th_spawn_policy p))"
    if "bt_get (tb_threads tb) i = Some t" for i t
    using thread_ok_unfold [OF ok(3) [OF that]] ok(1) by blast
  then show ?thesis using ok(2,4,5) by blast
qed

theorem session_limits_hold_witness:
  "count_values (\<lambda>t. th_session_id t = ''s'') (tb_threads spawned_tables) \<le> 3
    \<and> (\<exists>p. bt_get (tb_threads spawned_tables) ''root1'' = Some p \<and> parent_path ''/root/read'' = Some (th_path p))"
proof -
  have s: "bt_get (tb_sessions spawned_tables) ''s'' = Some (session_record (registry_example_env ''s'' ''root1'' ''u'') example_create)"
    and c: "bt_get (tb_threads spawned_tables) ''child1''
      = Some (example_thread ''child1'' (Some ''root1'') ''/root/read'' ''read'' ''reader'' ''snap2'' (spawn_disabled 1))"
    by (simp_all add: spawned_tables_def created_tables_def)
  show ?thesis
    using session_limits_hold [OF example_reachable, THEN conjunct1, rule_format, OF s]
      session_limits_hold [OF example_reachable, THEN conjunct2, rule_format, OF c]
    by (auto simp: example_records)
qed

text \<open>
  C13: In every state of the tables that the operations reach, the turns of an agent are numbered 1, 2, 3, ... without
  a gap and all but the last one are finished; and whatever the operations do afterwards, a finished turn stays as
  it is, except that a turn without an outcome may still get one.
\<close>
theorem one_active_turn:
  assumes "collab_step\<^sup>*\<^sup>* empty_tables tb"
  shows "map tu_sequence (turns_of tb i) = [1..<Suc (length (turns_of tb i))]
    \<and> (\<forall>n < length (turns_of tb i) - 1. turn_is_terminal (tu_status (turns_of tb i ! n)))
    \<and> (\<forall>tb' k t. collab_step\<^sup>*\<^sup>* tb tb' \<longrightarrow> bt_get (tb_turns tb) k = Some t \<longrightarrow> turn_is_terminal (tu_status t)
         \<longrightarrow> (\<exists>t'. bt_get (tb_turns tb') k = Some t' \<and> t'\<lparr>tu_outcome_ref := tu_outcome_ref t\<rparr> = t
              \<and> (tu_outcome_ref t \<noteq> None \<longrightarrow> t' = t)))"
proof (intro conjI allI impI)
  have inv: "tables_inv tb" by (rule collab_steps_inv [OF assms empty_tables_inv])
  have ok: "turns_ok tb i" by (rule tables_invD(3) [OF inv])
  then show "map tu_sequence (turns_of tb i) = [1..<Suc (length (turns_of tb i))]"
    by (simp only: turns_ok_def map_Suc_upt One_nat_def)
  show "turn_is_terminal (tu_status (turns_of tb i ! n))" if "n < length (turns_of tb i) - 1" for n
    using ok that by (auto simp: turns_ok_def list_all_length nth_butlast)
  fix tb' k t
  assume "collab_step\<^sup>*\<^sup>* tb tb'" "bt_get (tb_turns tb) k = Some t" "turn_is_terminal (tu_status t)"
  from collab_steps_final [OF this(1) inv this(2,3)]
  show "\<exists>t'. bt_get (tb_turns tb') k = Some t' \<and> t'\<lparr>tu_outcome_ref := tu_outcome_ref t\<rparr> = t
              \<and> (tu_outcome_ref t \<noteq> None \<longrightarrow> t' = t)"
    unfolding same_final_turn_def by (metis agent_turn.surjective agent_turn.update_convs(10))
qed

theorem one_active_turn_witness:
  "map tu_sequence (turns_of spawned_tables ''child1'') = [1..<Suc (length (turns_of spawned_tables ''child1''))]
    \<and> length (turns_of spawned_tables ''child1'') = 1"
  using one_active_turn [OF example_reachable, of "''child1''"]
  by (simp add: turns_of_def spawned_tables_def queued_turn_def)

end
