(* ===== verification/Collaboration_Sim.thy ===== *)
theory Collaboration_Sim
  imports Collaboration_Store
begin

text \<open>
  The two registries of agents: the registry in memory (\<open>collaboration/registry.rs\<close>) and the tables
  (\<open>collaboration/sqlite_repository/registry_repository.rs\<close>) simulate each other.  Its indexes (paths, turns of a
  thread) are functions of the tables, and every operation with fresh identifiers is accepted by both, with the
  same records, or refused by both.  The locale \<open>turn_registry\<close> is what a client of either may rely on.
\<close>


section \<open>The registry in memory simulates the tables\<close>

definition simulates :: "collab_tables \<Rightarrow> registry \<Rightarrow> bool" where
  "simulates tb rg \<longleftrightarrow>
     rg_sessions rg = tb_sessions tb \<and> rg_threads rg = tb_threads tb \<and> rg_turns rg = tb_turns tb
     \<and> rg_snapshots rg = tb_snapshots tb
     \<and> (\<forall>s p i. rg_paths rg (s, p) = Some i
          \<longleftrightarrow> (\<exists>t. bt_get (tb_threads tb) i = Some t \<and> th_session_id t = s \<and> th_path t = p))
     \<and> (\<forall>i. rg_turns_by_thread rg i = (if bt_contains (tb_threads tb) i then Some (map tu_id (turns_of tb i)) else None))"

lemma simulatesD:
  assumes "simulates tb rg"
  shows "rg_sessions rg = tb_sessions tb" "rg_threads rg = tb_threads tb" "rg_turns rg = tb_turns tb"
    "rg_snapshots rg = tb_snapshots tb"
    "rg_paths rg (s, p) = Some i \<longleftrightarrow> (\<exists>t. bt_get (tb_threads tb) i = Some t \<and> th_session_id t = s \<and> th_path t = p)"
    "rg_turns_by_thread rg i = (if bt_contains (tb_threads tb) i then Some (map tu_id (turns_of tb i)) else None)"
  using assms unfolding simulates_def by blast+

definition agrees :: "collab_error + 'a \<times> collab_tables \<Rightarrow> collab_error + 'a \<times> registry \<Rightarrow> bool" where
  "agrees x y \<longleftrightarrow>
     (case (x, y) of
        (Inr (a, tb), Inr (b, rg)) \<Rightarrow> a = b \<and> simulates tb rg
      | (Inl _, Inl _) \<Rightarrow> True
      | _ \<Rightarrow> False)"

lemma agreesI:
  assumes "\<And>a tb. x = Inr (a, tb) \<Longrightarrow> \<exists>rg. y = Inr (a, rg) \<and> simulates tb rg"
    and "\<And>a rg. y = Inr (a, rg) \<Longrightarrow> \<exists>tb. x = Inr (a, tb)"
  shows "agrees x y"
proof (cases x)
  case (Inl e)
  then show ?thesis using assms(2) by (cases y) (auto simp: agrees_def)
next
  case (Inr z)
  obtain a tb where z: "z = (a, tb)" by (cases z)
  show ?thesis using assms(1) [of a tb] Inr z by (auto simp: agrees_def)
qed

lemma simulates_latest:
  assumes sim: "simulates tb rg" and inv: "tables_inv tb"
  shows "latest_turn_locked rg i = read_latest_turn tb i"
proof (cases "turns_of tb i" rule: rev_cases)
  case Nil
  then show ?thesis using simulatesD(6) [OF sim, of i] by (simp add: latest_turn_locked_def read_latest_turn_def)
next
  case (snoc ts t)
  have "bt_inv (tb_turns tb)" using tables_invD(1) [OF inv] by (simp add: keys_ok_def)
  with set_turns_of [OF this, of i] obtain k where k: "bt_get (tb_turns tb) k = Some t" "tu_agent_thread_id t = i"
    by (auto simp: snoc)
  then have "tu_id t = k" using tables_invD(1) [OF inv] by (simp add: keys_ok_def)
  moreover have "bt_contains (tb_threads tb) i" using tables_invD(4) [OF inv k(1)] k(2) by (auto simp: bt_contains_def)
  ultimately show ?thesis
    using k simulatesD(3,6) [OF sim] by (simp add: latest_turn_locked_def read_latest_turn_def snoc)
qed

lemma simulates_resolve:
  assumes sim: "simulates tb rg" and inv: "tables_inv tb"
  shows "Option.bind (rg_paths rg (s, p)) (bt_get (rg_threads rg)) = read_thread_by_path tb s p"
    "rg_paths rg (s, p) = None \<longleftrightarrow> read_thread_by_path tb s p = None"
proof -
  note keys = tables_invD(1) [OF inv]
  show none: "rg_paths rg (s, p) = None \<longleftrightarrow> read_thread_by_path tb s p = None"
    using simulatesD(5) [OF sim, of s p] unfolding read_thread_by_path_None [OF keys] not_None_eq [symmetric]
    by (metis option.exhaust option.distinct(1))
  show "Option.bind (rg_paths rg (s, p)) (bt_get (rg_threads rg)) = read_thread_by_path tb s p"
  proof (cases "read_thread_by_path tb s p")
    case None
    then show ?thesis using none by simp
  next
    case (Some t)
    note t = read_thread_by_path_Some [OF Some keys]
    then have "rg_paths rg (s, p) = Some (th_id t)" using simulatesD(5) [OF sim] by blast
    then show ?thesis using t simulatesD(2) [OF sim] Some by simp
  qed
qed

text \<open>A thread with its first turn, and a turn appended, in both.\<close>

lemma simulates_add_thread:
  assumes sim: "simulates tb rg" and inv: "tables_inv tb" and inv': "tables_inv tb'"
    and fresh: "bt_get (tb_threads tb) (th_id t) = None" "bt_get (tb_turns tb) (tu_id u) = None"
    and u: "tu_agent_thread_id u = th_id t"
    and tb': "tb_threads tb' = bt_insert (th_id t) t (tb_threads tb)" "tb_turns tb' = bt_insert (tu_id u) u (tb_turns tb)"
    and rg': "rg_sessions rg' = tb_sessions tb'" "rg_snapshots rg' = tb_snapshots tb'"
      "rg_threads rg' = bt_insert (th_id t) t (rg_threads rg)" "rg_turns rg' = bt_insert (tu_id u) u (rg_turns rg)"
      "rg_paths rg' = (rg_paths rg)((th_session_id t, th_path t) \<mapsto> th_id t)"
      "rg_turns_by_thread rg' = (rg_turns_by_thread rg)(th_id t \<mapsto> [tu_id u])"
  shows "simulates tb' rg'"
proof -
  note keys = tables_invD(1) [OF inv] and keys' = tables_invD(1) [OF inv']
  have turns: "turns_of tb' i = (if i = th_id t then [u] else turns_of tb i)" for i
  proof (cases "i = th_id t")
    case True
    have "set [u] = {x. \<exists>k. bt_get (tb_turns tb') k = Some x \<and> tu_agent_thread_id x = th_id t}"
    proof -
      have "tu_agent_thread_id x \<noteq> th_id t" if "bt_get (tb_turns tb) k = Some x" for k x
        using tables_invD(4) [OF inv that] fresh(1) by auto
      then show ?thesis using u by (auto simp: tb' bt_get_insert split: if_splits)
    qed
    then show ?thesis using turns_of_eqI [OF keys', of "[u]" "th_id t"] True by simp
  next
    case False
    then show ?thesis
      using turns_of_other [OF keys keys' tables_invD(3) [OF inv], of u i] fresh(2) u tb' by simp
  qed
  have paths: "rg_paths rg' (s, p) = Some i \<longleftrightarrow> (\<exists>x. bt_get (tb_threads tb') i = Some x \<and> th_session_id x = s \<and> th_path x = p)" for s p i
  proof (cases "(s, p) = (th_session_id t, th_path t)")
    case True
    then have "rg_paths rg' (s, p) = Some i \<longleftrightarrow> i = th_id t" by (auto simp: rg')
    also have "\<dots> \<longleftrightarrow> (\<exists>x. bt_get (tb_threads tb') i = Some x \<and> th_session_id x = s \<and> th_path x = p)"
    proof
      assume "i = th_id t"
      then show "\<exists>x. bt_get (tb_threads tb') i = Some x \<and> th_session_id x = s \<and> th_path x = p"
        using True by (simp add: tb' bt_get_insert)
    next
      assume "\<exists>x. bt_get (tb_threads tb') i = Some x \<and> th_session_id x = s \<and> th_path x = p"
      then obtain x where x: "bt_get (tb_threads tb') i = Some x" "th_session_id x = th_session_id t" "th_path x = th_path t"
        using True by auto
      have "bt_get (tb_threads tb') (th_id t) = Some t" by (simp add: tb' bt_get_insert)
      from threads_okD(5) [OF tables_invD(2) [OF inv'] x(1) this x(2,3)] show "i = th_id t" .
    qed
    finally show ?thesis .
  next
    case False
    then have other: "rg_paths rg' (s, p) = rg_paths rg (s, p)" by (auto simp: rg')
    show ?thesis
    proof (cases "i = th_id t")
      case True
      then show ?thesis using False fresh simulatesD(5) [OF sim, of s p i] other by (auto simp: tb' bt_get_insert)
    next
      case other_thread: False
      then show ?thesis using simulatesD(5) [OF sim, of s p i] other by (simp add: tb' bt_get_insert)
    qed
  qed
  have by_thread: "rg_turns_by_thread rg' i = (if bt_contains (tb_threads tb') i then Some (map tu_id (turns_of tb' i)) else None)" for i
    using simulatesD(6) [OF sim, of i] by (simp add: rg' tb' turns)
  show ?thesis
    unfolding simulates_def using paths by_thread simulatesD(2,3) [OF sim] by (simp add: rg' tb')
qed

definition spawn_checks ::
    "collab_env \<Rightarrow> spawn_request \<Rightarrow> (uuid, agent_thread) btree \<Rightarrow> (uuid, agent_turn) btree \<Rightarrow> (uuid, collab_session) btree
      \<Rightarrow> agent_thread \<Rightarrow> collab_session \<Rightarrow> agent_path \<Rightarrow> bool" where
  "spawn_checks cv q threads turns sessions pa session p \<longleftrightarrow>
     validate_task_name (trim (wq_task_name q)) = Inr () \<and> trim (wq_agent_type q) \<noteq> [] \<and> trim (wq_task_message q) \<noteq> []
     \<and> validate_seed cv (wq_runtime_snapshot q) = Inr ()
     \<and> bt_get threads (wq_parent q) = Some pa \<and> \<not> thread_is_archived pa
     \<and> (\<exists>turn. bt_get turns (wq_requested_by_turn q) = Some turn \<and> tu_agent_thread_id turn = th_id pa)
     \<and> wp_allow_child_spawns (th_spawn_policy pa) \<and> spawn_attenuates (wq_spawn_policy q) (th_spawn_policy pa)
     \<and> sd_parent_snapshot_id (wq_runtime_snapshot q) = Some (th_runtime_snapshot_id pa)
     \<and> bt_get sessions (th_session_id pa) = Some session
     \<and> child_path (th_path pa) (trim (wq_task_name q)) = Inr p
     \<and> \<not> min (sp_max_depth (se_policy session)) (wp_max_depth (th_spawn_policy pa)) < path_depth p
     \<and> \<not> sp_max_agents (se_policy session) \<le> count_values (\<lambda>t. th_session_id t = th_session_id pa) threads
     \<and> \<not> wp_max_direct_children (th_spawn_policy pa) \<le> count_values (\<lambda>t. th_parent t = Some (th_id pa)) threads"

definition spawn_turn :: "collab_env \<Rightarrow> spawn_request \<Rightarrow> agent_thread \<Rightarrow> agent_turn" where
  "spawn_turn cv q pa =
     queued_turn (cv_now cv) (cv_turn_id cv) (th_session_id pa) (cv_thread_id cv)
       (Some (th_id pa, wq_requested_by_turn q)) 1 (trim (wq_task_message q))"

definition spawn_snapshot :: "collab_env \<Rightarrow> spawn_request \<Rightarrow> agent_thread \<Rightarrow> runtime_snapshot_record" where
  "spawn_snapshot cv q pa =
     snapshot_record cv (th_session_id pa) (sd_parent_snapshot_id (wq_runtime_snapshot q)) (wq_runtime_snapshot q)"

lemma require_text_Inr: "require_text v e = Inr x \<longleftrightarrow> trim v \<noteq> [] \<and> x = trim v"
  by (auto simp: require_text_def)

lemma mem_spawn_iff:
  "mem_spawn_agent cv q rg = Inr (r, rg') \<longleftrightarrow>
     (\<exists>pa session p. spawn_checks cv q (rg_threads rg) (rg_turns rg) (rg_sessions rg) pa session p
        \<and> rg_paths rg (th_session_id pa, p) = None \<and> r = (child_thread cv q pa p, spawn_turn cv q pa)
        \<and> rg' = rg\<lparr>rg_snapshots := bt_insert (sr_id (spawn_snapshot cv q pa)) (spawn_snapshot cv q pa) (rg_snapshots rg),
             rg_paths := (rg_paths rg)((th_session_id pa, p) \<mapsto> cv_thread_id cv),
             rg_threads := bt_insert (cv_thread_id cv) (child_thread cv q pa p) (rg_threads rg),
             rg_turns := bt_insert (cv_turn_id cv) (spawn_turn cv q pa) (rg_turns rg),
             rg_turns_by_thread := (rg_turns_by_thread rg)(cv_thread_id cv \<mapsto> [cv_turn_id cv])\<rparr>)"
  (is "?l \<longleftrightarrow> ?r")
proof -
  have ids: "th_id (child_thread cv q pa p) = cv_thread_id cv" "tu_id (queued_turn n i s t b k m) = i" for pa p n i s t b k m
    by (simp_all add: child_thread_def queued_turn_def)
  show ?thesis
    unfolding mem_spawn_agent_def res_Inr_iffs Let_def ensure_requesting_turn_def require_text_Inr spawn_checks_def
      spawn_turn_def spawn_snapshot_def ids
    by (auto simp: res_Inr_iffs)
qed


lemma sql_spawn_iff:
  "sql_spawn_agent cv q tb = Inr (r, tb') \<longleftrightarrow>
     (\<exists>pa session p. spawn_checks cv q (tb_threads tb) (tb_turns tb) (tb_sessions tb) pa session p
        \<and> read_thread_by_path tb (th_session_id pa) p = None
        \<and> r = (child_thread cv q pa p, spawn_turn cv q pa)
        \<and> (\<exists>tb1 tb2. insert_snapshot_row (spawn_snapshot cv q pa) tb = Inr tb1
             \<and> insert_thread_row (child_thread cv q pa p) tb1 = Inr tb2 \<and> insert_turn_row (spawn_turn cv q pa) tb2 = Inr tb'))"
proof -
  have ids: "th_id (child_thread cv q pa p) = cv_thread_id cv" for pa p
    by (simp add: child_thread_def)
  show ?thesis
    unfolding sql_spawn_agent_def res_Inr_iffs Let_def spawn_checks_def spawn_turn_def spawn_snapshot_def ids
    by (auto simp: res_Inr_iffs)
qed

lemma insert_snapshot_row_eq:
  "bt_get (tb_snapshots tb) (sr_id s) = None \<Longrightarrow> bt_contains (tb_sessions tb) (sr_session_id s)
    \<Longrightarrow> reference (sr_parent_snapshot_id s) (tb_snapshots tb)
    \<Longrightarrow> insert_snapshot_row s tb = Inr (tb\<lparr>tb_snapshots := bt_insert (sr_id s) s (tb_snapshots tb)\<rparr>)"
  by (simp add: insert_snapshot_row_def constraint_def res_ensure_def bt_contains_def)

lemma insert_thread_row_eq:
  "bt_get (tb_threads tb) (th_id t) = None \<Longrightarrow> keys_ok tb \<Longrightarrow> read_thread_by_path tb (th_session_id t) (th_path t) = None
    \<Longrightarrow> bt_contains (tb_sessions tb) (th_session_id t) \<Longrightarrow> reference (th_parent t) (tb_threads tb)
    \<Longrightarrow> bt_contains (tb_snapshots tb) (th_runtime_snapshot_id t)
    \<Longrightarrow> insert_thread_row t tb = Inr (tb\<lparr>tb_threads := bt_insert (th_id t) t (tb_threads tb)\<rparr>)"
  by (simp add: insert_thread_row_def constraint_def res_ensure_def bt_contains_def read_thread_by_path_def find_None_iff list_all_iff)

text \<open>A queued turn after the finished ones of its thread violates no constraint.\<close>

lemma insert_turn_row_eq:
  assumes inv: "tables_inv tb" and fresh: "bt_get (tb_turns tb) (tu_id t) = None"
    and sequence: "tu_sequence t = Suc (length (turns_of tb (tu_agent_thread_id t)))"
    and ended: "list_all (\<lambda>u. turn_is_terminal (tu_status u)) (turns_of tb (tu_agent_thread_id t))"
    and refs: "bt_contains (tb_sessions tb) (tu_session_id t)" "bt_contains (tb_threads tb) (tu_agent_thread_id t)"
      "reference (tu_requested_by_thread t) (tb_threads tb)" "reference (tu_requested_by_turn t) (tb_turns tb)"
  shows "insert_turn_row t tb = Inr (write_turn t tb)"
proof -
  let ?ts = "turns_of tb (tu_agent_thread_id t)"
  have "tu_sequence r \<noteq> tu_sequence t \<and> turn_is_terminal (tu_status r)"
    if "r \<in> set (map snd (tb_turns tb))" "tu_agent_thread_id r = tu_agent_thread_id t" for r
  proof -
    have r: "r \<in> set ?ts" using that by (auto simp: turns_of_def)
    have "set (map tu_sequence ?ts) = set (map Suc [0..<length ?ts])"
      using tables_invD(3) [OF inv, of "tu_agent_thread_id t"] by (simp add: turns_ok_def)
    with r have "tu_sequence r \<le> length ?ts" by (metis atLeastLessThan_iff imageI less_Suc_eq_le list.set_map image_Suc_atLeastLessThan set_upt)
    then show ?thesis using r ended sequence by (auto simp: list_all_iff)
  qed
  then have "list_all (\<lambda>r. \<not> (tu_agent_thread_id r = tu_agent_thread_id t
              \<and> (tu_sequence r = tu_sequence t
                 \<or> \<not> turn_is_terminal (tu_status r) \<and> \<not> turn_is_terminal (tu_status t)))) (map snd (tb_turns tb))"
    unfolding list_all_iff by blast
  then show ?thesis
    using fresh refs by (simp add: insert_turn_row_def constraint_def res_ensure_def bt_contains_def write_turn_def)
qed

lemma spawn_checksD:
  assumes "spawn_checks cv q threads turns sessions pa session p"
  shows "bt_get threads (wq_parent q) = Some pa" "bt_contains turns (wq_requested_by_turn q)"
    "bt_get sessions (th_session_id pa) = Some session"
    "sd_parent_snapshot_id (wq_runtime_snapshot q) = Some (th_runtime_snapshot_id pa)"
  using assms by (auto simp: spawn_checks_def bt_contains_def)

definition fresh_ids :: "collab_env \<Rightarrow> uuid \<Rightarrow> snapshot_seed \<Rightarrow> collab_tables \<Rightarrow> bool" where
  "fresh_ids cv turn_id seed tb \<longleftrightarrow>
     bt_get (tb_threads tb) (cv_thread_id cv) = None \<and> bt_get (tb_turns tb) turn_id = None
     \<and> bt_get (tb_snapshots tb) (sd_id seed) = None"

lemma spawn_rows:
  assumes inv: "tables_inv tb" and fresh: "fresh_ids cv (cv_turn_id cv) (wq_runtime_snapshot q) tb"
    and checks: "spawn_checks cv q (tb_threads tb) (tb_turns tb) (tb_sessions tb) pa session p"
    and path: "read_thread_by_path tb (th_session_id pa) p = None"
  shows "\<exists>tb'. sql_spawn_agent cv q tb = Inr ((child_thread cv q pa p, spawn_turn cv q pa), tb')"
proof -
  note checked = spawn_checksD [OF checks] and keys = tables_invD(1) [OF inv]
  let ?s = "spawn_snapshot cv q pa" and ?t = "child_thread cv q pa p" and ?u = "spawn_turn cv q pa"
  let ?tb1 = "tb\<lparr>tb_snapshots := bt_insert (sr_id ?s) ?s (tb_snapshots tb)\<rparr>"
  let ?tb2 = "?tb1\<lparr>tb_threads := bt_insert (th_id ?t) ?t (tb_threads ?tb1)\<rparr>"
  have pa: "th_id pa = wq_parent q" using checked(1) keys by (simp add: keys_ok_def)
  have snapshot: "bt_contains (tb_snapshots tb) (th_runtime_snapshot_id pa)"
    by (rule thread_ok_snapshot [OF threads_okD(3) [OF tables_invD(2) [OF inv] checked(1)]])
  have row1: "insert_snapshot_row ?s tb = Inr ?tb1"
    using fresh checked snapshot
    by (intro insert_snapshot_row_eq) (auto simp: spawn_snapshot_def snapshot_record_def fresh_ids_def reference_def bt_contains_def)
  have keys1: "keys_ok ?tb1" using keys by (simp add: keys_ok_def bt_inv_insert)
  have row2: "insert_thread_row ?t ?tb1 = Inr ?tb2"
    using fresh checked path keys1 pa
    by (intro insert_thread_row_eq)
       (simp_all add: child_thread_def spawn_snapshot_def snapshot_record_def fresh_ids_def reference_def bt_contains_def
         read_thread_by_path_def bt_get_insert)
  have turn: "tu_id ?u = cv_turn_id cv" "tu_agent_thread_id ?u = cv_thread_id cv" "tu_session_id ?u = th_session_id pa"
    "tu_sequence ?u = 1" "tu_requested_by_thread ?u = Some (wq_parent q)" "tu_requested_by_turn ?u = Some (wq_requested_by_turn q)"
    by (simp_all add: spawn_turn_def queued_turn_def pa)
  have id: "th_id ?t = cv_thread_id cv" by (simp add: child_thread_def)
  have none: "\<forall>r \<in> set (map snd (tb_turns tb)). tu_agent_thread_id r \<noteq> cv_thread_id cv"
    using no_turns [OF inv, of "cv_thread_id cv"] fresh
    by (auto simp: fresh_ids_def turns_of_def filter_empty_conv simp flip: set_empty)
  have row3: "insert_turn_row ?u ?tb2 = Inr (write_turn ?u ?tb2)"
    using fresh checked none
    by (auto simp: insert_turn_row_def constraint_def res_ensure_def turn id fresh_ids_def reference_def bt_contains_def write_turn_def
        list_all_iff bt_get_insert)
  show ?thesis
    unfolding sql_spawn_iff using checks path row1 row2 row3 by blast
qed

lemma spawn_agreement:
  assumes sim: "simulates tb rg" and inv: "tables_inv tb" and fresh: "fresh_ids cv (cv_turn_id cv) (wq_runtime_snapshot q) tb"
  shows "agrees (sql_spawn_agent cv q tb) (mem_spawn_agent cv q rg)"
proof (rule agreesI)
  fix r tb' assume spawn: "sql_spawn_agent cv q tb = Inr (r, tb')"
  then obtain pa session p tb1 tb2 where
    checks: "spawn_checks cv q (tb_threads tb) (tb_turns tb) (tb_sessions tb) pa session p"
    and path: "read_thread_by_path tb (th_session_id pa) p = None"
    and r: "r = (child_thread cv q pa p, spawn_turn cv q pa)"
    and rows: "insert_snapshot_row (spawn_snapshot cv q pa) tb = Inr tb1"
      "insert_thread_row (child_thread cv q pa p) tb1 = Inr tb2" "insert_turn_row (spawn_turn cv q pa) tb2 = Inr tb'"
    unfolding sql_spawn_iff by blast
  let ?s = "spawn_snapshot cv q pa" and ?t = "child_thread cv q pa p" and ?u = "spawn_turn cv q pa"
  have tb': "tb' = tb\<lparr>tb_snapshots := bt_insert (sr_id ?s) ?s (tb_snapshots tb),
      tb_threads := bt_insert (th_id ?t) ?t (tb_threads tb), tb_turns := bt_insert (tu_id ?u) ?u (tb_turns tb)\<rparr>"
    and new: "bt_get (tb_threads tb) (th_id ?t) = None" "bt_get (tb_turns tb) (tu_id ?u) = None"
    using rows by (auto simp: insert_snapshot_row_def insert_thread_row_def insert_turn_row_def bt_contains_def)
  let ?rg = "rg\<lparr>rg_snapshots := bt_insert (sr_id ?s) ?s (rg_snapshots rg),
      rg_paths := (rg_paths rg)((th_session_id pa, p) \<mapsto> cv_thread_id cv),
      rg_threads := bt_insert (cv_thread_id cv) ?t (rg_threads rg),
      rg_turns := bt_insert (cv_turn_id cv) ?u (rg_turns rg),
      rg_turns_by_thread := (rg_turns_by_thread rg)(cv_thread_id cv \<mapsto> [cv_turn_id cv])\<rparr>"
  have inv': "tables_inv tb'" using spawn_agent_inv [OF spawn [unfolded r] inv] .
  have "simulates tb' ?rg"
    by (rule simulates_add_thread [OF sim inv inv' new])
       (simp_all add: tb' simulatesD(1,4) [OF sim] child_thread_def spawn_turn_def queued_turn_def)
  moreover have "mem_spawn_agent cv q rg = Inr (r, ?rg)"
    unfolding mem_spawn_iff simulatesD(1,2,3) [OF sim]
    using checks path r simulates_resolve(2) [OF sim inv] by blast
  ultimately show "\<exists>rg'. mem_spawn_agent cv q rg = Inr (r, rg') \<and> simulates tb' rg'" by blast
next
  fix r rg' assume "mem_spawn_agent cv q rg = Inr (r, rg')"
  then show "\<exists>tb'. sql_spawn_agent cv q tb = Inr (r, tb')"
    unfolding mem_spawn_iff simulatesD(1,2,3) [OF sim] simulates_resolve(2) [OF sim inv]
    using spawn_rows [OF inv fresh] by blast
qed


lemma simulates_append_turn:
  assumes sim: "simulates tb rg" and inv: "tables_inv tb"
    and fresh: "bt_get (tb_turns tb) (tu_id u) = None"
    and thread: "bt_get (tb_threads tb) (tu_agent_thread_id u) = Some th" "th_session_id th = tu_session_id u"
    and sequence: "tu_sequence u = Suc (length (turns_of tb (tu_agent_thread_id u)))"
    and ended: "list_all (\<lambda>x. turn_is_terminal (tu_status x)) (turns_of tb (tu_agent_thread_id u))"
  shows "simulates (write_turn u tb) (rg\<lparr>rg_turns := bt_insert (tu_id u) u (rg_turns rg),
      rg_turns_by_thread := (rg_turns_by_thread rg)(tu_agent_thread_id u \<mapsto>
        map tu_id (turns_of tb (tu_agent_thread_id u)) @ [tu_id u])\<rparr>)"
  using simulatesD [OF sim] append_turn_inv(2) [OF inv fresh thread sequence ended] thread(1)
  by (simp add: simulates_def bt_contains_def)

lemma simulates_replace_turn:
  assumes sim: "simulates tb rg" and inv: "tables_inv tb" and u: "bt_get (tb_turns tb) (tu_id t) = Some u"
    and same: "tu_agent_thread_id t = tu_agent_thread_id u" "tu_session_id t = tu_session_id u" "tu_sequence t = tu_sequence u"
    and final: "turn_is_terminal (tu_status u) \<longrightarrow> turn_is_terminal (tu_status t)"
  shows "simulates (write_turn t tb) (rg\<lparr>rg_turns := bt_insert (tu_id t) t (rg_turns rg)\<rparr>)"
proof -
  have "map tu_id (turns_of (write_turn t tb) i) = map tu_id (turns_of tb i)" for i
    unfolding replace_turn_inv(2) [OF inv u same final] by simp
  then show ?thesis using simulatesD [OF sim] by (simp add: simulates_def)
qed

lemma transition_agreement:
  assumes sim: "simulates tb rg" and inv: "tables_inv tb"
  shows "agrees (sql_transition_turn cv i next tb) (mem_transition_turn cv i next rg)"
proof (rule agreesI)
  fix t tb' assume "sql_transition_turn cv i next tb = Inr (t, tb')"
  then obtain u where u: "bt_get (tb_turns tb) i = Some u" "turn_transition next (cv_now cv) u = Inr t"
    and tb': "tb' = write_turn t tb" by (auto simp: sql_transition_turn_def res_Inr_iffs)
  note t = turn_transition_Inr [OF u(2)]
  have "tu_id u = i" using u(1) tables_invD(1) [OF inv] by (simp add: keys_ok_def)
  moreover from this have "simulates tb' (rg\<lparr>rg_turns := bt_insert (tu_id t) t (rg_turns rg)\<rparr>)"
    unfolding tb' using u(1) t by (intro simulates_replace_turn [OF sim inv, of t u]) auto
  ultimately show "\<exists>rg'. mem_transition_turn cv i next rg = Inr (t, rg') \<and> simulates tb' rg'"
    using u t(1) simulatesD(3) [OF sim] by (auto simp: mem_transition_turn_def res_Inr_iffs)
qed (use simulatesD(3) [OF sim] in \<open>auto simp: mem_transition_turn_def sql_transition_turn_def res_Inr_iffs\<close>)

definition followup_checks ::
    "followup_request \<Rightarrow> collab_tables \<Rightarrow> agent_thread \<Rightarrow> agent_thread \<Rightarrow> bool" where
  "followup_checks q tb caller target \<longleftrightarrow>
     trim (fq_task_message q) \<noteq> [] \<and> bt_get (tb_threads tb) (fq_requested_by_thread q) = Some caller
     \<and> (\<exists>turn. bt_get (tb_turns tb) (fq_requested_by_turn q) = Some turn \<and> tu_agent_thread_id turn = fq_requested_by_thread q)
     \<and> bt_get (tb_threads tb) (fq_target q) = Some target
     \<and> th_session_id caller = th_session_id target \<and> is_descendant_of (th_path target) (th_path caller)
     \<and> \<not> thread_is_archived target
     \<and> (\<forall>turn. read_latest_turn tb (fq_target q) = Some turn \<longrightarrow> turn_is_terminal (tu_status turn))"

definition followup_turn :: "collab_env \<Rightarrow> followup_request \<Rightarrow> collab_tables \<Rightarrow> agent_thread \<Rightarrow> agent_turn" where
  "followup_turn cv q tb target =
     queued_turn (cv_now cv) (cv_turn_id cv) (th_session_id target) (fq_target q)
       (Some (fq_requested_by_thread q, fq_requested_by_turn q)) (Suc (length (turns_of tb (fq_target q))))
       (trim (fq_task_message q))"

lemma not_active_iff:
  "\<not> (case x of Some turn \<Rightarrow> \<not> turn_is_terminal (tu_status turn) | None \<Rightarrow> False)
    \<longleftrightarrow> (\<forall>turn. x = Some turn \<longrightarrow> turn_is_terminal (tu_status turn))"
  by (cases x) simp_all

lemma sql_followup_iff:
  assumes inv: "tables_inv tb"
  shows "sql_create_followup_turn cv q tb = Inr (t, tb') \<longleftrightarrow>
     (\<exists>caller target. followup_checks q tb caller target \<and> t = followup_turn cv q tb target
        \<and> insert_turn_row t tb = Inr tb')" (is "?l \<longleftrightarrow> ?r")
proof (cases "bt_get (tb_threads tb) (fq_requested_by_thread q) = None \<or> bt_get (tb_threads tb) (fq_target q) = None")
  case True
  then show ?thesis by (auto simp: sql_create_followup_turn_def res_Inr_iffs followup_checks_def)
next
  case False
  then obtain caller target where get: "bt_get (tb_threads tb) (fq_requested_by_thread q) = Some caller"
    "bt_get (tb_threads tb) (fq_target q) = Some target" by auto
  then have "th_id caller = fq_requested_by_thread q" "th_id target = fq_target q"
    using tables_invD(1) [OF inv] by (simp_all add: keys_ok_def)
  then show ?thesis
    unfolding sql_create_followup_turn_def res_Inr_iffs Let_def followup_checks_def followup_turn_def not_active_iff
      latest_sequence [OF inv]
    by (auto simp: res_Inr_iffs get)
qed

lemma simulates_sequence:
  assumes "simulates tb rg" "bt_contains (tb_threads tb) i"
  shows "(case rg_turns_by_thread rg i of Some ids \<Rightarrow> length ids + 1 | None \<Rightarrow> 1) = Suc (length (turns_of tb i))"
    "(case rg_turns_by_thread rg i of Some ids \<Rightarrow> ids | None \<Rightarrow> []) = map tu_id (turns_of tb i)"
  using simulatesD(6) [OF assms(1), of i] assms(2) by simp_all

lemma mem_followup_iff:
  assumes sim: "simulates tb rg" and inv: "tables_inv tb"
  shows "mem_create_followup_turn cv q rg = Inr (t, rg') \<longleftrightarrow>
     (\<exists>caller target. followup_checks q tb caller target \<and> t = followup_turn cv q tb target
        \<and> rg' = rg\<lparr>rg_turns := bt_insert (tu_id t) t (rg_turns rg),
             rg_turns_by_thread := (rg_turns_by_thread rg)(fq_target q \<mapsto> map tu_id (turns_of tb (fq_target q)) @ [tu_id t])\<rparr>)"
  (is "?l \<longleftrightarrow> ?r")
proof (cases "bt_get (tb_threads tb) (fq_requested_by_thread q) = None \<or> bt_get (tb_threads tb) (fq_target q) = None")
  case True
  then show ?thesis by (auto simp: mem_create_followup_turn_def res_Inr_iffs followup_checks_def simulatesD(2) [OF sim])
next
  case False
  then obtain caller target where get: "bt_get (tb_threads tb) (fq_requested_by_thread q) = Some caller"
    "bt_get (tb_threads tb) (fq_target q) = Some target" by auto
  then have ids: "th_id caller = fq_requested_by_thread q" "th_id target = fq_target q" "bt_contains (tb_threads tb) (fq_target q)"
    using tables_invD(1) [OF inv] by (simp_all add: keys_ok_def bt_contains_def)
  show ?thesis
    unfolding mem_create_followup_turn_def res_Inr_iffs Let_def followup_checks_def followup_turn_def not_active_iff
      ensure_requesting_turn_def require_text_Inr simulates_latest [OF sim inv] simulatesD(2,3) [OF sim]
    by (auto simp: res_Inr_iffs get ids(1,2) simulates_sequence [OF sim ids(3)])
qed

lemma followup_agreement:
  assumes sim: "simulates tb rg" and inv: "tables_inv tb" and fresh: "bt_get (tb_turns tb) (cv_turn_id cv) = None"
  shows "agrees (sql_create_followup_turn cv q tb) (mem_create_followup_turn cv q rg)"
proof -
  have rows: "insert_turn_row t tb = Inr (write_turn t tb)
      \<and> simulates (write_turn t tb) (rg\<lparr>rg_turns := bt_insert (tu_id t) t (rg_turns rg),
             rg_turns_by_thread := (rg_turns_by_thread rg)(fq_target q \<mapsto> map tu_id (turns_of tb (fq_target q)) @ [tu_id t])\<rparr>)"
    if checks: "followup_checks q tb caller target" and t: "t = followup_turn cv q tb target" for t caller target
  proof -
    have get: "bt_get (tb_threads tb) (fq_target q) = Some target" "bt_contains (tb_threads tb) (fq_requested_by_thread q)"
      "bt_contains (tb_turns tb) (fq_requested_by_turn q)"
      using checks by (auto simp: followup_checks_def bt_contains_def)
    have ended: "list_all (\<lambda>u. turn_is_terminal (tu_status u)) (turns_of tb (fq_target q))"
      using checks by (intro latest_terminal [OF inv]) (simp add: followup_checks_def)
    have simps: "tu_id t = cv_turn_id cv" "tu_agent_thread_id t = fq_target q" "tu_session_id t = th_session_id target"
      "tu_sequence t = Suc (length (turns_of tb (fq_target q)))" "tu_requested_by_thread t = Some (fq_requested_by_thread q)"
      "tu_requested_by_turn t = Some (fq_requested_by_turn q)"
      by (simp_all add: t followup_turn_def queued_turn_def)
    have new: "bt_get (tb_turns tb) (tu_id t) = None" using fresh by (simp add: simps)
    have "bt_contains (tb_sessions tb) (th_session_id target)"
      using threads_okD(3) [OF tables_invD(2) [OF inv] get(1)] unfolding thread_ok_def by (auto simp: bt_contains_def)
    then have "insert_turn_row t tb = Inr (write_turn t tb)"
      using get ended new by (intro insert_turn_row_eq [OF inv]) (simp_all add: simps reference_def bt_contains_def)
    moreover have "simulates (write_turn t tb) (rg\<lparr>rg_turns := bt_insert (tu_id t) t (rg_turns rg),
        rg_turns_by_thread := (rg_turns_by_thread rg)(fq_target q \<mapsto> map tu_id (turns_of tb (fq_target q)) @ [tu_id t])\<rparr>)"
      using simulates_append_turn [OF sim inv new, of target] get(1) ended by (simp add: simps)
    ultimately show ?thesis by blast
  qed
  show ?thesis
  proof (rule agreesI)
    fix t tb' assume "sql_create_followup_turn cv q tb = Inr (t, tb')"
    then obtain caller target where f: "followup_checks q tb caller target" "t = followup_turn cv q tb target"
      "insert_turn_row t tb = Inr tb'" unfolding sql_followup_iff [OF inv] by blast
    then have "tb' = write_turn t tb" using rows [OF f(1,2)] by simp
    then show "\<exists>rg'. mem_create_followup_turn cv q rg = Inr (t, rg') \<and> simulates tb' rg'"
      unfolding mem_followup_iff [OF sim inv] using f(1,2) rows [OF f(1,2)] by blast
  next
    fix t rg' assume "mem_create_followup_turn cv q rg = Inr (t, rg')"
    then show "\<exists>tb'. sql_create_followup_turn cv q tb = Inr (t, tb')"
      unfolding mem_followup_iff [OF sim inv] sql_followup_iff [OF inv] using rows by blast
  qed
qed


section \<open>Creating a session\<close>

definition new_session :: "collab_env \<Rightarrow> create_session_request \<Rightarrow> collab_tables \<Rightarrow> bool" where
  \<comment> \<open>a task without a session, of a conversation that exists\<close>
  "new_session cv q tb \<longleftrightarrow>
     fresh_ids cv (cq_root_turn_id q) (cq_root_runtime_snapshot q) tb \<and> bt_get (tb_sessions tb) (cv_session_id cv) = None
     \<and> cv_user_task cv (cq_user_task_id q)
     \<and> list_all (\<lambda>r. se_user_task_id r \<noteq> cq_user_task_id q) (map snd (tb_sessions tb))"

definition create_checks :: "collab_env \<Rightarrow> create_session_request \<Rightarrow> bool" where
  "create_checks cv q \<longleftrightarrow>
     validate_session_policy (cq_session_policy q) = Inr () \<and> validate_seed cv (cq_root_runtime_snapshot q) = Inr ()
     \<and> sd_parent_snapshot_id (cq_root_runtime_snapshot q) = None
     \<and> \<not> sp_max_depth (cq_session_policy q) < wp_max_depth (cq_root_spawn_policy q)
     \<and> trim (cq_root_task_message q) \<noteq> [] \<and> trim (cq_root_agent_type q) \<noteq> []"

definition root_turn :: "collab_env \<Rightarrow> create_session_request \<Rightarrow> agent_turn" where
  "root_turn cv q =
     queued_turn (cv_now cv) (cq_root_turn_id q) (cv_session_id cv) (cv_thread_id cv) None 1 (trim (cq_root_task_message q))"

definition root_snapshot :: "collab_env \<Rightarrow> create_session_request \<Rightarrow> runtime_snapshot_record" where
  "root_snapshot cv q = snapshot_record cv (cv_session_id cv) None (cq_root_runtime_snapshot q)"

lemma sql_create_iff:
  "sql_create_session cv q tb = Inr (r, tb') \<longleftrightarrow>
     create_checks cv q \<and> r = (session_record cv q, root_thread cv q, root_turn cv q)
     \<and> insert_session_bundle cv (session_record cv q) (root_snapshot cv q) (root_thread cv q) (root_turn cv q) tb = Inr tb'"
  unfolding sql_create_session_def res_Inr_iffs Let_def create_checks_def root_turn_def root_snapshot_def
  by (auto simp: res_Inr_iffs)

lemma root_simps [simp]:
  "th_id (root_thread cv q) = cv_thread_id cv" "th_session_id (root_thread cv q) = cv_session_id cv"
  "th_path (root_thread cv q) = root_agent_path" "th_parent (root_thread cv q) = None"
  "th_runtime_snapshot_id (root_thread cv q) = sr_id (root_snapshot cv q)"
  "se_id (session_record cv q) = cv_session_id cv" "se_user_task_id (session_record cv q) = cq_user_task_id q"
  "sr_session_id (root_snapshot cv q) = cv_session_id cv" "sr_parent_snapshot_id (root_snapshot cv q) = None"
  "tu_id (root_turn cv q) = cq_root_turn_id q" "tu_agent_thread_id (root_turn cv q) = cv_thread_id cv"
  "tu_session_id (root_turn cv q) = cv_session_id cv" "tu_requested_by_thread (root_turn cv q) = None"
  "tu_requested_by_turn (root_turn cv q) = None"
  by (simp_all add: root_thread_def session_record_def root_snapshot_def snapshot_record_def root_turn_def queued_turn_def)

lemma mem_create_iff:
  "mem_create_session cv q rg = Inr (r, rg') \<longleftrightarrow>
     create_checks cv q \<and> r = (session_record cv q, root_thread cv q, root_turn cv q)
     \<and> rg' = rg\<lparr>rg_sessions := bt_insert (cv_session_id cv) (session_record cv q) (rg_sessions rg),
             rg_snapshots := bt_insert (sr_id (root_snapshot cv q)) (root_snapshot cv q) (rg_snapshots rg),
             rg_paths := (rg_paths rg)((cv_session_id cv, root_agent_path) \<mapsto> cv_thread_id cv),
             rg_threads := bt_insert (cv_thread_id cv) (root_thread cv q) (rg_threads rg),
             rg_turns := bt_insert (cq_root_turn_id q) (root_turn cv q) (rg_turns rg),
             rg_turns_by_thread := (rg_turns_by_thread rg)(cv_thread_id cv \<mapsto> [cq_root_turn_id q])\<rparr>"
proof -
  have "tu_id (queued_turn n i s t b k m) = i" for n i s t b k m by (simp add: queued_turn_def)
  then show ?thesis
    unfolding mem_create_session_def res_Inr_iffs Let_def create_checks_def require_text_Inr root_turn_def root_snapshot_def
    by (auto simp: res_Inr_iffs)
qed

lemma session_bundle:
  assumes inv: "tables_inv tb" and new: "new_session cv q tb"
  shows "\<exists>tb'. insert_session_bundle cv (session_record cv q) (root_snapshot cv q) (root_thread cv q) (root_turn cv q) tb = Inr tb'"
proof -
  let ?s = "root_snapshot cv q" and ?t = "root_thread cv q" and ?u = "root_turn cv q"
  let ?tb1 = "tb\<lparr>tb_sessions := bt_insert (cv_session_id cv) (session_record cv q) (tb_sessions tb)\<rparr>"
  let ?tb2 = "?tb1\<lparr>tb_snapshots := bt_insert (sr_id ?s) ?s (tb_snapshots ?tb1)\<rparr>"
  let ?tb3 = "?tb2\<lparr>tb_threads := bt_insert (cv_thread_id cv) ?t (tb_threads ?tb2)\<rparr>"
  note keys = tables_invD(1) [OF inv]
  have row1: "insert_session_row cv (session_record cv q) tb = Inr ?tb1"
    using new by (simp add: insert_session_row_def constraint_def res_ensure_def new_session_def fresh_ids_def bt_contains_def)
  have row2: "insert_snapshot_row ?s ?tb1 = Inr ?tb2"
    using new by (intro insert_snapshot_row_eq)
      (simp_all add: new_session_def fresh_ids_def reference_def root_snapshot_def snapshot_record_def)
  have "th_session_id t \<noteq> cv_session_id cv" if "bt_get (tb_threads tb) i = Some t" for i t
    using threads_okD(3) [OF tables_invD(2) [OF inv] that] new
    by (auto simp: thread_ok_def new_session_def fresh_ids_def)
  then have none: "read_thread_by_path ?tb2 (cv_session_id cv) root_agent_path = None"
    using read_thread_by_path_None [OF keys, of "cv_session_id cv"] by (simp add: read_thread_by_path_def)
  have keys2: "keys_ok ?tb2" using keys by (simp add: keys_ok_def bt_inv_insert bt_get_insert session_record_def)
  have row3: "insert_thread_row ?t ?tb2 = Inr ?tb3"
    using new none keys2 by (simp add: insert_thread_row_eq new_session_def fresh_ids_def reference_def)
  have turns: "\<forall>r \<in> set (map snd (tb_turns tb)). tu_agent_thread_id r \<noteq> cv_thread_id cv"
    using no_turns [OF inv, of "cv_thread_id cv"] new
    by (auto simp: new_session_def fresh_ids_def turns_of_def filter_empty_conv simp flip: set_empty)
  have row4: "insert_turn_row ?u ?tb3 = Inr (write_turn ?u ?tb3)"
    using new turns
    by (auto simp: insert_turn_row_def constraint_def res_ensure_def new_session_def fresh_ids_def reference_def bt_contains_def
        write_turn_def list_all_iff bt_get_insert)
  show ?thesis using row1 row2 row3 row4 unfolding insert_session_bundle_def res_bind_Inr_iff by blast
qed

lemma create_agreement:
  assumes sim: "simulates tb rg" and inv: "tables_inv tb" and new: "new_session cv q tb"
    and bound: "sp_max_depth (cq_session_policy q) < 65535"
  shows "agrees (sql_create_session cv q tb) (mem_create_session cv q rg)"
proof (rule agreesI)
  fix r tb' assume create: "sql_create_session cv q tb = Inr (r, tb')"
  then have checks: "create_checks cv q" and r: "r = (session_record cv q, root_thread cv q, root_turn cv q)"
    and rows: "insert_session_bundle cv (session_record cv q) (root_snapshot cv q) (root_thread cv q) (root_turn cv q) tb = Inr tb'"
    unfolding sql_create_iff by blast+
  let ?s = "root_snapshot cv q" and ?t = "root_thread cv q" and ?u = "root_turn cv q"
  let ?rg = "rg\<lparr>rg_sessions := bt_insert (cv_session_id cv) (session_record cv q) (rg_sessions rg),
      rg_snapshots := bt_insert (sr_id ?s) ?s (rg_snapshots rg),
      rg_paths := (rg_paths rg)((cv_session_id cv, root_agent_path) \<mapsto> cv_thread_id cv),
      rg_threads := bt_insert (cv_thread_id cv) ?t (rg_threads rg),
      rg_turns := bt_insert (cq_root_turn_id q) ?u (rg_turns rg),
      rg_turns_by_thread := (rg_turns_by_thread rg)(cv_thread_id cv \<mapsto> [cq_root_turn_id q])\<rparr>"
  have tb': "tb' = tb\<lparr>tb_sessions := bt_insert (cv_session_id cv) (session_record cv q) (tb_sessions tb),
      tb_snapshots := bt_insert (sr_id ?s) ?s (tb_snapshots tb),
      tb_threads := bt_insert (cv_thread_id cv) ?t (tb_threads tb), tb_turns := bt_insert (cq_root_turn_id q) ?u (tb_turns tb)\<rparr>"
    using rows by (auto simp: insert_session_bundle_def res_Inr_iffs insert_session_row_def insert_snapshot_row_def
        insert_thread_row_def insert_turn_row_def)
  have inv': "tables_inv tb'" by (rule create_session_inv [OF create inv bound])
  have "simulates tb' ?rg"
    by (rule simulates_add_thread [OF sim inv inv', of ?t ?u])
       (use new in \<open>simp_all add: tb' simulatesD(1,4) [OF sim] new_session_def fresh_ids_def\<close>)
  then show "\<exists>rg'. mem_create_session cv q rg = Inr (r, rg') \<and> simulates tb' rg'"
    unfolding mem_create_iff using checks r by blast
next
  fix r rg' assume "mem_create_session cv q rg = Inr (r, rg')"
  then show "\<exists>tb'. sql_create_session cv q tb = Inr (r, tb')"
    unfolding mem_create_iff sql_create_iff using session_bundle [OF inv new] by blast
qed


section \<open>What a client of a registry may rely on\<close>

text \<open>Reports of the states of turns, one after the other; a refused one changes nothing.\<close>

fun report :: "(collab_env \<Rightarrow> uuid \<Rightarrow> turn_status \<Rightarrow> 'r \<Rightarrow> collab_error + agent_turn \<times> 'r)
      \<Rightarrow> (collab_env \<times> uuid \<times> turn_status) list \<Rightarrow> 'r \<Rightarrow> 'r" where
  "report transition [] r = r"
| "report transition ((cv, i, st) # rest) r =
     report transition rest (case transition cv i st r of Inr (_, r') \<Rightarrow> r' | Inl _ \<Rightarrow> r)"

locale turn_registry =
  fixes inv :: "'r \<Rightarrow> bool"
    and unused_turn :: "uuid \<Rightarrow> 'r \<Rightarrow> bool"
    and followup :: "collab_env \<Rightarrow> followup_request \<Rightarrow> 'r \<Rightarrow> collab_error + agent_turn \<times> 'r"
    and transition :: "collab_env \<Rightarrow> uuid \<Rightarrow> turn_status \<Rightarrow> 'r \<Rightarrow> collab_error + agent_turn \<times> 'r"
    and latest :: "uuid \<Rightarrow> 'r \<Rightarrow> agent_turn option"
  assumes followup_ok: "inv r \<Longrightarrow> unused_turn (cv_turn_id cv) r \<Longrightarrow> followup cv q r = Inr (t, r')
      \<Longrightarrow> inv r' \<and> latest (fq_target q) r' = Some t \<and> tu_status t = TurnQueued"
    and followup_refused: "inv r \<Longrightarrow> latest (fq_target q) r = Some u \<Longrightarrow> \<not> turn_is_terminal (tu_status u)
      \<Longrightarrow> isl (followup cv q r)"
    and transition_ok: "inv r \<Longrightarrow> transition cv i st r = Inr (t, r')
      \<Longrightarrow> inv r' \<and> tu_status t = st
        \<and> latest j r' = map_option (\<lambda>u. if tu_id u = tu_id t then t else u) (latest j r)"
begin

text \<open>An agent with an unfinished turn takes no other one, whatever else is reported meanwhile, until a turn ends.\<close>

lemma busy_transition:
  assumes "inv r" "latest j r = Some u" "\<not> turn_is_terminal (tu_status u)"
    and "transition cv i st r = Inr (t, r')" "\<not> turn_is_terminal st"
  shows "inv r' \<and> (\<exists>v. latest j r' = Some v \<and> \<not> turn_is_terminal (tu_status v))"
  using transition_ok [OF assms(1,4), of j] assms(2,3,5) by simp

lemma busy_report:
  assumes "inv r" "latest j r = Some u" "\<not> turn_is_terminal (tu_status u)"
    and "\<forall>(cv, i, st) \<in> set steps. \<not> turn_is_terminal st"
  shows "inv (report transition steps r) \<and> (\<exists>v. latest j (report transition steps r) = Some v \<and> \<not> turn_is_terminal (tu_status v))"
  using assms
proof (induction steps arbitrary: r u)
  case (Cons x steps)
  obtain cv i st where x: "x = (cv, i, st)" by (cases x)
  show ?case
  proof (cases "transition cv i st r")
    case (Inl e)
    then show ?thesis using Cons x by simp
  next
    case (Inr z)
    obtain t r' where z: "z = (t, r')" by (cases z)
    have "\<not> turn_is_terminal st" using Cons.prems(4) by (simp add: x)
    from busy_transition [OF Cons.prems(1,2,3) Inr [unfolded z] this] Cons.IH [of r'] Cons.prems(4)
    show ?thesis by (auto simp: x Inr z)
  qed
qed auto

lemma followup_exclusive:
  assumes "inv r" "unused_turn (cv_turn_id cv) r" "followup cv q r = Inr (t, r')"
    and "\<forall>(cv, i, st) \<in> set steps. \<not> turn_is_terminal st" "fq_target q' = fq_target q"
  shows "isl (followup cv' q' (report transition steps r'))"
proof -
  have ok: "inv r'" "latest (fq_target q) r' = Some t" "\<not> turn_is_terminal (tu_status t)"
    using followup_ok [OF assms(1,2,3)] by (auto simp: turn_is_terminal_def)
  from busy_report [OF ok assms(4)] obtain v
    where "inv (report transition steps r')" "latest (fq_target q') (report transition steps r') = Some v" "\<not> turn_is_terminal (tu_status v)"
    using assms(5) by auto
  then show ?thesis by (rule followup_refused)
qed

end

definition unused_row :: "uuid \<Rightarrow> collab_tables \<Rightarrow> bool" where
  "unused_row i tb \<longleftrightarrow> bt_get (tb_turns tb) i = None"

lemma latest_append:
  "turns_of tb' i = turns_of tb i @ [t] \<Longrightarrow> read_latest_turn tb' i = Some t"
  by (simp add: read_latest_turn_def)

lemma latest_replace:
  "turns_of tb' i = map f (turns_of tb i) \<Longrightarrow> read_latest_turn tb' i = map_option f (read_latest_turn tb i)"
  by (simp add: read_latest_turn_def last_map)

lemma sql_followup_latest:
  assumes inv: "tables_inv tb" and followup: "sql_create_followup_turn cv q tb = Inr (t, tb')"
  shows "read_latest_turn tb' (fq_target q) = Some t" "tu_status t = TurnQueued"
proof -
  from followup obtain caller target where checks: "followup_checks q tb caller target"
    and t: "t = followup_turn cv q tb target" and row: "insert_turn_row t tb = Inr tb'"
    unfolding sql_followup_iff [OF inv] by blast
  have simps: "tu_agent_thread_id t = fq_target q" "tu_session_id t = th_session_id target"
    "tu_sequence t = Suc (length (turns_of tb (fq_target q)))"
    by (simp_all add: t followup_turn_def queued_turn_def)
  have ended: "list_all (\<lambda>u. turn_is_terminal (tu_status u)) (turns_of tb (fq_target q))"
    using checks by (intro latest_terminal [OF inv]) (simp add: followup_checks_def)
  have get: "bt_get (tb_threads tb) (fq_target q) = Some target" using checks by (simp add: followup_checks_def)
  have tb': "tb' = write_turn t tb" "bt_get (tb_turns tb) (tu_id t) = None" using insert_turn_row_Inr [OF row] by blast+
  show "read_latest_turn tb' (fq_target q) = Some t"
    unfolding tb'(1) using append_turn_inv(2) [OF inv tb'(2), of target] get ended
    by (intro latest_append) (simp add: simps)
  show "tu_status t = TurnQueued" by (simp add: t followup_turn_def queued_turn_def)
qed

lemma sql_followup_busy:
  assumes "tables_inv tb" "read_latest_turn tb (fq_target q) = Some u" "\<not> turn_is_terminal (tu_status u)"
  shows "isl (sql_create_followup_turn cv q tb)"
proof (cases "sql_create_followup_turn cv q tb")
  case (Inr z)
  obtain t tb' where "z = (t, tb')" by (cases z)
  with Inr assms show ?thesis by (auto simp: sql_followup_iff followup_checks_def)
qed simp

lemma sql_transition_latest:
  assumes inv: "tables_inv tb" and transition: "sql_transition_turn cv i st tb = Inr (t, tb')"
  shows "read_latest_turn tb' j = map_option (\<lambda>u. if tu_id u = tu_id t then t else u) (read_latest_turn tb j)" "tu_status t = st"
proof -
  from transition obtain u where u: "bt_get (tb_turns tb) i = Some u" "turn_transition st (cv_now cv) u = Inr t"
    and tb': "tb' = write_turn t tb" by (auto simp: sql_transition_turn_def res_Inr_iffs)
  note t = turn_transition_Inr [OF u(2)]
  have "tu_id u = i" using u(1) tables_invD(1) [OF inv] by (simp add: keys_ok_def)
  then show "read_latest_turn tb' j = map_option (\<lambda>u. if tu_id u = tu_id t then t else u) (read_latest_turn tb j)"
    unfolding tb' using u(1) t by (intro latest_replace replace_turn_inv(2) [OF inv, of t u]) auto
  show "tu_status t = st" by (rule t(5))
qed

interpretation sql: turn_registry tables_inv unused_row sql_create_followup_turn sql_transition_turn "\<lambda>i tb. read_latest_turn tb i"
  by unfold_locales (auto intro: followup_turn_inv transition_turn_inv sql_followup_busy
      dest: sql_followup_latest sql_transition_latest)

definition memory_inv :: "registry \<Rightarrow> bool" where
  "memory_inv rg \<longleftrightarrow> (\<exists>tb. simulates tb rg \<and> tables_inv tb)"

definition unused_entry :: "uuid \<Rightarrow> registry \<Rightarrow> bool" where
  "unused_entry i rg \<longleftrightarrow> bt_get (rg_turns rg) i = None"

text \<open>What the tables promise carries over to the registry in memory.\<close>

lemma agrees_mem:
  assumes "agrees x y" "y = Inr (a, rg)"
  obtains tb where "x = Inr (a, tb)" "simulates tb rg"
  using assms by (auto simp: agrees_def split: sum.splits)

lemma mem_followup_ok:
  assumes inv: "memory_inv rg" and unused: "unused_entry (cv_turn_id cv) rg"
    and followup: "mem_create_followup_turn cv q rg = Inr (t, rg')"
  shows "memory_inv rg' \<and> latest_turn_locked rg' (fq_target q) = Some t \<and> tu_status t = TurnQueued"
proof -
  from inv obtain tb where sim: "simulates tb rg" and tb: "tables_inv tb" by (auto simp: memory_inv_def)
  have "bt_get (tb_turns tb) (cv_turn_id cv) = None" using unused simulatesD(3) [OF sim] by (simp add: unused_entry_def)
  from followup_agreement [OF sim tb this] followup obtain tb'
    where tb': "sql_create_followup_turn cv q tb = Inr (t, tb')" "simulates tb' rg'" by (rule agrees_mem)
  have inv': "tables_inv tb'" by (rule followup_turn_inv [OF tb'(1) tb])
  then show ?thesis
    using sql_followup_latest [OF tb tb'(1)] tb'(2) simulates_latest [OF tb'(2) inv'] by (auto simp: memory_inv_def)
qed

lemma mem_followup_busy:
  assumes inv: "memory_inv rg" and busy: "latest_turn_locked rg (fq_target q) = Some u" "\<not> turn_is_terminal (tu_status u)"
  shows "isl (mem_create_followup_turn cv q rg)"
proof (cases "mem_create_followup_turn cv q rg")
  case (Inr z)
  obtain t rg' where z: "z = (t, rg')" by (cases z)
  from inv obtain tb where sim: "simulates tb rg" and tb: "tables_inv tb" by (auto simp: memory_inv_def)
  then show ?thesis
    using Inr busy simulates_latest [OF sim tb] unfolding z mem_followup_iff [OF sim tb] by (auto simp: followup_checks_def)
qed simp

lemma mem_transition_ok:
  assumes inv: "memory_inv rg" and transition: "mem_transition_turn cv i st rg = Inr (t, rg')"
  shows "memory_inv rg' \<and> tu_status t = st
    \<and> latest_turn_locked rg' j = map_option (\<lambda>u. if tu_id u = tu_id t then t else u) (latest_turn_locked rg j)"
proof -
  from inv obtain tb where sim: "simulates tb rg" and tb: "tables_inv tb" by (auto simp: memory_inv_def)
  from transition_agreement [OF sim tb] transition obtain tb'
    where tb': "sql_transition_turn cv i st tb = Inr (t, tb')" "simulates tb' rg'" by (rule agrees_mem)
  have inv': "tables_inv tb'" by (rule transition_turn_inv [OF tb'(1) tb])
  show ?thesis
    using sql_transition_latest [OF tb tb'(1)] tb'(2) inv' unfolding simulates_latest [OF tb'(2) inv'] simulates_latest [OF sim tb]
    by (auto simp: memory_inv_def)
qed

interpretation mem: turn_registry memory_inv unused_entry mem_create_followup_turn mem_transition_turn "\<lambda>i rg. latest_turn_locked rg i"
  using mem_followup_ok mem_followup_busy mem_transition_ok by unfold_locales blast+


section \<open>Sequences of operations\<close>

datatype registry_op =
    CreateSession collab_env create_session_request
  | SpawnAgent collab_env spawn_request
  | FollowupTurn collab_env followup_request
  | TransitionTurn collab_env uuid turn_status

datatype registry_answer =
    SessionCreated collab_session agent_thread agent_turn
  | AgentSpawned agent_thread agent_turn
  | TurnAnswer agent_turn
  | Refused

definition answer :: "('a \<Rightarrow> registry_answer) \<Rightarrow> 'r \<Rightarrow> collab_error + 'a \<times> 'r \<Rightarrow> registry_answer \<times> 'r" where
  "answer f r x = (case x of Inr (a, r') \<Rightarrow> (f a, r') | Inl _ \<Rightarrow> (Refused, r))"

fun sql_apply :: "registry_op \<Rightarrow> collab_tables \<Rightarrow> registry_answer \<times> collab_tables" where
  "sql_apply (CreateSession cv q) tb = answer (\<lambda>(s, t, u). SessionCreated s t u) tb (sql_create_session cv q tb)"
| "sql_apply (SpawnAgent cv q) tb = answer (\<lambda>(t, u). AgentSpawned t u) tb (sql_spawn_agent cv q tb)"
| "sql_apply (FollowupTurn cv q) tb = answer TurnAnswer tb (sql_create_followup_turn cv q tb)"
| "sql_apply (TransitionTurn cv i st) tb = answer TurnAnswer tb (sql_transition_turn cv i st tb)"

fun mem_apply :: "registry_op \<Rightarrow> registry \<Rightarrow> registry_answer \<times> registry" where
  "mem_apply (CreateSession cv q) rg = answer (\<lambda>(s, t, u). SessionCreated s t u) rg (mem_create_session cv q rg)"
| "mem_apply (SpawnAgent cv q) rg = answer (\<lambda>(t, u). AgentSpawned t u) rg (mem_spawn_agent cv q rg)"
| "mem_apply (FollowupTurn cv q) rg = answer TurnAnswer rg (mem_create_followup_turn cv q rg)"
| "mem_apply (TransitionTurn cv i st) rg = answer TurnAnswer rg (mem_transition_turn cv i st rg)"

fun run_ops :: "('o \<Rightarrow> 'r \<Rightarrow> 'a \<times> 'r) \<Rightarrow> 'o list \<Rightarrow> 'r \<Rightarrow> 'a list \<times> 'r" where
  "run_ops f [] r = ([], r)"
| "run_ops f (x # xs) r = (let (a, r1) = f x r; (as, r2) = run_ops f xs r1 in (a # as, r2))"

text \<open>
  The identifiers an operation draws are unused, and a session is created for a conversation that exists and has
  none: the constraints of the tables that the registry in memory does not have.
\<close>

fun fresh_op :: "registry_op \<Rightarrow> collab_tables \<Rightarrow> bool" where
  "fresh_op (CreateSession cv q) tb \<longleftrightarrow> new_session cv q tb \<and> sp_max_depth (cq_session_policy q) < 65535"
| "fresh_op (SpawnAgent cv q) tb \<longleftrightarrow> fresh_ids cv (cv_turn_id cv) (wq_runtime_snapshot q) tb"
| "fresh_op (FollowupTurn cv q) tb \<longleftrightarrow> bt_get (tb_turns tb) (cv_turn_id cv) = None"
| "fresh_op (TransitionTurn cv i st) tb \<longleftrightarrow> True"

fun fresh_ops :: "registry_op list \<Rightarrow> collab_tables \<Rightarrow> bool" where
  "fresh_ops [] tb \<longleftrightarrow> True"
| "fresh_ops (x # xs) tb \<longleftrightarrow> fresh_op x tb \<and> fresh_ops xs (snd (sql_apply x tb))"

definition empty_registry :: registry where
  "empty_registry =
     \<lparr>rg_sessions = [], rg_threads = [], rg_turns = [], rg_snapshots = [], rg_paths = Map.empty, rg_turns_by_thread = Map.empty\<rparr>"

lemma empty_simulates: "simulates empty_tables empty_registry"
  by (simp add: simulates_def empty_tables_def empty_registry_def bt_contains_def)

lemma answer_agrees:
  assumes "agrees x y" "simulates tb rg" "tables_inv tb" and inv: "\<And>a tb'. x = Inr (a, tb') \<Longrightarrow> tables_inv tb'"
  shows "fst (answer f tb x) = fst (answer f rg y) \<and> simulates (snd (answer f tb x)) (snd (answer f rg y))
    \<and> tables_inv (snd (answer f tb x))"
proof (cases x)
  case (Inl e)
  then show ?thesis using assms by (cases y) (auto simp: answer_def agrees_def)
next
  case (Inr z)
  obtain a tb' where z: "z = (a, tb')" by (cases z)
  show ?thesis using assms(1) inv [of a tb'] by (cases y) (auto simp: answer_def agrees_def Inr z)
qed

lemma apply_agrees:
  assumes sim: "simulates tb rg" and inv: "tables_inv tb" and fresh: "fresh_op x tb"
  shows "fst (sql_apply x tb) = fst (mem_apply x rg) \<and> simulates (snd (sql_apply x tb)) (snd (mem_apply x rg))
    \<and> tables_inv (snd (sql_apply x tb))"
proof (cases x)
  case (CreateSession cv q)
  then have new: "new_session cv q tb" "sp_max_depth (cq_session_policy q) < 65535" using fresh by simp_all
  show ?thesis unfolding CreateSession sql_apply.simps mem_apply.simps
    using create_session_inv [OF _ inv new(2)] by (rule answer_agrees [OF create_agreement [OF sim inv new] sim inv])
next
  case (SpawnAgent cv q)
  then have "fresh_ids cv (cv_turn_id cv) (wq_runtime_snapshot q) tb" using fresh by simp
  then have agree: "agrees (sql_spawn_agent cv q tb) (mem_spawn_agent cv q rg)" by (rule spawn_agreement [OF sim inv])
  have "tables_inv tb'" if "sql_spawn_agent cv q tb = Inr (a, tb')" for a tb'
    using that by (cases a) (auto intro: spawn_agent_inv [OF _ inv])
  then show ?thesis unfolding SpawnAgent sql_apply.simps mem_apply.simps by (rule answer_agrees [OF agree sim inv])
next
  case (FollowupTurn cv q)
  then have "bt_get (tb_turns tb) (cv_turn_id cv) = None" using fresh by simp
  then have agree: "agrees (sql_create_followup_turn cv q tb) (mem_create_followup_turn cv q rg)"
    by (rule followup_agreement [OF sim inv])
  show ?thesis unfolding FollowupTurn sql_apply.simps mem_apply.simps
    using followup_turn_inv [OF _ inv] by (rule answer_agrees [OF agree sim inv])
next
  case (TransitionTurn cv i st)
  show ?thesis unfolding TransitionTurn sql_apply.simps mem_apply.simps
    using transition_turn_inv [OF _ inv] by (rule answer_agrees [OF transition_agreement [OF sim inv] sim inv])
qed

lemma run_agrees:
  assumes "simulates tb rg" "tables_inv tb" "fresh_ops ops tb"
  shows "fst (run_ops sql_apply ops tb) = fst (run_ops mem_apply ops rg)
    \<and> simulates (snd (run_ops sql_apply ops tb)) (snd (run_ops mem_apply ops rg))
    \<and> tables_inv (snd (run_ops sql_apply ops tb))"
  using assms
proof (induction ops arbitrary: tb rg)
  case (Cons x ops)
  have "fresh_op x tb" using Cons.prems(3) by simp
  from apply_agrees [OF Cons.prems(1,2) this]
    Cons.IH [of "snd (sql_apply x tb)" "snd (mem_apply x rg)"] Cons.prems(3)
  show ?case by (simp add: Let_def case_prod_unfold)
qed simp

definition accepted :: "collab_error + 'a \<Rightarrow> 'a option" where
  "accepted x = (case x of Inr a \<Rightarrow> Some a | Inl _ \<Rightarrow> None)"

definition example_finish :: "registry_op list" where
  "example_finish =
     [TransitionTurn (registry_example_env ''s'' ''t'' ''u'') ''turn2'' TurnRunning,
      TransitionTurn (registry_example_env ''s'' ''t'' ''u'') ''turn2'' TurnCompleted]"

definition finished_tables :: collab_tables where
  "finished_tables = spawned_tables\<lparr>tb_turns :=
     [(''turn1'', queued_turn 7 ''turn1'' ''s'' ''root1'' None 1 ''plan''),
      (''turn2'', (queued_turn 7 ''turn2'' ''s'' ''child1'' (Some (''root1'', ''turn1'')) 1 ''read it'')
         \<lparr>tu_status := TurnCompleted, tu_started_at := Some 7, tu_completed_at := Some 7\<rparr>)]\<rparr>"

definition example_followup :: followup_request where
  "example_followup =
     \<lparr>fq_requested_by_thread = ''root1'', fq_requested_by_turn = ''turn1'', fq_target = ''child1'', fq_task_message = ''read it''\<rparr>"

lemma example_finished: "run_ops sql_apply example_finish spawned_tables = (fst (run_ops sql_apply example_finish spawned_tables), finished_tables)"
  by (simp add: example_finish_def finished_tables_def spawned_tables_def sql_transition_turn_def turn_transition_def ok_or_def
      can_transition_to_def turn_is_terminal_def queued_turn_def registry_example_env_def answer_def write_turn_def Let_def)

lemma example_descendant: "is_descendant_of ''/root/read'' ''/root''"
  by code_simp

lemma example_followed:
  "\<exists>t tb. sql_create_followup_turn (registry_example_env ''s'' ''t'' ''turn3'') example_followup finished_tables = Inr (t, tb)"
  by (simp add: sql_create_followup_turn_def example_followup_def finished_tables_def spawned_tables_def created_tables_def
      example_texts example_descendant ok_or_def thread_is_archived_def read_latest_turn_def turns_of_def turn_is_terminal_def
      example_rows example_records)

definition example_ops :: "registry_op list" where
  "example_ops =
     [CreateSession (registry_example_env ''s'' ''root1'' ''u'') example_create,
      SpawnAgent (registry_example_env ''s'' ''child1'' ''turn2'') example_spawn]"

lemma example_applied:
  "snd (sql_apply (CreateSession (registry_example_env ''s'' ''root1'' ''u'') example_create) empty_tables) = created_tables"
  "snd (sql_apply (SpawnAgent (registry_example_env ''s'' ''child1'' ''turn2'') example_spawn) created_tables) = spawned_tables"
  using example_created example_agent_spawned by (auto simp: answer_def)

lemma example_fresh: "fresh_op (CreateSession (registry_example_env ''s'' ''root1'' ''u'') example_create) empty_tables"
  "fresh_op (SpawnAgent (registry_example_env ''s'' ''child1'' ''turn2'') example_spawn) created_tables"
  by (simp_all add: new_session_def fresh_ids_def empty_tables_def created_tables_def example_records)

lemma example_run:
  "snd (run_ops sql_apply (example_ops @ rest) empty_tables) = snd (run_ops sql_apply rest spawned_tables)"
  "fresh_ops (example_ops @ rest) empty_tables \<longleftrightarrow> fresh_ops rest spawned_tables"
  using example_fresh
  by (simp_all add: example_ops_def Let_def case_prod_unfold example_applied del: sql_apply.simps fresh_op.simps)



text \<open>
  An agent takes one turn at a time, in both registries.  Once a follow-up turn is accepted, a second one for the
  same agent is refused as long as every state reported in between, for whatever turn, is one that does not end a
  turn.
\<close>
theorem busy_agent_refuses_turn:
  assumes "fresh_ops ops empty_tables" and "fresh_op (FollowupTurn cv q) (snd (run_ops sql_apply ops empty_tables))"
    and "sql_create_followup_turn cv q (snd (run_ops sql_apply ops empty_tables)) = Inr (t, tb)"
    and "\<forall>(cv, i, st) \<in> set steps. \<not> turn_is_terminal st" and "fq_target q' = fq_target q"
  shows "isl (sql_create_followup_turn cv' q' (report sql_transition_turn steps tb))
    \<and> (\<exists>rg. mem_create_followup_turn cv q (snd (run_ops mem_apply ops empty_registry)) = Inr (t, rg)
         \<and> isl (mem_create_followup_turn cv' q' (report mem_transition_turn steps rg)))"
proof -
  let ?tb = "snd (run_ops sql_apply ops empty_tables)" and ?rg = "snd (run_ops mem_apply ops empty_registry)"
  have sim: "simulates ?tb ?rg" and inv: "tables_inv ?tb"
    using run_agrees [OF empty_simulates empty_tables_inv assms(1)] by blast+
  have unused: "bt_get (tb_turns ?tb) (cv_turn_id cv) = None" using assms(2) by simp
  have mem: "memory_inv ?rg" "unused_entry (cv_turn_id cv) ?rg"
    using sim inv unused simulatesD(3) [OF sim] by (auto simp: memory_inv_def unused_entry_def)
  obtain rg where rg: "mem_create_followup_turn cv q ?rg = Inr (t, rg)"
    using followup_agreement [OF sim inv unused, of q] assms(3) by (auto simp: agrees_def split: sum.splits)
  have "isl (sql_create_followup_turn cv' q' (report sql_transition_turn steps tb))"
    using sql.followup_exclusive [OF inv _ assms(3,4,5)] unused by (simp add: unused_row_def)
  moreover have "isl (mem_create_followup_turn cv' q' (report mem_transition_turn steps rg))"
    by (rule mem.followup_exclusive [OF mem rg assms(4,5)])
  ultimately show ?thesis using rg by blast
qed

theorem busy_agent_refuses_turn_witness:
  "\<exists>t tb. sql_create_followup_turn (registry_example_env ''s'' ''t'' ''turn3'') example_followup finished_tables = Inr (t, tb)
     \<and> isl (sql_create_followup_turn (registry_example_env ''s'' ''t'' ''turn4'') example_followup
          (report sql_transition_turn [(registry_example_env ''s'' ''t'' ''u'', ''turn3'', TurnRunning)] tb))"
proof -
  let ?ops = "example_ops @ example_finish"
  from example_followed obtain t tb
    where f: "sql_create_followup_turn (registry_example_env ''s'' ''t'' ''turn3'') example_followup finished_tables = Inr (t, tb)"
    by blast
  have run: "snd (run_ops sql_apply ?ops empty_tables) = finished_tables"
    unfolding example_run by (subst example_finished) simp
  have fresh: "fresh_ops ?ops empty_tables" unfolding example_run by (simp add: example_finish_def)
  have unused: "fresh_op (FollowupTurn (registry_example_env ''s'' ''t'' ''turn3'') example_followup) finished_tables"
    by (simp add: finished_tables_def registry_example_env_def)
  have "\<forall>(cv, i, st) \<in> set [(registry_example_env ''s'' ''t'' ''u'', ''turn3'', TurnRunning)]. \<not> turn_is_terminal st"
    by (simp add: turn_is_terminal_def)
  from busy_agent_refuses_turn [OF fresh, unfolded run, OF unused f this refl] f show ?thesis by blast
qed

end
