(* ===== verification/Mailbox.thy ===== *)
theory Mailbox
  imports Collaboration_Store
begin

text \<open>
  Messages between the agents of a session: the mailbox in memory (\<open>collaboration/mailbox.rs\<close>), the mailbox over SQLite
  (\<open>collaboration/sqlite_repository/mailbox_repository.rs\<close>), and the report of the state of a turn, which informs the
  parent agent (\<open>record_turn_state\<close> of \<open>collaboration/sqlite_repository.rs\<close>).

  The locale \<open>mailbox\<close> states what a client of either mailbox relies on, over the list of messages of a session; it is
  interpreted on both.  An operation reads the clock once.
\<close>

section \<open>Messages\<close>

datatype message_kind = KindMessage | KindCompletion | KindNeedsAttention

fun message_kind_str :: "message_kind \<Rightarrow> string" where
  "message_kind_str KindMessage = ''message''"
| "message_kind_str KindCompletion = ''completion''"
| "message_kind_str KindNeedsAttention = ''needs_attention''"

record mailbox_message =
  mg_id :: uuid
  mg_session_id :: uuid
  mg_sequence :: nat
  mg_from :: uuid
  mg_to :: uuid
  mg_kind :: message_kind
  mg_payload :: json
  mg_causation_id :: "uuid option"
  mg_created_at :: timestamp
  mg_delivered_at :: "timestamp option"
  mg_acknowledged_at :: "timestamp option"

record enqueue_request =
  nq_session_id :: uuid
  nq_from :: uuid
  nq_to :: uuid
  nq_kind :: message_kind
  nq_payload :: json
  nq_causation_id :: "uuid option"

datatype mailbox_error =
    MessageNotFound uuid
  | WrongTarget uuid uuid
  | MailboxPersistence string

definition parse_message_kind :: "string \<Rightarrow> mailbox_error + message_kind" where
  "parse_message_kind v =
     (if v = ''message'' then Inr KindMessage
      else if v = ''completion'' then Inr KindCompletion
      else if v = ''needs_attention'' then Inr KindNeedsAttention
      else Inl (MailboxPersistence (''unknown mailbox message kind `'' @ v @ ''`'')))"

definition new_message :: "timestamp \<Rightarrow> uuid \<Rightarrow> enqueue_request \<Rightarrow> nat \<Rightarrow> mailbox_message" where
  "new_message now i q sequence =
     \<lparr>mg_id = i, mg_session_id = nq_session_id q, mg_sequence = sequence, mg_from = nq_from q, mg_to = nq_to q,
      mg_kind = nq_kind q, mg_payload = nq_payload q, mg_causation_id = nq_causation_id q, mg_created_at = now,
      mg_delivered_at = None, mg_acknowledged_at = None\<rparr>"

definition or_insert :: "timestamp option \<Rightarrow> timestamp \<Rightarrow> timestamp option" where
  \<comment> \<open>\<open>get_or_insert\<close>, \<open>COALESCE\<close>\<close>
  "or_insert x now = (case x of Some _ \<Rightarrow> x | None \<Rightarrow> Some now)"

definition clamp_limit :: "nat \<Rightarrow> nat" where
  "clamp_limit limit = max 1 (min limit 256)"

section \<open>The mailbox in memory\<close>

record mailbox_state =
  ms_next_sequence :: "uuid \<rightharpoonup> nat"
  ms_messages :: "mailbox_message list"
  ms_deduplication :: "uuid \<times> uuid \<times> message_kind \<times> uuid \<rightharpoonup> uuid"

definition mem_enqueue ::
    "timestamp \<Rightarrow> uuid \<Rightarrow> enqueue_request \<Rightarrow> mailbox_state \<Rightarrow> mailbox_error + mailbox_message \<times> mailbox_state" where
  "mem_enqueue now i q st =
     (let key = (\<lambda>c. (nq_session_id q, nq_to q, nq_kind q, c)) in
      case Option.bind (nq_causation_id q) (\<lambda>c. ms_deduplication st (key c)) of
        Some existing \<Rightarrow>
          res_bind (ok_or (find (\<lambda>m. mg_id m = existing) (ms_messages st)) (MessageNotFound existing)) (\<lambda>m. Inr (m, st))
      | None \<Rightarrow>
          (let sequence = (case ms_next_sequence st (nq_session_id q) of Some n \<Rightarrow> n + 1 | None \<Rightarrow> 1);
               m = new_message now i q sequence
           in Inr (m, st\<lparr>ms_next_sequence := (ms_next_sequence st)(nq_session_id q \<mapsto> sequence),
                ms_deduplication := (case nq_causation_id q of
                    Some c \<Rightarrow> (ms_deduplication st)(key c \<mapsto> i) | None \<Rightarrow> ms_deduplication st),
                ms_messages := ms_messages st @ [m]\<rparr>)))"

fun deliver_first :: "(mailbox_message \<Rightarrow> bool) \<Rightarrow> timestamp \<Rightarrow> nat \<Rightarrow> mailbox_message list \<Rightarrow> mailbox_message list \<times> mailbox_message list" where
  \<comment> \<open>\<open>iter_mut().filter(p).take(n).map(..)\<close>: the messages taken, and all messages afterwards\<close>
  "deliver_first p now n [] = ([], [])"
| "deliver_first p now n (m # ms) =
     (if n = 0 then ([], m # ms)
      else if p m then
        (let m' = m\<lparr>mg_delivered_at := or_insert (mg_delivered_at m) now\<rparr>; (taken, rest) = deliver_first p now (n - 1) ms
         in (m' # taken, m' # rest))
      else (let (taken, rest) = deliver_first p now n ms in (taken, m # rest)))"

definition mem_snapshot ::
    "timestamp \<Rightarrow> uuid \<Rightarrow> uuid \<Rightarrow> nat option \<Rightarrow> nat \<Rightarrow> mailbox_state \<Rightarrow> mailbox_error + mailbox_message list \<times> mailbox_state" where
  "mem_snapshot now session_id target after limit st =
     (let (taken, messages) = deliver_first (\<lambda>m. mg_session_id m = session_id \<and> mg_to m = target
                                  \<and> mg_acknowledged_at m = None
                                  \<and> (case after of Some n \<Rightarrow> n < mg_sequence m | None \<Rightarrow> True))
                                now (clamp_limit limit) (ms_messages st)
      in Inr (sort_key mg_sequence taken, st\<lparr>ms_messages := messages\<rparr>))"

fun replace_first :: "('a \<Rightarrow> bool) \<Rightarrow> ('a \<Rightarrow> 'a) \<Rightarrow> 'a list \<Rightarrow> 'a list" where
  "replace_first p f [] = []"
| "replace_first p f (x # xs) = (if p x then f x # xs else x # replace_first p f xs)"

fun mem_acknowledge ::
    "timestamp \<Rightarrow> uuid \<Rightarrow> uuid list \<Rightarrow> mailbox_state \<Rightarrow> (mailbox_error + unit) \<times> mailbox_state" where
  \<comment> \<open>what precedes a refused identifier stays acknowledged\<close>
  "mem_acknowledge now target [] st = (Inr (), st)"
| "mem_acknowledge now target (i # ids) st =
     (case find (\<lambda>m. mg_id m = i) (ms_messages st) of
        None \<Rightarrow> (Inl (MessageNotFound i), st)
      | Some m \<Rightarrow>
          if mg_to m \<noteq> target then (Inl (WrongTarget i target), st)
          else mem_acknowledge now target ids
            (st\<lparr>ms_messages := replace_first (\<lambda>m. mg_id m = i)
               (\<lambda>m. m\<lparr>mg_acknowledged_at := or_insert (mg_acknowledged_at m) now\<rparr>) (ms_messages st)\<rparr>))"

section \<open>The mailbox over SQLite\<close>

datatype delivery_mark = MarkPending | MarkDelivered | MarkAcknowledged

record mailbox_row =
  mr_message :: mailbox_message
  mr_delivery_state :: delivery_mark

record ledger_item =
  li_id :: uuid
  li_session_id :: uuid
  li_agent_thread_id :: uuid
  li_agent_turn_id :: uuid
  li_sequence :: nat
  li_item_kind :: string
  li_payload :: json
  li_created_at :: timestamp

record collab_db =
  db_tables :: collab_tables
  db_messages :: "(uuid, mailbox_row) btree"
  db_ledger :: "(uuid, ledger_item) btree"

definition session_messages :: "collab_db \<Rightarrow> uuid \<Rightarrow> mailbox_message list" where
  \<comment> \<open>\<open>WHERE session_id = s ORDER BY sequence\<close>\<close>
  "session_messages db s =
     sort_key mg_sequence (filter (\<lambda>m. mg_session_id m = s) (map (mr_message \<circ> snd) (db_messages db)))"

definition same_cause :: "enqueue_request \<Rightarrow> mailbox_message \<Rightarrow> bool" where
  "same_cause q m \<longleftrightarrow>
     mg_to m = nq_to q \<and> mg_kind m = nq_kind q \<and> nq_causation_id q \<noteq> None \<and> mg_causation_id m = nq_causation_id q"

definition find_caused :: "enqueue_request \<Rightarrow> collab_db \<Rightarrow> mailbox_message option" where
  \<comment> \<open>the index \<open>idx_agent_mailbox_causation\<close> leaves at most one\<close>
  "find_caused q db = find (same_cause q) (session_messages db (nq_session_id q))"

definition next_message_sequence :: "collab_db \<Rightarrow> uuid \<Rightarrow> nat" where
  \<comment> \<open>\<open>COALESCE(MAX(sequence), 0) + 1\<close>\<close>
  "next_message_sequence db s = fold max (map mg_sequence (session_messages db s)) 0 + 1"

definition insert_message_row :: "mailbox_message \<Rightarrow> collab_db \<Rightarrow> mailbox_error + collab_db" where
  "insert_message_row m db =
     res_ensure (\<not> bt_contains (db_messages db) (mg_id m)
         \<and> list_all (\<lambda>r. mg_sequence r \<noteq> mg_sequence m
              \<and> \<not> (mg_to r = mg_to m \<and> mg_kind r = mg_kind m \<and> mg_causation_id m \<noteq> None \<and> mg_causation_id r = mg_causation_id m))
            (session_messages db (mg_session_id m))) (MailboxPersistence ''UNIQUE constraint failed'')
    (res_ensure (bt_contains (tb_sessions (db_tables db)) (mg_session_id m)
         \<and> bt_contains (tb_threads (db_tables db)) (mg_from m) \<and> bt_contains (tb_threads (db_tables db)) (mg_to m))
       (MailboxPersistence ''FOREIGN KEY constraint failed'')
       (Inr (db\<lparr>db_messages := bt_insert (mg_id m) \<lparr>mr_message = m, mr_delivery_state = MarkPending\<rparr> (db_messages db)\<rparr>)))"

definition sql_enqueue ::
    "timestamp \<Rightarrow> uuid \<Rightarrow> enqueue_request \<Rightarrow> collab_db \<Rightarrow> mailbox_error + mailbox_message \<times> collab_db" where
  "sql_enqueue now i q db =
     res_bind (ok_or (bt_get (tb_threads (db_tables db)) (nq_from q)) (MailboxPersistence ''sender AgentThread was not found'')) (\<lambda>from.
     res_bind (ok_or (bt_get (tb_threads (db_tables db)) (nq_to q)) (MailboxPersistence ''target AgentThread was not found'')) (\<lambda>to.
     res_ensure (th_session_id from = nq_session_id q \<and> th_session_id to = nq_session_id q)
       (MailboxPersistence ''mailbox endpoints must belong to the requested CollaborationSession'')
       (case find_caused q db of
          Some existing \<Rightarrow> Inr (existing, db)
        | None \<Rightarrow>
            (let m = new_message now i q (next_message_sequence db (nq_session_id q))
             in res_bind (insert_message_row m db) (\<lambda>db'. Inr (m, db'))))))"

definition mark_row_delivered :: "timestamp \<Rightarrow> mailbox_row \<Rightarrow> mailbox_row" where
  "mark_row_delivered now r =
     (let m = mr_message r in
      \<lparr>mr_message = m\<lparr>mg_delivered_at := or_insert (mg_delivered_at m) now\<rparr>,
       mr_delivery_state = (if mg_acknowledged_at m = None then MarkDelivered else MarkAcknowledged)\<rparr>)"

definition mark_row_acknowledged :: "timestamp \<Rightarrow> mailbox_row \<Rightarrow> mailbox_row" where
  "mark_row_acknowledged now r =
     (let m = mr_message r in
      \<lparr>mr_message = m\<lparr>mg_delivered_at := or_insert (mg_delivered_at m) now,
         mg_acknowledged_at := or_insert (mg_acknowledged_at m) now\<rparr>,
       mr_delivery_state = MarkAcknowledged\<rparr>)"

definition update_row :: "(mailbox_row \<Rightarrow> mailbox_row) \<Rightarrow> uuid \<Rightarrow> (uuid, mailbox_row) btree \<Rightarrow> (uuid, mailbox_row) btree" where
  \<comment> \<open>\<open>UPDATE .. WHERE id = i\<close>\<close>
  "update_row f i rows = (case bt_get rows i of Some r \<Rightarrow> bt_insert i (f r) rows | None \<Rightarrow> rows)"

definition sql_snapshot ::
    "timestamp \<Rightarrow> uuid \<Rightarrow> uuid \<Rightarrow> nat option \<Rightarrow> nat \<Rightarrow> collab_db \<Rightarrow> mailbox_error + mailbox_message list \<times> collab_db" where
  "sql_snapshot now session_id target after limit db =
     (let low = (case after of Some n \<Rightarrow> n | None \<Rightarrow> 0) in
      res_ensure (low < 2 ^ 63) (MailboxPersistence ''out of range integral type conversion attempted'')
     (let messages = take (clamp_limit limit)
            (filter (\<lambda>m. mg_to m = target \<and> mg_acknowledged_at m = None \<and> low < mg_sequence m) (session_messages db session_id))
      in Inr (map (\<lambda>m. m\<lparr>mg_delivered_at := or_insert (mg_delivered_at m) now\<rparr>) messages,
           db\<lparr>db_messages := fold (update_row (mark_row_delivered now)) (map mg_id messages) (db_messages db)\<rparr>)))"

fun acknowledge_rows ::
    "timestamp \<Rightarrow> uuid \<Rightarrow> uuid list \<Rightarrow> (uuid, mailbox_row) btree \<Rightarrow> mailbox_error + (uuid, mailbox_row) btree" where
  "acknowledge_rows now target [] rows = Inr rows"
| "acknowledge_rows now target (i # ids) rows =
     res_bind (ok_or (bt_get rows i) (MailboxPersistence ''mailbox message was not found'')) (\<lambda>r.
     res_ensure (mg_to (mr_message r) = target) (MailboxPersistence ''mailbox message belongs to another target'')
       (acknowledge_rows now target ids (update_row (mark_row_acknowledged now) i rows)))"

definition sql_acknowledge ::
    "timestamp \<Rightarrow> uuid \<Rightarrow> uuid list \<Rightarrow> collab_db \<Rightarrow> (mailbox_error + unit) \<times> collab_db" where
  \<comment> \<open>one transaction: a refusal changes nothing\<close>
  "sql_acknowledge now target ids db =
     (case acknowledge_rows now target ids (db_messages db) of
        Inl e \<Rightarrow> (Inl e, db)
      | Inr rows \<Rightarrow> (Inr (), db\<lparr>db_messages := rows\<rparr>))"

section \<open>Reporting the state of a turn\<close>

definition next_ledger_sequence :: "collab_db \<Rightarrow> uuid \<Rightarrow> nat" where
  "next_ledger_sequence db thread_id =
     fold max (map li_sequence (filter (\<lambda>x. li_agent_thread_id x = thread_id) (map snd (db_ledger db)))) 0 + 1"

definition upsert_ledger :: "ledger_item \<Rightarrow> (uuid, ledger_item) btree \<Rightarrow> (uuid, ledger_item) btree" where
  \<comment> \<open>\<open>ON CONFLICT(id) DO UPDATE SET payload_json\<close>\<close>
  "upsert_ledger x rows =
     (case bt_get rows (li_id x) of
        Some old \<Rightarrow> bt_insert (li_id x) (old\<lparr>li_payload := li_payload x\<rparr>) rows
      | None \<Rightarrow> bt_insert (li_id x) x rows)"

definition report_kind :: "turn_status \<Rightarrow> message_kind option" where
  "report_kind next =
     (if turn_is_terminal next then Some KindCompletion
      else if needs_attention next then Some KindNeedsAttention
      else None)"

definition report_request :: "agent_turn \<Rightarrow> uuid \<Rightarrow> message_kind \<Rightarrow> json \<Rightarrow> enqueue_request" where
  "report_request turn p kind payload =
     \<lparr>nq_session_id = tu_session_id turn, nq_from = tu_agent_thread_id turn, nq_to = p, nq_kind = kind,
      nq_payload = payload, nq_causation_id = Some (tu_id turn)\<rparr>"

definition report_message ::
    "timestamp \<Rightarrow> uuid \<Rightarrow> enqueue_request \<Rightarrow> collab_db \<Rightarrow> mailbox_error + mailbox_message \<times> collab_db" where
  "report_message now i q db =
     (case find_caused q db of
        Some existing \<Rightarrow> Inr (existing, db)
      | None \<Rightarrow>
          (let m = new_message now i q (next_message_sequence db (nq_session_id q))
           in res_bind (insert_message_row m db) (\<lambda>db'. Inr (m, db'))))"

datatype record_error = RecordDomain collab_error | RecordMailbox mailbox_error

definition record_turn_state ::
    "collab_env \<Rightarrow> uuid \<Rightarrow> uuid \<Rightarrow> uuid \<Rightarrow> turn_status \<Rightarrow> json \<Rightarrow> collab_db
      \<Rightarrow> record_error + mailbox_message option \<times> collab_db" where
  \<comment> \<open>\<open>new_outcome\<close> and \<open>message_id\<close> are the identifiers drawn for a first outcome and for a message\<close>
  "record_turn_state cv new_outcome message_id turn_id next payload db =
     res_bind (map_err RecordDomain (record_turn_row cv new_outcome turn_id next (db_tables db))) (\<lambda>(turn, tables).
     res_bind (ok_or (bt_get (tb_threads (db_tables db)) (tu_agent_thread_id turn))
                (RecordDomain (CollabPersistence ''AgentThread was not found''))) (\<lambda>agent.
     let item = \<lparr>li_id = (case tu_outcome_ref turn of Some i \<Rightarrow> i | None \<Rightarrow> new_outcome), li_session_id = tu_session_id turn,
           li_agent_thread_id = tu_agent_thread_id turn, li_agent_turn_id = tu_id turn,
           li_sequence = next_ledger_sequence db (tu_agent_thread_id turn), li_item_kind = ''turn_outcome'',
           li_payload = payload, li_created_at = cv_now cv\<rparr>;
         db1 = db\<lparr>db_ledger := upsert_ledger item (db_ledger db)\<rparr> in
     case (th_parent agent, report_kind next) of
       (Some p, Some kind) \<Rightarrow>
         res_bind (map_err RecordMailbox (report_message (cv_now cv) message_id (report_request turn p kind payload) db1)) (\<lambda>(m, db2).
         Inr (Some m, db2\<lparr>db_tables := tables\<rparr>))
     | _ \<Rightarrow> Inr (None, db1\<lparr>db_tables := tables\<rparr>)))"

section \<open>What a client of a mailbox relies on\<close>

definition visible :: "mailbox_message \<Rightarrow> mailbox_message" where
  \<comment> \<open>a message without the time of its delivery\<close>
  "visible m = m\<lparr>mg_delivered_at := None\<rparr>"

definition pending :: "uuid \<Rightarrow> nat option \<Rightarrow> mailbox_message \<Rightarrow> bool" where
  "pending target after m \<longleftrightarrow>
     mg_to m = target \<and> mg_acknowledged_at m = None \<and> (case after of Some n \<Rightarrow> n < mg_sequence m | None \<Rightarrow> True)"

definition acknowledge_in :: "timestamp \<Rightarrow> uuid list \<Rightarrow> mailbox_message \<Rightarrow> mailbox_message" where
  "acknowledge_in now ids m =
     (if mg_id m \<in> set ids then m\<lparr>mg_acknowledged_at := or_insert (mg_acknowledged_at m) now\<rparr> else m)"

lemma visible_simps [simp]:
  "mg_id (visible m) = mg_id m" "mg_session_id (visible m) = mg_session_id m" "mg_sequence (visible m) = mg_sequence m"
  "mg_to (visible m) = mg_to m" "mg_from (visible m) = mg_from m" "mg_kind (visible m) = mg_kind m"
  "mg_causation_id (visible m) = mg_causation_id m" "mg_acknowledged_at (visible m) = mg_acknowledged_at m"
  "mg_payload (visible m) = mg_payload m" "mg_created_at (visible m) = mg_created_at m"
  "visible (m\<lparr>mg_delivered_at := d\<rparr>) = visible m" "visible (visible m) = visible m"
  "visible (new_message now i q n) = new_message now i q n"
  by (simp_all add: visible_def new_message_def)

lemma pending_visible [simp]: "pending t after (visible m) \<longleftrightarrow> pending t after m"
  by (simp add: pending_def split: option.splits)

lemma same_cause_visible [simp]: "same_cause q (visible m) \<longleftrightarrow> same_cause q m"
  by (simp add: same_cause_def)

lemma acknowledge_in_simps [simp]:
  "mg_id (acknowledge_in now ids m) = mg_id m" "mg_sequence (acknowledge_in now ids m) = mg_sequence m"
  "mg_session_id (acknowledge_in now ids m) = mg_session_id m" "mg_to (acknowledge_in now ids m) = mg_to m"
  "acknowledge_in now [] = (\<lambda>m. m)"
  "visible (acknowledge_in now ids m) = acknowledge_in now ids (visible m)"
  by (simp_all add: acknowledge_in_def visible_def fun_eq_iff)

lemma or_insert_Some [simp]: "or_insert x now \<noteq> None"
  by (simp add: or_insert_def split: option.splits)

lemma pending_acknowledged: "pending t after (acknowledge_in now ids m) \<longleftrightarrow> pending t after m \<and> mg_id m \<notin> set ids"
  using or_insert_Some [of "mg_acknowledged_at m" now] by (auto simp: pending_def acknowledge_in_def)

lemma find_snoc: "find p xs = None \<Longrightarrow> find p (xs @ [x]) = (if p x then Some x else None)"
  by (induction xs) (auto split: if_splits)

lemma find_snoc_False: "\<not> p x \<Longrightarrow> find p (xs @ [x]) = find p xs"
  by (induction xs) auto

lemma find_filter: "find p (filter r xs) = find (\<lambda>x. r x \<and> p x) xs"
  by (induction xs) auto

text \<open>Reading a page and acknowledging it leaves the rest of what is pending.\<close>

lemma filter_acknowledged:
  assumes "distinct (map mg_id ms)" and p: "P = filter (pending t None) ms"
  shows "filter (pending t None) (map (acknowledge_in now (map mg_id (take c P))) ms) = drop c P"
proof -
  let ?ids = "map mg_id (take c P)"
  have "filter (pending t None) (map (acknowledge_in now ?ids) ms)
      = map (acknowledge_in now ?ids) (filter (\<lambda>m. mg_id m \<notin> set ?ids) P)"
    by (simp add: filter_map o_def pending_acknowledged p conj_commute)
  also have "\<dots> = filter (\<lambda>m. mg_id m \<notin> set ?ids) P"
    by (rule map_idI) (simp add: acknowledge_in_def)
  also have "\<dots> = drop c P"
  proof -
    have d: "distinct (map mg_id (take c P @ drop c P))" using assms by (simp add: p distinct_map_filter)
    have "filter (\<lambda>m. mg_id m \<notin> set ?ids) (take c P @ drop c P) = drop c P"
      using d by (simp only: filter_append map_append distinct_append)
        (auto simp: filter_empty_conv intro!: filter_True)
    then show ?thesis by simp
  qed
  finally show ?thesis .
qed

fun drain ::
    "(timestamp \<Rightarrow> uuid \<Rightarrow> uuid \<Rightarrow> nat option \<Rightarrow> nat \<Rightarrow> 'm \<Rightarrow> mailbox_error + mailbox_message list \<times> 'm)
      \<Rightarrow> (timestamp \<Rightarrow> uuid \<Rightarrow> uuid list \<Rightarrow> 'm \<Rightarrow> (mailbox_error + unit) \<times> 'm)
      \<Rightarrow> timestamp \<Rightarrow> uuid \<Rightarrow> uuid \<Rightarrow> nat \<Rightarrow> nat \<Rightarrow> 'm \<Rightarrow> mailbox_message list \<times> 'm" where
  \<comment> \<open>an agent reads its pending messages page by page and acknowledges each page\<close>
  "drain snapshot acknowledge now s t limit 0 m = ([], m)"
| "drain snapshot acknowledge now s t limit (Suc rounds) m =
     (case snapshot now s t None limit m of
        Inl _ \<Rightarrow> ([], m)
      | Inr (xs, m1) \<Rightarrow>
          (case acknowledge now t (map mg_id xs) m1 of
             (Inl _, m2) \<Rightarrow> (xs, m2)
           | (Inr _, m2) \<Rightarrow>
               (let (ys, m3) = drain snapshot acknowledge now s t limit rounds m2 in (xs @ ys, m3))))"

locale mailbox =
  fixes inv :: "'m \<Rightarrow> bool"
    and unused :: "uuid \<Rightarrow> 'm \<Rightarrow> bool"
    and view :: "'m \<Rightarrow> uuid \<Rightarrow> mailbox_message list"
    and enqueue :: "timestamp \<Rightarrow> uuid \<Rightarrow> enqueue_request \<Rightarrow> 'm \<Rightarrow> mailbox_error + mailbox_message \<times> 'm"
    and snapshot :: "timestamp \<Rightarrow> uuid \<Rightarrow> uuid \<Rightarrow> nat option \<Rightarrow> nat \<Rightarrow> 'm \<Rightarrow> mailbox_error + mailbox_message list \<times> 'm"
    and acknowledge :: "timestamp \<Rightarrow> uuid \<Rightarrow> uuid list \<Rightarrow> 'm \<Rightarrow> (mailbox_error + unit) \<times> 'm"
  assumes ids: "inv m \<Longrightarrow> distinct (map mg_id (view m s))"
    and sequences: "inv m \<Longrightarrow> map mg_sequence (view m s) = [1..<Suc (length (view m s))]"
    and enqueue_caused: "inv m \<Longrightarrow> enqueue now i q m = Inr (x, m') \<Longrightarrow> find (same_cause q) (view m (nq_session_id q)) = Some y
      \<Longrightarrow> visible x = y \<and> m' = m"
    and enqueue_new: "inv m \<Longrightarrow> unused i m \<Longrightarrow> enqueue now i q m = Inr (x, m')
      \<Longrightarrow> find (same_cause q) (view m (nq_session_id q)) = None
      \<Longrightarrow> inv m' \<and> x = new_message now i q (Suc (length (view m (nq_session_id q))))
        \<and> view m' = (view m)(nq_session_id q := view m (nq_session_id q) @ [x])"
    and snapshot_ok: "inv m \<Longrightarrow> (case after of Some n \<Rightarrow> n < 2 ^ 63 | None \<Rightarrow> True)
      \<Longrightarrow> \<exists>xs m'. snapshot now s t after limit m = Inr (xs, m') \<and> inv m' \<and> view m' = view m
        \<and> map visible xs = take (clamp_limit limit) (filter (pending t after) (view m s))"
    and acknowledge_ok: "inv m \<Longrightarrow> \<forall>i \<in> set is. \<exists>x \<in> set (view m s). mg_id x = i \<and> mg_to x = t
      \<Longrightarrow> \<exists>m'. acknowledge now t is m = (Inr (), m') \<and> inv m' \<and> view m' s = map (acknowledge_in now is) (view m s)"
begin

lemma page_acknowledged:
  assumes inv: "inv m"
  shows "\<exists>xs m1 m2. snapshot now s t None limit m = Inr (xs, m1) \<and> acknowledge now t (map mg_id xs) m1 = (Inr (), m2)
    \<and> inv m2 \<and> map visible xs = take (clamp_limit limit) (filter (pending t None) (view m s))
    \<and> filter (pending t None) (view m2 s) = drop (clamp_limit limit) (filter (pending t None) (view m s))"
proof -
  let ?P = "filter (pending t None) (view m s)"
  from snapshot_ok [OF inv, of None now s t limit] obtain xs m1 where
    s: "snapshot now s t None limit m = Inr (xs, m1)" "inv m1" "view m1 = view m" "map visible xs = take (clamp_limit limit) ?P"
    by auto
  have ids_eq: "map mg_id xs = map mg_id (take (clamp_limit limit) ?P)"
    using arg_cong [OF s(4), of "map mg_id"] by (simp add: o_def)
  have "\<forall>i \<in> set (map mg_id xs). \<exists>x \<in> set (view m1 s). mg_id x = i \<and> mg_to x = t"
    unfolding ids_eq s(3) by (auto dest!: in_set_takeD simp: pending_def)
  from acknowledge_ok [OF s(2) this, of now] obtain m2 where
    a: "acknowledge now t (map mg_id xs) m1 = (Inr (), m2)" "inv m2" "view m2 s = map (acknowledge_in now (map mg_id xs)) (view m s)"
    by (auto simp: s(3))
  have "filter (pending t None) (view m2 s) = drop (clamp_limit limit) ?P"
    unfolding a(3) ids_eq by (rule filter_acknowledged [OF ids [OF inv] refl])
  with s a show ?thesis by blast
qed

lemma drain_complete:
  assumes "inv m" "length (filter (pending t None) (view m s)) \<le> rounds"
  shows "map visible (fst (drain snapshot acknowledge now s t limit rounds m)) = filter (pending t None) (view m s)
    \<and> inv (snd (drain snapshot acknowledge now s t limit rounds m))
    \<and> filter (pending t None) (view (snd (drain snapshot acknowledge now s t limit rounds m)) s) = []"
  using assms
proof (induction rounds arbitrary: m)
  case (Suc rounds)
  let ?P = "filter (pending t None) (view m s)" and ?c = "clamp_limit limit"
  from page_acknowledged [OF Suc.prems(1), of now s t limit] obtain xs m1 m2 where
    p: "snapshot now s t None limit m = Inr (xs, m1)" "acknowledge now t (map mg_id xs) m1 = (Inr (), m2)" "inv m2"
      "map visible xs = take ?c ?P" "filter (pending t None) (view m2 s) = drop ?c ?P"
    by blast
  have "1 \<le> ?c" by (simp add: clamp_limit_def)
  then have "length (filter (pending t None) (view m2 s)) \<le> rounds" using Suc.prems(2) by (simp add: p(5))
  from Suc.IH [OF p(3) this] p(4,5) show ?case
    by (simp add: p(1,2) case_prod_unfold Let_def)
qed simp

lemma enqueue_twice:
  assumes inv: "inv m" and i: "unused i m" and x: "enqueue now i q m = Inr (x, m')"
    and cause: "nq_causation_id q \<noteq> None" and q': "nq_session_id q' = nq_session_id q" "nq_to q' = nq_to q" "nq_kind q' = nq_kind q"
      "nq_causation_id q' = nq_causation_id q"
    and y: "enqueue now' i' q' m' = Inr (y, m'')"
  shows "visible y = visible x \<and> m'' = m'"
proof -
  have same: "same_cause q' = same_cause q" using q' by (simp add: same_cause_def fun_eq_iff)
  show ?thesis
  proof (cases "find (same_cause q) (view m (nq_session_id q))")
    case (Some z)
    with enqueue_caused [OF inv x] have x': "visible x = z" "m' = m" by blast+
    then show ?thesis using enqueue_caused [OF inv y [unfolded x'(2)]] Some same q'(1) by simp
  next
    case None
    with enqueue_new [OF inv i x] have new: "inv m'" "x = new_message now i q (Suc (length (view m (nq_session_id q))))"
      "view m' = (view m)(nq_session_id q := view m (nq_session_id q) @ [x])" by blast+
    have "same_cause q x" using cause by (simp add: new(2) same_cause_def new_message_def)
    then have "find (same_cause q') (view m' (nq_session_id q')) = Some x"
      using None by (simp add: new(3) same q'(1) find_snoc)
    from enqueue_caused [OF new(1) y this] show ?thesis using new(2) by simp
  qed
qed

end

section \<open>The mailbox in memory keeps the contract\<close>

definition mem_view :: "mailbox_state \<Rightarrow> uuid \<Rightarrow> mailbox_message list" where
  "mem_view st s = filter (\<lambda>m. mg_session_id m = s) (map visible (ms_messages st))"

definition mem_mailbox_inv :: "mailbox_state \<Rightarrow> bool" where
  "mem_mailbox_inv st \<longleftrightarrow>
     distinct (map mg_id (map visible (ms_messages st)))
     \<and> (\<forall>s. map mg_sequence (mem_view st s) = [1..<Suc (length (mem_view st s))])
     \<and> (\<forall>s. ms_next_sequence st s = (if mem_view st s = [] then None else Some (length (mem_view st s))))
     \<and> (\<forall>s t k c. ms_deduplication st (s, t, k, c)
          = map_option mg_id (find (\<lambda>m. mg_to m = t \<and> mg_kind m = k \<and> mg_causation_id m = Some c) (mem_view st s)))"

definition mem_unused :: "uuid \<Rightarrow> mailbox_state \<Rightarrow> bool" where
  "mem_unused i st \<longleftrightarrow> i \<notin> set (map mg_id (ms_messages st))"

lemma mem_mailbox_invD:
  assumes "mem_mailbox_inv st"
  shows "distinct (map mg_id (ms_messages st))" "map mg_sequence (mem_view st s) = [1..<Suc (length (mem_view st s))]"
    "ms_next_sequence st s = (if mem_view st s = [] then None else Some (length (mem_view st s)))"
    "ms_deduplication st (s, t, k, c)
      = map_option mg_id (find (\<lambda>m. mg_to m = t \<and> mg_kind m = k \<and> mg_causation_id m = Some c) (mem_view st s))"
  using assms unfolding mem_mailbox_inv_def by (simp_all add: o_def)

lemma mem_mailbox_inv_cong:
  assumes "map visible (ms_messages st') = map visible (ms_messages st)"
    and "ms_next_sequence st' = ms_next_sequence st" "ms_deduplication st' = ms_deduplication st"
  shows "mem_view st' = mem_view st" "mem_mailbox_inv st' \<longleftrightarrow> mem_mailbox_inv st"
proof -
  show view: "mem_view st' = mem_view st" by (simp add: mem_view_def fun_eq_iff assms(1))
  show "mem_mailbox_inv st' \<longleftrightarrow> mem_mailbox_inv st" by (simp only: mem_mailbox_inv_def view assms)
qed

lemma same_cause_key:
  "nq_causation_id q = Some c \<Longrightarrow>
    same_cause q = (\<lambda>m. mg_to m = nq_to q \<and> mg_kind m = nq_kind q \<and> mg_causation_id m = Some c)"
  by (auto simp: same_cause_def)

lemma mem_dedup_lookup:
  assumes inv: "mem_mailbox_inv st"
  shows "Option.bind (nq_causation_id q) (\<lambda>c. ms_deduplication st (nq_session_id q, nq_to q, nq_kind q, c))
    = map_option mg_id (find (same_cause q) (mem_view st (nq_session_id q)))"
proof (cases "nq_causation_id q")
  case None
  then have "find (same_cause q) ms = None" for ms by (simp add: find_None_iff same_cause_def)
  with None show ?thesis by simp
next
  case (Some c)
  then show ?thesis using mem_mailbox_invD(4) [OF inv] by (simp add: same_cause_key)
qed

lemma find_id: "distinct (map mg_id ms) \<Longrightarrow> m \<in> set ms \<Longrightarrow> find (\<lambda>x. mg_id x = mg_id m) ms = Some m"
  by (induction ms) auto

lemma mem_enqueue_caused:
  assumes inv: "mem_mailbox_inv st" and enqueue: "mem_enqueue now i q st = Inr (x, st')"
    and y: "find (same_cause q) (mem_view st (nq_session_id q)) = Some y"
  shows "visible x = y \<and> st' = st"
proof -
  have "y \<in> set (mem_view st (nq_session_id q))" using find_Some_in [OF y] by simp
  then obtain z where z: "z \<in> set (ms_messages st)" "y = visible z" by (auto simp: mem_view_def)
  have "find (\<lambda>m. mg_id m = mg_id y) (ms_messages st) = Some z"
    using find_id [OF mem_mailbox_invD(1) [OF inv] z(1)] by (simp add: z(2))
  then show ?thesis
    using enqueue z(2) unfolding mem_enqueue_def Let_def mem_dedup_lookup [OF inv] y by (simp add: res_Inr_iffs)
qed

lemma mem_enqueue_new:
  assumes inv: "mem_mailbox_inv st" and unused: "mem_unused i st" and enqueue: "mem_enqueue now i q st = Inr (x, st')"
    and none: "find (same_cause q) (mem_view st (nq_session_id q)) = None"
  shows "mem_mailbox_inv st' \<and> x = new_message now i q (Suc (length (mem_view st (nq_session_id q))))
    \<and> mem_view st' = (mem_view st)(nq_session_id q := mem_view st (nq_session_id q) @ [x])"
proof -
  let ?s = "nq_session_id q" and ?n = "Suc (length (mem_view st (nq_session_id q)))"
  have "(case ms_next_sequence st ?s of Some n \<Rightarrow> n + 1 | None \<Rightarrow> 1) = ?n" using mem_mailbox_invD(3) [OF inv, of ?s] by simp
  then have x: "x = new_message now i q ?n"
    and st': "st' = st\<lparr>ms_next_sequence := (ms_next_sequence st)(?s \<mapsto> ?n),
        ms_deduplication := (case nq_causation_id q of
            Some c \<Rightarrow> (ms_deduplication st)((?s, nq_to q, nq_kind q, c) \<mapsto> i) | None \<Rightarrow> ms_deduplication st),
        ms_messages := ms_messages st @ [x]\<rparr>"
    using enqueue unfolding mem_enqueue_def Let_def mem_dedup_lookup [OF inv] none by auto
  have vx: "visible x = x" "mg_session_id x = ?s" "mg_id x = i" "mg_sequence x = ?n" "mg_to x = nq_to q" "mg_kind x = nq_kind q"
    "mg_causation_id x = nq_causation_id q"
    by (simp_all add: x) (simp_all add: new_message_def)
  have view: "mem_view st' s = (if s = ?s then mem_view st s @ [x] else mem_view st s)" for s
    by (simp add: mem_view_def st' vx)
  have numbers: "ms_next_sequence st' s = (if s = ?s then Some ?n else ms_next_sequence st s)" for s
    by (simp add: st')
  have keys: "ms_deduplication st' (s, t, k, c) = (if s = ?s \<and> t = nq_to q \<and> k = nq_kind q \<and> nq_causation_id q = Some c
      then Some i else ms_deduplication st (s, t, k, c))" for s t k c
    by (auto simp: st' split: option.splits)
  have "distinct (map mg_id (map visible (ms_messages st')))"
    using mem_mailbox_invD(1) [OF inv] unused by (auto simp: st' vx mem_unused_def o_def)
  moreover have "map mg_sequence (mem_view st' s) = [1..<Suc (length (mem_view st' s))]" for s
    using mem_mailbox_invD(2) [OF inv, of s] by (auto simp: view vx upt_Suc_append simp del: upt_Suc)
  moreover have "ms_next_sequence st' s = (if mem_view st' s = [] then None else Some (length (mem_view st' s)))" for s
    using mem_mailbox_invD(3) [OF inv, of s] by (simp add: view numbers)
  moreover have "ms_deduplication st' (s, t, k, c)
      = map_option mg_id (find (\<lambda>m. mg_to m = t \<and> mg_kind m = k \<and> mg_causation_id m = Some c) (mem_view st' s))" (is "_ = ?r") for s t k c
  proof (cases "s = ?s \<and> t = nq_to q \<and> k = nq_kind q \<and> nq_causation_id q = Some c")
    case True
    then have "find (\<lambda>m. mg_to m = t \<and> mg_kind m = k \<and> mg_causation_id m = Some c) (mem_view st s) = None"
      using none by (simp add: same_cause_key)
    then show ?thesis using True by (simp add: view find_snoc vx keys)
  next
    case False
    have "find (\<lambda>m. mg_to m = t \<and> mg_kind m = k \<and> mg_causation_id m = Some c) (mem_view st' s)
        = find (\<lambda>m. mg_to m = t \<and> mg_kind m = k \<and> mg_causation_id m = Some c) (mem_view st s)"
      using False by (auto simp: view vx find_snoc_False)
    then show ?thesis using False mem_mailbox_invD(4) [OF inv, of s t k c] by (auto simp: keys)
  qed
  ultimately have "mem_mailbox_inv st'" unfolding mem_mailbox_inv_def by blast
  then show ?thesis using x view by (auto simp: fun_eq_iff)
qed

lemma deliver_first_visible:
  "map visible (snd (deliver_first p now n ms)) = map visible ms"
  "map visible (fst (deliver_first p now n ms)) = map visible (take n (filter p ms))"
  by (induction p now n ms rule: deliver_first.induct) (auto simp: Let_def case_prod_unfold take_Cons')

lemma sorted_sequences:
  assumes "map mg_sequence ms = [1..<Suc (length ms)]"
  shows "sorted (map mg_sequence (take n (filter p ms)))"
proof -
  have "sorted (map mg_sequence ms)" unfolding assms by (rule sorted_upt)
  then have "sorted (map mg_sequence (filter p ms))" by (rule sorted_filter)
  then show ?thesis by (simp add: take_map [symmetric] sorted_wrt_take)
qed

lemma mem_snapshot_ok:
  assumes inv: "mem_mailbox_inv st"
  shows "\<exists>xs st'. mem_snapshot now s t after limit st = Inr (xs, st') \<and> mem_mailbox_inv st' \<and> mem_view st' = mem_view st
    \<and> map visible xs = take (clamp_limit limit) (filter (pending t after) (mem_view st s))"
proof -
  let ?p = "\<lambda>m. mg_session_id m = s \<and> mg_to m = t \<and> mg_acknowledged_at m = None
      \<and> (case after of Some n \<Rightarrow> n < mg_sequence m | None \<Rightarrow> True)"
  obtain taken messages where d: "deliver_first ?p now (clamp_limit limit) (ms_messages st) = (taken, messages)" by fastforce
  let ?st = "st\<lparr>ms_messages := messages\<rparr>"
  have vis: "map visible messages = map visible (ms_messages st)"
    "map visible taken = map visible (take (clamp_limit limit) (filter ?p (ms_messages st)))"
    using deliver_first_visible [of ?p now "clamp_limit limit" "ms_messages st"] by (simp_all add: d)
  have p: "?p m \<longleftrightarrow> mg_session_id m = s \<and> pending t after m" for m by (simp add: pending_def)
  have "map visible (filter ?p (ms_messages st)) = filter (pending t after) (mem_view st s)"
    by (simp add: mem_view_def filter_map o_def p conj_commute)
  then have taken: "map visible taken = take (clamp_limit limit) (filter (pending t after) (mem_view st s))"
    unfolding vis(2) take_map [symmetric] by simp
  have "map mg_sequence taken = map mg_sequence (map visible taken)" by (simp add: o_def)
  then have "sorted (map mg_sequence taken)"
    unfolding taken using sorted_sequences [OF mem_mailbox_invD(2) [OF inv]] by simp
  then have sorted: "sort_key mg_sequence taken = taken" by (rule sort_key_id_if_sorted)
  have "mem_mailbox_inv ?st" "mem_view ?st = mem_view st"
    using mem_mailbox_inv_cong [of ?st st] vis(1) inv by simp_all
  then show ?thesis using taken by (simp add: mem_snapshot_def d sorted)
qed

lemma acknowledge_in_Cons: "acknowledge_in now (i # is) m = acknowledge_in now is (acknowledge_in now [i] m)"
  by (simp add: acknowledge_in_def or_insert_def split: option.splits)

lemma replace_first_acknowledge:
  "distinct (map mg_id ms) \<Longrightarrow>
    replace_first (\<lambda>m. mg_id m = i) (\<lambda>m. m\<lparr>mg_acknowledged_at := or_insert (mg_acknowledged_at m) now\<rparr>) ms
      = map (acknowledge_in now [i]) ms"
proof (induction ms)
  case (Cons m ms)
  show ?case
  proof (cases "mg_id m = i")
    case True
    have "mg_id x \<noteq> i" if "x \<in> set ms" for x using Cons.prems True that by (auto simp: image_iff)
    then have "map (acknowledge_in now [i]) ms = ms" by (intro map_idI) (simp add: acknowledge_in_def)
    then show ?thesis using True by (simp add: acknowledge_in_def [of now "[i]" m])
  next
    case False
    then show ?thesis using Cons by (simp add: acknowledge_in_def)
  qed
qed simp

lemma find_map_acknowledge: "find p (map (acknowledge_in now is) ms) = map_option (acknowledge_in now is) (find (p \<circ> acknowledge_in now is) ms)"
  by (induction ms) auto

lemma mem_acknowledged_inv:
  assumes inv: "mem_mailbox_inv st"
  shows "mem_view (st\<lparr>ms_messages := map (acknowledge_in now is) (ms_messages st)\<rparr>) s = map (acknowledge_in now is) (mem_view st s)"
    "mem_mailbox_inv (st\<lparr>ms_messages := map (acknowledge_in now is) (ms_messages st)\<rparr>)"
proof -
  let ?st = "st\<lparr>ms_messages := map (acknowledge_in now is) (ms_messages st)\<rparr>"
  show view: "mem_view ?st s = map (acknowledge_in now is) (mem_view st s)" for s
    by (simp add: mem_view_def filter_map o_def)
  have "(\<lambda>m. mg_to m = t \<and> mg_kind m = k \<and> mg_causation_id m = Some c) \<circ> acknowledge_in now is
      = (\<lambda>m. mg_to m = t \<and> mg_kind m = k \<and> mg_causation_id m = Some c)" for t k c
    by (simp add: acknowledge_in_def fun_eq_iff)
  then show "mem_mailbox_inv ?st"
    using mem_mailbox_invD [OF inv] unfolding mem_mailbox_inv_def view
    by (simp add: o_def find_map_acknowledge option.map_comp)
qed

lemma mem_acknowledge_ok:
  assumes "mem_mailbox_inv st" "\<forall>i \<in> set is. \<exists>x \<in> set (mem_view st s). mg_id x = i \<and> mg_to x = t"
  shows "mem_acknowledge now t is st = (Inr (), st\<lparr>ms_messages := map (acknowledge_in now is) (ms_messages st)\<rparr>)"
  using assms
proof (induction "is" arbitrary: st)
  case (Cons i "is")
  let ?st = "st\<lparr>ms_messages := map (acknowledge_in now [i]) (ms_messages st)\<rparr>"
  note ids = mem_mailbox_invD(1) [OF Cons.prems(1)]
  from Cons.prems(2) obtain x where x: "x \<in> set (mem_view st s)" "mg_id x = i" "mg_to x = t" by auto
  then obtain z where z: "z \<in> set (ms_messages st)" "x = visible z" by (auto simp: mem_view_def)
  have found: "find (\<lambda>m. mg_id m = i) (ms_messages st) = Some z" "mg_to z = t"
    using find_id [OF ids z(1)] x z(2) by simp_all
  have inv': "mem_mailbox_inv ?st" by (rule mem_acknowledged_inv(2) [OF Cons.prems(1)])
  have "\<forall>j \<in> set is. \<exists>x \<in> set (mem_view ?st s). mg_id x = j \<and> mg_to x = t"
    using Cons.prems(2) unfolding mem_acknowledged_inv(1) [OF Cons.prems(1)] by simp
  from Cons.IH [OF inv' this] show ?case
    using found replace_first_acknowledge [OF ids, of i now] by (simp add: o_def acknowledge_in_Cons [of now i "is"])
qed simp

interpretation mem_mailbox: mailbox mem_mailbox_inv mem_unused mem_view mem_enqueue mem_snapshot mem_acknowledge
proof unfold_locales
  fix m :: mailbox_state and s
  assume inv: "mem_mailbox_inv m"
  show "distinct (map mg_id (mem_view m s))"
    using mem_mailbox_invD(1) [OF inv] by (simp add: mem_view_def filter_map o_def distinct_map_filter)
  show "map mg_sequence (mem_view m s) = [1..<Suc (length (mem_view m s))]" by (rule mem_mailbox_invD(2) [OF inv])
next
  fix m now t "is" s
  assume "mem_mailbox_inv m" "\<forall>i \<in> set is. \<exists>x \<in> set (mem_view m s). mg_id x = i \<and> mg_to x = t"
  from mem_acknowledge_ok [OF this] mem_acknowledged_inv [OF this(1)]
  show "\<exists>m'. mem_acknowledge now t is m = (Inr (), m') \<and> mem_mailbox_inv m'
      \<and> mem_view m' s = map (acknowledge_in now is) (mem_view m s)" by blast
qed (fact mem_enqueue_caused mem_enqueue_new | rule mem_snapshot_ok)+

section \<open>The mailbox over SQLite keeps the contract\<close>

definition row_ok :: "mailbox_row \<Rightarrow> bool" where
  \<comment> \<open>the column \<open>delivery_state\<close> tells what the two times tell\<close>
  "row_ok r \<longleftrightarrow>
     mr_delivery_state r = (if mg_acknowledged_at (mr_message r) \<noteq> None then MarkAcknowledged
       else if mg_delivered_at (mr_message r) \<noteq> None then MarkDelivered else MarkPending)"

definition rows_ok :: "(uuid, mailbox_row) btree \<Rightarrow> bool" where
  "rows_ok rows \<longleftrightarrow> bt_inv rows \<and> (\<forall>i r. bt_get rows i = Some r \<longrightarrow> mg_id (mr_message r) = i \<and> row_ok r)"

definition sql_mailbox_inv :: "collab_db \<Rightarrow> bool" where
  "sql_mailbox_inv db \<longleftrightarrow>
     rows_ok (db_messages db)
     \<and> (\<forall>s. map mg_sequence (session_messages db s) = [1..<Suc (length (session_messages db s))])"

definition sql_view :: "collab_db \<Rightarrow> uuid \<Rightarrow> mailbox_message list" where
  "sql_view db s = map visible (session_messages db s)"

definition sql_unused :: "uuid \<Rightarrow> collab_db \<Rightarrow> bool" where
  "sql_unused i db \<longleftrightarrow> bt_get (db_messages db) i = None"

lemma sql_mailbox_invD:
  assumes "sql_mailbox_inv db"
  shows "rows_ok (db_messages db)" "map mg_sequence (session_messages db s) = [1..<Suc (length (session_messages db s))]"
  using assms by (simp_all add: sql_mailbox_inv_def)

lemma rows_okD: "rows_ok rows \<Longrightarrow> bt_inv rows" "rows_ok rows \<Longrightarrow> bt_get rows i = Some r \<Longrightarrow> mg_id (mr_message r) = i"
  by (simp_all add: rows_ok_def)

lemma set_session_messages:
  assumes "rows_ok (db_messages db)"
  shows "m \<in> set (session_messages db s) \<longleftrightarrow>
    (\<exists>r. bt_get (db_messages db) (mg_id m) = Some r \<and> mr_message r = m \<and> mg_session_id m = s)"
proof -
  have "m \<in> set (session_messages db s) \<longleftrightarrow> (\<exists>r \<in> set (map snd (db_messages db)). mr_message r = m) \<and> mg_session_id m = s"
    by (auto simp: session_messages_def)
  also have "\<dots> \<longleftrightarrow> (\<exists>r. bt_get (db_messages db) (mg_id m) = Some r \<and> mr_message r = m \<and> mg_session_id m = s)"
    using rows_okD [OF assms] unfolding Bex_def bt_rows [OF rows_okD(1) [OF assms]] by metis
  finally show ?thesis .
qed

lemma distinct_session_messages:
  assumes "rows_ok (db_messages db)"
  shows "distinct (map mg_id (session_messages db s))"
proof -
  have ids: "map (mg_id \<circ> mr_message \<circ> snd) (db_messages db) = map fst (db_messages db)"
    using assms bt_get_of_mem [OF rows_okD(1) [OF assms]] by (auto simp: rows_ok_def)
  have "distinct (map mg_id (map (mr_message \<circ> snd) (db_messages db)))"
    using bt_inv_distinct [OF rows_okD(1) [OF assms]] unfolding ids [symmetric] by (simp add: o_assoc)
  then have "distinct (map mg_id (filter (\<lambda>m. mg_session_id m = s) (map (mr_message \<circ> snd) (db_messages db))))"
    by (rule distinct_map_filter)
  then show ?thesis by (simp add: session_messages_def distinct_map)
qed

lemma session_messages_eqI:
  assumes ok: "rows_ok (db_messages db)" and members: "\<And>m. m \<in> set ms \<longleftrightarrow> m \<in> set (session_messages db s)"
    and less: "sorted_wrt (<) (map mg_sequence ms)"
  shows "session_messages db s = ms"
proof (rule map_sorted_distinct_set_unique [where f = mg_sequence])
  have same: "set (session_messages db s) = set ms" using members by blast
  have inj: "inj_on mg_sequence (set ms)" using less by (simp add: strict_sorted_iff distinct_map)
  show "inj_on mg_sequence (set (session_messages db s) \<union> set ms)" using inj same by simp
  show "sorted (map mg_sequence (session_messages db s))" by (simp add: session_messages_def)
  have "distinct (session_messages db s)" using distinct_session_messages [OF ok] by (simp add: distinct_map)
  then show "distinct (map mg_sequence (session_messages db s))" using inj same by (simp add: distinct_map)
  show "sorted (map mg_sequence ms)" "distinct (map mg_sequence ms)" using less by (simp_all add: strict_sorted_iff)
  show "set (session_messages db s) = set ms" by (rule same)
qed

lemma sequences_less: "map mg_sequence ms = [1..<Suc (length ms)] \<Longrightarrow> sorted_wrt (<) (map mg_sequence ms)"
  by (simp only: sorted_wrt_upt)

lemma next_message_sequence_eq:
  assumes "sql_mailbox_inv db"
  shows "next_message_sequence db s = Suc (length (session_messages db s))"
proof -
  have "fold max [1..<Suc n] 0 = n" for n :: nat by (induction n) auto
  then show ?thesis unfolding next_message_sequence_def sql_mailbox_invD(2) [OF assms] by simp
qed

lemma insert_message_inv:
  assumes inv: "sql_mailbox_inv db" and insert: "insert_message_row m db = Inr db'"
    and m: "mg_sequence m = Suc (length (session_messages db (mg_session_id m)))" "mg_delivered_at m = None" "mg_acknowledged_at m = None"
  shows "sql_mailbox_inv db' \<and> session_messages db' = (session_messages db)(mg_session_id m := session_messages db (mg_session_id m) @ [m])"
proof -
  let ?s = "mg_session_id m"
  have db': "db' = db\<lparr>db_messages := bt_insert (mg_id m) \<lparr>mr_message = m, mr_delivery_state = MarkPending\<rparr> (db_messages db)\<rparr>"
    and fresh: "bt_get (db_messages db) (mg_id m) = None"
    using insert by (auto simp: insert_message_row_def res_Inr_iffs bt_contains_def)
  have ok: "rows_ok (db_messages db)" by (rule sql_mailbox_invD(1) [OF inv])
  have ok': "rows_ok (db_messages db')" using ok m(2,3) by (auto simp: rows_ok_def db' bt_inv_insert bt_get_insert row_ok_def)
  have members: "x \<in> set (session_messages db' s) \<longleftrightarrow> x \<in> set (session_messages db s) \<or> x = m \<and> s = ?s" for x s
    unfolding set_session_messages [OF ok'] set_session_messages [OF ok] using fresh by (auto simp: db' bt_get_insert)
  have messages: "session_messages db' s = (if s = ?s then session_messages db s @ [m] else session_messages db s)" for s
  proof (rule session_messages_eqI [OF ok'])
    show "x \<in> set (if s = ?s then session_messages db s @ [m] else session_messages db s) \<longleftrightarrow> x \<in> set (session_messages db' s)" for x
      by (auto simp: members)
    have "map mg_sequence (session_messages db ?s @ [m]) = [1..<Suc (length (session_messages db ?s @ [m]))]"
      using sql_mailbox_invD(2) [OF inv, of ?s] m(1) by (simp add: upt_Suc_append del: upt_Suc)
    then have "sorted_wrt (<) (map mg_sequence (session_messages db ?s @ [m]))" by (rule sequences_less)
    then show "sorted_wrt (<) (map mg_sequence (if s = ?s then session_messages db s @ [m] else session_messages db s))"
      using sequences_less [OF sql_mailbox_invD(2) [OF inv, of s]] by (cases "s = ?s") simp_all
  qed
  have "map mg_sequence (session_messages db' s) = [1..<Suc (length (session_messages db' s))]" for s
    using sql_mailbox_invD(2) [OF inv, of s] m(1) by (auto simp: messages upt_Suc_append simp del: upt_Suc)
  then show ?thesis using ok' messages by (auto simp: sql_mailbox_inv_def fun_eq_iff)
qed

lemma find_caused_view: "find (same_cause q) (sql_view db (nq_session_id q)) = map_option visible (find_caused q db)"
proof -
  have "find (same_cause q) (map visible ms) = map_option visible (find (same_cause q) ms)" for ms
    by (induction ms) auto
  then show ?thesis by (simp add: sql_view_def find_caused_def)
qed

lemma sql_enqueue_caused:
  assumes "sql_mailbox_inv db" "sql_enqueue now i q db = Inr (x, db')"
    and "find (same_cause q) (sql_view db (nq_session_id q)) = Some y"
  shows "visible x = y \<and> db' = db"
  using assms(2,3) by (auto simp: sql_enqueue_def res_Inr_iffs find_caused_view)

lemma report_message_new:
  assumes inv: "sql_mailbox_inv db" and report: "report_message now i q db = Inr (x, db')" and none: "find_caused q db = None"
  shows "sql_mailbox_inv db' \<and> x = new_message now i q (Suc (length (session_messages db (nq_session_id q))))
    \<and> session_messages db' = (session_messages db)(nq_session_id q := session_messages db (nq_session_id q) @ [x])"
proof -
  have x: "x = new_message now i q (Suc (length (session_messages db (nq_session_id q))))"
    and row: "insert_message_row x db = Inr db'"
    using report none next_message_sequence_eq [OF inv] by (auto simp: report_message_def res_Inr_iffs Let_def)
  have "mg_session_id x = nq_session_id q" "mg_sequence x = Suc (length (session_messages db (nq_session_id q)))"
    "mg_delivered_at x = None" "mg_acknowledged_at x = None"
    by (simp_all add: x new_message_def)
  then show ?thesis using insert_message_inv [OF inv row] x by simp
qed

lemma sql_enqueue_new:
  assumes inv: "sql_mailbox_inv db" and enqueue: "sql_enqueue now i q db = Inr (x, db')"
    and none: "find (same_cause q) (sql_view db (nq_session_id q)) = None"
  shows "sql_mailbox_inv db' \<and> x = new_message now i q (Suc (length (sql_view db (nq_session_id q))))
    \<and> sql_view db' = (sql_view db)(nq_session_id q := sql_view db (nq_session_id q) @ [x])"
proof -
  have caused: "find_caused q db = None" using none by (simp add: find_caused_view)
  then have "report_message now i q db = Inr (x, db')"
    using enqueue by (auto simp: sql_enqueue_def report_message_def res_Inr_iffs)
  from report_message_new [OF inv this caused]
  have new: "sql_mailbox_inv db'" "x = new_message now i q (Suc (length (session_messages db (nq_session_id q))))"
    "session_messages db' = (session_messages db)(nq_session_id q := session_messages db (nq_session_id q) @ [x])" by blast+
  moreover have "visible x = x" by (simp add: new(2))
  ultimately show ?thesis by (simp add: sql_view_def fun_eq_iff)
qed

text \<open>Rows updated in place.\<close>

lemma update_row_inv:
  assumes inv: "sql_mailbox_inv db" and g: "\<And>r. mr_message (f r) = g (mr_message r)" "\<And>r. row_ok r \<Longrightarrow> row_ok (f r)"
      "\<And>m. mg_id (g m) = mg_id m" "\<And>m. mg_session_id (g m) = mg_session_id m" "\<And>m. mg_sequence (g m) = mg_sequence m"
    and db': "db' = db\<lparr>db_messages := update_row f i (db_messages db)\<rparr>"
  shows "sql_mailbox_inv db' \<and> session_messages db' s = map (\<lambda>m. if mg_id m = i then g m else m) (session_messages db s)"
proof -
  let ?h = "\<lambda>m. if mg_id m = i then g m else m"
  have ok: "rows_ok (db_messages db)" by (rule sql_mailbox_invD(1) [OF inv])
  have get: "bt_get (db_messages db') j = (if j = i then map_option f (bt_get (db_messages db) j) else bt_get (db_messages db) j)" for j
    by (auto simp: db' update_row_def bt_get_insert split: option.splits)
  have "bt_inv (db_messages db')" using rows_okD(1) [OF ok] by (simp add: db' update_row_def bt_inv_insert split: option.splits)
  then have ok': "rows_ok (db_messages db')" using ok by (auto simp: rows_ok_def get g(1,3) intro: g(2) split: if_splits)
  have seq: "map mg_sequence (map ?h ms) = map mg_sequence ms" for ms by (simp add: g(5))
  have messages: "session_messages db' s = map ?h (session_messages db s)" for s
  proof (rule session_messages_eqI [OF ok'])
    fix x
    show "x \<in> set (map ?h (session_messages db s)) \<longleftrightarrow> x \<in> set (session_messages db' s)"
    proof
      assume "x \<in> set (map ?h (session_messages db s))"
      then obtain m where m: "m \<in> set (session_messages db s)" "x = ?h m" by auto
      then obtain r where "bt_get (db_messages db) (mg_id m) = Some r" "mr_message r = m" "mg_session_id m = s"
        unfolding set_session_messages [OF ok] by blast
      then show "x \<in> set (session_messages db' s)" unfolding set_session_messages [OF ok'] m(2) by (auto simp: get g(1,3,4))
    next
      assume "x \<in> set (session_messages db' s)"
      then obtain r where r: "bt_get (db_messages db') (mg_id x) = Some r" "mr_message r = x" "mg_session_id x = s"
        unfolding set_session_messages [OF ok'] by blast
      have "\<exists>r0. bt_get (db_messages db) (mg_id x) = Some r0 \<and> x = ?h (mr_message r0)"
      proof (cases "mg_id x = i")
        case True
        with r(1) obtain r0 where r0: "bt_get (db_messages db) (mg_id x) = Some r0" "r = f r0" by (auto simp: get)
        then show ?thesis using r(2) rows_okD(2) [OF ok r0(1)] True by (intro exI [of _ r0]) (simp add: g(1))
      next
        case False
        then show ?thesis using r(1,2) rows_okD(2) [OF ok, of "mg_id x" r] by (intro exI [of _ r]) (simp add: get)
      qed
      then obtain r0 where r0: "bt_get (db_messages db) (mg_id x) = Some r0" "x = ?h (mr_message r0)" by blast
      have id: "mg_id (mr_message r0) = mg_id x" by (rule rows_okD(2) [OF ok r0(1)])
      have "mg_session_id (?h (mr_message r0)) = mg_session_id (mr_message r0)" by (simp add: g(4))
      then have "mg_session_id (mr_message r0) = s" using r(3) unfolding r0(2) [symmetric] by simp
      with r0(1) have "mr_message r0 \<in> set (session_messages db s)"
        unfolding set_session_messages [OF ok] id by blast
      then show "x \<in> set (map ?h (session_messages db s))" unfolding set_map using r0(2) by (rule rev_image_eqI)
    qed
  next
    show "sorted_wrt (<) (map mg_sequence (map ?h (session_messages db s)))"
      unfolding seq by (rule sequences_less [OF sql_mailbox_invD(2) [OF inv]])
  qed
  have "map mg_sequence (session_messages db' s) = [1..<Suc (length (session_messages db' s))]" for s
    using sql_mailbox_invD(2) [OF inv, of s] unfolding messages seq by simp
  then show ?thesis using ok' messages by (simp add: sql_mailbox_inv_def)
qed

lemma mark_row_simps:
  "mr_message (mark_row_delivered now r) = (mr_message r)\<lparr>mg_delivered_at := or_insert (mg_delivered_at (mr_message r)) now\<rparr>"
  "mr_message (mark_row_acknowledged now r) = (mr_message r)\<lparr>mg_delivered_at := or_insert (mg_delivered_at (mr_message r)) now,
     mg_acknowledged_at := or_insert (mg_acknowledged_at (mr_message r)) now\<rparr>"
  "row_ok r \<Longrightarrow> row_ok (mark_row_delivered now r)" "row_ok r \<Longrightarrow> row_ok (mark_row_acknowledged now r)"
  by (simp_all add: mark_row_delivered_def mark_row_acknowledged_def row_ok_def Let_def)

lemma deliver_rows_inv:
  assumes "sql_mailbox_inv db"
  shows "sql_mailbox_inv (db\<lparr>db_messages := fold (update_row (mark_row_delivered now)) ids (db_messages db)\<rparr>)
    \<and> sql_view (db\<lparr>db_messages := fold (update_row (mark_row_delivered now)) ids (db_messages db)\<rparr>) = sql_view db"
  using assms
proof (induction ids arbitrary: db)
  case (Cons i ids)
  let ?db = "db\<lparr>db_messages := update_row (mark_row_delivered now) i (db_messages db)\<rparr>"
  have step: "sql_mailbox_inv ?db \<and> session_messages ?db s
      = map (\<lambda>m. if mg_id m = i then m\<lparr>mg_delivered_at := or_insert (mg_delivered_at m) now\<rparr> else m) (session_messages db s)" for s
    by (rule update_row_inv [OF Cons.prems _ _ _ _ _ refl]) (simp_all add: mark_row_simps)
  then have "sql_view ?db = sql_view db" by (auto simp: sql_view_def fun_eq_iff o_def)
  then show ?case using Cons.IH [of ?db] step by simp
qed simp

lemma sql_snapshot_ok:
  assumes inv: "sql_mailbox_inv db" and after: "case after of Some n \<Rightarrow> n < 2 ^ 63 | None \<Rightarrow> True"
  shows "\<exists>xs db'. sql_snapshot now s t after limit db = Inr (xs, db') \<and> sql_mailbox_inv db' \<and> sql_view db' = sql_view db
    \<and> map visible xs = take (clamp_limit limit) (filter (pending t after) (sql_view db s))"
proof -
  let ?low = "case after of Some n \<Rightarrow> n | None \<Rightarrow> 0"
  let ?p = "\<lambda>m. mg_to m = t \<and> mg_acknowledged_at m = None \<and> ?low < mg_sequence m"
  have low: "?low < 2 ^ 63" using after by (simp split: option.splits)
  have "0 < mg_sequence m" if "m \<in> set (session_messages db s)" for m
  proof -
    have "mg_sequence m \<in> set (map mg_sequence (session_messages db s))" using that by simp
    then show ?thesis unfolding sql_mailbox_invD(2) [OF inv] by auto
  qed
  then have "filter ?p (session_messages db s) = filter (pending t after) (session_messages db s)"
    by (intro filter_cong refl) (auto simp: pending_def split: option.splits)
  then have "map visible (take (clamp_limit limit) (filter ?p (session_messages db s)))
      = take (clamp_limit limit) (filter (pending t after) (sql_view db s))"
    by (simp add: sql_view_def take_map filter_map o_def)
  then show ?thesis
    using low deliver_rows_inv [OF inv] by (simp add: sql_snapshot_def res_ensure_def o_def Let_def)
qed

lemma acknowledge_row_inv:
  assumes "sql_mailbox_inv db" and "db' = db\<lparr>db_messages := update_row (mark_row_acknowledged now) i (db_messages db)\<rparr>"
  shows "sql_mailbox_inv db'" "sql_view db' s = map (acknowledge_in now [i]) (sql_view db s)"
proof -
  let ?g = "\<lambda>m. m\<lparr>mg_delivered_at := or_insert (mg_delivered_at m) now, mg_acknowledged_at := or_insert (mg_acknowledged_at m) now\<rparr>"
  have step: "sql_mailbox_inv db' \<and> session_messages db' s = map (\<lambda>m. if mg_id m = i then ?g m else m) (session_messages db s)"
    by (rule update_row_inv [OF assms(1) _ _ _ _ _ assms(2)]) (simp_all add: mark_row_simps)
  then show "sql_mailbox_inv db'" ..
  show "sql_view db' s = map (acknowledge_in now [i]) (sql_view db s)"
    using step by (simp add: sql_view_def visible_def acknowledge_in_def)
qed

lemma acknowledge_rows_ok:
  assumes "sql_mailbox_inv db" "\<forall>i \<in> set is. \<exists>x \<in> set (sql_view db s). mg_id x = i \<and> mg_to x = t"
  shows "\<exists>rows. acknowledge_rows now t is (db_messages db) = Inr rows \<and> sql_mailbox_inv (db\<lparr>db_messages := rows\<rparr>)
    \<and> sql_view (db\<lparr>db_messages := rows\<rparr>) s = map (acknowledge_in now is) (sql_view db s)"
  using assms
proof (induction "is" arbitrary: db)
  case (Cons i "is")
  let ?f = "mark_row_acknowledged now" and ?db = "db\<lparr>db_messages := update_row (mark_row_acknowledged now) i (db_messages db)\<rparr>"
  from Cons.prems(2) obtain x where x: "x \<in> set (session_messages db s)" "mg_id x = i" "mg_to x = t" by (auto simp: sql_view_def)
  then obtain r where r: "bt_get (db_messages db) i = Some r" "mg_to (mr_message r) = t"
    unfolding set_session_messages [OF sql_mailbox_invD(1) [OF Cons.prems(1)]] by auto
  note step = acknowledge_row_inv [OF Cons.prems(1) refl, of now i]
  note view = step(2) [of s]
  have "\<forall>j \<in> set is. \<exists>x \<in> set (sql_view ?db s). mg_id x = j \<and> mg_to x = t" using Cons.prems(2) unfolding view by simp
  from Cons.IH [OF step(1) this] obtain rows where
    "acknowledge_rows now t is (update_row ?f i (db_messages db)) = Inr rows" "sql_mailbox_inv (db\<lparr>db_messages := rows\<rparr>)"
    "sql_view (db\<lparr>db_messages := rows\<rparr>) s = map (acknowledge_in now is) (sql_view ?db s)"
    by auto
  then show ?case using r by (simp add: res_ensure_def ok_or_def view acknowledge_in_Cons [of now i "is"] o_def)
qed simp

interpretation sql_mailbox: mailbox sql_mailbox_inv sql_unused sql_view sql_enqueue sql_snapshot sql_acknowledge
proof unfold_locales
  fix m :: collab_db and s
  assume inv: "sql_mailbox_inv m"
  show "distinct (map mg_id (sql_view m s))"
    using distinct_session_messages [OF sql_mailbox_invD(1) [OF inv]] by (simp add: sql_view_def o_def)
  show "map mg_sequence (sql_view m s) = [1..<Suc (length (sql_view m s))]"
    using sql_mailbox_invD(2) [OF inv, of s] by (simp add: sql_view_def o_def del: upt_Suc)
next
  fix m now t "is" s
  assume "sql_mailbox_inv m" "\<forall>i \<in> set is. \<exists>x \<in> set (sql_view m s). mg_id x = i \<and> mg_to x = t"
  from acknowledge_rows_ok [OF this, of now]
  show "\<exists>m'. sql_acknowledge now t is m = (Inr (), m') \<and> sql_mailbox_inv m'
      \<and> sql_view m' s = map (acknowledge_in now is) (sql_view m s)" by (auto simp: sql_acknowledge_def)
next
  fix m now i q x m'
  assume "sql_mailbox_inv m" "sql_enqueue now i q m = Inr (x, m')" "find (same_cause q) (sql_view m (nq_session_id q)) = None"
  then show "sql_mailbox_inv m' \<and> x = new_message now i q (Suc (length (sql_view m (nq_session_id q))))
        \<and> sql_view m' = (sql_view m)(nq_session_id q := sql_view m (nq_session_id q) @ [x])" by (rule sql_enqueue_new)
qed (fact sql_enqueue_caused | rule sql_snapshot_ok)+

section \<open>Reachable mailboxes\<close>

inductive mem_mail_step :: "mailbox_state \<Rightarrow> mailbox_state \<Rightarrow> bool" where
  enqueue: "mem_unused i st \<Longrightarrow> mem_enqueue now i q st = Inr (x, st') \<Longrightarrow> mem_mail_step st st'"
| snapshot: "mem_snapshot now s t after limit st = Inr (xs, st') \<Longrightarrow> mem_mail_step st st'"
| acknowledge: "mem_acknowledge now t is st = (r, st') \<Longrightarrow> mem_mail_step st st'"

definition empty_mailbox :: mailbox_state where
  "empty_mailbox = \<lparr>ms_next_sequence = Map.empty, ms_messages = [], ms_deduplication = Map.empty\<rparr>"

inductive db_step :: "collab_db \<Rightarrow> collab_db \<Rightarrow> bool" where
  enqueue: "sql_enqueue now i q db = Inr (x, db') \<Longrightarrow> db_step db db'"
| snapshot: "sql_snapshot now s t after limit db = Inr (xs, db') \<Longrightarrow> db_step db db'"
| acknowledge: "sql_acknowledge now t is db = (r, db') \<Longrightarrow> db_step db db'"
| registry: "collab_step (db_tables db) tb \<Longrightarrow> db_step db (db\<lparr>db_tables := tb\<rparr>)"
| report: "record_turn_state cv k i turn_id next payload db = Inr (x, db') \<Longrightarrow> db_step db db'"

definition empty_db :: collab_db where
  "empty_db = \<lparr>db_tables = empty_tables, db_messages = [], db_ledger = []\<rparr>"

lemma mem_acknowledge_inv: "mem_mailbox_inv st \<Longrightarrow> mem_mailbox_inv (snd (mem_acknowledge now t is st))"
proof (induction now t "is" st rule: mem_acknowledge.induct)
  case (2 now t i "is" st)
  show ?case
  proof (cases "find (\<lambda>m. mg_id m = i) (ms_messages st)")
    case None
    then show ?thesis using 2 by simp
  next
    case (Some m)
    have "mem_mailbox_inv (st\<lparr>ms_messages := map (acknowledge_in now [i]) (ms_messages st)\<rparr>)"
      by (rule mem_acknowledged_inv(2) [OF 2(2)])
    then show ?thesis
      using 2 Some replace_first_acknowledge [OF mem_mailbox_invD(1) [OF 2(2)], of i now] by simp
  qed
qed simp

lemma mem_mail_step_inv: "mem_mail_step st st' \<Longrightarrow> mem_mailbox_inv st \<Longrightarrow> mem_mailbox_inv st'"
proof (induction rule: mem_mail_step.induct)
  case (enqueue i st now q x st')
  then show ?case
    using mem_enqueue_caused [OF enqueue(3,2)] mem_enqueue_new [OF enqueue(3,1,2)]
    by (cases "find (same_cause q) (mem_view st (nq_session_id q))") auto
next
  case (snapshot now s t after limit st xs st')
  then show ?case using mem_snapshot_ok [OF snapshot(2), of now s t after limit] by auto
next
  case (acknowledge now t "is" st r st')
  then show ?case using mem_acknowledge_inv [OF acknowledge(2), of now t "is"] by simp
qed

lemma empty_mailbox_inv: "mem_mailbox_inv empty_mailbox"
  by (simp add: mem_mailbox_inv_def empty_mailbox_def mem_view_def)

lemma acknowledge_rows_inv:
  "acknowledge_rows now t is (db_messages db) = Inr rows \<Longrightarrow> sql_mailbox_inv db \<Longrightarrow> sql_mailbox_inv (db\<lparr>db_messages := rows\<rparr>)"
proof (induction "is" arbitrary: db)
  case (Cons i "is")
  let ?db = "db\<lparr>db_messages := update_row (mark_row_acknowledged now) i (db_messages db)\<rparr>"
  have "sql_mailbox_inv ?db" by (rule acknowledge_row_inv(1) [OF Cons.prems(2) refl])
  then show ?case using Cons.IH [of ?db] Cons.prems(1) by (auto simp: res_Inr_iffs)
qed auto

lemma report_message_inv:
  assumes inv: "sql_mailbox_inv db" and report: "report_message now i q db = Inr (x, db')" and that: "nq_causation_id q \<noteq> None"
  shows "sql_mailbox_inv db' \<and> db_tables db' = db_tables db \<and> find_caused q db' = Some x"
proof (cases "find_caused q db")
  case None
  note new = report_message_new [OF inv report None]
  have "same_cause q x" using new that by (auto simp: same_cause_def new_message_def)
  moreover have "find (same_cause q) (session_messages db (nq_session_id q)) = None" using None by (simp add: find_caused_def)
  ultimately have "find_caused q db' = Some x" using new by (simp add: find_caused_def find_snoc)
  moreover have "db_tables db' = db_tables db"
    using report None by (auto simp: report_message_def res_Inr_iffs Let_def insert_message_row_def)
  ultimately show ?thesis using new by blast
next
  case (Some y)
  then show ?thesis using report inv by (simp add: report_message_def)
qed

lemma sql_mailbox_inv_cong: "db_messages db' = db_messages db \<Longrightarrow> sql_mailbox_inv db' \<longleftrightarrow> sql_mailbox_inv db"
  by (simp add: sql_mailbox_inv_def session_messages_def)

lemma record_turn_state_Inr:
  assumes "record_turn_state cv k i turn_id next payload db = Inr (x, db')"
  obtains turn tables agent db1 where
    "record_turn_row cv k turn_id next (db_tables db) = Inr (turn, tables)"
    "bt_get (tb_threads (db_tables db)) (tu_agent_thread_id turn) = Some agent"
    "db_messages db1 = db_messages db" "db_tables db1 = db_tables db" "db_tables db' = tables"
    "\<And>p kind. th_parent agent = Some p \<Longrightarrow> report_kind next = Some kind \<Longrightarrow>
       \<exists>m db2. report_message (cv_now cv) i (report_request turn p kind payload) db1 = Inr (m, db2)
         \<and> x = Some m \<and> db_messages db' = db_messages db2"
    "th_parent agent = None \<or> report_kind next = None \<Longrightarrow> x = None \<and> db_messages db' = db_messages db"
proof -
  from assms obtain turn tables agent where r: "record_turn_row cv k turn_id next (db_tables db) = Inr (turn, tables)"
    and a: "bt_get (tb_threads (db_tables db)) (tu_agent_thread_id turn) = Some agent"
    by (auto simp: record_turn_state_def res_Inr_iffs map_err_Inr_iff)
  define item where "item = \<lparr>li_id = (case tu_outcome_ref turn of Some i \<Rightarrow> i | None \<Rightarrow> k), li_session_id = tu_session_id turn,
           li_agent_thread_id = tu_agent_thread_id turn, li_agent_turn_id = tu_id turn,
           li_sequence = next_ledger_sequence db (tu_agent_thread_id turn), li_item_kind = ''turn_outcome'',
           li_payload = payload, li_created_at = cv_now cv\<rparr>"
  define db1 where "db1 = db\<lparr>db_ledger := upsert_ledger item (db_ledger db)\<rparr>"
  have res: "(case (th_parent agent, report_kind next) of
       (Some p, Some kind) \<Rightarrow>
         res_bind (map_err RecordMailbox (report_message (cv_now cv) i (report_request turn p kind payload) db1)) (\<lambda>(m, db2).
         Inr (Some m, db2\<lparr>db_tables := tables\<rparr>))
     | _ \<Rightarrow> Inr (None, db1\<lparr>db_tables := tables\<rparr>)) = Inr (x, db')"
    using assms r a unfolding record_turn_state_def db1_def item_def by (simp add: Let_def ok_or_def)
  show thesis
  proof (rule that [OF r a, of db1])
    show "db_messages db1 = db_messages db" "db_tables db1 = db_tables db" by (simp_all add: db1_def)
    show "db_tables db' = tables" using res by (auto simp: res_Inr_iffs map_err_Inr_iff split: option.splits)
    show "\<exists>m db2. report_message (cv_now cv) i (report_request turn p kind payload) db1 = Inr (m, db2)
         \<and> x = Some m \<and> db_messages db' = db_messages db2"
      if "th_parent agent = Some p" "report_kind next = Some kind" for p kind
      using res that by (auto simp: res_Inr_iffs map_err_Inr_iff)
    show "x = None \<and> db_messages db' = db_messages db" if "th_parent agent = None \<or> report_kind next = None"
      using res that by (auto simp: db1_def split: option.splits)
  qed
qed

lemma db_step_inv:
  assumes "db_step db db'" "sql_mailbox_inv db" "tables_inv (db_tables db)"
  shows "sql_mailbox_inv db' \<and> tables_inv (db_tables db')"
  using assms
proof (induction rule: db_step.induct)
  case (enqueue now i q db x db')
  have "db_tables db' = db_tables db"
    using enqueue(1) by (auto simp: sql_enqueue_def res_Inr_iffs Let_def insert_message_row_def split: option.splits)
  then show ?case
    using sql_enqueue_caused [OF enqueue(2,1)] sql_enqueue_new [OF enqueue(2,1)] enqueue(2,3)
    by (cases "find (same_cause q) (sql_view db (nq_session_id q))") auto
next
  case (snapshot now s t after limit db xs db')
  have "case after of Some n \<Rightarrow> n < 2 ^ 63 | None \<Rightarrow> True"
    using snapshot(1) by (auto simp: sql_snapshot_def res_Inr_iffs Let_def split: option.splits)
  from sql_snapshot_ok [OF snapshot(2) this, of now s t limit] snapshot(1,3)
  show ?case by (auto simp: sql_snapshot_def res_Inr_iffs Let_def)
next
  case (acknowledge now t "is" db r db')
  then show ?case using acknowledge_rows_inv [of now t "is" db] by (auto simp: sql_acknowledge_def split: sum.splits)
next
  case (registry db tb)
  then show ?case using collab_step_inv sql_mailbox_inv_cong [of "db\<lparr>db_tables := tb\<rparr>" db] by simp
next
  case (report cv k i turn_id st payload db x db')
  from report(1) show ?case
  proof (rule record_turn_state_Inr)
    fix turn tables agent db1
    assume r: "record_turn_row cv k turn_id st (db_tables db) = Inr (turn, tables)"
      and db1: "db_messages db1 = db_messages db" "db_tables db1 = db_tables db" "db_tables db' = tables"
      and sent: "\<And>p kind. th_parent agent = Some p \<Longrightarrow> report_kind st = Some kind \<Longrightarrow>
       \<exists>m db2. report_message (cv_now cv) i (report_request turn p kind payload) db1 = Inr (m, db2)
         \<and> x = Some m \<and> db_messages db' = db_messages db2"
      and silent: "th_parent agent = None \<or> report_kind st = None \<Longrightarrow> x = None \<and> db_messages db' = db_messages db"
    have inv1: "sql_mailbox_inv db1" using report(2) sql_mailbox_inv_cong [OF db1(1)] by simp
    have "sql_mailbox_inv db'"
    proof (cases "th_parent agent = None \<or> report_kind st = None")
      case True
      then show ?thesis using silent sql_mailbox_inv_cong [of db' db] report(2) by simp
    next
      case False
      then obtain p kind where "th_parent agent = Some p" "report_kind st = Some kind" by auto
      from sent [OF this] obtain m db2 where
        m: "report_message (cv_now cv) i (report_request turn p kind payload) db1 = Inr (m, db2)" "db_messages db' = db_messages db2"
        by blast
      have "sql_mailbox_inv db2" using report_message_inv [OF inv1 m(1)] by (simp add: report_request_def)
      then show ?thesis using sql_mailbox_inv_cong [OF m(2)] by simp
    qed
    moreover have "tables_inv tables" by (rule record_turn_inv [OF r report(3)])
    ultimately show ?thesis using db1(3) by simp
  qed
qed

lemma empty_db_inv: "sql_mailbox_inv empty_db \<and> tables_inv (db_tables empty_db)"
  by (simp add: empty_db_def sql_mailbox_inv_def rows_ok_def session_messages_def bt.inv_empty empty_tables_inv)

lemma db_steps_inv: "db_step\<^sup>*\<^sup>* empty_db db \<Longrightarrow> sql_mailbox_inv db \<and> tables_inv (db_tables db)"
  by (induction rule: rtranclp_induct) (use empty_db_inv db_step_inv in blast)+

lemma mem_mail_steps_inv: "mem_mail_step\<^sup>*\<^sup>* empty_mailbox st \<Longrightarrow> mem_mailbox_inv st"
  by (induction rule: rtranclp_induct) (use empty_mailbox_inv mem_mail_step_inv in blast)+

text \<open>A report the parent has a message about already changes no message.\<close>

lemma find_caused_cong:
  "db_messages db' = db_messages db \<Longrightarrow> find_caused q db' = find_caused q db"
  by (simp add: find_caused_def session_messages_def)

lemma find_caused_request: "find_caused (report_request t p kind payload) = find_caused (report_request t p kind payload')"
proof -
  have "same_cause (report_request t p kind payload) = same_cause (report_request t p kind payload')"
    by (simp add: report_request_def same_cause_def fun_eq_iff)
  moreover have "nq_session_id (report_request t p kind x) = tu_session_id t" for x by (simp add: report_request_def)
  ultimately show ?thesis by (intro ext) (simp only: find_caused_def)
qed

lemma record_turn_request:
  assumes "record_turn_row cv k turn_id next tb = Inr (turn, tables)" "bt_get (tb_turns tb) turn_id = Some t"
  shows "report_request turn p kind payload = report_request t p kind payload" "tu_agent_thread_id turn = tu_agent_thread_id t"
  using assms(1)
proof -
  from assms obtain v where v: "turn_transition next (cv_now cv) t = Inr v"
    "tu_id turn = tu_id v" "tu_agent_thread_id turn = tu_agent_thread_id v" "tu_session_id turn = tu_session_id v"
    by (auto elim!: record_turn_Inr)
  note same = turn_transition_Inr [OF v(1)]
  show "report_request turn p kind payload = report_request t p kind payload" "tu_agent_thread_id turn = tu_agent_thread_id t"
    using v same by (simp_all add: report_request_def)
qed

lemma repeated_report:
  assumes "record_turn_state cv k i turn_id next payload db = Inr (x, db')" "report_kind next = Some kind"
    and t: "bt_get (tb_turns (db_tables db)) turn_id = Some t" "bt_get (tb_threads (db_tables db)) (tu_agent_thread_id t) = Some agent"
      "th_parent agent = Some p"
    and y: "find_caused (report_request t p kind payload') db = Some y"
  shows "x = Some y \<and> db_messages db' = db_messages db"
  using assms(1)
proof (rule record_turn_state_Inr)
  fix turn tables agent' db1
  assume r: "record_turn_row cv k turn_id next (db_tables db) = Inr (turn, tables)"
    and a: "bt_get (tb_threads (db_tables db)) (tu_agent_thread_id turn) = Some agent'"
    and db1: "db_messages db1 = db_messages db"
    and sent: "\<And>p kind. th_parent agent' = Some p \<Longrightarrow> report_kind next = Some kind \<Longrightarrow>
       \<exists>m db2. report_message (cv_now cv) i (report_request turn p kind payload) db1 = Inr (m, db2)
         \<and> x = Some m \<and> db_messages db' = db_messages db2"
  note req = record_turn_request [OF r t(1)]
  have "agent' = agent" using a t(2) req(2) by simp
  then obtain m db2 where m: "report_message (cv_now cv) i (report_request t p kind payload) db1 = Inr (m, db2)"
    "x = Some m" "db_messages db' = db_messages db2" using sent [of p kind] t(3) assms(2) unfolding req(1) by blast
  have "find_caused (report_request t p kind payload) db1 = Some y"
    using y find_caused_cong [OF db1] find_caused_request [of t p kind payload payload'] by metis
  then show ?thesis using m db1 by (auto simp: report_message_def)
qed

text \<open>
  A turn that waits a second time is reported with the message of its first wait: the parent, which may have
  acknowledged it long ago, gets nothing new.
\<close>

lemma repeated_wait_is_silent:
  assumes "record_turn_state cv k i turn_id next payload db = Inr (x, db')" "needs_attention next"
    and "bt_get (tb_turns (db_tables db)) turn_id = Some t" "bt_get (tb_threads (db_tables db)) (tu_agent_thread_id t) = Some agent"
    and "th_parent agent = Some p" "find_caused (report_request t p KindNeedsAttention payload') db = Some y"
    and "mg_acknowledged_at y = Some when" "session_messages db (tu_session_id t) = [y]"
  shows "x = Some y \<and> filter (pending p None) (session_messages db' (tu_session_id t)) = []"
proof -
  have "report_kind next = Some KindNeedsAttention"
    using assms(2) by (auto simp: report_kind_def needs_attention_def turn_is_terminal_def)
  from repeated_report [OF assms(1) this assms(3,4,5,6)]
  have "x = Some y" "session_messages db' = session_messages db" by (simp_all add: session_messages_def fun_eq_iff)
  then show ?thesis using assms(7,8) by (simp add: pending_def)
qed

section \<open>Properties\<close>

text \<open>An agent with one message of its parent.\<close>

definition example_enqueue :: enqueue_request where
  "example_enqueue =
     \<lparr>nq_session_id = ''s'', nq_from = ''root1'', nq_to = ''child1'', nq_kind = KindMessage, nq_payload = JNull,
      nq_causation_id = None\<rparr>"

definition example_db :: collab_db where
  "example_db =
     \<lparr>db_tables = spawned_tables,
      db_messages = [(''m1'', \<lparr>mr_message = new_message 7 ''m1'' example_enqueue 1, mr_delivery_state = MarkPending\<rparr>)],
      db_ledger = []\<rparr>"

definition example_mailbox :: mailbox_state where
  "example_mailbox =
     \<lparr>ms_next_sequence = [''s'' \<mapsto> 1], ms_messages = [new_message 7 ''m1'' example_enqueue 1], ms_deduplication = Map.empty\<rparr>"

lemma example_db_reachable: "db_step\<^sup>*\<^sup>* empty_db example_db"
proof -
  have registry: "db_step\<^sup>*\<^sup>* (empty_db\<lparr>db_tables := tb\<rparr>) (empty_db\<lparr>db_tables := tb'\<rparr>)" if "collab_step\<^sup>*\<^sup>* tb tb'" for tb tb'
    using that
  proof (induction rule: rtranclp_induct)
    case (step tb1 tb2)
    have "db_step (empty_db\<lparr>db_tables := tb1\<rparr>) (empty_db\<lparr>db_tables := tb1, db_tables := tb2\<rparr>)"
      using step(2) by (intro db_step.registry) simp
    then show ?case using step(3) by simp
  qed simp
  have "empty_db = empty_db\<lparr>db_tables := empty_tables\<rparr>" by (simp add: empty_db_def)
  then have "db_step\<^sup>*\<^sup>* empty_db (empty_db\<lparr>db_tables := spawned_tables\<rparr>)" using registry [OF example_reachable] by simp
  moreover have "sql_enqueue 7 ''m1'' example_enqueue (empty_db\<lparr>db_tables := spawned_tables\<rparr>)
      = Inr (new_message 7 ''m1'' example_enqueue 1, example_db)"
    by (simp add: sql_enqueue_def example_db_def empty_db_def spawned_tables_def created_tables_def example_enqueue_def ok_or_def
        res_ensure_def find_caused_def next_message_sequence_def session_messages_def insert_message_row_def new_message_def
        bt_contains_def example_thread_def Let_def)
  ultimately show ?thesis using db_step.enqueue by (meson rtranclp.rtrancl_into_rtrancl)
qed

lemma example_mailbox_reachable: "mem_mail_step\<^sup>*\<^sup>* empty_mailbox example_mailbox"
proof -
  have "mem_enqueue 7 ''m1'' example_enqueue empty_mailbox = Inr (new_message 7 ''m1'' example_enqueue 1, example_mailbox)"
    by (simp add: mem_enqueue_def empty_mailbox_def example_mailbox_def example_enqueue_def new_message_def Let_def)
  then have "mem_mail_step empty_mailbox example_mailbox"
    by (rule mem_mail_step.enqueue [rotated]) (simp add: mem_unused_def empty_mailbox_def)
  then show ?thesis by blast
qed

lemma example_views:
  "sql_view example_db ''s'' = [new_message 7 ''m1'' example_enqueue 1]"
  "mem_view example_mailbox ''s'' = [new_message 7 ''m1'' example_enqueue 1]"
  by (simp_all add: sql_view_def session_messages_def example_db_def mem_view_def example_mailbox_def)
     (simp_all add: new_message_def example_enqueue_def)

lemma example_recorded:
  "\<exists>x db. record_turn_state (registry_example_env ''s'' ''t'' ''u'') ''o1'' ''m2'' ''turn2'' TurnCancelled JNull example_db = Inr (x, db)"
  by (simp add: record_turn_state_def record_turn_row_def example_db_def spawned_tables_def created_tables_def ok_or_def
      turn_transition_def can_transition_to_def turn_is_terminal_def queued_turn_def registry_example_env_def report_kind_def
      report_message_def report_request_def find_caused_def next_message_sequence_def session_messages_def insert_message_row_def
      new_message_def example_enqueue_def same_cause_def bt_contains_def res_ensure_def example_thread_def Let_def)

text \<open>
  C15: An agent that reads its mailbox page by page and acknowledges each page gets every message that was pending
  exactly once, in the order of their sequence, whatever the size of a page: as many rounds as there are pending
  messages are enough, and then nothing is pending.  This holds in every reachable state of the mailbox over SQLite and
  of the one in memory.
\<close>
theorem mailbox_drains:
  assumes "db_step\<^sup>*\<^sup>* empty_db db" and "mem_mail_step\<^sup>*\<^sup>* empty_mailbox st"
    and "length (filter (pending t None) (sql_view db s)) \<le> rounds" and "length (filter (pending t None) (mem_view st s)) \<le> rounds"
  shows "map visible (fst (drain sql_snapshot sql_acknowledge now s t limit rounds db)) = filter (pending t None) (sql_view db s)
    \<and> filter (pending t None) (sql_view (snd (drain sql_snapshot sql_acknowledge now s t limit rounds db)) s) = []
    \<and> map visible (fst (drain mem_snapshot mem_acknowledge now s t limit rounds st)) = filter (pending t None) (mem_view st s)
    \<and> filter (pending t None) (mem_view (snd (drain mem_snapshot mem_acknowledge now s t limit rounds st)) s) = []
    \<and> map mg_sequence (sql_view db s) = [1..<Suc (length (sql_view db s))]
    \<and> map mg_sequence (mem_view st s) = [1..<Suc (length (mem_view st s))]"
proof -
  have sql: "sql_mailbox_inv db" using db_steps_inv [OF assms(1)] ..
  have mem: "mem_mailbox_inv st" by (rule mem_mail_steps_inv [OF assms(2)])
  show ?thesis
    using sql_mailbox.drain_complete [OF sql assms(3)] mem_mailbox.drain_complete [OF mem assms(4)]
      sql_mailbox.sequences [OF sql] mem_mailbox.sequences [OF mem] by blast
qed

theorem mailbox_drains_witness:
  "map visible (fst (drain sql_snapshot sql_acknowledge 9 ''s'' ''child1'' 1 1 example_db)) = [new_message 7 ''m1'' example_enqueue 1]
    \<and> map visible (fst (drain mem_snapshot mem_acknowledge 9 ''s'' ''child1'' 1 1 example_mailbox)) = [new_message 7 ''m1'' example_enqueue 1]"
proof -
  have p: "filter (pending ''child1'' None) [new_message 7 ''m1'' example_enqueue 1] = [new_message 7 ''m1'' example_enqueue 1]"
    by (simp add: pending_def new_message_def example_enqueue_def)
  have "length (filter (pending ''child1'' None) (sql_view example_db ''s'')) \<le> 1"
    "length (filter (pending ''child1'' None) (mem_view example_mailbox ''s'')) \<le> 1"
    unfolding example_views p by simp_all
  from mailbox_drains [OF example_db_reachable example_mailbox_reachable this, of 9 1] show ?thesis
    unfolding example_views p by blast
qed

text \<open>
  C16: When the end of the turn of an agent with a parent is recorded, the mailbox of the parent holds a completion
  message for that turn, the turn has its final status and an outcome, and recording the same end again sends
  nothing more.
\<close>
theorem ended_turn_informs_parent:
  assumes "db_step\<^sup>*\<^sup>* empty_db db" and "record_turn_state cv k i turn_id next payload db = Inr (x, db')" and "turn_is_terminal next"
    and "bt_get (tb_turns (db_tables db)) turn_id = Some t" and "bt_get (tb_threads (db_tables db)) (tu_agent_thread_id t) = Some agent"
    and "th_parent agent = Some p"
  shows "\<exists>m t'. x = Some m \<and> m \<in> set (session_messages db' (tu_session_id t)) \<and> mg_to m = p \<and> mg_kind m = KindCompletion
    \<and> mg_causation_id m = Some turn_id
    \<and> bt_get (tb_turns (db_tables db')) turn_id = Some t' \<and> tu_status t' = next \<and> tu_outcome_ref t' \<noteq> None
    \<and> (\<forall>cv' k' i' payload' x' db''. record_turn_state cv' k' i' turn_id next payload' db' = Inr (x', db'')
         \<longrightarrow> x' = Some m \<and> db_messages db'' = db_messages db')"
  using assms(2)
proof (rule record_turn_state_Inr)
  fix turn tables agent' db1
  assume r: "record_turn_row cv k turn_id next (db_tables db) = Inr (turn, tables)"
    and a: "bt_get (tb_threads (db_tables db)) (tu_agent_thread_id turn) = Some agent'"
    and db1: "db_messages db1 = db_messages db" "db_tables db' = tables"
    and sent: "\<And>p kind. th_parent agent' = Some p \<Longrightarrow> report_kind next = Some kind \<Longrightarrow>
       \<exists>m db2. report_message (cv_now cv) i (report_request turn p kind payload) db1 = Inr (m, db2)
         \<and> x = Some m \<and> db_messages db' = db_messages db2"
  have inv: "sql_mailbox_inv db" "tables_inv (db_tables db)" using db_steps_inv [OF assms(1)] by blast+
  note req = record_turn_request [OF r assms(4)]
  have id: "tu_id t = turn_id" using tables_invD(1) [OF inv(2)] assms(4) by (simp add: keys_ok_def)
  have kind: "report_kind next = Some KindCompletion" using assms(3) by (simp add: report_kind_def)
  let ?q = "report_request t p KindCompletion payload"
  have "agent' = agent" using a assms(5) req(2) by simp
  then obtain m db2 where m: "report_message (cv_now cv) i ?q db1 = Inr (m, db2)" "x = Some m" "db_messages db' = db_messages db2"
    using sent [of p KindCompletion] assms(6) kind unfolding req(1) by blast
  have "sql_mailbox_inv db1" using inv(1) sql_mailbox_inv_cong [OF db1(1)] by simp
  from report_message_inv [OF this m(1)] have "find_caused ?q db2 = Some m" by (simp add: report_request_def)
  then have found: "find_caused ?q db' = Some m" using find_caused_cong [OF m(3)] by simp
  have "m \<in> set (session_messages db' (tu_session_id t)) \<and> same_cause ?q m"
    using find_Some_in [OF found [unfolded find_caused_def]] by (simp add: report_request_def)
  then have message: "m \<in> set (session_messages db' (tu_session_id t))" "mg_to m = p" "mg_kind m = KindCompletion"
    "mg_causation_id m = Some turn_id"
    using id by (simp_all add: same_cause_def report_request_def)
  obtain t' where t': "bt_get (tb_turns (db_tables db')) turn_id = Some t'" "tu_status t' = next" "tu_outcome_ref t' \<noteq> None"
      "tu_id t' = tu_id t" "tu_session_id t' = tu_session_id t" "tu_agent_thread_id t' = tu_agent_thread_id t"
    and threads: "tb_threads (db_tables db') = tb_threads (db_tables db)"
    using r
  proof (rule record_turn_Inr)
    fix u v
    assume u: "bt_get (tb_turns (db_tables db)) turn_id = Some u" "turn_transition next (cv_now cv) u = Inr v"
      "turn = v\<lparr>tu_outcome_ref := Some (case tu_outcome_ref v of Some x \<Rightarrow> x | None \<Rightarrow> k)\<rparr>" "tables = write_turn turn (db_tables db)"
    have "u = t" using u(1) assms(4) by simp
    with turn_transition_Inr [OF u(2)] id u(3,4) db1(2) show thesis by (intro that [of turn]) (simp_all add: bt_get_insert)
  qed
  have same: "report_request t' p KindCompletion = report_request t p KindCompletion" using t' by (simp add: report_request_def fun_eq_iff)
  have "x' = Some m \<and> db_messages db'' = db_messages db'"
    if "record_turn_state cv' k' i' turn_id next payload' db' = Inr (x', db'')" for cv' k' i' payload' x' db''
    using repeated_report [OF that kind t'(1) _ assms(6)] found threads assms(5) t'(6) unfolding same by simp
  then show ?thesis using m(2) message t'(1,2,3) by blast
qed

theorem ended_turn_informs_parent_witness:
  "\<exists>m db. record_turn_state (registry_example_env ''s'' ''t'' ''u'') ''o1'' ''m2'' ''turn2'' TurnCancelled JNull example_db = Inr (Some m, db)
    \<and> m \<in> set (session_messages db ''s'') \<and> mg_to m = ''root1'' \<and> mg_kind m = KindCompletion"
proof -
  obtain x db where r: "record_turn_state (registry_example_env ''s'' ''t'' ''u'') ''o1'' ''m2'' ''turn2'' TurnCancelled JNull example_db = Inr (x, db)"
    using example_recorded by blast
  have turn: "bt_get (tb_turns (db_tables example_db)) ''turn2''
      = Some (queued_turn 7 ''turn2'' ''s'' ''child1'' (Some (''root1'', ''turn1'')) 1 ''read it'')"
    and agent: "bt_get (tb_threads (db_tables example_db)) (tu_agent_thread_id (queued_turn 7 ''turn2'' ''s'' ''child1'' (Some (''root1'', ''turn1'')) 1 ''read it''))
      = Some (example_thread ''child1'' (Some ''root1'') ''/root/read'' ''read'' ''reader'' ''snap2'' (spawn_disabled 1))"
    and p: "th_parent (example_thread ''child1'' (Some ''root1'') ''/root/read'' ''read'' ''reader'' ''snap2'' (spawn_disabled 1)) = Some ''root1''"
    by (simp_all add: example_db_def spawned_tables_def queued_turn_def example_thread_def)
  have "turn_is_terminal TurnCancelled" by (simp add: turn_is_terminal_def)
  from ended_turn_informs_parent [OF example_db_reachable r this turn agent p] r show ?thesis
    by (auto simp: queued_turn_def)
qed
end
