(* ===== verification/Collaboration_Service.thy ===== *)
theory Collaboration_Service
  imports Mailbox
begin

text \<open>
  The service the collaboration tools of an agent call (\<open>collaboration/service.rs\<close>) over the tables: it changes them
  through the registry, hands whole runs to the scheduler (\<open>collaboration/run_scheduler.rs\<close>) and sends messages.  The
  scheduler is a parameter: it accepts a command or refuses it with a message.  An operation returns its result, the
  tables and the commands the scheduler has accepted, in their order.
\<close>

section \<open>The service\<close>

datatype run_resume_signal =
    ApprovalSignal "uuid option" bool
  | UserInputSignal uuid json \<comment> \<open>the response of the user, serialised\<close>
  | ExternalActionSignal string

datatype run_command =
    StartRun uuid uuid uuid \<comment> \<open>session, agent, turn\<close>
  | ResumeRun uuid uuid uuid nat run_resume_signal
  | CancelRun uuid uuid uuid

datatype runtime_error =
    RuntimeDomain collab_error
  | RuntimeMailbox mailbox_error
  | RunSubmission uuid string

type_synonym scheduler = "run_command \<Rightarrow> string option"

definition sql_get_thread :: "uuid \<Rightarrow> collab_tables \<Rightarrow> collab_error + agent_thread" where
  "sql_get_thread i tb = ok_or (bt_get (tb_threads tb) i) (CollabPersistence ''AgentThread was not found'')"

definition submit_start ::
    "scheduler \<Rightarrow> agent_thread \<Rightarrow> agent_turn \<Rightarrow> (runtime_error + unit) \<times> run_command list" where
  "submit_start submit agent turn =
     (let command = StartRun (th_session_id agent) (th_id agent) (tu_id turn) in
      case submit command of
        Some message \<Rightarrow> (Inl (RunSubmission (tu_id turn) message), [])
      | None \<Rightarrow> (Inr (), [command]))"

definition service_spawn_agent ::
    "scheduler \<Rightarrow> collab_env \<Rightarrow> spawn_request \<Rightarrow> collab_tables
      \<Rightarrow> (runtime_error + agent_thread \<times> agent_turn) \<times> collab_tables \<times> run_command list" where
  "service_spawn_agent submit cv q tb =
     (case sql_spawn_agent cv q tb of
        Inl e \<Rightarrow> (Inl (RuntimeDomain e), tb, [])
      | Inr ((agent, turn), tb') \<Rightarrow>
          (case submit_start submit agent turn of
             (Inl e, commands) \<Rightarrow> (Inl e, tb', commands)
           | (Inr _, commands) \<Rightarrow> (Inr (agent, turn), tb', commands)))"

definition followup_task ::
    "scheduler \<Rightarrow> collab_env \<Rightarrow> followup_request \<Rightarrow> collab_tables
      \<Rightarrow> (runtime_error + agent_turn) \<times> collab_tables \<times> run_command list" where
  "followup_task submit cv q tb =
     (case sql_create_followup_turn cv q tb of
        Inl e \<Rightarrow> (Inl (RuntimeDomain e), tb, [])
      | Inr (turn, tb') \<Rightarrow>
          (case sql_get_thread (tu_agent_thread_id turn) tb' of
             Inl e \<Rightarrow> (Inl (RuntimeDomain e), tb', [])
           | Inr agent \<Rightarrow>
               (case submit_start submit agent turn of
                  (Inl e, commands) \<Rightarrow> (Inl e, tb', commands)
                | (Inr _, commands) \<Rightarrow> (Inr turn, tb', commands))))"

definition send_message ::
    "timestamp \<Rightarrow> uuid \<Rightarrow> uuid \<Rightarrow> uuid \<Rightarrow> message_kind \<Rightarrow> json \<Rightarrow> uuid option \<Rightarrow> collab_db
      \<Rightarrow> runtime_error + mailbox_message \<times> collab_db" where
  "send_message now i caller_id target_id kind payload causation db =
     res_bind (map_err RuntimeDomain (sql_get_thread caller_id (db_tables db))) (\<lambda>caller.
     res_bind (map_err RuntimeDomain (sql_get_thread target_id (db_tables db))) (\<lambda>target.
     res_ensure (th_session_id caller = th_session_id target) (RuntimeDomain (AgentThreadNotFound (th_id target)))
       (map_err RuntimeMailbox (sql_enqueue now i
          \<lparr>nq_session_id = th_session_id caller, nq_from = th_id caller, nq_to = th_id target, nq_kind = kind,
           nq_payload = payload, nq_causation_id = causation\<rparr> db))))"

definition subtree_of :: "agent_thread \<Rightarrow> agent_thread list \<Rightarrow> agent_thread list" where
  \<comment> \<open>the agents to cancel, the deepest first\<close>
  "subtree_of target agents =
     sort_key (\<lambda>a. - int (path_depth (th_path a)))
       (filter (\<lambda>a. th_id a = th_id target \<or> is_descendant_of (th_path a) (th_path target)) agents)"

fun cancel_all ::
    "scheduler \<Rightarrow> collab_tables \<Rightarrow> agent_thread list \<Rightarrow> (runtime_error + unit) \<times> run_command list" where
  "cancel_all submit tb [] = (Inr (), [])"
| "cancel_all submit tb (a # agents) =
     (case sql_latest_turn (th_id a) tb of
        Inl e \<Rightarrow> (Inl (RuntimeDomain e), [])
      | Inr None \<Rightarrow> cancel_all submit tb agents
      | Inr (Some turn) \<Rightarrow>
          if turn_is_terminal (tu_status turn) then cancel_all submit tb agents
          else
            (let command = CancelRun (th_session_id a) (th_id a) (tu_id turn) in
             case submit command of
               Some message \<Rightarrow> (Inl (RunSubmission (tu_id turn) message), [])
             | None \<Rightarrow> (let (r, commands) = cancel_all submit tb agents in (r, command # commands))))"

definition interrupt_agent ::
    "scheduler \<Rightarrow> agent_thread \<Rightarrow> collab_tables \<Rightarrow> (runtime_error + agent_turn option) \<times> run_command list" where
  "interrupt_agent submit target tb =
     (case sql_latest_turn (th_id target) tb of
        Inl e \<Rightarrow> (Inl (RuntimeDomain e), [])
      | Inr None \<Rightarrow> (Inr None, [])
      | Inr (Some turn) \<Rightarrow>
          if turn_is_terminal (tu_status turn) then (Inr (Some turn), [])
          else
            (case sql_list_threads (th_session_id target) tb of
               Inl e \<Rightarrow> (Inl (RuntimeDomain e), [])
             | Inr agents \<Rightarrow>
                 (case cancel_all submit tb (subtree_of target agents) of
                    (Inl e, commands) \<Rightarrow> (Inl e, commands)
                  | (Inr _, commands) \<Rightarrow> (Inr (Some turn), commands))))"

section \<open>Submissions\<close>

lemma recoverable_iff:
  "tables_inv tb \<Longrightarrow> t \<in> set (list_recoverable_turns tb)
    \<longleftrightarrow> bt_get (tb_turns tb) (tu_id t) = Some t \<and> tu_status t \<in> {TurnQueued, TurnRunning}"
proof -
  assume inv: "tables_inv tb"
  have "bt_inv (tb_turns tb)" and keys: "bt_get (tb_turns tb) k = Some t \<Longrightarrow> tu_id t = k" for k
    using tables_invD(1) [OF inv] by (simp_all add: keys_ok_def)
  then have "t \<in> set (map snd (tb_turns tb)) \<longleftrightarrow> bt_get (tb_turns tb) (tu_id t) = Some t" using bt_rows by metis
  then show ?thesis unfolding list_recoverable_turns_def set_sort set_filter by blast
qed

lemma spawned_turn_stored:
  assumes "sql_spawn_agent cv q tb = Inr ((agent, turn), tb')"
  shows "bt_get (tb_turns tb') (tu_id turn) = Some turn" "tu_status turn = TurnQueued" "tu_agent_thread_id turn = th_id agent"
  using assms by (auto elim!: spawn_agent_Inr dest!: insert_turn_row_Inr simp: bt_get_insert)
     (auto simp: queued_turn_def)

lemma followup_turn_stored:
  assumes "sql_create_followup_turn cv q tb = Inr (turn, tb')"
  shows "bt_get (tb_turns tb') (tu_id turn) = Some turn" "tu_status turn = TurnQueued"
  using assms by (auto simp: sql_create_followup_turn_def res_Inr_iffs Let_def bt_get_insert dest!: insert_turn_row_Inr)
     (auto simp: queued_turn_def)

section \<open>Cancelling a subtree\<close>

definition unfinished :: "collab_tables \<Rightarrow> agent_thread \<Rightarrow> agent_turn option" where
  "unfinished tb a =
     (case read_latest_turn tb (th_id a) of
        Some turn \<Rightarrow> if turn_is_terminal (tu_status turn) then None else Some turn
      | None \<Rightarrow> None)"

definition cancel_command :: "collab_tables \<Rightarrow> agent_thread \<Rightarrow> run_command option" where
  "cancel_command tb a = map_option (\<lambda>turn. CancelRun (th_session_id a) (th_id a) (tu_id turn)) (unfinished tb a)"

lemma cancel_all_accepted:
  assumes "\<forall>a \<in> set agents. bt_contains (tb_threads tb) (th_id a)" and "\<forall>c. submit c = None"
  shows "cancel_all submit tb agents = (Inr (), List.map_filter (cancel_command tb) agents)"
  using assms
  by (induction agents)
     (auto simp: sql_latest_turn_def res_ensure_def List.map_filter_def cancel_command_def unfinished_def Let_def split: option.splits)

lemma thread_path_names:
  assumes "tables_inv tb" "bt_get (tb_threads tb) i = Some a"
  obtains ns where "task_names ns" "th_path a = path_of ns" "path_depth (th_path a) = length ns"
proof -
  have "thread_ok tb a" by (rule threads_okD(3) [OF tables_invD(2) [OF assms(1)] assms(2)])
  then obtain s ns where s: "bt_get (tb_sessions tb) (th_session_id a) = Some s" "task_names ns" "th_path a = path_of ns"
    "length ns \<le> sp_max_depth (se_policy s)" unfolding thread_ok_def by blast
  have "length ns < 65536" using s(4) threads_okD(1) [OF tables_invD(2) [OF assms(1)] s(1)] by simp
  then show thesis using that [OF s(2,3)] path_depth_of [OF s(2)] s(3) by simp
qed

lemma descendant_is_deeper:
  assumes "tables_inv tb" "bt_get (tb_threads tb) i = Some a" "bt_get (tb_threads tb) j = Some b"
    and "is_descendant_of (th_path a) (th_path b)"
  shows "path_depth (th_path b) < path_depth (th_path a)"
proof -
  obtain ms where ms: "task_names ms" "th_path a = path_of ms" "path_depth (th_path a) = length ms"
    by (rule thread_path_names [OF assms(1,2)])
  obtain ns where ns: "task_names ns" "th_path b = path_of ns" "path_depth (th_path b) = length ns"
    by (rule thread_path_names [OF assms(1,3)])
  have "strict_prefix ns ms" using assms(4) is_descendant_of_path_of [OF ms(1) ns(1)] by (simp add: ms ns)
  then show ?thesis using prefix_length_less by (simp add: ms(3) ns(3))
qed

lemma threads_distinct:
  assumes "tables_inv tb"
  shows "distinct (map snd (tb_threads tb))"
proof -
  have inv: "bt_inv (tb_threads tb)" and keys: "\<forall>i t. bt_get (tb_threads tb) i = Some t \<longrightarrow> th_id t = i"
    using tables_invD(1) [OF assms] by (simp_all add: keys_ok_def)
  have "map th_id (map snd (tb_threads tb)) = map fst (tb_threads tb)" using keys bt_get_of_mem [OF inv] by auto
  then have "distinct (map th_id (map snd (tb_threads tb)))" using bt_inv_distinct [OF inv] by (simp only:)
  then show ?thesis by (metis distinct_map)
qed

lemma thread_listed:
  assumes "tables_inv tb"
  shows "a \<in> set (map snd (tb_threads tb)) \<longleftrightarrow> bt_get (tb_threads tb) (th_id a) = Some a"
  using bt_rows [of "tb_threads tb" a] tables_invD(1) [OF assms] by (auto simp: keys_ok_def)

lemma subtree_of_listed:
  assumes inv: "tables_inv tb" and target: "bt_get (tb_threads tb) (th_id target) = Some target"
    and agents: "sql_list_threads (th_session_id target) tb = Inr agents"
  shows "set (subtree_of target agents) = {a. bt_get (tb_threads tb) (th_id a) = Some a \<and> th_session_id a = th_session_id target
      \<and> (a = target \<or> is_descendant_of (th_path a) (th_path target))}"
    "distinct (subtree_of target agents)"
    "sorted_wrt (\<lambda>a b. \<not> is_descendant_of (th_path b) (th_path a)) (subtree_of target agents)"
proof -
  let ?l = "subtree_of target agents"
  have eq: "agents = sort_key th_path (filter (\<lambda>t. th_session_id t = th_session_id target) (map snd (tb_threads tb)))"
    using agents by (simp add: sql_list_threads_def res_Inr_iffs)
  have listed: "a \<in> set agents \<longleftrightarrow> bt_get (tb_threads tb) (th_id a) = Some a \<and> th_session_id a = th_session_id target" for a
    using thread_listed [OF inv, of a] by (auto simp: eq simp del: set_map)
  show set: "set ?l = {a. bt_get (tb_threads tb) (th_id a) = Some a \<and> th_session_id a = th_session_id target
      \<and> (a = target \<or> is_descendant_of (th_path a) (th_path target))}"
    using target by (auto simp: subtree_of_def listed)
  show "distinct ?l" using threads_distinct [OF inv] by (simp add: subtree_of_def eq)
  have "sorted_wrt (\<lambda>a b. path_depth (th_path b) \<le> path_depth (th_path a)) ?l"
    using sorted_sort_key [of "\<lambda>a. - int (path_depth (th_path a))"] unfolding subtree_of_def sorted_map by simp
  then show "sorted_wrt (\<lambda>a b. \<not> is_descendant_of (th_path b) (th_path a)) ?l"
  proof (rule sorted_wrt_mono_rel [rotated])
    fix a b assume "a \<in> set ?l" "b \<in> set ?l" "path_depth (th_path b) \<le> path_depth (th_path a)"
    then show "\<not> is_descendant_of (th_path b) (th_path a)"
      using descendant_is_deeper [OF inv, of "th_id b" b "th_id a" a] unfolding set by auto
  qed
qed

section \<open>Properties\<close>



text \<open>
  C18: A turn whose submission to the scheduler fails is not lost.  If spawning an agent or a follow-up ends with the
  refusal of the scheduler, no run was started and the turn is stored, queued, and among those the recovery at the
  next start resumes.
\<close>
theorem refused_submission_is_recoverable:
  assumes "collab_step\<^sup>*\<^sup>* empty_tables tb"
    and "service_spawn_agent submit cv w tb = (Inl (RunSubmission i e), tb', cs)
      \<or> followup_task submit cv q tb = (Inl (RunSubmission i e), tb', cs)"
  shows "cs = [] \<and> (\<exists>turn \<in> set (list_recoverable_turns tb'). tu_id turn = i \<and> tu_status turn = TurnQueued)"
proof -
  have inv: "tables_inv tb" by (rule collab_steps_inv [OF assms(1) empty_tables_inv])
  from assms(2) show ?thesis
  proof
    assume "service_spawn_agent submit cv w tb = (Inl (RunSubmission i e), tb', cs)"
    then obtain agent turn where s: "sql_spawn_agent cv w tb = Inr ((agent, turn), tb')" "cs = []" "i = tu_id turn"
      by (auto simp: service_spawn_agent_def submit_start_def Let_def split: sum.splits option.splits)
    then show ?thesis
      using recoverable_iff [OF spawn_agent_inv [OF s(1) inv], of turn] spawned_turn_stored [OF s(1)] by auto
  next
    assume "followup_task submit cv q tb = (Inl (RunSubmission i e), tb', cs)"
    then obtain turn where s: "sql_create_followup_turn cv q tb = Inr (turn, tb')" "cs = []" "i = tu_id turn"
      by (auto simp: followup_task_def submit_start_def Let_def split: sum.splits option.splits)
    then show ?thesis
      using recoverable_iff [OF followup_turn_inv [OF s(1) inv], of turn] followup_turn_stored [OF s(1)] by auto
  qed
qed

theorem refused_submission_is_recoverable_witness:
  "\<exists>turn \<in> set (list_recoverable_turns spawned_tables). tu_id turn = ''turn2'' \<and> tu_status turn = TurnQueued"
proof -
  have created: "collab_step\<^sup>*\<^sup>* empty_tables created_tables"
    using example_created collab_step.create [of "registry_example_env ''s'' ''root1'' ''u''" example_create empty_tables]
    by (auto simp: example_create_def)
  obtain agent turn where s: "sql_spawn_agent (registry_example_env ''s'' ''child1'' ''turn2'') example_spawn created_tables
      = Inr ((agent, turn), spawned_tables)"
    using example_agent_spawned by blast
  from s have "tu_id turn = ''turn2''" by (rule spawn_agent_Inr) (simp add: queued_turn_def registry_example_env_def)
  with s have "service_spawn_agent (\<lambda>c. Some ''offline'') (registry_example_env ''s'' ''child1'' ''turn2'') example_spawn created_tables
      = (Inl (RunSubmission ''turn2'' ''offline''), spawned_tables, [])"
    by (simp add: service_spawn_agent_def submit_start_def Let_def)
  with refused_submission_is_recoverable [OF created] show ?thesis by blast
qed

end
