(* ===== verification/Spec2Isabelle.thy ===== *)
theory Spec2Isabelle
  imports Policy Flow_System Flow_Outcomes Agent_Instance Flow_Compiler Flow_Delivery Goal_Store Effect_Journal
    Collaboration_Sim Collaboration_Service
begin

text \<open>
  A verification library for OpenTopia, a local workbench in which agents run tools in a workspace and take
  part in long-running flows.  The Rust sources are under \<open>src/crates\<close>; the paths below are relative to
  \<open>opentopia-core/src\<close> unless the server is named.

  \<^bold>\<open>The parts and how they interact.\<close>  An agent asks to run a tool.  The policy engine decides whether the call
  is permitted, denied or needs approval; for a shell command it relies on a static analysis of the command
  text.  A permitted or approved call gets a grant, an attenuated copy of the session's sandbox
  configuration, and the grant becomes the command line of a confined process.  A flow is a graph of
  nodes; a run of it is stored in a database and driven by a loop that executes nodes in supersteps,
  records their results in a checkpoint, commits them and routes to the next nodes.  A run may wait for a
  human task and be resumed, paused, cancelled or recovered by others while its driver works; all of them
  write through a revision check.
  The graph of a run comes from a flow draft that is validated, simulated, published and compiled; the agents
  that execute its nodes are instances of published templates and inherit capabilities, models, resources
  and connection operations that only narrow along delegation.  A conversation may pursue a goal: its work
  form, a plan with dependencies, is edited by clients and by the plan tool, and decides when a turn may
  end.  The tool calls of a durable turn are recorded in a journal before they execute, so that a repeated
  call is replayed, refused or executed again depending on what is known about the first.
  The output of a finished run is delivered once, to the inbox, a webhook, a connection or a human.  Agents of
  one task form a session, a tree of agents with paths; they spawn others within the limits of the session and
  give each other turns and messages.

  \<^bold>\<open>Theories.\<close>
  \<^item> \<open>Prelude\<close>: strings as UTF-8 bytes, saturating counters, results, list lemmas.
  \<^item> \<open>Json\<close>: JSON values and ordered maps; the locale \<open>ordered_map\<close> states what clients of a map use.
  \<^item> \<open>Shell_Lexer\<close>, \<open>Shell_Analysis\<close>, \<open>Shell_Safety\<close> (\<open>shell_analysis.rs\<close>): the lexer, the search for nested
    regions, the classification of segments and their aggregation; the invariants of the analysis, that no
    deletion is overlooked, and that a strictly read-only verdict is an allow-list.
  \<^item> \<open>Paths\<close>, \<open>Sandbox\<close> (\<open>sandbox/contract.rs\<close>, \<open>sandbox/path_policy.rs\<close>, \<open>sandbox/command.rs\<close>): paths as
    lists of components over a file system given as a record, the sandbox configuration and the command
    lines for Linux and macOS; that enforcement fails closed and what is mounted how.
  \<^item> \<open>Execution_Grant\<close> (\<open>execution_authorization.rs\<close>): the resolution of a grant; that it attenuates.
  \<^item> \<open>Policy\<close> (\<open>policy.rs\<close>): the policy engine; the locales \<open>policy_engine\<close> and \<open>write_denying_engine\<close> state the
    interface of the trait and are interpreted on the basic engine and on its observing modes.
  \<^item> \<open>Workflow_State\<close> (\<open>workflow_state.rs\<close>): the typed state channels of a flow.
  \<^item> \<open>Flow_Graph\<close> (\<open>flow.rs\<close>, \<open>workflow_automation.rs\<close>, \<open>flow_activation.rs\<close>): graphs, triggers, activation.
  \<^item> \<open>Fingerprint\<close> (\<open>model_context.rs\<close>), \<open>Workflow_Interrupt\<close> (\<open>workflow_interrupt.rs\<close>), \<open>Human_Task\<close>
    (\<open>human_task.rs\<close>): sealed continuations, interrupts, resume commands, and the life of a human task.
  \<^item> \<open>Flow_Run\<close>, \<open>Flow_Steps\<close>, \<open>Flow_Resume\<close> (\<open>flow_runtime.rs\<close>): the run, its steps and its resumption;
    \<open>Flow_Control\<close> (\<open>flow_tools.rs\<close>, \<open>flows_api.rs\<close> and \<open>human_tasks_api.rs\<close> of the server,
    \<open>store/sqlite_runtime.rs\<close>): requests from outside and recovery.
  \<^item> \<open>Flow_Store\<close> (\<open>store.rs\<close>, \<open>store/flow_runtime_repository.rs\<close>): the tables with revisions; the locale
    \<open>cas_table\<close> states their contract and is interpreted on the runs and on the tasks.
  \<^item> \<open>Flow_Frame\<close>: what the operations on a run leave alone; \<open>Flow_Driver\<close>: the driver and its progress;
    \<open>Flow_Outcomes\<close>: properties of single steps; \<open>Flow_System\<close>: the interleaving of all writers.
  \<^item> \<open>Capabilities\<close> (\<open>enterprise.rs\<close>): capability projections, experience surfaces, routes and model
    policies; the locale \<open>scope\<close> states the laws of a scope of names or workspaces, and the projections refine
    sets of granted capabilities.  \<open>Connection_Grants\<close> (\<open>enterprise_connection_grants.rs\<close>): bindings of
    connections, their intersection and comparison.  \<open>Json_Schema\<close>: the schema validator.
  \<^item> \<open>Agent_Template\<close>, \<open>Agent_Instance\<close> (\<open>enterprise.rs\<close>): versions of templates, their comparison and
    publication; instances, their delegation and the check of the execution boundary; that nothing widens
    without approval.
  \<^item> \<open>Flow_Compiler\<close> (\<open>flow.rs\<close>): validation, compilation, simulation and publication of flow drafts; that the
    search for unbounded cycles is exact and that a valid graph is well formed.
  \<^item> \<open>Workflow_Compile\<close> (\<open>workflow.rs\<close>, \<open>connection_operation_runtime.rs\<close>): a published definition compiled with the
    frozen specification of each agent node, and the revisions of active flows; that the authority of a
    compiled agent is exactly the one its template grants and that the harness holds nothing else.
  \<^item> \<open>Flow_Case\<close> (\<open>workflow_automation.rs\<close>, \<open>store/workflow_automation_repository.rs\<close>, \<open>flow_cases_service.rs\<close> of the
    server): the case an event opens, its start and supersession, and the interleaving of its handlers; that
    an event starts at most one run and that the handlers refine the steps.
  \<^item> \<open>Flow_Delivery\<close> (\<open>workflow_automation.rs\<close>, \<open>store/workflow_automation_repository.rs\<close>, and \<open>workflow_delivery.rs\<close>,
    \<open>flow_cases_api.rs\<close>, \<open>human_tasks_api.rs\<close> of the server): receipts, the delivery of the output of a run, retries,
    reconciliation after a restart and the filter for credentials; that the server calls a provider at most once
    per run of its own accord and that the filter is exact.
  \<^item> \<open>Work_Form\<close> (\<open>work_form.rs\<close>, \<open>completion_runtime.rs\<close>): plans with dependencies and the completion gate;
    \<open>Goal_Store\<close> (\<open>store.rs\<close>, \<open>store/goal_event_repository.rs\<close>, \<open>tools/work_form_tools.rs\<close>, and
    \<open>conversation_api.rs\<close>, \<open>message_api.rs\<close>, \<open>main.rs\<close> of the server): all writers of a goal and its form.
  \<^item> \<open>Effect_Journal\<close> (\<open>effect_journal.rs\<close>, \<open>store.rs\<close>, \<open>tool_runtime.rs\<close>): the journal of effects and its use
    around a tool call, with concurrent calls and restarts.
  \<^item> \<open>Agent_Path\<close>, \<open>Collaboration\<close> (\<open>collaboration/domain.rs\<close>, \<open>collaboration/registry.rs\<close>): paths of agents, which
    refine lists of task names; policies, agents and turns, and the registry in memory.
    \<open>Collaboration_Store\<close> (\<open>collaboration/sqlite_repository.rs\<close> and the files below it): the registry over SQLite and the
    invariant of its tables: limits, narrowing, one unfinished turn per agent.  \<open>Collaboration_Sim\<close>: both registries
    answer alike; the locale \<open>turn_registry\<close> states what a client relies on and is interpreted on both.
  \<^item> \<open>Mailbox\<close> (\<open>collaboration/mailbox.rs\<close>, \<open>collaboration/sqlite_repository/mailbox_repository.rs\<close>): messages between agents
    and the report of a turn to the parent; the locale \<open>mailbox\<close> is interpreted on the mailbox in memory and on the one
    over SQLite.  \<open>Collaboration_Service\<close> (\<open>collaboration/service.rs\<close>): spawning, follow-ups, messages and the
    interruption of a subtree, over a scheduler that is a parameter.

  \<^bold>\<open>Conventions.\<close>  A struct is a record with a prefix for its fields, an enum a datatype; an error is a value of a
  sum type.  Unsigned 32-bit counters are natural numbers with the saturating and truncating operations
  written out, and so is the 16-bit depth of an agent path; the fingerprint works on 64-bit words.  Time is a number of nanoseconds.  What the code
  obtains from outside is an argument: the clock, random and derived identifiers, parsers and typed
  deserialisation (\<open>runtime_env\<close>), the file system, the environment variables, the agent harness.

  \<^bold>\<open>Bounds.\<close>  The analysis of nested regions stops at depth 32, as the code does.  The writers of node results try
  eight times, as the code does.  The loop of the driver has fuel; three turns per allowed node execution
  and four more are proved to be enough when no one else writes.  The searches of the flow compiler and the
  peeling of dependencies in a work form are functions with a measure, without fuel.

  \<^bold>\<open>Not modelled.\<close>  Failures of SQLite other than its uniqueness and foreign key constraints; the Windows sandbox helper and the
  Windows comparison of paths; two drivers of one run at the same time; the usage counters of goals; poisoned
  locks; the streams of activity, the snapshots and the scheduler of collaborating agents; asynchronous
  orchestration of model calls, providers, tools, office formats, browsers and the HTTP layer, which are
  I/O around the modelled core.
\<close>

end
